(* ===== verification/Prelude.thy ===== *)
theory Prelude
  imports Main "HOL-Library.Char_ord" "HOL-Library.List_Lexorder" "HOL-Library.AList"
begin

text \<open>Prelude of the gateway development: collections of rewrite rules, and the
  pieces of Python's standard library the sources use everywhere (string methods on ASCII
  text, first-occurrence de-duplication, \<open>sorted(set(...))\<close>, \<open>dict\<close> lookup and update on
  insertion-ordered association lists).  Text is a list of characters; the model's text is
  ASCII, which is what every identifier, host name and policy entry of the gateway is.\<close>

named_theorems pystr \<open>rewriting of the Python string functions\<close>
named_theorems docsimp \<open>rewriting of documents, queries and updates\<close>

section \<open>Characters\<close>

definition is_space :: "char \<Rightarrow> bool" where
  "is_space c = ((of_char c :: nat) = 32 \<or> (9 \<le> (of_char c :: nat) \<and> (of_char c :: nat) \<le> 13)
                 \<or> (28 \<le> (of_char c :: nat) \<and> (of_char c :: nat) \<le> 31))"

definition is_upper :: "char \<Rightarrow> bool" where
  "is_upper c = (65 \<le> (of_char c :: nat) \<and> (of_char c :: nat) \<le> 90)"

definition is_lower :: "char \<Rightarrow> bool" where
  "is_lower c = (97 \<le> (of_char c :: nat) \<and> (of_char c :: nat) \<le> 122)"

definition is_digit :: "char \<Rightarrow> bool" where
  "is_digit c = (48 \<le> (of_char c :: nat) \<and> (of_char c :: nat) \<le> 57)"

definition is_alnum :: "char \<Rightarrow> bool" where
  "is_alnum c = (is_upper c \<or> is_lower c \<or> is_digit c)"

definition lower_char :: "char \<Rightarrow> char" where
  "lower_char c = (if is_upper c then char_of ((of_char c :: nat) + 32) else c)"

definition upper_char :: "char \<Rightarrow> char" where
  "upper_char c = (if is_lower c then char_of ((of_char c :: nat) - 32) else c)"

section \<open>String methods\<close>

definition lower :: "string \<Rightarrow> string" where
  "lower s = map lower_char s"

definition upper :: "string \<Rightarrow> string" where
  "upper s = map upper_char s"

definition lstrip :: "string \<Rightarrow> string" where
  "lstrip s = dropWhile is_space s"

definition rstrip :: "string \<Rightarrow> string" where
  "rstrip s = rev (dropWhile is_space (rev s))"

definition strip :: "string \<Rightarrow> string" where
  "strip s = rstrip (lstrip s)"

definition rstrip_char :: "char \<Rightarrow> string \<Rightarrow> string" where
  "rstrip_char c s = rev (dropWhile (\<lambda>x. x = c) (rev s))"

definition startswith :: "string \<Rightarrow> string \<Rightarrow> bool" where
  "startswith s p = (take (length p) s = p)"

definition endswith :: "string \<Rightarrow> string \<Rightarrow> bool" where
  "endswith s p = startswith (rev s) (rev p)"

text \<open>Splitting at every character of a class, empty pieces kept: \<open>s.split(c)\<close> is the
  class of one character.\<close>
fun split_by :: "(char \<Rightarrow> bool) \<Rightarrow> string \<Rightarrow> string list" where
  "split_by p [] = [[]]"
| "split_by p (x # xs) =
     (if p x then [] # split_by p xs
      else (case split_by p xs of [] \<Rightarrow> [[x]] | w # ws \<Rightarrow> (x # w) # ws))"

definition split_on :: "char \<Rightarrow> string \<Rightarrow> string list" where
  "split_on c s = split_by (\<lambda>x. x = c) s"

text \<open>Maximal runs of characters outside a separator class: \<open>s.split()\<close> is the case of
  white space, \<open>re.split("[,\s]+", s)\<close> without its empty pieces that of white space and commas.\<close>
definition words_by :: "(char \<Rightarrow> bool) \<Rightarrow> string \<Rightarrow> string list" where
  "words_by p s = filter (\<lambda>w. w \<noteq> []) (split_by p s)"

definition split_ws :: "string \<Rightarrow> string list" where
  "split_ws s = words_by is_space s"

text \<open>\<open>s.partition(c)\<close>: the text before the first separator, whether it was found, the rest.\<close>
definition partition_at :: "char \<Rightarrow> string \<Rightarrow> string \<times> bool \<times> string" where
  "partition_at c s =
     (takeWhile (\<lambda>x. x \<noteq> c) s,
      c \<in> set s,
      drop 1 (dropWhile (\<lambda>x. x \<noteq> c) s))"

text \<open>\<open>sep.join(parts)\<close>.\<close>
fun join :: "string \<Rightarrow> string list \<Rightarrow> string" where
  "join sep [] = []"
| "join sep [x] = x"
| "join sep (x # y # zs) = x @ sep @ join sep (y # zs)"

text \<open>\<open>needle in haystack\<close> on text.\<close>
fun contains_str :: "string \<Rightarrow> string \<Rightarrow> bool" where
  "contains_str [] p = (p = [])"
| "contains_str (x # xs) p = (startswith (x # xs) p \<or> contains_str xs p)"

text \<open>Decimal text of a number, and Python's \<open>int(text)\<close> on it (underscores, which
  \<open>int\<close> also accepts between digits, included).\<close>
fun nat_str :: "nat \<Rightarrow> string" where
  "nat_str n = (if n < 10 then [char_of (48 + n)] else nat_str (n div 10) @ [char_of (48 + n mod 10)])"

declare nat_str.simps [simp del]

definition int_str :: "int \<Rightarrow> string" where
  "int_str i = (if i < 0 then CHR ''-'' # nat_str (nat (- i)) else nat_str (nat i))"

definition digit_val :: "char \<Rightarrow> nat" where
  "digit_val c = of_char c - 48"

fun parse_digits :: "nat \<Rightarrow> string \<Rightarrow> nat option" where
  "parse_digits acc [] = Some acc"
| "parse_digits acc (c # cs) =
     (if is_digit c then parse_digits (acc * 10 + digit_val c) cs
      else if c = CHR ''_'' then
        (case cs of d # _ \<Rightarrow> if is_digit d then parse_digits acc cs else None | [] \<Rightarrow> None)
      else None)"

definition parse_nat :: "string \<Rightarrow> nat option" where
  "parse_nat s = (case s of c # _ \<Rightarrow> if is_digit c then parse_digits 0 s else None | [] \<Rightarrow> None)"

definition parse_int :: "string \<Rightarrow> int option" where
  "parse_int s =
     (case strip s of
        [] \<Rightarrow> None
      | c # cs \<Rightarrow>
          if c = CHR ''-'' then map_option (\<lambda>n. - int n) (parse_nat cs)
          else if c = CHR ''+'' then map_option int (parse_nat cs)
          else map_option int (parse_nat (c # cs)))"

section \<open>Lists and insertion-ordered dictionaries\<close>

text \<open>First-occurrence de-duplication: the \<open>seen\<close> loop of the sources.\<close>
fun dedup :: "'a list \<Rightarrow> 'a list" where
  "dedup [] = []"
| "dedup (x # xs) = x # filter (\<lambda>y. y \<noteq> x) (dedup xs)"

text \<open>\<open>sorted(set(xs))\<close>.\<close>
definition sorted_set :: "'a::linorder list \<Rightarrow> 'a list" where
  "sorted_set xs = sort (remdups xs)"

text \<open>\<open>d.get(k)\<close>, \<open>d[k] = v\<close>, \<open>d.pop(k, None)\<close>, \<open>d.update(e)\<close>.\<close>
definition dget :: "('k \<times> 'v) list \<Rightarrow> 'k \<Rightarrow> 'v option" where
  "dget d k = map_of d k"

definition dput :: "'k \<Rightarrow> 'v \<Rightarrow> ('k \<times> 'v) list \<Rightarrow> ('k \<times> 'v) list" where
  "dput k v d = AList.update k v d"

definition dpop :: "'k \<Rightarrow> ('k \<times> 'v) list \<Rightarrow> ('k \<times> 'v) list" where
  "dpop k d = filter (\<lambda>kv. fst kv \<noteq> k) d"

definition dmerge :: "('k \<times> 'v) list \<Rightarrow> ('k \<times> 'v) list \<Rightarrow> ('k \<times> 'v) list" where
  "dmerge d e = foldl (\<lambda>acc kv. dput (fst kv) (snd kv) acc) d e"

section \<open>Facts about strings\<close>

lemma length_lower [simp]: "length (lower s) = length s"
  by (simp add: lower_def)

lemma lower_Nil [simp]: "lower [] = []"
  by (simp add: lower_def)

lemma lower_eq_Nil [simp]: "lower s = [] \<longleftrightarrow> s = []"
  by (simp add: lower_def)

lemma lower_append [simp]: "lower (s @ t) = lower s @ lower t"
  by (simp add: lower_def)

lemma not_upper_lower_char [simp]: "\<not> is_upper (lower_char c)"
  by (auto simp: lower_char_def is_upper_def)

lemma lower_char_idem [simp]: "lower_char (lower_char c) = lower_char c"
  unfolding lower_char_def [of "lower_char c"] by simp

lemma lower_idem [simp]: "lower (lower s) = lower s"
  by (simp add: lower_def)

lemma lower_char_iff:
  "lower_char c = d \<longleftrightarrow> c = d" if "\<not> is_lower d" "\<not> is_upper d" for c d
  using that by (auto simp: lower_char_def is_lower_def is_upper_def)

lemma lower_char_lower: "is_upper c \<Longrightarrow> is_lower (lower_char c)"
  by (simp add: lower_char_def is_upper_def is_lower_def)

lemma is_space_lower [simp]: "is_space (lower_char c) = is_space c"
  by (auto simp: lower_char_def is_space_def is_upper_def)

lemma dropWhile_space_lower: "dropWhile is_space (lower s) = lower (dropWhile is_space s)"
  by (induction s) (auto simp: lower_def)

lemma strip_lower: "strip (lower s) = lower (strip s)"
proof -
  have "rev (lower t) = lower (rev t)" for t by (simp add: lower_def rev_map)
  then show ?thesis by (simp add: strip_def lstrip_def rstrip_def dropWhile_space_lower)
qed

lemma strip_Nil [simp]: "strip [] = []"
  by (simp add: strip_def lstrip_def rstrip_def)

lemma rstrip_Nil [simp]: "rstrip [] = []"
  by (simp add: rstrip_def)

lemma rstrip_last: "rstrip s \<noteq> [] \<Longrightarrow> \<not> is_space (last (rstrip s))"
  by (simp add: rstrip_def last_rev hd_dropWhile)

lemma rstrip_id: "s = [] \<or> \<not> is_space (last s) \<Longrightarrow> rstrip s = s"
  by (cases s rule: rev_cases) (auto simp: rstrip_def)

lemma rstrip_rstrip [simp]: "rstrip (rstrip s) = rstrip s"
  by (rule rstrip_id) (use rstrip_last in blast)

lemma rstrip_Cons_nospace: "\<not> is_space c \<Longrightarrow> rstrip (c # s) = c # rstrip s"
  by (simp add: rstrip_def dropWhile_append)

lemma strip_cases: "strip s = [] \<or> \<not> is_space (hd (strip s))"
proof (cases "lstrip s")
  case (Cons c t)
  then have "\<not> is_space c"
    by (metis lstrip_def hd_dropWhile list.distinct(1) list.sel(1))
  then show ?thesis by (simp add: strip_def Cons rstrip_Cons_nospace)
qed (simp add: strip_def)

lemma strip_idem [simp]: "strip (strip s) = strip s"
proof -
  have "lstrip (strip s) = strip s"
    using strip_cases [of s] by (cases "strip s") (auto simp: lstrip_def)
  then show ?thesis by (simp add: strip_def)
qed

lemma startswith_Nil [simp]: "startswith s []"
  by (simp add: startswith_def)

lemma startswith_append [simp]: "startswith (p @ s) p"
  by (simp add: startswith_def)

lemma startswith_iff: "startswith s p \<longleftrightarrow> (\<exists>t. s = p @ t)"
  unfolding startswith_def by (metis append_eq_conv_conj append_take_drop_id)

lemma endswith_iff: "endswith s p \<longleftrightarrow> (\<exists>t. s = t @ p)"
  unfolding endswith_def startswith_iff by (metis rev_append rev_rev_ident)

lemma split_by_not_Nil [simp]: "split_by p s \<noteq> []"
  by (induction s) (auto split: list.splits)

lemma split_on_not_Nil [simp]: "split_on c s \<noteq> []"
  by (simp add: split_on_def)

lemma split_by_single: "\<forall>c\<in>set s. \<not> p c \<Longrightarrow> split_by p s = [s]"
  by (induction s) auto

lemma split_on_single: "c \<notin> set s \<Longrightarrow> split_on c s = [s]"
  by (auto simp: split_on_def intro: split_by_single)

lemma join_split_on: "join [c] (split_on c s) = s"
proof (induction s)
  case (Cons x s)
  obtain w ws where "split_on c s = w # ws" by (meson split_on_not_Nil neq_Nil_conv)
  then show ?case using Cons by (cases ws) (auto simp: split_on_def)
qed (simp add: split_on_def)

lemma split_by_sound: "w \<in> set (split_by p s) \<Longrightarrow> \<forall>c\<in>set w. \<not> p c"
proof (induction s arbitrary: w)
  case (Cons x xs)
  obtain v vs where "split_by p xs = v # vs" by (meson split_by_not_Nil neq_Nil_conv)
  moreover from this have "\<forall>u\<in>set (v # vs). \<forall>c\<in>set u. \<not> p c" using Cons.IH by metis
  ultimately show ?case using Cons.prems by (auto split: if_splits)
qed simp

lemma words_by_sound: "w \<in> set (words_by p s) \<Longrightarrow> w \<noteq> [] \<and> (\<forall>c\<in>set w. \<not> p c)"
  using split_by_sound by (auto simp: words_by_def)

lemma digit_not_space: "is_digit c \<Longrightarrow> \<not> is_space c"
  by (auto simp: is_digit_def is_space_def)

lemma is_digit_char_of [simp]: "(n :: nat) < 10 \<Longrightarrow> is_digit (char_of (48 + n))"
  by (simp add: is_digit_def)

lemma digit_val_char_of [simp]: "n < 10 \<Longrightarrow> digit_val (char_of (48 + n)) = n"
  by (simp add: digit_val_def)

lemma parse_digits_append:
  "\<forall>c\<in>set s. is_digit c \<Longrightarrow>
   parse_digits acc (s @ t) = Option.bind (parse_digits acc s) (\<lambda>n. parse_digits n t)"
  by (induction s arbitrary: acc) auto

lemma nat_str_digits: "\<forall>c\<in>set (nat_str n). is_digit c"
  by (induction n rule: nat_str.induct) (subst nat_str.simps, auto)

lemma nat_str_not_Nil [simp]: "nat_str n \<noteq> []"
  by (subst nat_str.simps) simp

lemma parse_digits_nat_str: "parse_digits 0 (nat_str n) = Some n"
proof (induction n rule: nat_str.induct)
  case (1 n)
  show ?case
  proof (cases "n < 10")
    case True
    then show ?thesis by (subst nat_str.simps) simp
  next
    case False
    then show ?thesis using 1 nat_str_digits [of "n div 10"]
      by (subst nat_str.simps) (simp add: parse_digits_append)
  qed
qed

lemma parse_nat_str [simp]: "parse_nat (nat_str n) = Some n"
  using parse_digits_nat_str [of n] nat_str_digits [of n]
  by (cases "nat_str n") (auto simp: parse_nat_def)

lemma strip_nospace: "\<forall>c\<in>set s. \<not> is_space c \<Longrightarrow> strip s = s"
proof (cases s)
  case (Cons c t)
  assume "\<forall>c\<in>set s. \<not> is_space c"
  moreover from this have "lstrip s = s" by (simp add: lstrip_def Cons)
  ultimately show ?thesis by (simp add: strip_def rstrip_id Cons)
qed simp

lemma parse_int_str [simp]: "parse_int (int_str i) = Some i"
proof -
  have digs: "\<forall>c\<in>set (nat_str n). \<not> is_space c" for n
    using nat_str_digits digit_not_space by blast
  have mi: "\<not> is_space CHR ''-''" by (simp add: is_space_def)
  have st: "strip (int_str i) = int_str i"
    by (rule strip_nospace) (use digs mi in \<open>auto simp: int_str_def\<close>)
  show ?thesis
  proof (cases "i < 0")
    case True
    then show ?thesis using st by (simp add: parse_int_def int_str_def)
  next
    case False
    obtain c cs where n: "nat_str (nat i) = c # cs" by (meson nat_str_not_Nil neq_Nil_conv)
    then have "is_digit c" using nat_str_digits [of "nat i"] by simp
    then have "c \<noteq> CHR ''-''" "c \<noteq> CHR ''+''" by (auto simp: is_digit_def)
    moreover have "parse_nat (c # cs) = Some (nat i)" using n parse_nat_str by metis
    ultimately show ?thesis using st False n by (simp add: parse_int_def int_str_def)
  qed
qed

section \<open>Facts about lists and dictionaries\<close>

lemma set_dedup [simp]: "set (dedup xs) = set xs"
  by (induction xs) auto

lemma distinct_dedup [simp]: "distinct (dedup xs)"
  by (induction xs) auto

lemma dedup_id: "distinct xs \<Longrightarrow> dedup xs = xs"
  by (induction xs) (auto simp: filter_id_conv)

lemma set_sorted_set [simp]: "set (sorted_set xs) = set xs"
  by (simp add: sorted_set_def)

lemma sorted_sorted_set [simp]: "sorted (sorted_set xs)"
  by (simp add: sorted_set_def)

lemma distinct_sorted_set [simp]: "distinct (sorted_set xs)"
  by (simp add: sorted_set_def)

lemma sorted_set_idem [simp]: "sorted_set (sorted_set xs) = sorted_set xs"
  by (simp add: sorted_set_def sorted_sort_id distinct_remdups_id)

lemma sorted_set_cong: "set xs = set ys \<Longrightarrow> sorted_set xs = sorted_set ys"
  by (rule sorted_distinct_set_unique) simp_all

lemma sorted_set_id: "sorted xs \<Longrightarrow> distinct xs \<Longrightarrow> sorted_set xs = xs"
  by (simp add: sorted_set_def sorted_sort_id distinct_remdups_id)

lemma sorted_set_Nil [simp]: "sorted_set [] = []"
  by (simp add: sorted_set_def)

lemma dget_Nil [simp, docsimp]: "dget [] k = None"
  by (simp add: dget_def)

lemma dget_Cons [simp, docsimp]: "dget ((a, v) # d) k = (if a = k then Some v else dget d k)"
  by (simp add: dget_def)

lemma dget_append: "dget (d @ e) k = (case dget d k of Some v \<Rightarrow> Some v | None \<Rightarrow> dget e k)"
  by (simp add: dget_def map_add_def split: option.splits)

lemma dget_dput [simp, docsimp]: "dget (dput k v d) j = (if j = k then Some v else dget d j)"
  by (simp add: dget_def dput_def update_conv')

lemma keys_dput: "fst ` set (dput k v d) = insert k (fst ` set d)"
  by (simp add: dput_def dom_update)

lemma dget_dpop [simp, docsimp]: "dget (dpop k d) j = (if j = k then None else dget d j)"
  by (induction d) (auto simp: dpop_def)

lemma dmerge_Nil [simp, docsimp]: "dmerge d [] = d"
  by (simp add: dmerge_def)

lemma dmerge_Cons [simp, docsimp]: "dmerge d ((k, v) # e) = dmerge (dput k v d) e"
  by (simp add: dmerge_def)

lemma dget_dmerge_notin: "k \<notin> fst ` set e \<Longrightarrow> dget (dmerge d e) k = dget d k"
  by (induction e arbitrary: d) auto

lemma dget_dmerge:
  "distinct (List.map fst e) \<Longrightarrow>
   dget (dmerge d e) k = (case dget e k of Some v \<Rightarrow> Some v | None \<Rightarrow> dget d k)"
proof (induction e arbitrary: d)
  case (Cons kv e)
  obtain a v where kv: "kv = (a, v)" by (cases kv)
  then have "a \<notin> fst ` set e" using Cons.prems by simp
  then have "dget e a = None" by (simp add: dget_def map_of_eq_None_iff)
  then show ?case using Cons kv by (cases "a = k") (auto split: option.splits)
qed simp

end
