(* ===== verification/PyVal.thy ===== *)
theory PyVal
  imports Prelude Complex_Main
begin

text \<open>Python values as they travel through documents, JSON-RPC payloads and settings.
  A \<open>dict\<close> is an association list in insertion order.  Floats and \<open>datetime\<close>s are exact
  real numbers (a datetime is its instant).  The text Python's \<open>str\<close> produces for floats,
  datetimes and containers is not written out: it is the unspecified value \<open>undefined v\<close>, so
  no theorem can depend on it.\<close>

datatype pyval =
    VNone
  | VBool bool
  | VInt int
  | VFloat real
  | VStr string
  | VTime real
  | VList "pyval list"
  | VDict "(string \<times> pyval) list"

type_synonym doc = "(string \<times> pyval) list"

section \<open>Truth, text and number of a value\<close>

definition truthy :: "pyval \<Rightarrow> bool" where
  "truthy v = (case v of
      VNone \<Rightarrow> False | VBool b \<Rightarrow> b | VInt i \<Rightarrow> i \<noteq> 0 | VFloat r \<Rightarrow> r \<noteq> 0
    | VStr s \<Rightarrow> s \<noteq> [] | VTime _ \<Rightarrow> True | VList xs \<Rightarrow> xs \<noteq> [] | VDict d \<Rightarrow> d \<noteq> [])"

text \<open>\<open>a or b\<close> on values.\<close>
definition py_or :: "pyval \<Rightarrow> pyval \<Rightarrow> pyval" where
  "py_or a b = (if truthy a then a else b)"

definition py_str :: "pyval \<Rightarrow> string" where
  "py_str v = (case v of
      VStr s \<Rightarrow> s
    | VInt i \<Rightarrow> int_str i
    | VNone \<Rightarrow> ''None''
    | VBool b \<Rightarrow> if b then ''True'' else ''False''
    | _ \<Rightarrow> undefined v)"

text \<open>Truncation towards zero, as \<open>int(float)\<close>.\<close>
definition trunc :: "real \<Rightarrow> int" where
  "trunc r = (if r < 0 then \<lceil>r\<rceil> else \<lfloor>r\<rfloor>)"

text \<open>\<open>int(v)\<close>: None where it raises \<open>TypeError\<close> or \<open>ValueError\<close>.\<close>
definition py_int :: "pyval \<Rightarrow> int option" where
  "py_int v = (case v of
      VInt i \<Rightarrow> Some i
    | VBool b \<Rightarrow> Some (if b then 1 else 0)
    | VFloat r \<Rightarrow> Some (trunc r)
    | VStr s \<Rightarrow> parse_int s
    | _ \<Rightarrow> None)"

text \<open>Numbers inside a value, for arithmetic and ordering.\<close>
definition num_of :: "pyval \<Rightarrow> real option" where
  "num_of v = (case v of
      VInt i \<Rightarrow> Some (of_int i)
    | VBool b \<Rightarrow> Some (if b then 1 else 0)
    | VFloat r \<Rightarrow> Some r
    | _ \<Rightarrow> None)"

definition num_add :: "pyval \<Rightarrow> pyval \<Rightarrow> pyval" where
  "num_add a b = (case (a, b) of
      (VInt i, VInt j) \<Rightarrow> VInt (i + j)
    | _ \<Rightarrow> (case (num_of a, num_of b) of
              (Some x, Some y) \<Rightarrow> VFloat (x + y)
            | _ \<Rightarrow> undefined (a, b)))"

section \<open>Equality and ordering\<close>

text \<open>Python's \<open>==\<close> identifies \<open>True\<close> with 1 and 1 with 1.0; all other kinds are compared
  structurally.\<close>
fun canon :: "pyval \<Rightarrow> pyval" where
  "canon (VBool b) = VFloat (if b then 1 else 0)"
| "canon (VInt i) = VFloat (of_int i)"
| "canon (VList xs) = VList (map canon xs)"
| "canon (VDict d) = VDict (map (\<lambda>kv. (fst kv, canon (snd kv))) d)"
| "canon v = v"

definition veq :: "pyval \<Rightarrow> pyval \<Rightarrow> bool" where
  "veq a b = (canon a = canon b)"

text \<open>\<open>a < b\<close> on values of one kind; values of different kinds are not ordered.\<close>
definition vlt :: "pyval \<Rightarrow> pyval \<Rightarrow> bool" where
  "vlt a b = (case (a, b) of
      (VStr s, VStr t) \<Rightarrow> s < t
    | (VTime s, VTime t) \<Rightarrow> s < t
    | _ \<Rightarrow> (case (num_of a, num_of b) of (Some x, Some y) \<Rightarrow> x < y | _ \<Rightarrow> False))"

definition vle :: "pyval \<Rightarrow> pyval \<Rightarrow> bool" where
  "vle a b = (case (a, b) of
      (VStr s, VStr t) \<Rightarrow> s \<le> t
    | (VTime s, VTime t) \<Rightarrow> s \<le> t
    | _ \<Rightarrow> (case (num_of a, num_of b) of (Some x, Some y) \<Rightarrow> x \<le> y | _ \<Rightarrow> False))"

section \<open>Field access\<close>

text \<open>\<open>d.get(k)\<close> is None for an absent field; \<open>d.get(k, v)\<close> is v.\<close>
definition vget :: "doc \<Rightarrow> string \<Rightarrow> pyval" where
  "vget d k = (case dget d k of Some v \<Rightarrow> v | None \<Rightarrow> VNone)"

definition vget_or :: "doc \<Rightarrow> string \<Rightarrow> pyval \<Rightarrow> pyval" where
  "vget_or d k v = (case dget d k of Some w \<Rightarrow> w | None \<Rightarrow> v)"

text \<open>\<open>doc or {}\<close> for an optional document.\<close>
definition doc_or_empty :: "doc option \<Rightarrow> doc" where
  "doc_or_empty d = (case d of Some x \<Rightarrow> x | None \<Rightarrow> [])"

definition as_list :: "pyval \<Rightarrow> pyval list option" where
  "as_list v = (case v of VList xs \<Rightarrow> Some xs | _ \<Rightarrow> None)"

definition as_doc :: "pyval \<Rightarrow> doc option" where
  "as_doc v = (case v of VDict d \<Rightarrow> Some d | _ \<Rightarrow> None)"

text \<open>Iterating over a value: the items of a list, the characters of a text, the keys of a
  dict.  Numbers, None and datetimes are not iterable (\<open>TypeError\<close>); no theorem reaches them.\<close>
definition iter_values :: "pyval \<Rightarrow> pyval list" where
  "iter_values v = (case v of
      VList xs \<Rightarrow> xs | VStr s \<Rightarrow> map (\<lambda>c. VStr [c]) s | VDict d \<Rightarrow> map (\<lambda>kv. VStr (fst kv)) d
    | _ \<Rightarrow> undefined v)"

definition is_str :: "pyval \<Rightarrow> bool" where
  "is_str v = (case v of VStr _ \<Rightarrow> True | _ \<Rightarrow> False)"

section \<open>Facts\<close>

lemma iter_values_simps [simp]:
  "iter_values (VList xs) = xs" "iter_values (VStr s) = map (\<lambda>c. VStr [c]) s"
  "iter_values (VDict d) = map (\<lambda>kv. VStr (fst kv)) d"
  by (simp_all add: iter_values_def)

lemma truthy_simps [simp]:
  "truthy VNone = False" "truthy (VBool b) = b" "truthy (VInt i) = (i \<noteq> 0)"
  "truthy (VFloat r) = (r \<noteq> 0)" "truthy (VStr s) = (s \<noteq> [])" "truthy (VTime t) = True"
  "truthy (VList xs) = (xs \<noteq> [])" "truthy (VDict d) = (d \<noteq> [])"
  by (simp_all add: truthy_def)

lemma py_str_simps [simp]:
  "py_str (VStr s) = s" "py_str (VInt i) = int_str i" "py_str VNone = ''None''"
  "py_str (VBool b) = (if b then ''True'' else ''False'')"
  by (simp_all add: py_str_def)

lemma py_int_simps [simp]:
  "py_int (VInt i) = Some i" "py_int (VBool b) = Some (if b then 1 else 0)"
  "py_int (VFloat r) = Some (trunc r)" "py_int (VStr s) = parse_int s"
  "py_int VNone = None" "py_int (VTime t) = None" "py_int (VList xs) = None"
  "py_int (VDict d) = None"
  by (simp_all add: py_int_def)

lemma num_of_simps [simp]:
  "num_of (VInt i) = Some (of_int i)" "num_of (VBool b) = Some (if b then 1 else 0)"
  "num_of (VFloat r) = Some r" "num_of VNone = None" "num_of (VStr s) = None"
  "num_of (VTime t) = None" "num_of (VList xs) = None" "num_of (VDict d) = None"
  by (simp_all add: num_of_def)

lemma num_add_int [simp]: "num_add (VInt i) (VInt j) = VInt (i + j)"
  by (simp add: num_add_def)

lemma num_of_add: "num_of a = Some x \<Longrightarrow> num_of b = Some y \<Longrightarrow> num_of (num_add a b) = Some (x + y)"
  by (auto simp: num_add_def split: pyval.splits)

lemma veq_refl [simp]: "veq a a"
  by (simp add: veq_def)

lemma canon_VStr_iff [simp]: "canon v = VStr s \<longleftrightarrow> v = VStr s"
  by (cases v) auto

lemma canon_VNone_iff [simp]: "canon v = VNone \<longleftrightarrow> v = VNone"
  by (cases v) auto

lemma canon_VTime_iff [simp]: "canon v = VTime t \<longleftrightarrow> v = VTime t"
  by (cases v) auto

lemma veq_VStr [simp]: "veq v (VStr s) \<longleftrightarrow> v = VStr s" "veq (VStr s) v \<longleftrightarrow> v = VStr s"
  unfolding veq_def by (metis canon.simps(6) canon_VStr_iff)+

lemma veq_VNone [simp]: "veq v VNone \<longleftrightarrow> v = VNone" "veq VNone v \<longleftrightarrow> v = VNone"
  unfolding veq_def by (metis canon.simps(5) canon_VNone_iff)+

lemma veq_sym: "veq a b = veq b a"
  by (auto simp: veq_def)

lemma veq_trans: "veq a b \<Longrightarrow> veq b c \<Longrightarrow> veq a c"
  by (simp add: veq_def)

lemma vlt_simps [simp]:
  "vlt (VInt i) (VInt j) = (i < j)" "vlt (VTime s) (VTime t) = (s < t)"
  "vlt VNone v = False"
  by (auto simp: vlt_def split: pyval.splits)

lemma vle_simps [simp]:
  "vle (VInt i) (VInt j) = (i \<le> j)" "vle (VTime s) (VTime t) = (s \<le> t)"
  "vle VNone v = False"
  by (auto simp: vle_def split: pyval.splits)

lemma vget_dput [simp, docsimp]: "vget (dput k v d) j = (if j = k then v else vget d j)"
  by (simp add: vget_def)

lemma vget_Nil [simp, docsimp]: "vget [] k = VNone"
  by (simp add: vget_def)

lemma vget_Cons [simp, docsimp]: "vget ((a, v) # d) k = (if a = k then v else vget d k)"
  by (simp add: vget_def)

lemma vget_or_Nil [simp, docsimp]: "vget_or [] k v = v"
  by (simp add: vget_or_def)

lemma vget_or_dput [simp, docsimp]: "vget_or (dput k w d) j v = (if j = k then w else vget_or d j v)"
  by (simp add: vget_or_def)

lemma vget_or_Cons [simp, docsimp]: "vget_or ((a, w) # d) k v = (if a = k then w else vget_or d k v)"
  by (simp add: vget_or_def)

lemma doc_or_empty_simps [simp]: "doc_or_empty None = []" "doc_or_empty (Some d) = d"
  by (simp_all add: doc_or_empty_def)

lemma trunc_of_int [simp]: "trunc (of_int i) = i"
  by (simp add: trunc_def)

end
