(* ===== verification/Settings.thy ===== *)
theory Settings
  imports PyVal
begin

text \<open>The gateway's configuration (\<open>config/settings.py\<close>): the record of its fields, the
  declared defaults, and the validators that run when the settings object is built.  Every
  field \<open>f\<close> of the class is the record field \<open>cfg_f\<close>.\<close>

record settings =
  cfg_app_name :: string
  cfg_app_version :: string
  cfg_environment :: string
  cfg_host :: string
  cfg_port :: int
  cfg_auth_mode :: string
  cfg_mongodb_uri :: string
  cfg_mongodb_uri_file :: "string option"
  cfg_mongodb_db_name :: string
  cfg_qe_enabled :: bool
  cfg_kms_provider :: string
  cfg_qe_key_vault_namespace :: string
  cfg_crypt_shared_lib_path :: "string option"
  cfg_qe_local_master_key :: string
  cfg_qe_local_master_key_file :: "string option"
  cfg_aws_access_key_id :: string
  cfg_aws_secret_access_key :: string
  cfg_aws_secret_access_key_file :: "string option"
  cfg_aws_default_region :: string
  cfg_aws_kms_endpoint :: "string option"
  cfg_aws_kms_key_arn :: string
  cfg_aws_kms_key_arn_file :: "string option"
  cfg_ollama_base_url :: string
  cfg_ollama_model :: string
  cfg_ollama_dimensions :: int
  cfg_embedding_provider :: "string option"
  cfg_embedding_model :: "string option"
  cfg_embedding_base_url :: "string option"
  cfg_embedding_api_key :: string
  cfg_embedding_api_key_file :: "string option"
  cfg_voyage_api_key :: string
  cfg_voyage_api_key_file :: "string option"
  cfg_azure_openai_endpoint :: "string option"
  cfg_azure_openai_api_version :: string
  cfg_azure_openai_deployment :: "string option"
  cfg_embedding_probe_text :: string
  cfg_embedding_secret :: "string option"
  cfg_embedding_secret_file :: "string option"
  cfg_jwt_secret :: string
  cfg_jwt_secret_file :: "string option"
  cfg_jwt_algorithm :: string
  cfg_jwt_issuer :: "string option"
  cfg_jwt_audience :: "string option"
  cfg_jwks_uri :: "string option"
  cfg_jwks_uri_file :: "string option"
  cfg_jwks_local_path :: "string option"
  cfg_jwks_cache_ttl_seconds :: int
  cfg_jwks_min_refresh_seconds :: int
  cfg_mcp_basic_auth_enabled :: bool
  cfg_oauth_metadata_enabled :: bool
  cfg_admin_ui_enabled :: bool
  cfg_admin_ui_path :: string
  cfg_admin_email :: "string option"
  cfg_admin_password :: string
  cfg_admin_password_file :: "string option"
  cfg_admin_session_secret :: "string option"
  cfg_admin_session_secret_file :: "string option"
  cfg_admin_session_ttl_seconds :: int
  cfg_default_tenant_id :: string
  cfg_tenant_db_prefix :: string
  cfg_gateway_instance_id :: "string option"
  cfg_watcher_resume_ttl_seconds :: int
  cfg_platform_admin_role :: string
  cfg_platform_viewer_role :: string
  cfg_code_tool_execution_enabled :: bool
  cfg_confirmation_ttl_seconds :: int
  cfg_usage_quota_period :: string
  cfg_default_quota_calls_per_period :: int
  cfg_default_quota_sandbox_seconds_per_period :: int
  cfg_quota_preflight_enabled :: bool
  cfg_tenant_status_cache_ttl_seconds :: int
  cfg_tenant_retention_days :: int
  cfg_tenant_purge_sweep_interval_seconds :: int
  cfg_code_executor :: string
  cfg_sandbox_python_wasm_path :: string
  cfg_sandbox_fuel :: int
  cfg_sandbox_memory_bytes :: int
  cfg_sandbox_wall_timeout_ms :: int
  cfg_sandbox_max_output_bytes :: int
  cfg_sandbox_max_concurrency_per_tenant :: int
  cfg_sandbox_max_global_concurrency :: int
  cfg_sandbox_allowed_requirements :: string
  cfg_sandbox_pool_size :: int
  cfg_sandbox_worker_max_jobs :: int
  cfg_sandbox_worker_max_age_seconds :: int
  cfg_sandbox_pool_sweep_interval_seconds :: int
  cfg_sandbox_pool_acquire_timeout_ms :: int
  cfg_sandbox_pool_warmup_timeout_ms :: int
  cfg_sandbox_worker_startup_grace_ms :: int
  cfg_sandbox_module_cache_path :: string
  cfg_sandbox_db_bridge_enabled :: bool
  cfg_sandbox_db_max_docs :: int
  cfg_sandbox_db_query_timeout_ms :: int
  cfg_sandbox_db_max_calls_per_invocation :: int
  cfg_sandbox_db_max_result_bytes :: int
  cfg_sandbox_tool_bridge_enabled :: bool
  cfg_sandbox_tool_max_calls_per_invocation :: int
  cfg_sandbox_tool_call_max_depth :: int
  cfg_sandbox_tool_max_result_bytes :: int
  cfg_sandbox_http_bridge_enabled :: bool
  cfg_sandbox_http_timeout_ms :: int
  cfg_sandbox_http_max_calls_per_invocation :: int
  cfg_sandbox_http_max_response_bytes :: int
  cfg_sandbox_http_max_request_bytes :: int
  cfg_sandbox_http_breaker_failures :: int
  cfg_sandbox_http_breaker_reset_seconds :: int
  cfg_sandbox_http_max_concurrency_per_tenant :: int
  cfg_sandbox_http_max_global_concurrency :: int
  cfg_auto_provision_tenants :: bool
  cfg_auto_bootstrap :: bool
  cfg_rate_limit_window_seconds :: int
  cfg_rate_limit_max_requests :: int
  cfg_self_registration_enabled :: bool
  cfg_self_registration_max_tenants :: int
  cfg_self_registration_window_seconds :: int
  cfg_self_registration_max_per_ip :: int
  cfg_self_registration_min_password_length :: int
  cfg_self_registration_tenant_prefix :: string
  cfg_seed_starter_tools_on_register :: bool
  cfg_unconfirmed_max_servers :: int
  cfg_unconfirmed_max_tools :: int
  cfg_unconfirmed_allowed_transports :: string
  cfg_unconfirmed_quota_calls_per_period :: int
  cfg_unconfirmed_quota_sandbox_seconds_per_period :: int
  cfg_confirmed_max_servers :: int
  cfg_confirmed_max_tools :: int
  cfg_confirmed_allowed_transports :: string
  cfg_confirmed_quota_calls_per_period :: int
  cfg_confirmed_quota_sandbox_seconds_per_period :: int
  cfg_demo_workspaces_enabled :: bool
  cfg_max_demo_tenants :: int
  cfg_demo_ttl_hours :: int
  cfg_demo_ttl_max_hours :: int
  cfg_demo_tenant_prefix :: string
  cfg_hybrid_vector_weight :: real
  cfg_hybrid_text_weight :: real
  cfg_hybrid_num_candidates :: int
  cfg_hybrid_pipeline_limit :: int
  cfg_hybrid_output_limit :: int
  cfg_include_score_details :: bool
  cfg_fusion_strategy :: string
  cfg_hybrid_pin_always_included :: bool
  cfg_route_top_k :: int
  cfg_catalog_list_limit :: int
  cfg_query_header :: string
  cfg_semantic_cache_threshold :: real
  cfg_http_timeout_seconds :: int
  cfg_embedding_timeout_seconds :: real
  cfg_embedding_retry_attempts :: int
  cfg_embedding_retry_backoff_seconds :: real
  cfg_embedding_circuit_failures :: int
  cfg_embedding_circuit_reset_seconds :: int
  cfg_embedding_cache_ttl_seconds :: int
  cfg_embedding_cache_max_entries :: int
  cfg_cache_migration_fetch_page_size :: int
  cfg_cache_migration_embed_concurrency :: int
  cfg_downstream_timeout_ms :: int
  cfg_downstream_jwt_enabled :: bool
  cfg_downstream_jwt_algorithm :: string
  cfg_downstream_jwt_private_key :: string
  cfg_downstream_jwt_private_key_file :: "string option"
  cfg_downstream_jwt_kid :: string
  cfg_downstream_jwt_issuer :: string
  cfg_downstream_token_ttl_seconds :: int
  cfg_downstream_token_refresh_skew_seconds :: int
  cfg_downstream_auth_header :: string
  cfg_downstream_token_env_var :: string
  cfg_downstream_allow_insecure_credentials :: bool
  cfg_enable_metrics :: bool
  cfg_enable_tracing :: bool
  cfg_log_json :: bool
  cfg_request_max_bytes :: int
  cfg_tenant_endpoint_ssrf_guard :: bool
  cfg_egress_allowlist_enabled :: bool
  cfg_egress_global_allowlist :: string
  cfg_egress_default_deny :: bool
  cfg_egress_allowlist_cache_ttl_seconds :: int
  cfg_guardrail_ml_enabled :: bool
  cfg_guardrail_injection_threshold :: real
  cfg_guardrail_fail_mode :: string
  cfg_guardrail_timeout_seconds :: real
  cfg_guardrail_circuit_failures :: int
  cfg_guardrail_circuit_reset_seconds :: int
  cfg_guardrail_signature_top_k :: int
  cfg_guardrail_pii_ner_enabled :: bool
  cfg_cors_allow_origins :: string
  cfg_atlas_tls :: bool
  cfg_atlas_tls_ca_file :: "string option"
  cfg_atlas_auth_source :: "string option"
  cfg_atlas_auth_mechanism :: "string option"
  cfg_atlas_username :: "string option"
  cfg_atlas_password :: "string option"
  cfg_atlas_password_file :: "string option"

definition default_settings :: settings where
  "default_settings = \<lparr>
     cfg_app_name = ''mdb-mcp-gateway'',
     cfg_app_version = ''0.2.0'',
     cfg_environment = ''development'',
     cfg_host = ''0.0.0.0'',
     cfg_port = 8000,
     cfg_auth_mode = ''hs256'',
     cfg_mongodb_uri = ''mongodb://mongodb:27017/?directConnection=true'',
     cfg_mongodb_uri_file = None,
     cfg_mongodb_db_name = ''mcp_gateway'',
     cfg_qe_enabled = False,
     cfg_kms_provider = ''none'',
     cfg_qe_key_vault_namespace = ''encryption.__keyVault'',
     cfg_crypt_shared_lib_path = None,
     cfg_qe_local_master_key = '''',
     cfg_qe_local_master_key_file = None,
     cfg_aws_access_key_id = '''',
     cfg_aws_secret_access_key = '''',
     cfg_aws_secret_access_key_file = None,
     cfg_aws_default_region = ''us-east-1'',
     cfg_aws_kms_endpoint = None,
     cfg_aws_kms_key_arn = '''',
     cfg_aws_kms_key_arn_file = None,
     cfg_ollama_base_url = ''http://host.docker.internal:11434'',
     cfg_ollama_model = ''nomic-embed-text'',
     cfg_ollama_dimensions = 768,
     cfg_embedding_provider = None,
     cfg_embedding_model = None,
     cfg_embedding_base_url = None,
     cfg_embedding_api_key = '''',
     cfg_embedding_api_key_file = None,
     cfg_voyage_api_key = '''',
     cfg_voyage_api_key_file = None,
     cfg_azure_openai_endpoint = None,
     cfg_azure_openai_api_version = ''2023-05-15'',
     cfg_azure_openai_deployment = None,
     cfg_embedding_probe_text = ''embedding dimension probe'',
     cfg_embedding_secret = None,
     cfg_embedding_secret_file = None,
     cfg_jwt_secret = ''dev-secret'',
     cfg_jwt_secret_file = None,
     cfg_jwt_algorithm = ''HS256'',
     cfg_jwt_issuer = None,
     cfg_jwt_audience = None,
     cfg_jwks_uri = None,
     cfg_jwks_uri_file = None,
     cfg_jwks_local_path = None,
     cfg_jwks_cache_ttl_seconds = 300,
     cfg_jwks_min_refresh_seconds = 60,
     cfg_mcp_basic_auth_enabled = False,
     cfg_oauth_metadata_enabled = False,
     cfg_admin_ui_enabled = True,
     cfg_admin_ui_path = ''/ui'',
     cfg_admin_email = None,
     cfg_admin_password = '''',
     cfg_admin_password_file = None,
     cfg_admin_session_secret = None,
     cfg_admin_session_secret_file = None,
     cfg_admin_session_ttl_seconds = 28800,
     cfg_default_tenant_id = ''local-dev'',
     cfg_tenant_db_prefix = ''tenant_'',
     cfg_gateway_instance_id = None,
     cfg_watcher_resume_ttl_seconds = 86400,
     cfg_platform_admin_role = ''platform-admin'',
     cfg_platform_viewer_role = ''viewer'',
     cfg_code_tool_execution_enabled = False,
     cfg_confirmation_ttl_seconds = 3600,
     cfg_usage_quota_period = ''monthly'',
     cfg_default_quota_calls_per_period = 0,
     cfg_default_quota_sandbox_seconds_per_period = 0,
     cfg_quota_preflight_enabled = True,
     cfg_tenant_status_cache_ttl_seconds = 5,
     cfg_tenant_retention_days = 30,
     cfg_tenant_purge_sweep_interval_seconds = 0,
     cfg_code_executor = ''wasm'',
     cfg_sandbox_python_wasm_path = ''vendor/python-3.12.0.wasm'',
     cfg_sandbox_fuel = 4000000000,
     cfg_sandbox_memory_bytes = 268435456,
     cfg_sandbox_wall_timeout_ms = 0,
     cfg_sandbox_max_output_bytes = 262144,
     cfg_sandbox_max_concurrency_per_tenant = 4,
     cfg_sandbox_max_global_concurrency = 0,
     cfg_sandbox_allowed_requirements = '''',
     cfg_sandbox_pool_size = 0,
     cfg_sandbox_worker_max_jobs = 0,
     cfg_sandbox_worker_max_age_seconds = 0,
     cfg_sandbox_pool_sweep_interval_seconds = 0,
     cfg_sandbox_pool_acquire_timeout_ms = 0,
     cfg_sandbox_pool_warmup_timeout_ms = 20000,
     cfg_sandbox_worker_startup_grace_ms = 10000,
     cfg_sandbox_module_cache_path = ''vendor/.wasm-cache'',
     cfg_sandbox_db_bridge_enabled = False,
     cfg_sandbox_db_max_docs = 100,
     cfg_sandbox_db_query_timeout_ms = 1000,
     cfg_sandbox_db_max_calls_per_invocation = 25,
     cfg_sandbox_db_max_result_bytes = 131072,
     cfg_sandbox_tool_bridge_enabled = False,
     cfg_sandbox_tool_max_calls_per_invocation = 10,
     cfg_sandbox_tool_call_max_depth = 3,
     cfg_sandbox_tool_max_result_bytes = 262144,
     cfg_sandbox_http_bridge_enabled = False,
     cfg_sandbox_http_timeout_ms = 5000,
     cfg_sandbox_http_max_calls_per_invocation = 10,
     cfg_sandbox_http_max_response_bytes = 262144,
     cfg_sandbox_http_max_request_bytes = 131072,
     cfg_sandbox_http_breaker_failures = 5,
     cfg_sandbox_http_breaker_reset_seconds = 30,
     cfg_sandbox_http_max_concurrency_per_tenant = 8,
     cfg_sandbox_http_max_global_concurrency = 0,
     cfg_auto_provision_tenants = True,
     cfg_auto_bootstrap = False,
     cfg_rate_limit_window_seconds = 60,
     cfg_rate_limit_max_requests = 120,
     cfg_self_registration_enabled = False,
     cfg_self_registration_max_tenants = 100,
     cfg_self_registration_window_seconds = 3600,
     cfg_self_registration_max_per_ip = 5,
     cfg_self_registration_min_password_length = 10,
     cfg_self_registration_tenant_prefix = ''selfsvc-'',
     cfg_seed_starter_tools_on_register = True,
     cfg_unconfirmed_max_servers = 1,
     cfg_unconfirmed_max_tools = 1,
     cfg_unconfirmed_allowed_transports = ''code'',
     cfg_unconfirmed_quota_calls_per_period = 100,
     cfg_unconfirmed_quota_sandbox_seconds_per_period = 60,
     cfg_confirmed_max_servers = 0,
     cfg_confirmed_max_tools = 0,
     cfg_confirmed_allowed_transports = ''streamable_http,sse,stdio,code'',
     cfg_confirmed_quota_calls_per_period = 0,
     cfg_confirmed_quota_sandbox_seconds_per_period = 0,
     cfg_demo_workspaces_enabled = True,
     cfg_max_demo_tenants = 10,
     cfg_demo_ttl_hours = 72,
     cfg_demo_ttl_max_hours = 720,
     cfg_demo_tenant_prefix = ''demo-'',
     cfg_hybrid_vector_weight = 1 / 2,
     cfg_hybrid_text_weight = 1 / 2,
     cfg_hybrid_num_candidates = 100,
     cfg_hybrid_pipeline_limit = 20,
     cfg_hybrid_output_limit = 10,
     cfg_include_score_details = True,
     cfg_fusion_strategy = ''rank_fusion'',
     cfg_hybrid_pin_always_included = True,
     cfg_route_top_k = 5,
     cfg_catalog_list_limit = 200,
     cfg_query_header = ''x-mcp-query'',
     cfg_semantic_cache_threshold = 19 / 20,
     cfg_http_timeout_seconds = 20,
     cfg_embedding_timeout_seconds = 8,
     cfg_embedding_retry_attempts = 2,
     cfg_embedding_retry_backoff_seconds = 1 / 4,
     cfg_embedding_circuit_failures = 5,
     cfg_embedding_circuit_reset_seconds = 30,
     cfg_embedding_cache_ttl_seconds = 300,
     cfg_embedding_cache_max_entries = 512,
     cfg_cache_migration_fetch_page_size = 500,
     cfg_cache_migration_embed_concurrency = 8,
     cfg_downstream_timeout_ms = 2000,
     cfg_downstream_jwt_enabled = True,
     cfg_downstream_jwt_algorithm = ''RS256'',
     cfg_downstream_jwt_private_key = '''',
     cfg_downstream_jwt_private_key_file = Some ''config/dev-private-key.pem'',
     cfg_downstream_jwt_kid = ''dev-local-key-1'',
     cfg_downstream_jwt_issuer = ''mdb-mcp-gateway'',
     cfg_downstream_token_ttl_seconds = 120,
     cfg_downstream_token_refresh_skew_seconds = 15,
     cfg_downstream_auth_header = ''Authorization'',
     cfg_downstream_token_env_var = ''MCP_DOWNSTREAM_TOKEN'',
     cfg_downstream_allow_insecure_credentials = False,
     cfg_enable_metrics = True,
     cfg_enable_tracing = False,
     cfg_log_json = True,
     cfg_request_max_bytes = 262144,
     cfg_tenant_endpoint_ssrf_guard = True,
     cfg_egress_allowlist_enabled = True,
     cfg_egress_global_allowlist = '''',
     cfg_egress_default_deny = False,
     cfg_egress_allowlist_cache_ttl_seconds = 5,
     cfg_guardrail_ml_enabled = False,
     cfg_guardrail_injection_threshold = 17 / 20,
     cfg_guardrail_fail_mode = ''open'',
     cfg_guardrail_timeout_seconds = 3 / 2,
     cfg_guardrail_circuit_failures = 5,
     cfg_guardrail_circuit_reset_seconds = 30,
     cfg_guardrail_signature_top_k = 3,
     cfg_guardrail_pii_ner_enabled = False,
     cfg_cors_allow_origins = ''*'',
     cfg_atlas_tls = False,
     cfg_atlas_tls_ca_file = None,
     cfg_atlas_auth_source = None,
     cfg_atlas_auth_mechanism = None,
     cfg_atlas_username = None,
     cfg_atlas_password = None,
     cfg_atlas_password_file = None\<rparr>"

section \<open>Validators\<close>

definition dev_private_key_file :: string where
  "dev_private_key_file = ''config/dev-private-key.pem''"

definition dev_jwks_file :: string where
  "dev_jwks_file = ''config/dev-jwks.json''"

definition dev_environments :: "string list" where
  "dev_environments = [''development'', ''dev'', ''local'', ''test'', ''testing'']"

text \<open>\<open>os.path.normpath\<close>: empty and \<open>.\<close> components vanish, \<open>..\<close> removes the component
  before it (at the root it vanishes, at the start of a relative path it stays), two leading
  slashes are kept as POSIX has it.\<close>
fun norm_components :: "bool \<Rightarrow> string list \<Rightarrow> string list \<Rightarrow> string list" where
  "norm_components rooted acc [] = rev acc"
| "norm_components rooted acc (c # cs) =
     (if c = [] \<or> c = ''.'' then norm_components rooted acc cs
      else if c \<noteq> ''..'' \<or> (\<not> rooted \<and> acc = []) \<or> (acc \<noteq> [] \<and> hd acc = ''..'')
      then norm_components rooted (c # acc) cs
      else norm_components rooted (drop 1 acc) cs)"

definition normpath :: "string \<Rightarrow> string" where
  "normpath p =
     (if p = [] then ''.''
      else let rooted = startswith p ''/'';
               slashes = (if startswith p ''//'' \<and> \<not> startswith p ''///'' then ''//''
                          else if rooted then ''/'' else []);
               body = slashes @ join ''/'' (norm_components rooted [] (split_on CHR ''/'' p))
           in if body = [] then ''.'' else body)"

definition points_at_bundled_file :: "string option \<Rightarrow> string \<Rightarrow> bool" where
  "points_at_bundled_file configured bundled =
     (case configured of
        None \<Rightarrow> False
      | Some c \<Rightarrow> c \<noteq> [] \<and> (normpath c = normpath bundled
                           \<or> endswith (normpath c) (''/'' @ normpath bundled)))"

text \<open>\<open>_load_file_backed_values\<close>: a non-empty secret file overrides the field.  \<open>rd\<close> is
  the content of a file, \<open>None\<close> when it cannot be read (then construction fails).\<close>
definition file_value :: "(string \<Rightarrow> string option) \<Rightarrow> string option \<Rightarrow> string \<Rightarrow> string option" where
  "file_value rd path current =
     (case path of
        None \<Rightarrow> Some current
      | Some p \<Rightarrow> if p = [] then Some current
                  else (case rd p of None \<Rightarrow> None
                        | Some t \<Rightarrow> Some (if strip t \<noteq> [] then strip t else current)))"

definition file_value_opt ::
  "(string \<Rightarrow> string option) \<Rightarrow> string option \<Rightarrow> string option \<Rightarrow> string option option" where
  "file_value_opt rd path current =
     (case path of
        None \<Rightarrow> Some current
      | Some p \<Rightarrow> if p = [] then Some current
                  else (case rd p of None \<Rightarrow> None
                        | Some t \<Rightarrow> Some (if strip t \<noteq> [] then Some (strip t) else current)))"

definition load_file_backed_values :: "(string \<Rightarrow> string option) \<Rightarrow> settings \<Rightarrow> settings option" where
  "load_file_backed_values rd s0 =
     Option.bind (file_value rd (cfg_mongodb_uri_file s0) (cfg_mongodb_uri s0)) (\<lambda>v1.
     Option.bind (file_value rd (cfg_jwt_secret_file s0) (cfg_jwt_secret s0)) (\<lambda>v2.
     Option.bind (file_value_opt rd (cfg_jwks_uri_file s0) (cfg_jwks_uri s0)) (\<lambda>v3.
     Option.bind (file_value_opt rd (cfg_atlas_password_file s0) (cfg_atlas_password s0)) (\<lambda>v4.
     Option.bind (file_value rd (cfg_admin_password_file s0) (cfg_admin_password s0)) (\<lambda>v5.
     Option.bind (file_value_opt rd (cfg_admin_session_secret_file s0) (cfg_admin_session_secret s0)) (\<lambda>v6.
     Option.bind (file_value rd (cfg_embedding_api_key_file s0) (cfg_embedding_api_key s0)) (\<lambda>v7.
     Option.bind (file_value rd (cfg_voyage_api_key_file s0) (cfg_voyage_api_key s0)) (\<lambda>v8.
     Option.bind (file_value_opt rd (cfg_embedding_secret_file s0) (cfg_embedding_secret s0)) (\<lambda>v9.
     Option.bind (file_value rd (cfg_downstream_jwt_private_key_file s0) (cfg_downstream_jwt_private_key s0)) (\<lambda>v10.
     Option.bind (file_value rd (cfg_qe_local_master_key_file s0) (cfg_qe_local_master_key s0)) (\<lambda>v11.
     Option.bind (file_value rd (cfg_aws_secret_access_key_file s0) (cfg_aws_secret_access_key s0)) (\<lambda>v12.
     Option.bind (file_value rd (cfg_aws_kms_key_arn_file s0) (cfg_aws_kms_key_arn s0)) (\<lambda>v13.
     Some (s0\<lparr>cfg_mongodb_uri := v1, cfg_jwt_secret := v2, cfg_jwks_uri := v3,
              cfg_atlas_password := v4, cfg_admin_password := v5, cfg_admin_session_secret := v6,
              cfg_embedding_api_key := v7, cfg_voyage_api_key := v8, cfg_embedding_secret := v9,
              cfg_downstream_jwt_private_key := v10, cfg_qe_local_master_key := v11,
              cfg_aws_secret_access_key := v12, cfg_aws_kms_key_arn := v13\<rparr>))))))))))))))"

text \<open>An optional text that is unset or empty is false.\<close>
definition opt_text :: "string option \<Rightarrow> string" where
  "opt_text o' = (case o' of Some t \<Rightarrow> t | None \<Rightarrow> [])"

definition admin_path_default :: "string \<Rightarrow> string" where
  "admin_path_default raw =
     (let path = strip raw;
          path = (if path = [] then ''/ui'' else path);
          path = (if startswith path ''/'' then path else ''/'' @ path);
          normalized = rstrip_char CHR ''/'' path
      in if normalized = [] then ''/'' else normalized)"

definition apply_admin_defaults :: "settings \<Rightarrow> settings" where
  "apply_admin_defaults s =
     (let sess = (if opt_text (cfg_admin_session_secret s) = [] then Some (cfg_jwt_secret s)
                  else cfg_admin_session_secret s);
          emb = (if opt_text (cfg_embedding_secret s) = []
                 then Some (if opt_text sess = [] then cfg_jwt_secret s else opt_text sess)
                 else cfg_embedding_secret s);
          wall = (if cfg_sandbox_wall_timeout_ms s \<le> 0 then max 1 (cfg_downstream_timeout_ms s)
                  else cfg_sandbox_wall_timeout_ms s)
      in s\<lparr>cfg_admin_ui_path := admin_path_default (cfg_admin_ui_path s),
           cfg_admin_session_secret := sess, cfg_embedding_secret := emb,
           cfg_sandbox_wall_timeout_ms := wall\<rparr>)"

text \<open>The messages of the refused production configurations.\<close>
datatype boot_error =
    WeakJwtSecret | JwksNeedsIssuerAudience | JwksNeedsKeySource | WildcardCors
  | AdminEmailRequired | WeakAdminPassword | WeakSessionSecret
  | QeNeedsKms | QeNeedsLocalKey | QeKeyNotBase64 | QeKeyWrongLength | QeNeedsKmsArn
  | BundledSigningKey | BundledJwks

definition weak_secrets :: "string list" where
  "weak_secrets = [''dev-secret'', ''change-me'', ''secret'', ''password'']"

text \<open>\<open>b64\<close> is the length of the text's strict base64 decoding, None when it is not base64.\<close>
definition validate_production_safety :: "(string \<Rightarrow> nat option) \<Rightarrow> settings \<Rightarrow> boot_error option" where
  "validate_production_safety b64 s =
     (if cfg_auth_mode s = ''hs256'' \<and> (length (cfg_jwt_secret s) < 16 \<or> cfg_jwt_secret s \<in> set weak_secrets)
      then Some WeakJwtSecret
      else if cfg_auth_mode s = ''jwks'' \<and> (opt_text (cfg_jwt_issuer s) = [] \<or> opt_text (cfg_jwt_audience s) = [])
      then Some JwksNeedsIssuerAudience
      else if cfg_auth_mode s = ''jwks'' \<and> opt_text (cfg_jwks_uri s) = [] \<and> opt_text (cfg_jwks_local_path s) = []
      then Some JwksNeedsKeySource
      else if strip (cfg_cors_allow_origins s) = ''*'' then Some WildcardCors
      else if cfg_admin_ui_enabled s \<and> opt_text (cfg_admin_email s) = [] then Some AdminEmailRequired
      else if cfg_admin_ui_enabled s
              \<and> (length (cfg_admin_password s) < 12 \<or> lower (cfg_admin_password s) \<in> set (''demo'' # weak_secrets))
      then Some WeakAdminPassword
      else if cfg_admin_ui_enabled s
              \<and> (length (opt_text (cfg_admin_session_secret s)) < 16
                 \<or> opt_text (cfg_admin_session_secret s) \<in> set (''demo'' # weak_secrets))
      then Some WeakSessionSecret
      else if cfg_qe_enabled s then
        (if cfg_kms_provider s = ''none'' then Some QeNeedsKms
         else if cfg_kms_provider s = ''local'' then
           (if cfg_qe_local_master_key s = [] then Some QeNeedsLocalKey
            else case b64 (cfg_qe_local_master_key s) of
                None \<Rightarrow> Some QeKeyNotBase64
              | Some n \<Rightarrow> if n \<noteq> 96 then Some QeKeyWrongLength else None)
         else if cfg_kms_provider s = ''aws'' \<and> cfg_aws_kms_key_arn s = [] then Some QeNeedsKmsArn
         else None)
      else None)"

definition validate_no_bundled_dev_keys :: "settings \<Rightarrow> boot_error option" where
  "validate_no_bundled_dev_keys s =
     (if cfg_downstream_jwt_enabled s
         \<and> points_at_bundled_file (cfg_downstream_jwt_private_key_file s) dev_private_key_file
      then Some BundledSigningKey
      else if cfg_auth_mode s = ''jwks''
         \<and> points_at_bundled_file (cfg_jwks_local_path s) dev_jwks_file
      then Some BundledJwks
      else None)"

definition validate_prod_safety :: "(string \<Rightarrow> nat option) \<Rightarrow> settings \<Rightarrow> boot_error option" where
  "validate_prod_safety b64 s =
     (let env = lower (cfg_environment s);
          is_prod = env \<in> {''prod'', ''production''};
          is_protected = env \<notin> set dev_environments
      in case (if is_prod then validate_production_safety b64 s else None) of
           Some e \<Rightarrow> Some e
         | None \<Rightarrow> if is_protected then validate_no_bundled_dev_keys s else None)"

text \<open>Building the settings object: the three validators in their order.  \<open>Inl None\<close> is an
  unreadable secret file.\<close>
definition build_settings ::
  "(string \<Rightarrow> string option) \<Rightarrow> (string \<Rightarrow> nat option) \<Rightarrow> settings \<Rightarrow> boot_error option + settings" where
  "build_settings rd b64 raw =
     (case load_file_backed_values rd raw of
        None \<Rightarrow> Inl None
      | Some s \<Rightarrow>
          (let s' = apply_admin_defaults s
           in case validate_prod_safety b64 s' of Some e \<Rightarrow> Inl (Some e) | None \<Rightarrow> Inr s'))"

section \<open>What a built configuration guarantees\<close>

lemma admin_path_default_rooted: "startswith (admin_path_default raw) ''/''"
proof -
  define path where "path = (let p = strip raw; p = (if p = [] then ''/ui'' else p)
     in if startswith p ''/'' then p else ''/'' @ p)"
  have "startswith path ''/''"
    by (simp add: path_def Let_def startswith_def)
  then obtain t where t: "path = CHR ''/'' # t" by (auto simp: startswith_iff)
  have "rstrip_char CHR ''/'' path = [] \<or> startswith (rstrip_char CHR ''/'' path) ''/''"
    unfolding t rstrip_char_def by (simp add: dropWhile_append startswith_def)
  then show ?thesis by (auto simp: admin_path_default_def path_def Let_def startswith_def)
qed

lemma build_settings_InrD:
  assumes "build_settings rd b64 raw = Inr s"
  obtains s0 where "load_file_backed_values rd raw = Some s0" "s = apply_admin_defaults s0"
    "validate_prod_safety b64 s = None"
  using assms by (auto simp: build_settings_def Let_def split: option.splits)

lemma apply_admin_defaults_wall: "0 < cfg_sandbox_wall_timeout_ms (apply_admin_defaults s)"
  by (auto simp: apply_admin_defaults_def Let_def less_max_iff_disj)

lemma apply_admin_defaults_path: "startswith (cfg_admin_ui_path (apply_admin_defaults s)) ''/''"
  by (simp add: apply_admin_defaults_def Let_def admin_path_default_rooted)

lemma prod_safety_NoneD:
  assumes "validate_prod_safety b64 s = None"
  shows "lower (cfg_environment s) \<in> {''prod'', ''production''} \<Longrightarrow> validate_production_safety b64 s = None"
    and "lower (cfg_environment s) \<notin> set dev_environments \<Longrightarrow> validate_no_bundled_dev_keys s = None"
  using assms by (auto simp: validate_prod_safety_def Let_def split: option.splits if_splits)

lemma production_safety_NoneD:
  assumes "validate_production_safety b64 s = None"
  shows "cfg_auth_mode s = ''hs256'' \<Longrightarrow> 16 \<le> length (cfg_jwt_secret s) \<and> cfg_jwt_secret s \<notin> set weak_secrets"
    and "strip (cfg_cors_allow_origins s) \<noteq> ''*''"
    and "cfg_admin_ui_enabled s \<Longrightarrow> 16 \<le> length (opt_text (cfg_admin_session_secret s))"
    and "cfg_admin_ui_enabled s \<Longrightarrow> 12 \<le> length (cfg_admin_password s)"
  using assms by (auto simp: validate_production_safety_def not_less split: if_splits)

end
