(* ===== verification/DocStore.thy ===== *)
theory DocStore
  imports PyVal
begin

text \<open>The document collections the gateway keeps its state in.  MongoDB itself is not part
  of the repository; the repository's own in-memory collection (\<open>tests/fakes.py\<close>, against
  which its test-suite runs every service) is, and it is the store of this development:
  query matching, the five update operators the services use, upsert, find, insert, replace
  and delete.  The locale \<open>keyed_collection\<close> states the contract the services
  rely on (what a lookup returns after an update); it is interpreted on the definitions
  of this theory, and the per-tenant services prove their properties from that contract.

  A collection is the list of its documents in insertion order.  Values of different kinds
  are unordered (MongoDB's type bracketing), where the fake would raise \<open>TypeError\<close>.\<close>

section \<open>Queries\<close>

datatype qop = QIn "pyval list" | QNin "pyval list" | QEq pyval | QNe pyval
  | QGt pyval | QGte pyval | QLt pyval | QLte pyval | QExists bool

datatype qcond = CEq pyval | COps "qop list"

type_synonym query = "(string \<times> qcond) list"
type_synonym docs = "doc list"

fun walk_path :: "pyval \<Rightarrow> string list \<Rightarrow> pyval" where
  "walk_path v [] = v"
| "walk_path v (p # ps) = (case v of VDict d \<Rightarrow> walk_path (vget d p) ps | _ \<Rightarrow> VNone)"

definition resolve_path :: "doc \<Rightarrow> string \<Rightarrow> pyval" where
  "resolve_path d key =
     (if CHR ''.'' \<notin> set key then vget d key
      else walk_path (VDict d) (split_on CHR ''.'' key))"

definition value_items :: "pyval \<Rightarrow> pyval list" where
  "value_items v = (case v of VList xs \<Rightarrow> xs | _ \<Rightarrow> [v])"

definition vmem :: "pyval \<Rightarrow> pyval list \<Rightarrow> bool" where
  "vmem v xs = list_ex (veq v) xs"

fun op_holds :: "pyval \<Rightarrow> qop \<Rightarrow> bool" where
  "op_holds v (QIn xs) = list_ex (\<lambda>a. vmem a xs) (value_items v)"
| "op_holds v (QNin xs) = (\<not> list_ex (\<lambda>a. vmem a xs) (value_items v))"
| "op_holds v (QEq x) = veq v x"
| "op_holds v (QNe x) = (\<not> veq v x)"
| "op_holds v (QGt x) = (v \<noteq> VNone \<and> vlt x v)"
| "op_holds v (QGte x) = (v \<noteq> VNone \<and> vle x v)"
| "op_holds v (QLt x) = (v \<noteq> VNone \<and> vlt v x)"
| "op_holds v (QLte x) = (v \<noteq> VNone \<and> vle v x)"
| "op_holds v (QExists b) = (b = (v \<noteq> VNone))"

definition cond_holds :: "pyval \<Rightarrow> qcond \<Rightarrow> bool" where
  "cond_holds v c = (case c of CEq x \<Rightarrow> veq v x | COps ops \<Rightarrow> list_all (op_holds v) ops)"

definition matches :: "doc \<Rightarrow> query \<Rightarrow> bool" where
  "matches d q = list_all (\<lambda>(key, c). cond_holds (resolve_path d key) c) q"

section \<open>Updates\<close>

record update_spec =
  upd_set :: doc
  upd_set_on_insert :: doc
  upd_inc :: doc
  upd_add_to_set :: doc
  upd_pull :: doc

definition set_fields :: "doc \<Rightarrow> update_spec" where
  "set_fields d = \<lparr>upd_set = d, upd_set_on_insert = [], upd_inc = [], upd_add_to_set = [], upd_pull = []\<rparr>"

definition set_if_missing :: "string \<Rightarrow> pyval \<Rightarrow> doc \<Rightarrow> doc" where
  "set_if_missing k v d = (if dget d k = None then dput k v d else d)"

definition inc_field :: "string \<Rightarrow> pyval \<Rightarrow> doc \<Rightarrow> doc" where
  "inc_field k v d = dput k (num_add (vget_or d k (VInt 0)) v) d"

definition add_to_set :: "string \<Rightarrow> pyval \<Rightarrow> doc \<Rightarrow> doc" where
  "add_to_set k v d =
     (let existing = (case vget d k of VList xs \<Rightarrow> xs | _ \<Rightarrow> [])
      in dput k (VList (if vmem v existing then existing else existing @ [v])) d)"

definition pull_value :: "string \<Rightarrow> pyval \<Rightarrow> doc \<Rightarrow> doc" where
  "pull_value k v d =
     (case vget d k of VList xs \<Rightarrow> dput k (VList (filter (\<lambda>x. \<not> veq x v) xs)) d | _ \<Rightarrow> d)"

definition each_field :: "(string \<Rightarrow> pyval \<Rightarrow> doc \<Rightarrow> doc) \<Rightarrow> doc \<Rightarrow> doc \<Rightarrow> doc" where
  "each_field f spec d = foldl (\<lambda>acc (k, v). f k v acc) d spec"

definition apply_update :: "update_spec \<Rightarrow> doc \<Rightarrow> doc" where
  "apply_update u d =
     each_field pull_value (upd_pull u)
      (each_field add_to_set (upd_add_to_set u)
       (each_field inc_field (upd_inc u)
        (each_field set_if_missing (upd_set_on_insert u)
         (dmerge d (upd_set u)))))"

section \<open>Operations of a collection\<close>

definition find_one :: "query \<Rightarrow> docs \<Rightarrow> doc option" where
  "find_one q ds = List.find (\<lambda>d. matches d q) ds"

definition find_docs :: "query \<Rightarrow> docs \<Rightarrow> docs" where
  "find_docs q ds = filter (\<lambda>d. matches d q) ds"

definition count_documents :: "query \<Rightarrow> docs \<Rightarrow> nat" where
  "count_documents q ds = length (find_docs q ds)"

definition insert_one :: "doc \<Rightarrow> docs \<Rightarrow> docs" where
  "insert_one d ds = ds @ [d]"

text \<open>Change the first document with a property.\<close>
fun on_first :: "(doc \<Rightarrow> bool) \<Rightarrow> (doc \<Rightarrow> doc) \<Rightarrow> docs \<Rightarrow> docs" where
  "on_first p f [] = []"
| "on_first p f (d # ds) = (if p d then f d # ds else d # on_first p f ds)"

fun drop_first :: "(doc \<Rightarrow> bool) \<Rightarrow> docs \<Rightarrow> docs" where
  "drop_first p [] = []"
| "drop_first p (d # ds) = (if p d then ds else d # drop_first p ds)"

text \<open>The document an upsert starts from: the equality fields of the query.\<close>
definition upsert_seed :: "query \<Rightarrow> doc" where
  "upsert_seed q = List.map_filter (\<lambda>(k, c). case c of CEq v \<Rightarrow> Some (k, v) | COps _ \<Rightarrow> None) q"

definition find_one_and_update :: "query \<Rightarrow> update_spec \<Rightarrow> bool \<Rightarrow> docs \<Rightarrow> doc option \<times> docs" where
  "find_one_and_update q u upsert ds =
     (case find_one q ds of
        Some d \<Rightarrow> (Some (apply_update u d), on_first (\<lambda>d. matches d q) (apply_update u) ds)
      | None \<Rightarrow>
          if upsert then (let d = apply_update u (upsert_seed q) in (Some d, ds @ [d]))
          else (None, ds))"

text \<open>The second component of \<open>update_one\<close> is its \<open>matched_count\<close>.\<close>
definition update_one :: "query \<Rightarrow> update_spec \<Rightarrow> bool \<Rightarrow> docs \<Rightarrow> docs \<times> nat" where
  "update_one q u upsert ds =
     (case find_one_and_update q u upsert ds of
        (Some _, ds') \<Rightarrow> (ds', 1)
      | (None, ds') \<Rightarrow> (ds', 0))"

definition replace_one :: "query \<Rightarrow> doc \<Rightarrow> bool \<Rightarrow> docs \<Rightarrow> docs" where
  "replace_one q r upsert ds =
     (case find_one q ds of
        Some _ \<Rightarrow> on_first (\<lambda>d. matches d q) (\<lambda>_. r) ds
      | None \<Rightarrow> if upsert then ds @ [r] else ds)"

definition delete_one :: "query \<Rightarrow> docs \<Rightarrow> docs" where
  "delete_one q ds = drop_first (\<lambda>d. matches d q) ds"

text \<open>The second component is the \<open>deleted_count\<close>.\<close>
definition delete_many :: "query \<Rightarrow> docs \<Rightarrow> docs \<times> nat" where
  "delete_many q ds = (let kept = filter (\<lambda>d. \<not> matches d q) ds in (kept, length ds - length kept))"

text \<open>The query every per-tenant service uses: one field equal to one string.\<close>
definition key_query :: "string \<Rightarrow> string \<Rightarrow> query" where
  "key_query f k = [(f, CEq (VStr k))]"

text \<open>An update that leaves a field alone.\<close>
definition untouched :: "string \<Rightarrow> update_spec \<Rightarrow> bool" where
  "untouched f u = (f \<notin> fst ` set (upd_set u) \<and> f \<notin> fst ` set (upd_set_on_insert u)
     \<and> f \<notin> fst ` set (upd_inc u) \<and> f \<notin> fst ` set (upd_add_to_set u)
     \<and> f \<notin> fst ` set (upd_pull u))"

text \<open>The two operations on the \<open>tenants\<close> control collection.\<close>
definition find_tenant :: "docs \<Rightarrow> string \<Rightarrow> doc option" where
  "find_tenant db k = find_one (key_query ''tenant_id'' k) db"

definition update_tenant :: "string \<Rightarrow> update_spec \<Rightarrow> docs \<Rightarrow> doc option \<times> docs" where
  "update_tenant k u db = find_one_and_update (key_query ''tenant_id'' k) u False db"

section \<open>Facts about queries and updates\<close>

lemma matches_Nil [simp, docsimp]: "matches d [] = True"
  by (simp add: matches_def)

lemma matches_Cons [simp, docsimp]:
  "matches d ((k, c) # q) = (cond_holds (resolve_path d k) c \<and> matches d q)"
  by (simp add: matches_def)

lemma cond_holds_simps [simp, docsimp]:
  "cond_holds v (CEq x) = veq v x" "cond_holds v (COps ops) = list_all (op_holds v) ops"
  by (simp_all add: cond_holds_def)

lemma resolve_plain [docsimp]: "CHR ''.'' \<notin> set k \<Longrightarrow> resolve_path d k = vget d k"
  by (simp add: resolve_path_def)

lemma set_fields_simps [simp, docsimp]:
  "upd_set (set_fields d) = d" "upd_set_on_insert (set_fields d) = []"
  "upd_inc (set_fields d) = []" "upd_add_to_set (set_fields d) = []"
  "upd_pull (set_fields d) = []"
  by (simp_all add: set_fields_def)

lemma each_field_Nil [simp, docsimp]: "each_field f [] d = d"
  by (simp add: each_field_def)

lemma each_field_Cons [simp, docsimp]: "each_field f ((k, v) # s) d = each_field f s (f k v d)"
  by (simp add: each_field_def)

lemma apply_set_fields [simp, docsimp]: "apply_update (set_fields s) d = dmerge d s"
  by (simp add: apply_update_def)

lemma dget_set_if_missing [simp, docsimp]:
  "dget (set_if_missing k v d) j = (if j = k \<and> dget d k = None then Some v else dget d j)"
  by (auto simp: set_if_missing_def)

lemma dget_inc_field [simp, docsimp]:
  "dget (inc_field k v d) j = (if j = k then Some (num_add (vget_or d k (VInt 0)) v) else dget d j)"
  by (simp add: inc_field_def)

lemma dget_pull_other [simp, docsimp]: "j \<noteq> k \<Longrightarrow> dget (pull_value k v d) j = dget d j"
  by (simp add: pull_value_def split: pyval.splits)

lemma dget_add_other [simp, docsimp]: "j \<noteq> k \<Longrightarrow> dget (add_to_set k v d) j = dget d j"
  by (simp add: add_to_set_def Let_def)

lemma each_field_other:
  assumes "\<And>k v d. j \<noteq> k \<Longrightarrow> dget (f k v d) j = dget d j" and "j \<notin> fst ` set s"
  shows "dget (each_field f s d) j = dget d j"
  using assms(2)
proof (induction s arbitrary: d)
  case (Cons kv s)
  then show ?case using assms(1) by (cases kv) simp
qed simp

lemma apply_update_untouched: "untouched f u \<Longrightarrow> dget (apply_update u d) f = dget d f"
  by (simp add: apply_update_def untouched_def each_field_other dget_dmerge_notin)

lemma vget_untouched: "untouched f u \<Longrightarrow> vget (apply_update u d) f = vget d f"
  by (simp add: vget_def apply_update_untouched)

lemma matches_key [simp, docsimp]:
  "CHR ''.'' \<notin> set f \<Longrightarrow> matches d (key_query f k) = (vget d f = VStr k)"
  by (simp add: key_query_def resolve_plain)

lemma find_one_Nil [simp, docsimp]: "find_one q [] = None"
  by (simp add: find_one_def)

lemma find_one_Cons [simp, docsimp]:
  "find_one q (d # ds) = (if matches d q then Some d else find_one q ds)"
  by (simp add: find_one_def)

lemma find_one_append:
  "find_one q (ds @ es) = (case find_one q ds of Some d \<Rightarrow> Some d | None \<Rightarrow> find_one q es)"
  by (induction ds) auto

lemma find_one_SomeD: "find_one q ds = Some d \<Longrightarrow> d \<in> set ds \<and> matches d q"
  by (induction ds) (auto split: if_splits)

lemma find_one_None_iff: "find_one q ds = None \<longleftrightarrow> (\<forall>d\<in>set ds. \<not> matches d q)"
  by (induction ds) auto

lemma find_one_on_first_same:
  assumes "find_one q ds = Some d" and "matches (f d) q"
  shows "find_one q (on_first (\<lambda>d. matches d q) f ds) = Some (f d)"
  using assms by (induction ds) (auto split: if_splits)

lemma find_one_on_first_other:
  assumes "\<And>d. matches d q \<Longrightarrow> \<not> matches d r" and "\<And>d. matches d q \<Longrightarrow> \<not> matches (f d) r"
  shows "find_one r (on_first (\<lambda>d. matches d q) f ds) = find_one r ds"
  using assms by (induction ds) auto

lemma length_on_first [simp]: "length (on_first p f ds) = length ds"
  by (induction ds) auto

lemma fou_missing [docsimp]: "find_one q ds = None \<Longrightarrow> find_one_and_update q u False ds = (None, ds)"
  by (simp add: find_one_and_update_def)

lemma fou_hit [docsimp]:
  "find_one q ds = Some d \<Longrightarrow>
   find_one_and_update q u b ds = (Some (apply_update u d), on_first (\<lambda>d. matches d q) (apply_update u) ds)"
  by (simp add: find_one_and_update_def)

section \<open>The contract of a keyed collection\<close>

text \<open>What the per-tenant services use of the store: look one document up by its key, and
  atomically update it.\<close>
locale keyed_collection =
  fixes lookup :: "'c \<Rightarrow> string \<Rightarrow> doc option"
    and modify :: "string \<Rightarrow> update_spec \<Rightarrow> 'c \<Rightarrow> doc option \<times> 'c"
    and keeps_key :: "update_spec \<Rightarrow> bool"
  assumes modify_missing: "lookup c k = None \<Longrightarrow> modify k u c = (None, c)"
    and modify_result: "lookup c k = Some d \<Longrightarrow> fst (modify k u c) = Some (apply_update u d)"
    and lookup_same: "lookup c k = Some d \<Longrightarrow> keeps_key u \<Longrightarrow>
          lookup (snd (modify k u c)) k = Some (apply_update u d)"
    and lookup_other: "keeps_key u \<Longrightarrow> j \<noteq> k \<Longrightarrow> lookup (snd (modify k u c)) j = lookup c j"
begin

lemma modify_cases:
  obtains (missing) "lookup c k = None" "modify k u c = (None, c)"
  | (found) d where "lookup c k = Some d"
      "modify k u c = (Some (apply_update u d), snd (modify k u c))"
  by (metis modify_missing modify_result not_None_eq prod.collapse)

text \<open>How a service continues after an update.\<close>
lemma modify_case_found:
  assumes "lookup c k = Some d"
  shows "(case modify k u c of (None, c') \<Rightarrow> f c' | (Some d', c') \<Rightarrow> g d' c')
         = g (apply_update u d) (snd (modify k u c))"
  using modify_result [OF assms, of u] by (cases "modify k u c") simp

lemma modify_case_missing:
  assumes "lookup c k = None"
  shows "(case modify k u c of (None, c') \<Rightarrow> f c' | (Some d', c') \<Rightarrow> g d' c') = f c"
  by (simp add: modify_missing [OF assms])

lemma modify_twice:
  assumes "keeps_key u" "keeps_key v" "lookup c k = Some d"
  shows "lookup (snd (modify k v (snd (modify k u c)))) k = Some (apply_update v (apply_update u d))"
  using assms lookup_same by metis

lemma modify_commutes_elsewhere:
  assumes "keeps_key u" "keeps_key v" "j \<noteq> k"
  shows "lookup (snd (modify j v (snd (modify k u c)))) k = lookup (snd (modify k u c)) k"
  using assms lookup_other by metis

lemma modify_returns_stored:
  assumes "keeps_key u" "modify k u c = (Some d', c')"
  shows "lookup c' k = Some d'"
  using assms by (cases rule: modify_cases [of c k u]) (auto dest: lookup_same)

end

section \<open>Collections whose documents have distinct keys\<close>

definition distinct_keys :: "string \<Rightarrow> docs \<Rightarrow> bool" where
  "distinct_keys f ds = distinct (map (\<lambda>d. vget d f) ds)"

lemma find_key_iff:
  assumes "distinct_keys f ds" "CHR ''.'' \<notin> set f"
  shows "find_one (key_query f k) ds = Some d \<longleftrightarrow> d \<in> set ds \<and> vget d f = VStr k"
  using assms
proof (induction ds)
  case (Cons e ds)
  then show ?case by (auto simp: distinct_keys_def image_iff)
qed simp

text \<open>A query that starts with the key can only match the document with that key.\<close>
lemma find_one_keyed:
  assumes "distinct_keys f ds" "CHR ''.'' \<notin> set f"
  shows "find_one ((f, CEq (VStr k)) # q) ds =
     (case find_one (key_query f k) ds of
        Some d \<Rightarrow> if matches d q then Some d else None | None \<Rightarrow> None)"
  using assms
proof (induction ds)
  case (Cons e ds)
  have tl: "distinct_keys f ds" using Cons.prems by (simp add: distinct_keys_def)
  show ?case
  proof (cases "vget e f = VStr k")
    case True
    then have "\<forall>d\<in>set ds. vget d f \<noteq> VStr k"
      using Cons.prems by (auto simp: distinct_keys_def image_iff)
    then have "find_one ((f, CEq (VStr k)) # q) ds = None"
      using Cons.prems(2) by (auto simp: find_one_None_iff resolve_plain)
    then show ?thesis using True Cons.prems(2) by (simp add: resolve_plain)
  next
    case False
    then show ?thesis using Cons.IH [OF tl Cons.prems(2)] Cons.prems(2) by (simp add: resolve_plain)
  qed
qed simp

lemma map_key_on_first:
  assumes "\<And>d. vget (g d) f = vget d f"
  shows "map (\<lambda>d. vget d f) (on_first p g ds) = map (\<lambda>d. vget d f) ds"
  using assms by (induction ds) auto

text \<open>An atomic update whose query names the key: what it returns, and what every lookup finds
  afterwards.\<close>
lemma keyed_update:
  assumes "distinct_keys f ds" "CHR ''.'' \<notin> set f" "untouched f u"
    and "find_one_and_update ((f, CEq (VStr k)) # q) u False ds = (r, ds')"
  shows "distinct_keys f ds'"
    and "r \<noteq> None \<Longrightarrow> \<exists>d. find_one (key_query f k) ds = Some d \<and> matches d q \<and> r = Some (apply_update u d)
           \<and> find_one (key_query f k) ds' = r"
    and "r = None \<Longrightarrow> ds' = ds \<and> (\<forall>d. find_one (key_query f k) ds = Some d \<longrightarrow> \<not> matches d q)"
    and "j \<noteq> k \<Longrightarrow> find_one (key_query f j) ds' = find_one (key_query f j) ds"
proof -
  let ?q = "(f, CEq (VStr k)) # q"
  have un: "\<And>d. vget (apply_update u d) f = vget d f" using vget_untouched [OF assms(3)] by blast
  have ds': "ds' = (if r = None then ds else on_first (\<lambda>d. matches d ?q) (apply_update u) ds)"
    using assms(4) by (auto simp: find_one_and_update_def split: option.splits)
  show dk: "distinct_keys f ds'"
    using assms(1) by (simp add: ds' distinct_keys_def map_key_on_first [OF un])
  show "r = None \<Longrightarrow> ds' = ds \<and> (\<forall>d. find_one (key_query f k) ds = Some d \<longrightarrow> \<not> matches d q)"
    using assms(4) find_one_keyed [OF assms(1,2), of k q]
    by (auto simp: find_one_and_update_def split: option.splits if_splits)
  show "j \<noteq> k \<Longrightarrow> find_one (key_query f j) ds' = find_one (key_query f j) ds"
  proof -
    assume j: "j \<noteq> k"
    have "find_one (key_query f j) (on_first (\<lambda>d. matches d ?q) (apply_update u) ds) = find_one (key_query f j) ds"
      by (rule find_one_on_first_other) (use j assms(2) un in \<open>auto simp: resolve_plain\<close>)
    then show ?thesis by (simp add: ds')
  qed
  assume r: "r \<noteq> None"
  then obtain d where d: "find_one ?q ds = Some d" "r = Some (apply_update u d)"
    using assms(4) by (auto simp: find_one_and_update_def split: option.splits)
  then have k: "find_one (key_query f k) ds = Some d" and m: "matches d q"
    using find_one_keyed [OF assms(1,2), of k q] by (auto split: option.splits if_splits)
  have dm: "d \<in> set ds" "matches d ?q" using find_one_SomeD [OF d(1)] by auto
  have "apply_update u d \<in> set (on_first (\<lambda>d. matches d ?q) (apply_update u) ds)"
    using d(1) by (induction ds) (auto split: if_splits)
  moreover have "vget (apply_update u d) f = VStr k"
    using dm(2) un assms(2) by (simp add: resolve_plain)
  moreover have "ds' = on_first (\<lambda>d. matches d ?q) (apply_update u) ds"
    using ds' d(2) by simp
  ultimately have "find_one (key_query f k) ds' = Some (apply_update u d)"
    using find_key_iff [OF dk assms(2), of k "apply_update u d"] by blast
  then show "\<exists>d. find_one (key_query f k) ds = Some d \<and> matches d q \<and> r = Some (apply_update u d)
           \<and> find_one (key_query f k) ds' = r" using k m d(2) by blast
qed

text \<open>The key of the \<open>tenants\<close> collection is \<open>tenant_id\<close>; other collections use other keys.\<close>

lemma keyed_by_field:
  assumes "CHR ''.'' \<notin> set f"
  shows "keyed_collection (\<lambda>c k. find_one (key_query f k) c)
           (\<lambda>k u. find_one_and_update (key_query f k) u False) (untouched f)"
proof (unfold_locales, goal_cases)
  case (3 c k d u)
  then have "vget d f = VStr k" using find_one_SomeD assms by fastforce
  then have "matches (apply_update u d) (key_query f k)" using 3 assms by (simp add: vget_untouched)
  from find_one_on_first_same [where f = "apply_update u", OF 3(1) this] show ?case
    using 3 by (simp add: fou_hit)
next
  case (4 u j k c)
  have "find_one (key_query f j) (on_first (\<lambda>d. matches d (key_query f k)) (apply_update u) c)
        = find_one (key_query f j) c"
    by (rule find_one_on_first_other) (use 4 assms in \<open>auto simp: vget_untouched\<close>)
  then show ?case by (cases "find_one (key_query f k) c") (simp_all add: fou_missing fou_hit)
qed (simp_all add: fou_missing fou_hit)

interpretation tenants: keyed_collection find_tenant update_tenant "untouched ''tenant_id''"
proof -
  have "find_tenant = (\<lambda>c k. find_one (key_query ''tenant_id'' k) c)"
    and "update_tenant = (\<lambda>k u. find_one_and_update (key_query ''tenant_id'' k) u False)"
    by (simp_all add: fun_eq_iff find_tenant_def update_tenant_def)
  then show "keyed_collection find_tenant update_tenant (untouched ''tenant_id'')"
    using keyed_by_field [of "''tenant_id''"] by simp
qed

end
