(* ===== verification/TtlCache.thy ===== *)
theory TtlCache
  imports DocStore
begin

text \<open>The per-process cache in front of the tenant control documents.  Five services share
  the scheme (tenant status and read-only flag, tool policy, account tier, egress allowlist,
  pip policy): a read is answered from the cache while the entry has not expired, otherwise
  from the control document, and stored for a time to live; a setter updates the document
  and then its own replica's entry (write-through).  The locale states the scheme as a
  contract over the store's contract and derives what the services promise: a replica reads
  its own writes at once, and every other replica sees a write within one time to live.\<close>

type_synonym 'v cache = "string \<rightharpoonup> ('v \<times> real)"

definition cache_hit :: "'v cache \<Rightarrow> string \<Rightarrow> real \<Rightarrow> 'v option" where
  "cache_hit c k now = (case c k of Some (v, e) \<Rightarrow> if e > now then Some v else None | None \<Rightarrow> None)"

text \<open>After a database read: remember the value, when caching is on.\<close>
definition cache_store :: "'v cache \<Rightarrow> string \<Rightarrow> 'v \<Rightarrow> real \<Rightarrow> real \<Rightarrow> 'v cache" where
  "cache_store c k v ttl now = (if ttl > 0 then c(k \<mapsto> (v, now + ttl)) else c)"

text \<open>After a write: remember the value, or forget the entry when caching is off.\<close>
definition cache_write :: "'v cache \<Rightarrow> string \<Rightarrow> 'v \<Rightarrow> real \<Rightarrow> real \<Rightarrow> 'v cache" where
  "cache_write c k v ttl now = (if ttl > 0 then c(k \<mapsto> (v, now + ttl)) else c(k := None))"

text \<open>A history of one replica: reads it serves, and writes other replicas make to the shared
  collection (given by the collection after the write).\<close>
datatype 'c happening = Serve real string | WorldWrite real 'c

fun happened_at :: "'c happening \<Rightarrow> real" where
  "happened_at (Serve t k) = t"
| "happened_at (WorldWrite t db) = t"

fun replay :: "(real \<Rightarrow> 'c \<Rightarrow> 'v cache \<Rightarrow> string \<Rightarrow> 'v \<times> 'v cache)
    \<Rightarrow> 'c happening list \<Rightarrow> 'c \<times> 'v cache \<Rightarrow> 'c \<times> 'v cache" where
  "replay get [] s = s"
| "replay get (Serve t k # es) s = replay get es (fst s, snd (get t (fst s) (snd s) k))"
| "replay get (WorldWrite t db # es) s = replay get es (db, snd s)"

text \<open>Every cached entry expires by a bound.\<close>
definition expires_by :: "real \<Rightarrow> 'v cache \<Rightarrow> bool" where
  "expires_by b c = (\<forall>k v e. c k = Some (v, e) \<longrightarrow> e \<le> b)"

lemma cache_hit_iff: "cache_hit c k now = Some v \<longleftrightarrow> (\<exists>e. c k = Some (v, e) \<and> e > now)"
  by (auto simp: cache_hit_def split: option.splits)

lemma cache_hit_expired: "expires_by now c \<Longrightarrow> cache_hit c k now = None"
  by (fastforce simp: cache_hit_def expires_by_def split: option.splits)

lemma cache_hit_written:
  "now \<le> t \<Longrightarrow> cache_hit (cache_write c k v ttl now) k t = (if t < now + ttl then Some v else None)"
  by (auto simp: cache_hit_def cache_write_def)

lemma cache_write_other [simp]: "j \<noteq> k \<Longrightarrow> cache_write c k v ttl now j = c j"
  by (simp add: cache_write_def)

lemma cache_store_other [simp]: "j \<noteq> k \<Longrightarrow> cache_store c k v ttl now j = c j"
  by (simp add: cache_store_def)

lemma expires_by_mono: "expires_by b c \<Longrightarrow> b \<le> b' \<Longrightarrow> expires_by b' c"
  by (fastforce simp: expires_by_def)

lemma expires_by_store: "expires_by (now + ttl) c \<Longrightarrow> expires_by (now + ttl) (cache_store c k v ttl now)"
  by (simp add: expires_by_def cache_store_def)

lemma expires_by_write: "expires_by (now + ttl) c \<Longrightarrow> expires_by (now + ttl) (cache_write c k v ttl now)"
  by (simp add: expires_by_def cache_write_def)

lemma expires_by_empty [simp]: "expires_by b Map.empty"
  by (simp add: expires_by_def)

section \<open>The contract of a write-through cache over a keyed collection\<close>

locale write_through_cache =
  keyed_collection lookup modify keeps_key
  for lookup :: "'c \<Rightarrow> string \<Rightarrow> doc option"
    and modify :: "string \<Rightarrow> update_spec \<Rightarrow> 'c \<Rightarrow> doc option \<times> 'c"
    and keeps_key :: "update_spec \<Rightarrow> bool" +
  fixes view :: "doc \<Rightarrow> 'v"
    and get :: "real \<Rightarrow> real \<Rightarrow> 'c \<Rightarrow> 'v cache \<Rightarrow> string \<Rightarrow> 'v \<times> 'v cache"
    and put :: "'a \<Rightarrow> real \<Rightarrow> real \<Rightarrow> 'c \<Rightarrow> 'v cache \<Rightarrow> string \<Rightarrow> doc option \<times> 'c \<times> 'v cache"
    and fields :: "'a \<Rightarrow> real \<Rightarrow> update_spec"
    and valid :: "'a \<Rightarrow> bool"
  assumes get_hit: "cache_hit c k now = Some v \<Longrightarrow> get ttl now db c k = (v, c)"
    and get_miss: "cache_hit c k now = None \<Longrightarrow>
          get ttl now db c k = (view (doc_or_empty (lookup db k)),
                                cache_store c k (view (doc_or_empty (lookup db k))) ttl now)"
    and fields_keep: "valid a \<Longrightarrow> keeps_key (fields a now)"
    and put_missing: "valid a \<Longrightarrow> lookup db k = None \<Longrightarrow> put a ttl now db c k = (None, db, c)"
    and put_found: "valid a \<Longrightarrow> lookup db k = Some d \<Longrightarrow>
          put a ttl now db c k =
            (Some (apply_update (fields a now) d), snd (modify k (fields a now) db),
             cache_write c k (view (apply_update (fields a now) d)) ttl now)"
begin

text \<open>The value the control document holds for a key.\<close>
definition stored :: "'c \<Rightarrow> string \<Rightarrow> 'v" where
  "stored db k = view (doc_or_empty (lookup db k))"

lemma get_fresh: "cache_hit c k now = None \<Longrightarrow> fst (get ttl now db c k) = stored db k"
  by (simp add: get_miss stored_def)

lemma get_value: "fst (get ttl now db c k) = (case cache_hit c k now of Some v \<Rightarrow> v | None \<Rightarrow> stored db k)"
  by (auto simp: get_hit get_fresh split: option.splits)

lemma get_off: "ttl \<le> 0 \<Longrightarrow> snd (get ttl now db c k) = c"
  by (cases "cache_hit c k now") (auto simp: get_hit get_miss cache_store_def)

lemma put_stores:
  assumes "valid a" "lookup db k = Some d" "put a ttl now db c k = (r, db', c')"
  shows "lookup db' k = Some (apply_update (fields a now) d)" and "r = lookup db' k"
    and "c' = cache_write c k (stored db' k) ttl now"
proof -
  have L: "lookup (snd (modify k (fields a now) db)) k = Some (apply_update (fields a now) d)"
    by (rule lookup_same [OF assms(2) fields_keep [OF assms(1)]])
  show "lookup db' k = Some (apply_update (fields a now) d)" and "r = lookup db' k"
    and "c' = cache_write c k (stored db' k) ttl now"
    using assms(3) by (auto simp: put_found [OF assms(1,2)] stored_def L)
qed

lemma put_elsewhere:
  assumes "valid a" "put a ttl now db c k = (r, db', c')" "j \<noteq> k"
  shows "lookup db' j = lookup db j" and "c' j = c j"
  using assms lookup_other [OF fields_keep [OF assms(1), of now] assms(3), of db]
  by (cases "lookup db k"; auto simp: put_missing put_found)+

text \<open>A replica reads its own writes.\<close>
lemma read_own_write:
  assumes "valid a" "lookup db k = Some d" "put a ttl now db c k = (r, db', c')" "now \<le> t"
  shows "fst (get ttl t db' c' k) = view (apply_update (fields a now) d)"
  using put_stores [OF assms(1,2,3)] assms(4)
  by (simp add: get_value cache_hit_written stored_def)

text \<open>Reading never changes what later reads of other keys return.\<close>
lemma get_elsewhere: "j \<noteq> k \<Longrightarrow> snd (get ttl now db c k) j = c j"
  by (cases "cache_hit c k now") (auto simp: get_hit get_miss)

text \<open>An entry of the cache is the stored value, or expires by a bound.\<close>
definition coherent_until :: "real \<Rightarrow> 'c \<Rightarrow> 'v cache \<Rightarrow> string \<Rightarrow> bool" where
  "coherent_until b db c k = (\<forall>v e. c k = Some (v, e) \<longrightarrow> v = stored db k \<or> e \<le> b)"

lemma coherent_get: "coherent_until b db c k \<Longrightarrow> coherent_until b db (snd (get ttl now db c j)) k"
  by (cases "cache_hit c j now")
     (auto simp: get_hit get_miss coherent_until_def cache_store_def stored_def)

lemma coherent_replay:
  assumes "coherent_until b (fst s) (snd s) k"
    and "\<forall>t w. WorldWrite t w \<in> set es \<longrightarrow> stored w k = stored (fst s) k"
  shows "coherent_until b (fst (replay (get ttl) es s)) (snd (replay (get ttl) es s)) k
         \<and> stored (fst (replay (get ttl) es s)) k = stored (fst s) k"
  using assms
proof (induction "get ttl" es s rule: replay.induct)
  case (2 t j es s)
  then show ?case by (auto simp: coherent_get)
next
  case (3 t w es s)
  have same: "stored w k = stored (fst s) k" using 3(3) by auto
  then have "coherent_until b w (snd s) k" using 3(2) by (simp add: coherent_until_def)
  with 3(1) 3(3) same show ?case by (auto simp: )
qed simp

text \<open>Bounded staleness: from the moment the stored value last changed, whatever the replica
  serves and whatever other replicas write to other keys, a read after the bound returns it.\<close>
lemma bounded_staleness:
  assumes "expires_by b c" and "\<forall>t w. WorldWrite t w \<in> set es \<longrightarrow> stored w k = stored db k"
    and "b \<le> t"
  shows "fst (get ttl t (fst (replay (get ttl) es (db, c))) (snd (replay (get ttl) es (db, c))) k)
         = stored db k"
proof -
  let ?s = "replay (get ttl) es (db, c)"
  have "coherent_until b db c k" using assms(1) by (auto simp: coherent_until_def expires_by_def)
  from coherent_replay [of b "(db, c)" k es ttl] this assms(2)
  have co: "coherent_until b (fst ?s) (snd ?s) k" and st: "stored (fst ?s) k = stored db k" by auto
  show ?thesis
    using co st assms(3)
    by (fastforce simp: get_value coherent_until_def cache_hit_def split: option.splits)
qed

text \<open>While the clock advances, every entry expires within one time to live.\<close>
lemma expires_get: "expires_by (now + ttl) c \<Longrightarrow> expires_by (now + ttl) (snd (get ttl now db c k))"
  by (cases "cache_hit c k now") (auto simp: get_hit get_miss expires_by_store)

lemma expires_put:
  "valid a \<Longrightarrow> expires_by (now + ttl) c \<Longrightarrow> expires_by (now + ttl) (snd (snd (put a ttl now db c k)))"
  by (cases "lookup db k") (auto simp: put_missing put_found expires_by_write)

end

end
