(* ===== verification/TenantStatus.thy ===== *)
theory TenantStatus
  imports Settings TtlCache
begin

text \<open>\<open>services/tenant_status.py\<close>: the lifecycle status (active, suspended, deleted) and the
  orthogonal read-only flag of a tenant, the gates the request path raises from, and the
  setters, with their per-process caches.  The wall clock (\<open>wall\<close>, stored in documents) and
  the monotonic clock (\<open>now\<close>, cache expiry) are explicit arguments.\<close>

definition STATUS_ACTIVE :: string where "STATUS_ACTIVE = ''active''"
definition STATUS_SUSPENDED :: string where "STATUS_SUSPENDED = ''suspended''"
definition STATUS_DELETED :: string where "STATUS_DELETED = ''deleted''"

definition VALID_STATUSES :: "string list" where
  "VALID_STATUSES = [STATUS_ACTIVE, STATUS_SUSPENDED, STATUS_DELETED]"

text \<open>The subclasses of \<open>TenantInactiveError\<close>, with the tenant and the reason shown.\<close>
datatype tenant_error =
    TenantSuspended string string
  | TenantDeleted string string
  | TenantReadOnly string string

fun status_code :: "tenant_error \<Rightarrow> string" where
  "status_code (TenantSuspended _ _) = ''tenant_suspended''"
| "status_code (TenantDeleted _ _) = ''tenant_deleted''"
| "status_code (TenantReadOnly _ _) = ''tenant_read_only''"

fun status_message :: "tenant_error \<Rightarrow> string" where
  "status_message (TenantSuspended _ _) = ''Tenant access is suspended.''"
| "status_message (TenantDeleted _ _) = ''Tenant has been deleted.''"
| "status_message (TenantReadOnly _ _) = ''Tenant is read-only.''"

definition status_cache_ttl :: "settings \<Rightarrow> real" where
  "status_cache_ttl s = max 0 (of_int (cfg_tenant_status_cache_ttl_seconds s))"

text \<open>None is the \<open>ValueError\<close> of an unknown status.\<close>
definition normalize_status :: "string \<Rightarrow> string option" where
  "normalize_status status =
     (let n = lower (strip status) in if n \<in> set VALID_STATUSES then Some n else None)"

definition status_of_doc :: "doc \<Rightarrow> string" where
  "status_of_doc d =
     (let st = py_str (vget_or d ''status'' (VStr STATUS_ACTIVE));
          st = (if st = [] then STATUS_ACTIVE else st)
      in if st \<in> set VALID_STATUSES then st else STATUS_ACTIVE)"

definition get_tenant_status :: "real \<Rightarrow> real \<Rightarrow> docs \<Rightarrow> string cache \<Rightarrow> string \<Rightarrow> string \<times> string cache" where
  "get_tenant_status ttl now db c tid =
     (case cache_hit c tid now of
        Some st \<Rightarrow> (st, c)
      | None \<Rightarrow> (let st = status_of_doc (doc_or_empty (find_tenant db tid))
                in (st, cache_store c tid st ttl now)))"

text \<open>\<open>str((doc or {}).get(f, ""))\<close>, and the default message where that is empty.\<close>
definition reason_of :: "doc \<Rightarrow> string \<Rightarrow> string \<Rightarrow> string" where
  "reason_of d f dflt = (let r = py_str (vget_or d f (VStr [])) in if r = [] then dflt else r)"

definition assert_tenant_active ::
  "real \<Rightarrow> real \<Rightarrow> docs \<Rightarrow> string cache \<Rightarrow> string \<Rightarrow> (tenant_error + unit) \<times> string cache" where
  "assert_tenant_active ttl now db c tid =
     (case get_tenant_status ttl now db c tid of
        (st, c') \<Rightarrow>
          (if st = STATUS_ACTIVE then Inr ()
           else if st = STATUS_DELETED then Inl (TenantDeleted tid ''Tenant has been deleted.'')
           else Inl (TenantSuspended tid
                  (reason_of (doc_or_empty (find_tenant db tid)) ''suspended_reason''
                     ''Tenant access is suspended.'')), c'))"

text \<open>\<open>str(updated_by or "admin")\<close>.\<close>
definition updated_by_or_admin :: "string option \<Rightarrow> string" where
  "updated_by_or_admin b = (case b of Some s \<Rightarrow> if s = [] then ''admin'' else s | None \<Rightarrow> ''admin'')"

definition opt_strip :: "string option \<Rightarrow> string" where
  "opt_strip r = (case r of Some s \<Rightarrow> strip s | None \<Rightarrow> [])"

definition status_updates ::
  "string \<Rightarrow> real \<Rightarrow> string option \<Rightarrow> string option \<Rightarrow> doc \<Rightarrow> doc" where
  "status_updates normalized wall by' reason extra =
     dmerge
       [(''status'', VStr normalized),
        (''status_updated_at'', VTime wall),
        (''status_updated_by'', VStr (updated_by_or_admin by')),
        (''updated_at'', VTime wall),
        (''suspended_reason'',
           VStr (if normalized = STATUS_SUSPENDED then opt_strip reason else []))]
       extra"

text \<open>None is the \<open>ValueError\<close>; otherwise the updated document (None when the tenant is
  missing), the collection and the cache afterwards.\<close>
definition set_tenant_status ::
  "real \<Rightarrow> real \<Rightarrow> real \<Rightarrow> docs \<Rightarrow> string cache \<Rightarrow> string \<Rightarrow> string \<Rightarrow> string option \<Rightarrow> string option
   \<Rightarrow> doc \<Rightarrow> (doc option \<times> docs \<times> string cache) option" where
  "set_tenant_status ttl wall now db c tid status by' reason extra =
     (case normalize_status status of
        None \<Rightarrow> None
      | Some normalized \<Rightarrow>
          (case update_tenant tid (set_fields (status_updates normalized wall by' reason extra)) db of
             (None, db') \<Rightarrow> Some (None, db', c)
           | (Some d, db') \<Rightarrow> Some (Some d, db', cache_write c tid normalized ttl now)))"

definition read_only_of_doc :: "doc \<Rightarrow> bool" where
  "read_only_of_doc d = truthy (vget_or d ''read_only'' (VBool False))"

definition get_tenant_read_only :: "real \<Rightarrow> real \<Rightarrow> docs \<Rightarrow> bool cache \<Rightarrow> string \<Rightarrow> bool \<times> bool cache" where
  "get_tenant_read_only ttl now db c tid =
     (case cache_hit c tid now of
        Some b \<Rightarrow> (b, c)
      | None \<Rightarrow> (let b = read_only_of_doc (doc_or_empty (find_tenant db tid))
                in (b, cache_store c tid b ttl now)))"

definition assert_tenant_writable ::
  "real \<Rightarrow> real \<Rightarrow> docs \<Rightarrow> bool cache \<Rightarrow> string \<Rightarrow> (tenant_error + unit) \<times> bool cache" where
  "assert_tenant_writable ttl now db c tid =
     (case get_tenant_read_only ttl now db c tid of
        (ro, c') \<Rightarrow>
          (if \<not> ro then Inr ()
           else Inl (TenantReadOnly tid
                  (reason_of (doc_or_empty (find_tenant db tid)) ''read_only_reason''
                     ''Tenant is read-only.'')), c'))"

definition read_only_updates :: "bool \<Rightarrow> real \<Rightarrow> string option \<Rightarrow> string option \<Rightarrow> doc" where
  "read_only_updates enabled wall by' reason =
     [(''read_only'', VBool enabled),
      (''read_only_reason'', VStr (if enabled then opt_strip reason else [])),
      (''read_only_updated_at'', VTime wall),
      (''read_only_updated_by'', VStr (updated_by_or_admin by')),
      (''updated_at'', VTime wall)]"

definition set_tenant_read_only ::
  "real \<Rightarrow> real \<Rightarrow> real \<Rightarrow> docs \<Rightarrow> bool cache \<Rightarrow> string \<Rightarrow> bool \<Rightarrow> string option \<Rightarrow> string option
   \<Rightarrow> doc option \<times> docs \<times> bool cache" where
  "set_tenant_read_only ttl wall now db c tid enabled by' reason =
     (case update_tenant tid (set_fields (read_only_updates enabled wall by' reason)) db of
        (None, db') \<Rightarrow> (None, db', c)
      | (Some d, db') \<Rightarrow> (Some d, db', cache_write c tid enabled ttl now))"

section \<open>The setters and getters meet the cache contract\<close>

lemmas status_defs = STATUS_ACTIVE_def STATUS_SUSPENDED_def STATUS_DELETED_def VALID_STATUSES_def

lemma normalize_status_valid: "normalize_status s = Some n \<Longrightarrow> n \<in> set VALID_STATUSES"
  by (auto simp: normalize_status_def Let_def split: if_splits)

lemma normalize_valid: "n \<in> set VALID_STATUSES \<Longrightarrow> normalize_status n = Some n"
proof -
  have "normalize_status ''active'' = Some ''active''"
    and "normalize_status ''suspended'' = Some ''suspended''"
    and "normalize_status ''deleted'' = Some ''deleted''" by code_simp+
  then show "n \<in> set VALID_STATUSES \<Longrightarrow> normalize_status n = Some n"
    by (auto simp: status_defs)
qed

lemma valid_status_nonempty: "n \<in> set VALID_STATUSES \<Longrightarrow> n \<noteq> []"
  by (auto simp: status_defs)

lemma status_of_doc_valid: "status_of_doc d \<in> set VALID_STATUSES"
  by (simp add: status_of_doc_def Let_def) (simp add: status_defs)

text \<open>The fields a caller may add to a status change (\<open>extra\<close>) are not those it decides.\<close>
definition extra_ok :: "doc \<Rightarrow> bool" where
  "extra_ok e = (\<forall>f\<in>fst ` set e. f \<notin> {''tenant_id'', ''status''})"

lemma fst_dmerge: "fst ` set (dmerge d e) = fst ` set d \<union> fst ` set e"
proof (induction e arbitrary: d)
  case (Cons kv e)
  then show ?case by (cases kv) (simp add: dput_def dom_update)
qed simp

lemma fst_status_updates:
  "fst ` set (status_updates n wall by' reason extra)
   = {''status'', ''status_updated_at'', ''status_updated_by'', ''updated_at'', ''suspended_reason''}
     \<union> fst ` set extra"
  by (simp add: status_updates_def fst_dmerge)

lemma distinct_dmerge: "distinct (map fst d) \<Longrightarrow> distinct (map fst (dmerge d e))"
  by (induction e arbitrary: d) (auto simp: dput_def distinct_update split: prod.splits)

lemma dget_status_updates:
  assumes "extra_ok extra"
  shows "dget (dmerge d (status_updates n wall by' reason extra)) ''status'' = Some (VStr n)"
proof -
  have "dget (status_updates n wall by' reason extra) ''status'' = Some (VStr n)"
    unfolding status_updates_def using assms
    by (subst dget_dmerge_notin) (auto simp: extra_ok_def)
  moreover have "distinct (map fst (status_updates n wall by' reason extra))"
    unfolding status_updates_def by (rule distinct_dmerge) simp
  ultimately show ?thesis by (simp add: dget_dmerge)
qed

lemma status_after_update:
  assumes "n \<in> set VALID_STATUSES" "extra_ok extra"
  shows "status_of_doc (dmerge d (status_updates n wall by' reason extra)) = n"
  using assms valid_status_nonempty [OF assms(1)]
  by (simp add: status_of_doc_def vget_or_def dget_status_updates Let_def)

interpretation status: write_through_cache find_tenant update_tenant "untouched ''tenant_id''"
  status_of_doc get_tenant_status
  "\<lambda>(n, wall, by', reason, extra) ttl now db c k.
     case set_tenant_status ttl wall now db c k n by' reason extra of
       Some r \<Rightarrow> r | None \<Rightarrow> (None, db, c)"
  "\<lambda>(n, wall, by', reason, extra) now. set_fields (status_updates n wall by' reason extra)"
  "\<lambda>(n, wall, by', reason, extra). n \<in> set VALID_STATUSES \<and> extra_ok extra"
proof (unfold_locales, goal_cases)
  case (3 a now)
  then show ?case
    by (auto simp: untouched_def fst_status_updates extra_ok_def split: prod.splits)
next
  case (4 a db k ttl now c)
  then show ?case
    by (auto simp: set_tenant_status_def tenants.modify_missing split: prod.splits option.splits)
next
  case (5 a db k d ttl now c)
  obtain n wall by' reason extra where a: "a = (n, wall, by', reason, extra)" by (cases a)
  with 5 have n: "n \<in> set VALID_STATUSES" "extra_ok extra" by simp_all
  then have "normalize_status n = Some n" by (simp add: normalize_valid)
  then show ?case
    using 5(2) by (simp add: a set_tenant_status_def tenants.modify_case_found status_after_update [OF n])
qed (simp_all add: get_tenant_status_def Let_def)

interpretation read_only: write_through_cache find_tenant update_tenant "untouched ''tenant_id''"
  read_only_of_doc get_tenant_read_only
  "\<lambda>(enabled, wall, by', reason) ttl now db c k.
     set_tenant_read_only ttl wall now db c k enabled by' reason"
  "\<lambda>(enabled, wall, by', reason) now. set_fields (read_only_updates enabled wall by' reason)"
  "\<lambda>_. True"
proof (unfold_locales, goal_cases)
  case (5 a db k d ttl now c)
  obtain enabled wall by' reason where a: "a = (enabled, wall, by', reason)" by (cases a)
  have "read_only_of_doc (dmerge d (read_only_updates enabled wall by' reason)) = enabled"
    by (simp add: read_only_updates_def read_only_of_doc_def)
  then show ?case
    using 5(2) by (simp add: a set_tenant_read_only_def tenants.modify_case_found)
qed (auto simp: Let_def get_tenant_read_only_def set_tenant_read_only_def untouched_def
      read_only_updates_def tenants.modify_missing split: prod.splits)

section \<open>The request-path gates\<close>

lemma assert_active_iff:
  "fst (assert_tenant_active ttl now db c tid) = Inr () \<longleftrightarrow>
   fst (get_tenant_status ttl now db c tid) = STATUS_ACTIVE"
  by (simp add: assert_tenant_active_def split: prod.splits)

lemma assert_writable_iff:
  "fst (assert_tenant_writable ttl now db c tid) = Inr () \<longleftrightarrow>
   \<not> fst (get_tenant_read_only ttl now db c tid)"
  by (simp add: assert_tenant_writable_def split: prod.splits)

lemma set_status_Some:
  assumes "set_tenant_status ttl wall now db c tid st by' reason extra = Some (Some d, db', c')"
  obtains n d0 where "normalize_status st = Some n" "n \<in> set VALID_STATUSES"
    "find_tenant db tid = Some d0"
    "set_tenant_status ttl wall now db c tid n by' reason extra = Some (Some d, db', c')"
proof -
  obtain n where n: "normalize_status st = Some n"
    using assms by (auto simp: set_tenant_status_def split: option.splits)
  then have v: "n \<in> set VALID_STATUSES" by (rule normalize_status_valid)
  then have "normalize_status n = Some n" by (simp add: normalize_valid)
  moreover obtain d0 where "find_tenant db tid = Some d0"
    using assms n by (cases "find_tenant db tid")
      (auto simp: set_tenant_status_def tenants.modify_case_missing)
  ultimately show ?thesis using that n v assms by (simp add: set_tenant_status_def)
qed

lemma set_status_stored:
  assumes "set_tenant_status ttl wall now db c tid st by' reason extra = Some (Some d, db', c')"
    and "normalize_status st = Some n" and "extra_ok extra"
  shows "status_of_doc (doc_or_empty (find_tenant db' tid)) = n"
    and "c' = cache_write c tid n ttl now"
proof -
  obtain d0 where v: "n \<in> set VALID_STATUSES" and f: "find_tenant db tid = Some d0"
    and e: "set_tenant_status ttl wall now db c tid n by' reason extra = Some (Some d, db', c')"
    using set_status_Some [OF assms(1)] assms(2) by (metis option.inject)
  have a: "(case (n, wall, by', reason, extra) of (n, wall, by', reason, extra) \<Rightarrow>
              n \<in> set VALID_STATUSES \<and> extra_ok extra)" using v assms(3) by simp
  have p: "(case set_tenant_status ttl wall now db c tid n by' reason extra of
              Some r \<Rightarrow> r | None \<Rightarrow> (None, db, c)) = (Some d, db', c')" using e by simp
  have "find_tenant db' tid = Some (apply_update (set_fields (status_updates n wall by' reason extra)) d0)"
    using status.put_stores(1) [of "(n, wall, by', reason, extra)", OF a f] p by simp
  then show st: "status_of_doc (doc_or_empty (find_tenant db' tid)) = n"
    using status_after_update [OF v assms(3)] by simp
  have "c' = cache_write c tid (status.stored db' tid) ttl now"
    by (rule status.put_stores(3) [OF a f, of ttl now c "Some d"]) (use p in simp)
  then show "c' = cache_write c tid n ttl now" using st by (simp add: status.stored_def)
qed

text \<open>C13. Kill switch, acting replica: once a status change has been written, this replica's
  request gate admits the tenant exactly when the new status is \<open>active\<close>, from that moment on
  (no window in which a suspended or deleted tenant still runs).\<close>
theorem status_change_effective_at_once:
  assumes "set_tenant_status ttl wall now db c tid st by' reason extra = Some (Some d, db', c')"
    and "extra_ok extra" and "now \<le> t"
  shows "fst (assert_tenant_active ttl t db' c' tid) = Inr () \<longleftrightarrow>
         normalize_status st = Some STATUS_ACTIVE"
proof -
  obtain n where n: "normalize_status st = Some n" using set_status_Some [OF assms(1)] by metis
  note w = set_status_stored [OF assms(1) n assms(2)]
  have "fst (get_tenant_status ttl t db' c' tid) = n"
    using assms(3) w by (simp add: status.get_value cache_hit_written status.stored_def)
  then show ?thesis using n by (simp add: assert_active_iff)
qed

text \<open>Bounded propagation: on any other replica, whatever it has cached and whatever it
  serves meanwhile, the new status is the one its gate uses as soon as the entries it had are
  past their expiry, which is at most one time to live after the change.\<close>
theorem status_change_propagates:
  assumes "set_tenant_status ttl wall now db c tid st by' reason extra = Some (Some d, db', c')"
    and "extra_ok extra" and "normalize_status st = Some n"
    and "expires_by (now + ttl) c2"
    and "\<forall>u w. WorldWrite u w \<in> set es \<longrightarrow> status_of_doc (doc_or_empty (find_tenant w tid)) = n"
    and "now + ttl \<le> t"
  shows "fst (get_tenant_status ttl t (fst (replay (get_tenant_status ttl) es (db', c2)))
                                      (snd (replay (get_tenant_status ttl) es (db', c2))) tid) = n"
proof -
  note w = set_status_stored [OF assms(1,3,2)]
  have "\<forall>u w. WorldWrite u w \<in> set es \<longrightarrow> status.stored w tid = status.stored db' tid"
    using assms(5) w(1) by (simp add: status.stored_def)
  from status.bounded_staleness [OF assms(4) this assms(6)] w(1)
  show ?thesis by (simp add: status.stored_def)
qed

text \<open>The read-only switch refuses and re-admits writes at once on the acting replica, and
  leaves the lifecycle status of every tenant as it was.\<close>
theorem read_only_switch:
  assumes "set_tenant_read_only ttl wall now db c tid enabled by' reason = (Some d, db', c')"
    and "now \<le> t"
  shows "(fst (assert_tenant_writable ttl t db' c' tid) = Inr () \<longleftrightarrow> \<not> enabled)
         \<and> status_of_doc (doc_or_empty (find_tenant db' j)) = status_of_doc (doc_or_empty (find_tenant db j))"
proof -
  let ?u = "set_fields (read_only_updates enabled wall by' reason)"
  have keep: "untouched ''tenant_id'' ?u" by (simp add: untouched_def read_only_updates_def)
  obtain d0 where f: "find_tenant db tid = Some d0"
    using assms(1) by (cases "find_tenant db tid")
      (auto simp: set_tenant_read_only_def tenants.modify_case_missing)
  have db': "db' = snd (update_tenant tid ?u db)" and c': "c' = cache_write c tid enabled ttl now"
    using assms(1) by (auto simp: set_tenant_read_only_def tenants.modify_case_found [OF f])
  have s: "find_tenant db' tid = Some (apply_update ?u d0)"
    by (simp only: db' tenants.lookup_same [OF f keep])
  have ro: "fst (get_tenant_read_only ttl t db' c' tid) = enabled"
    using assms(2) s c'
    by (auto simp: read_only.get_value cache_hit_written read_only.stored_def read_only_of_doc_def
        read_only_updates_def)
  have "status_of_doc (doc_or_empty (find_tenant db' j)) = status_of_doc (doc_or_empty (find_tenant db j))"
  proof (cases "j = tid")
    case True
    then show ?thesis using s f by (simp add: status_of_doc_def read_only_updates_def)
  next
    case False
    then show ?thesis using tenants.lookup_other [OF keep False, of db] db' by simp
  qed
  then show ?thesis using ro by (simp add: assert_writable_iff)
qed

definition demo_tenant :: docs where
  "demo_tenant = [[(''tenant_id'', VStr ''acme''), (''status'', VStr ''active'')]]"

lemma suspend_demo:
  "set_tenant_status 5 0 0 demo_tenant Map.empty ''acme'' '' Suspended'' None None [] =
     Some (Some (dmerge (hd demo_tenant) (status_updates ''suspended'' 0 None None [])),
           [dmerge (hd demo_tenant) (status_updates ''suspended'' 0 None None [])],
           [''acme'' \<mapsto> (''suspended'', 5)])"
proof -
  have "normalize_status '' Suspended'' = Some ''suspended''" by code_simp
  then show ?thesis
    by (simp add: set_tenant_status_def update_tenant_def find_one_and_update_def demo_tenant_def
        cache_write_def fun_eq_iff)
qed

lemma status_change_effective_at_once_witness:
  "fst (assert_tenant_active 5 2 [dmerge (hd demo_tenant) (status_updates ''suspended'' 0 None None [])]
     [''acme'' \<mapsto> (''suspended'', 5)] ''acme'') \<noteq> Inr ()"
proof -
  have "normalize_status '' Suspended'' \<noteq> Some STATUS_ACTIVE" by code_simp
  then show ?thesis
    using status_change_effective_at_once [OF suspend_demo, of 2] by (simp add: extra_ok_def)
qed

lemma status_change_propagates_witness:
  "fst (get_tenant_status 5 6
     (fst (replay (get_tenant_status 5) [Serve 1 ''acme'', Serve 3 ''acme'']
        ([dmerge (hd demo_tenant) (status_updates ''suspended'' 0 None None [])],
         [''acme'' \<mapsto> (''active'', 4)])))
     (snd (replay (get_tenant_status 5) [Serve 1 ''acme'', Serve 3 ''acme'']
        ([dmerge (hd demo_tenant) (status_updates ''suspended'' 0 None None [])],
         [''acme'' \<mapsto> (''active'', 4)]))) ''acme'') = ''suspended''"
proof -
  have n: "normalize_status '' Suspended'' = Some ''suspended''" by code_simp
  show ?thesis
    by (rule status_change_propagates [OF suspend_demo _ n])
       (simp_all add: extra_ok_def expires_by_def)
qed

lemma read_only_switch_witness:
  "fst (assert_tenant_writable 5 2
      (fst (snd (set_tenant_read_only 5 0 0 demo_tenant Map.empty ''acme'' True None None)))
      (snd (snd (set_tenant_read_only 5 0 0 demo_tenant Map.empty ''acme'' True None None))) ''acme'')
   \<noteq> Inr ()"
proof -
  obtain d db' c' where
    r: "set_tenant_read_only 5 0 0 demo_tenant Map.empty ''acme'' True None None = (Some d, db', c')"
    by (simp add: set_tenant_read_only_def update_tenant_def find_one_and_update_def demo_tenant_def)
  then show ?thesis using read_only_switch [OF r, of 2 "''acme''"] by simp
qed

end
