(* ===== verification/AccountTier.thy ===== *)
theory AccountTier
  imports TenantStatus
begin

text \<open>\<open>services/account_tier.py\<close>: the confirmation tier of a tenant (unconfirmed self-service
  sign-up or confirmed) and the resource caps each tier implies.\<close>

definition CONFIRMATION_UNCONFIRMED :: string where "CONFIRMATION_UNCONFIRMED = ''unconfirmed''"
definition CONFIRMATION_CONFIRMED :: string where "CONFIRMATION_CONFIRMED = ''confirmed''"
definition DEFAULT_CONFIRMATION :: string where "DEFAULT_CONFIRMATION = CONFIRMATION_CONFIRMED"

definition VALID_CONFIRMATIONS :: "string list" where
  "VALID_CONFIRMATIONS = [CONFIRMATION_UNCONFIRMED, CONFIRMATION_CONFIRMED]"

record tier_limits =
  max_servers :: int
  cap_tools :: int
  allowed_transports :: "string set"
  quota_calls_per_period :: int
  quota_sandbox_seconds_per_period :: int

definition clean_confirmation :: "pyval \<Rightarrow> string" where
  "clean_confirmation v = lower (strip (py_str (py_or v (VStr []))))"

definition normalize_confirmation :: "pyval \<Rightarrow> string" where
  "normalize_confirmation v =
     (let n = clean_confirmation v
      in if n \<in> set VALID_CONFIRMATIONS then n else DEFAULT_CONFIRMATION)"

definition parse_transports :: "string \<Rightarrow> string set" where
  "parse_transports raw =
     set (filter (\<lambda>p. p \<noteq> [])
       (map strip (split_ws (map (\<lambda>c. if c = CHR '','' then CHR '' '' else c) raw))))"

definition tier_caps :: "settings \<Rightarrow> string \<Rightarrow> tier_limits" where
  "tier_caps s confirmation =
     (if normalize_confirmation (VStr confirmation) = CONFIRMATION_UNCONFIRMED then
        \<lparr>max_servers = max 0 (cfg_unconfirmed_max_servers s),
         cap_tools = max 0 (cfg_unconfirmed_max_tools s),
         allowed_transports = parse_transports (cfg_unconfirmed_allowed_transports s),
         quota_calls_per_period = max 0 (cfg_unconfirmed_quota_calls_per_period s),
         quota_sandbox_seconds_per_period = max 0 (cfg_unconfirmed_quota_sandbox_seconds_per_period s)\<rparr>
      else
        \<lparr>max_servers = max 0 (cfg_confirmed_max_servers s),
         cap_tools = max 0 (cfg_confirmed_max_tools s),
         allowed_transports = parse_transports (cfg_confirmed_allowed_transports s),
         quota_calls_per_period = max 0 (cfg_confirmed_quota_calls_per_period s),
         quota_sandbox_seconds_per_period = max 0 (cfg_confirmed_quota_sandbox_seconds_per_period s)\<rparr>)"

definition confirmation_of_doc :: "doc \<Rightarrow> string" where
  "confirmation_of_doc d = normalize_confirmation (vget d ''confirmation'')"

definition get_tenant_confirmation ::
  "real \<Rightarrow> real \<Rightarrow> docs \<Rightarrow> string cache \<Rightarrow> string \<Rightarrow> string \<times> string cache" where
  "get_tenant_confirmation ttl now db c tid =
     (case cache_hit c tid now of
        Some v \<Rightarrow> (v, c)
      | None \<Rightarrow> (let v = confirmation_of_doc (doc_or_empty (find_tenant db tid))
                in (v, cache_store c tid v ttl now)))"

definition get_tenant_tier_caps ::
  "settings \<Rightarrow> real \<Rightarrow> docs \<Rightarrow> string cache \<Rightarrow> string \<Rightarrow> tier_limits \<times> string cache" where
  "get_tenant_tier_caps s now db c tid =
     (case get_tenant_confirmation (status_cache_ttl s) now db c tid of
        (v, c') \<Rightarrow> (tier_caps s v, c'))"

definition confirmation_updates :: "string \<Rightarrow> real \<Rightarrow> string option \<Rightarrow> doc" where
  "confirmation_updates normalized wall by' =
     [(''confirmation'', VStr normalized),
      (''confirmation_updated_at'', VTime wall),
      (''confirmation_updated_by'', VStr (updated_by_or_admin by')),
      (''updated_at'', VTime wall)]"

text \<open>None is the \<open>ValueError\<close> of an unknown tier.\<close>
definition set_tenant_confirmation ::
  "real \<Rightarrow> real \<Rightarrow> real \<Rightarrow> docs \<Rightarrow> string cache \<Rightarrow> string \<Rightarrow> string \<Rightarrow> string option
   \<Rightarrow> (doc option \<times> docs \<times> string cache) option" where
  "set_tenant_confirmation ttl wall now db c tid confirmation by' =
     (let normalized = normalize_confirmation (VStr confirmation)
      in if clean_confirmation (VStr confirmation) \<notin> set VALID_CONFIRMATIONS then None
         else case update_tenant tid (set_fields (confirmation_updates normalized wall by')) db of
             (None, db') \<Rightarrow> Some (None, db', c)
           | (Some d, db') \<Rightarrow> Some (Some d, db', cache_write c tid normalized ttl now))"

section \<open>The tier meets the cache contract\<close>

lemmas confirmation_defs = CONFIRMATION_UNCONFIRMED_def CONFIRMATION_CONFIRMED_def
  DEFAULT_CONFIRMATION_def VALID_CONFIRMATIONS_def

lemma normalize_confirmation_valid: "normalize_confirmation v \<in> set VALID_CONFIRMATIONS"
  by (simp add: normalize_confirmation_def Let_def) (simp add: confirmation_defs)

lemma clean_confirmation_valid: "n \<in> set VALID_CONFIRMATIONS \<Longrightarrow> clean_confirmation (VStr n) = n"
proof -
  have "clean_confirmation (VStr ''unconfirmed'') = ''unconfirmed''"
    and "clean_confirmation (VStr ''confirmed'') = ''confirmed''" by code_simp+
  then show "n \<in> set VALID_CONFIRMATIONS \<Longrightarrow> clean_confirmation (VStr n) = n"
    by (auto simp: confirmation_defs)
qed

lemma normalize_confirmation_id:
  "n \<in> set VALID_CONFIRMATIONS \<Longrightarrow> normalize_confirmation (VStr n) = n"
  by (simp add: normalize_confirmation_def clean_confirmation_valid Let_def)

lemma confirmation_after_update:
  "n \<in> set VALID_CONFIRMATIONS \<Longrightarrow>
   confirmation_of_doc (dmerge d (confirmation_updates n wall by')) = n"
  by (simp add: confirmation_of_doc_def confirmation_updates_def normalize_confirmation_id)

interpretation tier: write_through_cache find_tenant update_tenant "untouched ''tenant_id''"
  confirmation_of_doc get_tenant_confirmation
  "\<lambda>(n, wall, by') ttl now db c k.
     case set_tenant_confirmation ttl wall now db c k n by' of Some r \<Rightarrow> r | None \<Rightarrow> (None, db, c)"
  "\<lambda>(n, wall, by') now. set_fields (confirmation_updates n wall by')"
  "\<lambda>(n, wall, by'). n \<in> set VALID_CONFIRMATIONS"
proof (unfold_locales, goal_cases)
  case (5 a db k d ttl now c)
  obtain n wall by' where a: "a = (n, wall, by')" by (cases a)
  with 5 have n: "n \<in> set VALID_CONFIRMATIONS" by simp
  show ?case using 5(2)
    by (simp add: a set_tenant_confirmation_def tenants.modify_case_found n Let_def
        clean_confirmation_valid [OF n] normalize_confirmation_id [OF n] confirmation_after_update [OF n])
qed (auto simp: get_tenant_confirmation_def set_tenant_confirmation_def untouched_def Let_def
      confirmation_updates_def tenants.modify_case_missing clean_confirmation_valid split: prod.splits)

lemma parse_transports_nonempty: "t \<in> parse_transports raw \<Longrightarrow> t \<noteq> []"
  by (auto simp: parse_transports_def)

lemma tier_caps_nonneg:
  "0 \<le> max_servers (tier_caps s c) \<and> 0 \<le> cap_tools (tier_caps s c)
   \<and> 0 \<le> quota_calls_per_period (tier_caps s c) \<and> 0 \<le> quota_sandbox_seconds_per_period (tier_caps s c)"
  by (simp add: tier_caps_def)

lemma fst_tier_caps:
  "fst (get_tenant_tier_caps s now db c tid)
   = tier_caps s (fst (get_tenant_confirmation (status_cache_ttl s) now db c tid))"
  by (simp add: get_tenant_tier_caps_def split_beta)

text \<open>A promotion (or demotion) of a tenant decides the caps its server registrations are
  checked against: at once on the replica that wrote it, and on every other replica once the
  entries it held have expired, whatever it served meanwhile.\<close>
theorem promotion_decides_caps:
  assumes "set_tenant_confirmation (status_cache_ttl s) wall now db c tid n by' = Some (Some d, db', c')"
    and "n \<in> set VALID_CONFIRMATIONS" and "now \<le> t"
    and "expires_by (now + status_cache_ttl s) c2"
    and "\<forall>u w. WorldWrite u w \<in> set es \<longrightarrow> confirmation_of_doc (doc_or_empty (find_tenant w tid)) = n"
    and "now + status_cache_ttl s \<le> t'"
    and "(db2, c3) = replay (get_tenant_confirmation (status_cache_ttl s)) es (db', c2)"
  shows "fst (get_tenant_tier_caps s t db' c' tid) = tier_caps s n
         \<and> fst (get_tenant_tier_caps s t' db2 c3 tid) = tier_caps s n"
proof -
  let ?ttl = "status_cache_ttl s"
  obtain d0 where f: "find_tenant db tid = Some d0"
    using assms(1,2) by (cases "find_tenant db tid")
      (auto simp: set_tenant_confirmation_def tenants.modify_case_missing clean_confirmation_valid)
  have a: "(case (n, wall, by') of (n, wall, by') \<Rightarrow> n \<in> set VALID_CONFIRMATIONS)" using assms(2) by simp
  have p: "(case (n, wall, by') of (n, wall, by') \<Rightarrow> \<lambda>ttl now db c k.
      case set_tenant_confirmation ttl wall now db c k n by' of Some r \<Rightarrow> r | None \<Rightarrow> (None, db, c))
      ?ttl now db c tid = (Some d, db', c')" using assms(1) by simp
  have own: "fst (get_tenant_tier_caps s t db' c' tid) = tier_caps s n"
    using tier.read_own_write [OF a f p assms(3)]
    by (simp add: fst_tier_caps confirmation_after_update [OF assms(2)])
  have st: "tier.stored db' tid = n"
    using tier.put_stores(1) [OF a f p]
    by (simp add: tier.stored_def confirmation_after_update [OF assms(2)])
  have "\<forall>u w. WorldWrite u w \<in> set es \<longrightarrow> tier.stored w tid = tier.stored db' tid"
    using assms(5) st by (simp add: tier.stored_def)
  from tier.bounded_staleness [OF assms(4) this assms(6)] st assms(7)
  have "fst (get_tenant_confirmation ?ttl t' db2 c3 tid) = n" by (metis fst_conv snd_conv)
  with own show ?thesis by (simp add: fst_tier_caps)
qed

lemma promotion_decides_caps_witness:
  "\<exists>db' c'. fst (get_tenant_tier_caps default_settings 1 db' c' ''acme'') = tier_caps default_settings ''unconfirmed''
     \<and> max_servers (tier_caps default_settings ''unconfirmed'') = 1"
proof -
  have ttl: "status_cache_ttl default_settings = 5"
    by (simp add: status_cache_ttl_def default_settings_def)
  have v: "''unconfirmed'' \<in> set VALID_CONFIRMATIONS" by (simp add: confirmation_defs)
  obtain d db' c' where r: "set_tenant_confirmation (status_cache_ttl default_settings) 0 0 demo_tenant
      Map.empty ''acme'' ''unconfirmed'' None = Some (Some d, db', c')"
    by (simp add: set_tenant_confirmation_def clean_confirmation_valid [OF v] v update_tenant_def
        find_one_and_update_def demo_tenant_def Let_def)
  have "fst (get_tenant_tier_caps default_settings 1 db' c' ''acme'') = tier_caps default_settings ''unconfirmed''"
    by (rule conjunct1 [OF promotion_decides_caps [OF r v, of 1 Map.empty "[]" 5 db' Map.empty]])
       (simp_all add: ttl)
  moreover have "normalize_confirmation (VStr ''unconfirmed'') = CONFIRMATION_UNCONFIRMED"
    by (simp add: normalize_confirmation_id v CONFIRMATION_UNCONFIRMED_def)
  then have "max_servers (tier_caps default_settings ''unconfirmed'') = 1"
    by (simp add: tier_caps_def default_settings_def)
  ultimately show ?thesis by blast
qed

end
