(* ===== verification/ToolPolicy.thy ===== *)
theory ToolPolicy
  imports TenantStatus
begin

text \<open>\<open>services/tenant_tool_policy.py\<close>: the per-tenant curation of the tool catalog (allowlist
  with \<open>server/*\<close> wildcards, cap on the number of tools, disabled overlay), its cache, the
  filter discovery applies and the two setters.\<close>

record tool_policy =
  allowlist :: "string list"
  max_tools :: int
  disabled_tools :: "string list"

text \<open>\<open>_clean_entries\<close>: None and every other falsy value has no entries.\<close>
definition clean_entries :: "pyval \<Rightarrow> string list" where
  "clean_entries v =
     sorted_set (filter (\<lambda>s. s \<noteq> []) (map (\<lambda>x. strip (py_str x))
       (iter_values (py_or v (VList [])))))"

definition coerce_cap :: "pyval \<Rightarrow> int" where
  "coerce_cap v = (case py_int (py_or v (VInt 0)) of None \<Rightarrow> 0 | Some cap \<Rightarrow> if cap > 0 then cap else 0)"

definition normalize_policy :: "doc \<Rightarrow> tool_policy" where
  "normalize_policy d =
     \<lparr>allowlist = clean_entries (vget d ''tool_allowlist''),
      max_tools = coerce_cap (vget d ''max_tools''),
      disabled_tools = clean_entries (vget d ''disabled_tools'')\<rparr>"

definition store_policy_cache ::
  "real \<Rightarrow> real \<Rightarrow> tool_policy cache \<Rightarrow> string \<Rightarrow> doc \<Rightarrow> tool_policy cache" where
  "store_policy_cache ttl now c tid d = cache_write c tid (normalize_policy d) ttl now"

definition get_tool_policy ::
  "real \<Rightarrow> real \<Rightarrow> docs \<Rightarrow> tool_policy cache \<Rightarrow> string \<Rightarrow> tool_policy \<times> tool_policy cache" where
  "get_tool_policy ttl now db c tid =
     (case cache_hit c tid now of
        Some p \<Rightarrow> (p, c)
      | None \<Rightarrow> (let p = normalize_policy (doc_or_empty (find_tenant db tid))
                in (p, cache_store c tid p ttl now)))"

definition fq_tool :: "string \<Rightarrow> string \<Rightarrow> string" where
  "fq_tool server name = server @ ''/'' @ name"

definition matches_allowlist :: "string \<Rightarrow> string \<Rightarrow> string list \<Rightarrow> bool" where
  "matches_allowlist server name al =
     (al = [] \<or> fq_tool server name \<in> set al \<or> fq_tool server ''*'' \<in> set al)"

definition is_tool_available :: "tool_policy \<Rightarrow> string \<Rightarrow> string \<Rightarrow> bool" where
  "is_tool_available p server name =
     (if fq_tool server name \<in> set (disabled_tools p) then False
      else matches_allowlist server name (allowlist p))"

text \<open>\<open>str(tool.get(key, ""))\<close>.\<close>
definition text_field :: "doc \<Rightarrow> string \<Rightarrow> string" where
  "text_field d k = py_str (vget_or d k (VStr []))"

definition filter_available_tools ::
  "real \<Rightarrow> real \<Rightarrow> docs \<Rightarrow> tool_policy cache \<Rightarrow> string \<Rightarrow> doc list \<Rightarrow> string \<Rightarrow> string
   \<Rightarrow> doc list \<times> tool_policy cache" where
  "filter_available_tools ttl now db c tid tools server_key name_key =
     (case get_tool_policy ttl now db c tid of
        (p, c') \<Rightarrow>
          (if allowlist p = [] \<and> disabled_tools p = [] then tools
           else filter (\<lambda>t. is_tool_available p (text_field t server_key) (text_field t name_key)) tools,
           c'))"

definition policy_audit :: "real \<Rightarrow> string option \<Rightarrow> doc" where
  "policy_audit wall by' =
     [(''tool_policy_updated_at'', VTime wall),
      (''tool_policy_updated_by'', VStr (updated_by_or_admin by')),
      (''updated_at'', VTime wall)]"

definition tool_policy_updates :: "pyval \<Rightarrow> pyval \<Rightarrow> real \<Rightarrow> string option \<Rightarrow> doc" where
  "tool_policy_updates al cap wall by' =
     [(''tool_allowlist'', VList (map VStr (clean_entries al))),
      (''max_tools'', VInt (coerce_cap cap))] @ policy_audit wall by'"

definition set_tool_policy ::
  "real \<Rightarrow> real \<Rightarrow> real \<Rightarrow> docs \<Rightarrow> tool_policy cache \<Rightarrow> string \<Rightarrow> pyval \<Rightarrow> pyval \<Rightarrow> string option
   \<Rightarrow> doc option \<times> docs \<times> tool_policy cache" where
  "set_tool_policy ttl wall now db c tid al cap by' =
     (case update_tenant tid (set_fields (tool_policy_updates al cap wall by')) db of
        (None, db') \<Rightarrow> (None, db', c)
      | (Some d, db') \<Rightarrow> (Some d, db', store_policy_cache ttl now c tid d))"

definition tool_enabled_update :: "string \<Rightarrow> bool \<Rightarrow> real \<Rightarrow> string option \<Rightarrow> update_spec" where
  "tool_enabled_update fq enabled wall by' =
     (if enabled
      then (set_fields (policy_audit wall by'))\<lparr>upd_pull := [(''disabled_tools'', VStr fq)]\<rparr>
      else (set_fields (policy_audit wall by'))\<lparr>upd_add_to_set := [(''disabled_tools'', VStr fq)]\<rparr>)"

definition set_tool_enabled ::
  "real \<Rightarrow> real \<Rightarrow> real \<Rightarrow> docs \<Rightarrow> tool_policy cache \<Rightarrow> string \<Rightarrow> string \<Rightarrow> string \<Rightarrow> bool
   \<Rightarrow> string option \<Rightarrow> doc option \<times> docs \<times> tool_policy cache" where
  "set_tool_enabled ttl wall now db c tid server name enabled by' =
     (case update_tenant tid (tool_enabled_update (fq_tool server name) enabled wall by') db of
        (None, db') \<Rightarrow> (None, db', c)
      | (Some d, db') \<Rightarrow> (Some d, db', store_policy_cache ttl now c tid d))"

section \<open>The policy meets the cache contract\<close>

text \<open>A setter is either of the two.\<close>
datatype policy_change =
    Curate pyval pyval real "string option"
  | Toggle string string bool real "string option"

fun change_fields :: "policy_change \<Rightarrow> real \<Rightarrow> update_spec" where
  "change_fields (Curate al cap wall by') now = set_fields (tool_policy_updates al cap wall by')"
| "change_fields (Toggle server name enabled wall by') now =
     tool_enabled_update (fq_tool server name) enabled wall by'"

fun change_policy :: "policy_change \<Rightarrow> real \<Rightarrow> real \<Rightarrow> docs \<Rightarrow> tool_policy cache \<Rightarrow> string
    \<Rightarrow> doc option \<times> docs \<times> tool_policy cache" where
  "change_policy (Curate al cap wall by') ttl now db c k = set_tool_policy ttl wall now db c k al cap by'"
| "change_policy (Toggle server name enabled wall by') ttl now db c k =
     set_tool_enabled ttl wall now db c k server name enabled by'"

interpretation policy: write_through_cache find_tenant update_tenant "untouched ''tenant_id''"
  normalize_policy get_tool_policy change_policy change_fields "\<lambda>_. True"
proof (unfold_locales, goal_cases)
  case (3 a now)
  show ?case
    by (cases a) (auto simp: untouched_def tool_policy_updates_def policy_audit_def tool_enabled_update_def)
next
  case (4 a db k ttl now c)
  then show ?case
    by (cases a) (simp_all add: set_tool_policy_def set_tool_enabled_def tenants.modify_case_missing)
next
  case (5 a db k d ttl now c)
  then show ?case
    by (cases a)
       (simp_all add: set_tool_policy_def set_tool_enabled_def tenants.modify_case_found store_policy_cache_def
         del: apply_set_fields)
qed (simp_all add: get_tool_policy_def Let_def)

lemma vget_tool_enabled:
  "vget (apply_update (tool_enabled_update fq enabled wall by') d) ''tool_allowlist'' = vget d ''tool_allowlist''"
  by (rule vget_untouched) (simp add: untouched_def tool_enabled_update_def policy_audit_def)

lemma disabled_after_toggle:
  assumes "vget d ''disabled_tools'' = VList (map VStr xs)"
  shows "vget (apply_update (tool_enabled_update fq enabled wall by') d) ''disabled_tools'' =
         VList (map VStr (if enabled then filter (\<lambda>x. x \<noteq> fq) xs
                          else if fq \<in> set xs then xs else xs @ [fq]))"
  using assms
  by (auto simp: tool_enabled_update_def apply_update_def policy_audit_def pull_value_def add_to_set_def
      Let_def filter_map o_def vmem_def list_ex_iff)

lemma clean_entries_strings:
  "set (clean_entries (VList (map VStr xs))) = strip ` set xs - {[]}"
  by (cases xs) (auto simp: clean_entries_def py_or_def)

lemma filter_is_filter:
  "fst (filter_available_tools ttl now db c tid tools sk nk) =
   filter (\<lambda>t. is_tool_available (fst (get_tool_policy ttl now db c tid)) (text_field t sk) (text_field t nk)) tools"
  by (auto simp: filter_available_tools_def is_tool_available_def matches_allowlist_def split: prod.splits
      intro!: filter_True [symmetric])

section \<open>Properties of the curation\<close>

text \<open>The disabled overlay a document stores, when it is a list of clean entries (or unset).\<close>
definition overlay_is :: "doc \<Rightarrow> string list \<Rightarrow> bool" where
  "overlay_is d xs = ((vget d ''disabled_tools'' = VList (map VStr xs)
                       \<or> vget d ''disabled_tools'' = VNone \<and> xs = [])
                      \<and> list_all (\<lambda>x. strip x = x \<and> x \<noteq> []) xs)"

lemma overlay_set: "overlay_is d xs \<Longrightarrow> set (disabled_tools (normalize_policy d)) = set xs"
  by (auto simp: overlay_is_def normalize_policy_def clean_entries_strings list_all_iff
      clean_entries_def py_or_def image_iff)

lemma overlay_after_toggle:
  assumes "overlay_is d xs" and "strip fq = fq" and "fq \<noteq> []"
  shows "\<exists>ys. overlay_is (apply_update (tool_enabled_update fq enabled wall by') d) ys
              \<and> set ys = (if enabled then set xs - {fq} else insert fq (set xs))"
proof (cases "vget d ''disabled_tools'' = VNone")
  case True
  then have "xs = []" using assms(1) by (auto simp: overlay_is_def)
  then show ?thesis using True assms
    by (intro exI [of _ "if enabled then [] else [fq]"])
       (auto simp: overlay_is_def tool_enabled_update_def apply_update_def policy_audit_def
         pull_value_def add_to_set_def Let_def vmem_def)
next
  case False
  then have "vget d ''disabled_tools'' = VList (map VStr xs)" using assms(1) by (auto simp: overlay_is_def)
  from disabled_after_toggle [OF this, of fq enabled wall by'] show ?thesis using assms
    by (intro exI [of _ "if enabled then filter (\<lambda>x. x \<noteq> fq) xs
                         else if fq \<in> set xs then xs else xs @ [fq]"])
       (auto simp: overlay_is_def list_all_iff)
qed

text \<open>The per-tool kill switch: after a toggle, this replica treats the tool as available
  exactly when it was enabled and the (unchanged) allowlist admits it, and every other tool
  exactly as before.\<close>
theorem tool_toggle_effective:
  assumes "set_tool_enabled ttl wall now db c tid server name enabled by' = (Some d, db', c')"
    and "find_tenant db tid = Some d0" and "overlay_is d0 xs"
    and "strip (fq_tool server name) = fq_tool server name" and "now \<le> t"
  shows "is_tool_available (fst (get_tool_policy ttl t db' c' tid)) s n =
         (if fq_tool s n = fq_tool server name
          then enabled \<and> matches_allowlist s n (allowlist (normalize_policy d0))
          else is_tool_available (normalize_policy d0) s n)"
proof -
  let ?a = "Toggle server name enabled wall by'" and ?fq = "fq_tool server name"
  let ?d = "apply_update (tool_enabled_update ?fq enabled wall by') d0"
  have p: "fst (get_tool_policy ttl t db' c' tid) = normalize_policy ?d"
    using policy.read_own_write [where a = ?a, OF TrueI assms(2) _ assms(5)] assms(1) by simp
  have al: "allowlist (normalize_policy ?d) = allowlist (normalize_policy d0)"
    by (simp add: normalize_policy_def vget_tool_enabled)
  have "?fq \<noteq> []" by (simp add: fq_tool_def)
  from overlay_after_toggle [OF assms(3,4) this, of enabled wall by']
  have "set (disabled_tools (normalize_policy ?d))
        = (if enabled then set (disabled_tools (normalize_policy d0)) - {?fq}
           else insert ?fq (set (disabled_tools (normalize_policy d0))))"
    using overlay_set assms(3) by metis
  then show ?thesis using p al
    by (auto simp: is_tool_available_def matches_allowlist_def)
qed

definition demo_catalog_tenant :: doc where
  "demo_catalog_tenant = [(''tenant_id'', VStr ''acme''),
     (''disabled_tools'', VList [VStr ''crm/drop'']), (''tool_allowlist'', VList [VStr ''crm/*''])]"

lemma tool_toggle_effective_witness:
  "\<exists>db' c'. \<not> is_tool_available (fst (get_tool_policy 5 2 db' c' ''acme'')) ''crm'' ''find''
     \<and> (is_tool_available (fst (get_tool_policy 5 2 db' c' ''acme'')) ''crm'' ''list''
        = is_tool_available (normalize_policy demo_catalog_tenant) ''crm'' ''list'')"
proof -
  have f: "find_tenant [demo_catalog_tenant] ''acme'' = Some demo_catalog_tenant"
    by (simp add: find_tenant_def demo_catalog_tenant_def)
  obtain d db' c' where
    r: "set_tool_enabled 5 0 0 [demo_catalog_tenant] Map.empty ''acme'' ''crm'' ''find'' False None
        = (Some d, db', c')"
    unfolding set_tool_enabled_def tenants.modify_case_found [OF f] by simp
  have o: "overlay_is demo_catalog_tenant [''crm/drop'']" by code_simp
  have s: "strip (fq_tool ''crm'' ''find'') = fq_tool ''crm'' ''find''" by code_simp
  have neq: "fq_tool ''crm'' ''list'' \<noteq> fq_tool ''crm'' ''find''" by (simp add: fq_tool_def)
  note t = tool_toggle_effective [OF r f o s, of 2]
  show ?thesis
    using t [of "''crm''" "''find''"] t [of "''crm''" "''list''"] neq by auto
qed

text \<open>Discovery: the curation filter (its shortcut for an unrestricted tenant included)
  keeps exactly the available tools, in their order.\<close>
theorem discovery_keeps_exactly_available:
  "filter_available_tools ttl now db c tid tools sk nk =
   (filter (\<lambda>t. is_tool_available (fst (get_tool_policy ttl now db c tid))
                  (text_field t sk) (text_field t nk)) tools,
    snd (get_tool_policy ttl now db c tid))"
  using filter_is_filter [of ttl now db c tid tools sk nk]
  by (simp add: prod_eq_iff filter_available_tools_def split_beta)

text \<open>A name with surrounding white space is the case the hypothesis of the kill switch
  excludes: the stored entry is stripped, the name it is compared with is not.\<close>
lemma padded_name_escapes_switch:
  "is_tool_available (normalize_policy
     (apply_update (tool_enabled_update (fq_tool ''crm'' ''find '') False 0 None)
        [(''tenant_id'', VStr ''acme'')])) ''crm'' ''find ''"
  by (simp add: tool_enabled_update_def apply_update_def policy_audit_def add_to_set_def vmem_def
      normalize_policy_def is_tool_available_def matches_allowlist_def clean_entries_def py_or_def
      fq_tool_def Let_def sorted_set_def strip_def lstrip_def rstrip_def is_space_def)

end
