(* ===== verification/PipPolicy.thy ===== *)
theory PipPolicy
  imports TenantStatus "HOL-Library.Multiset"
begin

text \<open>\<open>services/tenant_pip_policy.py\<close>: which third-party distributions a tenant's code tools
  may install, as the intersection of the operator's ceiling and the tenant's allowlist; the
  normal form of distribution names, the classification of a tool's requirements, and the
  cached storage of the tenant's list.\<close>

text \<open>\<open>s.split(sep, 1)[0]\<close>: the text before the first occurrence of a separator.\<close>
fun before_str :: "string \<Rightarrow> string \<Rightarrow> string" where
  "before_str p [] = []"
| "before_str p (x # xs) = (if startswith (x # xs) p then [] else x # before_str p xs)"

definition is_name_sep :: "char \<Rightarrow> bool" where
  "is_name_sep c = (c = CHR ''-'' \<or> c = CHR ''_'' \<or> c = CHR ''.'')"

text \<open>\<open>re.sub("[-_.]+", "-", s)\<close>; the flag says that the character before was a separator.\<close>
fun collapse_seps :: "bool \<Rightarrow> string \<Rightarrow> string" where
  "collapse_seps inrun [] = []"
| "collapse_seps inrun (c # cs) =
     (if is_name_sep c then (if inrun then collapse_seps True cs else CHR ''-'' # collapse_seps True cs)
      else c # collapse_seps False cs)"

definition normalize_requirement_name :: "string \<Rightarrow> string" where
  "normalize_requirement_name spec =
     (let base = strip (before_str ''['' (before_str ''=='' spec))
      in if base = [] then [] else lower (collapse_seps False base))"

definition split_tokens :: "string \<Rightarrow> string list" where
  "split_tokens raw = filter (\<lambda>t. strip t \<noteq> []) (words_by (\<lambda>c. c = CHR '','' \<or> is_space c) raw)"

definition global_ceiling_names :: "settings \<Rightarrow> string set" where
  "global_ceiling_names s =
     set (filter (\<lambda>n. n \<noteq> []) (map normalize_requirement_name (split_tokens (cfg_sandbox_allowed_requirements s))))"

definition is_distribution_char :: "char \<Rightarrow> bool" where
  "is_distribution_char c = (is_alnum c \<or> is_name_sep c)"

definition is_distribution_name :: "string \<Rightarrow> bool" where
  "is_distribution_name s = (case s of [] \<Rightarrow> False | c # cs \<Rightarrow> is_alnum c \<and> list_all is_distribution_char cs)"

text \<open>\<open>Inl t\<close> is the \<open>PipPolicyError\<close> of the first malformed entry.\<close>
fun validate_entries_loop :: "string list \<Rightarrow> string list \<Rightarrow> string + string list" where
  "validate_entries_loop names [] = Inr (sorted_set names)"
| "validate_entries_loop names (raw # rest) =
     (let token = strip raw
      in if token = [] then validate_entries_loop names rest
         else if \<not> is_distribution_name token then Inl token
         else validate_entries_loop (normalize_requirement_name token # names) rest)"

definition validate_allowlist_entries :: "pyval list \<Rightarrow> string + string list" where
  "validate_allowlist_entries entries = validate_entries_loop [] (map py_str entries)"

definition coerce_stored_allowlist :: "pyval \<Rightarrow> string list" where
  "coerce_stored_allowlist v =
     (case v of
        VList items \<Rightarrow> sorted_set (filter (\<lambda>n. n \<noteq> [])
          (map (\<lambda>i. case i of VStr s \<Rightarrow> normalize_requirement_name s | _ \<Rightarrow> []) items))
      | _ \<Rightarrow> [])"

definition tenant_names :: "string list \<Rightarrow> string set" where
  "tenant_names al = set (filter (\<lambda>n. n \<noteq> []) (map normalize_requirement_name al))"

definition effective_allowlist :: "settings \<Rightarrow> string list \<Rightarrow> string list" where
  "effective_allowlist s al =
     sorted_set (filter (\<lambda>n. n \<in> global_ceiling_names s)
       (filter (\<lambda>n. n \<noteq> []) (map normalize_requirement_name al)))"

record pip_decision =
  requested :: "string list"
  allowed :: "string list"
  blocked_by_global :: "string list"
  blocked_by_tenant :: "string list"

definition decision_ok :: "pip_decision \<Rightarrow> bool" where
  "decision_ok d = (blocked_by_global d = [] \<and> blocked_by_tenant d = [])"

definition decision_error_message :: "pip_decision \<Rightarrow> string" where
  "decision_error_message d =
     (let parts =
        (if blocked_by_global d \<noteq> []
         then [''not permitted by the platform pip ceiling (SANDBOX_ALLOWED_REQUIREMENTS): ''
               @ join '', '' (blocked_by_global d) @ '' (a platform operator must allow them)''] else [])
        @ (if blocked_by_tenant d \<noteq> []
         then [''not in this tenant's code-package policy: ''
               @ join '', '' (blocked_by_tenant d)
               @ '' (a tenant admin must add them to the tenant's allowed packages)''] else [])
      in ''Code-tool requirement(s) '' @ join ''; '' parts @ ''.'')"

fun collect_requested :: "string list \<Rightarrow> string list \<Rightarrow> string list" where
  "collect_requested acc [] = acc"
| "collect_requested acc (spec # rest) =
     (let name = normalize_requirement_name spec
      in if name = [] \<or> name \<in> set acc then collect_requested acc rest
         else collect_requested (acc @ [name]) rest)"

definition evaluate_requirements :: "settings \<Rightarrow> string list \<Rightarrow> string list \<Rightarrow> pip_decision" where
  "evaluate_requirements s reqs al =
     (let ceiling = global_ceiling_names s; tenant = tenant_names al; req = collect_requested [] reqs
      in \<lparr>requested = req,
          allowed = filter (\<lambda>n. n \<in> ceiling \<and> n \<in> tenant) req,
          blocked_by_global = filter (\<lambda>n. n \<notin> ceiling) req,
          blocked_by_tenant = filter (\<lambda>n. n \<in> ceiling \<and> n \<notin> tenant) req\<rparr>)"

definition pip_allowlist_of_doc :: "doc \<Rightarrow> string list" where
  "pip_allowlist_of_doc d = coerce_stored_allowlist (vget d ''code_requirements_allowlist'')"

definition get_tenant_pip_allowlist ::
  "real \<Rightarrow> real \<Rightarrow> docs \<Rightarrow> string list cache \<Rightarrow> string \<Rightarrow> string list \<times> string list cache" where
  "get_tenant_pip_allowlist ttl now db c tid =
     (case cache_hit c tid now of
        Some v \<Rightarrow> (v, c)
      | None \<Rightarrow> (let v = pip_allowlist_of_doc (doc_or_empty (find_tenant db tid))
                in (v, cache_store c tid v ttl now)))"

definition get_effective_pip_allowlist ::
  "settings \<Rightarrow> real \<Rightarrow> docs \<Rightarrow> string list cache \<Rightarrow> string \<Rightarrow> string list \<times> string list cache" where
  "get_effective_pip_allowlist s now db c tid =
     (case get_tenant_pip_allowlist (status_cache_ttl s) now db c tid of
        (al, c') \<Rightarrow> (effective_allowlist s al, c'))"

definition evaluate_tenant_requirements ::
  "settings \<Rightarrow> real \<Rightarrow> docs \<Rightarrow> string list cache \<Rightarrow> string \<Rightarrow> string list
   \<Rightarrow> pip_decision \<times> string list cache" where
  "evaluate_tenant_requirements s now db c tid reqs =
     (case get_tenant_pip_allowlist (status_cache_ttl s) now db c tid of
        (al, c') \<Rightarrow> (evaluate_requirements s reqs al, c'))"

definition pip_updates :: "string list \<Rightarrow> real \<Rightarrow> string option \<Rightarrow> doc" where
  "pip_updates normalized wall by' =
     [(''code_requirements_allowlist'', VList (map VStr normalized)),
      (''code_requirements_updated_at'', VTime wall),
      (''code_requirements_updated_by'', VStr (updated_by_or_admin by')),
      (''updated_at'', VTime wall)]"

definition set_tenant_pip_allowlist ::
  "real \<Rightarrow> real \<Rightarrow> real \<Rightarrow> docs \<Rightarrow> string list cache \<Rightarrow> string \<Rightarrow> pyval list \<Rightarrow> string option
   \<Rightarrow> string + (doc option \<times> docs \<times> string list cache)" where
  "set_tenant_pip_allowlist ttl wall now db c tid entries by' =
     (case validate_allowlist_entries entries of
        Inl bad \<Rightarrow> Inl bad
      | Inr normalized \<Rightarrow>
          (case update_tenant tid (set_fields (pip_updates normalized wall by')) db of
             (None, db') \<Rightarrow> Inr (None, db', c)
           | (Some d, db') \<Rightarrow> Inr (Some d, db', cache_write c tid normalized ttl now)))"

section \<open>The normal form of names\<close>

lemma before_str_prefix: "\<exists>t. s = before_str p s @ t"
  by (induction s) auto

lemma before_str_subset: "set (before_str p s) \<subseteq> set s"
  by (induction s) auto

lemma before_bracket [simp]: "CHR ''['' \<notin> set (before_str ''['' s)"
  by (induction s) (auto simp: startswith_def)

lemma before_bracket_id: "CHR ''['' \<notin> set s \<Longrightarrow> before_str ''['' s = s"
  by (induction s) (auto simp: startswith_def)

text \<open>No two adjacent equality signs.\<close>
fun no_pin :: "string \<Rightarrow> bool" where
  "no_pin (a # b # s) = (\<not> (a = CHR ''='' \<and> b = CHR ''='') \<and> no_pin (b # s))"
| "no_pin _ = True"

lemma before_pin_id: "no_pin s \<Longrightarrow> before_str ''=='' s = s"
  by (induction s rule: no_pin.induct) (auto simp: startswith_def)

lemma no_pin_before: "no_pin (before_str ''=='' s)"
proof (induction s)
  case (Cons a s)
  then show ?case by (cases s) (auto simp: startswith_def)
qed simp

lemma no_pin_tail: "no_pin (a # s) \<Longrightarrow> no_pin s"
  by (cases s) auto

lemma no_pin_drop: "no_pin (s @ t) \<Longrightarrow> no_pin t"
  by (induction s) (auto dest: no_pin_tail)

lemma no_pin_take: "no_pin (s @ t) \<Longrightarrow> no_pin s"
  by (induction s rule: no_pin.induct) auto

lemma strip_sandwich: "\<exists>u v. s = u @ strip s @ v"
proof -
  have "\<exists>v. t = rstrip t @ v" for t
    unfolding rstrip_def by (metis rev_append rev_rev_ident takeWhile_dropWhile_id)
  moreover have "\<exists>u. s = u @ lstrip s"
    unfolding lstrip_def by (metis takeWhile_dropWhile_id)
  ultimately show ?thesis unfolding strip_def by (metis append_assoc)
qed

lemma no_pin_strip: "no_pin s \<Longrightarrow> no_pin (strip s)"
  using strip_sandwich [of s] by (metis no_pin_drop no_pin_take)

lemma set_strip: "set (strip s) \<subseteq> set s"
  using strip_sandwich [of s] by (metis Un_iff set_append subsetI)

lemma no_pin_collapse: "no_pin s \<Longrightarrow> no_pin (collapse_seps b s)"
proof (induction s arbitrary: b)
  case (Cons a s)
  then have IH: "no_pin (collapse_seps b' s)" for b' by (blast dest: no_pin_tail)
  show ?case
  proof (cases "is_name_sep a")
    case True
    have "no_pin (CHR ''-'' # collapse_seps True s)"
      using IH [of True] by (cases "collapse_seps True s") simp_all
    then show ?thesis using True IH [of True] by simp
  next
    case False
    show ?thesis
    proof (cases s)
      case (Cons c s')
      then show ?thesis using IH [of False] False Cons.prems
        by (auto simp: is_name_sep_def)
    qed (simp add: False)
  qed
qed simp

lemma strip_fixed: "\<not> is_space (hd s) \<Longrightarrow> \<not> is_space (last s) \<Longrightarrow> strip s = s"
  by (cases s) (auto simp: strip_def lstrip_def intro: rstrip_id)

lemma strip_ends: "strip s \<noteq> [] \<Longrightarrow> \<not> is_space (hd (strip s)) \<and> \<not> is_space (last (strip s))"
  using strip_cases [of s] rstrip_last [of "lstrip s"] by (simp add: strip_def)

lemma collapse_idem [simp]: "collapse_seps b (collapse_seps b s) = collapse_seps b s"
  by (induction s arbitrary: b) (auto simp: is_name_sep_def)

lemma set_collapse: "set (collapse_seps b s) \<subseteq> insert CHR ''-'' (set s)"
  by (induction s arbitrary: b) auto

lemma hyphen_facts [simp]: "is_name_sep CHR ''-''" "\<not> is_space CHR ''-''"
  by (simp_all add: is_name_sep_def is_space_def)

lemma last_collapse:
  "s \<noteq> [] \<Longrightarrow> \<not> is_space (last s) \<Longrightarrow>
   collapse_seps b s = [] \<or> \<not> is_space (last (collapse_seps b s))"
proof (induction s arbitrary: b)
  case (Cons c s)
  show ?case
  proof (cases "s = []")
    case True
    then show ?thesis using Cons.prems by simp
  next
    case False
    with Cons have "\<And>b. collapse_seps b s = [] \<or> \<not> is_space (last (collapse_seps b s))" by simp
    moreover have "is_name_sep c \<or> collapse_seps False s \<noteq> []" using False by (cases s) auto
    ultimately show ?thesis by auto
  qed
qed simp

lemma collapse_nonempty: "s \<noteq> [] \<Longrightarrow> collapse_seps False s \<noteq> []"
  by (cases s) auto

lemma hd_collapse: "s \<noteq> [] \<Longrightarrow> \<not> is_space (hd s) \<Longrightarrow> \<not> is_space (hd (collapse_seps False s))"
  by (cases s) auto

lemma is_name_sep_lower [simp]: "is_name_sep (lower_char c) = is_name_sep c"
  by (simp add: is_name_sep_def lower_char_iff is_lower_def is_upper_def)

lemma collapse_lower: "collapse_seps b (lower s) = lower (collapse_seps b s)"
proof -
  have "lower_char CHR ''-'' = CHR ''-''" by (simp add: lower_char_iff is_lower_def is_upper_def)
  then show ?thesis by (induction s arbitrary: b) (auto simp: lower_def)
qed

lemma no_pin_lower: "no_pin (lower s) = no_pin s"
proof -
  have eq: "\<And>c. lower_char c = CHR ''='' \<longleftrightarrow> c = CHR ''=''"
    by (simp add: lower_char_iff is_lower_def is_upper_def)
  show ?thesis by (induction s rule: no_pin.induct) (simp_all add: lower_def eq)
qed

lemma bracket_lower: "CHR ''['' \<in> set (lower s) \<longleftrightarrow> CHR ''['' \<in> set s"
proof -
  have "\<not> is_lower CHR ''[''" "\<not> is_upper CHR ''[''" by (simp_all add: is_lower_def is_upper_def)
  then have eq: "(CHR ''['' = lower_char c) = (CHR ''['' = c)" for c
    using lower_char_iff [of "CHR ''[''" c] by (metis (no_types))
  show ?thesis unfolding lower_def set_map image_iff eq by blast
qed

lemma lower_hd_last: "s \<noteq> [] \<Longrightarrow> is_space (hd (lower s)) = is_space (hd s) \<and> is_space (last (lower s)) = is_space (last s)"
  by (simp add: lower_def hd_map last_map)

text \<open>Normalizing is idempotent, so a stored name matches itself in every layer.\<close>
lemma normalize_name_idem [simp]:
  "normalize_requirement_name (normalize_requirement_name spec) = normalize_requirement_name spec"
proof -
  define base where "base = strip (before_str ''['' (before_str ''=='' spec))"
  define n where "n = lower (collapse_seps False base)"
  have norm: "normalize_requirement_name spec = (if base = [] then [] else n)"
    by (simp add: normalize_requirement_name_def base_def n_def Let_def)
  show ?thesis
  proof (cases "base = []")
    case False
    have pin: "no_pin base" unfolding base_def
      by (rule no_pin_strip) (metis no_pin_before before_str_prefix no_pin_take)
    have br: "CHR ''['' \<notin> set base"
      unfolding base_def using set_strip before_bracket by blast
    have ends: "\<not> is_space (hd base)" "\<not> is_space (last base)"
      using strip_ends False by (auto simp: base_def)
    have "no_pin n" by (simp add: n_def no_pin_lower no_pin_collapse pin)
    moreover have "CHR ''['' \<notin> set n"
      using set_collapse [of False base] br by (auto simp: n_def bracket_lower)
    moreover have "strip n = n"
      using lower_hd_last [OF collapse_nonempty [OF False]] ends hd_collapse [OF False]
        last_collapse [OF False, of False] collapse_nonempty [OF False]
      by (intro strip_fixed) (auto simp: n_def)
    moreover have "lower (collapse_seps False n) = n"
      by (simp add: n_def collapse_lower)
    ultimately have "normalize_requirement_name n = n"
      by (auto simp: normalize_requirement_name_def before_pin_id before_bracket_id Let_def)
    then show ?thesis by (simp add: norm False)
  qed (simp add: norm, simp add: normalize_requirement_name_def)
qed

section \<open>The decision\<close>

lemma collect_requested_distinct: "distinct acc \<Longrightarrow> distinct (collect_requested acc reqs)"
  by (induction acc reqs rule: collect_requested.induct) (auto simp: Let_def)

lemma set_collect_requested:
  "set (collect_requested acc reqs) = set acc \<union> (normalize_requirement_name ` set reqs - {[]})"
  by (induction acc reqs rule: collect_requested.induct) (auto simp: Let_def)

lemma set_effective: "set (effective_allowlist s al) = tenant_names al \<inter> global_ceiling_names s"
  by (auto simp: effective_allowlist_def tenant_names_def)

lemma tenant_names_effective:
  "tenant_names (effective_allowlist s al) = tenant_names al \<inter> global_ceiling_names s"
proof -
  have "normalize_requirement_name x = x" if "x \<in> tenant_names al" for x
    using that by (auto simp: tenant_names_def)
  then have "normalize_requirement_name ` set (effective_allowlist s al) = set (effective_allowlist s al)"
    by (auto simp: set_effective image_iff)
  moreover have "[] \<notin> set (effective_allowlist s al)" by (simp add: set_effective tenant_names_def)
  ultimately show ?thesis by (auto simp: tenant_names_def set_effective)
qed

lemma decision_ok_iff:
  "decision_ok (evaluate_requirements s reqs al) \<longleftrightarrow>
   normalize_requirement_name ` set reqs - {[]} \<subseteq> set (effective_allowlist s al)"
  by (auto simp: decision_ok_def evaluate_requirements_def filter_empty_conv set_collect_requested
      set_effective Let_def)

text \<open>The classification is a partition of the requested names, in the order asked for and
  without duplicates, and a name is allowed exactly when both the operator's ceiling and the
  tenant's list contain it.\<close>
theorem requirements_partition:
  "(let d = evaluate_requirements s reqs al in
     distinct (requested d)
     \<and> set (requested d) = normalize_requirement_name ` set reqs - {[]}
     \<and> mset (allowed d) + mset (blocked_by_global d) + mset (blocked_by_tenant d) = mset (requested d)
     \<and> set (allowed d) = set (requested d) \<inter> set (effective_allowlist s al)
     \<and> (decision_ok d \<longleftrightarrow> allowed d = requested d))"
proof -
  have part: "mset (filter P xs) + mset (filter Q xs) + mset (filter R xs) = mset xs"
    if "\<And>x. (P x \<and> \<not> Q x \<and> \<not> R x) \<or> (\<not> P x \<and> Q x \<and> \<not> R x) \<or> (\<not> P x \<and> \<not> Q x \<and> R x)"
    for P Q R and xs :: "string list"
  proof (induction xs)
    case (Cons x xs)
    then show ?case using that [of x] by auto
  qed simp
  have ok: "filter P xs = xs \<longleftrightarrow> filter Q xs = [] \<and> filter R xs = []"
    if "\<And>x. P x = (\<not> Q x \<and> \<not> R x)" for P Q R and xs :: "string list"
    by (auto simp: filter_id_conv filter_empty_conv that)
  let ?C = "global_ceiling_names s" and ?T = "tenant_names al" and ?R = "collect_requested [] reqs"
  have "mset (filter (\<lambda>n. n \<in> ?C \<and> n \<in> ?T) ?R) + mset (filter (\<lambda>n. n \<notin> ?C) ?R)
        + mset (filter (\<lambda>n. n \<in> ?C \<and> n \<notin> ?T) ?R) = mset ?R"
    by (rule part) blast
  moreover have "(filter (\<lambda>n. n \<in> ?C \<and> n \<in> ?T) ?R = ?R) =
      (filter (\<lambda>n. n \<notin> ?C) ?R = [] \<and> filter (\<lambda>n. n \<in> ?C \<and> n \<notin> ?T) ?R = [])"
    by (rule ok) blast
  ultimately show ?thesis
    by (auto simp: evaluate_requirements_def Let_def collect_requested_distinct set_collect_requested
        set_effective decision_ok_def simp del: mset_filter)
qed

text \<open>One policy in every layer: the runtime, which is handed only the effective list, takes
  the same decision as the authoring checks, which see the tenant's own list.\<close>
theorem runtime_agrees_with_authoring:
  "allowed (evaluate_requirements s reqs (effective_allowlist s al)) = allowed (evaluate_requirements s reqs al)
   \<and> decision_ok (evaluate_requirements s reqs (effective_allowlist s al))
     = decision_ok (evaluate_requirements s reqs al)"
proof
  show "allowed (evaluate_requirements s reqs (effective_allowlist s al)) = allowed (evaluate_requirements s reqs al)"
    by (auto simp: evaluate_requirements_def Let_def tenant_names_effective intro: filter_cong)
  show "decision_ok (evaluate_requirements s reqs (effective_allowlist s al))
     = decision_ok (evaluate_requirements s reqs al)"
    by (auto simp: decision_ok_iff set_effective tenant_names_effective)
qed

section \<open>Stored lists, and the cache contract\<close>

lemma distribution_normal_nonempty:
  assumes "is_distribution_name t"
  shows "normalize_requirement_name t \<noteq> []"
proof -
  obtain c cs where t: "t = c # cs" using assms by (cases t) (auto simp: is_distribution_name_def)
  have ch: "\<forall>x\<in>set t. is_distribution_char x"
    using assms by (auto simp: t is_distribution_name_def list_all_iff is_distribution_char_def)
  have bad: "\<not> is_distribution_char CHR ''=''" "\<not> is_distribution_char CHR ''[''"
    "is_distribution_char x \<Longrightarrow> \<not> is_space x" for x
    by (auto simp: is_distribution_char_def is_alnum_def is_upper_def is_lower_def is_digit_def
        is_name_sep_def is_space_def)
  have eqs: "CHR ''='' \<notin> set t" "CHR ''['' \<notin> set t" using ch bad by auto
  have "no_pin u" if "CHR ''='' \<notin> set u" for u
    using that by (induction u rule: no_pin.induct) auto
  with eqs(1) have "before_str ''=='' t = t" by (simp add: before_pin_id)
  moreover have "before_str ''['' t = t" using eqs(2) by (rule before_bracket_id)
  moreover have "strip t = t" using ch bad(3) by (intro strip_nospace) blast
  ultimately have "normalize_requirement_name t = lower (collapse_seps False t)"
    using t by (simp add: normalize_requirement_name_def)
  then show ?thesis using collapse_nonempty [of t] t by (auto simp: lower_def)
qed

lemma validate_loop_normal:
  assumes "validate_entries_loop acc raws = Inr names"
    and "\<forall>n\<in>set acc. normalize_requirement_name n = n \<and> n \<noteq> []"
  shows "sorted names \<and> distinct names \<and> (\<forall>n\<in>set names. normalize_requirement_name n = n \<and> n \<noteq> [])"
  using assms
proof (induction acc raws rule: validate_entries_loop.induct)
  case (2 acc raw rest)
  then show ?case
    using distribution_normal_nonempty by (auto simp: Let_def split: if_splits)
qed auto

lemma stored_allowlist_round_trip:
  assumes "validate_allowlist_entries entries = Inr names"
  shows "coerce_stored_allowlist (VList (map VStr names)) = names"
proof -
  have n: "sorted names" "distinct names" "\<forall>n\<in>set names. normalize_requirement_name n = n \<and> n \<noteq> []"
    using validate_loop_normal [of "[]" "map py_str entries" names] assms
    by (auto simp: validate_allowlist_entries_def)
  then have "map normalize_requirement_name names = names" by (simp add: map_idI)
  then have "filter (\<lambda>n. n \<noteq> []) (map normalize_requirement_name names) = names"
    using n(3) by (simp add: filter_id_conv)
  then show ?thesis using n by (simp add: coerce_stored_allowlist_def o_def sorted_set_id)
qed

definition pip_fields :: "pyval list \<times> real \<times> string option \<Rightarrow> real \<Rightarrow> update_spec" where
  "pip_fields a now = (case a of (entries, wall, by') \<Rightarrow>
     (case validate_allowlist_entries entries of
        Inr names \<Rightarrow> set_fields (pip_updates names wall by') | Inl _ \<Rightarrow> set_fields []))"

definition pip_put :: "pyval list \<times> real \<times> string option \<Rightarrow> real \<Rightarrow> real \<Rightarrow> docs \<Rightarrow> string list cache
    \<Rightarrow> string \<Rightarrow> doc option \<times> docs \<times> string list cache" where
  "pip_put a ttl now db c k = (case a of (entries, wall, by') \<Rightarrow>
     (case set_tenant_pip_allowlist ttl wall now db c k entries by' of Inr r \<Rightarrow> r | Inl _ \<Rightarrow> (None, db, c)))"

interpretation pip: write_through_cache find_tenant update_tenant "untouched ''tenant_id''"
  pip_allowlist_of_doc get_tenant_pip_allowlist pip_put pip_fields
  "\<lambda>(entries, wall, by'). \<exists>names. validate_allowlist_entries entries = Inr names"
proof (unfold_locales, goal_cases)
  case (5 a db k d ttl now c)
  obtain entries wall by' where a: "a = (entries, wall, by')" by (cases a)
  with 5 obtain names where v: "validate_allowlist_entries entries = Inr names" by auto
  have "pip_allowlist_of_doc (dmerge d (pip_updates names wall by')) = names"
    by (simp add: pip_allowlist_of_doc_def pip_updates_def stored_allowlist_round_trip [OF v])
  then show ?case using 5(2)
    by (simp add: a v pip_put_def pip_fields_def set_tenant_pip_allowlist_def tenants.modify_case_found)
qed (auto simp: get_tenant_pip_allowlist_def pip_put_def pip_fields_def set_tenant_pip_allowlist_def
      Let_def untouched_def pip_updates_def tenants.modify_case_missing split: prod.splits)

text \<open>Fail closed: a tenant with no stored list (or a missing document) may install nothing,
  whatever the operator's ceiling permits, once its cache entry is not fresher than the document.\<close>
theorem unset_tenant_installs_nothing:
  assumes "cache_hit c tid now = None"
    and "vget (doc_or_empty (find_tenant db tid)) ''code_requirements_allowlist'' = VNone"
  shows "fst (get_effective_pip_allowlist s now db c tid) = []
         \<and> (decision_ok (fst (evaluate_tenant_requirements s now db c tid reqs)) \<longleftrightarrow>
            requested (fst (evaluate_tenant_requirements s now db c tid reqs)) = [])"
proof -
  have "fst (get_tenant_pip_allowlist (status_cache_ttl s) now db c tid) = []"
    by (simp add: pip.get_fresh [OF assms(1)] pip.stored_def pip_allowlist_of_doc_def assms(2)
        coerce_stored_allowlist_def)
  then show ?thesis
    by (auto simp: get_effective_pip_allowlist_def evaluate_tenant_requirements_def split_beta
        effective_allowlist_def decision_ok_def evaluate_requirements_def tenant_names_def
        filter_empty_conv Let_def)
qed

lemma unset_tenant_installs_nothing_witness:
  "fst (get_effective_pip_allowlist (default_settings\<lparr>cfg_sandbox_allowed_requirements := ''httpx,orjson''\<rparr>)
      0 demo_tenant Map.empty ''acme'') = []"
  using unset_tenant_installs_nothing [of Map.empty "''acme''" 0 demo_tenant]
  by (simp add: cache_hit_def demo_tenant_def find_tenant_def)

end
