(* ===== verification/IpAddr.thy ===== *)
theory IpAddr
  imports Prelude "HOL-Library.Word"
begin

text \<open>IP addresses and networks as machine words: the parts of Python's \<open>ipaddress\<close> module
  (and \<open>fnmatch\<close>) the egress policy uses.  An IPv4 address is a 32-bit word, an IPv6 address
  a 128-bit word; a network keeps its masked base and its prefix length.\<close>

datatype ip = V4 "32 word" | V6 "128 word"
datatype net = Net4 "32 word" nat | Net6 "128 word" nat

section \<open>Masks and membership\<close>

definition netmask :: "nat \<Rightarrow> 'a::len word" where
  "netmask n = push_bit (LENGTH('a) - n) (- 1)"

definition in_prefix :: "'a::len word \<Rightarrow> 'a word \<Rightarrow> nat \<Rightarrow> bool" where
  "in_prefix a base n = (and a (netmask n) = and base (netmask n))"

fun in_net :: "ip \<Rightarrow> net \<Rightarrow> bool" where
  "in_net (V4 a) (Net4 base n) = (and a (netmask n) = base)"
| "in_net (V6 a) (Net6 base n) = (and a (netmask n) = base)"
| "in_net _ _ = False"

text \<open>\<open>ip_network(addr/len, strict=False)\<close>.\<close>
definition net4 :: "32 word \<Rightarrow> nat \<Rightarrow> net" where
  "net4 a n = Net4 (and a (netmask n)) n"

definition net6 :: "128 word \<Rightarrow> nat \<Rightarrow> net" where
  "net6 a n = Net6 (and a (netmask n)) n"

definition quad :: "int \<Rightarrow> int \<Rightarrow> int \<Rightarrow> int \<Rightarrow> 32 word" where
  "quad a b c d = word_of_int (((a * 256 + b) * 256 + c) * 256 + d)"

text \<open>An IPv6 address from its leading hextets.\<close>
definition hextets :: "int list \<Rightarrow> 128 word" where
  "hextets hs = word_of_int (foldl (\<lambda>acc h. acc * 65536 + h) 0 (take 8 (hs @ replicate 8 0)))"

section \<open>Classification\<close>

definition private4 :: "(32 word \<times> nat) list" where
  "private4 = [(quad 0 0 0 0, 8), (quad 10 0 0 0, 8), (quad 127 0 0 0, 8), (quad 169 254 0 0, 16),
     (quad 172 16 0 0, 12), (quad 192 0 0 0, 24), (quad 192 0 0 170, 31), (quad 192 0 2 0, 24),
     (quad 192 168 0 0, 16), (quad 198 18 0 0, 15), (quad 198 51 100 0, 24), (quad 203 0 113 0, 24),
     (quad 240 0 0 0, 4), (quad 255 255 255 255, 32)]"

definition private4_exceptions :: "(32 word \<times> nat) list" where
  "private4_exceptions = [(quad 192 0 0 9, 32), (quad 192 0 0 10, 32)]"

definition private6 :: "(128 word \<times> nat) list" where
  "private6 = [(1, 128), (0, 128), (hextets [0, 0, 0, 0, 0, 0xffff], 96), (hextets [0x64, 0xff9b, 1], 48),
     (hextets [0x100], 64), (hextets [0x2001], 23), (hextets [0x2001, 0xdb8], 32), (hextets [0x2002], 16),
     (hextets [0xfc00], 7), (hextets [0xfe80], 10)]"

definition private6_exceptions :: "(128 word \<times> nat) list" where
  "private6_exceptions = [(hextets [0x2001, 1, 0, 0, 0, 0, 0, 1], 128), (hextets [0x2001, 1, 0, 0, 0, 0, 0, 2], 128),
     (hextets [0x2001, 3], 32), (hextets [0x2001, 4, 0x112], 48), (hextets [0x2001, 0x20], 28),
     (hextets [0x2001, 0x30], 28)]"

definition reserved6 :: "(128 word \<times> nat) list" where
  "reserved6 = [(hextets [0], 8), (hextets [0x100], 8), (hextets [0x200], 7), (hextets [0x400], 6),
     (hextets [0x800], 5), (hextets [0x1000], 4), (hextets [0x4000], 3), (hextets [0x6000], 3),
     (hextets [0x8000], 3), (hextets [0xa000], 3), (hextets [0xc000], 3), (hextets [0xe000], 4),
     (hextets [0xf000], 5), (hextets [0xf800], 6), (hextets [0xfe00], 9)]"

definition in_any :: "'a::len word \<Rightarrow> ('a word \<times> nat) list \<Rightarrow> bool" where
  "in_any a nets = list_ex (\<lambda>(b, n). in_prefix a b n) nets"

definition v4_private :: "32 word \<Rightarrow> bool" where
  "v4_private a = (in_any a private4 \<and> \<not> in_any a private4_exceptions)"

text \<open>\<open>IPv6Address.ipv4_mapped\<close>.\<close>
definition v4_mapped :: "128 word \<Rightarrow> 32 word option" where
  "v4_mapped a = (if drop_bit 32 a = 0xffff then Some (ucast a) else None)"

fun is_loopback :: "ip \<Rightarrow> bool" where
  "is_loopback (V4 a) = in_prefix a (quad 127 0 0 0) 8"
| "is_loopback (V6 a) = (a = 1)"

fun is_link_local :: "ip \<Rightarrow> bool" where
  "is_link_local (V4 a) = in_prefix a (quad 169 254 0 0) 16"
| "is_link_local (V6 a) = in_prefix a (hextets [0xfe80]) 10"

fun is_private :: "ip \<Rightarrow> bool" where
  "is_private (V4 a) = v4_private a"
| "is_private (V6 a) = (case v4_mapped a of Some b \<Rightarrow> v4_private b
     | None \<Rightarrow> in_any a private6 \<and> \<not> in_any a private6_exceptions)"

fun is_reserved :: "ip \<Rightarrow> bool" where
  "is_reserved (V4 a) = in_prefix a (quad 240 0 0 0) 4"
| "is_reserved (V6 a) = in_any a reserved6"

fun is_unspecified :: "ip \<Rightarrow> bool" where
  "is_unspecified (V4 a) = (a = 0)"
| "is_unspecified (V6 a) = (a = 0)"

section \<open>Parsing\<close>

definition parse_octet :: "string \<Rightarrow> int option" where
  "parse_octet s =
     (if s = [] \<or> \<not> list_all is_digit s \<or> length s > 3 \<or> (s \<noteq> ''0'' \<and> hd s = CHR ''0'') then None
      else (case parse_nat s of Some n \<Rightarrow> if n \<le> 255 then Some (int n) else None | None \<Rightarrow> None))"

definition parse_v4 :: "string \<Rightarrow> 32 word option" where
  "parse_v4 s =
     (case map parse_octet (split_on CHR ''.'' s) of
        [Some a, Some b, Some c, Some d] \<Rightarrow> Some (quad a b c d)
      | _ \<Rightarrow> None)"

definition hex_val :: "char \<Rightarrow> int option" where
  "hex_val c =
     (let n = (of_char c :: int)
      in if is_digit c then Some (n - 48)
         else if 97 \<le> n \<and> n \<le> 102 then Some (n - 87)
         else if 65 \<le> n \<and> n \<le> 70 then Some (n - 55)
         else None)"

fun parse_hex :: "int \<Rightarrow> string \<Rightarrow> int option" where
  "parse_hex acc [] = Some acc"
| "parse_hex acc (c # cs) = (case hex_val c of None \<Rightarrow> None | Some v \<Rightarrow> parse_hex (acc * 16 + v) cs)"

definition parse_hextet :: "string \<Rightarrow> int option" where
  "parse_hextet s = (if s = [] \<or> length s > 4 then None else parse_hex 0 s)"

fun all_some :: "'a option list \<Rightarrow> 'a list option" where
  "all_some [] = Some []"
| "all_some (None # xs) = None"
| "all_some (Some x # xs) = map_option (\<lambda>ys. x # ys) (all_some xs)"

text \<open>The two hextets an embedded IPv4 tail stands for, as numbers.\<close>
definition v6_parts :: "string \<Rightarrow> string list option \<times> int list" where
  "v6_parts s =
     (let parts = split_on CHR '':'' s; tail = last parts
      in if length parts < 3 then (None, [])
         else if CHR ''.'' \<in> set tail then
           (case parse_v4 tail of None \<Rightarrow> (None, [])
            | Some w \<Rightarrow> (Some (butlast parts), [uint w div 65536, uint w mod 65536]))
         else (Some parts, []))"

text \<open>The positions of the inner empty parts (the \<open>::\<close>), counting an embedded IPv4 tail as
  two non-empty parts at the end.\<close>
definition inner_gaps :: "string list \<Rightarrow> nat \<Rightarrow> nat list" where
  "inner_gaps parts extra =
     filter (\<lambda>i. parts ! i = []) [1..<(if extra = 0 then length parts - 1 else length parts)]"

definition parse_v6_plain :: "string \<Rightarrow> 128 word option" where
  "parse_v6_plain s =
     (case v6_parts s of
        (None, _) \<Rightarrow> None
      | (Some parts, tl4) \<Rightarrow>
          (let total = length parts + length tl4
           in if total > 9 then None
              else (case inner_gaps parts (length tl4) of
                 [] \<Rightarrow> if total \<noteq> 8 then None
                       else map_option (\<lambda>hs. hextets (hs @ tl4)) (all_some (map parse_hextet parts))
               | [g] \<Rightarrow>
                   (let hi = take g parts; lo = drop (Suc g) parts;
                        hi' = (if hi = [[]] then [] else hi);
                        lo' = (if tl4 = [] \<and> lo = [[]] then [] else lo);
                        n = length hi' + length lo' + length tl4
                    in if n > 7 then None
                       else (case (all_some (map parse_hextet hi'), all_some (map parse_hextet lo')) of
                           (Some a, Some b) \<Rightarrow> Some (hextets (a @ replicate (8 - n) 0 @ b @ tl4))
                         | _ \<Rightarrow> None))
               | _ \<Rightarrow> None)))"

text \<open>An IPv6 address may carry a scope id after \<open>%\<close>.\<close>
definition parse_v6 :: "string \<Rightarrow> 128 word option" where
  "parse_v6 s =
     (case partition_at CHR ''%'' s of
        (a, found, scope) \<Rightarrow>
          if found \<and> (scope = [] \<or> CHR ''%'' \<in> set scope) then None else parse_v6_plain a)"

definition ip_address :: "string \<Rightarrow> ip option" where
  "ip_address s =
     (if CHR ''/'' \<in> set s then None
      else case parse_v4 s of Some w \<Rightarrow> Some (V4 w) | None \<Rightarrow> map_option V6 (parse_v6 s))"

definition prefix_digits :: "nat \<Rightarrow> string \<Rightarrow> nat option" where
  "prefix_digits w s =
     (if s \<noteq> [] \<and> list_all is_digit s
      then (case parse_nat s of Some n \<Rightarrow> if n \<le> w then Some n else None | None \<Rightarrow> None) else None)"

text \<open>An IPv4 prefix is a length, a netmask or a host mask.\<close>
definition prefix4 :: "string \<Rightarrow> nat option" where
  "prefix4 s =
     (case prefix_digits 32 s of Some n \<Rightarrow> Some n
      | None \<Rightarrow>
          (case parse_v4 s of None \<Rightarrow> None
           | Some w \<Rightarrow>
               (case List.find (\<lambda>n. netmask n = w) [0..<33] of
                  Some n \<Rightarrow> Some n
                | None \<Rightarrow> List.find (\<lambda>n. netmask n = not w) [0..<33])))"

definition ip_network :: "string \<Rightarrow> net option" where
  "ip_network s =
     (case split_on CHR ''/'' s of
        [a] \<Rightarrow> (case ip_address a of Some (V4 w) \<Rightarrow> Some (net4 w 32) | Some (V6 w) \<Rightarrow> Some (net6 w 128) | None \<Rightarrow> None)
      | [a, m] \<Rightarrow>
          (case (parse_v4 a, prefix4 m) of
             (Some w, Some n) \<Rightarrow> Some (net4 w n)
           | _ \<Rightarrow> (case (parse_v6 a, prefix_digits 128 m) of
                     (Some w, Some n) \<Rightarrow> Some (net6 w n) | _ \<Rightarrow> None))
      | _ \<Rightarrow> None)"

section \<open>Shell patterns\<close>

text \<open>The items of a bracket expression: single characters and ranges.\<close>
fun class_has :: "string \<Rightarrow> char \<Rightarrow> bool" where
  "class_has (a # d # b # cs) c =
     (if d = CHR ''-'' then (a \<le> c \<and> c \<le> b) \<or> class_has cs c else a = c \<or> class_has (d # b # cs) c)"
| "class_has [a, b] c = (a = c \<or> b = c)"
| "class_has [a] c = (a = c)"
| "class_has [] c = False"

text \<open>The body of a bracket expression and what follows it; None when it is not closed.  A
  closing bracket that comes first belongs to the body.\<close>
definition bracket_body :: "string \<Rightarrow> (bool \<times> string \<times> string) option" where
  "bracket_body p =
     (let neg = (case p of c # _ \<Rightarrow> c = CHR ''!'' | [] \<Rightarrow> False);
          q = (if neg then drop 1 p else p);
          first = (case q of c # _ \<Rightarrow> if c = CHR '']'' then [c] else [] | [] \<Rightarrow> []);
          r = drop (length first) q
      in if CHR '']'' \<in> set r
         then Some (neg, first @ takeWhile (\<lambda>c. c \<noteq> CHR '']'') r, drop 1 (dropWhile (\<lambda>c. c \<noteq> CHR '']'') r))
         else None)"

lemma after_char_shorter: "x \<in> set r \<Longrightarrow> length (drop 1 (dropWhile (\<lambda>c. c \<noteq> x) r)) < length r"
proof -
  assume "x \<in> set r"
  then have "dropWhile (\<lambda>c. c \<noteq> x) r \<noteq> []" by (auto simp: dropWhile_eq_Nil_conv)
  then show ?thesis
    using length_dropWhile_le [of "\<lambda>c. c \<noteq> x" r] by (cases "dropWhile (\<lambda>c. c \<noteq> x) r") auto
qed

lemma bracket_body_shorter:
  assumes "bracket_body p = Some (neg, body, rest)"
  shows "length rest < length p"
proof -
  define neg' where "neg' = (case p of c # _ \<Rightarrow> c = CHR ''!'' | [] \<Rightarrow> False)"
  define q where "q = (if neg' then drop 1 p else p)"
  define first where "first = (case q of c # _ \<Rightarrow> if c = CHR '']'' then [c] else [] | [] \<Rightarrow> [])"
  define r where "r = drop (length first) q"
  have br: "CHR '']'' \<in> set r" "rest = drop 1 (dropWhile (\<lambda>c. c \<noteq> CHR '']'') r)"
    using assms unfolding bracket_body_def Let_def neg'_def [symmetric] q_def [symmetric]
      first_def [symmetric] r_def [symmetric]
    by (auto split: if_splits)
  have "length rest < length r" using after_char_shorter [OF br(1)] br(2) by simp
  also have "length r \<le> length p" by (simp add: r_def q_def)
  finally show ?thesis .
qed

function (sequential) fnmatch :: "string \<Rightarrow> string \<Rightarrow> bool" where
  "fnmatch s [] = (s = [])"
| "fnmatch [] (p # ps) = (p = CHR ''*'' \<and> fnmatch [] ps)"
| "fnmatch (c # s) (p # ps) =
     (if p = CHR ''*'' then fnmatch (c # s) ps \<or> fnmatch s (p # ps)
      else if p = CHR ''?'' then fnmatch s ps
      else if p = CHR ''['' then
        (case bracket_body ps of
           Some (neg, body, rest) \<Rightarrow> class_has body c \<noteq> neg \<and> fnmatch s rest
         | None \<Rightarrow> c = p \<and> fnmatch s ps)
      else c = p \<and> fnmatch s ps)"
  by pat_completeness auto
termination
  by (relation "measure (\<lambda>(s, p). length s + length p)")
     (auto dest: bracket_body_shorter)

section \<open>Facts\<close>

lemma in_net_net4: "in_net (V4 a) (net4 b n) = in_prefix a b n"
  by (simp add: net4_def in_prefix_def)

lemma in_net_net6: "in_net (V6 a) (net6 b n) = in_prefix a b n"
  by (simp add: net6_def in_prefix_def)

lemma in_prefix_self [simp]: "in_prefix a a n"
  by (simp add: in_prefix_def)

text \<open>Two addresses share a prefix exactly when their leading bits agree.\<close>
lemma in_prefix_drop:
  fixes a :: "'a::len word"
  assumes "n \<le> LENGTH('a)"
  shows "in_prefix a b n \<longleftrightarrow> drop_bit (LENGTH('a) - n) a = drop_bit (LENGTH('a) - n) b"
proof -
  have m: "and x (netmask n) = push_bit (LENGTH('a) - n) (drop_bit (LENGTH('a) - n) x)" for x :: "'a word"
    by (rule bit_word_eqI) (auto simp: netmask_def bit_simps)
  have d: "drop_bit (LENGTH('a) - n) (and x (netmask n)) = drop_bit (LENGTH('a) - n) x" for x :: "'a word"
    by (rule bit_word_eqI) (auto simp: netmask_def bit_simps dest: bit_imp_le_length)
  show ?thesis unfolding in_prefix_def using m d by metis
qed

lemma in_prefix_mono:
  fixes a :: "'a::len word"
  assumes "in_prefix a b n" "m \<le> n" "n \<le> LENGTH('a)"
  shows "in_prefix a b m"
proof -
  have D: "drop_bit (LENGTH('a) - m) x = drop_bit (n - m) (drop_bit (LENGTH('a) - n) x)" for x :: "'a word"
    using assms by (simp add: drop_bit_drop_bit)
  have "drop_bit (LENGTH('a) - n) a = drop_bit (LENGTH('a) - n) b"
    using assms in_prefix_drop by blast
  then have "drop_bit (LENGTH('a) - m) a = drop_bit (LENGTH('a) - m) b" by (simp only: D)
  then show ?thesis using assms in_prefix_drop [of m a b] by simp
qed

end
