(* ===== verification/Egress.thy ===== *)
theory Egress
  imports IpAddr TenantStatus
begin

text \<open>Outbound connections: the server guard (\<open>services/server_guard.py\<close>), the allowlist
  policy (\<open>services/egress_policy.py\<close>), the tenant's stored list with its cache
  (\<open>services/tenant_egress.py\<close>) and the connect-time gate that pins a validated address
  (\<open>services/egress_transport.py\<close>).  DNS (\<open>getaddrinfo\<close>) and the URL parser are parameters:
  \<open>dns host port\<close> is None when resolution fails, otherwise one entry per answer (None for an
  answer without an address); \<open>urlp\<close> gives the parts of a URL.\<close>

datatype egress_error =
    BadEntry string
  | NotHttp
  | NoHostname
  | BadPort
  | Unresolvable string
  | BadAddress string
  | DisallowedAddress string
  | NeedsTenantGrant string
  | DenyByDefault string
  | NotGlobal string
  | NotTenant string
  | NoPermittedAddress string
  | StdioRefused string

type_synonym dns = "string \<Rightarrow> int \<Rightarrow> string option list option"

record url_parts =
  url_scheme :: string
  url_hostname :: "string option"
  url_port :: "unit + int option"

section \<open>The denylist of addresses that are not publicly routable\<close>

definition cgnat_network :: net where
  "cgnat_network = net4 (quad 100 64 0 0) 10"

definition ip_is_disallowed :: "ip \<Rightarrow> bool" where
  "ip_is_disallowed a =
     (if is_loopback a \<or> is_link_local a \<or> is_private a \<or> is_reserved a \<or> is_unspecified a then True
      else if in_net a cgnat_network then True else False)"

section \<open>Allowlist entries\<close>

definition entry_tokens :: "string \<Rightarrow> string list" where
  "entry_tokens raw = split_ws (map (\<lambda>c. if c = CHR '','' then CHR '' '' else c) raw)"

definition clean_tokens :: "string list \<Rightarrow> string list" where
  "clean_tokens ts = dedup (filter (\<lambda>e. e \<noteq> []) (map (\<lambda>t. lower (strip t)) ts))"

text \<open>\<open>parse_allowlist\<close> of a text and of a collection of texts.\<close>
definition parse_allowlist_text :: "string \<Rightarrow> string list" where
  "parse_allowlist_text raw = clean_tokens (entry_tokens raw)"

definition parse_allowlist :: "string list \<Rightarrow> string list" where
  "parse_allowlist items = clean_tokens (concat (map entry_tokens items))"

definition host_chars :: string where
  "host_chars = ''abcdefghijklmnopqrstuvwxyz0123456789.-_''"

definition validate_entry :: "string \<Rightarrow> egress_error + string" where
  "validate_entry entry =
     (let normalized = lower (strip entry)
      in if normalized = [] then Inl (BadEntry entry)
         else if CHR ''/'' \<in> set normalized then
           (case ip_network normalized of None \<Rightarrow> Inl (BadEntry entry) | Some _ \<Rightarrow> Inr normalized)
         else if ip_address normalized \<noteq> None then Inr normalized
         else (let candidate = (if startswith normalized ''*.'' then drop 2 normalized else normalized)
               in if candidate = [] \<or> list_ex is_space candidate then Inl (BadEntry entry)
                  else if list_ex (\<lambda>c. c \<notin> set host_chars) candidate then Inl (BadEntry entry)
                  else Inr normalized))"

fun validate_entries_from :: "string list \<Rightarrow> string list \<Rightarrow> egress_error + string list" where
  "validate_entries_from out [] = Inr out"
| "validate_entries_from out (raw # rest) =
     (case validate_entry raw of
        Inl e \<Rightarrow> Inl e
      | Inr n \<Rightarrow> validate_entries_from (if n \<in> set out then out else out @ [n]) rest)"

definition validate_entries :: "string list \<Rightarrow> egress_error + string list" where
  "validate_entries entries = validate_entries_from [] entries"

section \<open>Rules\<close>

record parsed_list =
  host_patterns :: "string list"
  networks :: "net list"

definition parsed_empty :: "parsed_list \<Rightarrow> bool" where
  "parsed_empty l = (host_patterns l = [] \<and> networks l = [])"

definition pattern_matches :: "string \<Rightarrow> string \<Rightarrow> bool" where
  "pattern_matches host p =
     (if CHR ''*'' \<in> set p \<or> CHR ''?'' \<in> set p then fnmatch host p else host = p)"

definition parsed_matches :: "parsed_list \<Rightarrow> string \<Rightarrow> ip list \<Rightarrow> bool" where
  "parsed_matches l host ips =
     (list_ex (pattern_matches (lower host)) (host_patterns l)
      \<or> list_ex (\<lambda>a. list_ex (in_net a) (networks l)) ips)"

definition entry_network :: "string \<Rightarrow> net option" where
  "entry_network e =
     (if CHR ''/'' \<in> set e then ip_network e
      else case ip_address e of
          Some (V4 w) \<Rightarrow> Some (net4 w 32) | Some (V6 w) \<Rightarrow> Some (net6 w 128) | None \<Rightarrow> None)"

definition parse_list :: "string list \<Rightarrow> parsed_list" where
  "parse_list entries =
     (let es = filter (\<lambda>e. e \<noteq> []) (map (\<lambda>r. lower (strip r)) entries)
      in \<lparr>host_patterns = filter (\<lambda>e. entry_network e = None) es,
          networks = List.map_filter entry_network es\<rparr>)"

record egress_rules =
  rules_enabled :: bool
  default_deny :: bool
  global_rule :: parsed_list
  tenant_rule :: parsed_list
  require_tenant_allowlist :: bool

definition has_any_allowlist :: "egress_rules \<Rightarrow> bool" where
  "has_any_allowlist r = (\<not> parsed_empty (global_rule r) \<or> \<not> parsed_empty (tenant_rule r))"

definition is_active :: "egress_rules \<Rightarrow> bool" where
  "is_active r = (if \<not> rules_enabled r then False else default_deny r \<or> has_any_allowlist r)"

definition evaluate :: "egress_rules \<Rightarrow> string \<Rightarrow> ip list \<Rightarrow> egress_error + unit" where
  "evaluate r host ips =
     (if \<not> is_active r then Inr ()
      else if list_ex ip_is_disallowed ips then Inl (DisallowedAddress host)
      else if require_tenant_allowlist r \<and> parsed_empty (tenant_rule r) then Inl (NeedsTenantGrant host)
      else if \<not> has_any_allowlist r then Inl (DenyByDefault host)
      else if \<not> parsed_empty (global_rule r) \<and> \<not> parsed_matches (global_rule r) host ips then Inl (NotGlobal host)
      else if \<not> parsed_empty (tenant_rule r) \<and> \<not> parsed_matches (tenant_rule r) host ips then Inl (NotTenant host)
      else Inr ())"

text \<open>The global list is the settings' text unless the caller passes its own.\<close>
definition build_rules :: "settings \<Rightarrow> string list \<Rightarrow> string option \<Rightarrow> egress_rules" where
  "build_rules s tenant_al global_al =
     \<lparr>rules_enabled = cfg_egress_allowlist_enabled s,
      default_deny = cfg_egress_default_deny s,
      global_rule = parse_list (parse_allowlist_text
        (case global_al of None \<Rightarrow> cfg_egress_global_allowlist s | Some g \<Rightarrow> g)),
      tenant_rule = parse_list (parse_allowlist tenant_al),
      require_tenant_allowlist = False\<rparr>"

definition build_code_egress_rules :: "settings \<Rightarrow> string list \<Rightarrow> string option \<Rightarrow> egress_rules" where
  "build_code_egress_rules s tenant_al global_al =
     \<lparr>rules_enabled = True,
      default_deny = True,
      global_rule = parse_list (parse_allowlist_text
        (case global_al of None \<Rightarrow> cfg_egress_global_allowlist s | Some g \<Rightarrow> g)),
      tenant_rule = parse_list (parse_allowlist tenant_al),
      require_tenant_allowlist = True\<rparr>"

definition global_egress_ceiling :: "settings \<Rightarrow> string list" where
  "global_egress_ceiling s = sort (parse_allowlist_text (cfg_egress_global_allowlist s))"

definition effective_code_egress_hosts :: "string list \<Rightarrow> settings \<Rightarrow> string list" where
  "effective_code_egress_hosts tenant_al s =
     (let tenant = sorted_set (parse_allowlist tenant_al);
          ceiling = parse_allowlist_text (cfg_egress_global_allowlist s)
      in if ceiling = [] then tenant else filter (\<lambda>h. h \<in> set ceiling) tenant)"

section \<open>Resolution\<close>

fun resolve_answers :: "string list \<Rightarrow> string option list \<Rightarrow> egress_error + ip list" where
  "resolve_answers seen [] = Inr []"
| "resolve_answers seen (None # rest) = resolve_answers seen rest"
| "resolve_answers seen (Some a # rest) =
     (if a \<in> set seen then resolve_answers seen rest
      else (case ip_address a of
          None \<Rightarrow> Inl (BadAddress a)
        | Some i \<Rightarrow> (case resolve_answers (a # seen) rest of
                      Inl e \<Rightarrow> Inl e | Inr is \<Rightarrow> Inr (i # is))))"

definition resolve_host :: "dns \<Rightarrow> string \<Rightarrow> int \<Rightarrow> egress_error + ip list" where
  "resolve_host dns host port =
     (case dns host port of None \<Rightarrow> Inl (Unresolvable host) | Some infos \<Rightarrow> resolve_answers [] infos)"

definition endpoint_host_port :: "(string \<Rightarrow> url_parts) \<Rightarrow> string \<Rightarrow> egress_error + string \<times> int" where
  "endpoint_host_port urlp endpoint =
     (let u = urlp endpoint
      in if url_scheme u \<notin> {''http'', ''https''} then Inl NotHttp
         else case url_hostname u of
             None \<Rightarrow> Inl NoHostname
           | Some h \<Rightarrow> if h = [] then Inl NoHostname
               else (case url_port u of
                   Inl _ \<Rightarrow> Inl BadPort
                 | Inr p \<Rightarrow> Inr (h, case p of Some q \<Rightarrow> q
                                    | None \<Rightarrow> if url_scheme u = ''https'' then 443 else 80)))"

definition check_endpoint_allowed ::
  "(string \<Rightarrow> url_parts) \<Rightarrow> dns \<Rightarrow> settings \<Rightarrow> string list \<Rightarrow> string option \<Rightarrow> string \<Rightarrow> egress_error + unit" where
  "check_endpoint_allowed urlp dns s tenant_al global_al endpoint =
     (let r = build_rules s tenant_al global_al
      in if \<not> is_active r then Inr ()
         else case endpoint_host_port urlp endpoint of
             Inl e \<Rightarrow> Inl e
           | Inr (host, port) \<Rightarrow>
               (case resolve_host dns host port of Inl e \<Rightarrow> Inl e | Inr ips \<Rightarrow> evaluate r host ips))"

section \<open>The tenant's stored list\<close>

definition egress_cache_ttl :: "settings \<Rightarrow> real" where
  "egress_cache_ttl s = max 0 (of_int (cfg_egress_allowlist_cache_ttl_seconds s))"

definition coerce_entries :: "pyval \<Rightarrow> string list" where
  "coerce_entries v =
     (case v of
        VList items \<Rightarrow>
          List.map_filter (\<lambda>i. case i of VStr s \<Rightarrow> if strip s \<noteq> [] then Some s else None | _ \<Rightarrow> None) items
      | _ \<Rightarrow> [])"

definition egress_of_doc :: "doc \<Rightarrow> string list" where
  "egress_of_doc d = coerce_entries (vget d ''egress_allowlist'')"

definition get_tenant_egress_allowlist ::
  "real \<Rightarrow> real \<Rightarrow> docs \<Rightarrow> string list cache \<Rightarrow> string \<Rightarrow> string list \<times> string list cache" where
  "get_tenant_egress_allowlist ttl now db c tid =
     (case cache_hit c tid now of
        Some v \<Rightarrow> (v, c)
      | None \<Rightarrow> (let v = egress_of_doc (doc_or_empty (find_tenant db tid))
                in (v, cache_store c tid v ttl now)))"

definition egress_updates :: "string list \<Rightarrow> real \<Rightarrow> string option \<Rightarrow> doc" where
  "egress_updates normalized wall by' =
     [(''egress_allowlist'', VList (map VStr normalized)),
      (''egress_allowlist_updated_at'', VTime wall),
      (''egress_allowlist_updated_by'', VStr (updated_by_or_admin by')),
      (''updated_at'', VTime wall)]"

definition set_tenant_egress_allowlist ::
  "real \<Rightarrow> real \<Rightarrow> real \<Rightarrow> docs \<Rightarrow> string list cache \<Rightarrow> string \<Rightarrow> string list \<Rightarrow> string option
   \<Rightarrow> egress_error + (doc option \<times> docs \<times> string list cache)" where
  "set_tenant_egress_allowlist ttl wall now db c tid entries by' =
     (case validate_entries entries of
        Inl e \<Rightarrow> Inl e
      | Inr normalized \<Rightarrow>
          (case update_tenant tid (set_fields (egress_updates normalized wall by')) db of
             (None, db') \<Rightarrow> Inr (None, db', c)
           | (Some d, db') \<Rightarrow> Inr (Some d, db', cache_write c tid normalized ttl now)))"

section \<open>The connect-time gate\<close>

record http_request =
  req_scheme :: string
  req_host :: string
  req_port :: "int option"
  req_host_header :: "string option"

text \<open>How the request leaves the gateway: unchanged, or pinned to an address with the original
  host name kept in the header and the TLS server name.\<close>
datatype connection = Stock | Pinned ip string string

text \<open>Where the transport takes its rules from.\<close>
datatype rule_source =
    StaticRules egress_rules
  | NoSource bool
  | TenantRules settings string bool

text \<open>\<open>_NULL_SETTINGS\<close>: enforcement off, no global list, no caching.\<close>
definition null_settings :: settings where
  "null_settings = default_settings\<lparr>cfg_egress_allowlist_enabled := False,
     cfg_egress_default_deny := False, cfg_egress_global_allowlist := [],
     cfg_egress_allowlist_cache_ttl_seconds := 0\<rparr>"

definition resolve_rules ::
  "rule_source \<Rightarrow> real \<Rightarrow> docs \<Rightarrow> string list cache \<Rightarrow> egress_rules \<times> string list cache" where
  "resolve_rules src now db c =
     (case src of
        StaticRules r \<Rightarrow> (r, c)
      | NoSource code \<Rightarrow>
          (if code then build_code_egress_rules null_settings [] None else build_rules null_settings [] None, c)
      | TenantRules s tid code \<Rightarrow>
          (case get_tenant_egress_allowlist (egress_cache_ttl s) now db c tid of
             (al, c') \<Rightarrow>
               ((if code then build_code_egress_rules else build_rules) s al (Some (cfg_egress_global_allowlist s)),
                c')))"

definition default_port :: "http_request \<Rightarrow> int" where
  "default_port q = (if req_scheme q = ''https'' then 443 else 80)"

definition default_host_header :: "http_request \<Rightarrow> string" where
  "default_host_header q =
     (case req_port q of
        None \<Rightarrow> req_host q
      | Some p \<Rightarrow> if p = default_port q then req_host q else req_host q @ '':'' @ int_str p)"

fun select_pinned_ip :: "egress_rules \<Rightarrow> string \<Rightarrow> ip list \<Rightarrow> egress_error + ip" where
  "select_pinned_ip r host [] = Inl (NoPermittedAddress host)"
| "select_pinned_ip r host (a # rest) =
     (case evaluate r host [a] of Inr _ \<Rightarrow> Inr a | Inl _ \<Rightarrow> select_pinned_ip r host rest)"

definition connect :: "egress_rules \<Rightarrow> dns \<Rightarrow> http_request \<Rightarrow> egress_error + connection" where
  "connect r dns q =
     (if \<not> is_active r then Inr Stock
      else
        (let host = req_host q;
             port = (case req_port q of Some p \<Rightarrow> if p \<noteq> 0 then p else default_port q | None \<Rightarrow> default_port q)
         in case resolve_host dns host port of
              Inl e \<Rightarrow> Inl e
            | Inr ips \<Rightarrow>
                (case evaluate r host ips of
                   Inl e \<Rightarrow> Inl e
                 | Inr _ \<Rightarrow>
                     (case select_pinned_ip r host ips of
                        Inl e \<Rightarrow> Inl e
                      | Inr pinned \<Rightarrow>
                          Inr (Pinned pinned
                            (let h = (case req_host_header q of Some h \<Rightarrow> h | None \<Rightarrow> [])
                             in if h \<noteq> [] then h else default_host_header q)
                            host)))))"

definition handle_async_request ::
  "rule_source \<Rightarrow> dns \<Rightarrow> real \<Rightarrow> docs \<Rightarrow> string list cache \<Rightarrow> http_request
   \<Rightarrow> (egress_error + connection) \<times> string list cache" where
  "handle_async_request src dns now db c q =
     (case resolve_rules src now db c of (r, c') \<Rightarrow> (connect r dns q, c'))"

section \<open>The server guard\<close>

definition assign_origin :: "bool \<Rightarrow> string" where
  "assign_origin is_platform_admin = (if is_platform_admin then ''platform'' else ''tenant'')"

definition normalized_origin :: "pyval \<Rightarrow> string" where
  "normalized_origin v =
     (if v = VStr ''platform'' \<or> v = VStr ''tenant'' then py_str v else ''platform'')"

fun screen_answers :: "string list \<Rightarrow> string option list \<Rightarrow> egress_error + unit" where
  "screen_answers seen [] = Inr ()"
| "screen_answers seen (None # rest) = screen_answers seen rest"
| "screen_answers seen (Some a # rest) =
     (if a \<in> set seen then screen_answers seen rest
      else (case ip_address a of
          None \<Rightarrow> Inl (BadAddress a)
        | Some i \<Rightarrow> if ip_is_disallowed i then Inl (DisallowedAddress a) else screen_answers (a # seen) rest))"

definition validate_tenant_endpoint ::
  "(string \<Rightarrow> url_parts) \<Rightarrow> dns \<Rightarrow> string \<Rightarrow> egress_error + unit" where
  "validate_tenant_endpoint urlp dns endpoint =
     (case endpoint_host_port urlp endpoint of
        Inl e \<Rightarrow> Inl e
      | Inr (host, port) \<Rightarrow>
          (case dns host port of None \<Rightarrow> Inl (Unresolvable host) | Some infos \<Rightarrow> screen_answers [] infos))"

definition origin_of :: "doc \<Rightarrow> bool \<Rightarrow> string" where
  "origin_of d is_platform_admin =
     (let explicit = vget d ''origin''
      in if explicit = VStr ''platform'' \<or> explicit = VStr ''tenant'' then normalized_origin explicit
         else assign_origin is_platform_admin)"

definition enforce_server_policy ::
  "(string \<Rightarrow> url_parts) \<Rightarrow> dns \<Rightarrow> settings \<Rightarrow> bool \<Rightarrow> doc \<Rightarrow> egress_error + doc" where
  "enforce_server_policy urlp dns s is_platform_admin d =
     (if vget d ''origin'' = VStr ''platform'' \<and> \<not> is_platform_admin
      then Inl (StdioRefused ''Only platform-admin may manage platform-origin servers.'')
      else
        (let resolved = origin_of d is_platform_admin;
             transport = py_str (py_or (vget d ''transport'') (VStr []))
         in if resolved = ''tenant''
               \<and> (transport = ''stdio'' \<or> truthy (vget d ''command'') \<or> truthy (vget d ''cwd''))
            then Inl (StdioRefused ''Tenant servers may not use stdio transport or host commands.'')
            else
              (let checked =
                 (if resolved = ''tenant'' \<and> cfg_tenant_endpoint_ssrf_guard s
                     \<and> transport \<in> {''streamable_http'', ''sse''}
                  then (case vget d ''endpoint'' of
                          VStr e \<Rightarrow> if e \<noteq> [] then validate_tenant_endpoint urlp dns e else Inr ()
                        | _ \<Rightarrow> Inr ())
                  else Inr ())
               in case checked of Inl e \<Rightarrow> Inl e | Inr _ \<Rightarrow> Inr (dput ''origin'' (VStr resolved) d))))"

definition assert_mountable :: "doc \<Rightarrow> egress_error + unit" where
  "assert_mountable d =
     (if normalized_origin (vget d ''origin'') = ''tenant''
         \<and> py_str (py_or (vget d ''transport'') (VStr [])) = ''stdio''
      then Inl (StdioRefused ''Tenant-origin server cannot use stdio transport.'') else Inr ())"

section \<open>Addresses that may be reached\<close>

lemma allowed_ip_not_special:
  "\<not> ip_is_disallowed a \<Longrightarrow>
   \<not> is_loopback a \<and> \<not> is_link_local a \<and> \<not> is_private a \<and> \<not> is_reserved a \<and> \<not> is_unspecified a
   \<and> \<not> in_net a cgnat_network"
  by (auto simp: ip_is_disallowed_def split: if_splits)

text \<open>An IPv4-mapped IPv6 address is refused whatever it maps to: it lies in a reserved block.\<close>
lemma mapped_reserved:
  assumes "v4_mapped a = Some b"
  shows "ip_is_disallowed (V6 a)"
proof -
  have d: "drop_bit 32 a = 0xffff" using assms by (simp add: v4_mapped_def split: if_splits)
  have "drop_bit 120 a = drop_bit 88 (drop_bit 32 a)" by (simp add: drop_bit_drop_bit)
  also have "\<dots> = 0" unfolding d by simp
  finally have "drop_bit (LENGTH(128) - 8) a = drop_bit (LENGTH(128) - 8) (0 :: 128 word)" by simp
  then have "in_prefix a 0 8" by (subst in_prefix_drop) simp_all
  moreover have "hextets [0] = 0" by (simp add: hextets_def numeral_eq_Suc)
  ultimately have "in_any a reserved6" by (simp add: in_any_def reserved6_def)
  then show ?thesis by (simp add: ip_is_disallowed_def)
qed

lemma private_blocks:
  assumes "(base, n) \<in> set private4" and "in_prefix a base n" and "\<not> in_any a private4_exceptions"
  shows "ip_is_disallowed (V4 a)"
  using assms by (auto simp: ip_is_disallowed_def v4_private_def in_any_def list_ex_iff)

lemma evaluate_allows_only:
  assumes "is_active r" "evaluate r host ips = Inr ()"
  shows "\<forall>a\<in>set ips. \<not> ip_is_disallowed a"
    and "parsed_empty (global_rule r) \<or> parsed_matches (global_rule r) host ips"
    and "parsed_empty (tenant_rule r) \<or> parsed_matches (tenant_rule r) host ips"
    and "has_any_allowlist r"
    and "require_tenant_allowlist r \<Longrightarrow> \<not> parsed_empty (tenant_rule r)"
  using assms by (auto simp: evaluate_def list_ex_iff split: if_splits)

lemma select_pinned_sound:
  "select_pinned_ip r host ips = Inr a \<Longrightarrow> a \<in> set ips \<and> evaluate r host [a] = Inr ()"
  by (induction r host ips rule: select_pinned_ip.induct) (auto split: sum.splits)

lemma resolve_answers_sound:
  "resolve_answers seen infos = Inr is \<Longrightarrow> \<forall>a\<in>set is. \<exists>t. Some t \<in> set infos \<and> ip_address t = Some a"
  by (induction seen infos arbitrary: "is" rule: resolve_answers.induct)
     (fastforce split: if_splits option.splits sum.splits)+

lemma connect_cases:
  assumes "connect r dns q = Inr k" "is_active r"
  obtains a infos hdr port where "k = Pinned a hdr (req_host q)" "dns (req_host q) port = Some infos"
    "\<exists>t. Some t \<in> set infos \<and> ip_address t = Some a" "evaluate r (req_host q) [a] = Inr ()"
proof -
  obtain port ips a hdr where *: "resolve_host dns (req_host q) port = Inr ips"
    "select_pinned_ip r (req_host q) ips = Inr a" "k = Pinned a hdr (req_host q)"
    using assms by (auto simp: connect_def Let_def split: sum.splits)
  then obtain infos where i: "dns (req_host q) port = Some infos" "resolve_answers [] infos = Inr ips"
    by (auto simp: resolve_host_def split: option.splits)
  with * select_pinned_sound [OF *(2)] resolve_answers_sound [OF i(2)] that show ?thesis by blast
qed

section \<open>The stored list meets the cache contract\<close>

lemma validate_entry_normal:
  assumes "validate_entry e = Inr n"
  shows "n = lower (strip e) \<and> strip n \<noteq> []"
proof -
  have "n = lower (strip e)" "strip e \<noteq> []"
    using assms by (auto simp: validate_entry_def Let_def split: if_splits option.splits)
  then show ?thesis by (simp add: strip_lower)
qed

lemma validate_entries_normal:
  "validate_entries_from out es = Inr ns \<Longrightarrow> \<forall>n\<in>set out. strip n \<noteq> [] \<Longrightarrow> \<forall>n\<in>set ns. strip n \<noteq> []"
proof (induction out es rule: validate_entries_from.induct)
  case (2 out raw rest)
  obtain n where n: "validate_entry raw = Inr n" "validate_entries_from (if n \<in> set out then out else out @ [n]) rest = Inr ns"
    using 2(2) by (auto split: sum.splits)
  have "\<forall>m\<in>set (if n \<in> set out then out else out @ [n]). strip m \<noteq> []"
    using 2(3) conjunct2 [OF validate_entry_normal [OF n(1)]] by auto
  from 2(1) [OF n this] show ?case .
qed simp

lemma coerce_stored:
  "\<forall>n\<in>set ns. strip n \<noteq> [] \<Longrightarrow> coerce_entries (VList (map VStr ns)) = ns"
  by (induction ns) (auto simp: coerce_entries_def map_filter_simps)

definition egress_fields :: "string list \<times> real \<times> string option \<Rightarrow> real \<Rightarrow> update_spec" where
  "egress_fields a now = (case a of (entries, wall, by') \<Rightarrow>
     (case validate_entries entries of
        Inr ns \<Rightarrow> set_fields (egress_updates ns wall by') | Inl _ \<Rightarrow> set_fields []))"

definition egress_put :: "string list \<times> real \<times> string option \<Rightarrow> real \<Rightarrow> real \<Rightarrow> docs \<Rightarrow> string list cache
    \<Rightarrow> string \<Rightarrow> doc option \<times> docs \<times> string list cache" where
  "egress_put a ttl now db c k = (case a of (entries, wall, by') \<Rightarrow>
     (case set_tenant_egress_allowlist ttl wall now db c k entries by' of Inr r \<Rightarrow> r | Inl _ \<Rightarrow> (None, db, c)))"

interpretation egress: write_through_cache find_tenant update_tenant "untouched ''tenant_id''"
  egress_of_doc get_tenant_egress_allowlist egress_put egress_fields
  "\<lambda>(entries, wall, by'). \<exists>ns. validate_entries entries = Inr ns"
proof (unfold_locales, goal_cases)
  case (5 a db k d ttl now c)
  obtain entries wall by' where a: "a = (entries, wall, by')" by (cases a)
  with 5 obtain ns where v: "validate_entries entries = Inr ns" by auto
  then have "\<forall>n\<in>set ns. strip n \<noteq> []" using validate_entries_normal by (auto simp: validate_entries_def)
  then have "egress_of_doc (dmerge d (egress_updates ns wall by')) = ns"
    by (simp add: egress_of_doc_def egress_updates_def coerce_stored)
  then show ?case using 5(2)
    by (simp add: a v egress_put_def egress_fields_def set_tenant_egress_allowlist_def tenants.modify_case_found)
qed (auto simp: get_tenant_egress_allowlist_def egress_put_def egress_fields_def set_tenant_egress_allowlist_def
      Let_def untouched_def egress_updates_def tenants.modify_case_missing split: prod.splits)

section \<open>Properties\<close>

text \<open>C1. No rebinding: under active rules a request leaves only pinned to an address that the
  lookup of this very request returned, that is publicly routable, and that by itself
  satisfies the global list (when there is one) and the tenant's list (when there is one).\<close>
theorem connection_is_pinned_and_permitted:
  assumes "connect r dns q = Inr k" and "is_active r"
  shows "\<exists>a hdr infos port t. k = Pinned a hdr (req_host q)
     \<and> dns (req_host q) port = Some infos \<and> Some t \<in> set infos \<and> ip_address t = Some a
     \<and> \<not> ip_is_disallowed a \<and> has_any_allowlist r
     \<and> (parsed_empty (global_rule r) \<or> parsed_matches (global_rule r) (req_host q) [a])
     \<and> (parsed_empty (tenant_rule r) \<or> parsed_matches (tenant_rule r) (req_host q) [a])"
proof -
  obtain a infos hdr port where *: "k = Pinned a hdr (req_host q)" "dns (req_host q) port = Some infos"
    "\<exists>t. Some t \<in> set infos \<and> ip_address t = Some a" "evaluate r (req_host q) [a] = Inr ()"
    using connect_cases [OF assms] by metis
  from evaluate_allows_only [OF assms(2) *(4)] * show ?thesis by auto
qed

text \<open>C6. Code tools are deny-by-default whatever the deployment's egress settings: a request of
  the sandbox bridge leaves only when the tenant's own list is not empty and admits the pinned
  address, inside the global ceiling when there is one, and never to a special address.\<close>
theorem code_egress_fails_closed:
  assumes "handle_async_request (TenantRules s tid True) dns now db c q = (Inr k, c')"
  defines "al \<equiv> fst (get_tenant_egress_allowlist (egress_cache_ttl s) now db c tid)"
  shows "\<exists>a hdr. k = Pinned a hdr (req_host q) \<and> \<not> ip_is_disallowed a
     \<and> parsed_matches (parse_list (parse_allowlist al)) (req_host q) [a]
     \<and> (parsed_empty (parse_list (parse_allowlist_text (cfg_egress_global_allowlist s)))
        \<or> parsed_matches (parse_list (parse_allowlist_text (cfg_egress_global_allowlist s))) (req_host q) [a])"
proof -
  let ?r = "build_code_egress_rules s al (Some (cfg_egress_global_allowlist s))"
  have c: "connect ?r dns q = Inr k"
    using assms(1) by (auto simp: handle_async_request_def resolve_rules_def al_def split: prod.splits)
  have act: "is_active ?r" by (simp add: is_active_def build_code_egress_rules_def)
  obtain a hdr where *: "k = Pinned a hdr (req_host q)" "evaluate ?r (req_host q) [a] = Inr ()"
    using connect_cases [OF c act] by metis
  have "\<not> parsed_empty (tenant_rule ?r)"
    by (rule evaluate_allows_only(5) [OF act *(2)]) (simp add: build_code_egress_rules_def)
  with evaluate_allows_only(1-3) [OF act *(2)] *(1) show ?thesis
    by (auto simp: build_code_egress_rules_def)
qed

text \<open>What a tenant may register: a server document that passes the guard for a caller who
  is not platform admin has tenant origin, names no host command and no stdio transport, will
  be accepted at mount time, and (with the guard on) every address its endpoint resolved to
  is publicly routable.\<close>
theorem tenant_server_guard:
  assumes "enforce_server_policy urlp dns s False d = Inr d'"
  shows "vget d' ''origin'' = VStr ''tenant'' \<and> \<not> truthy (vget d' ''command'') \<and> \<not> truthy (vget d' ''cwd'')
     \<and> assert_mountable d' = Inr ()
     \<and> (cfg_tenant_endpoint_ssrf_guard s \<and> py_str (py_or (vget d' ''transport'') (VStr [])) \<in> {''streamable_http'', ''sse''}
         \<and> vget d' ''endpoint'' = VStr e \<and> e \<noteq> []
        \<longrightarrow> (\<exists>host port infos. endpoint_host_port urlp e = Inr (host, port) \<and> dns host port = Some infos
             \<and> (\<forall>t a. Some t \<in> set infos \<and> ip_address t = Some a \<longrightarrow> \<not> ip_is_disallowed a)))"
proof -
  have screened: "\<lbrakk>screen_answers seen infos = Inr (); Some t \<in> set infos; t \<notin> set seen; ip_address t = Some a\<rbrakk>
      \<Longrightarrow> \<not> ip_is_disallowed a" for seen infos t a
  proof (induction seen infos rule: screen_answers.induct)
    case (3 seen u rest)
    then show ?case by (cases "t = u") (auto split: if_splits option.splits)
  qed auto
  have org: "origin_of d False = ''tenant''" and
    d': "d' = dput ''origin'' (VStr ''tenant'') d"
    using assms by (auto simp: enforce_server_policy_def origin_of_def assign_origin_def
        normalized_origin_def Let_def split: if_splits sum.splits)
  have vt: "validate_tenant_endpoint urlp dns e = Inr ()"
    if "cfg_tenant_endpoint_ssrf_guard s" "py_str (py_or (vget d ''transport'') (VStr [])) \<in> {''streamable_http'', ''sse''}"
      "vget d ''endpoint'' = VStr e" "e \<noteq> []"
    using assms that by (auto simp: enforce_server_policy_def org Let_def split: if_splits sum.splits)
  have "\<exists>host port infos. endpoint_host_port urlp e = Inr (host, port) \<and> dns host port = Some infos
             \<and> (\<forall>t a. Some t \<in> set infos \<and> ip_address t = Some a \<longrightarrow> \<not> ip_is_disallowed a)"
    if "validate_tenant_endpoint urlp dns e = Inr ()"
    using that screened [of "[]"]
    by (auto simp: validate_tenant_endpoint_def split: sum.splits option.splits prod.splits)
  then show ?thesis
    using assms org vt by (auto simp: d' enforce_server_policy_def assert_mountable_def normalized_origin_def
        Let_def split: if_splits)
qed

text \<open>Private, loopback and link-local IPv4 addresses cannot be smuggled in IPv6 notation:
  every IPv4-mapped IPv6 address is on the denylist.\<close>
theorem ipv4_mapped_never_reachable:
  assumes "v4_mapped a = Some b" and "is_active r"
  shows "evaluate r host [V6 a] \<noteq> Inr ()"
  using evaluate_allows_only(1) [OF assms(2), of host "[V6 a]"] mapped_reserved [OF assms(1)] by auto

section \<open>Concrete runs\<close>

definition demo_dns :: dns where
  "demo_dns host port =
     (if host = ''api.vendor.com'' then Some [Some ''10.0.0.7'', Some ''93.184.216.34'']
      else if host = ''www.vendor.com'' then Some [None, Some ''93.184.216.34'', Some ''93.184.216.34'']
      else None)"

definition demo_request :: http_request where
  "demo_request = \<lparr>req_scheme = ''https'', req_host = ''www.vendor.com'', req_port = None, req_host_header = None\<rparr>"

definition demo_rules :: egress_rules where
  "demo_rules = \<lparr>rules_enabled = True, default_deny = False,
     global_rule = parse_list (parse_allowlist_text ''*.vendor.com, 93.184.216.0/24''),
     tenant_rule = parse_list (parse_allowlist [''www.vendor.com'']), require_tenant_allowlist = False\<rparr>"

lemma demo_connect:
  "connect demo_rules demo_dns demo_request
   = Inr (Pinned (V4 (quad 93 184 216 34)) ''www.vendor.com'' ''www.vendor.com'')"
  by code_simp

lemma demo_active: "is_active demo_rules"
  by code_simp

text \<open>One private answer among the resolved addresses refuses the connection.\<close>
lemma demo_rebinding_refused:
  "connect demo_rules demo_dns (demo_request\<lparr>req_host := ''api.vendor.com''\<rparr>)
   = Inl (DisallowedAddress ''api.vendor.com'')"
  by code_simp

lemma connection_is_pinned_and_permitted_witness:
  "\<exists>a hdr. Pinned (V4 (quad 93 184 216 34)) ''www.vendor.com'' ''www.vendor.com'' = Pinned a hdr ''www.vendor.com''
     \<and> \<not> ip_is_disallowed a \<and> parsed_matches (tenant_rule demo_rules) ''www.vendor.com'' [a]"
proof -
  have "req_host demo_request = ''www.vendor.com''" by (simp add: demo_request_def)
  moreover have "\<not> parsed_empty (tenant_rule demo_rules)" by code_simp
  ultimately show ?thesis
    using connection_is_pinned_and_permitted [OF demo_connect demo_active] by auto
qed

lemma demo_code_connect:
  "handle_async_request
     (TenantRules default_settings ''acme'' True) demo_dns 0
     [[(''tenant_id'', VStr ''acme''), (''egress_allowlist'', VList [VStr ''www.vendor.com''])]] Map.empty demo_request
   = (Inr (Pinned (V4 (quad 93 184 216 34)) ''www.vendor.com'' ''www.vendor.com''),
      [''acme'' \<mapsto> ([''www.vendor.com''], 5)])"
proof -
  have ttl: "egress_cache_ttl default_settings = 5"
    by (simp add: egress_cache_ttl_def default_settings_def)
  have g: "get_tenant_egress_allowlist 5 0
      [[(''tenant_id'', VStr ''acme''), (''egress_allowlist'', VList [VStr ''www.vendor.com''])]] Map.empty ''acme''
      = ([''www.vendor.com''], [''acme'' \<mapsto> ([''www.vendor.com''], 5)])"
    by (simp add: get_tenant_egress_allowlist_def cache_hit_def find_tenant_def egress_of_doc_def
        coerce_entries_def map_filter_simps strip_def lstrip_def rstrip_def is_space_def cache_store_def Let_def)
  have r: "build_code_egress_rules default_settings [''www.vendor.com''] (Some [])
     = \<lparr>rules_enabled = True, default_deny = True, global_rule = \<lparr>host_patterns = [], networks = []\<rparr>,
        tenant_rule = \<lparr>host_patterns = [''www.vendor.com''], networks = []\<rparr>, require_tenant_allowlist = True\<rparr>"
    by code_simp
  have c: "connect \<lparr>rules_enabled = True, default_deny = True, global_rule = \<lparr>host_patterns = [], networks = []\<rparr>,
        tenant_rule = \<lparr>host_patterns = [''www.vendor.com''], networks = []\<rparr>, require_tenant_allowlist = True\<rparr>
      demo_dns demo_request = Inr (Pinned (V4 (quad 93 184 216 34)) ''www.vendor.com'' ''www.vendor.com'')"
    by code_simp
  have "cfg_egress_global_allowlist default_settings = []" by (simp add: default_settings_def)
  then show ?thesis by (simp add: handle_async_request_def resolve_rules_def ttl g r c)
qed

lemma code_egress_fails_closed_witness:
  "\<exists>a hdr. Pinned (V4 (quad 93 184 216 34)) ''www.vendor.com'' ''www.vendor.com'' = Pinned a hdr ''www.vendor.com''
     \<and> \<not> ip_is_disallowed a"
proof -
  have "req_host demo_request = ''www.vendor.com''" by (simp add: demo_request_def)
  then show ?thesis using code_egress_fails_closed [OF demo_code_connect] by auto
qed

definition demo_urlp :: "string \<Rightarrow> url_parts" where
  "demo_urlp e = \<lparr>url_scheme = ''https'', url_hostname = Some ''www.vendor.com'', url_port = Inr None\<rparr>"

definition demo_server :: doc where
  "demo_server = [(''server'', VStr ''crm''), (''transport'', VStr ''streamable_http''),
     (''endpoint'', VStr ''https://www.vendor.com/mcp'')]"

lemma tenant_server_guard_witness:
  "\<exists>d'. enforce_server_policy demo_urlp demo_dns default_settings False demo_server = Inr d'
     \<and> vget d' ''origin'' = VStr ''tenant'' \<and> assert_mountable d' = Inr ()"
proof -
  have v: "validate_tenant_endpoint demo_urlp demo_dns ''https://www.vendor.com/mcp'' = Inr ()"
    by code_simp
  have "enforce_server_policy demo_urlp demo_dns default_settings False demo_server
        = Inr (dput ''origin'' (VStr ''tenant'') demo_server)"
    by (simp add: enforce_server_policy_def origin_of_def assign_origin_def demo_server_def v py_or_def Let_def)
  from tenant_server_guard [OF this, of "[]"] this show ?thesis by blast
qed

lemma ipv4_mapped_never_reachable_witness:
  "evaluate demo_rules ''www.vendor.com'' [V6 0xffffa9fea9fe] \<noteq> Inr ()"
proof -
  have "v4_mapped 0xffffa9fea9fe = Some (quad 169 254 169 254)" by code_simp
  from ipv4_mapped_never_reachable [OF this demo_active] show ?thesis .
qed

end
