(* ===== verification/Authorization.thy ===== *)
theory Authorization
  imports ToolPolicy
begin

text \<open>\<open>services/authorization.py\<close>: the decision every \<open>tools/call\<close> passes: does the tool exist,
  is it in service, and do the caller's roles, the tenant's allowlist and the caller's scopes
  admit it.  \<open>catalog\<close> gives a tenant's \<open>tool_catalog\<close> collection; \<open>db\<close> is the \<open>tenants\<close>
  control collection the tool policy is read from.\<close>

definition INVOKE_ROLE :: string where "INVOKE_ROLE = ''tool:invoke''"

datatype auth_reason = ToolNotFound | ToolDisabled | AdminOverride | InvokeNotPermitted
  | ToolNotAllowlisted | ServerScopeRequired | NoScopeRequired | MissingScope | ScopeMatch | ScopeMismatch

record authorization_result =
  auth_allowed :: bool
  auth_reason_code :: auth_reason
  auth_tool :: "doc option"

definition verdict :: "bool \<Rightarrow> auth_reason \<Rightarrow> doc option \<Rightarrow> authorization_result" where
  "verdict a r t = \<lparr>auth_allowed = a, auth_reason_code = r, auth_tool = t\<rparr>"

definition resolve_tenant :: "settings \<Rightarrow> string option \<Rightarrow> string" where
  "resolve_tenant s tid = (case tid of Some t \<Rightarrow> if t = [] then cfg_default_tenant_id s else t
     | None \<Rightarrow> cfg_default_tenant_id s)"

definition tool_query :: "string \<Rightarrow> string \<Rightarrow> query" where
  "tool_query server name = [(''server'', CEq (VStr server)), (''name'', CEq (VStr name))]"

definition get_tool :: "settings \<Rightarrow> (string \<Rightarrow> docs) \<Rightarrow> string option \<Rightarrow> string \<Rightarrow> string \<Rightarrow> doc option" where
  "get_tool s catalog tid server name = find_one (tool_query server name) (catalog (resolve_tenant s tid))"

text \<open>The strings of a scope list.\<close>
definition scope_texts :: "pyval list \<Rightarrow> string list" where
  "scope_texts vs = List.map_filter (\<lambda>v. case v of VStr s \<Rightarrow> Some s | _ \<Rightarrow> None) vs"

definition required_scopes :: "doc \<Rightarrow> string list" where
  "required_scopes tool = scope_texts (iter_values (vget_or tool ''scopes'' (VList [])))"

definition authorize_tool_call ::
  "settings \<Rightarrow> real \<Rightarrow> (string \<Rightarrow> docs) \<Rightarrow> docs \<Rightarrow> tool_policy cache \<Rightarrow> string option \<Rightarrow> string \<Rightarrow> string
   \<Rightarrow> pyval list \<Rightarrow> string list \<Rightarrow> authorization_result \<times> tool_policy cache" where
  "authorize_tool_call s now catalog db c tid server name caller_scopes caller_roles =
     (case get_tool s catalog tid server name of
        None \<Rightarrow> (verdict False ToolNotFound None, c)
      | Some tool \<Rightarrow>
          (case get_tool_policy (status_cache_ttl s) now db c (resolve_tenant s tid) of
             (policy, c') \<Rightarrow>
               (let scopes = scope_texts caller_scopes; required = required_scopes tool in
                if fq_tool server name \<in> set (disabled_tools policy) then verdict False ToolDisabled (Some tool)
                else if ''admin'' \<in> set caller_roles then verdict True AdminOverride (Some tool)
                else if INVOKE_ROLE \<notin> set caller_roles then verdict False InvokeNotPermitted (Some tool)
                else if \<not> matches_allowlist server name (allowlist policy)
                then verdict False ToolNotAllowlisted (Some tool)
                else if (''server:'' @ server) \<notin> set scopes \<and> ''server:*'' \<notin> set scopes
                then verdict False ServerScopeRequired (Some tool)
                else if required = [] then verdict True NoScopeRequired (Some tool)
                else if scopes = [] then verdict False MissingScope (Some tool)
                else if list_ex (\<lambda>r. r \<in> set scopes) required then verdict True ScopeMatch (Some tool)
                else verdict False ScopeMismatch (Some tool),
                c')))"

section \<open>Properties\<close>

lemma verdict_simps [simp]:
  "auth_allowed (verdict a r t) = a" "auth_reason_code (verdict a r t) = r" "auth_tool (verdict a r t) = t"
  by (simp_all add: verdict_def)

text \<open>The policy the decision uses.\<close>
definition policy_seen ::
  "settings \<Rightarrow> real \<Rightarrow> docs \<Rightarrow> tool_policy cache \<Rightarrow> string option \<Rightarrow> tool_policy" where
  "policy_seen s now db c tid = fst (get_tool_policy (status_cache_ttl s) now db c (resolve_tenant s tid))"

lemma authorize_iff:
  "auth_allowed (fst (authorize_tool_call s now catalog db c tid server name scopes roles)) \<longleftrightarrow>
   (\<exists>tool. get_tool s catalog tid server name = Some tool
      \<and> fq_tool server name \<notin> set (disabled_tools (policy_seen s now db c tid))
      \<and> (''admin'' \<in> set roles
         \<or> (INVOKE_ROLE \<in> set roles
            \<and> matches_allowlist server name (allowlist (policy_seen s now db c tid))
            \<and> (''server:'' @ server \<in> set (scope_texts scopes) \<or> ''server:*'' \<in> set (scope_texts scopes))
            \<and> (required_scopes tool = [] \<or> set (required_scopes tool) \<inter> set (scope_texts scopes) \<noteq> {}))))"
  unfolding authorize_tool_call_def policy_seen_def
  by (cases "get_tool s catalog tid server name")
     (auto simp: Let_def split_beta list_ex_iff)

text \<open>C5. Who may run a tool, in one formula: the tool is catalogued and not disabled, and the
  caller is admin or holds the invoke role, an allowlisted tool, the server's scope and (when
  the tool asks for scopes) one of them.\<close>
theorem authorize_decision:
  "auth_allowed (fst (authorize_tool_call s now catalog db c tid server name scopes roles)) \<longleftrightarrow>
   (\<exists>tool. get_tool s catalog tid server name = Some tool
      \<and> fq_tool server name \<notin> set (disabled_tools (policy_seen s now db c tid))
      \<and> (''admin'' \<in> set roles
         \<or> (INVOKE_ROLE \<in> set roles
            \<and> matches_allowlist server name (allowlist (policy_seen s now db c tid))
            \<and> (''server:'' @ server \<in> set (scope_texts scopes) \<or> ''server:*'' \<in> set (scope_texts scopes))
            \<and> (required_scopes tool = [] \<or> set (required_scopes tool) \<inter> set (scope_texts scopes) \<noteq> {}))))"
  by (rule authorize_iff)

text \<open>The reason \<open>missing_scope\<close> cannot be returned: the server scope was checked before.\<close>
lemma missing_scope_unreachable:
  "auth_reason_code (fst (authorize_tool_call s now catalog db c tid server name scopes roles)) \<noteq> MissingScope"
  unfolding authorize_tool_call_def
  by (cases "get_tool s catalog tid server name") (auto simp: Let_def split_beta)

text \<open>The kill switch is absolute: after an operator disables a tool, no principal of the
  tenant (administrators included) is authorized to run it on the acting replica.\<close>
theorem disabled_tool_refused_for_everyone:
  assumes "set_tool_enabled (status_cache_ttl s) wall now db c tid server name False by' = (Some d, db', c')"
    and "find_tenant db tid = Some d0" and "overlay_is d0 xs"
    and "strip (fq_tool server name) = fq_tool server name" and "now \<le> t" and "tid \<noteq> []"
  shows "\<not> auth_allowed (fst (authorize_tool_call s t catalog db' c' (Some tid) server name scopes roles))"
proof -
  let ?a = "Toggle server name False wall by'"
  have "fst (get_tool_policy (status_cache_ttl s) t db' c' tid)
        = normalize_policy (apply_update (tool_enabled_update (fq_tool server name) False wall by') d0)"
    using policy.read_own_write [where a = ?a, OF TrueI assms(2) _ assms(5)] assms(1) by simp
  moreover have "fq_tool server name \<noteq> []" by (simp add: fq_tool_def)
  from overlay_after_toggle [OF assms(3,4) this, of False wall by']
  have "fq_tool server name \<in> set (disabled_tools (normalize_policy
      (apply_update (tool_enabled_update (fq_tool server name) False wall by') d0)))"
    using overlay_set by force
  ultimately show ?thesis
    using assms(6) by (auto simp: authorize_iff policy_seen_def resolve_tenant_def)
qed

lemma disabled_tool_refused_for_everyone_witness:
  "\<exists>db' c'. \<not> auth_allowed (fst (authorize_tool_call default_settings 2
     (\<lambda>_. [[(''server'', VStr ''crm''), (''name'', VStr ''find'')]]) db' c' (Some ''acme'') ''crm'' ''find''
     [] [''admin'']))"
proof -
  have f: "find_tenant [demo_catalog_tenant] ''acme'' = Some demo_catalog_tenant"
    by (simp add: find_tenant_def demo_catalog_tenant_def)
  obtain d db' c' where
    r: "set_tool_enabled (status_cache_ttl default_settings) 0 0 [demo_catalog_tenant] Map.empty
          ''acme'' ''crm'' ''find'' False None = (Some d, db', c')"
    unfolding set_tool_enabled_def tenants.modify_case_found [OF f] by simp
  have o: "overlay_is demo_catalog_tenant [''crm/drop'']" by code_simp
  have s: "strip (fq_tool ''crm'' ''find'') = fq_tool ''crm'' ''find''" by code_simp
  show ?thesis
    by (intro exI, rule disabled_tool_refused_for_everyone [OF r f o s, of 2]) simp_all
qed

text \<open>Authorization is monotone: giving a caller more scopes or more roles never takes a
  permission away.\<close>
theorem authorize_monotone:
  assumes "auth_allowed (fst (authorize_tool_call s now catalog db c tid server name scopes roles))"
    and "set (scope_texts scopes) \<subseteq> set (scope_texts scopes')" and "set roles \<subseteq> set roles'"
  shows "auth_allowed (fst (authorize_tool_call s now catalog db c tid server name scopes' roles'))"
  using assms unfolding authorize_iff by blast

lemma demo_authorized:
  "auth_allowed (fst (authorize_tool_call default_settings 0
     (\<lambda>_. [[(''server'', VStr ''crm''), (''name'', VStr ''find''), (''scopes'', VList [VStr ''crm:read''])]])
     [] Map.empty (Some ''acme'') ''crm'' ''find'' [VStr ''server:crm'', VStr ''crm:read''] [''tool:invoke'']))"
  by (simp add: authorize_iff get_tool_def tool_query_def resolve_plain policy_seen_def get_tool_policy_def
      cache_hit_def find_tenant_def normalize_policy_def clean_entries_def py_or_def matches_allowlist_def
      INVOKE_ROLE_def scope_texts_def map_filter_simps required_scopes_def Let_def)

lemma authorize_monotone_witness:
  "auth_allowed (fst (authorize_tool_call default_settings 0
     (\<lambda>_. [[(''server'', VStr ''crm''), (''name'', VStr ''find''), (''scopes'', VList [VStr ''crm:read''])]])
     [] Map.empty (Some ''acme'') ''crm'' ''find''
     [VStr ''server:crm'', VStr ''crm:read'', VStr ''x''] [''tool:invoke'', ''member'']))"
  by (rule authorize_monotone [OF demo_authorized]) (auto simp: scope_texts_def map_filter_simps)

lemma authorize_decision_witness:
  "\<not> auth_allowed (fst (authorize_tool_call default_settings 0
     (\<lambda>_. [[(''server'', VStr ''crm''), (''name'', VStr ''find''), (''scopes'', VList [VStr ''crm:read''])]])
     [] Map.empty (Some ''acme'') ''crm'' ''find'' [VStr ''server:crm'', VStr ''crm:write''] [''tool:invoke'']))"
  unfolding authorize_decision
  by (simp add: get_tool_def tool_query_def resolve_plain policy_seen_def get_tool_policy_def
      cache_hit_def find_tenant_def normalize_policy_def clean_entries_def py_or_def matches_allowlist_def
      INVOKE_ROLE_def scope_texts_def map_filter_simps required_scopes_def Let_def)

end
