(* ===== verification/Users.thy ===== *)
theory Users
  imports Authorization
begin

text \<open>Accounts: password hashing (\<open>services/passwords.py\<close>), signed sessions
  (\<open>services/admin_session.py\<close>) and the user store (\<open>services/users.py\<close>).  The key derivation
  function and the JWT library are parameters; salts and identifiers are arguments.\<close>

section \<open>Passwords\<close>

definition hex_digit :: "nat \<Rightarrow> char" where
  "hex_digit n = (if n < 10 then char_of (48 + n) else char_of (87 + n))"

definition hex_of :: "nat list \<Rightarrow> string" where
  "hex_of bs = concat (map (\<lambda>b. [hex_digit (b div 16), hex_digit (b mod 16)]) bs)"

definition nibble :: "char \<Rightarrow> nat option" where
  "nibble c =
     (let n = (of_char c :: nat)
      in if is_digit c then Some (n - 48)
         else if 97 \<le> n \<and> n \<le> 102 then Some (n - 87)
         else if 65 \<le> n \<and> n \<le> 70 then Some (n - 55) else None)"

text \<open>\<open>bytes.fromhex\<close>: white space between bytes is skipped; None is the \<open>ValueError\<close>.\<close>
fun from_hex :: "string \<Rightarrow> nat list option" where
  "from_hex [] = Some []"
| "from_hex [c] = (if is_space c then Some [] else None)"
| "from_hex (c # d # cs) =
     (if is_space c then from_hex (d # cs)
      else (case (nibble c, nibble d) of
          (Some h, Some l) \<Rightarrow> map_option (\<lambda>bs. (h * 16 + l) # bs) (from_hex cs)
        | _ \<Rightarrow> None))"

definition ALGORITHM :: string where "ALGORITHM = ''pbkdf2_sha256''"
definition DEFAULT_ITERATIONS :: int where "DEFAULT_ITERATIONS = 600000"
definition DERIVED_KEY_BYTES :: nat where "DERIVED_KEY_BYTES = 32"

text \<open>\<open>kdf password salt iterations length\<close>.\<close>
type_synonym kdf = "string \<Rightarrow> nat list \<Rightarrow> int \<Rightarrow> nat \<Rightarrow> nat list"

text \<open>None is the \<open>ValueError\<close> of an empty password.\<close>
definition hash_password :: "kdf \<Rightarrow> nat list \<Rightarrow> int \<Rightarrow> string \<Rightarrow> string option" where
  "hash_password kdf salt iterations pw =
     (if pw = [] then None
      else Some (ALGORITHM @ ''$'' @ int_str iterations @ ''$'' @ hex_of salt @ ''$''
                 @ hex_of (kdf pw salt iterations DERIVED_KEY_BYTES)))"

definition verify_password :: "kdf \<Rightarrow> string \<Rightarrow> pyval \<Rightarrow> bool" where
  "verify_password kdf pw encoded =
     (case encoded of
        VStr e \<Rightarrow>
          if pw = [] then False
          else (case split_on CHR ''$'' e of
              [algorithm, iterations_raw, salt_hex, derived_hex] \<Rightarrow>
                if algorithm \<noteq> ALGORITHM then False
                else (case (parse_int iterations_raw, from_hex salt_hex, from_hex derived_hex) of
                    (Some iterations, Some salt, Some expected) \<Rightarrow>
                      if iterations \<le> 0 then False
                      else kdf pw salt iterations (length expected) = expected
                  | _ \<Rightarrow> False)
            | _ \<Rightarrow> False)
      | _ \<Rightarrow> False)"

section \<open>Sessions\<close>

definition normalize_email :: "string \<Rightarrow> string" where
  "normalize_email email = lower (strip email)"

definition verify_credentials :: "settings \<Rightarrow> string \<Rightarrow> string \<Rightarrow> bool" where
  "verify_credentials s email pw =
     (let expected_email = lower (strip (opt_text (cfg_admin_email s)));
          expected_password = cfg_admin_password s
      in if expected_email = [] \<or> expected_password = [] then False
         else lower (strip email) = expected_email \<and> pw = expected_password)"

definition session_secret :: "settings \<Rightarrow> string" where
  "session_secret s = (if opt_text (cfg_admin_session_secret s) \<noteq> []
     then opt_text (cfg_admin_session_secret s) else cfg_jwt_secret s)"

definition session_payload :: "settings \<Rightarrow> real \<Rightarrow> string \<Rightarrow> string option \<Rightarrow> string list \<Rightarrow> doc" where
  "session_payload s now email tenant roles =
     [(''sub'', VStr email), (''kind'', VStr ''admin_session''), (''iat'', VInt (trunc now)),
      (''exp'', VInt (trunc (now + of_int (cfg_admin_session_ttl_seconds s))))]
     @ (case tenant of Some t \<Rightarrow> if t \<noteq> [] then [(''tenant_id'', VStr t)] else [] | None \<Rightarrow> [])
     @ (if roles \<noteq> [] then [(''roles'', VList (map VStr roles))] else [])"

text \<open>\<open>enc payload secret algorithm\<close>.\<close>
definition mint_session ::
  "(doc \<Rightarrow> string \<Rightarrow> string \<Rightarrow> string) \<Rightarrow> settings \<Rightarrow> real \<Rightarrow> string \<Rightarrow> string option \<Rightarrow> string list \<Rightarrow> string" where
  "mint_session enc s now email tenant roles =
     enc (session_payload s now email tenant roles) (session_secret s) ''HS256''"

definition bearer_payload ::
  "settings \<Rightarrow> real \<Rightarrow> string \<Rightarrow> string \<Rightarrow> string list \<Rightarrow> string list \<Rightarrow> int option \<Rightarrow> doc" where
  "bearer_payload s now email tenant roles scopes ttl =
     (let life = (case ttl of Some t \<Rightarrow> t | None \<Rightarrow> cfg_admin_session_ttl_seconds s)
      in [(''sub'', VStr email), (''tenant_id'', VStr tenant), (''roles'', VList (map VStr roles)),
          (''groups'', VList (map VStr scopes)), (''scopes'', VList (map VStr scopes)),
          (''iat'', VInt (trunc now)), (''exp'', VInt (trunc (now + of_int life)))]
         @ (if opt_text (cfg_jwt_issuer s) \<noteq> [] then [(''iss'', VStr (opt_text (cfg_jwt_issuer s)))] else [])
         @ (if opt_text (cfg_jwt_audience s) \<noteq> [] then [(''aud'', VStr (opt_text (cfg_jwt_audience s)))] else []))"

definition mint_bearer_jwt ::
  "(doc \<Rightarrow> string \<Rightarrow> string \<Rightarrow> string) \<Rightarrow> settings \<Rightarrow> real \<Rightarrow> string \<Rightarrow> string \<Rightarrow> string list \<Rightarrow> string list
   \<Rightarrow> int option \<Rightarrow> string" where
  "mint_bearer_jwt enc s now email tenant roles scopes ttl =
     enc (bearer_payload s now email tenant roles scopes ttl) (cfg_jwt_secret s) (cfg_jwt_algorithm s)"

text \<open>\<open>dec token secret algorithm\<close> is None where the library rejects the token.\<close>
definition verify_session ::
  "(string \<Rightarrow> string \<Rightarrow> string \<Rightarrow> doc option) \<Rightarrow> settings \<Rightarrow> string \<Rightarrow> doc option" where
  "verify_session dec s token =
     (case dec token (session_secret s) ''HS256'' of
        None \<Rightarrow> None
      | Some claims \<Rightarrow>
          if vget claims ''kind'' \<noteq> VStr ''admin_session'' then None
          else (case vget claims ''sub'' of
              VStr sub \<Rightarrow> if sub = [] then None else Some claims
            | _ \<Rightarrow> None))"

section \<open>Role sets and derived scopes\<close>

definition DEMO_USER_ROLES :: "string list" where "DEMO_USER_ROLES = [''user'', ''tool:invoke'']"
definition VIEWER_USER_ROLES :: "string list" where "VIEWER_USER_ROLES = [''user'', ''viewer'', ''tool:read'']"
definition TEAM_USER_ROLES :: "string list" where "TEAM_USER_ROLES = [''user'', ''tool:invoke'']"
definition SELF_SERVICE_ROLES :: "string list" where "SELF_SERVICE_ROLES = [''user'', ''admin'']"

text \<open>\<open>(doc.get("metadata") or {})\<close>.\<close>
definition metadata_of :: "doc \<Rightarrow> doc" where
  "metadata_of d = (case vget d ''metadata'' of VDict m \<Rightarrow> m | _ \<Rightarrow> [])"

text \<open>\<open>doc.get("scopes") or []\<close>, strings only.\<close>
definition scopes_or_empty :: "doc \<Rightarrow> string list" where
  "scopes_or_empty d = scope_texts (iter_values (py_or (vget d ''scopes'') (VList [])))"

definition is_readonly_tool :: "doc \<Rightarrow> bool" where
  "is_readonly_tool d =
     (let action = lower (strip (text_field (metadata_of d) ''action_type''))
      in if action \<in> {''write'', ''destructive''} then False
         else if action = ''read'' then True
         else list_ex (\<lambda>s. s = ''readonly'') (scopes_or_empty d))"

definition tool_scopes :: "doc \<Rightarrow> string list" where
  "tool_scopes d = filter (\<lambda>s. s \<noteq> [] \<and> \<not> startswith s ''server:'') (scopes_or_empty d)"

definition derive_safe_scopes :: "docs \<Rightarrow> string list" where
  "derive_safe_scopes catalog =
     (let ds = take 10000 catalog;
          safe = concat (map tool_scopes (filter is_readonly_tool ds));
          unsafe = concat (map tool_scopes (filter (\<lambda>d. \<not> is_readonly_tool d) ds))
      in ''server:*'' # sorted_set (filter (\<lambda>s. s \<notin> set unsafe) safe))"

definition derive_demo_scopes :: "docs \<Rightarrow> string list" where
  "derive_demo_scopes catalog = ''server:*'' # sorted_set (concat (map tool_scopes (take 10000 catalog)))"

section \<open>The user store\<close>

datatype user_error = EmailRequired | UserAlreadyExists string | UserNotFound string | EmptyPassword

definition clean_str_list :: "pyval \<Rightarrow> string list" where
  "clean_str_list v = (if \<not> truthy v then [] else scope_texts (iter_values v))"

definition opt_label :: "pyval \<Rightarrow> pyval" where
  "opt_label v = (if truthy v then VStr (py_str v) else VNone)"

definition public_user :: "doc \<Rightarrow> doc" where
  "public_user d =
     [(''id'', VStr (text_field d ''_id'')),
      (''tenant_id'', VStr (text_field d ''tenant_id'')),
      (''email'', VStr (text_field d ''email'')),
      (''roles'', VList (map VStr (clean_str_list (vget d ''roles'')))),
      (''scopes'', VList (map VStr (clean_str_list (vget d ''scopes'')))),
      (''status'', VStr (py_str (vget_or d ''status'' (VStr ''active'')))),
      (''self_registered'', VBool (truthy (vget_or d ''self_registered'' (VBool False)))),
      (''label'', opt_label (vget d ''label'')),
      (''client'', opt_label (vget d ''client'')),
      (''created_at'', vget d ''created_at''),
      (''updated_at'', vget d ''updated_at''),
      (''created_by'', vget d ''created_by'')]"

definition find_user_by_email :: "docs \<Rightarrow> string \<Rightarrow> doc option" where
  "find_user_by_email users email = find_one (key_query ''email'' (normalize_email email)) users"

definition list_users :: "string option \<Rightarrow> docs \<Rightarrow> docs" where
  "list_users tid users =
     (let q = (case tid of Some t \<Rightarrow> if t \<noteq> [] then [(''tenant_id'', CEq (VStr t))] else [] | None \<Rightarrow> [])
      in map public_user (sort_key (\<lambda>d. text_field d ''email'') (take 10000 (find_docs q users))))"

definition clean_opt :: "string option \<Rightarrow> pyval" where
  "clean_opt v = (case v of Some t \<Rightarrow> if strip t \<noteq> [] then VStr (strip t) else VNone | None \<Rightarrow> VNone)"

record new_user =
  nu_email :: string
  nu_password :: string
  nu_tenant :: string
  nu_roles :: "string list"
  nu_scopes :: "string list"
  nu_status :: string
  nu_created_by :: "string option"
  nu_self_registered :: bool
  nu_label :: "string option"
  nu_client :: "string option"

definition create_user ::
  "kdf \<Rightarrow> nat list \<Rightarrow> string \<Rightarrow> real \<Rightarrow> new_user \<Rightarrow> docs \<Rightarrow> user_error + (doc \<times> docs)" where
  "create_user kdf salt fresh now u users =
     (let normalized = normalize_email (nu_email u)
      in if normalized = [] then Inl EmailRequired
         else if find_one (key_query ''email'' normalized) users \<noteq> None then Inl (UserAlreadyExists normalized)
         else case hash_password kdf salt DEFAULT_ITERATIONS (nu_password u) of
             None \<Rightarrow> Inl EmptyPassword
           | Some h \<Rightarrow>
               (let d = [(''_id'', VStr fresh), (''tenant_id'', VStr (nu_tenant u)), (''email'', VStr normalized),
                         (''password_hash'', VStr h), (''roles'', VList (map VStr (nu_roles u))),
                         (''scopes'', VList (map VStr (nu_scopes u))), (''status'', VStr (nu_status u)),
                         (''self_registered'', VBool (nu_self_registered u)),
                         (''label'', clean_opt (nu_label u)), (''client'', clean_opt (nu_client u)),
                         (''created_at'', VTime now), (''updated_at'', VTime now),
                         (''created_by'', case nu_created_by u of Some b \<Rightarrow> VStr b | None \<Rightarrow> VNone)]
                in Inr (public_user d, insert_one d users)))"

definition update_user ::
  "kdf \<Rightarrow> nat list \<Rightarrow> real \<Rightarrow> string \<Rightarrow> string option \<Rightarrow> string list option \<Rightarrow> string list option
   \<Rightarrow> string option \<Rightarrow> docs \<Rightarrow> (user_error + doc) \<times> docs" where
  "update_user kdf salt now uid pw roles scopes status users =
     (case (case pw of None \<Rightarrow> Some []
            | Some p \<Rightarrow> map_option (\<lambda>h. [(''password_hash'', VStr h)]) (hash_password kdf salt DEFAULT_ITERATIONS p)) of
        None \<Rightarrow> (Inl EmptyPassword, users)
      | Some hashed \<Rightarrow>
          (let updates = [(''updated_at'', VTime now)] @ hashed
                 @ (case roles of Some r \<Rightarrow> [(''roles'', VList (map VStr r))] | None \<Rightarrow> [])
                 @ (case scopes of Some r \<Rightarrow> [(''scopes'', VList (map VStr r))] | None \<Rightarrow> [])
                 @ (case status of Some st \<Rightarrow> [(''status'', VStr st)] | None \<Rightarrow> [])
           in case update_one (key_query ''_id'' uid) (set_fields updates) False users of
                (users', n) \<Rightarrow>
                  if n = 0 then (Inl (UserNotFound uid), users')
                  else (case find_one (key_query ''_id'' uid) users' of
                      None \<Rightarrow> (Inl (UserNotFound uid), users')
                    | Some d \<Rightarrow> (Inr (public_user d), users'))))"

definition session_query :: "string \<Rightarrow> string \<Rightarrow> query" where
  "session_query tid user = [(''tenant_id'', CEq (VStr tid)), (''user_id'', CEq (VStr user))]"

definition clear_session_context :: "string \<Rightarrow> string \<Rightarrow> docs \<Rightarrow> docs" where
  "clear_session_context tid user sessions =
     (if tid = [] \<or> user = [] then sessions else delete_one (session_query tid user) sessions)"

definition delete_user :: "string \<Rightarrow> docs \<Rightarrow> docs \<Rightarrow> bool \<times> docs \<times> docs" where
  "delete_user uid users sessions =
     (case find_one (key_query ''_id'' uid) users of
        None \<Rightarrow> (False, users, sessions)
      | Some d \<Rightarrow> (True, delete_one (key_query ''_id'' uid) users,
                   clear_session_context (text_field d ''tenant_id'') (text_field d ''email'') sessions))"

definition authenticate :: "kdf \<Rightarrow> docs \<Rightarrow> string \<Rightarrow> string \<Rightarrow> doc option" where
  "authenticate kdf users email pw =
     (case find_user_by_email users email of
        None \<Rightarrow> None
      | Some d \<Rightarrow>
          if py_str (vget_or d ''status'' (VStr ''active'')) \<noteq> ''active'' then None
          else if \<not> verify_password kdf pw (VStr (text_field d ''password_hash'')) then None
          else Some (public_user d))"

record principal =
  pr_email :: string
  pr_tenant :: string
  pr_roles :: "string list"
  pr_scopes :: "string list"

text \<open>\<open>users = None\<close>: the user store is not reachable.\<close>
definition resolve_login_principal ::
  "kdf \<Rightarrow> settings \<Rightarrow> docs option \<Rightarrow> string \<Rightarrow> string \<Rightarrow> principal option" where
  "resolve_login_principal kdf s users email pw =
     (case Option.bind users (\<lambda>us. authenticate kdf us email pw) of
        Some u \<Rightarrow> Some \<lparr>pr_email = text_field u ''email'', pr_tenant = text_field u ''tenant_id'',
                        pr_roles = scope_texts (iter_values (vget u ''roles'')),
                        pr_scopes = scope_texts (iter_values (vget u ''scopes''))\<rparr>
      | None \<Rightarrow>
          if verify_credentials s email pw
          then Some \<lparr>pr_email = normalize_email email, pr_tenant = cfg_default_tenant_id s,
                     pr_roles = [cfg_platform_admin_role s, ''admin''], pr_scopes = []\<rparr>
          else None)"

definition sync_session_context :: "real \<Rightarrow> doc \<Rightarrow> docs \<Rightarrow> docs" where
  "sync_session_context now user sessions =
     (let tid = text_field user ''tenant_id''; uid = text_field user ''email''
      in if tid = [] \<or> uid = [] then sessions
         else fst (update_one (session_query tid uid)
           (set_fields [(''tenant_id'', VStr tid), (''user_id'', VStr uid),
              (''roles'', VList (map VStr (clean_str_list (vget user ''roles'')))),
              (''scopes'', VList (map VStr (clean_str_list (vget user ''scopes'')))),
              (''status'', VStr (let st = py_str (vget_or user ''status'' (VStr ''active''))
                                 in if st = [] then ''active'' else st)),
              (''updated_at'', VTime now)]) True sessions))"

section \<open>Passwords round trip\<close>

lemma nibble_digit [simp]: "n < 16 \<Longrightarrow> nibble (hex_digit n) = Some n"
  by (auto simp: nibble_def hex_digit_def is_digit_def Let_def)

lemma hex_digit_facts [simp]: "n < 16 \<Longrightarrow> \<not> is_space (hex_digit n)" "n < 16 \<Longrightarrow> hex_digit n \<noteq> CHR ''$''"
proof -
  assume "n < 16"
  then have "(of_char (hex_digit n) :: nat) = (if n < 10 then 48 + n else 87 + n)"
    by (auto simp: hex_digit_def)
  then have v: "(of_char (hex_digit n) :: nat) \<ge> 48" by (auto split: if_splits)
  then show "\<not> is_space (hex_digit n)" by (auto simp: is_space_def)
  from v show "hex_digit n \<noteq> CHR ''$''" by auto
qed

lemma from_hex_of: "\<forall>b\<in>set bs. b < 256 \<Longrightarrow> from_hex (hex_of bs) = Some bs"
proof (induction bs)
  case (Cons b bs)
  then have "b div 16 < 16" "b mod 16 < 16" "from_hex (hex_of bs) = Some bs" by auto
  then show ?case by (simp add: hex_of_def)
qed (simp add: hex_of_def)

lemma hex_of_no_dollar: "\<forall>b\<in>set bs. b < 256 \<Longrightarrow> CHR ''$'' \<notin> set (hex_of bs)"
proof (induction bs)
  case (Cons b bs)
  then have "b div 16 < 16" "b mod 16 < 16" by auto
  then have "hex_digit (b div 16) \<noteq> CHR ''$''" "hex_digit (b mod 16) \<noteq> CHR ''$''" by simp_all
  moreover have "CHR ''$'' \<notin> set (hex_of bs)" using Cons by simp
  moreover have "set (hex_of (b # bs)) = {hex_digit (b div 16), hex_digit (b mod 16)} \<union> set (hex_of bs)"
    by (simp add: hex_of_def insert_commute)
  ultimately show ?case by (metis Un_iff insert_iff singletonD)
qed (simp add: hex_of_def)

lemma int_str_no_dollar: "CHR ''$'' \<notin> set (int_str i)"
proof -
  have "\<not> is_digit CHR ''$''" by (simp add: is_digit_def)
  then have "CHR ''$'' \<notin> set (nat_str n)" for n using nat_str_digits [of n] by auto
  then show ?thesis by (simp add: int_str_def)
qed

lemma split_on_append: "c \<notin> set a \<Longrightarrow> split_on c (a @ c # rest) = a # split_on c rest"
  by (induction a) (auto simp: split_on_def)

text \<open>A stored hash verifies its own password, and another password exactly when the key
  derivation function collides on the stored salt and work factor.\<close>
theorem password_round_trip:
  assumes "hash_password kdf salt iterations pw = Some e" and "0 < iterations"
    and "\<forall>b\<in>set salt. b < 256" and "\<And>p. length (kdf p salt iterations DERIVED_KEY_BYTES) = DERIVED_KEY_BYTES"
    and "\<And>p. \<forall>b\<in>set (kdf p salt iterations DERIVED_KEY_BYTES). b < 256"
  shows "verify_password kdf pw (VStr e)
     \<and> (verify_password kdf pw' (VStr e) \<longleftrightarrow>
        pw' \<noteq> [] \<and> kdf pw' salt iterations DERIVED_KEY_BYTES = kdf pw salt iterations DERIVED_KEY_BYTES)"
proof -
  have pw: "pw \<noteq> []" and e: "e = ALGORITHM @ CHR ''$'' # int_str iterations @ CHR ''$'' # hex_of salt @ CHR ''$''
      # hex_of (kdf pw salt iterations DERIVED_KEY_BYTES)"
    using assms(1) by (auto simp: hash_password_def split: if_splits)
  have "CHR ''$'' \<notin> set ALGORITHM" by (simp add: ALGORITHM_def)
  then have sp: "split_on CHR ''$'' e = [ALGORITHM, int_str iterations, hex_of salt,
      hex_of (kdf pw salt iterations DERIVED_KEY_BYTES)]"
    unfolding e using assms(3,5)
    by (simp add: split_on_append int_str_no_dollar hex_of_no_dollar split_on_single)
  have v: "verify_password kdf p (VStr e) \<longleftrightarrow>
        p \<noteq> [] \<and> kdf p salt iterations DERIVED_KEY_BYTES = kdf pw salt iterations DERIVED_KEY_BYTES" for p
    using assms(2-5) by (simp add: verify_password_def sp from_hex_of)
  show ?thesis using v pw by simp
qed

definition demo_kdf :: kdf where
  "demo_kdf p salt i n = take n (map (\<lambda>c. of_char c mod 251) p @ replicate n 0)"

lemma password_round_trip_witness:
  "\<exists>e. hash_password demo_kdf [1, 171] 600000 ''s3cret'' = Some e \<and> verify_password demo_kdf ''s3cret'' (VStr e)
     \<and> \<not> verify_password demo_kdf ''guess'' (VStr e)"
proof -
  obtain e where e: "hash_password demo_kdf [1, 171] 600000 ''s3cret'' = Some e"
    by (simp add: hash_password_def)
  have k: "demo_kdf ''guess'' [1, 171] 600000 DERIVED_KEY_BYTES \<noteq> demo_kdf ''s3cret'' [1, 171] 600000 DERIVED_KEY_BYTES"
    by (simp add: demo_kdf_def DERIVED_KEY_BYTES_def)
  have b: "\<forall>b\<in>set (demo_kdf p [1, 171] 600000 DERIVED_KEY_BYTES). b < 256" for p
    by (auto simp: demo_kdf_def dest!: in_set_takeD intro: less_trans [OF mod_less_divisor])
  have len: "length (demo_kdf p [1, 171] 600000 DERIVED_KEY_BYTES) = DERIVED_KEY_BYTES" for p
    by (simp add: demo_kdf_def)
  have salt: "\<forall>b\<in>set [1, 171 :: nat]. b < 256" by simp
  show ?thesis
    by (rule exI [of _ e]) (use password_round_trip [OF e] k e len b salt in \<open>simp del: One_nat_def\<close>)
qed

section \<open>Derived scopes against the authorization gate\<close>

lemma scope_texts_map [simp]: "scope_texts (map VStr xs) = xs"
  by (induction xs) (simp_all add: scope_texts_def map_filter_simps)

lemma tool_doc_in_catalog:
  "get_tool s catalog tid server name = Some tool \<Longrightarrow> tool \<in> set (catalog (resolve_tenant s tid))"
  by (auto simp: get_tool_def dest: find_one_SomeD)

text \<open>The credential shared with a teammate: scopes derived as safe never authorize a tool
  that is not read-only, provided that tool asks for scopes of its own.\<close>
theorem safe_scopes_refuse_unsafe_tools:
  assumes "get_tool s catalog tid server name = Some tool" and "\<not> is_readonly_tool tool"
    and "vget tool ''scopes'' = VList (map VStr scopes)" and "scopes \<noteq> []"
    and "\<forall>sc\<in>set scopes. sc \<noteq> [] \<and> \<not> startswith sc ''server:''"
    and "length (catalog (resolve_tenant s tid)) \<le> 10000"
  shows "\<not> auth_allowed (fst (authorize_tool_call s now catalog db c tid server name
            (map VStr (derive_safe_scopes (catalog (resolve_tenant s tid)))) TEAM_USER_ROLES))"
proof -
  let ?cat = "catalog (resolve_tenant s tid)"
  have req: "required_scopes tool = scopes"
    using assms(3) by (auto simp: required_scopes_def vget_or_def vget_def split: option.splits)
  have ts: "tool_scopes tool = scopes"
    using assms(3-5) by (simp add: tool_scopes_def scopes_or_empty_def py_or_def filter_id_conv)
  have "tool \<in> set (filter (\<lambda>d. \<not> is_readonly_tool d) ?cat)"
    using tool_doc_in_catalog [OF assms(1)] assms(2) by simp
  then have "set scopes \<subseteq> set (concat (map tool_scopes (filter (\<lambda>d. \<not> is_readonly_tool d) ?cat)))"
    using ts by (auto intro!: bexI [of _ tool])
  moreover have "''server:*'' \<notin> set scopes" using assms(5) by (auto simp: startswith_def)
  ultimately have "set scopes \<inter> set (derive_safe_scopes ?cat) = {}"
    using assms(6) by (auto simp: derive_safe_scopes_def Let_def)
  then show ?thesis
    using assms(1,4) req by (auto simp: authorize_iff TEAM_USER_ROLES_def)
qed

text \<open>The gap in that promise: a tool without scopes of its own is authorized for the same
  credential whatever its action type, destructive tools included.\<close>
theorem safe_scopes_admit_unscoped_tools:
  assumes "get_tool s catalog tid server name = Some tool" and "vget tool ''scopes'' = VList []"
    and "fq_tool server name \<notin> set (disabled_tools (policy_seen s now db c tid))"
    and "matches_allowlist server name (allowlist (policy_seen s now db c tid))"
  shows "auth_allowed (fst (authorize_tool_call s now catalog db c tid server name
            (map VStr (derive_safe_scopes (catalog (resolve_tenant s tid)))) TEAM_USER_ROLES))"
proof -
  have "required_scopes tool = []"
    using assms(2) by (auto simp: required_scopes_def vget_or_def vget_def scope_texts_def map_filter_simps
        split: option.splits)
  moreover have "''server:*'' \<in> set (derive_safe_scopes (catalog (resolve_tenant s tid)))"
    by (simp add: derive_safe_scopes_def Let_def)
  ultimately show ?thesis
    using assms by (auto simp: authorize_iff TEAM_USER_ROLES_def INVOKE_ROLE_def)
qed

definition wipe_tool :: "pyval list \<Rightarrow> doc" where
  "wipe_tool scopes = [(''server'', VStr ''crm''), (''name'', VStr ''wipe''), (''scopes'', VList scopes),
     (''metadata'', VDict [(''action_type'', VStr ''destructive'')])]"

lemma wipe_unsafe: "\<not> is_readonly_tool (wipe_tool scopes)"
proof -
  have "text_field (metadata_of (wipe_tool scopes)) ''action_type'' = ''destructive''"
    by (simp add: wipe_tool_def metadata_of_def text_field_def)
  moreover have "lower (strip ''destructive'') = ''destructive''" by code_simp
  ultimately show ?thesis by (simp add: is_readonly_tool_def Let_def)
qed

lemma wipe_found: "get_tool s (\<lambda>_. [wipe_tool scopes]) tid ''crm'' ''wipe'' = Some (wipe_tool scopes)"
  by (simp add: get_tool_def tool_query_def resolve_plain wipe_tool_def)

lemma safe_scopes_refuse_unsafe_tools_witness:
  "\<not> auth_allowed (fst (authorize_tool_call default_settings 0 (\<lambda>_. [wipe_tool [VStr ''crm:write'']]) [] Map.empty
      (Some ''acme'') ''crm'' ''wipe''
      (map VStr (derive_safe_scopes [wipe_tool [VStr ''crm:write'']])) TEAM_USER_ROLES))"
  using safe_scopes_refuse_unsafe_tools [OF wipe_found wipe_unsafe, where scopes = "[''crm:write'']"]
  by (simp add: wipe_tool_def startswith_def)

lemma safe_scopes_admit_unscoped_tools_witness:
  "\<not> is_readonly_tool (wipe_tool []) \<and>
   auth_allowed (fst (authorize_tool_call default_settings 0 (\<lambda>_. [wipe_tool []]) [] Map.empty
      (Some ''acme'') ''crm'' ''wipe''
      (map VStr (derive_safe_scopes [wipe_tool []])) TEAM_USER_ROLES))"
proof -
  have p: "policy_seen default_settings 0 [] Map.empty (Some ''acme'') = \<lparr>allowlist = [], max_tools = 0, disabled_tools = []\<rparr>"
    by (simp add: policy_seen_def get_tool_policy_def cache_hit_def find_tenant_def normalize_policy_def
        clean_entries_def coerce_cap_def py_or_def Let_def)
  have "vget (wipe_tool []) ''scopes'' = VList []" by (simp add: wipe_tool_def)
  from safe_scopes_admit_unscoped_tools [OF wipe_found this] wipe_unsafe show ?thesis
    by (simp add: p matches_allowlist_def)
qed

end
