(* ===== verification/Jwks.thy ===== *)
theory Jwks
  imports Settings
begin

text \<open>The signing-key resolver of \<open>gateway/middleware/auth.py\<close> (\<open>JWKSKeyResolver\<close>): a key map with
  an expiry, refreshed when it lapses and, throttled, when a token names an unknown key.
  The state is the record \<open>jwks_state\<close>; the two sections the source runs under its lock are
  \<open>load_keys_locked\<close> and \<open>refresh_for_missing_kid\<close>, and requests interleave only between them.
  The identity provider, the JSON of the local file and RSA key import are parameters; every
  section reads the monotonic clock once, and a fetch takes the time its reply says.\<close>

section \<open>Errors and state\<close>

text \<open>The exceptions \<open>_classify_auth_failure\<close> tells apart, by most specific class.\<close>
datatype auth_exc = JWKSUnavailableError | ExpiredSignatureError | InvalidSignatureError
  | InvalidAudienceError | InvalidIssuerError | JwtDecodeError | InvalidTokenError | ValueErrorExc
  | OtherException

record 'k jwks_state =
  keys_by_kid :: "(string \<times> 'k) list"
  cache_expires_at :: real
  last_miss_refresh_at :: real

definition fresh_resolver :: "'k jwks_state" where
  "fresh_resolver = \<lparr>keys_by_kid = [], cache_expires_at = 0, last_miss_refresh_at = 0\<rparr>"

text \<open>\<open>read_json\<close>: the parsed local file, None when unreadable.  \<open>http_get t u\<close>: seconds taken and
  the parsed reply, None on a transport or status error.  \<open>from_jwk\<close>: None when it raises.\<close>
record 'k idp =
  read_json :: "string \<Rightarrow> doc option"
  http_get :: "real \<Rightarrow> string \<Rightarrow> real \<times> doc option"
  from_jwk :: "pyval \<Rightarrow> 'k option"

section \<open>Fetching\<close>

definition fetch_jwks :: "'k idp \<Rightarrow> settings \<Rightarrow> real \<Rightarrow> real \<times> (auth_exc + doc)" where
  "fetch_jwks idp s now =
     (if opt_text (cfg_jwks_local_path s) \<noteq> [] then
        (now, case read_json idp (opt_text (cfg_jwks_local_path s)) of
                None \<Rightarrow> Inl JWKSUnavailableError | Some d \<Rightarrow> Inr d)
      else if opt_text (cfg_jwks_uri s) \<noteq> [] then
        (case http_get idp now (opt_text (cfg_jwks_uri s)) of
           (dt, None) \<Rightarrow> (now + dt, Inl JWKSUnavailableError)
         | (dt, Some d) \<Rightarrow> (now + dt, Inr d))
      else (now, Inl ValueErrorExc))"

text \<open>One JWK: its \<open>kid\<close>, or \<open>local-key-idx\<close>.  A key identifier that is not text would make a
  dictionary key no token can name; it is read as its text.\<close>
definition jwk_kid :: "nat \<Rightarrow> doc \<Rightarrow> string" where
  "jwk_kid idx jwk = (if truthy (vget jwk ''kid'') then py_str (vget jwk ''kid'') else ''local-key-'' @ nat_str idx)"

fun load_jwks :: "'k idp \<Rightarrow> nat \<Rightarrow> pyval list \<Rightarrow> (string \<times> 'k) list \<Rightarrow> auth_exc + (string \<times> 'k) list" where
  "load_jwks idp idx [] loaded = Inr loaded"
| "load_jwks idp idx (j # js) loaded =
     (case as_doc j of
        None \<Rightarrow> Inl OtherException
      | Some jwk \<Rightarrow>
          (case from_jwk idp j of
             None \<Rightarrow> Inl OtherException
           | Some k \<Rightarrow> load_jwks idp (Suc idx) js (dput (jwk_kid idx jwk) k loaded)))"

definition refresh_locked ::
  "'k idp \<Rightarrow> settings \<Rightarrow> real \<Rightarrow> 'k jwks_state \<Rightarrow> (auth_exc + unit) \<times> 'k jwks_state" where
  "refresh_locked idp s now st =
     (case fetch_jwks idp s now of
        (_, Inl e) \<Rightarrow> (Inl e, st)
      | (t, Inr jwks) \<Rightarrow>
          (case load_jwks idp 0 (iter_values (vget_or jwks ''keys'' (VList []))) [] of
             Inl e \<Rightarrow> (Inl e, st)
           | Inr loaded \<Rightarrow>
               if loaded = [] then (Inl JWKSUnavailableError, st)
               else (Inr (), st\<lparr>keys_by_kid := loaded,
                               cache_expires_at := t + of_int (max 1 (cfg_jwks_cache_ttl_seconds s))\<rparr>)))"

section \<open>Selection and the two critical sections\<close>

definition select_key :: "(string \<times> 'k) list \<Rightarrow> string option \<Rightarrow> 'k option" where
  "select_key keys kid =
     (if opt_text kid \<noteq> [] then dget keys (opt_text kid)
      else case keys of [(_, k)] \<Rightarrow> Some k | _ \<Rightarrow> None)"

definition keys_fresh :: "real \<Rightarrow> 'k jwks_state \<Rightarrow> bool" where
  "keys_fresh now st = (keys_by_kid st \<noteq> [] \<and> now < cache_expires_at st)"

text \<open>\<open>_load_keys\<close> re-checks freshness under the lock, so its outer check only skips the lock.\<close>
definition load_keys ::
  "'k idp \<Rightarrow> settings \<Rightarrow> real \<Rightarrow> 'k jwks_state \<Rightarrow> (auth_exc + (string \<times> 'k) list) \<times> 'k jwks_state" where
  "load_keys idp s now st =
     (if keys_fresh now st then (Inr (keys_by_kid st), st)
      else case refresh_locked idp s now st of
          (Inl e, st') \<Rightarrow> (Inl e, st')
        | (Inr _, st') \<Rightarrow> (Inr (keys_by_kid st'), st'))"

definition can_refresh_on_miss :: "settings \<Rightarrow> real \<Rightarrow> 'k jwks_state \<Rightarrow> bool" where
  "can_refresh_on_miss s now st =
     (of_int (max 0 (cfg_jwks_min_refresh_seconds s)) \<le> now - last_miss_refresh_at st)"

definition refresh_for_missing_kid ::
  "'k idp \<Rightarrow> settings \<Rightarrow> real \<Rightarrow> string \<Rightarrow> 'k jwks_state \<Rightarrow> (auth_exc + 'k option) \<times> 'k jwks_state" where
  "refresh_for_missing_kid idp s now kid st =
     (case select_key (keys_by_kid st) (Some kid) of
        Some k \<Rightarrow> (Inr (Some k), st)
      | None \<Rightarrow>
          if \<not> can_refresh_on_miss s now st then (Inr None, st)
          else (case refresh_locked idp s now (st\<lparr>last_miss_refresh_at := now\<rparr>) of
              (Inl e, st') \<Rightarrow> (Inl e, st')
            | (Inr _, st') \<Rightarrow> (Inr (select_key (keys_by_kid st') (Some kid)), st')))"

text \<open>\<open>header\<close> reads the token's unverified header: its \<open>kid\<close>, which the library accepts only as text.
  \<open>t1\<close> and \<open>t2\<close> are the clock at the two sections.\<close>
definition resolve_signing_key ::
  "(string \<Rightarrow> auth_exc + string option) \<Rightarrow> 'k idp \<Rightarrow> settings \<Rightarrow> real \<Rightarrow> real \<Rightarrow> string \<Rightarrow> 'k jwks_state
   \<Rightarrow> (auth_exc + 'k) \<times> 'k jwks_state" where
  "resolve_signing_key header idp s t1 t2 token st =
     (case header token of
        Inl e \<Rightarrow> (Inl e, st)
      | Inr kid \<Rightarrow>
          (case load_keys idp s t1 st of
             (Inl e, st1) \<Rightarrow> (Inl e, st1)
           | (Inr keys, st1) \<Rightarrow>
               (case select_key keys kid of
                  Some k \<Rightarrow> (Inr k, st1)
                | None \<Rightarrow>
                    (case kid of
                       None \<Rightarrow> (Inl ValueErrorExc, st1)
                     | Some i \<Rightarrow>
                         (case refresh_for_missing_kid idp s t2 i st1 of
                            (Inl e, st2) \<Rightarrow> (Inl e, st2)
                          | (Inr (Some k), st2) \<Rightarrow> (Inr k, st2)
                          | (Inr None, st2) \<Rightarrow> (Inl ValueErrorExc, st2))))))"

section \<open>Interleaved requests\<close>

text \<open>Any number of concurrent requests, seen as the sequence of their critical sections, each
  with the clock it reads.  \<open>run_sections\<close> returns the times at which a section asked the
  identity provider because of an unknown key.\<close>
datatype jwks_section = LoadAt real | MissAt real string

fun section_time :: "jwks_section \<Rightarrow> real" where
  "section_time (LoadAt t) = t"
| "section_time (MissAt t _) = t"

fun run_sections :: "'k idp \<Rightarrow> settings \<Rightarrow> jwks_section list \<Rightarrow> 'k jwks_state \<Rightarrow> real list \<times> 'k jwks_state" where
  "run_sections idp s [] st = ([], st)"
| "run_sections idp s (LoadAt t # es) st = run_sections idp s es (snd (load_keys idp s t st))"
| "run_sections idp s (MissAt t kid # es) st =
     (let asks = select_key (keys_by_kid st) (Some kid) = None \<and> can_refresh_on_miss s t st
      in case run_sections idp s es (snd (refresh_for_missing_kid idp s t kid st)) of
           (ts, st') \<Rightarrow> (if asks then t # ts else ts, st'))"

lemma refresh_keeps_throttle: "last_miss_refresh_at (snd (refresh_locked idp s t st)) = last_miss_refresh_at st"
  by (auto simp: refresh_locked_def split: prod.splits sum.splits)

lemma load_keeps_throttle: "last_miss_refresh_at (snd (load_keys idp s t st)) = last_miss_refresh_at st"
  using refresh_keeps_throttle [of idp s t st] by (auto simp: load_keys_def split: prod.splits sum.splits)

lemma miss_throttle:
  "last_miss_refresh_at (snd (refresh_for_missing_kid idp s t kid st)) =
     (if select_key (keys_by_kid st) (Some kid) = None \<and> can_refresh_on_miss s t st then t
      else last_miss_refresh_at st)"
  using refresh_keeps_throttle [of idp s t "st\<lparr>last_miss_refresh_at := t\<rparr>"]
  by (auto simp: refresh_for_missing_kid_def split: prod.splits sum.splits option.splits)



definition demo_idp :: "nat idp" where
  "demo_idp = \<lparr>read_json = (\<lambda>_. None),
     http_get = (\<lambda>t u. (1, Some [(''keys'', VList [VDict [(''kid'', VStr (if t < 120 then ''old'' else ''new''))]])])),
     from_jwk = (\<lambda>_. Some 7)\<rparr>"

definition demo_jwks_settings :: settings where
  "demo_jwks_settings = default_settings\<lparr>cfg_jwks_uri := Some ''https://idp/jwks''\<rparr>"

lemma demo_sections:
  "fst (run_sections demo_idp demo_jwks_settings
     [LoadAt 100, MissAt 101 ''new'', MissAt 140 ''new'', MissAt 165 ''new'', MissAt 166 ''new'', MissAt 170 ''x''] fresh_resolver)
   = [101, 165]"
  by (simp add: run_sections.simps fresh_resolver_def demo_idp_def demo_jwks_settings_def default_settings_def load_keys_def keys_fresh_def
      refresh_locked_def fetch_jwks_def opt_text_def as_doc_def jwk_kid_def refresh_for_missing_kid_def select_key_def
      can_refresh_on_miss_def dput_def Let_def vget_or_def)


end
