(* ===== verification/AuthMw.thy ===== *)
theory AuthMw
  imports Users Jwks
begin

text \<open>\<open>gateway/middleware/auth.py\<close> (\<open>AuthMiddleware\<close>) and \<open>gateway/middleware/rbac.py\<close>: who a request
  is, and what it may reach.  \<open>request_state\<close> is the part of \<open>request.state\<close> the two middlewares
  write; \<open>auth_middleware\<close> and \<open>rbac_middleware\<close> are their \<open>__call__\<close> methods, and \<open>admit\<close> runs one after the
  other (the rate limiter between them only ever refuses).  Token signature checks, base64 text
  and password hashing are parameters (\<open>auth_env\<close>).\<close>

section \<open>Requests\<close>

text \<open>Header names are lower case, as the framework delivers them.\<close>
record http_request =
  rq_path :: string
  rq_method :: string
  rq_headers :: "(string \<times> string) list"
  rq_cookies :: "(string \<times> string) list"
  rq_base_url :: string

text \<open>Tenant and user are raw claim values: a bearer token may carry any JSON there.\<close>
record request_state =
  rs_tenant :: pyval
  rs_user :: pyval
  rs_roles :: "string list"
  rs_scopes :: "string list"
  rs_admin :: bool
  rs_read_only :: bool
  rs_via_cookie :: bool
  rs_via_basic :: bool

datatype reply = Reply int string "(string \<times> string) list" | RedirectTo string

text \<open>\<open>dec_hs token secret algorithm audience issuer\<close> and \<open>dec_rs token key audience issuer\<close> verify and
  decode; \<open>b64_text\<close> is base64 and UTF-8 decoding, None when either fails; \<open>env_users\<close> is None when
  the user store cannot be read.\<close>
record 'k auth_env =
  dec_hs :: "string \<Rightarrow> string \<Rightarrow> string \<Rightarrow> string option \<Rightarrow> string option \<Rightarrow> auth_exc + doc"
  dec_rs :: "string \<Rightarrow> 'k \<Rightarrow> string option \<Rightarrow> string option \<Rightarrow> auth_exc + doc"
  token_header :: "string \<Rightarrow> auth_exc + string option"
  b64_text :: "string \<Rightarrow> string option"
  env_kdf :: kdf
  env_users :: "docs option"
  env_idp :: "'k idp"

section \<open>Paths\<close>

definition is_mcp_path :: "string \<Rightarrow> bool" where
  "is_mcp_path p = (p = ''/rpc'' \<or> startswith p ''/rpc/'' \<or> p = ''/mcp'' \<or> startswith p ''/mcp/'')"

definition is_auth_public_path :: "string \<Rightarrow> bool" where
  "is_auth_public_path p = (p \<in> set [''/auth/token'', ''/auth/register'', ''/.well-known/oauth-protected-resource''])"

definition is_observability_path :: "string \<Rightarrow> bool" where
  "is_observability_path p = (p = ''/metrics'' \<or> p = ''/health'' \<or> startswith p ''/health/'')"

definition is_public_path :: "settings \<Rightarrow> string \<Rightarrow> bool" where
  "is_public_path s p =
     (if \<not> cfg_admin_ui_enabled s then False
      else p \<in> set [cfg_admin_ui_path s @ ''/login'', cfg_admin_ui_path s @ ''/logout'']
           \<or> p = ''/static'' \<or> startswith p ''/static/'')"

definition under_ui :: "settings \<Rightarrow> string \<Rightarrow> bool" where
  "under_ui s p = (p = cfg_admin_ui_path s \<or> startswith p (cfg_admin_ui_path s @ ''/''))"

definition is_ui_path :: "settings \<Rightarrow> string \<Rightarrow> bool" where
  "is_ui_path s p = (if \<not> cfg_admin_ui_enabled s then False else under_ui s p)"

section \<open>Roles and scopes\<close>

definition session_roles :: "doc \<Rightarrow> string list" where
  "session_roles claims = (case vget claims ''roles'' of VList rs \<Rightarrow> scope_texts rs | _ \<Rightarrow> [])"

definition normalize_roles :: "pyval \<Rightarrow> string list" where
  "normalize_roles v = (case v of VList rs \<Rightarrow> scope_texts rs | VStr t \<Rightarrow> split_ws t | _ \<Rightarrow> [])"

definition normalize_scopes :: "pyval \<Rightarrow> string list" where
  "normalize_scopes v = (case v of VList rs \<Rightarrow> scope_texts rs | VStr t \<Rightarrow> split_ws t | _ \<Rightarrow> [])"

definition has_admin_role :: "settings \<Rightarrow> string list \<Rightarrow> bool" where
  "has_admin_role s roles = (cfg_platform_admin_role s \<in> set roles \<or> ''admin'' \<in> set roles)"

definition has_viewer_role :: "settings \<Rightarrow> string list \<Rightarrow> bool" where
  "has_viewer_role s roles = (cfg_platform_viewer_role s \<in> set roles)"

definition is_console_principal :: "settings \<Rightarrow> string list \<Rightarrow> bool" where
  "is_console_principal s roles = (has_admin_role s roles \<or> has_viewer_role s roles)"

definition is_read_only_principal :: "settings \<Rightarrow> string list \<Rightarrow> bool" where
  "is_read_only_principal s roles = (has_viewer_role s roles \<and> \<not> has_admin_role s roles)"

section \<open>Credentials on the request\<close>

definition header :: "http_request \<Rightarrow> string \<Rightarrow> string" where
  "header r name = opt_text (dget (rq_headers r) name)"

definition cookie :: "http_request \<Rightarrow> string \<Rightarrow> string" where
  "cookie r name = opt_text (dget (rq_cookies r) name)"

definition bearer_token :: "http_request \<Rightarrow> string option" where
  "bearer_token r =
     (let h = header r ''authorization''
      in if \<not> startswith h ''Bearer '' then None else Some (drop 7 h))"

definition basic_credentials :: "'k auth_env \<Rightarrow> http_request \<Rightarrow> (string \<times> string) option" where
  "basic_credentials env r =
     (let h = header r ''authorization''
      in if lower (take 6 h) \<noteq> ''basic '' then None
         else case b64_text env (strip (drop 6 h)) of
             None \<Rightarrow> None
           | Some d \<Rightarrow> (case partition_at CHR '':'' d of
                 (user, found, pw) \<Rightarrow> if found then Some (user, pw) else None))"

definition verified_session :: "'k auth_env \<Rightarrow> settings \<Rightarrow> string \<Rightarrow> doc option" where
  "verified_session env s token =
     verify_session (\<lambda>t key alg. case dec_hs env t key alg None None of Inl _ \<Rightarrow> None | Inr d \<Rightarrow> Some d) s token"

definition resolve_admin_session :: "'k auth_env \<Rightarrow> settings \<Rightarrow> http_request \<Rightarrow> doc option \<times> bool" where
  "resolve_admin_session env s r =
     (let from_bearer = (case bearer_token r of
            Some t \<Rightarrow> if t = [] then (None, False)
                      else (case verified_session env s t of Some c \<Rightarrow> (Some c, False) | None \<Rightarrow> (None, False))
          | None \<Rightarrow> (None, False))
      in if cookie r ''admin_session'' \<noteq> [] then
           (case verified_session env s (cookie r ''admin_session'') of
              Some c \<Rightarrow> (Some c, True) | None \<Rightarrow> from_bearer)
         else from_bearer)"

definition some_text :: "string option \<Rightarrow> string option" where
  "some_text t = (if opt_text t = [] then None else t)"

definition decode_claims ::
  "'k auth_env \<Rightarrow> settings \<Rightarrow> real \<Rightarrow> real \<Rightarrow> string \<Rightarrow> 'k jwks_state \<Rightarrow> (auth_exc + doc) \<times> 'k jwks_state" where
  "decode_claims env s t1 t2 token js =
     (let aud = some_text (cfg_jwt_audience s); iss = some_text (cfg_jwt_issuer s)
      in if cfg_auth_mode s = ''hs256'' then
           (dec_hs env token (cfg_jwt_secret s) (cfg_jwt_algorithm s) aud iss, js)
         else case resolve_signing_key (token_header env) (env_idp env) s t1 t2 token js of
             (Inl e, js') \<Rightarrow> (Inl e, js')
           | (Inr key, js') \<Rightarrow> (dec_rs env token key aud iss, js'))"

section \<open>Failure replies\<close>

definition oauth_metadata_enabled :: "settings \<Rightarrow> bool" where
  "oauth_metadata_enabled s = (cfg_oauth_metadata_enabled s \<or> cfg_auth_mode s = ''jwks'')"

definition challenge_headers :: "settings \<Rightarrow> http_request \<Rightarrow> (string \<times> string) list" where
  "challenge_headers s r =
     (if \<not> oauth_metadata_enabled s then []
      else [(''WWW-Authenticate'', ''Bearer resource_metadata='' @ CHR 0x22 # rstrip_char CHR ''/'' (rq_base_url r)
              @ ''/.well-known/oauth-protected-resource'' @ [CHR 0x22])])"

fun classify_auth_failure :: "auth_exc \<Rightarrow> string" where
  "classify_auth_failure JWKSUnavailableError = ''jwks_unavailable''"
| "classify_auth_failure ExpiredSignatureError = ''expired''"
| "classify_auth_failure InvalidSignatureError = ''bad_signature''"
| "classify_auth_failure InvalidAudienceError = ''bad_audience''"
| "classify_auth_failure InvalidIssuerError = ''bad_issuer''"
| "classify_auth_failure JwtDecodeError = ''malformed''"
| "classify_auth_failure InvalidTokenError = ''invalid_token''"
| "classify_auth_failure ValueErrorExc = ''unresolved_key''"
| "classify_auth_failure OtherException = ''unexpected''"

definition auth_failure_response :: "settings \<Rightarrow> http_request \<Rightarrow> auth_exc \<Rightarrow> reply" where
  "auth_failure_response s r e =
     (if classify_auth_failure e = ''jwks_unavailable''
      then Reply 503 ''Authentication temporarily unavailable.'' []
      else Reply 401 ''Invalid bearer token.'' (challenge_headers s r))"

section \<open>The authentication middleware\<close>

definition anonymous_state :: "settings \<Rightarrow> request_state" where
  "anonymous_state s =
     \<lparr>rs_tenant = VStr (cfg_default_tenant_id s), rs_user = VStr ''anonymous'', rs_roles = [], rs_scopes = [],
      rs_admin = False, rs_read_only = False, rs_via_cookie = False, rs_via_basic = False\<rparr>"

definition state_of_session :: "settings \<Rightarrow> doc \<Rightarrow> bool \<Rightarrow> request_state \<Rightarrow> request_state" where
  "state_of_session s claims via st =
     (let roles = session_roles claims
      in st\<lparr>rs_user := VStr (py_str (vget_or claims ''sub'' (VStr ''admin''))),
            rs_tenant := VStr (py_str (py_or (vget claims ''tenant_id'') (VStr (cfg_default_tenant_id s)))),
            rs_roles := roles, rs_scopes := [],
            rs_admin := is_console_principal s roles,
            rs_read_only := is_read_only_principal s roles,
            rs_via_cookie := via\<rparr>)"

definition state_of_basic :: "settings \<Rightarrow> principal \<Rightarrow> request_state \<Rightarrow> request_state" where
  "state_of_basic s p st =
     st\<lparr>rs_user := VStr (if pr_email p = [] then ''unknown-user'' else pr_email p),
        rs_tenant := VStr (if pr_tenant p = [] then cfg_default_tenant_id s else pr_tenant p),
        rs_roles := pr_roles p, rs_scopes := [],
        rs_admin := is_console_principal s (pr_roles p),
        rs_read_only := is_read_only_principal s (pr_roles p),
        rs_via_basic := True\<rparr>"

definition state_of_claims :: "settings \<Rightarrow> doc \<Rightarrow> request_state \<Rightarrow> request_state" where
  "state_of_claims s claims st =
     (let roles = normalize_roles (vget claims ''roles'');
          st1 = st\<lparr>rs_tenant := vget_or claims ''tenant_id'' (VStr (cfg_default_tenant_id s)),
                   rs_user := vget_or claims ''sub'' (VStr ''unknown-user''),
                   rs_roles := roles,
                   rs_scopes := normalize_scopes (py_or (py_or (vget claims ''groups'') (vget claims ''scopes'')) (VList []))\<rparr>
      in if is_console_principal s roles
         then st1\<lparr>rs_admin := True, rs_read_only := is_read_only_principal s roles\<rparr>
         else st1)"

text \<open>\<open>Inl\<close>: the middleware answers; \<open>Inr\<close>: the request goes on with this state.\<close>
definition bearer_stage ::
  "'k auth_env \<Rightarrow> settings \<Rightarrow> real \<Rightarrow> real \<Rightarrow> http_request \<Rightarrow> request_state \<Rightarrow> 'k jwks_state
   \<Rightarrow> (reply + request_state) \<times> 'k jwks_state" where
  "bearer_stage env s t1 t2 r st js =
     (if rs_admin st \<or> rs_via_basic st then (Inr st, js)
      else if is_observability_path (rq_path r) \<or> is_public_path s (rq_path r)
              \<or> is_auth_public_path (rq_path r) \<or> is_ui_path s (rq_path r)
      then (Inr st, js)
      else case bearer_token r of
          None \<Rightarrow> (Inl (Reply 401 ''Missing bearer token.'' (challenge_headers s r)), js)
        | Some token \<Rightarrow>
            (case decode_claims env s t1 t2 token js of
               (Inl e, js') \<Rightarrow> (Inl (auth_failure_response s r e), js')
             | (Inr claims, js') \<Rightarrow> (Inr (state_of_claims s claims st), js')))"

definition auth_middleware ::
  "'k auth_env \<Rightarrow> settings \<Rightarrow> real \<Rightarrow> real \<Rightarrow> http_request \<Rightarrow> 'k jwks_state
   \<Rightarrow> (reply + request_state) \<times> 'k jwks_state" where
  "auth_middleware env s t1 t2 r js =
     (let st0 = anonymous_state s;
          st1 = (case resolve_admin_session env s r of
                   (Some claims, via) \<Rightarrow> state_of_session s claims via st0
                 | (None, _) \<Rightarrow> st0)
      in if \<not> rs_admin st1 \<and> cfg_mcp_basic_auth_enabled s \<and> is_mcp_path (rq_path r) then
           (case basic_credentials env r of
              None \<Rightarrow> bearer_stage env s t1 t2 r st1 js
            | Some (user, pw) \<Rightarrow>
                (case resolve_login_principal (env_kdf env) s (env_users env) user pw of
                   None \<Rightarrow> (Inl (Reply 401 ''Invalid username or password.''
                              [(''WWW-Authenticate'', ''Basic realm='' @ CHR 0x22 # ''mcp'' @ [CHR 0x22])]), js)
                 | Some p \<Rightarrow> bearer_stage env s t1 t2 r (state_of_basic s p st1) js))
         else bearer_stage env s t1 t2 r st1 js)"

section \<open>The role middleware\<close>

definition is_data_plane :: "string \<Rightarrow> bool" where
  "is_data_plane p = (startswith p ''/rpc'' \<or> p = ''/mcp'' \<or> startswith p ''/mcp/'')"

definition public_ui_paths :: "settings \<Rightarrow> string list" where
  "public_ui_paths s = map (\<lambda>p. cfg_admin_ui_path s @ p) [''/login'', ''/logout'', ''/register'', ''/terms'', ''/privacy'']"

definition requires_admin_principal :: "settings \<Rightarrow> string \<Rightarrow> bool" where
  "requires_admin_principal s p =
     (if \<not> cfg_admin_ui_enabled s then startswith p ''/admin''
      else if startswith p ''/admin'' then True
      else if \<not> under_ui s p then False
      else p \<notin> set (public_ui_paths s))"

definition unsafe_method :: "http_request \<Rightarrow> bool" where
  "unsafe_method r = (upper (rq_method r) \<in> set [''POST'', ''PUT'', ''PATCH'', ''DELETE''])"

definition requires_csrf :: "http_request \<Rightarrow> request_state \<Rightarrow> bool" where
  "requires_csrf r st =
     (if \<not> startswith (rq_path r) ''/admin'' then False
      else if \<not> unsafe_method r then False
      else if \<not> rs_via_cookie st then False
      else if header r ''x-csrf-token'' = [] \<or> cookie r ''csrf_token'' = [] then True
      else header r ''x-csrf-token'' \<noteq> cookie r ''csrf_token'')"

definition principal_query :: "request_state \<Rightarrow> query" where
  "principal_query st = [(''tenant_id'', CEq (rs_tenant st)), (''user_id'', CEq (rs_user st))]"

text \<open>The coarse gate of both tool surfaces.\<close>
definition tool_surface_roles :: "string list" where
  "tool_surface_roles = [''admin'', ''tool:invoke'', ''tool:read'']"

definition not_active :: "doc option \<Rightarrow> bool" where
  "not_active session = (case session of
      Some d \<Rightarrow> py_str (vget_or d ''status'' (VStr ''active'')) \<noteq> ''active'' | None \<Rightarrow> False)"

text \<open>The roles mirrored in \<open>session_context\<close> are texts: its only writer stores cleaned texts.\<close>
definition mirrored_roles :: "doc option \<Rightarrow> string list" where
  "mirrored_roles session = (case session of
      Some d \<Rightarrow> (case vget d ''roles'' of VList rs \<Rightarrow> scope_texts rs | _ \<Rightarrow> []) | None \<Rightarrow> [])"

definition data_plane_gate :: "docs \<Rightarrow> request_state \<Rightarrow> reply + request_state" where
  "data_plane_gate sessions st =
     (let session = find_one (principal_query st) sessions;
          roles = sorted_set (rs_roles st @ mirrored_roles session)
      in if not_active session
         then Inl (Reply 403 ''Account suspended.'' [])
         else if \<not> list_ex (\<lambda>x. x \<in> set roles) tool_surface_roles
         then Inl (Reply 403 ''Insufficient permissions.'' [])
         else Inr (st\<lparr>rs_roles := roles\<rparr>))"

definition rbac_middleware :: "settings \<Rightarrow> docs \<Rightarrow> http_request \<Rightarrow> request_state \<Rightarrow> reply + request_state" where
  "rbac_middleware s sessions r st =
     (let p = rq_path r; adm = requires_admin_principal s p
      in if adm \<and> \<not> rs_admin st then
           Inl (if startswith p ''/admin'' then Reply 401 ''Admin authentication required.'' []
                else RedirectTo (cfg_admin_ui_path s @ ''/login''))
         else if adm \<and> startswith p ''/admin'' \<and> unsafe_method r \<and> rs_read_only st then
           Inl (Reply 403 ''Read-only access: mutations are disabled.'' [])
         else if adm \<and> requires_csrf r st then Inl (Reply 403 ''CSRF validation failed.'' [])
         else if is_data_plane p then data_plane_gate sessions st
         else Inr st)"

definition admit ::
  "'k auth_env \<Rightarrow> settings \<Rightarrow> real \<Rightarrow> real \<Rightarrow> docs \<Rightarrow> http_request \<Rightarrow> 'k jwks_state
   \<Rightarrow> (reply + request_state) \<times> 'k jwks_state" where
  "admit env s t1 t2 sessions r js =
     (case auth_middleware env s t1 t2 r js of
        (Inl a, js') \<Rightarrow> (Inl a, js')
      | (Inr st, js') \<Rightarrow> (rbac_middleware s sessions r st, js'))"

section \<open>What an admitted request has shown\<close>

text \<open>The identity behind a state: a verified console session, a password, or a verified bearer token.\<close>
definition presented_credential ::
  "'k auth_env \<Rightarrow> settings \<Rightarrow> real \<Rightarrow> real \<Rightarrow> http_request \<Rightarrow> 'k jwks_state \<Rightarrow> pyval \<Rightarrow> string list \<Rightarrow> bool" where
  "presented_credential env s t1 t2 r js user roles =
     ((\<exists>c via. resolve_admin_session env s r = (Some c, via) \<and> is_console_principal s (session_roles c)
         \<and> user = VStr (py_str (vget_or c ''sub'' (VStr ''admin''))) \<and> roles = session_roles c)
    \<or> (\<exists>u pw p. cfg_mcp_basic_auth_enabled s \<and> is_mcp_path (rq_path r) \<and> basic_credentials env r = Some (u, pw)
         \<and> resolve_login_principal (env_kdf env) s (env_users env) u pw = Some p
         \<and> user = VStr (if pr_email p = [] then ''unknown-user'' else pr_email p) \<and> roles = pr_roles p)
    \<or> (\<exists>token c. bearer_token r = Some token \<and> fst (decode_claims env s t1 t2 token js) = Inr c
         \<and> user = vget_or c ''sub'' (VStr ''unknown-user'') \<and> roles = normalize_roles (vget c ''roles'')))"

definition open_path :: "settings \<Rightarrow> string \<Rightarrow> bool" where
  "open_path s p = (is_observability_path p \<or> is_public_path s p \<or> is_auth_public_path p \<or> is_ui_path s p)"

definition consistent_flags :: "settings \<Rightarrow> request_state \<Rightarrow> bool" where
  "consistent_flags s st =
     ((rs_admin st \<longrightarrow> is_console_principal s (rs_roles st))
      \<and> (rs_admin st \<longrightarrow> rs_read_only st = is_read_only_principal s (rs_roles st)))"

lemma state_of_claims_simps [simp]:
  "rs_user (state_of_claims s c st) = vget_or c ''sub'' (VStr ''unknown-user'')"
  "rs_roles (state_of_claims s c st) = normalize_roles (vget c ''roles'')"
  "rs_via_cookie (state_of_claims s c st) = rs_via_cookie st"
  by (simp_all add: state_of_claims_def Let_def)

lemma state_of_claims_flags: "\<not> rs_admin st \<Longrightarrow> consistent_flags s (state_of_claims s c st)"
  by (simp add: state_of_claims_def consistent_flags_def Let_def)

lemma bearer_stage_cases:
  assumes "bearer_stage env s t1 t2 r st js = (Inr st', js')"
  obtains (kept) "st' = st" "rs_admin st \<or> rs_via_basic st"
  | (public) "st' = st" "\<not> rs_admin st" "\<not> rs_via_basic st" "open_path s (rq_path r)"
  | (bearer) token c where "\<not> rs_admin st" "bearer_token r = Some token"
      "fst (decode_claims env s t1 t2 token js) = Inr c" "st' = state_of_claims s c st"
proof (cases "rs_admin st \<or> rs_via_basic st")
  case True
  then show ?thesis using assms kept by (simp add: bearer_stage_def)
next
  case no: False
  show ?thesis
  proof (cases "open_path s (rq_path r)")
    case True
    then show ?thesis using assms no public by (simp add: bearer_stage_def open_path_def)
  next
    case False
    then obtain token where t: "bearer_token r = Some token"
      using assms no by (simp add: bearer_stage_def open_path_def split: option.splits)
    obtain x js1 where d: "decode_claims env s t1 t2 token js = (x, js1)" by fastforce
    then obtain c where c: "x = Inr c"
      using assms no False t by (cases x) (simp_all add: bearer_stage_def open_path_def)
    then have "st' = state_of_claims s c st"
      using assms no False t d by (simp add: bearer_stage_def open_path_def)
    then show ?thesis using bearer no t d c by simp
  qed
qed

text \<open>The three shapes of a state that leaves the authentication middleware.\<close>
lemma auth_middleware_cases:
  assumes "auth_middleware env s t1 t2 r js = (Inr st, js')"
  obtains (presented) "presented_credential env s t1 t2 r js (rs_user st) (rs_roles st)" "consistent_flags s st"
  | (public) "open_path s (rq_path r)" "\<not> rs_admin st"
proof -
  let ?st0 = "anonymous_state s"
  define st1 where "st1 = (case resolve_admin_session env s r of
      (Some claims, via) \<Rightarrow> state_of_session s claims via ?st0 | (None, _) \<Rightarrow> ?st0)"
  have basic0: "\<not> rs_via_basic st1"
    by (auto simp: st1_def anonymous_state_def state_of_session_def Let_def split: option.splits prod.splits)
  have adm1: "presented_credential env s t1 t2 r js (rs_user st1) (rs_roles st1) \<and> consistent_flags s st1" if "rs_admin st1"
  proof -
    have "\<exists>c via. resolve_admin_session env s r = (Some c, via) \<and> st1 = state_of_session s c via ?st0"
      using that by (auto simp: st1_def anonymous_state_def split: option.splits prod.splits)
    then obtain c via where "resolve_admin_session env s r = (Some c, via)" "st1 = state_of_session s c via ?st0" by blast
    then show ?thesis using that
      by (auto simp: presented_credential_def consistent_flags_def state_of_session_def Let_def)
  qed
  have run: "(presented_credential env s t1 t2 r js (rs_user st) (rs_roles st) \<and> consistent_flags s st)
      \<or> (open_path s (rq_path r) \<and> \<not> rs_admin st)"
    if b: "bearer_stage env s t1 t2 r st2 js = (Inr st, js')"
      and k: "rs_admin st2 \<or> rs_via_basic st2 \<Longrightarrow>
         presented_credential env s t1 t2 r js (rs_user st2) (rs_roles st2) \<and> consistent_flags s st2" for st2
    using b
  proof (cases rule: bearer_stage_cases)
    case (bearer token c)
    then have "presented_credential env s t1 t2 r js (rs_user st) (rs_roles st)"
      by (auto simp: presented_credential_def)
    then show ?thesis using bearer state_of_claims_flags by simp
  qed (use k in auto)
  have "(presented_credential env s t1 t2 r js (rs_user st) (rs_roles st) \<and> consistent_flags s st)
      \<or> (open_path s (rq_path r) \<and> \<not> rs_admin st)"
  proof (cases "\<not> rs_admin st1 \<and> cfg_mcp_basic_auth_enabled s \<and> is_mcp_path (rq_path r) \<and> basic_credentials env r \<noteq> None")
    case True
    then obtain u pw where bc: "basic_credentials env r = Some (u, pw)" by auto
    then obtain p where p: "resolve_login_principal (env_kdf env) s (env_users env) u pw = Some p"
      and b: "bearer_stage env s t1 t2 r (state_of_basic s p st1) js = (Inr st, js')"
      using assms True by (auto simp: auth_middleware_def st1_def [symmetric] Let_def split: option.splits)
    show ?thesis
      by (rule run [OF b]) (use True bc p in \<open>auto simp: presented_credential_def consistent_flags_def state_of_basic_def\<close>)
  next
    case False
    then have b: "bearer_stage env s t1 t2 r st1 js = (Inr st, js')"
      using assms by (auto simp: auth_middleware_def st1_def [symmetric] Let_def split: if_splits option.splits)
    show ?thesis by (rule run [OF b]) (use adm1 basic0 in auto)
  qed
  then show ?thesis using presented public by blast
qed

lemma data_plane_prefix:
  "is_data_plane p \<Longrightarrow> \<exists>t. p = ''/rpc'' @ t \<or> p = ''/mcp'' @ t"
  unfolding is_data_plane_def startswith_iff by (metis append.right_neutral append.assoc append_Cons append_Nil)

lemma data_plane_not_open:
  assumes "is_data_plane p" and "\<not> is_ui_path s p"
  shows "\<not> open_path s p"
proof -
  have "\<not> is_observability_path p \<and> \<not> is_auth_public_path p \<and> \<not> startswith p ''/static/'' \<and> p \<noteq> ''/static''"
    using data_plane_prefix [OF assms(1)]
    by (elim exE disjE) (simp_all add: is_observability_path_def is_auth_public_path_def startswith_def)
  moreover have "p \<noteq> cfg_admin_ui_path s @ ''/login'' \<and> p \<noteq> cfg_admin_ui_path s @ ''/logout''"
    if "cfg_admin_ui_enabled s"
    using assms(2) that by (auto simp: is_ui_path_def under_ui_def startswith_iff)
  ultimately show ?thesis using assms(2) by (simp add: open_path_def is_public_path_def)
qed

lemma data_plane_gate_passed:
  assumes "data_plane_gate sessions st = Inr st'"
  shows "rs_user st' = rs_user st \<and> rs_tenant st' = rs_tenant st
     \<and> set (rs_roles st') \<inter> set tool_surface_roles \<noteq> {}
     \<and> \<not> not_active (find_one (principal_query st) sessions)"
  using assms by (auto simp: data_plane_gate_def Let_def list_ex_iff split: if_splits)

text \<open>C9. Nobody reaches a tool surface anonymously: an admitted request to \<open>/rpc\<close> or \<open>/mcp\<close> presented a
  credential the gateway verified and that names its user, that user's account is not suspended,
  and it holds one of the three tool roles.\<close>
theorem tool_surface_needs_credential:
  assumes "admit env s t1 t2 sessions r js = (Inr st, js')" and "is_data_plane (rq_path r)"
    and "\<not> is_ui_path s (rq_path r)"
  shows "(\<exists>roles. presented_credential env s t1 t2 r js (rs_user st) roles)
     \<and> set (rs_roles st) \<inter> set tool_surface_roles \<noteq> {}
     \<and> \<not> not_active (find_one (principal_query st) sessions)"
proof -
  obtain st0 where a: "auth_middleware env s t1 t2 r js = (Inr st0, js')" and b: "rbac_middleware s sessions r st0 = Inr st"
    using assms(1) by (auto simp: admit_def split: prod.splits sum.splits)
  from a have "\<exists>roles. presented_credential env s t1 t2 r js (rs_user st0) roles"
    by (cases rule: auth_middleware_cases) (use assms data_plane_not_open in auto)
  moreover have "data_plane_gate sessions st0 = Inr st"
    using b assms(2) by (auto simp: rbac_middleware_def Let_def split: if_splits)
  moreover from this have "principal_query st = principal_query st0"
    using data_plane_gate_passed by (simp add: principal_query_def)
  ultimately show ?thesis using data_plane_gate_passed by metis
qed

lemma no_admin_on_open_path: "startswith p ''/admin'' \<Longrightarrow> \<not> is_mcp_path p \<and> \<not> is_data_plane p"
  by (auto simp: is_mcp_path_def is_data_plane_def startswith_iff)


section \<open>Suspended and deleted accounts\<close>

lemma find_after_upsert:
  assumes "\<And>d. matches d q \<Longrightarrow> matches (apply_update u d) q" and "matches (apply_update u (upsert_seed q)) q"
  shows "\<exists>d. find_one q (fst (update_one q u True ds)) = Some (apply_update u d)"
proof (cases "find_one q ds")
  case None
  then show ?thesis using assms(2)
    by (auto simp: update_one_def find_one_and_update_def find_one_append Let_def)
next
  case (Some d)
  then show ?thesis using assms(1) find_one_SomeD [OF Some] find_one_on_first_same [OF Some, of "apply_update u"]
    by (auto simp: update_one_def fou_hit)
qed

lemma synced_session:
  assumes "text_field user ''tenant_id'' = tid" "text_field user ''email'' = uid" "tid \<noteq> []" "uid \<noteq> []"
    and "py_str (vget_or user ''status'' (VStr ''active'')) = st" "st \<noteq> []"
  shows "\<exists>d. find_one (session_query tid uid) (sync_session_context now user sessions) = Some d
             \<and> vget_or d ''status'' (VStr ''active'') = VStr st"
proof -
  define u where "u = set_fields [(''tenant_id'', VStr tid), (''user_id'', VStr uid),
      (''roles'', VList (map VStr (clean_str_list (vget user ''roles'')))),
      (''scopes'', VList (map VStr (clean_str_list (vget user ''scopes'')))),
      (''status'', VStr st), (''updated_at'', VTime now)]"
  have m: "matches (apply_update u d) (session_query tid uid)" for d
    by (simp add: u_def session_query_def resolve_plain)
  obtain d where "find_one (session_query tid uid) (fst (update_one (session_query tid uid) u True sessions))
      = Some (apply_update u d)"
    using find_after_upsert [of "session_query tid uid" u sessions] m by blast
  moreover have "vget_or (apply_update u d) ''status'' (VStr ''active'') = VStr st" by (simp add: u_def)
  moreover have "sync_session_context now user sessions = fst (update_one (session_query tid uid) u True sessions)"
    using assms by (simp add: sync_session_context_def u_def Let_def)
  ultimately show ?thesis by metis
qed

text \<open>Suspending a user takes effect on the next request: once the account's status is mirrored,
  no request on a tool surface is admitted in that user's name, whatever credential it carries.\<close>
theorem suspension_cuts_off:
  assumes "text_field user ''tenant_id'' = tid" and "text_field user ''email'' = uid" and "tid \<noteq> []" and "uid \<noteq> []"
    and "py_str (vget_or user ''status'' (VStr ''active'')) = status" and "status \<notin> {[], ''active''}"
    and "is_data_plane (rq_path r)"
    and "admit env s t1 t2 (sync_session_context now user sessions) r js = (Inr st, js')"
  shows "\<not> (rs_tenant st = VStr tid \<and> rs_user st = VStr uid)"
proof
  assume id: "rs_tenant st = VStr tid \<and> rs_user st = VStr uid"
  obtain st0 where b: "rbac_middleware s (sync_session_context now user sessions) r st0 = Inr st"
    using assms(8) by (auto simp: admit_def split: prod.splits sum.splits)
  then have g: "data_plane_gate (sync_session_context now user sessions) st0 = Inr st"
    using assms(7) by (auto simp: rbac_middleware_def Let_def split: if_splits)
  from data_plane_gate_passed [OF g] id
  have "principal_query st0 = session_query tid uid" by (simp add: principal_query_def session_query_def)
  then show False
    using data_plane_gate_passed [OF g] synced_session [OF assms(1-5), of now sessions] assms(6)
    by (auto simp: not_active_def)
qed

lemma drop_only_match:
  assumes "length (filter p ds) \<le> 1"
  shows "\<forall>d\<in>set (drop_first p ds). \<not> p d"
  using assms by (induction ds) (auto simp: filter_empty_conv split: if_splits)

text \<open>Deleting a user does not: it removes the mirrored session document, and a standing token of
  the deleted account then passes the gate with the roles it carries.\<close>
theorem deleted_user_keeps_access:
  assumes "find_one (key_query ''_id'' i) users = Some d"
    and "text_field d ''tenant_id'' = tid" and "text_field d ''email'' = uid" and "tid \<noteq> []" and "uid \<noteq> []"
    and "length (filter (\<lambda>x. matches x (session_query tid uid)) sessions) \<le> 1"
    and "rs_tenant st = VStr tid" and "rs_user st = VStr uid" and "set (rs_roles st) \<inter> set tool_surface_roles \<noteq> {}"
  shows "data_plane_gate (snd (snd (delete_user i users sessions))) st
     = Inr (st\<lparr>rs_roles := sorted_set (rs_roles st)\<rparr>)"
proof -
  have "principal_query st = session_query tid uid" using assms(7,8) by (simp add: principal_query_def session_query_def)
  moreover have "find_one (session_query tid uid) (snd (snd (delete_user i users sessions))) = None"
    using drop_only_match [OF assms(6)] assms(1-5)
    by (simp add: delete_user_def clear_session_context_def delete_one_def find_one_None_iff)
  ultimately show ?thesis using assms(9)
    by (auto simp: data_plane_gate_def not_active_def mirrored_roles_def list_ex_iff Let_def)
qed

section \<open>Concrete requests\<close>

definition demo_tokens :: "string \<Rightarrow> string \<Rightarrow> string \<Rightarrow> string option \<Rightarrow> string option \<Rightarrow> auth_exc + doc" where
  "demo_tokens t key alg aud iss =
     (if key \<noteq> ''dev-secret'' then Inl InvalidSignatureError
      else if t = ''ann'' then Inr [(''sub'', VStr ''ann''), (''tenant_id'', VStr ''acme''), (''roles'', VList [VStr ''tool:invoke''])]
      else if t = ''root'' then Inr [(''sub'', VStr ''root''), (''kind'', VStr ''admin_session''), (''roles'', VList [VStr ''admin''])]
      else Inl JwtDecodeError)"

definition demo_env :: "nat auth_env" where
  "demo_env = \<lparr>dec_hs = demo_tokens, dec_rs = (\<lambda>_ _ _ _. Inl JwtDecodeError), token_header = (\<lambda>_. Inl JwtDecodeError),
     b64_text = (\<lambda>_. None), env_kdf = demo_kdf, env_users = Some [], env_idp = demo_idp\<rparr>"

definition demo_call :: http_request where
  "demo_call = \<lparr>rq_path = ''/rpc'', rq_method = ''POST'', rq_headers = [(''authorization'', ''Bearer ann'')],
     rq_cookies = [], rq_base_url = ''http://gw/''\<rparr>"

definition demo_write :: http_request where
  "demo_write = \<lparr>rq_path = ''/admin/users'', rq_method = ''POST'', rq_headers = [(''x-csrf-token'', ''c7'')],
     rq_cookies = [(''admin_session'', ''root''), (''csrf_token'', ''c7'')], rq_base_url = ''http://gw/''\<rparr>"

lemmas demo_gate = demo_env_def demo_tokens_def demo_call_def demo_write_def header_def cookie_def opt_text_def
  startswith_def bearer_token_def verified_session_def verify_session_def session_secret_def

lemma demo_call_session: "resolve_admin_session demo_env default_settings demo_call = (None, False)"
  by (simp add: resolve_admin_session_def demo_gate default_settings_def)

lemma demo_call_path: "is_mcp_path (rq_path demo_call)" "\<not> open_path default_settings (rq_path demo_call)"
    "is_data_plane (rq_path demo_call)" "\<not> is_ui_path default_settings (rq_path demo_call)"
    "\<not> requires_admin_principal default_settings (rq_path demo_call)"
  by (simp_all add: demo_call_def is_mcp_path_def open_path_def is_observability_path_def is_public_path_def
      is_auth_public_path_def is_ui_path_def under_ui_def is_data_plane_def requires_admin_principal_def startswith_def
      default_settings_def)

lemma demo_call_admitted:
  assumes "\<forall>d\<in>set sessions. vget d ''user_id'' \<noteq> VStr ''ann''"
  shows "\<exists>st. fst (admit demo_env default_settings 0 0 sessions demo_call fresh_resolver) = Inr st"
proof -
  let ?st = "state_of_claims default_settings
     [(''sub'', VStr ''ann''), (''tenant_id'', VStr ''acme''), (''roles'', VList [VStr ''tool:invoke''])] (anonymous_state default_settings)"
  have d: "decode_claims demo_env default_settings 0 0 ''ann'' fresh_resolver = (Inr
     [(''sub'', VStr ''ann''), (''tenant_id'', VStr ''acme''), (''roles'', VList [VStr ''tool:invoke''])], fresh_resolver)"
    by (simp add: decode_claims_def demo_env_def demo_tokens_def default_settings_def Let_def)
  have t: "bearer_token demo_call = Some ''ann''" by (simp add: demo_gate)
  have b: "basic_credentials demo_env demo_call = None"
    by (simp add: basic_credentials_def demo_gate lower_def lower_char_def is_upper_def)
  have "auth_middleware demo_env default_settings 0 0 demo_call fresh_resolver = (Inr ?st, fresh_resolver)"
    using demo_call_path(2) unfolding auth_middleware_def demo_call_session b open_path_def
    by (simp add: bearer_stage_def t d anonymous_state_def Let_def)
  moreover have "find_one (principal_query ?st) sessions = None"
    using assms by (simp add: find_one_None_iff principal_query_def resolve_plain)
  then have "data_plane_gate sessions ?st = Inr (?st\<lparr>rs_roles := [''tool:invoke'']\<rparr>)"
    by (simp add: data_plane_gate_def not_active_def mirrored_roles_def normalize_roles_def scope_texts_def
        map_filter_simps tool_surface_roles_def sorted_set_def Let_def)
  ultimately show ?thesis using demo_call_path by (simp add: admit_def rbac_middleware_def Let_def)
qed

lemma tool_surface_needs_credential_witness:
  "\<exists>(st :: request_state) roles. presented_credential demo_env default_settings 0 0 demo_call fresh_resolver (rs_user st) roles
     \<and> set (rs_roles st) \<inter> set tool_surface_roles \<noteq> {}"
proof -
  obtain st js' where "admit demo_env default_settings 0 0 [] demo_call fresh_resolver = (Inr st, js')"
    using demo_call_admitted [of "[]"] by (metis empty_iff list.set(1) prod.collapse)
  from tool_surface_needs_credential [OF this demo_call_path(3,4)] show ?thesis by blast
qed

lemma demo_write_admitted: "\<exists>st. fst (admit demo_env default_settings 0 0 [] demo_write fresh_resolver) = Inr st"
proof -
  let ?c = "[(''sub'', VStr ''root''), (''kind'', VStr ''admin_session''), (''roles'', VList [VStr ''admin''])]"
  let ?st = "state_of_session default_settings ?c True (anonymous_state default_settings)"
  have v: "resolve_admin_session demo_env default_settings demo_write = (Some ?c, True)"
    by (simp add: resolve_admin_session_def demo_gate default_settings_def Let_def)
  have adm: "rs_admin ?st" "\<not> rs_read_only ?st"
    by (simp_all add: state_of_session_def session_roles_def scope_texts_def map_filter_simps is_console_principal_def
        is_read_only_principal_def has_admin_role_def Let_def)
  then have "auth_middleware demo_env default_settings 0 0 demo_write fresh_resolver = (Inr ?st, fresh_resolver)"
    unfolding auth_middleware_def v by (simp add: bearer_stage_def Let_def)
  moreover have "\<not> requires_csrf demo_write ?st" by (simp add: requires_csrf_def demo_gate)
  moreover have "\<not> is_data_plane (rq_path demo_write)" by (simp add: is_data_plane_def demo_gate)
  ultimately show ?thesis using adm by (simp add: admit_def rbac_middleware_def Let_def)
qed



definition demo_user :: doc where
  "demo_user = [(''_id'', VStr ''u1''), (''email'', VStr ''ann''), (''tenant_id'', VStr ''acme''), (''roles'', VList []),
     (''scopes'', VList []), (''status'', VStr ''suspended'')]"

definition demo_other_user :: doc where
  "demo_other_user = [(''_id'', VStr ''u2''), (''email'', VStr ''bob''), (''tenant_id'', VStr ''acme''), (''roles'', VList []),
     (''scopes'', VList []), (''status'', VStr ''suspended'')]"

lemma bob_session:
  "\<exists>d. sync_session_context 5 demo_other_user [] = [d] \<and> vget d ''user_id'' = VStr ''bob''"
  by (simp add: sync_session_context_def demo_other_user_def text_field_def update_one_def find_one_and_update_def Let_def)

lemma suspension_cuts_off_witness:
  "\<exists>st :: request_state. \<not> (rs_tenant st = VStr ''acme'' \<and> rs_user st = VStr ''bob'')
     \<and> fst (admit demo_env default_settings 0 0 (sync_session_context 5 demo_other_user []) demo_call fresh_resolver) = Inr st"
proof -
  let ?ss = "sync_session_context 5 demo_other_user []"
  have "\<forall>d\<in>set ?ss. vget d ''user_id'' \<noteq> VStr ''ann''" using bob_session by auto
  then obtain st js' where a: "admit demo_env default_settings 0 0 ?ss demo_call fresh_resolver = (Inr st, js')"
    using demo_call_admitted by (metis prod.collapse)
  have t: "text_field demo_other_user ''tenant_id'' = ''acme''" "text_field demo_other_user ''email'' = ''bob''"
    "py_str (vget_or demo_other_user ''status'' (VStr ''active'')) = ''suspended''"
    by (simp_all add: demo_other_user_def text_field_def)
  have "\<not> (rs_tenant st = VStr ''acme'' \<and> rs_user st = VStr ''bob'')"
    by (rule suspension_cuts_off [OF t(1,2) _ _ t(3) _ demo_call_path(3) a]) simp_all
  then show ?thesis using a by auto
qed

lemma deleted_user_keeps_access_witness:
  "data_plane_gate (snd (snd (delete_user ''u1'' [demo_user] (sync_session_context 5 demo_user []))))
     \<lparr>rs_tenant = VStr ''acme'', rs_user = VStr ''ann'', rs_roles = [''tool:invoke''], rs_scopes = [],
      rs_admin = False, rs_read_only = False, rs_via_cookie = False, rs_via_basic = False\<rparr>
   = Inr \<lparr>rs_tenant = VStr ''acme'', rs_user = VStr ''ann'', rs_roles = sorted_set [''tool:invoke''], rs_scopes = [],
      rs_admin = False, rs_read_only = False, rs_via_cookie = False, rs_via_basic = False\<rparr>"
proof -
  have one: "length (filter p (sync_session_context 5 demo_user [])) \<le> 1" for p
    by (simp add: sync_session_context_def demo_user_def text_field_def update_one_def find_one_and_update_def Let_def)
  have t: "text_field demo_user ''tenant_id'' = ''acme''" "text_field demo_user ''email'' = ''ann''"
    "find_one (key_query ''_id'' ''u1'') [demo_user] = Some demo_user"
    by (simp_all add: demo_user_def text_field_def)
  show ?thesis
    by (rule deleted_user_keeps_access [OF t(3,1,2) _ _ one, THEN trans]) (simp_all add: tool_surface_roles_def)
qed

end
