(* ===== verification/PendingActions.thy ===== *)
theory PendingActions
  imports DocStore
begin

text \<open>\<open>services/pending_actions.py\<close>: the confirmation workflow of destructive tools.  An action
  is created pending, decided by somebody else, and consumed once by the retried call.  The
  operations act on the tenant's \<open>pending_actions\<close> collection; the fingerprint of the
  arguments (canonical JSON, then SHA-256) is a parameter \<open>fp\<close>, the fresh identifier
  (\<open>uuid4\<close>) and the clock are arguments.\<close>

definition PENDING :: string where "PENDING = ''pending''"
definition APPROVED :: string where "APPROVED = ''approved''"
definition REJECTED :: string where "REJECTED = ''rejected''"
definition CONSUMED :: string where "CONSUMED = ''consumed''"

datatype consume_outcome = ConsumeOk | ConsumeNotFound | ConsumeNotApproved | ConsumeMismatch
  | ConsumeExpired | AlreadyConsumed

datatype decision_outcome = DecisionOk | DecisionNotFound | NotPending | SelfApprovalForbidden
  | DecisionExpired

definition create_pending_action ::
  "(doc \<Rightarrow> string) \<Rightarrow> real \<Rightarrow> string \<Rightarrow> string \<Rightarrow> string \<Rightarrow> string \<Rightarrow> string \<Rightarrow> doc \<Rightarrow> string option
   \<Rightarrow> int \<Rightarrow> docs \<Rightarrow> doc \<times> docs" where
  "create_pending_action fp now fresh tid user server tool args atype ttl ds =
     (let d = [(''_id'', VStr fresh),
               (''tenant_id'', VStr tid),
               (''user_id'', VStr user),
               (''server'', VStr server),
               (''tool'', VStr tool),
               (''arguments'', VDict args),
               (''args_fingerprint'', VStr (fp args)),
               (''action_type'', VStr (case atype of Some t \<Rightarrow> if t = [] then ''destructive'' else t
                                       | None \<Rightarrow> ''destructive'')),
               (''status'', VStr PENDING),
               (''created_at'', VTime now),
               (''expires_at'', VTime (now + of_int (max 1 ttl)))]
      in (d, insert_one d ds))"

definition is_expired :: "doc \<Rightarrow> real \<Rightarrow> bool" where
  "is_expired raw now = (case vget raw ''expires_at'' of VTime t \<Rightarrow> t \<le> now | _ \<Rightarrow> False)"

definition str_field :: "doc \<Rightarrow> string \<Rightarrow> string" where
  "str_field raw f = py_str (vget_or raw f (VStr []))"

definition action_query :: "string \<Rightarrow> string \<Rightarrow> query" where
  "action_query aid tid = [(''_id'', CEq (VStr aid)), (''tenant_id'', CEq (VStr tid))]"

definition consume_query ::
  "real \<Rightarrow> string \<Rightarrow> string \<Rightarrow> string \<Rightarrow> string \<Rightarrow> string \<Rightarrow> string \<Rightarrow> query" where
  "consume_query now tid aid user server tool fprint =
     [(''_id'', CEq (VStr aid)),
      (''tenant_id'', CEq (VStr tid)),
      (''user_id'', CEq (VStr user)),
      (''server'', CEq (VStr server)),
      (''tool'', CEq (VStr tool)),
      (''args_fingerprint'', CEq (VStr fprint)),
      (''status'', CEq (VStr APPROVED)),
      (''expires_at'', COps [QGt (VTime now)])]"

definition consume_approved_action ::
  "(doc \<Rightarrow> string) \<Rightarrow> real \<Rightarrow> string \<Rightarrow> string \<Rightarrow> string \<Rightarrow> string \<Rightarrow> string \<Rightarrow> doc \<Rightarrow> docs
   \<Rightarrow> (consume_outcome \<times> doc option) \<times> docs" where
  "consume_approved_action fp now tid aid user server tool args ds =
     (let fprint = fp args
      in case find_one_and_update (consume_query now tid aid user server tool fprint)
                (set_fields [(''status'', VStr CONSUMED), (''consumed_at'', VTime now)]) False ds of
           (Some d, ds') \<Rightarrow> ((ConsumeOk, Some d), ds')
         | (None, ds') \<Rightarrow>
             (case find_one (action_query aid tid) ds' of
                None \<Rightarrow> (ConsumeNotFound, None)
              | Some raw \<Rightarrow>
                  (if is_expired raw now then ConsumeExpired
                   else if str_field raw ''status'' = CONSUMED then AlreadyConsumed
                   else if str_field raw ''status'' \<noteq> APPROVED then ConsumeNotApproved
                   else if str_field raw ''user_id'' \<noteq> user \<or> str_field raw ''server'' \<noteq> server
                           \<or> str_field raw ''tool'' \<noteq> tool \<or> str_field raw ''args_fingerprint'' \<noteq> fprint
                   then ConsumeMismatch
                   else ConsumeNotApproved, Some raw), ds'))"

definition decide_query :: "real \<Rightarrow> string \<Rightarrow> string \<Rightarrow> string \<Rightarrow> query" where
  "decide_query now tid aid approver =
     [(''_id'', CEq (VStr aid)),
      (''tenant_id'', CEq (VStr tid)),
      (''status'', CEq (VStr PENDING)),
      (''expires_at'', COps [QGt (VTime now)]),
      (''user_id'', COps [QNe (VStr approver)])]"

definition decide_action ::
  "real \<Rightarrow> string \<Rightarrow> string \<Rightarrow> string \<Rightarrow> string \<Rightarrow> docs \<Rightarrow> (decision_outcome \<times> doc option) \<times> docs" where
  "decide_action now tid aid approver new_status ds =
     (case find_one_and_update (decide_query now tid aid approver)
             (set_fields [(''status'', VStr new_status), (''decided_at'', VTime now), (''decided_by'', VStr approver)])
             False ds of
        (Some d, ds') \<Rightarrow> ((DecisionOk, Some d), ds')
      | (None, ds') \<Rightarrow>
          (case find_one (action_query aid tid) ds' of
             None \<Rightarrow> (DecisionNotFound, None)
           | Some raw \<Rightarrow>
               (if str_field raw ''user_id'' = approver then SelfApprovalForbidden
                else if is_expired raw now then DecisionExpired
                else NotPending, Some raw), ds'))"

definition approve_action ::
  "real \<Rightarrow> string \<Rightarrow> string \<Rightarrow> string \<Rightarrow> docs \<Rightarrow> (decision_outcome \<times> doc option) \<times> docs" where
  "approve_action now tid aid approver ds = decide_action now tid aid approver APPROVED ds"

definition reject_action ::
  "real \<Rightarrow> string \<Rightarrow> string \<Rightarrow> string \<Rightarrow> docs \<Rightarrow> (decision_outcome \<times> doc option) \<times> docs" where
  "reject_action now tid aid approver ds = decide_action now tid aid approver REJECTED ds"

definition get_action :: "string \<Rightarrow> string \<Rightarrow> docs \<Rightarrow> doc option" where
  "get_action tid aid ds = find_one (action_query aid tid) ds"

definition created_key :: "doc \<Rightarrow> real option" where
  "created_key d = (case vget d ''created_at'' of VTime t \<Rightarrow> Some t | _ \<Rightarrow> None)"

text \<open>Newest first; a missing time is the smallest.  Python's reversed stable sort keeps the
  order of equal keys.\<close>
definition newer :: "real option \<Rightarrow> real option \<Rightarrow> bool" where
  "newer a b = (case (a, b) of (Some x, Some y) \<Rightarrow> x > y | (Some _, None) \<Rightarrow> True | _ \<Rightarrow> False)"

fun insert_newest :: "doc \<Rightarrow> docs \<Rightarrow> docs" where
  "insert_newest d [] = [d]"
| "insert_newest d (e # es) = (if newer (created_key e) (created_key d) then e # insert_newest d es else d # e # es)"

definition newest_first :: "docs \<Rightarrow> docs" where
  "newest_first ds = foldr insert_newest ds []"

definition list_pending_actions :: "string \<Rightarrow> string \<Rightarrow> int \<Rightarrow> docs \<Rightarrow> docs" where
  "list_pending_actions tid status cap ds =
     (let q = (''tenant_id'', CEq (VStr tid)) # (if status = [] then [] else [(''status'', CEq (VStr status))])
      in newest_first (take (nat (max 1 cap)) (find_docs q ds)))"

section \<open>The workflow as a state machine\<close>

text \<open>What happened, newest first: the action and who acted.\<close>
datatype act_event = EvCreate string string | EvApprove string string | EvReject string string
  | EvConsume string string

inductive workflow :: "(doc \<Rightarrow> string) \<Rightarrow> string \<Rightarrow> act_event list \<Rightarrow> docs \<Rightarrow> bool"
  for fp :: "doc \<Rightarrow> string" and tid :: string where
  start: "workflow fp tid [] []"
| create: "\<lbrakk>workflow fp tid es ds; find_one (key_query ''_id'' aid) ds = None;
      create_pending_action fp now aid tid user server tool args atype ttl ds = (d, ds')\<rbrakk>
    \<Longrightarrow> workflow fp tid (EvCreate aid user # es) ds'"
| approve: "\<lbrakk>workflow fp tid es ds; approve_action now tid aid who ds = ((DecisionOk, r), ds')\<rbrakk>
    \<Longrightarrow> workflow fp tid (EvApprove aid who # es) ds'"
| reject: "\<lbrakk>workflow fp tid es ds; reject_action now tid aid who ds = ((DecisionOk, r), ds')\<rbrakk>
    \<Longrightarrow> workflow fp tid (EvReject aid who # es) ds'"
| consume: "\<lbrakk>workflow fp tid es ds;
      consume_approved_action fp now tid aid user server tool args ds = ((ConsumeOk, r), ds')\<rbrakk>
    \<Longrightarrow> workflow fp tid (EvConsume aid user # es) ds'"
| refused: "\<lbrakk>workflow fp tid es ds;
      consume_approved_action fp now tid aid user server tool args ds = ((out, r), ds'); out \<noteq> ConsumeOk\<rbrakk>
    \<Longrightarrow> workflow fp tid es ds'"

inductive_cases workflow_start_cases: "workflow fp tid [] ds"

text \<open>The events of one action, and the status and owner they imply.\<close>
fun event_id :: "act_event \<Rightarrow> string" where
  "event_id (EvCreate a u) = a" | "event_id (EvApprove a u) = a"
| "event_id (EvReject a u) = a" | "event_id (EvConsume a u) = a"

definition history :: "string \<Rightarrow> act_event list \<Rightarrow> act_event list" where
  "history aid es = filter (\<lambda>e. event_id e = aid) es"

text \<open>The histories an action can have: created by its owner, decided by somebody else,
  consumed once by the owner after an approval.\<close>
fun lawful :: "string \<Rightarrow> act_event list \<Rightarrow> string \<Rightarrow> string \<Rightarrow> bool" where
  "lawful aid [EvCreate a u] st owner = (a = aid \<and> st = PENDING \<and> owner = u)"
| "lawful aid [EvApprove b w, EvCreate a u] st owner = (a = aid \<and> b = aid \<and> st = APPROVED \<and> owner = u \<and> w \<noteq> u)"
| "lawful aid [EvReject b w, EvCreate a u] st owner = (a = aid \<and> b = aid \<and> st = REJECTED \<and> owner = u \<and> w \<noteq> u)"
| "lawful aid [EvConsume c v, EvApprove b w, EvCreate a u] st owner =
     (a = aid \<and> b = aid \<and> c = aid \<and> st = CONSUMED \<and> owner = u \<and> v = u \<and> w \<noteq> u)"
| "lawful aid _ st owner = False"

section \<open>Invariant of the workflow\<close>

lemmas action_status = PENDING_def APPROVED_def REJECTED_def CONSUMED_def

lemma lawful_pending: "lawful aid h PENDING u \<Longrightarrow> h = [EvCreate aid u]"
  by (cases "(aid, h, PENDING, u)" rule: lawful.cases) (auto simp: action_status)

lemma lawful_approved: "lawful aid h APPROVED u \<Longrightarrow> \<exists>w. w \<noteq> u \<and> h = [EvApprove aid w, EvCreate aid u]"
  by (cases "(aid, h, APPROVED, u)" rule: lawful.cases) (auto simp: action_status)

lemma history_Cons [simp]: "history aid (e # es) = (if event_id e = aid then e # history aid es else history aid es)"
  by (simp add: history_def)

lemma id_plain [simp]: "CHR ''.'' \<notin> set ''_id''"
  by simp

definition action_ok :: "string \<Rightarrow> act_event list \<Rightarrow> docs \<Rightarrow> string \<Rightarrow> bool" where
  "action_ok tid es ds aid =
     (case find_one (key_query ''_id'' aid) ds of
        None \<Rightarrow> history aid es = []
      | Some d \<Rightarrow> \<exists>st owner. vget d ''status'' = VStr st \<and> vget d ''user_id'' = VStr owner
                  \<and> lawful aid (history aid es) st owner)"

lemma find_key_insert:
  "find_one (key_query ''_id'' j) (insert_one d ds) =
   (case find_one (key_query ''_id'' j) ds of Some e \<Rightarrow> Some e
    | None \<Rightarrow> if vget d ''_id'' = VStr j then Some d else None)"
  by (auto simp: insert_one_def find_one_append split: option.splits)

lemma action_ok_create:
  assumes "\<And>j. action_ok tid es ds j" and "find_one (key_query ''_id'' aid) ds = None"
    and "create_pending_action fp now aid tid user server tool args atype ttl ds = (d, ds')"
  shows "action_ok tid (EvCreate aid user # es) ds' j"
proof -
  have ds': "ds' = insert_one d ds" and d: "vget d ''_id'' = VStr aid" "vget d ''status'' = VStr PENDING"
    "vget d ''user_id'' = VStr user"
    using assms(3) by (auto simp: create_pending_action_def Let_def)
  show ?thesis
  proof (cases "j = aid")
    case True
    then have "history aid es = []" using assms(1) [of aid] assms(2) by (simp add: action_ok_def)
    then show ?thesis using True assms(2) d by (simp add: action_ok_def ds' find_key_insert)
  next
    case False
    then show ?thesis using assms(1) [of j] d by (auto simp: action_ok_def ds' find_key_insert split: option.splits)
  qed
qed

lemma distinct_create:
  assumes "distinct_keys ''_id'' ds" "find_one (key_query ''_id'' aid) ds = None"
    and "create_pending_action fp now aid tid user server tool args atype ttl ds = (d, ds')"
  shows "distinct_keys ''_id'' ds'"
proof -
  have ds': "ds' = ds @ [d]" and d: "vget d ''_id'' = VStr aid"
    using assms(3) by (auto simp: create_pending_action_def insert_one_def Let_def)
  have "\<forall>e\<in>set ds. vget e ''_id'' \<noteq> VStr aid" using assms(2) by (simp add: find_one_None_iff)
  then show ?thesis using assms(1) d by (auto simp: ds' distinct_keys_def)
qed

lemma decide_effect:
  assumes "distinct_keys ''_id'' ds" "decide_action now tid aid who new ds = ((DecisionOk, r), ds')"
  shows "distinct_keys ''_id'' ds'"
    and "\<exists>d d'. find_one (key_query ''_id'' aid) ds = Some d \<and> find_one (key_query ''_id'' aid) ds' = Some d'
      \<and> vget d ''status'' = VStr PENDING \<and> vget d ''user_id'' \<noteq> VStr who \<and> \<not> is_expired d now
      \<and> vget d' ''status'' = VStr new \<and> vget d' ''user_id'' = vget d ''user_id''"
    and "j \<noteq> aid \<Longrightarrow> find_one (key_query ''_id'' j) ds' = find_one (key_query ''_id'' j) ds"
proof -
  let ?u = "set_fields [(''status'', VStr new), (''decided_at'', VTime now), (''decided_by'', VStr who)]"
  have un: "untouched ''_id'' ?u" by (simp add: untouched_def)
  obtain r' where f: "find_one_and_update (decide_query now tid aid who) ?u False ds = (r', ds')" "r' \<noteq> None"
    using assms(2) by (auto simp: decide_action_def split: prod.splits option.splits if_splits)
  note k = keyed_update [OF assms(1) id_plain un f(1) [unfolded decide_query_def]]
  show "distinct_keys ''_id'' ds'" by (rule k(1))
  show "j \<noteq> aid \<Longrightarrow> find_one (key_query ''_id'' j) ds' = find_one (key_query ''_id'' j) ds" by (rule k(4))
  from k(2) [OF f(2)] show "\<exists>d d'. find_one (key_query ''_id'' aid) ds = Some d \<and> find_one (key_query ''_id'' aid) ds' = Some d'
      \<and> vget d ''status'' = VStr PENDING \<and> vget d ''user_id'' \<noteq> VStr who \<and> \<not> is_expired d now
      \<and> vget d' ''status'' = VStr new \<and> vget d' ''user_id'' = vget d ''user_id''"
    by (auto simp: resolve_plain is_expired_def split: pyval.splits)
qed

lemma consume_effect:
  assumes "distinct_keys ''_id'' ds"
    and "consume_approved_action fp now tid aid user server tool args ds = ((ConsumeOk, r), ds')"
  shows "distinct_keys ''_id'' ds'"
    and "\<exists>d d'. find_one (key_query ''_id'' aid) ds = Some d \<and> find_one (key_query ''_id'' aid) ds' = Some d'
      \<and> vget d ''status'' = VStr APPROVED \<and> vget d ''user_id'' = VStr user \<and> vget d ''server'' = VStr server
      \<and> vget d ''tool'' = VStr tool \<and> vget d ''args_fingerprint'' = VStr (fp args) \<and> \<not> is_expired d now
      \<and> vget d' ''status'' = VStr CONSUMED \<and> vget d' ''user_id'' = vget d ''user_id''"
    and "j \<noteq> aid \<Longrightarrow> find_one (key_query ''_id'' j) ds' = find_one (key_query ''_id'' j) ds"
proof -
  let ?u = "set_fields [(''status'', VStr CONSUMED), (''consumed_at'', VTime now)]"
  have un: "untouched ''_id'' ?u" by (simp add: untouched_def)
  obtain r' where f: "find_one_and_update (consume_query now tid aid user server tool (fp args)) ?u False ds = (r', ds')"
    "r' \<noteq> None"
    using assms(2) by (auto simp: consume_approved_action_def Let_def split: prod.splits option.splits if_splits)
  note k = keyed_update [OF assms(1) id_plain un f(1) [unfolded consume_query_def]]
  show "distinct_keys ''_id'' ds'" by (rule k(1))
  show "j \<noteq> aid \<Longrightarrow> find_one (key_query ''_id'' j) ds' = find_one (key_query ''_id'' j) ds" by (rule k(4))
  from k(2) [OF f(2)] show "\<exists>d d'. find_one (key_query ''_id'' aid) ds = Some d \<and> find_one (key_query ''_id'' aid) ds' = Some d'
      \<and> vget d ''status'' = VStr APPROVED \<and> vget d ''user_id'' = VStr user \<and> vget d ''server'' = VStr server
      \<and> vget d ''tool'' = VStr tool \<and> vget d ''args_fingerprint'' = VStr (fp args) \<and> \<not> is_expired d now
      \<and> vget d' ''status'' = VStr CONSUMED \<and> vget d' ''user_id'' = vget d ''user_id''"
    by (auto simp: resolve_plain is_expired_def split: pyval.splits)
qed

lemma consume_refused_unchanged:
  "consume_approved_action fp now tid aid user server tool args ds = ((out, r), ds') \<Longrightarrow> out \<noteq> ConsumeOk
   \<Longrightarrow> ds' = ds"
  by (auto simp: consume_approved_action_def find_one_and_update_def Let_def
      split: prod.splits option.splits if_splits)

lemma action_ok_decide:
  assumes "\<And>j. action_ok tid es ds j" "distinct_keys ''_id'' ds"
    and "decide_action now tid aid who new ds = ((DecisionOk, r), ds')"
    and "(new, e) = (APPROVED, EvApprove aid who) \<or> (new, e) = (REJECTED, EvReject aid who)"
  shows "action_ok tid (e # es) ds' j"
proof (cases "j = aid")
  case True
  obtain d d' where d: "find_one (key_query ''_id'' aid) ds = Some d" "find_one (key_query ''_id'' aid) ds' = Some d'"
    "vget d ''status'' = VStr PENDING" "vget d ''user_id'' \<noteq> VStr who" "vget d' ''status'' = VStr new"
    "vget d' ''user_id'' = vget d ''user_id''"
    using decide_effect(2) [OF assms(2,3)] by blast
  then obtain owner where o': "vget d ''user_id'' = VStr owner" "history aid es = [EvCreate aid owner]"
    using assms(1) [of aid] by (auto simp: action_ok_def dest: lawful_pending)
  then show ?thesis using True d assms(4) by (auto simp: action_ok_def)
next
  case False
  then show ?thesis using assms(1) [of j] decide_effect(3) [OF assms(2,3) False] assms(4)
    by (auto simp: action_ok_def split: option.splits)
qed

lemma action_ok_consume:
  assumes "\<And>j. action_ok tid es ds j" "distinct_keys ''_id'' ds"
    and "consume_approved_action fp now tid aid user server tool args ds = ((ConsumeOk, r), ds')"
  shows "action_ok tid (EvConsume aid user # es) ds' j"
proof (cases "j = aid")
  case True
  obtain d d' where d: "find_one (key_query ''_id'' aid) ds = Some d" "find_one (key_query ''_id'' aid) ds' = Some d'"
    "vget d ''status'' = VStr APPROVED" "vget d ''user_id'' = VStr user" "vget d' ''status'' = VStr CONSUMED"
    "vget d' ''user_id'' = vget d ''user_id''"
    using consume_effect(2) [OF assms(2,3)] by blast
  then have "lawful aid (history aid es) APPROVED user" using assms(1) [of aid] by (auto simp: action_ok_def)
  then obtain w where "w \<noteq> user" "history aid es = [EvApprove aid w, EvCreate aid user]"
    using lawful_approved by blast
  then show ?thesis using True d by (auto simp: action_ok_def)
next
  case False
  then show ?thesis using assms(1) [of j] consume_effect(3) [OF assms(2,3) False]
    by (auto simp: action_ok_def split: option.splits)
qed

lemma workflow_invariant:
  "workflow fp tid es ds \<Longrightarrow> distinct_keys ''_id'' ds \<and> (\<forall>j. action_ok tid es ds j)"
proof (induction rule: workflow.induct)
  case start
  then show ?case by (simp add: distinct_keys_def action_ok_def history_def)
next
  case (create es ds aid now user server tool args atype ttl d ds')
  then have "\<And>j. action_ok tid es ds j" "distinct_keys ''_id'' ds" by blast+
  from action_ok_create [OF this(1) create(2,3)] distinct_create [OF this(2) create(2,3)]
  show ?case by blast
next
  case (approve es ds now aid who r ds')
  then have "\<And>j. action_ok tid es ds j" "distinct_keys ''_id'' ds" by blast+
  from action_ok_decide [OF this approve(2) [unfolded approve_action_def], of "EvApprove aid who"]
    decide_effect(1) [OF this(2) approve(2) [unfolded approve_action_def]]
  show ?case by blast
next
  case (reject es ds now aid who r ds')
  then have "\<And>j. action_ok tid es ds j" "distinct_keys ''_id'' ds" by blast+
  from action_ok_decide [OF this reject(2) [unfolded reject_action_def], of "EvReject aid who"]
    decide_effect(1) [OF this(2) reject(2) [unfolded reject_action_def]]
  show ?case by blast
next
  case (consume es ds now aid user server tool args r ds')
  then have "\<And>j. action_ok tid es ds j" "distinct_keys ''_id'' ds" by blast+
  from action_ok_consume [OF this consume(2)] consume_effect(1) [OF this(2) consume(2)]
  show ?case by blast
next
  case (refused es ds now aid user server tool args out r ds')
  then show ?case using consume_refused_unchanged [OF refused(2,3)] by simp
qed

lemma history_shapes:
  assumes "workflow fp tid es ds"
  shows "history aid es = [] \<or> (\<exists>st owner. lawful aid (history aid es) st owner)"
  using workflow_invariant [OF assms] unfolding action_ok_def
  by (cases "find_one (key_query ''_id'' aid) ds") (auto dest: spec [of _ aid])

text \<open>C7. Over any run of the workflow, an action is executed at most once, and only by the user
  who requested it, after somebody else approved it and nobody rejected it.\<close>
theorem executed_once_after_foreign_approval:
  assumes "workflow fp tid es ds" and "EvConsume aid u \<in> set es"
  shows "length (filter (\<lambda>e. \<exists>v. e = EvConsume aid v) es) = 1 \<and> EvCreate aid u \<in> set es
     \<and> (\<exists>w. w \<noteq> u \<and> EvApprove aid w \<in> set es) \<and> (\<forall>w. EvReject aid w \<notin> set es)"
proof -
  have mem: "e \<in> set es \<longleftrightarrow> e \<in> set (history aid es)" if "event_id e = aid" for e
    using that by (simp add: history_def)
  have cnt: "filter (\<lambda>e. \<exists>v. e = EvConsume aid v) es = filter (\<lambda>e. \<exists>v. e = EvConsume aid v) (history aid es)"
    unfolding history_def filter_filter by (rule filter_cong) auto
  obtain st owner where l: "lawful aid (history aid es) st owner"
    using history_shapes [OF assms(1), of aid] mem [of "EvConsume aid u"] assms(2) by auto
  have "EvConsume aid u \<in> set (history aid es)" using mem [of "EvConsume aid u"] assms(2) by simp
  then have "\<exists>w. w \<noteq> u \<and> history aid es = [EvConsume aid u, EvApprove aid w, EvCreate aid u]"
    using l by (cases "(aid, history aid es, st, owner)" rule: lawful.cases) auto
  then show ?thesis using mem by (auto simp: cnt)
qed

text \<open>C8. The retried call is bound to what was approved: consuming succeeds exactly when the
  stored action belongs to the same user, server and tool, has the fingerprint of the very
  arguments presented, is approved and has not expired; otherwise nothing is written.\<close>
theorem consume_bound_to_request:
  assumes "distinct_keys ''_id'' ds"
    and "consume_approved_action fp now tid aid user server tool args ds = ((out, r), ds')"
  shows "(out = ConsumeOk \<longleftrightarrow>
          (\<exists>d t. find_one (key_query ''_id'' aid) ds = Some d \<and> vget d ''tenant_id'' = VStr tid
             \<and> vget d ''user_id'' = VStr user \<and> vget d ''server'' = VStr server \<and> vget d ''tool'' = VStr tool
             \<and> vget d ''args_fingerprint'' = VStr (fp args) \<and> vget d ''status'' = VStr APPROVED
             \<and> vget d ''expires_at'' = VTime t \<and> now < t))
         \<and> (out = ConsumeOk \<or> ds' = ds)"
proof
  let ?u = "set_fields [(''status'', VStr CONSUMED), (''consumed_at'', VTime now)]"
  obtain r' ds'' where f: "find_one_and_update (consume_query now tid aid user server tool (fp args)) ?u False ds = (r', ds'')"
    by (cases "find_one_and_update (consume_query now tid aid user server tool (fp args)) ?u False ds")
  have un: "untouched ''_id'' ?u" by (simp add: untouched_def)
  have out: "out = ConsumeOk \<longleftrightarrow> r' \<noteq> None"
    using assms(2) f by (auto simp: consume_approved_action_def Let_def split: option.splits if_splits)
  note k = keyed_update [OF assms(1) id_plain un f [unfolded consume_query_def]]
  have time: "vlt (VTime now) v \<longleftrightarrow> (\<exists>t. v = VTime t \<and> now < t)" for v
    by (cases v) (auto simp: vlt_def)
  show "out = ConsumeOk \<longleftrightarrow>
          (\<exists>d t. find_one (key_query ''_id'' aid) ds = Some d \<and> vget d ''tenant_id'' = VStr tid
             \<and> vget d ''user_id'' = VStr user \<and> vget d ''server'' = VStr server \<and> vget d ''tool'' = VStr tool
             \<and> vget d ''args_fingerprint'' = VStr (fp args) \<and> vget d ''status'' = VStr APPROVED
             \<and> vget d ''expires_at'' = VTime t \<and> now < t)"
  proof (cases "r' = None")
    case True
    then show ?thesis using out k(3) by (auto simp: resolve_plain time)
  next
    case False
    then show ?thesis using out k(2) by (auto simp: resolve_plain time)
  qed
  show "out = ConsumeOk \<or> ds' = ds"
    using consume_refused_unchanged [OF assms(2)] by blast
qed

section \<open>A concrete run\<close>

definition demo_fp :: "doc \<Rightarrow> string" where
  "demo_fp args = concat (map fst args)"

definition demo_ds1 :: docs where
  "demo_ds1 = snd (create_pending_action demo_fp 0 ''a1'' ''acme'' ''alice'' ''crm'' ''drop'' [(''id'', VInt 7)] None 60 [])"

definition demo_ds2 :: docs where
  "demo_ds2 = snd (approve_action 1 ''acme'' ''a1'' ''bob'' demo_ds1)"

definition demo_ds3 :: docs where
  "demo_ds3 = snd (consume_approved_action demo_fp 2 ''acme'' ''a1'' ''alice'' ''crm'' ''drop'' [(''id'', VInt 7)] demo_ds2)"

lemmas demo_eval = create_pending_action_def approve_action_def decide_action_def
  consume_approved_action_def find_one_and_update_def decide_query_def consume_query_def
  insert_one_def resolve_plain action_status dput_def demo_fp_def Let_def

lemma demo_approve: "fst (fst (approve_action 1 ''acme'' ''a1'' ''bob'' demo_ds1)) = DecisionOk"
  by (simp add: demo_eval demo_ds1_def)

lemma demo_consume:
  "fst (fst (consume_approved_action demo_fp 2 ''acme'' ''a1'' ''alice'' ''crm'' ''drop'' [(''id'', VInt 7)] demo_ds2))
   = ConsumeOk"
  by (simp add: demo_eval demo_ds1_def demo_ds2_def)

lemma demo_self_approval: "fst (fst (approve_action 1 ''acme'' ''a1'' ''alice'' demo_ds1)) = SelfApprovalForbidden"
  by (simp add: demo_eval demo_ds1_def action_query_def str_field_def)

lemma demo_run: "workflow demo_fp ''acme'' [EvConsume ''a1'' ''alice'', EvApprove ''a1'' ''bob'', EvCreate ''a1'' ''alice''] demo_ds3"
proof -
  have "workflow demo_fp ''acme'' [EvCreate ''a1'' ''alice''] demo_ds1"
    by (rule workflow.create [OF workflow.start, where aid = "''a1''"]) (simp_all add: demo_ds1_def prod_eq_iff)
  then have "workflow demo_fp ''acme'' [EvApprove ''a1'' ''bob'', EvCreate ''a1'' ''alice''] demo_ds2"
    by (rule workflow.approve [where now = 1]) (use demo_approve in \<open>auto simp: demo_ds2_def prod_eq_iff\<close>)
  then show ?thesis
    by (rule workflow.consume [where now = 2 and server = "''crm''" and tool = "''drop''"
          and args = "[(''id'', VInt 7)]"])
       (use demo_consume in \<open>auto simp: demo_ds3_def prod_eq_iff\<close>)
qed

lemma executed_once_after_foreign_approval_witness:
  "\<exists>w. w \<noteq> ''alice'' \<and> EvApprove ''a1'' w \<in> set [EvConsume ''a1'' ''alice'', EvApprove ''a1'' ''bob'', EvCreate ''a1'' ''alice'']"
  using executed_once_after_foreign_approval [OF demo_run, of "''a1''" "''alice''"] by simp

lemma consume_bound_to_request_witness:
  "fst (fst (consume_approved_action demo_fp 2 ''acme'' ''a1'' ''alice'' ''crm'' ''drop'' [(''id'', VInt 7)] demo_ds2)) = ConsumeOk
   \<and> (\<exists>d. find_one (key_query ''_id'' ''a1'') demo_ds2 = Some d \<and> vget d ''status'' = VStr APPROVED)"
proof -
  have k: "distinct_keys ''_id'' demo_ds2" by (simp add: demo_eval demo_ds1_def demo_ds2_def distinct_keys_def)
  obtain out r ds' where
    c: "consume_approved_action demo_fp 2 ''acme'' ''a1'' ''alice'' ''crm'' ''drop'' [(''id'', VInt 7)] demo_ds2 = ((out, r), ds')"
    by (metis surj_pair)
  with demo_consume have "out = ConsumeOk" by simp
  with consume_bound_to_request [OF k c] c show ?thesis by auto
qed

end
