(* ===== verification/RateLimit.thy ===== *)
theory RateLimit
  imports Settings DocStore
begin

text \<open>\<open>gateway/middleware/ratelimit.py\<close>: the sliding-window limiter per tenant and client
  address.  Counters live in the \<open>rate_limit_buckets\<close> control collection, one per fixed
  window; the rate is the current count plus the previous window's count weighted by its
  remaining overlap.  Times are exact; the clock-offset state of the middleware is explicit.\<close>

record limiter_clock =
  clock_offset :: real
  last_sync :: real

definition clock_refresh_interval :: real where
  "clock_refresh_interval = 30"

text \<open>\<open>remote\<close> is the server's clock, None when it cannot be read (the local clock is kept).\<close>
definition refresh_clock_offset ::
  "real \<Rightarrow> real \<Rightarrow> real option \<Rightarrow> real \<Rightarrow> limiter_clock \<Rightarrow> limiter_clock" where
  "refresh_clock_offset tick local_before remote local_after k =
     (if tick - last_sync k < clock_refresh_interval then k
      else case remote of
          None \<Rightarrow> k\<lparr>last_sync := tick\<rparr>
        | Some r \<Rightarrow> k\<lparr>clock_offset := r - (local_before + (local_after - local_before) / 2), last_sync := tick\<rparr>)"

definition limiter_now :: "real \<Rightarrow> limiter_clock \<Rightarrow> real" where
  "limiter_now wall k = wall + clock_offset k"

definition exempt_path :: "string \<Rightarrow> bool" where
  "exempt_path path = (startswith path ''/health'' \<or> path = ''/metrics'')"

definition window_seconds :: "settings \<Rightarrow> int" where
  "window_seconds s = max 1 (cfg_rate_limit_window_seconds s)"

definition window_epoch :: "int \<Rightarrow> real \<Rightarrow> int" where
  "window_epoch w now = \<lfloor>now / of_int w\<rfloor> * w"

definition bucket_query :: "string \<Rightarrow> string \<Rightarrow> int \<Rightarrow> query" where
  "bucket_query tid ip e =
     [(''tenant_id'', CEq (VStr tid)), (''client_ip'', CEq (VStr ip)), (''window_epoch'', CEq (VInt e))]"

definition bucket_update :: "string \<Rightarrow> string \<Rightarrow> int \<Rightarrow> real \<Rightarrow> real \<Rightarrow> update_spec" where
  "bucket_update tid ip e now expires =
     \<lparr>upd_set = [(''updated_at'', VTime now), (''expires_at'', VTime expires)],
      upd_set_on_insert = [(''tenant_id'', VStr tid), (''client_ip'', VStr ip), (''window_epoch'', VInt e),
        (''created_at'', VTime now)],
      upd_inc = [(''count'', VInt 1)],
      upd_add_to_set = [], upd_pull = []\<rparr>"

text \<open>\<open>int(doc.get("count", d))\<close>.\<close>
definition count_of :: "doc option \<Rightarrow> int \<Rightarrow> int" where
  "count_of d dflt = (case py_int (vget_or (doc_or_empty d) ''count'' (VInt dflt)) of Some n \<Rightarrow> n | None \<Rightarrow> dflt)"

record rate_headers =
  retry_after :: int
  limit_shown :: int
  remaining :: int
  reset_at :: int

text \<open>\<open>Unmetered\<close>: the path is exempt, the request passes without touching a bucket.\<close>
datatype rate_outcome = Unmetered | Admitted rate_headers | TooMany rate_headers

definition rate_limit ::
  "settings \<Rightarrow> string \<Rightarrow> real \<Rightarrow> string \<Rightarrow> string \<Rightarrow> docs \<Rightarrow> rate_outcome \<times> docs" where
  "rate_limit s path now tid ip buckets =
     (if exempt_path path then (Unmetered, buckets)
      else
        (let w = window_seconds s; limit = cfg_rate_limit_max_requests s;
             e = window_epoch w now; end_epoch = e + w;
             expires = of_int (end_epoch + w)
         in case find_one_and_update (bucket_query tid ip e) (bucket_update tid ip e now expires) True buckets of
              (bucket, buckets') \<Rightarrow>
                (let current = count_of bucket 1;
                     previous = count_of (find_one (bucket_query tid ip (e - w)) buckets') 0;
                     effective = (if previous \<noteq> 0
                        then of_int current + of_int previous
                               * max 0 ((of_int w - (now - of_int e)) / of_int w)
                        else of_int current) :: real;
                     h = \<lparr>retry_after = max 0 \<lceil>of_int end_epoch - now\<rceil>,
                          limit_shown = limit,
                          remaining = max 0 (limit - \<lceil>effective\<rceil>),
                          reset_at = end_epoch\<rparr>
                 in (if effective > of_int limit then TooMany h else Admitted h, buckets'))))"

text \<open>A stream of requests: time, tenant and client address of each.\<close>
fun serve :: "settings \<Rightarrow> (real \<times> string \<times> string) list \<Rightarrow> docs \<Rightarrow> rate_outcome list \<times> docs" where
  "serve s [] buckets = ([], buckets)"
| "serve s ((now, tid, ip) # rs) buckets =
     (case rate_limit s ''/rpc'' now tid ip buckets of
        (out, b1) \<Rightarrow> (case serve s rs b1 of (outs, b2) \<Rightarrow> (out # outs, b2)))"

section \<open>Buckets\<close>

definition buckets_ok :: "docs \<Rightarrow> bool" where
  "buckets_ok ds = (\<forall>d\<in>set ds. \<exists>n. vget_or d ''count'' (VInt 0) = VInt n \<and> 0 \<le> n)"

definition bucket_count :: "string \<Rightarrow> string \<Rightarrow> int \<Rightarrow> docs \<Rightarrow> int" where
  "bucket_count tid ip e ds = count_of (find_one (bucket_query tid ip e) ds) 0"

lemma canon_int_iff: "veq v (VInt e) \<longleftrightarrow> canon v = VFloat (of_int e)"
  by (simp add: veq_def)

lemma bucket_matches:
  "matches d (bucket_query t i e) \<longleftrightarrow>
   vget d ''tenant_id'' = VStr t \<and> vget d ''client_ip'' = VStr i \<and> canon (vget d ''window_epoch'') = VFloat (of_int e)"
  by (simp add: bucket_query_def resolve_plain canon_int_iff)

lemma bucket_update_fields:
  "dget d ''tenant_id'' \<noteq> None \<Longrightarrow>
   dget (apply_update (bucket_update t i e now x) d) ''tenant_id'' = dget d ''tenant_id''"
  "dget d ''client_ip'' \<noteq> None \<Longrightarrow>
   dget (apply_update (bucket_update t i e now x) d) ''client_ip'' = dget d ''client_ip''"
  "dget d ''window_epoch'' \<noteq> None \<Longrightarrow>
   dget (apply_update (bucket_update t i e now x) d) ''window_epoch'' = dget d ''window_epoch''"
  by (simp_all add: apply_update_def bucket_update_def)

lemma bucket_update_count:
  "vget_or (apply_update (bucket_update t i e now x) d) ''count'' (VInt 0)
   = num_add (vget_or d ''count'' (VInt 0)) (VInt 1)"
  by (simp add: apply_update_def bucket_update_def vget_or_def)

lemma matches_nonnull: "matches d (bucket_query t i e) \<Longrightarrow>
   dget d ''tenant_id'' \<noteq> None \<and> dget d ''client_ip'' \<noteq> None \<and> dget d ''window_epoch'' \<noteq> None"
  by (auto simp: bucket_matches vget_def split: option.splits)

lemma matches_update_iff:
  assumes "matches d (bucket_query t i e)"
  shows "matches (apply_update (bucket_update t i e now x) d) (bucket_query t' i' e') \<longleftrightarrow>
         matches d (bucket_query t' i' e')"
  using matches_nonnull [OF assms] by (simp add: bucket_matches bucket_update_fields vget_def)

lemma count_of_Some:
  "vget_or d ''count'' (VInt 0) = VInt n \<Longrightarrow> dget d ''count'' \<noteq> None \<Longrightarrow> count_of (Some d) k = n"
  by (auto simp: count_of_def vget_or_def split: option.splits)

lemma count_zero_default: "vget_or d ''count'' (VInt 0) = VInt n \<Longrightarrow> count_of (Some d) 0 = n"
  by (simp add: count_of_def)

lemma dget_count_updated: "dget (apply_update (bucket_update t i e now x) d) ''count'' \<noteq> None"
  by (simp add: apply_update_def bucket_update_def)

text \<open>Counting in a collection of counters: an upserted increment raises the counter its query names by one
  and no other of the family \<open>Q\<close> of queries.\<close>
lemma counter_step:
  assumes "buckets_ok ds" and "find_one_and_update q u True ds = (b, ds')"
    and keep: "\<And>d r. matches d q \<Longrightarrow> r \<in> Q \<Longrightarrow> matches (apply_update u d) r = matches d r"
    and excl: "\<And>d r. matches d q \<Longrightarrow> r \<in> Q \<Longrightarrow> r \<noteq> q \<Longrightarrow> \<not> matches d r"
    and q: "q \<in> Q" "matches (upsert_seed q) q" "dget (upsert_seed q) ''count'' = None"
    and inc: "\<And>d. vget_or (apply_update u d) ''count'' (VInt 0) = num_add (vget_or d ''count'' (VInt 0)) (VInt 1)"
    and some: "\<And>d. dget (apply_update u d) ''count'' \<noteq> None"
  shows "buckets_ok ds'" and "count_of b 1 = count_of (find_one q ds) 0 + 1"
    and "count_of (find_one q ds') 0 = count_of (find_one q ds) 0 + 1"
    and "r \<in> Q \<Longrightarrow> r \<noteq> q \<Longrightarrow> find_one r ds' = find_one r ds"
proof -
  have "buckets_ok ds' \<and> count_of b 1 = count_of (find_one q ds) 0 + 1 \<and> count_of (find_one q ds') 0 = count_of (find_one q ds) 0 + 1
     \<and> (r \<in> Q \<longrightarrow> r \<noteq> q \<longrightarrow> find_one r ds' = find_one r ds)"
  proof (cases "find_one q ds")
    case (Some d)
    have m: "matches d q" and mem: "d \<in> set ds" using find_one_SomeD [OF Some] by auto
    obtain n where n: "vget_or d ''count'' (VInt 0) = VInt n" "0 \<le> n" using assms(1) mem by (auto simp: buckets_ok_def)
    have b: "b = Some (apply_update u d)" and ds': "ds' = on_first (\<lambda>d. matches d q) (apply_update u) ds"
      using assms(2) by (auto simp: fou_hit [OF Some])
    have f: "find_one q ds' = Some (apply_update u d)"
      unfolding ds' by (rule find_one_on_first_same [OF Some]) (simp add: keep [OF m q(1)] m)
    have c: "vget_or (apply_update u d) ''count'' (VInt 0) = VInt (n + 1)" by (simp add: inc n)
    have "set ds' \<subseteq> set ds \<union> apply_update u ` set ds" unfolding ds' by (induction ds) auto
    then have "buckets_ok ds'" using assms(1) by (fastforce simp: buckets_ok_def inc)
    moreover have "r \<in> Q \<Longrightarrow> r \<noteq> q \<Longrightarrow> find_one r ds' = find_one r ds"
      unfolding ds' by (rule find_one_on_first_other) (use excl keep in blast)+
    ultimately show ?thesis using count_of_Some [OF c some] count_zero_default [OF n(1)] f Some b by auto
  next
    case None
    let ?d = "apply_update u (upsert_seed q)"
    have b: "b = Some ?d" and ds': "ds' = ds @ [?d]" using assms(2) by (auto simp: find_one_and_update_def None Let_def)
    have c: "vget_or ?d ''count'' (VInt 0) = VInt 1" unfolding inc using q(3) by (simp add: vget_or_def)
    have "find_one q ds' = Some ?d" using keep [OF q(2,1)] q(2) by (simp add: ds' find_one_append None)
    moreover have "r \<in> Q \<Longrightarrow> r \<noteq> q \<Longrightarrow> find_one r ds' = find_one r ds"
      using excl [OF q(2)] keep [OF q(2)] by (auto simp: ds' find_one_append split: option.splits)
    moreover have "buckets_ok ds'" using assms(1) c by (simp add: buckets_ok_def ds')
    ultimately show ?thesis using count_of_Some [OF c some] b None by (auto simp: count_of_def)
  qed
  then show "buckets_ok ds'" "count_of b 1 = count_of (find_one q ds) 0 + 1"
    "count_of (find_one q ds') 0 = count_of (find_one q ds) 0 + 1"
    "r \<in> Q \<Longrightarrow> r \<noteq> q \<Longrightarrow> find_one r ds' = find_one r ds" by blast+
qed

text \<open>Counting a request raises its own bucket by one and no other.\<close>
lemma bucket_counted:
  assumes "buckets_ok ds"
    and "find_one_and_update (bucket_query t i e) (bucket_update t i e now x) True ds = (b, ds')"
  shows "buckets_ok ds'" and "count_of b 1 = bucket_count t i e ds + 1"
    and "bucket_count t i e ds' = bucket_count t i e ds + 1"
    and "(t', i', e') \<noteq> (t, i, e) \<Longrightarrow> bucket_count t' i' e' ds' = bucket_count t' i' e' ds"
proof -
  let ?Q = "range (\<lambda>(t, i, e). bucket_query t i e)"
  have seed: "upsert_seed (bucket_query t i e) = [(''tenant_id'', VStr t), (''client_ip'', VStr i), (''window_epoch'', VInt e)]"
    by (simp add: upsert_seed_def bucket_query_def map_filter_simps)
  have keep: "\<And>d r. matches d (bucket_query t i e) \<Longrightarrow> r \<in> ?Q \<Longrightarrow> matches (apply_update (bucket_update t i e now x) d) r = matches d r"
    using matches_update_iff by auto
  have excl: "\<And>d r. matches d (bucket_query t i e) \<Longrightarrow> r \<in> ?Q \<Longrightarrow> r \<noteq> bucket_query t i e \<Longrightarrow> \<not> matches d r"
    by (auto simp: bucket_matches)
  have q: "bucket_query t i e \<in> ?Q" "matches (upsert_seed (bucket_query t i e)) (bucket_query t i e)"
    "dget (upsert_seed (bucket_query t i e)) ''count'' = None"
    by (auto simp: seed bucket_matches intro: range_eqI [of _ _ "(t, i, e)"])
  note k = counter_step [OF assms keep excl q bucket_update_count dget_count_updated]
  show "buckets_ok ds'" "count_of b 1 = bucket_count t i e ds + 1" "bucket_count t i e ds' = bucket_count t i e ds + 1"
    using k(1-3) by (simp_all add: bucket_count_def)
  assume "(t', i', e') \<noteq> (t, i, e)"
  then have "bucket_query t' i' e' \<noteq> bucket_query t i e" by (auto simp: bucket_query_def)
  moreover have "bucket_query t' i' e' \<in> ?Q" by (auto intro: range_eqI [of _ _ "(t', i', e')"])
  ultimately show "bucket_count t' i' e' ds' = bucket_count t' i' e' ds" using k(4) [of "bucket_query t' i' e'"] by (simp add: bucket_count_def)
qed

lemma bucket_count_nonneg: "buckets_ok ds \<Longrightarrow> 0 \<le> bucket_count t i e ds"
  by (cases "find_one (bucket_query t i e) ds")
     (fastforce simp: bucket_count_def count_of_def buckets_ok_def dest: find_one_SomeD)+

definition admitted :: "rate_outcome \<Rightarrow> bool" where
  "admitted r = (case r of Admitted _ \<Rightarrow> True | _ \<Rightarrow> False)"

text \<open>C19. One request: it is admitted exactly when the sliding estimate (this request included)
  does not exceed the limit, and only its own bucket is counted.\<close>
theorem rate_limit_decision:
  assumes "buckets_ok ds" and "rate_limit s path now tid ip ds = (out, ds')" and "\<not> exempt_path path"
  defines "w \<equiv> window_seconds s"
  defines "e \<equiv> window_epoch w now"
  shows "(admitted out \<longleftrightarrow>
          real_of_int (bucket_count tid ip e ds + 1)
          + of_int (bucket_count tid ip (e - w) ds) * max 0 ((of_int w - (now - of_int e)) / of_int w)
          \<le> of_int (cfg_rate_limit_max_requests s))
         \<and> buckets_ok ds' \<and> bucket_count tid ip e ds' = bucket_count tid ip e ds + 1
         \<and> ((t', i', e') \<noteq> (tid, ip, e) \<longrightarrow> bucket_count t' i' e' ds' = bucket_count t' i' e' ds)"
proof -
  have w: "e - w \<noteq> e" by (simp add: w_def window_seconds_def)
  define x :: real where "x = of_int (e + w + w)"
  obtain b where f: "find_one_and_update (bucket_query tid ip e) (bucket_update tid ip e now x) True ds = (b, ds')"
    and out: "admitted out \<longleftrightarrow> \<not> (if count_of (find_one (bucket_query tid ip (e - w)) ds') 0 \<noteq> 0
        then of_int (count_of b 1) + of_int (count_of (find_one (bucket_query tid ip (e - w)) ds') 0)
              * max 0 ((of_int w - (now - of_int e)) / of_int w)
        else real_of_int (count_of b 1)) > of_int (cfg_rate_limit_max_requests s)"
    using assms(2,3)
    by (cases "find_one_and_update (bucket_query tid ip e) (bucket_update tid ip e now x) True ds")
       (auto simp: rate_limit_def Let_def admitted_def w_def e_def x_def split: if_splits)
  note k = bucket_counted [OF assms(1) f]
  have prev: "count_of (find_one (bucket_query tid ip (e - w)) ds') 0 = bucket_count tid ip (e - w) ds"
    using k(4) [of tid ip "e - w"] w by (auto simp: bucket_count_def)
  show ?thesis using out k(1-3) k(4) [of t' i' e'] unfolding prev k(2) by (auto simp: not_less)
qed

text \<open>How many requests of one client were admitted.\<close>
definition admitted_count :: "string \<Rightarrow> string \<Rightarrow> (real \<times> string \<times> string) list \<Rightarrow> rate_outcome list \<Rightarrow> nat" where
  "admitted_count tid ip rs outs =
     length (filter (\<lambda>((now, t, i), out). t = tid \<and> i = ip \<and> admitted out) (zip rs outs))"

lemma admitted_count_Cons [simp]:
  "admitted_count tid ip ((now, t, i) # rs) (out # outs) =
   (if t = tid \<and> i = ip \<and> admitted out then 1 else 0) + admitted_count tid ip rs outs"
  by (simp add: admitted_count_def)

text \<open>Per window: however requests of all tenants and clients interleave within one window,
  one client of one tenant is admitted at most as often as the limit minus what its bucket had
  already counted.\<close>
theorem admitted_per_window:
  assumes "buckets_ok ds" and "\<forall>(now, r)\<in>set rs. window_epoch (window_seconds s) now = e"
  shows "admitted_count tid ip rs (fst (serve s rs ds)) = 0
         \<or> int (admitted_count tid ip rs (fst (serve s rs ds))) + bucket_count tid ip e ds
            \<le> cfg_rate_limit_max_requests s"
  using assms
proof (induction rs arbitrary: ds)
  case (Cons r rs)
  obtain now t i where r: "r = (now, t, i)" by (cases r)
  obtain out b1 where o': "rate_limit s ''/rpc'' now t i ds = (out, b1)"
    by (cases "rate_limit s ''/rpc'' now t i ds")
  obtain outs b2 where os: "serve s rs b1 = (outs, b2)" by (cases "serve s rs b1")
  have e: "window_epoch (window_seconds s) now = e" using Cons.prems(2) by (simp add: r)
  have ne: "\<not> exempt_path ''/rpc''" by (simp add: exempt_path_def startswith_def)
  note d = rate_limit_decision [OF Cons.prems(1) o' ne, unfolded e]
  note ok = d [THEN conjunct2, THEN conjunct1]
    and own = d [THEN conjunct2, THEN conjunct2, THEN conjunct1]
    and other = d [THEN conjunct2, THEN conjunct2, THEN conjunct2, THEN mp]
  have S: "fst (serve s (r # rs) ds) = out # outs" by (simp add: r o' os)
  have IH: "admitted_count tid ip rs outs = 0
     \<or> int (admitted_count tid ip rs outs) + bucket_count tid ip e b1 \<le> cfg_rate_limit_max_requests s"
    using Cons.IH [OF ok] Cons.prems(2) os by simp
  show ?case
  proof (cases "t = tid \<and> i = ip")
    case True
    have prev: "0 \<le> bucket_count tid ip (e - window_seconds s) ds" by (rule bucket_count_nonneg [OF Cons.prems(1)])
    have adm: "admitted out \<Longrightarrow> bucket_count tid ip e ds + 1 \<le> cfg_rate_limit_max_requests s"
    proof -
      assume "admitted out"
      then have "real_of_int (bucket_count tid ip e ds + 1)
          + of_int (bucket_count tid ip (e - window_seconds s) ds)
            * max 0 ((of_int (window_seconds s) - (now - of_int e)) / of_int (window_seconds s))
          \<le> of_int (cfg_rate_limit_max_requests s)" using conjunct1 [OF d] True by simp
      moreover have "0 \<le> real_of_int (bucket_count tid ip (e - window_seconds s) ds)
            * max 0 ((of_int (window_seconds s) - (now - of_int e)) / of_int (window_seconds s))"
        using prev by simp
      ultimately have "real_of_int (bucket_count tid ip e ds + 1) \<le> of_int (cfg_rate_limit_max_requests s)"
        by linarith
      then show ?thesis by (simp only: of_int_le_iff)
    qed
    have cnt: "bucket_count tid ip e b1 = bucket_count tid ip e ds + 1" using own True by simp
    have C: "admitted_count tid ip (r # rs) (out # outs)
        = (if admitted out then 1 else 0) + admitted_count tid ip rs outs" using True by (simp add: r)
    show ?thesis unfolding S C using IH [unfolded cnt] adm by (cases "admitted out") auto
  next
    case False
    have cnt: "bucket_count tid ip e b1 = bucket_count tid ip e ds"
      by (rule other) (use False in auto)
    have C: "admitted_count tid ip (r # rs) (out # outs) = admitted_count tid ip rs outs"
      using False by (auto simp: r)
    show ?thesis unfolding S C using IH [unfolded cnt] .
  qed
qed (simp add: admitted_count_def)

lemma rate_limit_decision_witness:
  "\<exists>out ds'. rate_limit (default_settings\<lparr>cfg_rate_limit_max_requests := 1\<rparr>) ''/rpc'' 90 ''acme'' ''10.0.0.1'' [] = (out, ds')
     \<and> admitted out \<and> bucket_count ''acme'' ''10.0.0.1'' 60 ds' = 1"
proof -
  let ?s = "default_settings\<lparr>cfg_rate_limit_max_requests := 1\<rparr>"
  obtain out ds' where r: "rate_limit ?s ''/rpc'' 90 ''acme'' ''10.0.0.1'' [] = (out, ds')"
    by (cases "rate_limit ?s ''/rpc'' 90 ''acme'' ''10.0.0.1'' []")
  have ne: "\<not> exempt_path ''/rpc''" by (simp add: exempt_path_def startswith_def)
  have w: "window_seconds ?s = 60" by (simp add: window_seconds_def default_settings_def)
  have e: "window_epoch 60 90 = 60" by (simp add: window_epoch_def)
  have z: "bucket_count t i k [] = 0" for t i k by (simp add: bucket_count_def count_of_def)
  have ok: "buckets_ok []" by (simp add: buckets_ok_def)
  from rate_limit_decision [OF ok r ne, unfolded w e z] r show ?thesis by simp
qed

lemma admitted_per_window_witness:
  "admitted_count ''acme'' ''c'' [(61, ''acme'', ''c''), (62, ''acme'', ''c''), (63, ''acme'', ''c'')]
     (fst (serve (default_settings\<lparr>cfg_rate_limit_max_requests := 2\<rparr>)
        [(61, ''acme'', ''c''), (62, ''acme'', ''c''), (63, ''acme'', ''c'')] [])) \<le> 2"
proof -
  let ?s = "default_settings\<lparr>cfg_rate_limit_max_requests := 2\<rparr>"
  have w: "window_seconds ?s = 60" by (simp add: window_seconds_def default_settings_def)
  have e: "\<lfloor>t / 60\<rfloor> = 1" if "60 \<le> t" "t < 120" for t :: real using that by linarith
  have "\<forall>(now, r)\<in>set [(61, ''acme'', ''c''), (62, ''acme'', ''c''), (63, ''acme'', ''c'')].
      window_epoch (window_seconds ?s) now = 60"
    by (simp add: w window_epoch_def e)
  from admitted_per_window [OF _ this, of "[]" "''acme''" "''c''"]
  show ?thesis by (auto simp: buckets_ok_def bucket_count_def count_of_def)
qed

end
