(* ===== verification/SemanticCache.thy ===== *)
theory SemanticCache
  imports Settings DocStore
begin

text \<open>\<open>services/cache_manager.py\<close> (\<open>SemanticCacheManager\<close>): tool results kept per tenant and found again by
  the similarity of their serialized arguments.  The cache of a tenant is its \<open>semantic_cache\<close>
  collection.  Embedding, canonical JSON, SHA digests and the vector index are parameters
  (\<open>cache_env\<close>); what the code relies on is that a vector search returns documents of the
  collection it searches.\<close>

section \<open>Index names\<close>

definition SEMANTIC_CACHE_INDEX_PREFIX :: string where "SEMANTIC_CACHE_INDEX_PREFIX = ''semantic-cache-v''"
definition GUARDRAIL_SIGNATURE_INDEX_PREFIX :: string where
  "GUARDRAIL_SIGNATURE_INDEX_PREFIX = ''guardrail-signatures-v''"

definition is_slug_char :: "char \<Rightarrow> bool" where
  "is_slug_char c = (is_lower c \<or> is_digit c)"

text \<open>Runs of other characters become one hyphen, hyphens at both ends are stripped.\<close>
definition version_slug :: "string \<Rightarrow> string" where
  "version_slug v =
     (let slug = join ''-'' (words_by (\<lambda>c. \<not> is_slug_char c) (lower v)) in if slug = [] then ''default'' else slug)"

text \<open>\<open>sha1\<close> is the hexadecimal digest.\<close>
definition versioned_index_name :: "(string \<Rightarrow> string) \<Rightarrow> string \<Rightarrow> string \<Rightarrow> string" where
  "versioned_index_name sha1 prefix version =
     (let slug = version_slug version; name = prefix @ ''-'' @ slug; digest = take 12 (sha1 version) in
      if length name \<le> 120 then name
      else prefix @ ''-'' @ take (nat (max 8 (120 - int (length prefix) - int (length digest) - 2))) slug @ ''-'' @ digest)"

definition semantic_cache_index_name :: "(string \<Rightarrow> string) \<Rightarrow> string \<Rightarrow> string" where
  "semantic_cache_index_name sha1 version = versioned_index_name sha1 SEMANTIC_CACHE_INDEX_PREFIX version"

definition guardrail_signature_index_name :: "(string \<Rightarrow> string) \<Rightarrow> string \<Rightarrow> string" where
  "guardrail_signature_index_name sha1 version = versioned_index_name sha1 GUARDRAIL_SIGNATURE_INDEX_PREFIX version"

section \<open>The cache\<close>

record embedder =
  emb_version :: string
  emb_model :: string
  emb_dims :: int
  embed_text :: "string \<Rightarrow> real list option"

datatype index_outcome = IndexCreated | IndexExists | NamespaceMissing | IndexFailure

text \<open>\<open>env_search docs index filter vector\<close>: the best hit with its score, or None where the fresh index
  is not queryable yet.  \<open>env_dumps\<close> is \<open>json.dumps\<close> with sorted keys and no blanks.\<close>
record cache_env =
  env_dumps :: "doc \<Rightarrow> string"
  env_sha1 :: "string \<Rightarrow> string"
  env_sha256 :: "string \<Rightarrow> string"
  env_embedder :: "string \<Rightarrow> embedder"
  env_index :: "string \<Rightarrow> string \<Rightarrow> index_outcome"
  env_search :: "docs \<Rightarrow> string \<Rightarrow> query \<Rightarrow> real list \<Rightarrow> (doc \<times> real) list option"

record cache_state =
  sc_docs :: "string \<Rightarrow> docs"
  ensured_indexes :: "(string \<times> string) list"

datatype cache_exc = EmbeddingUnavailable | OperationFailure

definition semantic_cache_lookup_filter :: "string \<Rightarrow> string \<Rightarrow> query" where
  "semantic_cache_lookup_filter tid version =
     [(''tenant_id'', CEq (VStr tid)), (''embedding_version'', CEq (VStr version))]"

definition serialize :: "cache_env \<Rightarrow> string \<Rightarrow> doc \<Rightarrow> string" where
  "serialize env tool args = tool @ CHR '':'' # env_dumps env args"

definition ensure_index :: "cache_env \<Rightarrow> string \<Rightarrow> string \<Rightarrow> cache_state \<Rightarrow> cache_exc option \<times> cache_state" where
  "ensure_index env tid version st =
     (if (tid, version) \<in> set (ensured_indexes st) then (None, st)
      else case env_index env tid (semantic_cache_index_name (env_sha1 env) version) of
          NamespaceMissing \<Rightarrow> (None, st)
        | IndexFailure \<Rightarrow> (Some OperationFailure, st)
        | _ \<Rightarrow> (None, st\<lparr>ensured_indexes := (tid, version) # ensured_indexes st\<rparr>))"

definition accept_hit :: "settings \<Rightarrow> string \<Rightarrow> string \<Rightarrow> string \<Rightarrow> doc \<times> real \<Rightarrow> pyval option" where
  "accept_hit s tid version tool hit =
     (case hit of (best, score) \<Rightarrow>
        if vget best ''tenant_id'' \<noteq> VStr tid then None
        else if vget best ''embedding_version'' \<noteq> VStr version then None
        else if vget best ''tool_name'' \<noteq> VStr tool then None
        else if score < cfg_semantic_cache_threshold s then None
        else (case vget best ''result'' of VNone \<Rightarrow> None | v \<Rightarrow> Some v))"

definition cache_lookup ::
  "cache_env \<Rightarrow> settings \<Rightarrow> string \<Rightarrow> doc \<Rightarrow> string \<Rightarrow> cache_state \<Rightarrow> (cache_exc + pyval option) \<times> cache_state" where
  "cache_lookup env s tool args tid st =
     (let e = env_embedder env tid in
      case ensure_index env tid (emb_version e) st of
        (Some x, st') \<Rightarrow> (Inl x, st')
      | (None, st') \<Rightarrow>
          (case embed_text e (serialize env tool args) of
             None \<Rightarrow> (Inl EmbeddingUnavailable, st')
           | Some v \<Rightarrow>
               (case env_search env (sc_docs st' tid) (semantic_cache_index_name (env_sha1 env) (emb_version e))
                       (semantic_cache_lookup_filter tid (emb_version e)) v of
                  None \<Rightarrow> (Inr None, st')
                | Some [] \<Rightarrow> (Inr None, st')
                | Some (hit # _) \<Rightarrow> (Inr (accept_hit s tid (emb_version e) tool hit), st'))))"

definition cache_key :: "string \<Rightarrow> string \<Rightarrow> string \<Rightarrow> string \<Rightarrow> query" where
  "cache_key tid tool h version =
     [(''tenant_id'', CEq (VStr tid)), (''tool_name'', CEq (VStr tool)), (''arguments_hash'', CEq (VStr h)),
      (''embedding_version'', CEq (VStr version))]"

definition cache_fields ::
  "cache_env \<Rightarrow> real \<Rightarrow> string \<Rightarrow> doc \<Rightarrow> pyval \<Rightarrow> string \<Rightarrow> int \<Rightarrow> real list \<Rightarrow> doc" where
  "cache_fields env now tool args result tid ttl vec =
     (let e = env_embedder env tid in
      [(''tenant_id'', VStr tid), (''tool_name'', VStr tool), (''arguments'', VDict args),
       (''arguments_hash'', VStr (env_sha256 env (serialize env tool args))),
       (''embedding'', VList (map VFloat vec)), (''embedding_model'', VStr (emb_model e)),
       (''embedding_dim'', VInt (emb_dims e)), (''embedding_version'', VStr (emb_version e)),
       (''result'', result), (''expires_at'', VTime (now + of_int (max 1 ttl))), (''updated_at'', VTime now)])"

definition store_entry ::
  "cache_env \<Rightarrow> real \<Rightarrow> string \<Rightarrow> doc \<Rightarrow> pyval \<Rightarrow> string \<Rightarrow> int \<Rightarrow> real list option \<Rightarrow> cache_state
   \<Rightarrow> cache_exc option \<times> cache_state" where
  "store_entry env now tool args result tid ttl given st =
     (let e = env_embedder env tid; ser = serialize env tool args in
      case (case given of Some v \<Rightarrow> Some v | None \<Rightarrow> embed_text e ser) of
        None \<Rightarrow> (Some EmbeddingUnavailable, st)
      | Some v \<Rightarrow>
          ensure_index env tid (emb_version e)
            (st\<lparr>sc_docs := (sc_docs st)(tid := fst (update_one (cache_key tid tool (env_sha256 env ser) (emb_version e))
                 (set_fields (cache_fields env now tool args result tid ttl v)) True (sc_docs st tid)))\<rparr>))"

definition cache_invalidate :: "string \<Rightarrow> string list \<Rightarrow> cache_state \<Rightarrow> nat \<times> cache_state" where
  "cache_invalidate tid tools st =
     (let names = filter (\<lambda>n. n \<noteq> []) tools in
      if names = [] then (0, st)
      else case delete_many [(''tenant_id'', CEq (VStr tid)), (''tool_name'', COps [QIn (map VStr names)])] (sc_docs st tid) of
          (ds, n) \<Rightarrow> (n, st\<lparr>sc_docs := (sc_docs st)(tid := ds)\<rparr>))"

section \<open>Index names are bounded\<close>

lemma versioned_name_bounded:
  assumes "length prefix \<le> 98"
  shows "length (versioned_index_name sha1 prefix v) \<le> 120"
proof -
  define d where "d = length (take 12 (sha1 v))"
  then have "d \<le> 12" by simp
  then have "length prefix + (nat (max 8 (120 - int (length prefix) - int d - 2)) + (d + 2)) \<le> 120"
    using assms by linarith
  then show ?thesis
    unfolding versioned_index_name_def Let_def d_def by (auto simp del: nat_le_iff)
qed

text \<open>Index names stay within the 120 characters the search service allows, whatever the
  embedding version is called.\<close>
theorem index_names_bounded:
  "length (semantic_cache_index_name sha1 v) \<le> 120 \<and> length (guardrail_signature_index_name sha1 v) \<le> 120"
  unfolding semantic_cache_index_name_def guardrail_signature_index_name_def
  by (simp add: versioned_name_bounded SEMANTIC_CACHE_INDEX_PREFIX_def GUARDRAIL_SIGNATURE_INDEX_PREFIX_def)

section \<open>What a hit proves\<close>

text \<open>The documented behaviour of the vector index: hits are documents of the searched collection.\<close>
definition search_sound :: "cache_env \<Rightarrow> bool" where
  "search_sound env = (\<forall>ds i q v hits. env_search env ds i q v = Some hits \<longrightarrow> fst ` set hits \<subseteq> set ds)"

lemma accept_hit_SomeD:
  "accept_hit s tid version tool (d, score) = Some r \<Longrightarrow>
   vget d ''tenant_id'' = VStr tid \<and> vget d ''embedding_version'' = VStr version \<and> vget d ''tool_name'' = VStr tool
   \<and> cfg_semantic_cache_threshold s \<le> score \<and> vget d ''result'' = r"
  by (auto simp: accept_hit_def split: if_splits pyval.splits)

lemma ensure_index_docs [simp]: "sc_docs (snd (ensure_index env tid v st)) = sc_docs st"
  by (simp add: ensure_index_def split: index_outcome.splits)

lemma cache_hit_source:
  assumes "cache_lookup env s tool args tid st = (Inr (Some r), st')" and "search_sound env"
  shows "\<exists>d\<in>set (sc_docs st tid). vget d ''tenant_id'' = VStr tid \<and> vget d ''tool_name'' = VStr tool
     \<and> vget d ''embedding_version'' = VStr (emb_version (env_embedder env tid)) \<and> vget d ''result'' = r"
proof -
  let ?e = "env_embedder env tid"
  obtain st1 where ens: "ensure_index env tid (emb_version ?e) st = (None, st1)"
    using assms(1) by (auto simp: cache_lookup_def Let_def split: prod.splits option.splits)
  then have docs: "sc_docs st1 = sc_docs st" using ensure_index_docs by (metis snd_conv)
  obtain v hit hits where "embed_text ?e (serialize env tool args) = Some v"
    and sr: "env_search env (sc_docs st1 tid) (semantic_cache_index_name (env_sha1 env) (emb_version ?e))
               (semantic_cache_lookup_filter tid (emb_version ?e)) v = Some (hit # hits)"
    and a: "accept_hit s tid (emb_version ?e) tool hit = Some r"
    using assms(1) ens by (auto simp: cache_lookup_def Let_def split: option.splits list.splits)
  obtain d score where h: "hit = (d, score)" by (cases hit)
  have "fst ` set (hit # hits) \<subseteq> set (sc_docs st1 tid)" using assms(2) sr by (metis search_sound_def)
  then have "d \<in> set (sc_docs st tid)" using docs h by simp
  then show ?thesis using accept_hit_SomeD [of s tid "emb_version ?e" tool d score r] a h by blast
qed

text \<open>C14. A cache hit never crosses tenants, tools or embedding models: the value served was stored in
  this tenant's own collection, for this tenant, under this tool name and the active version.\<close>
theorem cache_hit_provenance:
  assumes "search_sound env" and "cache_lookup env s tool args tid st = (Inr (Some r), st')"
  shows "\<exists>d\<in>set (sc_docs st tid). vget d ''tenant_id'' = VStr tid \<and> vget d ''tool_name'' = VStr tool
     \<and> vget d ''embedding_version'' = VStr (emb_version (env_embedder env tid)) \<and> vget d ''result'' = r"
  by (rule cache_hit_source [OF assms(2,1)])

section \<open>Storing and invalidating\<close>

lemma cache_key_match:
  "matches d (cache_key tid tool h v) = (vget d ''tenant_id'' = VStr tid \<and> vget d ''tool_name'' = VStr tool
     \<and> vget d ''arguments_hash'' = VStr h \<and> vget d ''embedding_version'' = VStr v)"
  by (simp add: cache_key_def resolve_plain)

text \<open>After a tool is invalidated, the cache serves nothing for it until it is stored again, and
  invalidation touches no other tenant and no other tool.\<close>
theorem invalidated_never_served:
  assumes "search_sound env" and "cache_invalidate tid names st = (n, st')" and "tool \<in> set names" and "tool \<noteq> []"
    and "cache_lookup env s tool args tid st' = (Inr r, st'')"
  shows "r = None \<and> (t \<noteq> tid \<longrightarrow> sc_docs st' t = sc_docs st t)
     \<and> (\<forall>d\<in>set (sc_docs st tid). (\<forall>x\<in>set names. vget d ''tool_name'' \<noteq> VStr x) \<longrightarrow>
           is_str (vget d ''tool_name'') \<longrightarrow> d \<in> set (sc_docs st' tid))"
proof -
  let ?names = "filter (\<lambda>n. n \<noteq> []) names"
  let ?q = "[(''tenant_id'', CEq (VStr tid)), (''tool_name'', COps [QIn (map VStr ?names)])]"
  have ne: "?names \<noteq> []" using assms(3,4) by (auto simp: filter_empty_conv)
  have st': "st' = st\<lparr>sc_docs := (sc_docs st)(tid := filter (\<lambda>d. \<not> matches d ?q) (sc_docs st tid))\<rparr>"
    using assms(2) ne by (auto simp: cache_invalidate_def delete_many_def Let_def)
  have gone: "matches d ?q" if "vget d ''tenant_id'' = VStr tid" "vget d ''tool_name'' = VStr tool" for d
    using that assms(3,4) by (auto simp: resolve_plain value_items_def vmem_def list_ex_iff)
  have kept: "\<not> matches d ?q" if "\<forall>x\<in>set names. vget d ''tool_name'' \<noteq> VStr x" "is_str (vget d ''tool_name'')" for d
    using that by (auto simp: resolve_plain value_items_def vmem_def list_ex_iff is_str_def split: pyval.splits)
  have "r = None"
  proof (rule ccontr)
    assume "r \<noteq> None"
    then obtain x where "cache_lookup env s tool args tid st' = (Inr (Some x), st'')" using assms(5) by auto
    from cache_hit_source [OF this assms(1)] show False using gone by (auto simp: st')
  qed
  then show ?thesis using kept by (simp add: st')
qed

text \<open>Storing is an upsert on the exact arguments: afterwards the tenant's collection holds the new
  result for this tool, these arguments and this embedding version, every document of another key is
  unchanged, and no key gains a second document.\<close>
theorem store_overwrites_its_key:
  assumes "store_entry env now tool args result tid ttl given st = (x, st')" and "x \<noteq> Some EmbeddingUnavailable"
  defines "q \<equiv> cache_key tid tool (env_sha256 env (serialize env tool args)) (emb_version (env_embedder env tid))"
  shows "(\<exists>d. find_one q (sc_docs st' tid) = Some d \<and> vget d ''result'' = result)
     \<and> filter (\<lambda>d. \<not> matches d q) (sc_docs st' tid) = filter (\<lambda>d. \<not> matches d q) (sc_docs st tid)
     \<and> length (filter (\<lambda>d. matches d q) (sc_docs st' tid)) = max 1 (length (filter (\<lambda>d. matches d q) (sc_docs st tid)))"
proof -
  let ?e = "env_embedder env tid"
  obtain v where v: "(case given of Some v \<Rightarrow> Some v | None \<Rightarrow> embed_text ?e (serialize env tool args)) = Some v"
    using assms(1,2) by (auto simp: store_entry_def Let_def split: option.splits)
  define u where "u = set_fields (cache_fields env now tool args result tid ttl v)"
  have m: "matches (apply_update u d) q" for d
    by (simp add: u_def q_def cache_key_match cache_fields_def Let_def)
  have r: "vget (apply_update u d) ''result'' = result" for d
    by (simp add: u_def cache_fields_def Let_def)
  have "sc_docs st' = (sc_docs st)(tid := fst (update_one q u True (sc_docs st tid)))"
    using assms(1) v ensure_index_docs [of env tid "emb_version ?e"
        "st\<lparr>sc_docs := (sc_docs st)(tid := fst (update_one q u True (sc_docs st tid)))\<rparr>"]
    by (simp add: store_entry_def u_def q_def Let_def)
  then have docs: "sc_docs st' tid = fst (update_one q u True (sc_docs st tid))" by simp
  show ?thesis
  proof (cases "find_one q (sc_docs st tid)")
    case None
    then have none: "filter (\<lambda>d. matches d q) (sc_docs st tid) = []" by (simp add: find_one_None_iff filter_empty_conv)
    show ?thesis
      using None none m r
      by (simp add: docs update_one_def find_one_and_update_def find_one_append Let_def)
  next
    case (Some d)
    have a: "filter (\<lambda>d. \<not> matches d q) (on_first (\<lambda>d. matches d q) (apply_update u) ds) = filter (\<lambda>d. \<not> matches d q) ds"
      and b: "length (filter (\<lambda>d. matches d q) (on_first (\<lambda>d. matches d q) (apply_update u) ds)) = length (filter (\<lambda>d. matches d q) ds)" for ds
      using m by (induction ds) auto
    have "d \<in> set (filter (\<lambda>d. matches d q) (sc_docs st tid))" using find_one_SomeD [OF Some] by simp
    then have "1 \<le> length (filter (\<lambda>d. matches d q) (sc_docs st tid))" by (cases "filter (\<lambda>d. matches d q) (sc_docs st tid)") auto
    then show ?thesis
      using find_one_on_first_same [OF Some m] r a b by (simp add: docs update_one_def fou_hit [OF Some])
  qed
qed

section \<open>A concrete cache\<close>

definition demo_embedder :: embedder where
  "demo_embedder = \<lparr>emb_version = ''m1:4'', emb_model = ''m1'', emb_dims = 1, embed_text = (\<lambda>t. Some [of_nat (length t)])\<rparr>"

text \<open>An index that returns the documents satisfying the filter, all with score 1.\<close>
definition demo_cache_env :: cache_env where
  "demo_cache_env = \<lparr>env_dumps = (\<lambda>d. join '','' (map fst d)), env_sha1 = id, env_sha256 = id,
     env_embedder = (\<lambda>_. demo_embedder), env_index = (\<lambda>_ _. IndexCreated),
     env_search = (\<lambda>ds i q v. Some (map (\<lambda>d. (d, 1)) (find_docs q ds)))\<rparr>"

definition empty_cache :: cache_state where
  "empty_cache = \<lparr>sc_docs = (\<lambda>_. []), ensured_indexes = []\<rparr>"

lemma demo_search_sound: "search_sound demo_cache_env"
  by (auto simp: search_sound_def demo_cache_env_def find_docs_def)

lemmas cache_eval = demo_cache_env_def demo_embedder_def empty_cache_def store_entry_def cache_lookup_def ensure_index_def
  accept_hit_def serialize_def cache_key_match update_one_def find_one_and_update_def cache_fields_def
  semantic_cache_lookup_filter_def find_docs_def resolve_plain

definition demo_cache :: cache_state where
  "demo_cache = snd (store_entry demo_cache_env 0 ''find'' [(''id'', VInt 1)] (VStr ''row'') ''acme'' 60 None empty_cache)"

lemma demo_cache_docs:
  "\<exists>d. sc_docs demo_cache ''acme'' = [d] \<and> vget d ''tenant_id'' = VStr ''acme''
    \<and> vget d ''tool_name'' = VStr ''find'' \<and> vget d ''embedding_version'' = VStr ''m1:4'' \<and> vget d ''result'' = VStr ''row''"
  by (simp add: demo_cache_def cache_eval Let_def)

lemma demo_cache_hit:
  "\<exists>st. cache_lookup demo_cache_env default_settings ''find'' [(''id'', VInt 1)] ''acme'' demo_cache = (Inr (Some (VStr ''row'')), st)"
proof -
  obtain d where d: "sc_docs demo_cache ''acme'' = [d]" "vget d ''tenant_id'' = VStr ''acme''"
    "vget d ''tool_name'' = VStr ''find''" "vget d ''embedding_version'' = VStr ''m1:4''" "vget d ''result'' = VStr ''row''"
    using demo_cache_docs by blast
  show ?thesis
    by (simp add: cache_lookup_def ensure_index_def demo_cache_env_def demo_embedder_def find_docs_def accept_hit_def d
        semantic_cache_lookup_filter_def resolve_plain default_settings_def Let_def)
qed

lemma cache_hit_provenance_witness:
  "\<exists>d\<in>set (sc_docs demo_cache ''acme''). vget d ''tool_name'' = VStr ''find'' \<and> vget d ''result'' = VStr ''row''"
proof -
  obtain st where "cache_lookup demo_cache_env default_settings ''find'' [(''id'', VInt 1)] ''acme'' demo_cache = (Inr (Some (VStr ''row'')), st)"
    using demo_cache_hit by blast
  from cache_hit_provenance [OF demo_search_sound this] show ?thesis by blast
qed

lemma invalidated_never_served_witness:
  "\<exists>n st' r st''. cache_invalidate ''acme'' [''find''] demo_cache = (n, st')
     \<and> cache_lookup demo_cache_env default_settings ''find'' [(''id'', VInt 1)] ''acme'' st' = (Inr r, st'') \<and> r = None"
proof -
  obtain n st' where i: "cache_invalidate ''acme'' [''find''] demo_cache = (n, st')" by fastforce
  have "\<exists>r st''. cache_lookup demo_cache_env default_settings ''find'' [(''id'', VInt 1)] ''acme'' st' = (Inr r, st'')"
    by (simp add: cache_lookup_def ensure_index_def demo_cache_env_def demo_embedder_def Let_def split: list.split)
  then obtain r st'' where l: "cache_lookup demo_cache_env default_settings ''find'' [(''id'', VInt 1)] ''acme'' st' = (Inr r, st'')"
    by blast
  show ?thesis using invalidated_never_served [OF demo_search_sound i _ _ l, of undefined] i l by auto
qed

lemma store_overwrites_its_key_witness:
  "\<exists>d. find_one (cache_key ''acme'' ''find'' ''find:id'' ''m1:4'') (sc_docs demo_cache ''acme'') = Some d \<and> vget d ''result'' = VStr ''row''"
proof -
  obtain x where c: "store_entry demo_cache_env 0 ''find'' [(''id'', VInt 1)] (VStr ''row'') ''acme'' 60 None empty_cache = (x, demo_cache)"
    and x: "x \<noteq> Some EmbeddingUnavailable"
    by (simp add: demo_cache_def cache_eval Let_def)
  from store_overwrites_its_key [OF c x] show ?thesis
    by (simp add: demo_cache_env_def demo_embedder_def serialize_def)
qed

end
