(* ===== verification/HybridSearch.thy ===== *)
theory HybridSearch
  imports Authorization "HOL-Library.Option_ord"
begin

text \<open>\<open>services/hybrid_search.py\<close>: routing a query to tools.  The scope filter, the three retrieval
  modes with their fallbacks, reciprocal rank fusion, pinning and the unranked listing.  The
  vector and text indexes and the server's own rank fusion are parameters (\<open>search_env\<close>), given the
  pipeline the code builds for them; their documented behaviour is \<open>arms_sound\<close>.  Scores are exact
  real numbers.\<close>

section \<open>Scopes\<close>

definition normalize_scope_list :: "string list option \<Rightarrow> string list option" where
  "normalize_scope_list scopes =
     (case scopes of
        None \<Rightarrow> None
      | Some xs \<Rightarrow> (let cleaned = filter (\<lambda>x. x \<noteq> []) xs in if cleaned = [] then None else Some cleaned))"

definition tool_scope_names :: "string list \<Rightarrow> string list" where
  "tool_scope_names scopes = filter (\<lambda>x. \<not> startswith x ''server:'') scopes"

definition allowed_servers :: "string list \<Rightarrow> string list" where
  "allowed_servers scopes =
     sorted_set (filter (\<lambda>x. x \<noteq> []) (map (\<lambda>x. drop 7 x)
       (filter (\<lambda>x. startswith x ''server:'' \<and> x \<noteq> ''server:*'') scopes)))"

text \<open>\<open>server\<close>: the caller restricts the search to one server, None or empty otherwise.\<close>
definition scope_filter :: "string list \<Rightarrow> string option \<Rightarrow> query" where
  "scope_filter scopes server =
     (let ts = tool_scope_names scopes;
          m = (if ts \<noteq> [] then [(''scopes'', COps [QIn (map VStr ts)])] else [])
      in if opt_text server \<noteq> [] then m @ [(''server'', CEq (VStr (opt_text server)))]
         else if ''server:*'' \<in> set scopes then m
         else m @ [(''server'', COps [QIn (map VStr (allowed_servers scopes))])])"

definition arm_filter :: "string list option \<Rightarrow> string option \<Rightarrow> query option" where
  "arm_filter allowed server =
     (case normalize_scope_list allowed of
        Some scopes \<Rightarrow> Some (scope_filter scopes server)
      | None \<Rightarrow> if opt_text server \<noteq> [] then Some [(''server'', CEq (VStr (opt_text server)))] else None)"

section \<open>Pipelines\<close>

definition base_projection :: "string list" where
  "base_projection = [''server'', ''name'', ''description'', ''input_schema'', ''scopes'', ''metadata'']"

definition project_base :: "doc \<Rightarrow> doc" where
  "project_base d = filter (\<lambda>kv. fst kv \<in> set base_projection) d"

record vector_pipeline =
  vp_vector :: "real list"
  vp_candidates :: int
  vp_limit :: int
  vp_filter :: "query option"

record text_pipeline =
  tp_query :: string
  tp_limit :: int
  tp_filter :: "query option"

record fusion_pipeline =
  fp_vector :: vector_pipeline
  fp_text :: text_pipeline
  fp_vector_weight :: real
  fp_text_weight :: real
  fp_limit :: int
  fp_details :: bool

definition build_vector_pipeline ::
  "real list \<Rightarrow> int \<Rightarrow> int \<Rightarrow> string list option \<Rightarrow> string option \<Rightarrow> vector_pipeline" where
  "build_vector_pipeline vec candidates cap allowed server =
     \<lparr>vp_vector = vec, vp_candidates = candidates, vp_limit = cap, vp_filter = arm_filter allowed server\<rparr>"

definition build_text_pipeline :: "string \<Rightarrow> int \<Rightarrow> string list option \<Rightarrow> string option \<Rightarrow> text_pipeline" where
  "build_text_pipeline q cap allowed server = \<lparr>tp_query = q, tp_limit = cap, tp_filter = arm_filter allowed server\<rparr>"

definition build_rank_fusion_pipeline ::
  "string \<Rightarrow> real list \<Rightarrow> real \<Rightarrow> real \<Rightarrow> int \<Rightarrow> int \<Rightarrow> int \<Rightarrow> bool \<Rightarrow> string list option \<Rightarrow> string option
   \<Rightarrow> fusion_pipeline" where
  "build_rank_fusion_pipeline q vec vw tw candidates pcap cap details allowed server =
     \<lparr>fp_vector = build_vector_pipeline vec candidates pcap allowed server,
      fp_text = build_text_pipeline q pcap allowed server,
      fp_vector_weight = vw, fp_text_weight = tw, fp_limit = cap, fp_details = details\<rparr>"

text \<open>\<open>run_fusion\<close> is None where the server has no rank fusion or encryption analysis refuses it;
  \<open>embed_query\<close> is None when the embedding provider is unavailable.\<close>
record search_env =
  run_vector :: "docs \<Rightarrow> vector_pipeline \<Rightarrow> docs"
  run_text :: "docs \<Rightarrow> text_pipeline \<Rightarrow> docs"
  run_fusion :: "docs \<Rightarrow> fusion_pipeline \<Rightarrow> docs option"
  embed_query :: "string \<Rightarrow> string \<Rightarrow> real list option"

section \<open>Reciprocal rank fusion\<close>

type_synonym tool_key = "pyval \<times> pyval"
type_synonym fused = "(tool_key \<times> doc \<times> real \<times> pyval list) list"

definition key_of :: "doc \<Rightarrow> tool_key" where
  "key_of d = (vget d ''server'', vget d ''name'')"

definition contribution :: "real \<Rightarrow> nat \<Rightarrow> real" where
  "contribution w rank = w * (1 / (60 + of_nat rank))"

definition rank_detail :: "string \<Rightarrow> nat \<Rightarrow> real \<Rightarrow> pyval" where
  "rank_detail arm rank w = VDict [(''inputPipelineName'', VStr arm), (''rank'', VInt (int rank)),
     (''weight'', VFloat w), (''value'', VFloat (contribution w rank))]"

definition add_ranked :: "string \<Rightarrow> real \<Rightarrow> bool \<Rightarrow> nat \<Rightarrow> doc \<Rightarrow> fused \<Rightarrow> fused" where
  "add_ranked arm w details rank d acc =
     (let c = contribution w rank; new = (if details then [rank_detail arm rank w] else [])
      in case dget acc (key_of d) of
           None \<Rightarrow> dput (key_of d) (d, c, new) acc
         | Some (d0, sc, ds) \<Rightarrow> dput (key_of d) (d0, sc + c, ds @ new) acc)"

fun rank_arm :: "string \<Rightarrow> real \<Rightarrow> bool \<Rightarrow> nat \<Rightarrow> docs \<Rightarrow> fused \<Rightarrow> fused" where
  "rank_arm arm w details rank [] acc = acc"
| "rank_arm arm w details rank (d # ds) acc = rank_arm arm w details (Suc rank) ds (add_ranked arm w details rank d acc)"

text \<open>\<open>xs[:n]\<close>; a negative bound counts from the end.\<close>
definition slice_to :: "int \<Rightarrow> 'a list \<Rightarrow> 'a list" where
  "slice_to n xs = (if 0 \<le> n then take (nat n) xs else take (length xs - nat (- n)) xs)"

definition by_score :: "fused \<Rightarrow> fused" where
  "by_score f = sort_key (\<lambda>e. - fst (snd (snd e))) f"

definition fused_doc :: "bool \<Rightarrow> tool_key \<times> doc \<times> real \<times> pyval list \<Rightarrow> doc" where
  "fused_doc details e = (case e of (_, d, sc, ds) \<Rightarrow>
     (let d1 = dput ''score'' (VFloat sc) d in if details then dput ''scoreDetails'' (VList ds) d1 else d1))"

definition rank_both :: "docs \<Rightarrow> docs \<Rightarrow> real \<Rightarrow> real \<Rightarrow> bool \<Rightarrow> fused" where
  "rank_both vds tds vw tw details =
     rank_arm ''fullTextPipeline'' tw details 1 tds (rank_arm ''vectorPipeline'' vw details 1 vds [])"

definition fuse_rrf :: "docs \<Rightarrow> docs \<Rightarrow> real \<Rightarrow> real \<Rightarrow> int \<Rightarrow> bool \<Rightarrow> docs" where
  "fuse_rrf vds tds vw tw cap details =
     map (fused_doc details) (slice_to cap (by_score (rank_both vds tds vw tw details)))"

section \<open>Search\<close>

definition int_or :: "int option \<Rightarrow> int \<Rightarrow> int" where
  "int_or n dflt = (case n of Some i \<Rightarrow> if i = 0 then dflt else i | None \<Rightarrow> dflt)"

definition weight_or :: "real option \<Rightarrow> real \<Rightarrow> real" where
  "weight_or w dflt = (case w of Some x \<Rightarrow> if x = 0 then dflt else x | None \<Rightarrow> dflt)"

definition search_hybrid_app_side ::
  "search_env \<Rightarrow> settings \<Rightarrow> docs \<Rightarrow> string \<Rightarrow> real list \<Rightarrow> int \<Rightarrow> real \<Rightarrow> real \<Rightarrow> string list option
   \<Rightarrow> string option \<Rightarrow> docs" where
  "search_hybrid_app_side env s coll q vec cap vw tw allowed server =
     fuse_rrf
       (run_vector env coll (build_vector_pipeline vec (cfg_hybrid_num_candidates s) (cfg_hybrid_pipeline_limit s) allowed server))
       (run_text env coll (build_text_pipeline q (cfg_hybrid_pipeline_limit s) allowed server))
       vw tw cap (cfg_include_score_details s)"

text \<open>The second component is the fusion path recorded for the audit.\<close>
definition search_ranked ::
  "search_env \<Rightarrow> settings \<Rightarrow> docs \<Rightarrow> string \<Rightarrow> string \<Rightarrow> string \<Rightarrow> int \<Rightarrow> real option \<Rightarrow> real option
   \<Rightarrow> string list option \<Rightarrow> string option \<Rightarrow> docs \<times> string" where
  "search_ranked env s coll tid q mode cap vw tw allowed server =
     (let as_text = run_text env coll (build_text_pipeline q cap allowed server);
          vw' = weight_or vw (cfg_hybrid_vector_weight s); tw' = weight_or tw (cfg_hybrid_text_weight s)
      in if mode = ''text'' then (as_text, ''text'')
         else case embed_query env tid q of
             None \<Rightarrow> (as_text, ''lexical_fallback'')
           | Some vec \<Rightarrow>
               if mode = ''vector''
               then (run_vector env coll (build_vector_pipeline vec (cfg_hybrid_num_candidates s) cap allowed server), ''vector'')
               else if cfg_fusion_strategy s = ''app_side''
               then (search_hybrid_app_side env s coll q vec cap vw' tw' allowed server, ''app_side_rrf'')
               else (case run_fusion env coll (build_rank_fusion_pipeline q vec vw' tw' (cfg_hybrid_num_candidates s)
                         (cfg_hybrid_pipeline_limit s) cap (cfg_include_score_details s) allowed server) of
                   Some results \<Rightarrow> (results, ''native_rankfusion'')
                 | None \<Rightarrow> (search_hybrid_app_side env s coll q vec cap vw' tw' allowed server, ''app_side_rrf'')))"

definition text_or_empty :: "doc \<Rightarrow> string \<Rightarrow> string" where
  "text_or_empty d f = (case vget d f of VStr t \<Rightarrow> t | _ \<Rightarrow> [])"

definition fetch_always_included :: "docs \<Rightarrow> string list option \<Rightarrow> string option \<Rightarrow> docs" where
  "fetch_always_included coll allowed server =
     (let m = (''metadata.always_included'', CEq (VBool True))
              # (case arm_filter allowed server of Some q \<Rightarrow> q | None \<Rightarrow> [])
      in sort_key (\<lambda>d. text_or_empty d ''server'') (sort_key (\<lambda>d. text_or_empty d ''name'')
           (map project_base (find_docs m coll))))"

fun pin_docs :: "tool_key list \<Rightarrow> docs \<Rightarrow> docs" where
  "pin_docs seen [] = []"
| "pin_docs seen (d # ds) =
     (if key_of d \<in> set seen then pin_docs seen ds
      else dput ''pinned'' (VBool True) d # pin_docs (key_of d # seen) ds)"

fun fill_ranked :: "nat \<Rightarrow> tool_key list \<Rightarrow> docs \<Rightarrow> docs" where
  "fill_ranked 0 seen ds = []"
| "fill_ranked (Suc n) seen [] = []"
| "fill_ranked (Suc n) seen (d # ds) =
     (if key_of d \<in> set seen then fill_ranked (Suc n) seen ds
      else d # fill_ranked n (key_of d # seen) ds)"

definition merge_pinned :: "docs \<Rightarrow> docs \<Rightarrow> int \<Rightarrow> docs" where
  "merge_pinned pinned ranked cap =
     (let top_docs = pin_docs [] pinned
      in top_docs @ fill_ranked (nat (max 0 (cap - int (length top_docs)))) (map key_of top_docs) ranked)"

definition search_tools ::
  "search_env \<Rightarrow> settings \<Rightarrow> (string \<Rightarrow> docs) \<Rightarrow> string option \<Rightarrow> string \<Rightarrow> int option \<Rightarrow> real option \<Rightarrow> real option
   \<Rightarrow> string list option \<Rightarrow> string option \<Rightarrow> string option \<Rightarrow> docs" where
  "search_tools env s catalog tid q cap vw tw allowed mode server =
     (let n = int_or cap (cfg_hybrid_output_limit s);
          md = lower (if opt_text mode = [] then ''hybrid'' else opt_text mode);
          coll = catalog (resolve_tenant s tid);
          ranked = fst (search_ranked env s coll (resolve_tenant s tid) q md n vw tw allowed server)
      in if \<not> cfg_hybrid_pin_always_included s then ranked
         else (let pinned = fetch_always_included coll allowed server
               in if pinned = [] then ranked else merge_pinned pinned ranked n))"

section \<open>Listing\<close>

definition text_key :: "doc \<Rightarrow> string \<Rightarrow> string option" where
  "text_key d f = (case vget d f of VStr t \<Rightarrow> Some t | _ \<Rightarrow> None)"

definition listed_tools :: "docs \<Rightarrow> string list option \<Rightarrow> string option \<Rightarrow> docs" where
  "listed_tools coll allowed server =
     sort_key (\<lambda>d. text_key d ''server'') (sort_key (\<lambda>d. text_key d ''name'')
       (map project_base (find_docs (case arm_filter allowed server of Some q \<Rightarrow> q | None \<Rightarrow> []) coll)))"

definition list_tools ::
  "settings \<Rightarrow> (string \<Rightarrow> docs) \<Rightarrow> string option \<Rightarrow> string list option \<Rightarrow> int option \<Rightarrow> int \<Rightarrow> string option \<Rightarrow> docs" where
  "list_tools s catalog tid allowed cap offset server =
     take (nat (int_or cap (cfg_catalog_list_limit s)))
       (drop (nat (max 0 offset)) (listed_tools (catalog (resolve_tenant s tid)) allowed server))"

section \<open>Fusion ranks by the sum of reciprocal ranks\<close>

fun rank_sum :: "real \<Rightarrow> tool_key \<Rightarrow> nat \<Rightarrow> docs \<Rightarrow> real" where
  "rank_sum w k rank [] = 0"
| "rank_sum w k rank (d # ds) = (if key_of d = k then contribution w rank else 0) + rank_sum w k (Suc rank) ds"

definition rrf_score :: "docs \<Rightarrow> docs \<Rightarrow> real \<Rightarrow> real \<Rightarrow> tool_key \<Rightarrow> real" where
  "rrf_score vds tds vw tw k = rank_sum vw k 1 vds + rank_sum tw k 1 tds"

definition score_in :: "fused \<Rightarrow> tool_key \<Rightarrow> real" where
  "score_in f k = (case dget f k of Some (_, sc, _) \<Rightarrow> sc | None \<Rightarrow> 0)"

definition well_keyed :: "docs \<Rightarrow> fused \<Rightarrow> bool" where
  "well_keyed D f = (distinct (map fst f) \<and> (\<forall>e\<in>set f. fst e = key_of (fst (snd e)) \<and> fst (snd e) \<in> set D))"

lemma key_of_fused_doc [simp]: "key_of (fused_doc det e) = key_of (fst (snd e))"
  by (cases e) (simp add: fused_doc_def key_of_def Let_def)

lemma vget_score: "vget (fused_doc det e) ''score'' = VFloat (fst (snd (snd e)))"
  by (cases e) (simp add: fused_doc_def Let_def)

lemma set_dput_subset: "set (dput k v f) \<subseteq> insert (k, v) (set f)"
  by (induction f) (auto simp: dput_def)

lemma dget_member: "dget f k = Some v \<Longrightarrow> (k, v) \<in> set f"
  by (auto simp: dget_def dest: map_of_SomeD)

lemma well_keyed_add:
  assumes "well_keyed D f" and "d \<in> set D"
  shows "well_keyed D (add_ranked arm w det rank d f)"
proof -
  have put: "well_keyed D (dput (key_of d) (d', x) f)" if "d' \<in> set D" "key_of d' = key_of d" for d' x
    using assms(1) that set_dput_subset [of "key_of d" "(d', x)" f]
    by (auto simp: well_keyed_def dput_def distinct_update)
  show ?thesis
  proof (cases "dget f (key_of d)")
    case None
    then show ?thesis using put [of d] assms(2) by (simp add: add_ranked_def Let_def)
  next
    case (Some y)
    obtain d0 sc dt where y: "y = (d0, sc, dt)" by (cases y) auto
    have "(key_of d, d0, sc, dt) \<in> set f" using dget_member [OF Some] y by simp
    then have "d0 \<in> set D \<and> key_of d0 = key_of d" using assms(1) by (force simp: well_keyed_def)
    then show ?thesis using put [of d0] Some y by (simp add: add_ranked_def Let_def)
  qed
qed

lemma well_keyed_arm: "well_keyed D f \<Longrightarrow> set ds \<subseteq> set D \<Longrightarrow> well_keyed D (rank_arm arm w det rank ds f)"
  by (induction ds arbitrary: f rank) (auto simp: well_keyed_add)

lemma score_add: "score_in (add_ranked arm w det rank d f) k = score_in f k + (if key_of d = k then contribution w rank else 0)"
  by (auto simp: add_ranked_def score_in_def Let_def split: option.splits)

lemma score_arm: "score_in (rank_arm arm w det rank ds f) k = score_in f k + rank_sum w k rank ds"
  by (induction ds arbitrary: f rank) (auto simp: score_add)

lemma keys_add: "fst ` set (add_ranked arm w det rank d f) = insert (key_of d) (fst ` set f)"
  by (simp add: add_ranked_def keys_dput Let_def split: option.splits prod.splits)

lemma keys_arm: "fst ` set (rank_arm arm w det rank ds f) = fst ` set f \<union> key_of ` set ds"
  by (induction ds arbitrary: f rank) (auto simp: keys_add)

lemma well_keyed_both: "well_keyed (vds @ tds) (rank_both vds tds vw tw det)"
  unfolding rank_both_def by (intro well_keyed_arm) (auto simp: well_keyed_def)

lemma score_both: "score_in (rank_both vds tds vw tw det) k = rrf_score vds tds vw tw k"
proof -
  have "score_in [] k = 0" by (simp add: score_in_def)
  then show ?thesis by (simp add: rank_both_def score_arm rrf_score_def)
qed

lemma keys_both: "fst ` set (rank_both vds tds vw tw det) = key_of ` (set vds \<union> set tds)"
  by (auto simp: rank_both_def keys_arm)

lemma entry_score:
  assumes "e \<in> set (rank_both vds tds vw tw det)"
  shows "fst (snd (snd e)) = rrf_score vds tds vw tw (key_of (fst (snd e)))"
proof -
  let ?f = "rank_both vds tds vw tw det"
  have d: "distinct (map fst ?f)" and k: "fst e = key_of (fst (snd e))"
    using well_keyed_both [of vds tds vw tw det] assms by (auto simp: well_keyed_def)
  from d assms have "dget ?f (fst e) = Some (snd e)" by (simp add: dget_def)
  then show ?thesis using score_both [of vds tds vw tw det "fst e"] k by (cases e) (auto simp: score_in_def)
qed

lemma set_slice: "set (slice_to n xs) \<subseteq> set xs"
  by (auto simp: slice_to_def dest: in_set_takeD)

lemma fused_member:
  assumes "r \<in> set (fuse_rrf vds tds vw tw cap det)"
  shows "\<exists>d\<in>set vds \<union> set tds. key_of r = key_of d \<and> (\<forall>k. k \<notin> {''score'', ''scoreDetails''} \<longrightarrow> vget r k = vget d k)"
proof -
  obtain e where e: "e \<in> set (rank_both vds tds vw tw det)" "r = fused_doc det e"
    using assms set_slice by (force simp: fuse_rrf_def by_score_def)
  then have "fst (snd e) \<in> set vds \<union> set tds"
    using well_keyed_both [of vds tds vw tw det] by (force simp: well_keyed_def)
  moreover have "\<forall>k. k \<notin> {''score'', ''scoreDetails''} \<longrightarrow> vget r k = vget (fst (snd e)) k"
    using e(2) by (cases e) (auto simp: fused_doc_def Let_def)
  ultimately show ?thesis using e(2) by (intro bexI [of _ "fst (snd e)"]) simp_all
qed

text \<open>C21. Reciprocal rank fusion: the fused list carries each tool once, with the weighted sum of its
  reciprocal ranks in the two arms as score, best first; and a candidate is left out only when the
  list is full of candidates that score at least as high.\<close>
theorem fusion_is_top_of_rrf:
  fixes vds tds :: docs and vw tw :: real and cap :: int and det :: bool
  assumes "0 \<le> cap"
  defines "r \<equiv> fuse_rrf vds tds vw tw cap det" and "score \<equiv> rrf_score vds tds vw tw"
  shows "(\<forall>d\<in>set r. vget d ''score'' = VFloat (score (key_of d)))
     \<and> distinct (map key_of r) \<and> sorted_wrt (\<lambda>a b. score (key_of b) \<le> score (key_of a)) r
     \<and> (\<forall>c\<in>set vds \<union> set tds. key_of c \<in> key_of ` set r
          \<or> (length r = nat cap \<and> (\<forall>d\<in>set r. score (key_of c) \<le> score (key_of d))))"
proof -
  let ?f = "rank_both vds tds vw tw det"
  let ?s = "by_score ?f"
  let ?sc = "\<lambda>e :: tool_key \<times> doc \<times> real \<times> pyval list. fst (snd (snd e))"
  have wk: "well_keyed (vds @ tds) ?f" by (rule well_keyed_both)
  have sets: "set ?s = set ?f" by (simp add: by_score_def)
  have r: "r = map (fused_doc det) (take (nat cap) ?s)" using assms(1) by (simp add: r_def fuse_rrf_def slice_to_def)
  have sc: "?sc e = score (key_of (fst (snd e)))" if "e \<in> set ?s" for e
    using that entry_score sets by (simp add: score_def)
  have key: "fst e = key_of (fst (snd e))" if "e \<in> set ?s" for e using wk that sets by (auto simp: well_keyed_def)
  have "sorted (map (\<lambda>e. - ?sc e) ?s)" by (simp add: by_score_def)
  then have ord: "sorted_wrt (\<lambda>a b. ?sc b \<le> ?sc a) ?s" by (simp add: sorted_map)
  have dist: "distinct (map fst ?s)" using wk by (simp add: well_keyed_def by_score_def distinct_map)
  have in_r: "\<exists>e\<in>set (take (nat cap) ?s). d = fused_doc det e" if "d \<in> set r" for d using that by (auto simp: r)
  have shown: "vget d ''score'' = VFloat (score (key_of d))" if dr: "d \<in> set r" for d
  proof -
    obtain e where e: "e \<in> set ?s" "d = fused_doc det e" using in_r [OF dr] in_set_takeD by metis
    then show ?thesis using sc [OF e(1)] by (simp add: vget_score)
  qed
  have keys: "map key_of r = map fst (take (nat cap) ?s)"
    using key by (auto simp: r dest: in_set_takeD)
  have d1: "distinct (map key_of r)" using dist by (metis keys distinct_take take_map)
  have tk: "\<forall>e\<in>set (take (nat cap) ?s). ?sc e = score (key_of (fst (snd e)))" using sc by (auto dest: in_set_takeD)
  have "sorted_wrt (\<lambda>a b. ?sc b \<le> ?sc a) (take (nat cap) ?s)" using ord by (simp add: sorted_wrt_take)
  then have "sorted_wrt (\<lambda>a b. score (key_of (fst (snd b))) \<le> score (key_of (fst (snd a)))) (take (nat cap) ?s)"
    by (rule sorted_wrt_mono_rel [rotated]) (use tk in auto)
  then have so: "sorted_wrt (\<lambda>a b. score (key_of b) \<le> score (key_of a)) r" by (simp add: r sorted_wrt_map)
  have full: "key_of c \<in> key_of ` set r \<or> (length r = nat cap \<and> (\<forall>d\<in>set r. score (key_of c) \<le> score (key_of d)))"
    if c: "c \<in> set vds \<union> set tds" for c
  proof (cases "key_of c \<in> key_of ` set r")
    case False
    have "key_of c \<in> fst ` set ?s" using c keys_both sets by (simp add: keys_both)
    then obtain e where e: "e \<in> set ?s" "fst e = key_of c" by auto
    have "e \<notin> set (take (nat cap) ?s)"
    proof
      assume "e \<in> set (take (nat cap) ?s)"
      then have "fst e \<in> set (map key_of r)" by (simp add: keys)
      then show False using False e(2) by simp
    qed
    then have ed: "e \<in> set (drop (nat cap) ?s)" using e(1) by (metis UnE append_take_drop_id set_append)
    then have "nat cap \<le> length ?s" by (cases "nat cap \<le> length ?s") auto
    moreover have "sorted_wrt (\<lambda>a b. ?sc b \<le> ?sc a) (take (nat cap) ?s @ drop (nat cap) ?s)"
      using ord by (simp only: append_take_drop_id)
    then have "\<forall>a\<in>set (take (nat cap) ?s). ?sc e \<le> ?sc a"
      using ed by (simp only: sorted_wrt_append) blast
    ultimately show ?thesis using sc [OF e(1)] key [OF e(1)] e(2) tk by (auto simp: r)
  qed simp
  show ?thesis
  proof (intro conjI)
    show "\<forall>d\<in>set r. vget d ''score'' = VFloat (score (key_of d))" by (rule ballI) (rule shown)
    show "distinct (map key_of r)" by (rule d1)
    show "sorted_wrt (\<lambda>a b. score (key_of b) \<le> score (key_of a)) r" by (rule so)
    show "\<forall>c\<in>set vds \<union> set tds. key_of c \<in> key_of ` set r
        \<or> (length r = nat cap \<and> (\<forall>d\<in>set r. score (key_of c) \<le> score (key_of d)))"
      by (rule ballI) (rule full)
  qed
qed

section \<open>Search stays inside the caller's scopes\<close>

text \<open>What a scope list lets a caller discover: a server named by \<open>server:x\<close> (or any, by \<open>server:*\<close>) and,
  when the list has other scopes, a tool that carries one of them.\<close>
definition in_scope :: "string list \<Rightarrow> doc \<Rightarrow> bool" where
  "in_scope scopes d =
     ((\<forall>t\<in>set scopes. startswith t ''server:'')
      \<or> (\<exists>t\<in>set scopes. \<not> startswith t ''server:'' \<and> VStr t \<in> set (value_items (vget d ''scopes''))))"

definition on_allowed_server :: "string list \<Rightarrow> doc \<Rightarrow> bool" where
  "on_allowed_server scopes d =
     (''server:*'' \<in> set scopes \<or> (\<exists>x. ''server:'' @ x \<in> set scopes \<and> VStr x \<in> set (value_items (vget d ''server''))))"

lemma tool_scopes_empty: "tool_scope_names scopes = [] \<longleftrightarrow> (\<forall>t\<in>set scopes. startswith t ''server:'')"
  by (auto simp: tool_scope_names_def filter_empty_conv)

lemma matches_scope_part:
  "tool_scope_names scopes = [] \<or> cond_holds (vget d ''scopes'') (COps [QIn (map VStr (tool_scope_names scopes))])
   \<Longrightarrow> in_scope scopes d"
  by (auto simp: in_scope_def tool_scopes_empty vmem_def list_ex_iff) (auto simp: tool_scope_names_def)

lemma server_prefix_drop: "startswith x ''server:'' \<Longrightarrow> ''server:'' @ drop 7 x = x"
  by (auto simp: startswith_iff)

lemma matches_server_part:
  assumes "cond_holds (vget d ''server'') (COps [QIn (map VStr (allowed_servers scopes))])"
  shows "on_allowed_server scopes d"
proof -
  obtain x where "x \<in> set (allowed_servers scopes)" "VStr x \<in> set (value_items (vget d ''server''))"
    using assms by (auto simp: vmem_def list_ex_iff)
  moreover from this obtain y where "y \<in> set scopes" "startswith y ''server:''" "x = drop 7 y"
    by (auto simp: allowed_servers_def)
  ultimately show ?thesis using server_prefix_drop [of y] by (auto simp: on_allowed_server_def)
qed

lemma scope_filter_sound:
  assumes "matches d (scope_filter scopes server)"
  shows "in_scope scopes d \<and> (opt_text server = [] \<longrightarrow> on_allowed_server scopes d)
     \<and> (opt_text server \<noteq> [] \<longrightarrow> vget d ''server'' = VStr (opt_text server))"
proof -
  have part: "matches d ((if ts \<noteq> [] then [(''scopes'', c)] else []) @ q) \<longleftrightarrow> (ts = [] \<or> cond_holds (vget d ''scopes'') c) \<and> matches d q"
    for ts :: "string list" and c q by (simp add: resolve_plain)
  note m = assms [unfolded scope_filter_def Let_def]
  show ?thesis
  proof (cases "opt_text server = []")
    case False
    with m have "matches d ((if tool_scope_names scopes \<noteq> [] then [(''scopes'', COps [QIn (map VStr (tool_scope_names scopes))])] else [])
        @ [(''server'', CEq (VStr (opt_text server)))])" by simp
    then show ?thesis unfolding part using False matches_scope_part by (simp add: resolve_plain)
  next
    case none: True
    show ?thesis
    proof (cases "''server:*'' \<in> set scopes")
      case True
      with m none have "matches d ((if tool_scope_names scopes \<noteq> [] then [(''scopes'', COps [QIn (map VStr (tool_scope_names scopes))])] else [])
        @ [])" by simp
      then show ?thesis unfolding part using none True matches_scope_part by (simp add: on_allowed_server_def)
    next
      case False
      with m none have "matches d ((if tool_scope_names scopes \<noteq> [] then [(''scopes'', COps [QIn (map VStr (tool_scope_names scopes))])] else [])
        @ [(''server'', COps [QIn (map VStr (allowed_servers scopes))])])" by simp
      then show ?thesis unfolding part using none matches_scope_part matches_server_part by (simp only: matches_Cons resolve_plain) (simp add: resolve_plain)
    qed
  qed
qed

text \<open>The documented behaviour of the search stages: a result is a document of the collection that
  satisfies the filter of its pipeline, with its own fields; a fusion returns results of its arms.\<close>
definition shown_doc :: "doc \<Rightarrow> doc \<Rightarrow> bool" where
  "shown_doc d r = (\<forall>f\<in>set base_projection. vget r f = vget d f)"

definition comes_from :: "docs \<Rightarrow> query option \<Rightarrow> doc \<Rightarrow> bool" where
  "comes_from coll q r = (\<exists>d\<in>set coll. shown_doc d r \<and> (case q of Some q' \<Rightarrow> matches d q' | None \<Rightarrow> True))"

definition arms_sound :: "search_env \<Rightarrow> bool" where
  "arms_sound env =
     ((\<forall>coll p. \<forall>r\<in>set (run_vector env coll p). comes_from coll (vp_filter p) r)
    \<and> (\<forall>coll p. \<forall>r\<in>set (run_text env coll p). comes_from coll (tp_filter p) r)
    \<and> (\<forall>coll p rs. run_fusion env coll p = Some rs \<longrightarrow>
         (\<forall>r\<in>set rs. comes_from coll (vp_filter (fp_vector p)) r \<or> comes_from coll (tp_filter (fp_text p)) r)))"

lemma comes_from_change:
  assumes "comes_from coll q d" and "\<forall>f\<in>set base_projection. vget r f = vget d f"
  shows "comes_from coll q r"
  using assms by (auto simp: comes_from_def shown_doc_def)

lemma base_not_score: "f \<in> set base_projection \<Longrightarrow> f \<notin> {''score'', ''scoreDetails'', ''pinned''}"
  by (auto simp: base_projection_def)

lemma app_side_comes_from:
  assumes "arms_sound env" and "r \<in> set (search_hybrid_app_side env s coll q vec cap vw tw allowed server)"
  shows "comes_from coll (arm_filter allowed server) r"
proof -
  let ?vp = "build_vector_pipeline vec (cfg_hybrid_num_candidates s) (cfg_hybrid_pipeline_limit s) allowed server"
  let ?tp = "build_text_pipeline q (cfg_hybrid_pipeline_limit s) allowed server"
  obtain d where d: "d \<in> set (run_vector env coll ?vp) \<union> set (run_text env coll ?tp)"
    and same: "\<forall>k. k \<notin> {''score'', ''scoreDetails''} \<longrightarrow> vget r k = vget d k"
    using fused_member assms(2) unfolding search_hybrid_app_side_def by metis
  have "comes_from coll (vp_filter ?vp) d \<or> comes_from coll (tp_filter ?tp) d"
    using assms(1) d unfolding arms_sound_def by blast
  then have "comes_from coll (arm_filter allowed server) d" by (simp add: build_vector_pipeline_def build_text_pipeline_def)
  then show ?thesis by (rule comes_from_change) (use same base_not_score in blast)
qed

lemma ranked_comes_from:
  assumes "arms_sound env" and "r \<in> set (fst (search_ranked env s coll tid q md cap vw tw allowed server))"
  shows "comes_from coll (arm_filter allowed server) r"
proof -
  have lex: "comes_from coll (arm_filter allowed server) r"
    if "r \<in> set (run_text env coll (build_text_pipeline q cap allowed server))"
    using assms(1) that unfolding arms_sound_def by (metis build_text_pipeline_def text_pipeline.select_convs(3))
  have vec: "comes_from coll (arm_filter allowed server) r"
    if "r \<in> set (run_vector env coll (build_vector_pipeline v n cap allowed server))" for v n
    using assms(1) that unfolding arms_sound_def by (metis build_vector_pipeline_def vector_pipeline.select_convs(4))
  have fus: "comes_from coll (arm_filter allowed server) r"
    if "run_fusion env coll (build_rank_fusion_pipeline q v a b n m cap det allowed server) = Some rs" "r \<in> set rs" for v a b n m det rs
  proof -
    let ?p = "build_rank_fusion_pipeline q v a b n m cap det allowed server"
    have "comes_from coll (vp_filter (fp_vector ?p)) r \<or> comes_from coll (tp_filter (fp_text ?p)) r"
      using assms(1) that unfolding arms_sound_def by blast
    then show ?thesis by (simp add: build_rank_fusion_pipeline_def build_vector_pipeline_def build_text_pipeline_def)
  qed
  show ?thesis using assms(2) lex vec fus app_side_comes_from [OF assms(1)]
    by (auto simp: search_ranked_def Let_def split: if_splits option.splits)
qed

section \<open>Pinning\<close>

lemma vget_project [simp]: "f \<in> set base_projection \<Longrightarrow> vget (project_base d) f = vget d f"
  by (induction d) (auto simp: project_base_def vget_def)

lemma key_of_pinned [simp]: "key_of (dput ''pinned'' v d) = key_of d"
  by (simp add: key_of_def)

lemma pin_docs_member: "r \<in> set (pin_docs seen ds) \<Longrightarrow> \<exists>d\<in>set ds. r = dput ''pinned'' (VBool True) d"
  by (induction seen ds rule: pin_docs.induct) (auto split: if_splits)

lemma pin_docs_keys:
  "distinct (map key_of (pin_docs seen ds)) \<and> key_of ` set (pin_docs seen ds) = key_of ` set ds - set seen"
  by (induction seen ds rule: pin_docs.induct) (auto split: if_splits)

lemma fill_ranked_member: "set (fill_ranked n seen ds) \<subseteq> set ds"
  by (induction n seen ds rule: fill_ranked.induct) auto

lemma fill_ranked_keys:
  "distinct (map key_of (fill_ranked n seen ds)) \<and> key_of ` set (fill_ranked n seen ds) \<inter> set seen = {}
   \<and> length (fill_ranked n seen ds) \<le> n
   \<and> (key_of ` set ds \<subseteq> set seen \<union> key_of ` set (fill_ranked n seen ds) \<or> length (fill_ranked n seen ds) = n)"
  by (induction n seen ds rule: fill_ranked.induct) auto

text \<open>Pinned tools take reserved seats: every pinned tool is in the answer, marked and ahead of the
  ranked ones, no tool appears twice, the answer is no longer than the limit unless the pinned tools
  alone exceed it, and ranked tools are only left out of a full answer.\<close>
theorem pinned_tools_get_seats:
  fixes pinned ranked :: docs and cap :: int
  defines "answer \<equiv> merge_pinned pinned ranked cap"
  shows "(\<forall>p\<in>set pinned. \<exists>r\<in>set answer. key_of r = key_of p \<and> vget r ''pinned'' = VBool True)
     \<and> distinct (map key_of answer)
     \<and> int (length answer) \<le> max cap (int (card (key_of ` set pinned)))
     \<and> (\<forall>d\<in>set ranked. key_of d \<in> key_of ` set answer \<or> cap \<le> int (length answer))"
proof -
  define t where "t = pin_docs [] pinned"
  define n where "n = nat (max 0 (cap - int (length t)))"
  define f where "f = fill_ranked n (map key_of t) ranked"
  have a: "answer = t @ f" by (simp add: answer_def merge_pinned_def t_def n_def f_def Let_def)
  have tk: "distinct (map key_of t)" "key_of ` set t = key_of ` set pinned" using pin_docs_keys [of "[]" pinned] by (simp_all add: t_def)
  have fk: "distinct (map key_of f)" "key_of ` set f \<inter> key_of ` set t = {}" "length f \<le> n"
    "key_of ` set ranked \<subseteq> key_of ` set t \<union> key_of ` set f \<or> length f = n"
    using fill_ranked_keys [of n "map key_of t" ranked] by (simp_all add: f_def)
  have "card (key_of ` set pinned) = length t" using tk by (metis distinct_card length_map set_map)
  then have len: "int (length answer) \<le> max cap (int (card (key_of ` set pinned)))"
    using fk(3) by (simp add: a n_def)
  have pin: "\<exists>r\<in>set answer. key_of r = key_of p \<and> vget r ''pinned'' = VBool True" if p: "p \<in> set pinned" for p
  proof -
    have "key_of p \<in> key_of ` set t" using tk(2) p by simp
    then obtain r where r: "r \<in> set t" "key_of r = key_of p" by auto
    then show ?thesis using pin_docs_member [of r "[]" pinned] by (auto simp: a t_def)
  qed
  have rest: "key_of d \<in> key_of ` set answer \<or> cap \<le> int (length answer)" if d: "d \<in> set ranked" for d
  proof (cases "length f = n")
    case True
    then have "cap \<le> int (length answer)" unfolding a n_def by simp
    then show ?thesis ..
  next
    case False
    then have "key_of d \<in> key_of ` set t \<union> key_of ` set f" using fk(4) d by blast
    then show ?thesis by (auto simp: a)
  qed
  have "distinct (map key_of answer)" using tk(1) fk(1,2) by (auto simp: a)
  then show ?thesis using len pin rest by (intro conjI ballI) simp_all
qed

section \<open>The whole search\<close>

lemma pinned_comes_from:
  assumes "r \<in> set (fetch_always_included coll allowed server)"
  shows "comes_from coll (arm_filter allowed server) r"
proof -
  obtain d where "d \<in> set coll" "r = project_base d"
    and "matches d ((''metadata.always_included'', CEq (VBool True)) # (case arm_filter allowed server of Some q \<Rightarrow> q | None \<Rightarrow> []))"
    using assms by (auto simp: fetch_always_included_def find_docs_def Let_def)
  then show ?thesis
    by (auto simp: comes_from_def shown_doc_def split: option.splits)
qed

lemma search_comes_from:
  assumes "arms_sound env" and "r \<in> set (search_tools env s catalog tid q cap vw tw allowed mode server)"
  shows "comes_from (catalog (resolve_tenant s tid)) (arm_filter allowed server) r"
proof -
  let ?coll = "catalog (resolve_tenant s tid)"
  let ?pinned = "fetch_always_included ?coll allowed server"
  obtain n md where
    c: "r \<in> set (fst (search_ranked env s ?coll (resolve_tenant s tid) q md n vw tw allowed server))
      \<or> r \<in> set (merge_pinned ?pinned (fst (search_ranked env s ?coll (resolve_tenant s tid) q md n vw tw allowed server)) n)"
    using assms(2) by (auto simp: search_tools_def Let_def split: if_splits)
  have "comes_from ?coll (arm_filter allowed server) r" if pr: "r \<in> set (pin_docs [] ?pinned)"
  proof -
    obtain d where d: "d \<in> set ?pinned" "r = dput ''pinned'' (VBool True) d" using pin_docs_member [OF pr] by blast
    show ?thesis by (rule comes_from_change [OF pinned_comes_from [OF d(1)]]) (use d(2) base_not_score in auto)
  qed
  then show ?thesis using c ranked_comes_from [OF assms(1)] fill_ranked_member
    by (fastforce simp: merge_pinned_def Let_def)
qed

text \<open>Identity narrows every search: whatever mode or fallback served the query, pinned tools
  included, a caller's non-empty scope list only ever discovers catalogued tools of the servers the
  list names, carrying one of its tool scopes when it has any.\<close>
theorem search_within_scopes:
  assumes "arms_sound env" and "normalize_scope_list allowed = Some scopes"
    and "r \<in> set (search_tools env s catalog tid q cap vw tw allowed mode None)"
  shows "in_scope scopes r \<and> on_allowed_server scopes r \<and> (\<exists>d\<in>set (catalog (resolve_tenant s tid)). key_of d = key_of r)"
proof -
  have "arm_filter allowed None = Some (scope_filter scopes None)" using assms(2) by (simp add: arm_filter_def)
  then obtain d where d: "d \<in> set (catalog (resolve_tenant s tid))" "shown_doc d r" "matches d (scope_filter scopes None)"
    using search_comes_from [OF assms(1,3)] by (auto simp: comes_from_def)
  then have same: "vget r ''server'' = vget d ''server''" "vget r ''name'' = vget d ''name''" "vget r ''scopes'' = vget d ''scopes''"
    by (simp_all add: shown_doc_def base_projection_def)
  have "in_scope scopes d" "on_allowed_server scopes d" using scope_filter_sound [OF d(3)] by (simp_all add: opt_text_def)
  then show ?thesis using d(1) same by (auto simp: in_scope_def on_allowed_server_def key_of_def)
qed

section \<open>A concrete catalog\<close>

definition demo_catalog :: "string \<Rightarrow> docs" where
  "demo_catalog = (\<lambda>_. [[(''server'', VStr ''crm''), (''name'', VStr ''find''), (''scopes'', VList [VStr ''crm:read''])],
     [(''server'', VStr ''hr''), (''name'', VStr ''fire''), (''scopes'', VList [VStr ''hr:write''])]])"

text \<open>Arms that return every document passing the filter.\<close>
definition demo_search_env :: search_env where
  "demo_search_env = \<lparr>run_vector = (\<lambda>coll p. find_docs (case vp_filter p of Some q \<Rightarrow> q | None \<Rightarrow> []) coll),
     run_text = (\<lambda>coll p. find_docs (case tp_filter p of Some q \<Rightarrow> q | None \<Rightarrow> []) coll),
     run_fusion = (\<lambda>_ _. None), embed_query = (\<lambda>_ _. Some [1])\<rparr>"

lemma demo_arms_sound: "arms_sound demo_search_env"
  by (auto simp: arms_sound_def demo_search_env_def find_docs_def comes_from_def shown_doc_def split: option.splits)

lemma fusion_is_top_of_rrf_witness:
  "distinct (map key_of (fuse_rrf (demo_catalog ''t'') (rev (demo_catalog ''t'')) 1 2 5 True))"
  using fusion_is_top_of_rrf [of 5 "demo_catalog ''t''" "rev (demo_catalog ''t'')" 1 2 True] by simp

lemma demo_search_result:
  "\<exists>r. r \<in> set (search_tools demo_search_env default_settings demo_catalog (Some ''t'') ''q'' None None None
       (Some [''server:crm'', ''crm:read'']) (Some ''text'') None) \<and> vget r ''name'' = VStr ''find''"
proof -
  let ?q = "scope_filter [''server:crm'', ''crm:read''] None"
  have f: "arm_filter (Some [''server:crm'', ''crm:read'']) None = Some ?q"
    by (simp add: arm_filter_def normalize_scope_list_def)
  have q: "?q = [(''scopes'', COps [QIn [VStr ''crm:read'']]), (''server'', COps [QIn [VStr ''crm'']])]"
    by (simp add: scope_filter_def tool_scope_names_def allowed_servers_def startswith_def sorted_set_def opt_text_def)
  have none: "fetch_always_included (demo_catalog ''t'') (Some [''server:crm'', ''crm:read'']) None = []"
    unfolding fetch_always_included_def f
    by (simp add: find_docs_def demo_catalog_def resolve_path_def split_on_def)
  have md: "lower (if opt_text (Some ''text'') = [] then ''hybrid'' else opt_text (Some ''text'')) = ''text''"
    by (simp add: opt_text_def lower_def lower_char_def is_upper_def)
  have "search_tools demo_search_env default_settings demo_catalog (Some ''t'') ''q'' None None None
       (Some [''server:crm'', ''crm:read'']) (Some ''text'') None
     = run_text demo_search_env (demo_catalog ''t'') (build_text_pipeline ''q'' (int_or None (cfg_hybrid_output_limit default_settings))
         (Some [''server:crm'', ''crm:read'']) None)"
    unfolding search_tools_def Let_def md search_ranked_def by (simp add: none resolve_tenant_def)
  also have "\<dots> = find_docs ?q (demo_catalog ''t'')" by (simp add: demo_search_env_def build_text_pipeline_def f)
  also have "\<dots> = [hd (demo_catalog ''t'')]"
    unfolding q by (simp add: find_docs_def demo_catalog_def resolve_plain value_items_def vmem_def)
  finally show ?thesis by (simp add: demo_catalog_def)
qed

lemma search_within_scopes_witness:
  "\<exists>r. in_scope [''server:crm'', ''crm:read''] r \<and> on_allowed_server [''server:crm'', ''crm:read''] r"
proof -
  obtain r where r: "r \<in> set (search_tools demo_search_env default_settings demo_catalog (Some ''t'') ''q'' None None None
       (Some [''server:crm'', ''crm:read'']) (Some ''text'') None)"
    using demo_search_result by blast
  have "normalize_scope_list (Some [''server:crm'', ''crm:read'']) = Some [''server:crm'', ''crm:read'']"
    by (simp add: normalize_scope_list_def)
  from search_within_scopes [OF demo_arms_sound this r] show ?thesis by blast
qed

lemma pinned_tools_get_seats_witness:
  "distinct (map key_of (merge_pinned (demo_catalog []) (demo_catalog []) 1))"
  by (rule conjunct1 [OF conjunct2 [OF pinned_tools_get_seats [of "demo_catalog []" "demo_catalog []" 1]]])

end
