(* ===== verification/TenantLifecycle.thy ===== *)
theory TenantLifecycle
  imports TenantStatus
begin

text \<open>\<open>services/tenant_provisioner.py\<close>: the life of a tenant.  Provisioning on first use, soft delete
  with a retention period, restore, and the purge that drops what has expired.  \<open>fleet\<close> holds the
  control-plane \<open>tenants\<close> collection, the names of the tenant databases that exist, the status
  cache and the set of tenants this process has seen ready.  Index and encryption set-up, which
  is idempotent DDL, is not modelled; the SHA-256 digest and the outcome of dropping a database
  are parameters.\<close>

section \<open>State\<close>

record fleet =
  fl_tenants :: docs
  fl_databases :: "string list"
  fl_status :: "string cache"
  fl_ready :: "string list"

datatype drop_outcome = Dropped | DropRaises | NoClient

datatype fleet_error = UnknownTenantError string

definition is_word_char :: "char \<Rightarrow> bool" where
  "is_word_char c = (is_alnum c \<or> c = CHR ''_'')"

definition tenant_db_name :: "(string \<Rightarrow> string) \<Rightarrow> settings \<Rightarrow> string \<Rightarrow> string" where
  "tenant_db_name sha256 s tid =
     (let sanitized = rstrip_char CHR ''_'' (dropWhile (\<lambda>c. c = CHR ''_'')
            (map (\<lambda>c. if is_word_char c then c else CHR ''_'') tid));
          base = (if sanitized = [] then ''default'' else sanitized)
      in cfg_tenant_db_prefix s @ base @ ''_'' @ take 8 (sha256 tid))"

definition evict_tenant_cache :: "string \<Rightarrow> fleet \<Rightarrow> fleet" where
  "evict_tenant_cache tid w = w\<lparr>fl_ready := filter (\<lambda>t. t \<noteq> tid) (fl_ready w)\<rparr>"

section \<open>Provisioning\<close>

definition provision_update :: "string \<Rightarrow> real \<Rightarrow> string \<Rightarrow> update_spec" where
  "provision_update db now tid =
     (set_fields [(''tenant_id'', VStr tid), (''db_name'', VStr db), (''updated_at'', VTime now)])
       \<lparr>upd_set_on_insert := [(''created_at'', VTime now), (''status'', VStr ''active'')]\<rparr>"

definition provision_tenant :: "(string \<Rightarrow> string) \<Rightarrow> settings \<Rightarrow> real \<Rightarrow> string \<Rightarrow> fleet \<Rightarrow> string \<times> fleet" where
  "provision_tenant sha s now tid w =
     (let db = tenant_db_name sha s tid
      in (db, w\<lparr>fl_tenants := fst (update_one (key_query ''tenant_id'' tid) (provision_update db now tid) True (fl_tenants w)),
                fl_databases := List.insert db (fl_databases w),
                fl_ready := List.insert tid (fl_ready w)\<rparr>))"

definition ensure_tenant_ready ::
  "(string \<Rightarrow> string) \<Rightarrow> settings \<Rightarrow> real \<Rightarrow> string \<Rightarrow> fleet \<Rightarrow> (fleet_error + unit) \<times> fleet" where
  "ensure_tenant_ready sha s now tid w =
     (if tid \<in> set (fl_ready w) then (Inr (), w)
      else case find_tenant (fl_tenants w) tid of
          Some _ \<Rightarrow> (Inr (), w\<lparr>fl_ready := List.insert tid (fl_ready w)\<rparr>)
        | None \<Rightarrow>
            if \<not> cfg_auto_provision_tenants s then (Inl (UnknownTenantError tid), w)
            else (Inr (), snd (provision_tenant sha s now tid w)))"

section \<open>Removal\<close>

text \<open>None: dropping the database raised, after the control document was deleted.\<close>
definition deprovision_tenant ::
  "(string \<Rightarrow> string) \<Rightarrow> settings \<Rightarrow> (string \<Rightarrow> drop_outcome) \<Rightarrow> string \<Rightarrow> fleet \<Rightarrow> bool option \<times> fleet" where
  "deprovision_tenant sha s drp tid w =
     (let db = tenant_db_name sha s tid
      in case delete_many (key_query ''tenant_id'' tid) (fl_tenants w) of
           (ds, n) \<Rightarrow>
             (let w1 = w\<lparr>fl_tenants := ds\<rparr> in
              case drp db of
                DropRaises \<Rightarrow> (None, w1)
              | NoClient \<Rightarrow> (Some (n > 0), evict_tenant_cache tid w1)
              | Dropped \<Rightarrow> (Some (n > 0), evict_tenant_cache tid
                             (w1\<lparr>fl_databases := filter (\<lambda>x. x \<noteq> db) (fl_databases w1)\<rparr>))))"

definition soft_delete_extra :: "real \<Rightarrow> int \<Rightarrow> doc" where
  "soft_delete_extra wall days =
     [(''deleted_at'', VTime wall), (''purge_at'', VTime (wall + 86400 * of_int (max 0 days))), (''purge_started_at'', VNone)]"

text \<open>\<open>set_tenant_status\<close> only fails on an unknown status name, which these two callers never pass.\<close>
definition status_step ::
  "settings \<Rightarrow> real \<Rightarrow> real \<Rightarrow> string \<Rightarrow> string \<Rightarrow> string option \<Rightarrow> doc \<Rightarrow> fleet \<Rightarrow> doc option \<times> fleet" where
  "status_step s wall now tid status actor extra w =
     (case set_tenant_status (status_cache_ttl s) wall now (fl_tenants w) (fl_status w) tid status actor None extra of
        None \<Rightarrow> (None, w)
      | Some (None, db, c) \<Rightarrow> (None, w\<lparr>fl_tenants := db, fl_status := c\<rparr>)
      | Some (Some d, db, c) \<Rightarrow> (Some d, evict_tenant_cache tid (w\<lparr>fl_tenants := db, fl_status := c\<rparr>)))"

definition soft_delete_tenant ::
  "settings \<Rightarrow> real \<Rightarrow> real \<Rightarrow> string \<Rightarrow> int option \<Rightarrow> string option \<Rightarrow> fleet \<Rightarrow> doc option \<times> fleet" where
  "soft_delete_tenant s wall now tid retention actor w =
     (let days = (case retention of Some d \<Rightarrow> d | None \<Rightarrow> cfg_tenant_retention_days s)
      in status_step s wall now tid STATUS_DELETED actor (soft_delete_extra wall days) w)"

definition restore_extra :: doc where
  "restore_extra = [(''deleted_at'', VNone), (''purge_at'', VNone), (''purge_started_at'', VNone)]"

definition restore_tenant ::
  "settings \<Rightarrow> real \<Rightarrow> real \<Rightarrow> string \<Rightarrow> string option \<Rightarrow> fleet \<Rightarrow> doc option \<times> fleet" where
  "restore_tenant s wall now tid actor w =
     (case find_tenant (fl_tenants w) tid of
        None \<Rightarrow> (None, w)
      | Some d \<Rightarrow>
          if py_str (vget d ''status'') \<noteq> STATUS_DELETED then (None, w)
          else status_step s wall now tid STATUS_ACTIVE actor restore_extra w)"

section \<open>The purge sweep\<close>

definition claim_query :: "real \<Rightarrow> string list \<Rightarrow> query" where
  "claim_query cutoff failed =
     [(''status'', CEq (VStr STATUS_DELETED)), (''purge_at'', COps [QLte (VTime cutoff)]), (''purge_started_at'', CEq VNone)]
     @ (if failed \<noteq> [] then [(''tenant_id'', COps [QNin (map VStr failed)])] else [])"

definition claim_expired :: "real \<Rightarrow> string list \<Rightarrow> fleet \<Rightarrow> doc option \<times> fleet" where
  "claim_expired cutoff failed w =
     (case find_one_and_update (claim_query cutoff failed) (set_fields [(''purge_started_at'', VTime cutoff)]) False (fl_tenants w) of
        (d, ds) \<Rightarrow> (d, w\<lparr>fl_tenants := ds\<rparr>))"

definition release_claim :: "string \<Rightarrow> fleet \<Rightarrow> fleet" where
  "release_claim tid w =
     w\<lparr>fl_tenants := fst (update_one [(''tenant_id'', CEq (VStr tid)), (''status'', CEq (VStr STATUS_DELETED))]
          (set_fields [(''purge_started_at'', VNone)]) False (fl_tenants w))\<rparr>"

text \<open>\<open>drp i\<close> is how the i-th database drop of the sweep turns out.\<close>
fun purge_loop ::
  "(string \<Rightarrow> string) \<Rightarrow> settings \<Rightarrow> (nat \<Rightarrow> string \<Rightarrow> drop_outcome) \<Rightarrow> real \<Rightarrow> nat \<Rightarrow> string list \<Rightarrow> fleet \<Rightarrow> nat \<times> fleet" where
  "purge_loop sha s drp cutoff 0 failed w = (0, w)"
| "purge_loop sha s drp cutoff (Suc n) failed w =
     (case claim_expired cutoff failed w of
        (None, w1) \<Rightarrow> (0, w1)
      | (Some d, w1) \<Rightarrow>
          (let tid = py_str (py_or (vget d ''tenant_id'') (VStr [])) in
           if tid = [] then purge_loop sha s drp cutoff n failed w1
           else (case deprovision_tenant sha s (drp n) tid w1 of
               (Some _, w2) \<Rightarrow> (case purge_loop sha s drp cutoff n failed w2 of (k, w3) \<Rightarrow> (Suc k, w3))
             | (None, w2) \<Rightarrow> purge_loop sha s drp cutoff n (failed @ [tid]) (release_claim tid w2))))"

definition purge_expired_tenants ::
  "(string \<Rightarrow> string) \<Rightarrow> settings \<Rightarrow> (nat \<Rightarrow> string \<Rightarrow> drop_outcome) \<Rightarrow> real \<Rightarrow> int \<Rightarrow> fleet \<Rightarrow> nat \<times> fleet" where
  "purge_expired_tenants sha s drp cutoff cap w = purge_loop sha s drp cutoff (nat (max 0 cap)) [] w"

section \<open>What the sweep leaves alone\<close>

text \<open>A control plane as its unique index and its writers keep it: one document per tenant, named by
  a text.\<close>
definition well_keyed_tenants :: "docs \<Rightarrow> bool" where
  "well_keyed_tenants ds = (distinct_keys ''tenant_id'' ds \<and> (\<forall>d\<in>set ds. is_str (vget d ''tenant_id'')))"

definition due :: "real \<Rightarrow> doc option \<Rightarrow> bool" where
  "due cutoff x = (case x of Some d \<Rightarrow> matches d (claim_query cutoff []) | None \<Rightarrow> False)"

definition keeps_tenant :: "string \<Rightarrow> string \<Rightarrow> fleet \<Rightarrow> fleet \<Rightarrow> bool" where
  "keeps_tenant tid db w w' =
     (well_keyed_tenants (fl_tenants w') \<and> find_tenant (fl_tenants w') tid = find_tenant (fl_tenants w) tid
      \<and> (db \<in> set (fl_databases w') \<longleftrightarrow> db \<in> set (fl_databases w)))"

lemma keeps_trans: "keeps_tenant tid db w w1 \<Longrightarrow> keeps_tenant tid db w1 w2 \<Longrightarrow> keeps_tenant tid db w w2"
  by (simp add: keeps_tenant_def)

lemma claim_narrows: "matches d (claim_query cutoff failed) \<Longrightarrow> matches d (claim_query cutoff [])"
  by (simp add: claim_query_def resolve_plain)

lemma find_one_skip:
  assumes "\<And>d. d \<in> set ds \<Longrightarrow> p d \<Longrightarrow> \<not> matches d q \<and> \<not> matches (f d) q"
  shows "find_one q (on_first p f ds) = find_one q ds"
  using assms by (induction ds) auto

lemma in_on_first: "d \<in> set (on_first p f ds) \<Longrightarrow> d \<in> set ds \<or> (\<exists>e\<in>set ds. p e \<and> d = f e)"
  by (induction ds) (auto split: if_splits)

lemma well_keyed_on_first:
  assumes "well_keyed_tenants ds" and "\<And>d. vget (f d) ''tenant_id'' = vget d ''tenant_id''"
  shows "well_keyed_tenants (on_first p f ds)"
  using assms in_on_first [of _ p f ds]
  by (auto simp: well_keyed_tenants_def distinct_keys_def map_key_on_first [OF assms(2)]) metis+

lemma tenant_lookup:
  "well_keyed_tenants ds \<Longrightarrow> find_tenant ds tid = Some d \<longleftrightarrow> d \<in> set ds \<and> vget d ''tenant_id'' = VStr tid"
  unfolding find_tenant_def by (rule find_key_iff) (simp_all add: well_keyed_tenants_def)

lemma touch_other:
  assumes "well_keyed_tenants ds" and "untouched ''tenant_id'' u"
    and "\<And>d. d \<in> set ds \<Longrightarrow> p d \<Longrightarrow> vget d ''tenant_id'' \<noteq> VStr tid"
  shows "well_keyed_tenants (on_first p (apply_update u) ds) \<and> find_tenant (on_first p (apply_update u) ds) tid = find_tenant ds tid"
proof -
  have un: "vget (apply_update u d) ''tenant_id'' = vget d ''tenant_id''" for d using vget_untouched [OF assms(2)] .
  have "find_tenant (on_first p (apply_update u) ds) tid = find_tenant ds tid"
    unfolding find_tenant_def by (rule find_one_skip) (use assms(3) un in auto)
  then show ?thesis using well_keyed_on_first [OF assms(1) un] by blast
qed

lemma claim_keeps:
  assumes "well_keyed_tenants (fl_tenants w)" and "\<not> due cutoff (find_tenant (fl_tenants w) tid)"
    and "claim_expired cutoff failed w = (r, w1)"
  shows "keeps_tenant tid db w w1"
    and "r = Some d \<Longrightarrow> \<exists>u. vget d ''tenant_id'' = VStr u \<and> u \<noteq> tid"
proof -
  let ?u = "set_fields [(''purge_started_at'', VTime cutoff)]"
  have un: "untouched ''tenant_id'' ?u" by (simp add: untouched_def)
  have oth: "vget x ''tenant_id'' \<noteq> VStr tid" if "x \<in> set (fl_tenants w)" "matches x (claim_query cutoff failed)" for x
    using that assms(2) tenant_lookup [OF assms(1), of tid x] claim_narrows by (auto simp: due_def)
  show "keeps_tenant tid db w w1"
  proof (cases "find_one (claim_query cutoff failed) (fl_tenants w)")
    case None
    then show ?thesis using assms(1,3) by (auto simp: claim_expired_def fou_missing keeps_tenant_def)
  next
    case (Some x)
    then show ?thesis using assms(3) touch_other [OF assms(1) un oth]
      by (auto simp: claim_expired_def fou_hit keeps_tenant_def)
  qed
  assume "r = Some d"
  then obtain x where x: "find_one (claim_query cutoff failed) (fl_tenants w) = Some x" "d = apply_update ?u x"
    using assms(3) by (auto simp: claim_expired_def find_one_and_update_def split: option.splits)
  then have m: "x \<in> set (fl_tenants w)" "matches x (claim_query cutoff failed)" using find_one_SomeD by auto
  then have "is_str (vget x ''tenant_id'')" using assms(1) by (simp add: well_keyed_tenants_def)
  then show "\<exists>u. vget d ''tenant_id'' = VStr u \<and> u \<noteq> tid"
    using oth [OF m] x(2) vget_untouched [OF un, of x] by (auto simp: is_str_def split: pyval.splits)
qed

lemma find_one_filter: "(\<And>d. matches d q \<Longrightarrow> p d) \<Longrightarrow> find_one q (filter p ds) = find_one q ds"
  by (induction ds) auto

lemma deprovision_keeps:
  assumes "well_keyed_tenants (fl_tenants w)" and "u \<noteq> tid" and "tenant_db_name sha s u \<noteq> tenant_db_name sha s tid"
  shows "keeps_tenant tid (tenant_db_name sha s tid) w (snd (deprovision_tenant sha s drp u w))"
proof -
  let ?ds = "filter (\<lambda>d. \<not> matches d (key_query ''tenant_id'' u)) (fl_tenants w)"
  have "find_tenant ?ds tid = find_tenant (fl_tenants w) tid"
    unfolding find_tenant_def by (rule find_one_filter) (use assms(2) in simp)
  moreover have "well_keyed_tenants ?ds"
    using assms(1) by (auto simp: well_keyed_tenants_def distinct_keys_def distinct_map inj_on_def)
  ultimately show ?thesis using assms(3)
    by (auto simp: deprovision_tenant_def delete_many_def keeps_tenant_def evict_tenant_cache_def Let_def split: drop_outcome.splits)
qed

lemma release_keeps:
  assumes "well_keyed_tenants (fl_tenants w)" and "u \<noteq> tid"
  shows "keeps_tenant tid db w (release_claim u w)"
proof -
  let ?q = "[(''tenant_id'', CEq (VStr u)), (''status'', CEq (VStr STATUS_DELETED))]"
  let ?u = "set_fields [(''purge_started_at'', VNone)]"
  have un: "untouched ''tenant_id'' ?u" by (simp add: untouched_def)
  have oth: "vget x ''tenant_id'' \<noteq> VStr tid" if "matches x ?q" for x using that assms(2) by (simp add: resolve_plain)
  show ?thesis
  proof (cases "find_one ?q (fl_tenants w)")
    case None
    then show ?thesis using assms(1) by (simp add: release_claim_def update_one_def fou_missing keeps_tenant_def)
  next
    case (Some x)
    then show ?thesis using touch_other [OF assms(1) un, of "\<lambda>x. matches x ?q" tid] oth
      by (simp add: release_claim_def update_one_def fou_hit keeps_tenant_def)
  qed
qed

lemma purge_keeps:
  assumes "well_keyed_tenants (fl_tenants w)" and "\<not> due cutoff (find_tenant (fl_tenants w) tid)"
    and "\<And>u. u \<noteq> tid \<Longrightarrow> tenant_db_name sha s u \<noteq> tenant_db_name sha s tid"
  shows "keeps_tenant tid (tenant_db_name sha s tid) w (snd (purge_loop sha s drp cutoff n failed w))"
  using assms(1,2)
proof (induction n arbitrary: failed w)
  case 0
  then show ?case by (simp add: keeps_tenant_def)
next
  case (Suc n)
  let ?db = "tenant_db_name sha s tid"
  obtain r w1 where c: "claim_expired cutoff failed w = (r, w1)" by fastforce
  have k1: "keeps_tenant tid ?db w w1" using claim_keeps(1) [OF Suc.prems c] .
  have go: "keeps_tenant tid ?db w (snd (purge_loop sha s drp cutoff n f w2))" if "keeps_tenant tid ?db w w2" for f w2
    using Suc.IH [of w2 f] that Suc.prems(2) keeps_trans [OF that] by (simp add: keeps_tenant_def)
  show ?case
  proof (cases r)
    case None
    then show ?thesis using c k1 by simp
  next
    case (Some d)
    obtain u where u: "vget d ''tenant_id'' = VStr u" "u \<noteq> tid" using claim_keeps(2) [OF Suc.prems c Some] by blast
    have tid: "py_str (py_or (vget d ''tenant_id'') (VStr [])) = u" using u(1) by (simp add: py_or_def)
    obtain b w2 where dp: "deprovision_tenant sha s (drp n) u w1 = (b, w2)" by fastforce
    have wk1: "well_keyed_tenants (fl_tenants w1)" using k1 by (simp add: keeps_tenant_def)
    have k2: "keeps_tenant tid ?db w w2"
      using keeps_trans [OF k1] deprovision_keeps [OF wk1 u(2) assms(3) [OF u(2)], of "drp n"] dp by simp
    have k3: "keeps_tenant tid ?db w (release_claim u w2)"
      using keeps_trans [OF k2] release_keeps [of w2 u tid ?db] u(2) k2 by (simp add: keeps_tenant_def)
    obtain k w3 where pl: "purge_loop sha s drp cutoff n failed w2 = (k, w3)" by fastforce
    then have "keeps_tenant tid ?db w w3" using go [OF k2, of failed] by simp
    then show ?thesis
      using go [OF k1, of failed] go [OF k3, of "failed @ [u]"] by (cases b) (simp_all add: c Some tid dp pl Let_def)
  qed
qed


section \<open>Two ways the sweep goes wrong\<close>

text \<open>A failed database drop is not retried: \<open>deprovision_tenant\<close> deletes the control document before it
  drops the database, so when the drop raises, the released claim finds no document and no later
  sweep, however it goes, ever removes the database.\<close>
theorem failed_drop_is_never_retried:
  assumes "well_keyed_tenants (fl_tenants w)" and "deprovision_tenant sha s drp tid w = (None, w1)"
    and "tenant_db_name sha s tid \<in> set (fl_databases w)"
    and "\<And>u. u \<noteq> tid \<Longrightarrow> tenant_db_name sha s u \<noteq> tenant_db_name sha s tid"
  shows "find_tenant (fl_tenants (release_claim tid w1)) tid = None
     \<and> tenant_db_name sha s tid \<in> set (fl_databases (snd (purge_expired_tenants sha s drops cutoff cap (release_claim tid w1))))"
proof -
  let ?ds = "filter (\<lambda>d. \<not> matches d (key_query ''tenant_id'' tid)) (fl_tenants w)"
  have w1: "fl_tenants w1 = ?ds" "fl_databases w1 = fl_databases w"
    using assms(2) by (auto simp: deprovision_tenant_def delete_many_def Let_def split: drop_outcome.splits)
  have "find_one [(''tenant_id'', CEq (VStr tid)), (''status'', CEq (VStr STATUS_DELETED))] ?ds = None"
    by (auto simp: find_one_None_iff resolve_plain)
  then have rel: "release_claim tid w1 = w1"
    by (simp add: release_claim_def update_one_def fou_missing w1)
  have none: "find_tenant (fl_tenants w1) tid = None" by (simp add: w1 find_tenant_def find_one_None_iff)
  moreover have "well_keyed_tenants (fl_tenants w1)"
    using assms(1) by (auto simp: w1 well_keyed_tenants_def distinct_keys_def distinct_map inj_on_def)
  ultimately show ?thesis
    using purge_keeps [of w1 cutoff tid sha s drops "nat (max 0 cap)" "[]"] assms(3,4)
    by (simp add: rel due_def purge_expired_tenants_def keeps_tenant_def w1)
qed

lemma status_step_effect:
  assumes "status_step s wall now tid status actor extra w = (Some d, w')" and "extra_ok extra"
    and "normalize_status status = Some n"
  shows "status_of_doc (doc_or_empty (find_tenant (fl_tenants w') tid)) = n \<and> find_tenant (fl_tenants w') tid \<noteq> None
     \<and> fl_databases w' = fl_databases w \<and> tid \<notin> set (fl_ready w')
     \<and> (now \<le> t \<longrightarrow> fst (get_tenant_status (status_cache_ttl s) t (fl_tenants w') (fl_status w') tid) = n)"
proof -
  obtain db c where e: "set_tenant_status (status_cache_ttl s) wall now (fl_tenants w) (fl_status w) tid status actor None extra
      = Some (Some d, db, c)" and w': "w' = evict_tenant_cache tid (w\<lparr>fl_tenants := db, fl_status := c\<rparr>)"
    using assms(1) by (auto simp: status_step_def split: option.splits prod.splits)
  note st = set_status_stored [OF e assms(3,2)]
  have "update_tenant tid (set_fields (status_updates n wall actor None extra)) (fl_tenants w) = (Some d, db)"
    using e assms(3) by (auto simp: set_tenant_status_def split: option.splits prod.splits)
  moreover have "untouched ''tenant_id'' (set_fields (status_updates n wall actor None extra))"
    using assms(2) by (auto simp: untouched_def fst_status_updates extra_ok_def)
  ultimately have "find_tenant db tid = Some d" using tenants.modify_returns_stored by blast
  then show ?thesis using st
    by (auto simp: w' evict_tenant_cache_def status.get_value cache_hit_written status.stored_def)
qed

lemma lifecycle_extras: "extra_ok (soft_delete_extra wall days)" "extra_ok restore_extra"
  by (simp_all add: extra_ok_def soft_delete_extra_def restore_extra_def)

lemma soft_delete_step:
  "soft_delete_tenant s wall now tid ret actor w
   = status_step s wall now tid STATUS_DELETED actor
       (soft_delete_extra wall (case ret of Some d \<Rightarrow> d | None \<Rightarrow> cfg_tenant_retention_days s)) w"
  by (simp add: soft_delete_tenant_def Let_def)

lemma lifecycle_names: "normalize_status STATUS_DELETED = Some STATUS_DELETED" "normalize_status STATUS_ACTIVE = Some STATUS_ACTIVE"
  by (simp_all add: normalize_valid VALID_STATUSES_def)

lemma deleted_not_active: "STATUS_DELETED \<noteq> STATUS_ACTIVE"
  by (simp add: STATUS_DELETED_def STATUS_ACTIVE_def)

text \<open>Soft delete locks a tenant out at once and keeps its database; restoring it puts it back in
  service at once.\<close>
theorem soft_delete_locks_out_and_restores:
  assumes "soft_delete_tenant s wall now tid ret actor w = (Some d, w1)"
    and "restore_tenant s wall' now' tid actor' w1 = (Some d', w2)" and "now \<le> t" and "now' \<le> t'"
  shows "fst (assert_tenant_active (status_cache_ttl s) t (fl_tenants w1) (fl_status w1) tid) \<noteq> Inr ()
     \<and> tid \<notin> set (fl_ready w1) \<and> fl_databases w2 = fl_databases w
     \<and> fst (assert_tenant_active (status_cache_ttl s) t' (fl_tenants w2) (fl_status w2) tid) = Inr ()"
proof -
  obtain e where "status_step s wall now tid STATUS_DELETED actor e w = (Some d, w1)" and "extra_ok e"
    using assms(1) lifecycle_extras by (auto simp: soft_delete_step)
  from status_step_effect [OF this lifecycle_names(1), of t] assms(3)
  have 1: "fst (get_tenant_status (status_cache_ttl s) t (fl_tenants w1) (fl_status w1) tid) = STATUS_DELETED"
    "tid \<notin> set (fl_ready w1)" "fl_databases w1 = fl_databases w" by simp_all
  have "status_step s wall' now' tid STATUS_ACTIVE actor' restore_extra w1 = (Some d', w2)"
    using assms(2) by (auto simp: restore_tenant_def split: option.splits if_splits)
  from status_step_effect [OF this lifecycle_extras(2) lifecycle_names(2), of t'] assms(4)
  have 2: "fst (get_tenant_status (status_cache_ttl s) t' (fl_tenants w2) (fl_status w2) tid) = STATUS_ACTIVE"
    "fl_databases w2 = fl_databases w1" by simp_all
  show ?thesis using 1 2 deleted_not_active by (simp add: assert_active_iff)
qed

text \<open>A restore does not cancel a claimed purge: when an operator restores a tenant after the sweep
  has claimed it and before the drop, the restore succeeds, the tenant is active, and its control
  document and database are then deleted all the same.\<close>
theorem restore_after_claim_loses_data:
  assumes "claim_expired cutoff failed w = (Some d, w1)" and "vget d ''tenant_id'' = VStr tid"
    and "restore_tenant s wall now tid actor w1 = (Some d', w2)"
    and "drp (tenant_db_name sha s tid) = Dropped" and "deprovision_tenant sha s drp tid w2 = (r, w3)"
  shows "status_of_doc (doc_or_empty (find_tenant (fl_tenants w2) tid)) = STATUS_ACTIVE
     \<and> find_tenant (fl_tenants w3) tid = None \<and> tenant_db_name sha s tid \<notin> set (fl_databases w3)"
proof -
  have "status_step s wall now tid STATUS_ACTIVE actor restore_extra w1 = (Some d', w2)"
    using assms(3) by (auto simp: restore_tenant_def split: option.splits if_splits)
  from status_step_effect [OF this lifecycle_extras(2) lifecycle_names(2)]
  have "status_of_doc (doc_or_empty (find_tenant (fl_tenants w2) tid)) = STATUS_ACTIVE" by simp
  moreover have "find_tenant (fl_tenants w3) tid = None \<and> tenant_db_name sha s tid \<notin> set (fl_databases w3)"
    using assms(4,5)
    by (auto simp: deprovision_tenant_def delete_many_def evict_tenant_cache_def find_tenant_def find_one_None_iff Let_def)
  ultimately show ?thesis by blast
qed

text \<open>First use: a tenant the gateway lets through afterwards exists as an active tenant with a
  database when it was unknown before, an unknown tenant is refused and nothing is created when
  provisioning on use is off, and a known tenant's document and database are untouched.\<close>
theorem first_use_provisions:
  assumes "ensure_tenant_ready sha s now tid w = (r, w')" and "tid \<notin> set (fl_ready w)"
  shows "(r = Inr () \<longleftrightarrow> find_tenant (fl_tenants w) tid \<noteq> None \<or> cfg_auto_provision_tenants s)
     \<and> (find_tenant (fl_tenants w) tid \<noteq> None \<or> r \<noteq> Inr () \<longrightarrow>
           fl_tenants w' = fl_tenants w \<and> fl_databases w' = fl_databases w)
     \<and> (r = Inr () \<longrightarrow> tid \<in> set (fl_ready w') \<and> find_tenant (fl_tenants w') tid \<noteq> None)
     \<and> (r = Inr () \<and> find_tenant (fl_tenants w) tid = None \<longrightarrow>
           status_of_doc (doc_or_empty (find_tenant (fl_tenants w') tid)) = STATUS_ACTIVE
           \<and> tenant_db_name sha s tid \<in> set (fl_databases w'))"
proof (cases "find_tenant (fl_tenants w) tid")
  case (Some d)
  then show ?thesis using assms by (auto simp: ensure_tenant_ready_def)
next
  case None
  let ?db = "tenant_db_name sha s tid"
  let ?d = "apply_update (provision_update ?db now tid) (upsert_seed (key_query ''tenant_id'' tid))"
  have d: "vget ?d ''tenant_id'' = VStr tid" "vget_or ?d ''status'' x = VStr STATUS_ACTIVE" for x
    by (simp_all add: provision_update_def apply_update_def upsert_seed_def key_query_def map_filter_simps STATUS_ACTIVE_def
        vget_def vget_or_def)
  have "find_tenant (fl_tenants w @ [?d]) tid = Some ?d"
    using None d(1) by (simp add: find_tenant_def find_one_append)
  moreover have "status_of_doc ?d = STATUS_ACTIVE"
    using d(2) by (simp add: status_of_doc_def Let_def)
  moreover have "fst (update_one (key_query ''tenant_id'' tid) (provision_update ?db now tid) True (fl_tenants w)) = fl_tenants w @ [?d]"
    using None by (simp add: update_one_def find_one_and_update_def find_tenant_def Let_def)
  ultimately show ?thesis using assms None
    by (cases "cfg_auto_provision_tenants s") (auto simp: ensure_tenant_ready_def provision_tenant_def Let_def)
qed

section \<open>A concrete fleet\<close>

definition demo_sha :: "string \<Rightarrow> string" where
  "demo_sha t = (if t = ''acme'' then ''aaaaaaaa'' else ''bbbbbbbb'')"

definition acme_db :: string where
  "acme_db = tenant_db_name demo_sha default_settings ''acme''"

definition demo_fleet :: fleet where
  "demo_fleet = \<lparr>fl_tenants = [[(''tenant_id'', VStr ''acme''), (''status'', VStr ''active'')],
      [(''tenant_id'', VStr ''old''), (''status'', VStr ''deleted''), (''purge_at'', VTime 10)]],
     fl_databases = [acme_db], fl_status = Map.empty, fl_ready = []\<rparr>"

lemma demo_names_differ: "u \<noteq> ''acme'' \<Longrightarrow> tenant_db_name demo_sha s u \<noteq> tenant_db_name demo_sha s ''acme''"
proof
  assume u: "u \<noteq> ''acme''" and e: "tenant_db_name demo_sha s u = tenant_db_name demo_sha s ''acme''"
  have "last (tenant_db_name demo_sha s u) = CHR ''b''" using u by (simp add: tenant_db_name_def demo_sha_def Let_def)
  moreover have "last (tenant_db_name demo_sha s ''acme'') = CHR ''a''" by (simp add: tenant_db_name_def demo_sha_def Let_def)
  ultimately show False using e by simp
qed

lemma demo_well_keyed: "well_keyed_tenants (fl_tenants demo_fleet)"
  by (simp add: demo_fleet_def well_keyed_tenants_def distinct_keys_def is_str_def)


lemma failed_drop_is_never_retried_witness:
  "acme_db \<in> set (fl_databases (snd (purge_expired_tenants demo_sha default_settings (\<lambda>_ _. Dropped) 20 5
       (release_claim ''acme'' (snd (deprovision_tenant demo_sha default_settings (\<lambda>_. DropRaises) ''acme'' demo_fleet))))))"
proof -
  obtain w1 where d: "deprovision_tenant demo_sha default_settings (\<lambda>_. DropRaises) ''acme'' demo_fleet = (None, w1)"
    by (simp add: deprovision_tenant_def Let_def delete_many_def)
  have "tenant_db_name demo_sha default_settings ''acme'' \<in> set (fl_databases demo_fleet)"
    by (simp add: demo_fleet_def acme_db_def)
  from failed_drop_is_never_retried [OF demo_well_keyed d this demo_names_differ] show ?thesis
    by (simp add: d acme_db_def)
qed

lemma demo_status_step:
  assumes "find_tenant (fl_tenants w) tid = Some d" and "normalize_status st = Some n" and "extra_ok e"
  shows "\<exists>d' w'. status_step s wall now tid st a e w = (Some d', w')"
  using assms by (auto simp: status_step_def set_tenant_status_def tenants.modify_case_found)

lemma soft_delete_locks_out_and_restores_witness:
  "\<exists>(w1 :: fleet) (w2 :: fleet). fst (assert_tenant_active (status_cache_ttl default_settings) 3 (fl_tenants w1) (fl_status w1) ''acme'') \<noteq> Inr ()
     \<and> fst (assert_tenant_active (status_cache_ttl default_settings) 7 (fl_tenants w2) (fl_status w2) ''acme'') = Inr ()
     \<and> fl_databases w2 = [acme_db]"
proof -
  have f: "find_tenant (fl_tenants demo_fleet) ''acme'' \<noteq> None" by (simp add: demo_fleet_def find_tenant_def)
  then obtain d w1 where sd: "soft_delete_tenant default_settings 2 2 ''acme'' None None demo_fleet = (Some d, w1)"
    using demo_status_step [OF _ lifecycle_names(1) lifecycle_extras(1)] unfolding soft_delete_step by fast
  have eff: "status_of_doc (doc_or_empty (find_tenant (fl_tenants w1) ''acme'')) = STATUS_DELETED \<and> find_tenant (fl_tenants w1) ''acme'' \<noteq> None"
    using status_step_effect [OF sd [unfolded soft_delete_step] lifecycle_extras(1) lifecycle_names(1)] by simp
  then obtain x where x: "find_tenant (fl_tenants w1) ''acme'' = Some x" by blast
  have "py_str (vget_or x ''status'' (VStr STATUS_ACTIVE)) = STATUS_DELETED"
    using eff x deleted_not_active by (auto simp: status_of_doc_def Let_def split: if_splits)
  then have "py_str (vget x ''status'') = STATUS_DELETED"
    using deleted_not_active by (auto simp: vget_or_def vget_def split: option.splits)
  then obtain d' w2 where r: "restore_tenant default_settings 6 6 ''acme'' None w1 = (Some d', w2)"
    using demo_status_step [OF x lifecycle_names(2) lifecycle_extras(2)] x by (simp add: restore_tenant_def) blast
  from soft_delete_locks_out_and_restores [OF sd r, of 3 7] show ?thesis by (auto simp: demo_fleet_def)
qed

lemma first_use_provisions_witness:
  "\<exists>w'. ensure_tenant_ready demo_sha default_settings 1 ''acme'' demo_fleet = (Inr (), w') \<and> ''acme'' \<in> set (fl_ready w')"
proof -
  have f: "find_tenant (fl_tenants demo_fleet) ''acme'' \<noteq> None" by (simp add: demo_fleet_def find_tenant_def)
  obtain r w' where e: "ensure_tenant_ready demo_sha default_settings 1 ''acme'' demo_fleet = (r, w')" by fastforce
  have "''acme'' \<notin> set (fl_ready demo_fleet)" by (simp add: demo_fleet_def)
  from first_use_provisions [OF e this] e f show ?thesis by auto
qed

definition doomed_fleet :: fleet where
  "doomed_fleet = demo_fleet\<lparr>fl_tenants := [[(''tenant_id'', VStr ''acme''), (''status'', VStr ''deleted''), (''purge_at'', VTime 10)]]\<rparr>"

lemma restore_after_claim_loses_data_witness:
  "\<exists>d w1 d' w2 w3. claim_expired 20 [] doomed_fleet = (Some d, w1)
     \<and> restore_tenant default_settings 21 21 ''acme'' None w1 = (Some d', w2)
     \<and> status_of_doc (doc_or_empty (find_tenant (fl_tenants w2) ''acme'')) = STATUS_ACTIVE
     \<and> w3 = snd (deprovision_tenant demo_sha default_settings (\<lambda>_. Dropped) ''acme'' w2) \<and> acme_db \<notin> set (fl_databases w3)"
proof -
  let ?d = "dput ''purge_started_at'' (VTime 20) [(''tenant_id'', VStr ''acme''), (''status'', VStr ''deleted''), (''purge_at'', VTime 10)]"
  have c: "claim_expired 20 [] doomed_fleet = (Some ?d, doomed_fleet\<lparr>fl_tenants := [?d]\<rparr>)"
    by (simp add: claim_expired_def doomed_fleet_def claim_query_def STATUS_DELETED_def find_one_and_update_def resolve_plain)
  have f: "find_tenant (fl_tenants (doomed_fleet\<lparr>fl_tenants := [?d]\<rparr>)) ''acme'' = Some ?d" by (simp add: find_tenant_def)
  then obtain d' w2 where r: "restore_tenant default_settings 21 21 ''acme'' None (doomed_fleet\<lparr>fl_tenants := [?d]\<rparr>) = (Some d', w2)"
    using demo_status_step [OF f lifecycle_names(2) lifecycle_extras(2)]
    by (simp add: restore_tenant_def STATUS_DELETED_def) blast
  obtain x w3 where p: "deprovision_tenant demo_sha default_settings (\<lambda>_. Dropped) ''acme'' w2 = (x, w3)" by fastforce
  have "vget ?d ''tenant_id'' = VStr ''acme''" by simp
  from restore_after_claim_loses_data [OF c this r _ p] c r p show ?thesis by (auto simp: acme_db_def)
qed

end
