(* ===== verification/Usage.thy ===== *)
theory Usage
  imports Settings DocStore "HOL-Library.Multiset"
begin

text \<open>\<open>services/usage_metering.py\<close> and \<open>services/data_plane.py\<close>: usage counters per tenant and
  period, quotas, the quota gate and the sandbox preflight, billing events and their summary.
  The three control collections are the fields of \<open>metering\<close>.  The name of a period (the
  clock formatted \<open>%Y-%m\<close>) is a parameter \<open>month\<close>.\<close>

record metering =
  usage_counters :: docs
  tenant_quotas :: docs
  usage_events :: docs

definition non_negative_int :: "pyval \<Rightarrow> int \<Rightarrow> int" where
  "non_negative_int v dflt = (case py_int v of None \<Rightarrow> dflt | Some i \<Rightarrow> max 0 i)"

text \<open>Both branches of the source format the month, whatever the configured period.\<close>
definition current_period :: "(real \<Rightarrow> string) \<Rightarrow> settings \<Rightarrow> real \<Rightarrow> string" where
  "current_period month s now = (if cfg_usage_quota_period s \<noteq> ''monthly'' then month now else month now)"

record usage_snapshot =
  snap_calls :: int
  snap_sandbox_ms :: int

record quota =
  calls_limit :: int
  sandbox_seconds_limit :: int

definition snapshot_of :: "doc option \<Rightarrow> usage_snapshot" where
  "snapshot_of d =
     \<lparr>snap_calls = non_negative_int (vget (doc_or_empty d) ''calls'') 0,
      snap_sandbox_ms = non_negative_int (vget (doc_or_empty d) ''sandbox_ms'') 0\<rparr>"

definition quota_snapshot :: "settings \<Rightarrow> doc option \<Rightarrow> quota" where
  "quota_snapshot s d =
     \<lparr>calls_limit = non_negative_int (vget (doc_or_empty d) ''calls_limit'')
        (non_negative_int (VInt (cfg_default_quota_calls_per_period s)) 0),
      sandbox_seconds_limit = non_negative_int (vget (doc_or_empty d) ''sandbox_seconds_limit'')
        (non_negative_int (VInt (cfg_default_quota_sandbox_seconds_per_period s)) 0)\<rparr>"

definition usage_query :: "string \<Rightarrow> string \<Rightarrow> query" where
  "usage_query tid period = [(''tenant_id'', CEq (VStr tid)), (''period'', CEq (VStr period))]"

definition get_usage :: "string \<Rightarrow> string \<Rightarrow> metering \<Rightarrow> usage_snapshot" where
  "get_usage tid period m = snapshot_of (find_one (usage_query tid period) (usage_counters m))"

definition usage_update :: "real \<Rightarrow> string \<Rightarrow> string \<Rightarrow> int \<Rightarrow> int \<Rightarrow> update_spec" where
  "usage_update now tid period calls sandbox =
     \<lparr>upd_set = [(''tenant_id'', VStr tid), (''period'', VStr period), (''updated_at'', VTime now)],
      upd_set_on_insert = [(''created_at'', VTime now)],
      upd_inc = (if calls > 0 then [(''calls'', VInt calls)] else [])
                @ (if sandbox > 0 then [(''sandbox_ms'', VInt sandbox)] else []),
      upd_add_to_set = [], upd_pull = []\<rparr>"

definition record_usage ::
  "real \<Rightarrow> string \<Rightarrow> string \<Rightarrow> int \<Rightarrow> int \<Rightarrow> metering \<Rightarrow> usage_snapshot \<times> metering" where
  "record_usage now tid period calls sandbox m =
     (let call_delta = max 0 calls; sandbox_delta = max 0 sandbox
      in if call_delta = 0 \<and> sandbox_delta = 0 then (get_usage tid period m, m)
         else case find_one_and_update (usage_query tid period)
                     (usage_update now tid period call_delta sandbox_delta) True (usage_counters m) of
             (d, ds) \<Rightarrow> (snapshot_of d, m\<lparr>usage_counters := ds\<rparr>))"

definition get_effective_quota :: "settings \<Rightarrow> string \<Rightarrow> metering \<Rightarrow> quota" where
  "get_effective_quota s tid m = quota_snapshot s (find_one (key_query ''_id'' tid) (tenant_quotas m))"

definition set_quota ::
  "real \<Rightarrow> string \<Rightarrow> int \<Rightarrow> int \<Rightarrow> string option \<Rightarrow> metering \<Rightarrow> quota \<times> metering" where
  "set_quota now tid calls sandbox by' m =
     (let calls_cap = max 0 calls; sandbox_cap = max 0 sandbox;
          payload = [(''_id'', VStr tid), (''tenant_id'', VStr tid), (''calls_limit'', VInt calls_cap),
             (''sandbox_seconds_limit'', VInt sandbox_cap), (''updated_at'', VTime now),
             (''updated_by'', case by' of Some b \<Rightarrow> VStr b | None \<Rightarrow> VNone)]
      in (\<lparr>calls_limit = calls_cap, sandbox_seconds_limit = sandbox_cap\<rparr>,
          m\<lparr>tenant_quotas := replace_one (key_query ''_id'' tid) payload True (tenant_quotas m)\<rparr>))"

datatype quota_refusal = CallsLimitExceeded | SandboxSecondsLimitExceeded | SandboxQuotaPreflight

definition check_quota ::
  "settings \<Rightarrow> string \<Rightarrow> string \<Rightarrow> metering \<Rightarrow> quota_refusal option \<times> usage_snapshot \<times> quota" where
  "check_quota s tid period m =
     (let usage = get_usage tid period m; q = get_effective_quota s tid m
      in (if calls_limit q > 0 \<and> snap_calls usage \<ge> calls_limit q then Some CallsLimitExceeded
          else if sandbox_seconds_limit q > 0 \<and> snap_sandbox_ms usage \<ge> sandbox_seconds_limit q * 1000
          then Some SandboxSecondsLimitExceeded else None, usage, q))"

definition check_sandbox_preflight :: "usage_snapshot \<Rightarrow> quota \<Rightarrow> int \<Rightarrow> quota_refusal option" where
  "check_sandbox_preflight usage q projected_ms =
     (let limit_seconds = max 0 (sandbox_seconds_limit q)
      in if limit_seconds \<le> 0 then None
         else (let remaining_ms = limit_seconds * 1000 - max 0 (snap_sandbox_ms usage)
               in if max 0 projected_ms > remaining_ms then Some SandboxQuotaPreflight else None))"

definition emit_billing_event ::
  "real \<Rightarrow> string \<Rightarrow> string \<Rightarrow> int \<Rightarrow> string \<Rightarrow> doc \<Rightarrow> metering \<Rightarrow> metering" where
  "emit_billing_event now tid kind amount period metadata m =
     (let event_amount = max 0 amount
      in if event_amount \<le> 0 then m
         else m\<lparr>usage_events := insert_one
                [(''tenant_id'', VStr tid), (''period'', VStr period), (''kind'', VStr kind),
                 (''amount'', VInt event_amount), (''ts'', VTime now), (''metadata'', VDict metadata)]
                (usage_events m)\<rparr>)"

definition event_ts :: "doc \<Rightarrow> real option" where
  "event_ts d = (case vget d ''ts'' of VTime t \<Rightarrow> Some t | _ \<Rightarrow> None)"

text \<open>Newest first; an event without a time is the oldest.\<close>
definition ts_newer :: "doc \<Rightarrow> doc \<Rightarrow> bool" where
  "ts_newer a b = (case (event_ts a, event_ts b) of
      (Some x, Some y) \<Rightarrow> x > y | (Some _, None) \<Rightarrow> True | _ \<Rightarrow> False)"

fun insert_by_ts :: "doc \<Rightarrow> docs \<Rightarrow> docs" where
  "insert_by_ts d [] = [d]"
| "insert_by_ts d (e # es) = (if ts_newer e d then e # insert_by_ts d es else d # e # es)"

definition by_ts_desc :: "docs \<Rightarrow> docs" where
  "by_ts_desc ds = foldr insert_by_ts ds []"

definition event_kind :: "doc \<Rightarrow> string" where
  "event_kind d = py_str (py_or (vget d ''kind'') (VStr ''unknown''))"

definition event_amount :: "doc \<Rightarrow> int" where
  "event_amount d = non_negative_int (vget d ''amount'') 0"

definition totals_by_kind :: "docs \<Rightarrow> (string \<times> int) list" where
  "totals_by_kind ds =
     foldl (\<lambda>t d. dput (event_kind d) ((case dget t (event_kind d) of Some n \<Rightarrow> n | None \<Rightarrow> 0) + event_amount d) t)
       [] ds"

definition event_row :: "string \<Rightarrow> doc \<Rightarrow> doc" where
  "event_row period d =
     [(''kind'', VStr (py_str (py_or (vget d ''kind'') (VStr [])))),
      (''amount'', VInt (event_amount d)),
      (''period'', VStr (py_str (py_or (vget d ''period'') (VStr period)))),
      (''ts'', vget d ''ts''),
      (''metadata'', case vget d ''metadata'' of VDict m \<Rightarrow> VDict m | _ \<Rightarrow> VDict [])]"

record billing_summary =
  kind_totals :: "(string \<times> int) list"
  total_amount :: int
  recent_events :: docs

definition summarize_billing_events :: "string \<Rightarrow> string \<Rightarrow> int \<Rightarrow> metering \<Rightarrow> billing_summary" where
  "summarize_billing_events tid period max_rows m =
     (let ds = by_ts_desc (take 10000 (find_docs (usage_query tid period) (usage_events m)));
          totals = totals_by_kind ds
      in \<lparr>kind_totals = totals,
          total_amount = sum_list (map snd totals),
          recent_events = map (event_row period) (take (nat (max 1 max_rows)) ds)\<rparr>)"

text \<open>\<open>data_plane.record_billable_call\<close>; \<open>month\<close> names the period of the clock.\<close>
definition record_billable_call ::
  "(real \<Rightarrow> string) \<Rightarrow> settings \<Rightarrow> real \<Rightarrow> string \<Rightarrow> string \<Rightarrow> string \<Rightarrow> string \<Rightarrow> metering \<Rightarrow> metering" where
  "record_billable_call month s now tid server tool src m =
     (let period = current_period month s now
      in case record_usage now tid period 1 0 m of
           (_, m1) \<Rightarrow> emit_billing_event now tid ''calls'' 1 period
             [(''server'', VStr server), (''tool'', VStr tool), (''source'', VStr src)] m1)"

section \<open>Counters\<close>

lemma snap_nonneg: "0 \<le> snap_calls (snapshot_of d)" "0 \<le> snap_sandbox_ms (snapshot_of d)"
  by (auto simp: snapshot_of_def non_negative_int_def split: option.splits)

lemma usage_query_matches:
  "matches d (usage_query t p) \<longleftrightarrow> vget d ''tenant_id'' = VStr t \<and> vget d ''period'' = VStr p"
  by (simp add: usage_query_def resolve_plain)

lemma vget_or_via: "vget_or d k (VInt 0) = (case dget d k of Some v \<Rightarrow> v | None \<Rightarrow> VInt 0)"
  by (simp add: vget_or_def)

text \<open>The counters of a document are whole numbers (or absent).\<close>
definition int_counters :: "doc \<Rightarrow> bool" where
  "int_counters d = (\<forall>f\<in>{''calls'', ''sandbox_ms''}. \<exists>i. vget_or d f (VInt 0) = VInt i \<and> 0 \<le> i)"

lemma usage_update_effect:
  assumes "0 \<le> calls" "0 \<le> ms"
  shows "vget_or (apply_update (usage_update now t p calls ms) d) ''calls'' (VInt 0)
           = (if calls > 0 then num_add (vget_or d ''calls'' (VInt 0)) (VInt calls) else vget_or d ''calls'' (VInt 0))"
    and "vget_or (apply_update (usage_update now t p calls ms) d) ''sandbox_ms'' (VInt 0)
           = (if ms > 0 then num_add (vget_or d ''sandbox_ms'' (VInt 0)) (VInt ms) else vget_or d ''sandbox_ms'' (VInt 0))"
    and "vget (apply_update (usage_update now t p calls ms) d) ''tenant_id'' = VStr t"
    and "vget (apply_update (usage_update now t p calls ms) d) ''period'' = VStr p"
  by (auto simp: apply_update_def usage_update_def vget_or_def vget_def)

lemma int_counters_update:
  assumes "int_counters d" "0 \<le> calls" "0 \<le> ms"
  shows "int_counters (apply_update (usage_update now t p calls ms) d)"
    and "snapshot_of (Some (apply_update (usage_update now t p calls ms) d)) =
         \<lparr>snap_calls = snap_calls (snapshot_of (Some d)) + calls,
          snap_sandbox_ms = snap_sandbox_ms (snapshot_of (Some d)) + ms\<rparr>"
proof -
  obtain i j where ij: "vget_or d ''calls'' (VInt 0) = VInt i" "0 \<le> i"
    "vget_or d ''sandbox_ms'' (VInt 0) = VInt j" "0 \<le> j"
    using assms(1) by (auto simp: int_counters_def)
  let ?d = "apply_update (usage_update now t p calls ms) d"
  have n: "vget_or ?d ''calls'' (VInt 0) = VInt (i + calls)" "vget_or ?d ''sandbox_ms'' (VInt 0) = VInt (j + ms)"
    using usage_update_effect [OF assms(2,3)] ij assms(2,3) by auto
  then show "int_counters ?d" using ij assms by (simp add: int_counters_def)
  have s: "non_negative_int (vget e f) 0 = k" if "vget_or e f (VInt 0) = VInt k" "0 \<le> k" for e f k
    using that by (auto simp: vget_or_def vget_def non_negative_int_def split: option.splits)
  show "snapshot_of (Some ?d) =
         \<lparr>snap_calls = snap_calls (snapshot_of (Some d)) + calls,
          snap_sandbox_ms = snap_sandbox_ms (snapshot_of (Some d)) + ms\<rparr>"
    using n ij assms(2,3) by (simp add: snapshot_of_def s)
qed

definition counters_ok :: "metering \<Rightarrow> bool" where
  "counters_ok m = (\<forall>d\<in>set (usage_counters m). int_counters d)"

lemma int_counters_seed: "int_counters (upsert_seed (usage_query t p))"
  by (simp add: upsert_seed_def usage_query_def map_filter_simps int_counters_def)

lemma set_on_first: "set (on_first P f ds) \<subseteq> set ds \<union> f ` set ds"
  by (induction ds) auto

text \<open>Recording adds exactly the (non-negative) deltas to the counters of its tenant and
  period, and touches no other counter.\<close>
lemma record_usage_effect:
  assumes "counters_ok m" and "record_usage now t p calls ms m = (r, m')"
  shows "counters_ok m'"
    and "get_usage t p m' = \<lparr>snap_calls = snap_calls (get_usage t p m) + max 0 calls,
           snap_sandbox_ms = snap_sandbox_ms (get_usage t p m) + max 0 ms\<rparr>"
    and "(t', p') \<noteq> (t, p) \<Longrightarrow> get_usage t' p' m' = get_usage t' p' m"
    and "r = get_usage t p m'"
    and "tenant_quotas m' = tenant_quotas m \<and> usage_events m' = usage_events m"
proof -
  let ?c = "max 0 calls" and ?ms = "max 0 ms"
  let ?q = "usage_query t p" and ?u = "usage_update now t p ?c ?ms"
  note eff = usage_update_effect [of ?c ?ms now t p]
  have nn: "0 \<le> ?c" "0 \<le> ?ms" by simp_all
  show "tenant_quotas m' = tenant_quotas m \<and> usage_events m' = usage_events m"
    using assms(2) by (auto simp: record_usage_def Let_def split: if_splits prod.splits)
  have "counters_ok m' \<and> get_usage t p m' = \<lparr>snap_calls = snap_calls (get_usage t p m) + ?c,
           snap_sandbox_ms = snap_sandbox_ms (get_usage t p m) + ?ms\<rparr> \<and> r = get_usage t p m'
      \<and> ((t', p') \<noteq> (t, p) \<longrightarrow> get_usage t' p' m' = get_usage t' p' m)"
  proof (cases "?c = 0 \<and> ?ms = 0")
    case True
    then show ?thesis using assms by (auto simp: record_usage_def)
  next
    case False
    note rec = assms(2) [unfolded record_usage_def Let_def if_not_P [OF False]]
    have other: "\<And>d. matches d (usage_query t p) \<Longrightarrow> (t', p') \<noteq> (t, p) \<Longrightarrow> \<not> matches d (usage_query t' p')"
      by (auto simp: usage_query_matches)
    show ?thesis
    proof (cases "find_one ?q (usage_counters m)")
      case (Some d)
      have d: "int_counters d" using find_one_SomeD [OF Some] assms(1) by (auto simp: counters_ok_def)
      have m': "m' = m\<lparr>usage_counters := on_first (\<lambda>d. matches d ?q) (apply_update ?u) (usage_counters m)\<rparr>"
        and r: "r = snapshot_of (Some (apply_update ?u d))"
        using rec by (auto simp: fou_hit [OF Some])
      have f: "find_one ?q (usage_counters m') = Some (apply_update ?u d)"
        unfolding m' using find_one_on_first_same [OF Some, where f = "apply_update ?u"]
        by (simp add: usage_query_matches eff)
      have "counters_ok m'"
        using set_on_first assms(1) int_counters_update(1) [OF _ nn]
        by (fastforce simp: counters_ok_def m')
      moreover have "(t', p') \<noteq> (t, p) \<Longrightarrow>
          find_one (usage_query t' p') (usage_counters m') = find_one (usage_query t' p') (usage_counters m)"
        unfolding m' using find_one_on_first_other [of ?q "usage_query t' p'" "apply_update ?u"]
        by (auto simp: usage_query_matches eff)
      ultimately show ?thesis
        using f r Some int_counters_update(2) [OF d nn] by (simp add: get_usage_def)
    next
      case None
      let ?d = "apply_update ?u (upsert_seed ?q)"
      have m': "m' = m\<lparr>usage_counters := usage_counters m @ [?d]\<rparr>" and r: "r = snapshot_of (Some ?d)"
        using rec by (auto simp: find_one_and_update_def None Let_def)
      have f: "find_one ?q (usage_counters m') = Some ?d"
        by (simp add: m' find_one_append None usage_query_matches eff)
      have "snapshot_of (Some (upsert_seed ?q)) = snapshot_of None"
        by (simp add: snapshot_of_def upsert_seed_def usage_query_def map_filter_simps)
      then have "snapshot_of (Some ?d) = \<lparr>snap_calls = snap_calls (snapshot_of None) + ?c,
          snap_sandbox_ms = snap_sandbox_ms (snapshot_of None) + ?ms\<rparr>"
        using int_counters_update(2) [OF int_counters_seed nn] by simp
      moreover have "counters_ok m'"
        using assms(1) int_counters_update(1) [OF int_counters_seed nn] by (simp add: counters_ok_def m')
      moreover have "(t', p') \<noteq> (t, p) \<Longrightarrow>
          find_one (usage_query t' p') (usage_counters m') = find_one (usage_query t' p') (usage_counters m)"
        by (auto simp: m' find_one_append usage_query_matches eff split: option.splits)
      ultimately show ?thesis using f r None by (simp add: get_usage_def)
    qed
  qed
  then show "counters_ok m'" "get_usage t p m' = \<lparr>snap_calls = snap_calls (get_usage t p m) + ?c,
           snap_sandbox_ms = snap_sandbox_ms (get_usage t p m) + ?ms\<rparr>" "r = get_usage t p m'"
    "(t', p') \<noteq> (t, p) \<Longrightarrow> get_usage t' p' m' = get_usage t' p' m" by blast+
qed

section \<open>The quota gate under concurrency\<close>

text \<open>Calls of one tenant in one period: a call is admitted by the gate while fewer than \<open>K\<close>
  are in flight, and recorded when it has run.  The state is the number of calls in flight and
  the metering collections.\<close>
inductive gate_run :: "settings \<Rightarrow> string \<Rightarrow> string \<Rightarrow> nat \<Rightarrow> metering \<Rightarrow> nat \<Rightarrow> metering \<Rightarrow> bool"
  for s :: settings and tid :: string and period :: string and K :: nat and m0 :: metering where
  gate_start: "gate_run s tid period K m0 0 m0"
| gate_admit: "\<lbrakk>gate_run s tid period K m0 n m; fst (check_quota s tid period m) = None; n < K\<rbrakk>
    \<Longrightarrow> gate_run s tid period K m0 (Suc n) m"
| gate_settle: "\<lbrakk>gate_run s tid period K m0 (Suc n) m; record_usage now tid period 1 ms m = (r, m')\<rbrakk>
    \<Longrightarrow> gate_run s tid period K m0 n m'"
| gate_other: "\<lbrakk>gate_run s tid period K m0 n m; (t', p') \<noteq> (tid, period); record_usage now t' p' c ms m = (r, m')\<rbrakk>
    \<Longrightarrow> gate_run s tid period K m0 n m'"

lemma check_quota_None:
  "fst (check_quota s tid period m) = None \<longleftrightarrow>
   (calls_limit (get_effective_quota s tid m) \<le> 0
    \<or> snap_calls (get_usage tid period m) < calls_limit (get_effective_quota s tid m))
   \<and> (sandbox_seconds_limit (get_effective_quota s tid m) \<le> 0
    \<or> snap_sandbox_ms (get_usage tid period m) < sandbox_seconds_limit (get_effective_quota s tid m) * 1000)"
  by (auto simp: check_quota_def Let_def)

text \<open>The calls quota: whatever the interleaving of admitted and recorded calls, the counter
  never exceeds the limit by more than the calls that were in flight together; with calls run
  one at a time it never exceeds the limit at all.\<close>
theorem quota_overshoot_bounded:
  assumes "gate_run s tid period K m0 n m" and "counters_ok m0"
    and "0 < calls_limit (get_effective_quota s tid m0)" and "1 \<le> K"
    and "snap_calls (get_usage tid period m0) \<le> calls_limit (get_effective_quota s tid m0)"
  shows "snap_calls (get_usage tid period m) + int n \<le> calls_limit (get_effective_quota s tid m0) - 1 + int K"
proof -
  let ?L = "calls_limit (get_effective_quota s tid m0)"
  have "counters_ok m \<and> tenant_quotas m = tenant_quotas m0
        \<and> snap_calls (get_usage tid period m) + int n \<le> ?L - 1 + int K"
    using assms(1)
  proof (induction rule: gate_run.induct)
    case gate_start
    then show ?case using assms by simp
  next
    case (gate_admit n m)
    then have "get_effective_quota s tid m = get_effective_quota s tid m0"
      by (simp add: get_effective_quota_def)
    then have "snap_calls (get_usage tid period m) < ?L"
      using gate_admit(2) assms(3) by (auto simp: check_quota_None)
    then show ?case using gate_admit by simp
  next
    case (gate_settle n m now ms r m')
    from gate_settle record_usage_effect [OF _ gate_settle(2)] show ?case by auto
  next
    case (gate_other n m t' p' now c ms r m')
    from gate_other record_usage_effect(1,5) [OF _ gate_other(3)]
      record_usage_effect(3) [OF _ gate_other(3), of tid period] show ?case by auto
  qed
  then show ?thesis by blast
qed

text \<open>The sandbox preflight admits exactly the runs whose worst-case cost fits what is left
  of the sandbox budget, so an admitted run that stays within its projection keeps the tenant
  within it.\<close>
theorem preflight_keeps_budget:
  assumes "counters_ok m" and "check_sandbox_preflight (get_usage tid period m) q projected = None"
    and "0 < sandbox_seconds_limit q" and "0 \<le> used" and "used \<le> projected"
    and "record_usage now tid period 1 used m = (r, m')"
  shows "snap_sandbox_ms (get_usage tid period m') \<le> sandbox_seconds_limit q * 1000"
  using assms(2-5) record_usage_effect(2) [OF assms(1,6)] snap_nonneg
  by (auto simp: check_sandbox_preflight_def get_usage_def Let_def split: if_splits)

section \<open>Billing\<close>

lemma sum_dput:
  fixes t :: "(string \<times> int) list"
  shows "sum_list (map snd (dput k ((case dget t k of Some n \<Rightarrow> n | None \<Rightarrow> 0) + a) t)) = sum_list (map snd t) + a"
  by (induction t) (auto simp: dput_def)

lemma sum_totals: "sum_list (map snd (totals_by_kind ds)) = sum_list (map event_amount ds)"
proof -
  have "sum_list (map snd (foldl (\<lambda>t d. dput (event_kind d)
      ((case dget t (event_kind d) of Some n \<Rightarrow> n | None \<Rightarrow> 0) + event_amount d) t) t ds))
      = sum_list (map snd t) + sum_list (map event_amount ds)" for t
    by (induction ds arbitrary: t) (simp_all add: sum_dput)
  then show ?thesis by (simp add: totals_by_kind_def)
qed

lemma mset_insert_by_ts: "mset (insert_by_ts d ds) = add_mset d (mset ds)"
  by (induction ds) auto

lemma mset_by_ts: "mset (by_ts_desc ds) = mset ds"
  unfolding by_ts_desc_def by (induction ds) (simp_all add: mset_insert_by_ts)

lemma sum_by_ts: "sum_list (map event_amount (by_ts_desc ds)) = sum_list (map event_amount ds)"
  by (metis mset_by_ts mset_map sum_mset_sum_list)

lemma summary_total:
  "total_amount (summarize_billing_events t p k m)
   = sum_list (map event_amount (take 10000 (find_docs (usage_query t p) (usage_events m))))"
  by (simp add: summarize_billing_events_def sum_totals sum_by_ts Let_def)

text \<open>Metering and billing reconcile: one billable call raises the tenant's call counter and
  the billed total of the period by exactly one (below the summary's 10000-event window), and
  changes neither for any other tenant or period.\<close>
theorem billable_call_reconciles:
  assumes "counters_ok m" and "m' = record_billable_call month s now tid server tool src m"
    and "length (find_docs (usage_query tid (month now)) (usage_events m)) < 10000"
  shows "snap_calls (get_usage tid (month now) m') = snap_calls (get_usage tid (month now) m) + 1
     \<and> total_amount (summarize_billing_events tid (month now) k m')
       = total_amount (summarize_billing_events tid (month now) k m) + 1
     \<and> ((t, p) = (tid, month now) \<or> get_usage t p m' = get_usage t p m
          \<and> total_amount (summarize_billing_events t p k m') = total_amount (summarize_billing_events t p k m))"
proof -
  obtain r m1 where r: "record_usage now tid (month now) 1 0 m = (r, m1)"
    by (cases "record_usage now tid (month now) 1 0 m")
  note e = record_usage_effect [OF assms(1) r]
  have u: "usage_counters m' = usage_counters m1"
    and ev: "usage_events m' = usage_events m @ [[(''tenant_id'', VStr tid), (''period'', VStr (month now)),
       (''kind'', VStr ''calls''), (''amount'', VInt 1), (''ts'', VTime now),
       (''metadata'', VDict [(''server'', VStr server), (''tool'', VStr tool), (''source'', VStr src)])]]"
    using assms(2) r e(5)
    by (auto simp: record_billable_call_def current_period_def emit_billing_event_def insert_one_def Let_def)
  have g: "get_usage t p m' = get_usage t p m1" for t p using u by (simp add: get_usage_def)
  have other: "(t, p) \<noteq> (tid, month now) \<Longrightarrow> find_docs (usage_query t p) (usage_events m')
      = find_docs (usage_query t p) (usage_events m)"
    by (auto simp: ev find_docs_def usage_query_matches)
  have mine: "find_docs (usage_query tid (month now)) (usage_events m')
      = find_docs (usage_query tid (month now)) (usage_events m) @ [last (usage_events m')]"
    by (simp add: ev find_docs_def usage_query_matches)
  have "event_amount (last (usage_events m')) = 1"
    by (simp add: ev event_amount_def non_negative_int_def)
  then have tot: "total_amount (summarize_billing_events tid (month now) k m')
       = total_amount (summarize_billing_events tid (month now) k m) + 1"
    using assms(3) by (simp add: summary_total mine)
  have "(t, p) \<noteq> (tid, month now) \<Longrightarrow> get_usage t p m' = get_usage t p m
      \<and> total_amount (summarize_billing_events t p k m') = total_amount (summarize_billing_events t p k m)"
    using e(3) [of t p] other by (simp add: g summary_total)
  then show ?thesis using e(2) tot by (auto simp: g)
qed

definition fresh_metering :: metering where
  "fresh_metering = \<lparr>usage_counters = [], tenant_quotas = [[(''_id'', VStr ''acme''), (''calls_limit'', VInt 2),
     (''sandbox_seconds_limit'', VInt 60)]], usage_events = []\<rparr>"

lemma fresh_facts:
  "counters_ok fresh_metering" "calls_limit (get_effective_quota s ''acme'' fresh_metering) = 2"
  "sandbox_seconds_limit (get_effective_quota s ''acme'' fresh_metering) = 60"
  "get_usage t p fresh_metering = \<lparr>snap_calls = 0, snap_sandbox_ms = 0\<rparr>"
  by (simp_all add: fresh_metering_def counters_ok_def get_effective_quota_def quota_snapshot_def
      non_negative_int_def get_usage_def snapshot_of_def)

lemma quota_overshoot_bounded_witness:
  "\<exists>m. gate_run default_settings ''acme'' ''2024-01'' 3 fresh_metering 2 m
     \<and> snap_calls (get_usage ''acme'' ''2024-01'' m) + 2 \<le> 4"
proof -
  have ok: "fst (check_quota default_settings ''acme'' ''2024-01'' fresh_metering) = None"
    by (simp add: check_quota_None fresh_facts)
  have r: "gate_run default_settings ''acme'' ''2024-01'' 3 fresh_metering (Suc (Suc 0)) fresh_metering"
    by (rule gate_admit [OF gate_admit [OF gate_start ok] ok]) simp_all
  from quota_overshoot_bounded [OF r fresh_facts(1)]
  show ?thesis using r by (auto simp: fresh_facts numeral_2_eq_2)
qed

lemma preflight_keeps_budget_witness:
  "\<exists>r m'. record_usage 0 ''acme'' ''2024-01'' 1 30000 fresh_metering = (r, m')
     \<and> snap_sandbox_ms (get_usage ''acme'' ''2024-01'' m') \<le> 60000"
proof -
  obtain r m' where r: "record_usage 0 ''acme'' ''2024-01'' 1 30000 fresh_metering = (r, m')"
    by (cases "record_usage 0 ''acme'' ''2024-01'' 1 30000 fresh_metering")
  have p: "check_sandbox_preflight (get_usage ''acme'' ''2024-01'' fresh_metering)
       \<lparr>calls_limit = 2, sandbox_seconds_limit = 60\<rparr> 45000 = None"
    by (simp add: check_sandbox_preflight_def fresh_facts)
  from preflight_keeps_budget [OF fresh_facts(1) p _ _ _ r] r show ?thesis by auto
qed

lemma billable_call_reconciles_witness:
  "snap_calls (get_usage ''acme'' ''2024-01''
     (record_billable_call (\<lambda>_. ''2024-01'') default_settings 0 ''acme'' ''crm'' ''find'' ''live_execution'' fresh_metering)) = 1"
proof -
  have l: "length (find_docs (usage_query ''acme'' ''2024-01'') (usage_events fresh_metering)) < 10000"
    by (simp add: fresh_metering_def find_docs_def)
  show ?thesis
    using billable_call_reconciles [OF fresh_facts(1) refl, where month = "\<lambda>_. ''2024-01''", OF l,
        of default_settings 0 "''crm''" "''find''" "''live_execution''"]
    by (simp add: fresh_facts)
qed

end
