(* ===== verification/ProxyRegistry.thy ===== *)
theory ProxyRegistry
  imports Usage Egress PipPolicy Authorization
begin

text \<open>\<open>services/proxy_registry.py\<close> (\<open>InMemoryFastMCPRegistry\<close>) and \<open>services/sandbox_tool_bridge.py\<close>: the
  mounted downstream servers, the tool catalog kept in step with them, and the two ways a tool
  call is carried out, over a transport with retries or in the sandbox.

  A sandboxed tool may call sibling tools while it runs: its program is an interaction (\<open>script\<close>)
  of relayed calls that ends in an outcome.  The transport, the sandbox, decryption, hashing and
  embedding are parameters (\<open>proxy_env\<close>).  Nesting is bounded by the relay budget, so a call is a
  total function.\<close>

section \<open>Servers, requests, outcomes\<close>

record downstream_server =
  sv_tenant :: string
  sv_server :: string
  sv_transport :: string
  sv_origin :: string
  sv_endpoint :: pyval
  sv_command :: pyval
  sv_args :: "string list"
  sv_env :: "(string \<times> string) list"
  sv_cwd :: pyval
  sv_enabled :: bool
  sv_metadata :: doc

record caller =
  ca_user :: string
  ca_scopes :: "string list"
  ca_roles :: "string list"

text \<open>How one attempt over a transport ends.\<close>
datatype attempt = AttemptOk doc | AttemptTimeout | AttemptProtocolError | AttemptError

datatype call_exc = CallKeyError | CallTimeout | CallProtocolError | CallDownstreamError

datatype exec_outcome = ExecOk doc int | ExecTimeout | ExecProtocolError | ExecError

text \<open>The program of a code tool: it relays calls (server, tool, raw arguments) and continues with
  the answer, a denial kind or a payload.\<close>
datatype script = Finish exec_outcome | Relay string string pyval "string + doc \<Rightarrow> script"

record exec_request =
  er_tenant :: string
  er_server :: string
  er_tool :: string
  er_code :: string
  er_requirements :: "string list"
  er_arguments :: doc
  er_env :: "(string \<times> string) list"
  er_action :: string
  er_can_relay :: bool
  er_depth :: nat
  er_allowed :: "string list"

record proxy_world =
  pw_servers :: "((string \<times> string) \<times> downstream_server) list"
  pw_catalog :: "string \<Rightarrow> docs"
  pw_routing :: "string \<Rightarrow> docs"
  pw_secrets :: "string \<Rightarrow> docs"
  pw_tenants :: docs

text \<open>What was carried out: an attempt over a transport, or a sandbox run at a nesting depth.\<close>
datatype effect = Attempted string string string doc | RanCode nat string string string

record proxy_state =
  ps_policy :: "tool_policy cache"
  ps_pip :: "string list cache"
  ps_meter :: metering
  ps_log :: "effect list"

text \<open>The first argument of \<open>pe_attempt\<close> is the number of effects so far.\<close>
record proxy_env =
  pe_attempt :: "nat \<Rightarrow> downstream_server \<Rightarrow> string \<Rightarrow> doc \<Rightarrow> attempt"
  pe_run :: "exec_request \<Rightarrow> script"
  pe_decrypt :: "string \<Rightarrow> pyval \<Rightarrow> string"
  pe_size :: "doc \<Rightarrow> int"
  pe_month :: "real \<Rightarrow> string"
  pe_embed :: "string \<Rightarrow> real list option"
  pe_dimensions :: int
  pe_hash :: "string \<Rightarrow> pyval \<Rightarrow> pyval \<Rightarrow> pyval \<Rightarrow> string"
  pe_discover :: "downstream_server option \<Rightarrow> docs"

definition get_server :: "settings \<Rightarrow> proxy_world \<Rightarrow> string \<Rightarrow> string option \<Rightarrow> downstream_server option" where
  "get_server s w server tid = dget (pw_servers w) (resolve_tenant s tid, server)"

definition list_servers :: "settings \<Rightarrow> proxy_world \<Rightarrow> string option \<Rightarrow> string list" where
  "list_servers s w tid =
     sort (map snd (filter (\<lambda>k. fst k = resolve_tenant s tid) (map fst (pw_servers w))))"

section \<open>Calls over a transport\<close>

text \<open>\<open>left\<close> attempts remain; a timeout is a downstream error and is retried like any other.\<close>
fun attempt_loop ::
  "proxy_env \<Rightarrow> downstream_server \<Rightarrow> string \<Rightarrow> doc \<Rightarrow> nat \<Rightarrow> proxy_state \<Rightarrow> (call_exc + doc) \<times> proxy_state" where
  "attempt_loop env sv tool args 0 st = (Inr [], st)"
| "attempt_loop env sv tool args (Suc left) st =
     (let r = pe_attempt env (length (ps_log st)) sv tool args;
          st' = st\<lparr>ps_log := ps_log st @ [Attempted (sv_tenant sv) (sv_server sv) tool args]\<rparr>
      in case r of
           AttemptOk d \<Rightarrow> (Inr d, st')
         | AttemptProtocolError \<Rightarrow> (Inl CallProtocolError, st')
         | AttemptTimeout \<Rightarrow> if left = 0 then (Inl CallTimeout, st') else attempt_loop env sv tool args left st'
         | AttemptError \<Rightarrow> if left = 0 then (Inl CallDownstreamError, st') else attempt_loop env sv tool args left st')"

definition call_attempts :: nat where
  "call_attempts = 3"

section \<open>Calls in the sandbox\<close>

definition field_docs :: "doc \<Rightarrow> string \<Rightarrow> docs" where
  "field_docs d f = (case py_or (vget d f) (VList []) of VList xs \<Rightarrow> List.map_filter as_doc xs | _ \<Rightarrow> [])"

definition meta_of :: "doc \<Rightarrow> doc" where
  "meta_of d = (case vget d ''metadata'' of VDict m \<Rightarrow> m | _ \<Rightarrow> [])"

definition read_server_env :: "proxy_env \<Rightarrow> proxy_world \<Rightarrow> string \<Rightarrow> string \<Rightarrow> (string \<times> string) list" where
  "read_server_env env w tid server =
     (case find_one (key_query ''_id'' server) (pw_secrets w tid) of
        None \<Rightarrow> []
      | Some d \<Rightarrow> (case vget d ''values'' of
            VDict vs \<Rightarrow> filter (\<lambda>kv. snd kv \<noteq> [])
              (map (\<lambda>kv. (fst kv, pe_decrypt env tid (if is_str (snd kv) then snd kv else VNone))) vs)
          | _ \<Rightarrow> []))"

type_synonym invoker = "string \<Rightarrow> string \<Rightarrow> doc \<Rightarrow> proxy_state \<Rightarrow> (string + doc) \<times> proxy_state"

text \<open>\<open>SandboxToolBridge.handle\<close>: \<open>calls\<close> relayed calls were made before in this run.\<close>
definition bridge_handle ::
  "settings \<Rightarrow> proxy_env \<Rightarrow> invoker \<Rightarrow> nat \<Rightarrow> string \<Rightarrow> string \<Rightarrow> pyval \<Rightarrow> proxy_state \<Rightarrow> (string + doc) \<times> nat \<times> proxy_state" where
  "bridge_handle s env relay calls server tool args st =
     (let cap = max 0 (cfg_sandbox_tool_max_calls_per_invocation s) in
      if cap > 0 \<and> int calls \<ge> cap then (Inl ''tool_call_limit'', calls, st)
      else if strip server = [] \<or> strip tool = [] then (Inl ''tool_call_invalid'', Suc calls, st)
      else case (if args = VNone then Some [] else as_doc args) of
          None \<Rightarrow> (Inl ''tool_call_invalid'', Suc calls, st)
        | Some d \<Rightarrow>
            (case relay (strip server) (strip tool) d st of
               (Inl kind, st') \<Rightarrow> (Inl kind, Suc calls, st')
             | (Inr payload, st') \<Rightarrow>
                 (if pe_size env payload > max 1024 (cfg_sandbox_tool_max_result_bytes s) then Inl ''tool_rpc_error''
                  else Inr payload, Suc calls, st')))"

text \<open>Running a program; without an invoker the sandbox has no bridge and every call is denied.\<close>
primrec run_script ::
  "settings \<Rightarrow> proxy_env \<Rightarrow> invoker option \<Rightarrow> script \<Rightarrow> nat \<Rightarrow> proxy_state \<Rightarrow> exec_outcome \<times> proxy_state" where
  "run_script s env relay (Finish r) calls st = (r, st)"
| "run_script s env relay (Relay server tool args k) calls st =
     (case relay of
        None \<Rightarrow> run_script s env relay (k (Inl ''tool_bridge_disabled'')) calls st
      | Some f \<Rightarrow>
          (case bridge_handle s env f calls server tool args st of
             (r, calls', st') \<Rightarrow> run_script s env relay (k r) calls' st'))"

definition meter_run :: "settings \<Rightarrow> proxy_env \<Rightarrow> real \<Rightarrow> downstream_server \<Rightarrow> string \<Rightarrow> int \<Rightarrow> proxy_state \<Rightarrow> proxy_state" where
  "meter_run s env now sv tool ms st =
     (let period = current_period (pe_month env) s now; used = max 0 ms
      in case record_usage now (sv_tenant sv) period 0 used (ps_meter st) of
           (_, m) \<Rightarrow> st\<lparr>ps_meter := emit_billing_event now (sv_tenant sv) ''sandbox_ms'' used period
                [(''server'', VStr (sv_server sv)), (''tool'', VStr tool)] m\<rparr>)"

definition code_request ::
  "proxy_env \<Rightarrow> proxy_world \<Rightarrow> downstream_server \<Rightarrow> string \<Rightarrow> doc \<Rightarrow> nat \<Rightarrow> bool \<Rightarrow> doc \<Rightarrow> string list \<Rightarrow> exec_request" where
  "code_request env w sv tool args depth can_relay tdoc permitted =
     \<lparr>er_tenant = sv_tenant sv, er_server = sv_server sv, er_tool = tool,
      er_code = pe_decrypt env (sv_tenant sv) (vget tdoc ''raw_code''),
      er_requirements = scope_texts (iter_values (py_or (vget tdoc ''requirements'') (VList []))), er_arguments = args,
      er_env = read_server_env env w (sv_tenant sv) (sv_server sv),
      er_action = py_str (py_or (vget (meta_of tdoc) ''action_type'') (VStr ''read'')),
      er_can_relay = can_relay, er_depth = depth, er_allowed = permitted\<rparr>"

text \<open>The run itself, once the tool's definition is found and its source decrypted.\<close>
definition run_code_tool ::
  "settings \<Rightarrow> proxy_env \<Rightarrow> proxy_world \<Rightarrow> real \<Rightarrow> downstream_server \<Rightarrow> string \<Rightarrow> doc \<Rightarrow> nat \<Rightarrow> invoker option \<Rightarrow> doc \<Rightarrow> proxy_state
   \<Rightarrow> (call_exc + doc) \<times> proxy_state" where
  "run_code_tool s env w now sv tool args depth relay tdoc st =
     (let pol = (if scope_texts (iter_values (py_or (vget tdoc ''requirements'') (VList []))) = [] then ([], ps_pip st)
                 else get_effective_pip_allowlist s now (pw_tenants w) (ps_pip st) (sv_tenant sv));
          req = code_request env w sv tool args depth (relay \<noteq> None) tdoc (fst pol);
          st1 = st\<lparr>ps_pip := snd pol, ps_log := ps_log st @ [RanCode depth (sv_tenant sv) (sv_server sv) tool]\<rparr>
      in case run_script s env relay (pe_run env req) 0 st1 of
           (ExecOk payload ms, st2) \<Rightarrow> (Inr payload, meter_run s env now sv tool ms st2)
         | (ExecTimeout, st2) \<Rightarrow> (Inl CallTimeout, st2)
         | (ExecProtocolError, st2) \<Rightarrow> (Inl CallProtocolError, st2)
         | (ExecError, st2) \<Rightarrow> (Inl CallDownstreamError, st2))"

definition execute_code_tool ::
  "settings \<Rightarrow> proxy_env \<Rightarrow> proxy_world \<Rightarrow> real \<Rightarrow> downstream_server \<Rightarrow> string \<Rightarrow> doc \<Rightarrow> nat \<Rightarrow> invoker option \<Rightarrow> proxy_state
   \<Rightarrow> (call_exc + doc) \<times> proxy_state" where
  "execute_code_tool s env w now sv tool args depth relay st =
     (if \<not> cfg_code_tool_execution_enabled s then (Inl CallProtocolError, st)
      else case find_one (key_query ''_id'' (sv_server sv)) (pw_routing w (sv_tenant sv)) of
          None \<Rightarrow> (Inl CallKeyError, st)
        | Some routing \<Rightarrow>
            (case find (\<lambda>c. vget c ''name'' = VStr tool) (field_docs routing ''tools'') of
               None \<Rightarrow> (Inl CallKeyError, st)
             | Some tdoc \<Rightarrow>
                 if strip (pe_decrypt env (sv_tenant sv) (vget tdoc ''raw_code'')) = [] then (Inl CallProtocolError, st)
                 else run_code_tool s env w now sv tool args depth relay tdoc st))"

section \<open>Calling a tool\<close>

definition call_tool_with ::
  "settings \<Rightarrow> proxy_env \<Rightarrow> proxy_world \<Rightarrow> real \<Rightarrow> nat \<Rightarrow> invoker option \<Rightarrow> string \<Rightarrow> string \<Rightarrow> doc \<Rightarrow> string option \<Rightarrow> proxy_state
   \<Rightarrow> (call_exc + doc) \<times> proxy_state" where
  "call_tool_with s env w now depth relay server tool args tid st =
     (case get_server s w server (Some (resolve_tenant s tid)) of
        None \<Rightarrow> (Inl CallKeyError, st)
      | Some sv \<Rightarrow>
          if sv_transport sv = ''code'' then execute_code_tool s env w now sv tool args depth relay st
          else attempt_loop env sv tool args call_attempts st)"

text \<open>The invoker a run at \<open>depth\<close> gets: every guard of \<open>make_tool_invoker\<close>, then the sibling call.\<close>
definition relay_call ::
  "settings \<Rightarrow> proxy_world \<Rightarrow> real \<Rightarrow> string \<Rightarrow> caller \<Rightarrow>
   (string \<Rightarrow> string \<Rightarrow> doc \<Rightarrow> proxy_state \<Rightarrow> (call_exc + doc) \<times> proxy_state) \<Rightarrow> invoker" where
  "relay_call s w now tid ca call server tool args st =
     (case authorize_tool_call s now (pw_catalog w) (pw_tenants w) (ps_policy st) (Some tid) server tool
             (map VStr (filter (\<lambda>x. x \<noteq> []) (ca_scopes ca))) (filter (\<lambda>x. x \<noteq> []) (ca_roles ca)) of
        (authz, pol) \<Rightarrow>
          (let st1 = st\<lparr>ps_policy := pol\<rparr>; tool_meta = meta_of (doc_or_empty (auth_tool authz)) in
           if \<not> auth_allowed authz then (Inl ''forbidden'', st1)
           else if truthy (vget tool_meta ''requires_confirmation'') then (Inl ''confirmation_required'', st1)
           else case get_server s w server (Some tid) of
               None \<Rightarrow> (Inl ''tool_not_found'', st1)
             | Some sv \<Rightarrow>
                 if sv_transport sv \<noteq> ''code'' then (Inl ''tool_not_callable'', st1)
                 else (case call server tool args st1 of
                     (Inr payload, st2) \<Rightarrow> (Inr payload, st2)
                   | (Inl CallTimeout, st2) \<Rightarrow> (Inl ''tool_timeout'', st2)
                   | (Inl CallKeyError, st2) \<Rightarrow> (Inl ''tool_not_found'', st2)
                   | (Inl _, st2) \<Rightarrow> (Inl ''tool_error'', st2))))"

text \<open>\<open>budget\<close> is how many more levels may be nested below a call at \<open>depth\<close>.\<close>
primrec call_nested ::
  "nat \<Rightarrow> settings \<Rightarrow> proxy_env \<Rightarrow> proxy_world \<Rightarrow> real \<Rightarrow> nat \<Rightarrow> caller option \<Rightarrow> string \<Rightarrow> string \<Rightarrow> doc \<Rightarrow> string option \<Rightarrow> proxy_state
   \<Rightarrow> (call_exc + doc) \<times> proxy_state" where
  "call_nested 0 s env w now depth ca server tool args tid st =
     call_tool_with s env w now depth None server tool args tid st"
| "call_nested (Suc n) s env w now depth ca server tool args tid st =
     call_tool_with s env w now depth
       (case ca of
          None \<Rightarrow> None
        | Some c \<Rightarrow>
            if \<not> cfg_sandbox_tool_bridge_enabled s then None
            else Some (relay_call s w now (resolve_tenant s tid) c
                   (\<lambda>sv tl ar. call_nested n s env w now (Suc depth) ca sv tl ar (Some (resolve_tenant s tid)))))
       server tool args tid st"

definition call_tool ::
  "settings \<Rightarrow> proxy_env \<Rightarrow> proxy_world \<Rightarrow> real \<Rightarrow> string \<Rightarrow> string \<Rightarrow> doc \<Rightarrow> string option \<Rightarrow> caller option \<Rightarrow> proxy_state
   \<Rightarrow> (call_exc + doc) \<times> proxy_state" where
  "call_tool s env w now server tool args tid ca st =
     call_nested (nat (max 0 (cfg_sandbox_tool_call_max_depth s))) s env w now 0 ca server tool args tid st"

section \<open>Mounting and the tool catalog\<close>

text \<open>The metadata kept in the catalog: code tools carry their transport and a positive wall-clock budget
  or none.\<close>
definition catalog_metadata :: "string \<Rightarrow> doc \<Rightarrow> doc" where
  "catalog_metadata transport tool =
     (let m = (case py_or (vget tool ''metadata'') (VDict []) of VDict d \<Rightarrow> d | _ \<Rightarrow> []) in
      if transport \<noteq> ''code'' then m
      else (let m1 = dput ''transport'' (VStr ''code'') m;
                wall = (case py_int (py_or (vget m1 ''wall_timeout_ms'') (VInt 0)) of Some n \<Rightarrow> n | None \<Rightarrow> 0)
            in if wall > 0 then dput ''wall_timeout_ms'' (VInt wall) m1 else dpop ''wall_timeout_ms'' m1))"

definition fallback_embedding :: "proxy_env \<Rightarrow> settings \<Rightarrow> doc option \<Rightarrow> pyval" where
  "fallback_embedding env s existing =
     (case vget (doc_or_empty existing) ''embedding'' of
        VList (v # vs) \<Rightarrow> VList (v # vs)
      | _ \<Rightarrow> (let dims = (if pe_dimensions env \<le> 0 then cfg_ollama_dimensions s else pe_dimensions env)
              in VList (replicate (nat (max 1 dims)) (VFloat 0))))"

definition catalog_query :: "string \<Rightarrow> pyval \<Rightarrow> query" where
  "catalog_query server name = [(''server'', CEq (VStr server)), (''name'', CEq name)]"

definition sync_tool ::
  "proxy_env \<Rightarrow> settings \<Rightarrow> real \<Rightarrow> string \<Rightarrow> string \<Rightarrow> string \<Rightarrow> pyval \<Rightarrow> doc \<Rightarrow> docs \<times> bool \<Rightarrow> docs \<times> bool" where
  "sync_tool env s now tid server transport server_scopes tool acc =
     (case acc of (coll, degraded) \<Rightarrow>
        (let name = vget tool ''name''; description = vget_or tool ''description'' (VStr []);
             schema = vget_or tool ''input_schema'' (VDict []) in
         if \<not> truthy name then (coll, degraded)
         else let h = pe_hash env server name description schema;
                  existing = find_one (catalog_query server name) coll;
                  reusable = (case existing of
                      Some d \<Rightarrow> vget d ''schema_hash'' = VStr h \<and> truthy (vget d ''embedding'') | None \<Rightarrow> False);
                  text_in = strip (server @ CHR 0x0A # py_str name @ CHR 0x0A # py_str description);
                  fresh = (if reusable then (vget (doc_or_empty existing) ''embedding'', degraded)
                           else if degraded then (fallback_embedding env s existing, True)
                           else case pe_embed env text_in of
                               Some v \<Rightarrow> (VList (map VFloat v), False)
                             | None \<Rightarrow> (fallback_embedding env s existing, True))
              in (fst (update_one (catalog_query server name)
                    (set_fields [(''tenant_id'', VStr tid), (''server'', VStr server), (''name'', name),
                       (''description'', description), (''input_schema'', schema),
                       (''scopes'', py_or (vget tool ''scopes'') server_scopes),
                       (''metadata'', VDict (catalog_metadata transport tool)), (''embedding'', fst fresh),
                       (''schema_hash'', VStr h), (''updated_at'', VTime now)]) True coll), snd fresh)))"

definition doc_tenant :: "settings \<Rightarrow> doc \<Rightarrow> string" where
  "doc_tenant s d = py_str (py_or (vget d ''tenant_id'') (VStr (cfg_default_tenant_id s)))"

definition sync_tool_catalog :: "proxy_env \<Rightarrow> settings \<Rightarrow> real \<Rightarrow> doc \<Rightarrow> proxy_world \<Rightarrow> proxy_world" where
  "sync_tool_catalog env s now sdoc w =
     (let tid = doc_tenant s sdoc; server = text_field sdoc ''server'';
          transport = py_str (py_or (vget sdoc ''transport'') (VStr []));
          tools = (if truthy (vget sdoc ''tools'') then field_docs sdoc ''tools''
                   else pe_discover env (get_server s w server (Some tid)));
          server_scopes = py_or (vget (meta_of sdoc) ''scopes'') (VList [])
      in w\<lparr>pw_catalog := (pw_catalog w)(tid :=
             fst (foldl (\<lambda>acc t. sync_tool env s now tid server transport server_scopes t acc) (pw_catalog w tid, False) tools))\<rparr>)"

datatype mount_error = MountRefused egress_error | MountValueError string

definition server_of_doc :: "settings \<Rightarrow> doc \<Rightarrow> downstream_server" where
  "server_of_doc s d =
     \<lparr>sv_tenant = doc_tenant s d, sv_server = text_field d ''server'',
      sv_transport = py_str (py_or (vget d ''transport'') (VStr ''streamable_http'')),
      sv_origin = py_str (py_or (vget d ''origin'') (VStr ''platform'')),
      sv_endpoint = vget d ''endpoint'', sv_command = vget d ''command'',
      sv_args = map py_str (iter_values (py_or (vget d ''args'') (VList []))),
      sv_env = (case py_or (vget d ''env'') (VDict []) of VDict e \<Rightarrow> map (\<lambda>kv. (fst kv, py_str (snd kv))) e | _ \<Rightarrow> []),
      sv_cwd = vget d ''cwd'', sv_enabled = truthy (vget_or d ''enabled'' (VBool True)), sv_metadata = meta_of d\<rparr>"

definition mount_or_update ::
  "proxy_env \<Rightarrow> settings \<Rightarrow> real \<Rightarrow> doc \<Rightarrow> proxy_world \<Rightarrow> mount_error option \<times> proxy_world" where
  "mount_or_update env s now sdoc w =
     (case assert_mountable sdoc of
        Inl e \<Rightarrow> (Some (MountRefused e), w)
      | Inr _ \<Rightarrow>
          (let sv = server_of_doc s sdoc in
           if sv_transport sv \<in> set [''streamable_http'', ''sse''] \<and> \<not> truthy (sv_endpoint sv)
           then (Some (MountValueError ''requires endpoint''), w)
           else if sv_transport sv = ''stdio'' \<and> \<not> truthy (sv_command sv)
           then (Some (MountValueError ''requires command''), w)
           else (None, sync_tool_catalog env s now sdoc
                   (w\<lparr>pw_servers := dput (sv_tenant sv, sv_server sv) sv (pw_servers w)\<rparr>))))"

definition unmount :: "settings \<Rightarrow> string \<Rightarrow> string option \<Rightarrow> proxy_world \<Rightarrow> proxy_world" where
  "unmount s server tid w =
     (let t = resolve_tenant s tid
      in w\<lparr>pw_servers := dpop (t, server) (pw_servers w),
           pw_catalog := (pw_catalog w)(t := fst (delete_many (key_query ''server'' server) (pw_catalog w t)))\<rparr>)"

text \<open>Servers are stored under their own tenant and name: what mounting keeps.\<close>
definition servers_keyed :: "proxy_world \<Rightarrow> bool" where
  "servers_keyed w = (\<forall>k sv. dget (pw_servers w) k = Some sv \<longrightarrow> k = (sv_tenant sv, sv_server sv))"

lemma mount_keeps_keys:
  assumes "servers_keyed w"
  shows "servers_keyed (snd (mount_or_update env s now d w))" and "servers_keyed (unmount s n t w)"
  using assms
  by (auto simp: servers_keyed_def mount_or_update_def unmount_def sync_tool_catalog_def Let_def split: sum.splits)

section \<open>What a call does\<close>

text \<open>The effects of a step, and a property of each of them.\<close>
definition adds :: "(effect \<Rightarrow> bool) \<Rightarrow> proxy_state \<Rightarrow> proxy_state \<Rightarrow> bool" where
  "adds P st st' = (\<exists>es. ps_log st' = ps_log st @ es \<and> (\<forall>e\<in>set es. P e))"

lemma adds_refl [intro]: "ps_log st' = ps_log st \<Longrightarrow> adds P st st'"
  by (simp add: adds_def)

lemma adds_trans: "adds P st st1 \<Longrightarrow> adds P st1 st2 \<Longrightarrow> adds P st st2"
  by (auto simp: adds_def)

lemma adds_mono: "adds P st st' \<Longrightarrow> (\<And>e. P e \<Longrightarrow> Q e) \<Longrightarrow> adds Q st st'"
  by (auto simp: adds_def)

lemma meter_log [simp]: "ps_log (meter_run s env now sv tool ms st) = ps_log st"
  by (simp add: meter_run_def Let_def split: prod.splits)

lemma bridge_adds:
  assumes "\<And>sv tl d st. adds P st (snd (f sv tl d st))"
  shows "adds P st (snd (snd (bridge_handle s env f calls server tool args st)))"
proof -
  have k: "adds P st st'" if "f a b d st = (r, st')" for a b d r st' using assms [of st a b d] that by simp
  show ?thesis using k
    by (auto simp: bridge_handle_def Let_def split: prod.splits sum.splits option.splits)
qed

lemma run_script_adds:
  assumes "\<And>f sv tl d st. relay = Some f \<Longrightarrow> adds P st (snd (f sv tl d st))"
  shows "adds P st (snd (run_script s env relay p calls st))"
proof (induction p arbitrary: calls st)
  case (Relay server tool args k)
  show ?case
  proof (cases relay)
    case None
    then show ?thesis using Relay by simp
  next
    case (Some f)
    obtain r c' st' where b: "bridge_handle s env f calls server tool args st = (r, c', st')" by (metis prod_cases3)
    have "adds P st st'" using bridge_adds [of P f st s env calls server tool args] assms [OF Some] b by simp
    moreover have "adds P st' (snd (run_script s env relay (k r) c' st'))" using Relay by simp
    ultimately show ?thesis using adds_trans Some b by simp
  qed
qed auto

lemma run_code_adds:
  assumes "\<And>f sv tl d st. relay = Some f \<Longrightarrow> adds P st (snd (f sv tl d st))"
    and "P (RanCode depth (sv_tenant sv) (sv_server sv) tool)"
  shows "adds P st (snd (run_code_tool s env w now sv tool args depth relay tdoc st))"
proof -
  define pol where "pol = (if scope_texts (iter_values (py_or (vget tdoc ''requirements'') (VList []))) = [] then ([], ps_pip st)
      else get_effective_pip_allowlist s now (pw_tenants w) (ps_pip st) (sv_tenant sv))"
  define st1 where "st1 = st\<lparr>ps_pip := snd pol, ps_log := ps_log st @ [RanCode depth (sv_tenant sv) (sv_server sv) tool]\<rparr>"
  obtain r st2 where run: "run_script s env relay
      (pe_run env (code_request env w sv tool args depth (relay \<noteq> None) tdoc (fst pol))) 0 st1 = (r, st2)" by fastforce
  have "adds P st st1" using assms(2) by (auto simp: adds_def st1_def)
  moreover have "adds P st1 (snd (run_script s env relay p 0 st1))" for p
    by (rule run_script_adds) (rule assms(1))
  then have "adds P st1 st2" using run by (metis snd_conv)
  ultimately have 1: "adds P st st2" by (rule adds_trans)
  have 2: "adds P st (meter_run s env now sv tool ms st2)" for ms
    by (rule adds_trans [OF 1]) (rule adds_refl, simp)
  show ?thesis
    unfolding run_code_tool_def Let_def pol_def [symmetric] st1_def [symmetric] run
    by (cases r) (simp_all add: 1 2)
qed

lemma execute_adds:
  assumes "\<And>f sv tl d st. relay = Some f \<Longrightarrow> adds P st (snd (f sv tl d st))"
    and "P (RanCode depth (sv_tenant sv) (sv_server sv) tool)"
  shows "adds P st (snd (execute_code_tool s env w now sv tool args depth relay st))"
proof -
  have "adds P st (snd (run_code_tool s env w now sv tool args depth relay tdoc st))" for tdoc
    by (rule run_code_adds) (fact assms)+
  then show ?thesis by (auto simp: execute_code_tool_def split: option.splits)
qed

lemma attempt_adds:
  assumes "P (Attempted (sv_tenant sv) (sv_server sv) tool args)"
  shows "adds P st (snd (attempt_loop env sv tool args n st))"
proof (induction n arbitrary: st)
  case (Suc n)
  define st' where "st' = st\<lparr>ps_log := ps_log st @ [Attempted (sv_tenant sv) (sv_server sv) tool args]\<rparr>"
  have 1: "adds P st st'" using assms by (simp add: adds_def st'_def)
  have 2: "adds P st (snd (attempt_loop env sv tool args n st'))" by (rule adds_trans [OF 1]) (rule Suc.IH)
  show ?case
    unfolding attempt_loop.simps Let_def st'_def [symmetric]
    by (cases "pe_attempt env (length (ps_log st)) sv tool args") (simp_all add: 1 2)
qed (simp add: adds_refl)

text \<open>What a relayed sandbox run must be: within the nesting budget, in the caller's tenant, authorized
  for the caller who made the outermost call, and not a tool that waits for a human.\<close>
definition relayed_ok :: "settings \<Rightarrow> proxy_world \<Rightarrow> real \<Rightarrow> string \<Rightarrow> caller \<Rightarrow> nat \<Rightarrow> nat \<Rightarrow> effect \<Rightarrow> bool" where
  "relayed_ok s w now tid ca lo hi e =
     (case e of
        RanCode d t server tool \<Rightarrow>
          lo < d \<and> d \<le> hi \<and> t = tid
          \<and> (\<exists>c authz. authz = fst (authorize_tool_call s now (pw_catalog w) (pw_tenants w) c (Some tid) server tool
                   (map VStr (filter (\<lambda>x. x \<noteq> []) (ca_scopes ca))) (filter (\<lambda>x. x \<noteq> []) (ca_roles ca)))
                \<and> auth_allowed authz
                \<and> \<not> truthy (vget (meta_of (doc_or_empty (auth_tool authz))) ''requires_confirmation''))
      | Attempted _ _ _ _ \<Rightarrow> False)"

lemma resolve_tenant_some: "tid \<noteq> [] \<Longrightarrow> resolve_tenant s (Some tid) = tid"
  by (simp add: resolve_tenant_def)

lemma relay_call_adds:
  assumes "\<And>server tool args st sv c authz.
      authz = fst (authorize_tool_call s now (pw_catalog w) (pw_tenants w) c (Some tid) server tool
                   (map VStr (filter (\<lambda>x. x \<noteq> []) (ca_scopes ca))) (filter (\<lambda>x. x \<noteq> []) (ca_roles ca))) \<Longrightarrow>
      auth_allowed authz \<Longrightarrow> \<not> truthy (vget (meta_of (doc_or_empty (auth_tool authz))) ''requires_confirmation'') \<Longrightarrow>
      get_server s w server (Some tid) = Some sv \<Longrightarrow> sv_transport sv = ''code'' \<Longrightarrow>
      adds P st (snd (call server tool args st))"
  shows "adds P st (snd (relay_call s w now tid ca call server tool args st))"
proof -
  obtain authz pol where a: "authorize_tool_call s now (pw_catalog w) (pw_tenants w) (ps_policy st) (Some tid) server tool
      (map VStr (filter (\<lambda>x. x \<noteq> []) (ca_scopes ca))) (filter (\<lambda>x. x \<noteq> []) (ca_roles ca)) = (authz, pol)" by fastforce
  define st1 where "st1 = st\<lparr>ps_policy := pol\<rparr>"
  have 1: "adds P st st1" by (rule adds_refl) (simp add: st1_def)
  show ?thesis
  proof (cases "auth_allowed authz \<and> \<not> truthy (vget (meta_of (doc_or_empty (auth_tool authz))) ''requires_confirmation'')
      \<and> (\<exists>sv. get_server s w server (Some tid) = Some sv \<and> sv_transport sv = ''code'')")
    case True
    then obtain sv where sv: "get_server s w server (Some tid) = Some sv" "sv_transport sv = ''code''" by blast
    obtain r st2 where c: "call server tool args st1 = (r, st2)" by fastforce
    have "authz = fst (authorize_tool_call s now (pw_catalog w) (pw_tenants w) (ps_policy st) (Some tid) server tool
      (map VStr (filter (\<lambda>x. x \<noteq> []) (ca_scopes ca))) (filter (\<lambda>x. x \<noteq> []) (ca_roles ca)))" by (simp add: a)
    from assms [OF this _ _ sv, of st1 args] True c have "adds P st1 st2" by simp
    then have "adds P st st2" by (rule adds_trans [OF 1])
    moreover have "snd (relay_call s w now tid ca call server tool args st) = st2"
      using True sv c by (simp add: relay_call_def a st1_def [symmetric] Let_def split: sum.split call_exc.split)
    ultimately show ?thesis by simp
  next
    case False
    then have "snd (relay_call s w now tid ca call server tool args st) = st1"
      by (auto simp: relay_call_def a st1_def [symmetric] Let_def split: option.split)
    then show ?thesis using 1 by simp
  qed
qed

lemma relayed_widen:
  "relayed_ok s w now tid ca lo hi e \<Longrightarrow> lo' \<le> lo \<Longrightarrow> hi \<le> hi' \<Longrightarrow> relayed_ok s w now tid ca lo' hi' e"
  by (auto simp: relayed_ok_def split: effect.splits)

lemma server_key:
  assumes "servers_keyed w" and "get_server s w server tid = Some sv"
  shows "sv_tenant sv = resolve_tenant s tid \<and> sv_server sv = server"
  using assms by (fastforce simp: servers_keyed_def get_server_def)

text \<open>A call on a code server at \<open>depth\<close> runs that tool, and otherwise only relayed runs.\<close>
lemma nested_adds:
  assumes "servers_keyed w" and "tid \<noteq> []"
  shows "get_server s w server (Some tid) = Some sv \<Longrightarrow> sv_transport sv = ''code'' \<Longrightarrow>
     adds (\<lambda>e. e = RanCode depth tid server tool \<or> relayed_ok s w now tid ca depth (depth + n) e) st
       (snd (call_nested n s env w now depth (Some ca) server tool args (Some tid) st))"
proof (induction n arbitrary: depth server tool args st sv)
  case 0
  have k: "sv_tenant sv = tid \<and> sv_server sv = server"
    using server_key [OF assms(1) 0(1)] by (simp add: resolve_tenant_some [OF assms(2)])
  have "adds (\<lambda>e. e = RanCode depth tid server tool \<or> relayed_ok s w now tid ca depth (depth + 0) e) st
      (snd (execute_code_tool s env w now sv tool args depth None st))"
    by (rule execute_adds) (use k in auto)
  then show ?case using 0 by (simp add: call_tool_with_def resolve_tenant_some [OF assms(2)])
next
  case (Suc n)
  let ?P = "\<lambda>e. e = RanCode depth tid server tool \<or> relayed_ok s w now tid ca depth (depth + Suc n) e"
  let ?call = "\<lambda>sv tl ar. call_nested n s env w now (Suc depth) (Some ca) sv tl ar (Some tid)"
  have k: "sv_tenant sv = tid \<and> sv_server sv = server"
    using server_key [OF assms(1) Suc.prems(1)] by (simp add: resolve_tenant_some [OF assms(2)])
  have rel: "adds ?P st1 (snd (relay_call s w now tid ca ?call a b c st1))" for a b c st1
  proof (rule relay_call_adds)
    fix server' tool' args' st' sv' c' authz
    assume au: "authz = fst (authorize_tool_call s now (pw_catalog w) (pw_tenants w) c' (Some tid) server' tool'
        (map VStr (filter (\<lambda>x. x \<noteq> []) (ca_scopes ca))) (filter (\<lambda>x. x \<noteq> []) (ca_roles ca)))" "auth_allowed authz"
      "\<not> truthy (vget (meta_of (doc_or_empty (auth_tool authz))) ''requires_confirmation'')"
      and sv: "get_server s w server' (Some tid) = Some sv'" "sv_transport sv' = ''code''"
    have "relayed_ok s w now tid ca depth (depth + Suc n) (RanCode (Suc depth) tid server' tool')"
      using au by (auto simp: relayed_ok_def)
    then show "adds ?P st' (snd (?call server' tool' args' st'))"
      using adds_mono [OF Suc.IH [OF sv, of "Suc depth" tool' st' args']] relayed_widen by fastforce
  qed
  have "adds ?P st (snd (execute_code_tool s env w now sv tool args depth
      (if cfg_sandbox_tool_bridge_enabled s then Some (relay_call s w now tid ca ?call) else None) st))"
  proof (rule execute_adds)
    fix f a b c st1
    assume "(if cfg_sandbox_tool_bridge_enabled s then Some (relay_call s w now tid ca ?call) else None) = Some f"
    then have "f = relay_call s w now tid ca ?call" by (simp split: if_splits)
    then show "adds ?P st1 (snd (f a b c st1))" using rel by simp
  qed (use k in auto)
  moreover have "snd (call_nested (Suc n) s env w now depth (Some ca) server tool args (Some tid) st)
      = snd (execute_code_tool s env w now sv tool args depth
      (if cfg_sandbox_tool_bridge_enabled s then Some (relay_call s w now tid ca ?call) else None) st)"
    using Suc.prems by (simp add: call_tool_with_def resolve_tenant_some [OF assms(2)])
  ultimately show ?case by simp
qed

text \<open>C4. A sandboxed call cannot be used to reach further than its caller: everything one call on a code
  server carries out is the tool itself, at depth 0, and relayed sandbox runs that are nested at most
  \<open>sandbox_tool_call_max_depth\<close> deep, stay in the caller's tenant, are each authorized for the scopes
  and roles of the original caller, and are not tools that require a confirmation.  No transport is
  ever used.\<close>
theorem relayed_runs_are_confined:
  assumes "servers_keyed w" and "tid \<noteq> []"
    and "get_server s w server (Some tid) = Some sv" and "sv_transport sv = ''code''"
  shows "adds (\<lambda>e. e = RanCode 0 tid server tool
              \<or> relayed_ok s w now tid ca 0 (nat (max 0 (cfg_sandbox_tool_call_max_depth s))) e) st
           (snd (call_tool s env w now server tool args (Some tid) (Some ca) st))"
  unfolding call_tool_def using nested_adds [OF assms, where depth = 0 and n = "nat (max 0 (cfg_sandbox_tool_call_max_depth s))"]
  by simp

section \<open>How much one call can start\<close>

definition grows :: "nat \<Rightarrow> proxy_state \<Rightarrow> proxy_state \<Rightarrow> bool" where
  "grows k st st' = (length (ps_log st') \<le> length (ps_log st) + k)"

lemma grows_trans: "grows a st st1 \<Longrightarrow> grows b st1 st2 \<Longrightarrow> grows (a + b) st st2"
  by (simp add: grows_def)

lemma grows_mono: "grows a st st' \<Longrightarrow> a \<le> b \<Longrightarrow> grows b st st'"
  by (simp add: grows_def)

lemma grows_refl: "ps_log st' = ps_log st \<Longrightarrow> grows k st st'"
  by (simp add: grows_def)

lemma bridge_grows:
  assumes f: "\<And>sv tl d st. grows k st (snd (f sv tl d st))" and cap: "cfg_sandbox_tool_max_calls_per_invocation s = int m" "0 < m"
    and b: "bridge_handle s env f calls server tool args st = (r, calls', st')"
  shows "if m \<le> calls then calls' = calls \<and> st' = st else calls' = Suc calls \<and> grows k st st'"
proof (cases "m \<le> calls")
  case True
  then show ?thesis using b cap by (simp add: bridge_handle_def)
next
  case False
  have z: "grows k st st" by (rule grows_refl) simp
  have g: "grows k st st2" if "f a c d st = (r2, st2)" for a c d r2 st2 using f [of st a c d] that by simp
  show ?thesis using b False cap z
    by (auto simp: bridge_handle_def Let_def split: if_splits option.splits prod.splits sum.splits dest: g)
qed

lemma script_grows:
  assumes f: "\<And>g sv tl d st. relay = Some g \<Longrightarrow> grows k st (snd (g sv tl d st))"
    and cap: "cfg_sandbox_tool_max_calls_per_invocation s = int m" "0 < m"
  shows "grows ((m - calls) * k) st (snd (run_script s env relay p calls st))"
proof (induction p arbitrary: calls st)
  case (Finish r)
  then show ?case by (simp add: grows_refl)
next
  case (Relay server tool args cont)
  show ?case
  proof (cases relay)
    case None
    then show ?thesis using Relay by simp
  next
    case (Some g)
    obtain r c' st' where b: "bridge_handle s env g calls server tool args st = (r, c', st')" by (metis prod_cases3)
    have step: "if m \<le> calls then c' = calls \<and> st' = st else c' = Suc calls \<and> grows k st st'"
      by (rule bridge_grows [OF _ cap b]) (rule f [OF Some])
    have rest: "grows ((m - c') * k) st' (snd (run_script s env relay (cont r) c' st'))" by (rule Relay.IH) simp
    have split: "k + (m - Suc calls) * k = (m - calls) * k" if "calls < m"
      using that by (metis Suc_diff_Suc mult_Suc)
    have "grows ((m - calls) * k) st (snd (run_script s env relay (cont r) c' st'))"
    proof (cases "m \<le> calls")
      case True
      then show ?thesis using step rest by simp
    next
      case False
      then have "grows (k + (m - Suc calls) * k) st (snd (run_script s env relay (cont r) c' st'))"
        using step rest by (auto intro: grows_trans)
      then show ?thesis using split False by simp
    qed
    then show ?thesis using Some b by simp
  qed
qed

lemma execute_grows:
  assumes f: "\<And>g sv tl d st. relay = Some g \<Longrightarrow> grows k st (snd (g sv tl d st))"
    and cap: "cfg_sandbox_tool_max_calls_per_invocation s = int m" "0 < m"
  shows "grows (1 + m * k) st (snd (execute_code_tool s env w now sv tool args depth relay st))"
proof -
  have z: "grows (1 + m * k) st st" by (rule grows_refl) simp
  have "grows (1 + m * k) st (snd (run_code_tool s env w now sv tool args depth relay tdoc st))" for tdoc
  proof -
    define pol where "pol = (if scope_texts (iter_values (py_or (vget tdoc ''requirements'') (VList []))) = [] then ([], ps_pip st)
        else get_effective_pip_allowlist s now (pw_tenants w) (ps_pip st) (sv_tenant sv))"
    define st1 where "st1 = st\<lparr>ps_pip := snd pol, ps_log := ps_log st @ [RanCode depth (sv_tenant sv) (sv_server sv) tool]\<rparr>"
    define run where "run = run_script s env relay
      (pe_run env (code_request env w sv tool args depth (relay \<noteq> None) tdoc (fst pol))) 0 st1"
    have 1: "grows 1 st st1" by (simp add: grows_def st1_def)
    have 2: "grows ((m - 0) * k) st1 (snd run)" unfolding run_def by (rule script_grows) (rule f cap, assumption?)+
    have 3: "grows (1 + m * k) st (snd run)" using grows_trans [OF 1 2] by simp
    have 4: "grows (1 + m * k) st (meter_run s env now sv tool ms (snd run))" for ms using 3 by (simp add: grows_def)
    show ?thesis
      unfolding run_code_tool_def Let_def pol_def [symmetric] st1_def [symmetric] run_def [symmetric]
      using 3 4 by (cases run; cases "fst run") simp_all
  qed
  then show ?thesis using z by (simp add: execute_code_tool_def split: option.split)
qed

lemma attempts_grow: "grows n st (snd (attempt_loop env sv tool args n st))"
proof (induction n arbitrary: st)
  case (Suc n)
  define st' where "st' = st\<lparr>ps_log := ps_log st @ [Attempted (sv_tenant sv) (sv_server sv) tool args]\<rparr>"
  have 1: "grows (Suc 0) st st'" by (simp add: grows_def st'_def)
  have 2: "grows (Suc n) st (snd (attempt_loop env sv tool args n st'))" using grows_trans [OF 1 Suc.IH] by simp
  have 3: "grows (Suc n) st st'" by (rule grows_mono [OF 1]) simp
  show ?case
    unfolding attempt_loop.simps Let_def st'_def [symmetric]
    by (cases "pe_attempt env (length (ps_log st)) sv tool args") (simp_all add: 1 2 3)
qed (simp add: grows_refl)

text \<open>The most sandbox runs one call can start with \<open>n\<close> levels of nesting and \<open>m\<close> relayed calls per run.\<close>
primrec run_bound :: "nat \<Rightarrow> nat \<Rightarrow> nat" where
  "run_bound m 0 = 1"
| "run_bound m (Suc n) = 1 + m * run_bound m n"

lemma relay_grows:
  assumes "\<And>a b c st sv. get_server s w a (Some tid) = Some sv \<Longrightarrow> sv_transport sv = ''code'' \<Longrightarrow> grows k st (snd (call a b c st))"
  shows "grows k st (snd (relay_call s w now tid ca call server tool args st))"
proof -
  have z: "grows k st (st\<lparr>ps_policy := pol\<rparr>)" for pol by (rule grows_refl) simp
  have k: "grows k st st2"
    if "call a b c (st\<lparr>ps_policy := pol\<rparr>) = (r, st2)" "get_server s w a (Some tid) = Some sv'" "sv_transport sv' = ''code''"
    for a b c pol r st2 sv'
    using assms [OF that(2,3), of "st\<lparr>ps_policy := pol\<rparr>" b c] that(1) by (simp add: grows_def)
  show ?thesis using z
    by (auto simp: relay_call_def Let_def split: prod.splits option.splits sum.splits call_exc.splits dest: k)
qed

lemma nested_grows:
  assumes tid: "tid \<noteq> []" and cap: "cfg_sandbox_tool_max_calls_per_invocation s = int m" "0 < m"
  shows "get_server s w server (Some tid) = Some sv \<Longrightarrow> sv_transport sv = ''code'' \<Longrightarrow>
    grows (run_bound m n) st (snd (call_nested n s env w now depth ca server tool args (Some tid) st))"
proof (induction n arbitrary: depth server tool args st sv)
  case 0
  have "grows (1 + m * 0) st (snd (execute_code_tool s env w now sv tool args depth None st))"
    by (rule execute_grows [OF _ cap]) simp
  then show ?case using 0 by (simp add: call_tool_with_def resolve_tenant_some [OF tid])
next
  case (Suc n)
  let ?call = "\<lambda>sv tl ar. call_nested n s env w now (Suc depth) ca sv tl ar (Some tid)"
  let ?relay = "case ca of None \<Rightarrow> None | Some c \<Rightarrow> if \<not> cfg_sandbox_tool_bridge_enabled s then None
      else Some (relay_call s w now tid c ?call)"
  have "grows (1 + m * run_bound m n) st (snd (execute_code_tool s env w now sv tool args depth ?relay st))"
  proof (rule execute_grows [OF _ cap])
    fix g a b c st1
    assume "?relay = Some g"
    then obtain c0 where "g = relay_call s w now tid c0 ?call" by (auto split: option.splits if_splits)
    then show "grows (run_bound m n) st1 (snd (g a b c st1))"
      using relay_grows [of s w tid "run_bound m n" ?call] Suc.IH by blast
  qed
  then show ?case
    unfolding call_nested.simps call_tool_with_def resolve_tenant_some [OF tid] using Suc.prems by simp
qed

lemma call_tool_transport:
  assumes "tid \<noteq> []" and "get_server s w server (Some tid) = Some sv" and "sv_transport sv \<noteq> ''code''"
  shows "call_tool s env w now server tool args (Some tid) ca st = attempt_loop env sv tool args call_attempts st"
proof -
  have "call_nested d s env w now 0 ca server tool args (Some tid) st = attempt_loop env sv tool args call_attempts st" for d
    using assms by (cases d) (simp_all add: call_tool_with_def resolve_tenant_some)
  then show ?thesis unfolding call_tool_def by simp
qed

lemma call_tool_unknown:
  assumes "tid \<noteq> []" and "get_server s w server (Some tid) = None"
  shows "call_tool s env w now server tool args (Some tid) ca st = (Inl CallKeyError, st)"
proof -
  have "call_nested d s env w now 0 ca server tool args (Some tid) st = (Inl CallKeyError, st)" for d
    using assms by (cases d) (simp_all add: call_tool_with_def resolve_tenant_some)
  then show ?thesis unfolding call_tool_def by simp
qed

text \<open>C15. The work one request can start is bounded by the configuration, whatever the programs do: with a
  cap of \<open>m\<close> relayed calls per run, a call adds at most \<open>run_bound m d\<close> runs (the sum of \<open>m ^ i\<close> over the
  \<open>d\<close> permitted levels), or three attempts when the server is reached over a transport.\<close>
theorem fan_out_is_bounded:
  assumes "tid \<noteq> []" and "cfg_sandbox_tool_max_calls_per_invocation s = int m" and "0 < m"
  shows "grows (max call_attempts (run_bound m (nat (max 0 (cfg_sandbox_tool_call_max_depth s))))) st
           (snd (call_tool s env w now server tool args (Some tid) ca st))"
proof (cases "get_server s w server (Some tid)")
  case None
  then show ?thesis by (simp add: call_tool_unknown [OF assms(1)] grows_refl)
next
  case (Some sv)
  let ?d = "nat (max 0 (cfg_sandbox_tool_call_max_depth s))"
  show ?thesis
  proof (cases "sv_transport sv = ''code''")
    case True
    show ?thesis unfolding call_tool_def
      by (rule grows_mono [OF nested_grows [OF assms Some True]]) simp
  next
    case False
    show ?thesis unfolding call_tool_transport [OF assms(1) Some False]
      by (rule grows_mono [OF attempts_grow]) simp
  qed
qed

lemma run_bound_closed: "run_bound m n = (\<Sum>i\<le>n. m ^ i)"
proof (induction n)
  case (Suc n)
  have "(\<Sum>i\<le>Suc n. m ^ i) = 1 + m * (\<Sum>i\<le>n. m ^ i)"
    by (simp only: sum.atMost_Suc_shift) (simp add: sum_distrib_left)
  then show ?case using Suc by simp
qed simp

section \<open>Retries over a transport\<close>

text \<open>A call that times out is sent again: over a transport that never answers, a single call puts the
  same request on the wire three times before the time-out is reported, whether or not the tool is
  idempotent.\<close>
theorem timed_out_call_is_sent_three_times:
  assumes "tid \<noteq> []" and "get_server s w server (Some tid) = Some sv" and "sv_transport sv \<noteq> ''code''"
    and "\<forall>i. pe_attempt env i sv tool args = AttemptTimeout"
  shows "call_tool s env w now server tool args (Some tid) ca st =
     (Inl CallTimeout, st\<lparr>ps_log := ps_log st @ replicate 3 (Attempted (sv_tenant sv) (sv_server sv) tool args)\<rparr>)"
  using assms(4) unfolding call_tool_transport [OF assms(1-3)] by (simp add: call_attempts_def numeral_3_eq_3 Let_def)

section \<open>The catalog follows the mounted servers\<close>

lemma matches_catalog:
  "matches d (catalog_query server name) \<longleftrightarrow> cond_holds (resolve_path d ''server'') (CEq (VStr server)) \<and>
     cond_holds (resolve_path d ''name'') (CEq name)"
  by (simp add: catalog_query_def)

lemma on_first_keeps: "\<not> p d \<Longrightarrow> d \<in> set ds \<Longrightarrow> d \<in> set (on_first p f ds)"
  by (induction ds) auto

lemma fou_keeps:
  "\<not> matches d q \<Longrightarrow> d \<in> set ds \<Longrightarrow> d \<in> set (snd (find_one_and_update q u b ds))"
  by (auto simp: find_one_and_update_def Let_def on_first_keeps split: option.split)

lemma update_one_keeps: "\<not> matches d q \<Longrightarrow> d \<in> set ds \<Longrightarrow> d \<in> set (fst (update_one q u b ds))"
  using fou_keeps [of d q ds u b] by (auto simp: update_one_def split: prod.split option.split)

lemma sync_tool_keeps:
  assumes "\<not> veq (vget d ''name'') (vget t ''name'')" and "d \<in> set (fst acc)"
  shows "d \<in> set (fst (sync_tool env s now tid server tr sc t acc))"
proof -
  have "\<not> matches d (catalog_query server (vget t ''name''))"
    using assms(1) by (auto simp: matches_catalog resolve_plain)
  then have "d \<in> set (fst (update_one (catalog_query server (vget t ''name'')) u True (fst acc)))" for u
    using assms(2) by (rule update_one_keeps)
  then show ?thesis using assms(2) by (cases acc) (simp add: sync_tool_def Let_def)
qed

lemma sync_tools_keep:
  assumes "\<forall>t\<in>set tools. \<not> veq (vget d ''name'') (vget t ''name'')" and "d \<in> set (fst acc)"
  shows "d \<in> set (fst (foldl (\<lambda>acc t. sync_tool env s now tid server tr sc t acc) acc tools))"
  using assms
proof (induction tools arbitrary: acc)
  case (Cons t ts)
  have "d \<in> set (fst (sync_tool env s now tid server tr sc t acc))" by (rule sync_tool_keeps) (use Cons.prems in auto)
  then show ?case using Cons by simp
qed simp

text \<open>A catalog entry outlives its tool: synchronising a server again updates or adds the tools the new
  definition lists and removes none, so an entry of a tool that was dropped from the definition is
  still in the catalog afterwards, unchanged.\<close>
theorem dropped_tool_stays_listed:
  assumes "d \<in> set (pw_catalog w (doc_tenant s sdoc))" and "truthy (vget sdoc ''tools'')"
    and "\<forall>t\<in>set (field_docs sdoc ''tools''). \<not> veq (vget d ''name'') (vget t ''name'')"
  shows "d \<in> set (pw_catalog (sync_tool_catalog env s now sdoc w) (doc_tenant s sdoc))"
  using sync_tools_keep [OF assms(3), of "(pw_catalog w (doc_tenant s sdoc), False)"] assms(1,2)
  by (simp add: sync_tool_catalog_def Let_def)

section \<open>Witnesses\<close>

definition demo_server :: "string \<Rightarrow> string \<Rightarrow> downstream_server" where
  "demo_server name transport =
     \<lparr>sv_tenant = ''acme'', sv_server = name, sv_transport = transport, sv_origin = ''tenant'', sv_endpoint = VNone,
      sv_command = VNone, sv_args = [], sv_env = [], sv_cwd = VNone, sv_enabled = True, sv_metadata = []\<rparr>"

definition demo_tool_doc :: doc where
  "demo_tool_doc = [(''server'', VStr ''calc''), (''name'', VStr ''add''), (''raw_code'', VStr ''x'')]"

text \<open>A code server whose tool calls itself, and a transport that never answers.\<close>
definition demo_world :: proxy_world where
  "demo_world =
     \<lparr>pw_servers = [((''acme'', ''calc''), demo_server ''calc'' ''code''), ((''acme'', ''crm''), demo_server ''crm'' ''sse'')],
      pw_catalog = (\<lambda>_. [demo_tool_doc]),
      pw_routing = (\<lambda>_. [[(''_id'', VStr ''calc''), (''tools'', VList [VDict demo_tool_doc])]]),
      pw_secrets = (\<lambda>_. []), pw_tenants = []\<rparr>"

definition demo_proxy_env :: proxy_env where
  "demo_proxy_env =
     \<lparr>pe_attempt = (\<lambda>_ _ _ _. AttemptTimeout),
      pe_run = (\<lambda>_. Relay ''calc'' ''add'' VNone (\<lambda>_. Finish (ExecOk [] 5))), pe_decrypt = (\<lambda>_. py_str), pe_size = (\<lambda>_. 0),
      pe_month = (\<lambda>_. ''2024-01''), pe_embed = (\<lambda>_. None), pe_dimensions = 2, pe_hash = (\<lambda>_ _ _ _. []),
      pe_discover = (\<lambda>_. [])\<rparr>"

definition demo_proxy_state :: proxy_state where
  "demo_proxy_state = \<lparr>ps_policy = Map.empty, ps_pip = Map.empty,
     ps_meter = \<lparr>usage_counters = [], tenant_quotas = [], usage_events = []\<rparr>, ps_log = []\<rparr>"

lemma demo_servers:
  "get_server default_settings demo_world ''calc'' (Some ''acme'') = Some (demo_server ''calc'' ''code'')"
  "get_server default_settings demo_world ''crm'' (Some ''acme'') = Some (demo_server ''crm'' ''sse'')"
  "servers_keyed demo_world"
  by (auto simp: get_server_def demo_world_def resolve_tenant_def servers_keyed_def demo_server_def split: if_splits)

lemma relayed_runs_are_confined_witness:
  "adds (\<lambda>e. e = RanCode 0 ''acme'' ''calc'' ''add''
       \<or> relayed_ok default_settings demo_world 0 ''acme'' \<lparr>ca_user = ''u'', ca_scopes = [], ca_roles = [''admin'']\<rparr> 0
           (nat (max 0 (cfg_sandbox_tool_call_max_depth default_settings))) e) demo_proxy_state
     (snd (call_tool default_settings demo_proxy_env demo_world 0 ''calc'' ''add'' [] (Some ''acme'')
        (Some \<lparr>ca_user = ''u'', ca_scopes = [], ca_roles = [''admin'']\<rparr>) demo_proxy_state))"
  by (rule relayed_runs_are_confined [OF demo_servers(3) _ demo_servers(1)]) (simp_all add: demo_server_def)

lemma fan_out_is_bounded_witness:
  "grows (max call_attempts (run_bound (nat (cfg_sandbox_tool_max_calls_per_invocation default_settings))
       (nat (max 0 (cfg_sandbox_tool_call_max_depth default_settings))))) demo_proxy_state
     (snd (call_tool default_settings demo_proxy_env demo_world 0 ''calc'' ''add'' [] (Some ''acme'') None demo_proxy_state))"
  by (rule fan_out_is_bounded) (simp_all add: default_settings_def)

lemma timed_out_call_is_sent_three_times_witness:
  "\<exists>st. call_tool default_settings demo_proxy_env demo_world 0 ''crm'' ''delete'' [] (Some ''acme'') None demo_proxy_state
       = (Inl CallTimeout, st) \<and> length (ps_log st) = 3"
proof -
  have t: "call_tool default_settings demo_proxy_env demo_world 0 ''crm'' ''delete'' [] (Some ''acme'') None demo_proxy_state =
     (Inl CallTimeout, demo_proxy_state\<lparr>ps_log := ps_log demo_proxy_state @
        replicate 3 (Attempted (sv_tenant (demo_server ''crm'' ''sse'')) (sv_server (demo_server ''crm'' ''sse'')) ''delete'' [])\<rparr>)"
    by (rule timed_out_call_is_sent_three_times [OF _ demo_servers(2)])
      (simp_all add: demo_server_def demo_proxy_env_def)
  show ?thesis unfolding t by (simp add: demo_proxy_state_def)
qed

lemma dropped_tool_stays_listed_witness:
  "demo_tool_doc \<in> set (pw_catalog (sync_tool_catalog demo_proxy_env default_settings 0
       [(''tenant_id'', VStr ''acme''), (''server'', VStr ''calc''), (''tools'', VList [VDict [(''name'', VStr ''sub'')]])] demo_world)
     ''acme'')"
proof -
  let ?d = "[(''tenant_id'', VStr ''acme''), (''server'', VStr ''calc''), (''tools'', VList [VDict [(''name'', VStr ''sub'')]])]"
  have t: "doc_tenant default_settings ?d = ''acme''" by (simp add: doc_tenant_def vget_def py_or_def)
  have "demo_tool_doc \<in> set (pw_catalog (sync_tool_catalog demo_proxy_env default_settings 0 ?d demo_world)
      (doc_tenant default_settings ?d))"
    by (rule dropped_tool_stays_listed)
      (simp_all add: demo_world_def field_docs_def vget_def py_or_def map_filter_simps demo_tool_doc_def as_doc_def)
  then show ?thesis unfolding t .
qed

end
