(* ===== verification/CallEffects.thy ===== *)
theory CallEffects
  imports ProxyRegistry
begin

text \<open>What a tool call leaves alone.  A call is a sequence of a few elementary steps on the run state,
  whatever its program relays; a relation that holds of each step and composes therefore holds of
  the whole call.  The locale states the steps and proves that once; it is instantiated for the
  tenant the effects belong to, for the billed calls and for the other tenants' usage.\<close>

section \<open>Relations that every step keeps\<close>

locale call_relation =
  fixes R :: "proxy_state \<Rightarrow> proxy_state \<Rightarrow> bool" and s :: settings and env :: proxy_env and now :: real and tid :: string
  assumes rel_refl: "R st st"
    and rel_trans: "R st st1 \<Longrightarrow> R st1 st2 \<Longrightarrow> R st st2"
    and rel_policy: "R st (st\<lparr>ps_policy := c\<rparr>)"
    and rel_attempt: "R st (st\<lparr>ps_log := ps_log st @ [Attempted tid server tool args]\<rparr>)"
    and rel_run: "R st (st\<lparr>ps_pip := c', ps_log := ps_log st @ [RanCode depth tid server tool]\<rparr>)"
    and rel_meter: "sv_tenant sv = tid \<Longrightarrow> R st (meter_run s env now sv tool ms st)"
begin

lemma bridge_related:
  assumes "\<And>a b c st. R st (snd (f a b c st))"
  shows "R st (snd (snd (bridge_handle s env f calls server tool args st)))"
proof -
  have k: "R st st'" if "f a b c st = (r, st')" for a b c st r st' using assms [of st a b c] that by simp
  show ?thesis using k rel_refl
    by (auto simp: bridge_handle_def Let_def split: prod.splits sum.splits option.splits)
qed

lemma script_related:
  assumes "\<And>f a b c st. relay = Some f \<Longrightarrow> R st (snd (f a b c st))"
  shows "R st (snd (run_script s env relay p calls st))"
proof (induction p arbitrary: calls st)
  case (Relay server tool args k)
  show ?case
  proof (cases relay)
    case None
    then show ?thesis using Relay by simp
  next
    case (Some f)
    obtain r c' st' where b: "bridge_handle s env f calls server tool args st = (r, c', st')" by (metis prod_cases3)
    have 1: "R st st'" using bridge_related [of f st calls server tool args] assms [OF Some] b by simp
    have 2: "R st' (snd (run_script s env relay (k r) c' st'))" using Relay by simp
    show ?thesis using rel_trans [OF 1 2] Some b by simp
  qed
qed (simp add: rel_refl)

lemma code_related:
  assumes "\<And>f a b c st. relay = Some f \<Longrightarrow> R st (snd (f a b c st))" and "sv_tenant sv = tid"
  shows "R st (snd (run_code_tool s env w now sv tool args depth relay tdoc st))"
proof -
  define pol where "pol = (if scope_texts (iter_values (py_or (vget tdoc ''requirements'') (VList []))) = [] then ([], ps_pip st)
      else get_effective_pip_allowlist s now (pw_tenants w) (ps_pip st) (sv_tenant sv))"
  define st1 where "st1 = st\<lparr>ps_pip := snd pol, ps_log := ps_log st @ [RanCode depth (sv_tenant sv) (sv_server sv) tool]\<rparr>"
  define run where "run = run_script s env relay
      (pe_run env (code_request env w sv tool args depth (relay \<noteq> None) tdoc (fst pol))) 0 st1"
  have 1: "R st st1" unfolding st1_def assms(2) by (rule rel_run)
  have "R st1 (snd run)" unfolding run_def by (rule script_related) (rule assms(1))
  then have 2: "R st (snd run)" by (rule rel_trans [OF 1])
  have 3: "R st (meter_run s env now sv tool ms (snd run))" for ms by (rule rel_trans [OF 2 rel_meter [OF assms(2)]])
  show ?thesis
    unfolding run_code_tool_def Let_def pol_def [symmetric] st1_def [symmetric] run_def [symmetric]
    using 2 3 by (cases run; cases "fst run") simp_all
qed

lemma attempts_related:
  assumes "sv_tenant sv = tid"
  shows "R st (snd (attempt_loop env sv tool args n st))"
proof (induction n arbitrary: st)
  case (Suc n)
  define st' where "st' = st\<lparr>ps_log := ps_log st @ [Attempted (sv_tenant sv) (sv_server sv) tool args]\<rparr>"
  have 1: "R st st'" unfolding st'_def assms by (rule rel_attempt)
  have 2: "R st (snd (attempt_loop env sv tool args n st'))" by (rule rel_trans [OF 1 Suc.IH])
  show ?case
    unfolding attempt_loop.simps Let_def st'_def [symmetric]
    by (cases "pe_attempt env (length (ps_log st)) sv tool args") (simp_all add: 1 2)
qed (simp add: rel_refl)

lemma relay_related:
  assumes "\<And>a b c st. R st (snd (call a b c st))"
  shows "R st (snd (relay_call s w now tid ca call server tool args st))"
proof -
  have k: "R st st2" if "call a b c (st\<lparr>ps_policy := pol\<rparr>) = (r, st2)" for a b c pol r st2
    using rel_trans [OF rel_policy assms [of "st\<lparr>ps_policy := pol\<rparr>" a b c]] that by simp
  show ?thesis using rel_policy
    by (auto simp: relay_call_def Let_def split: prod.splits option.splits sum.splits call_exc.splits dest: k)
qed

lemma with_related:
  assumes "servers_keyed w" and "tid \<noteq> []" and "\<And>f a b c st. relay = Some f \<Longrightarrow> R st (snd (f a b c st))"
  shows "R st (snd (call_tool_with s env w now depth relay server tool args (Some tid) st))"
proof (cases "get_server s w server (Some tid)")
  case None
  then show ?thesis by (simp add: call_tool_with_def resolve_tenant_some [OF assms(2)] rel_refl)
next
  case (Some sv)
  have k: "sv_tenant sv = tid" using server_key [OF assms(1) Some] by (simp add: resolve_tenant_some [OF assms(2)])
  have "R st (snd (run_code_tool s env w now sv tool args depth relay tdoc st))" for tdoc
    by (rule code_related) (fact assms(3), fact k)
  then have "R st (snd (execute_code_tool s env w now sv tool args depth relay st))"
    by (auto simp: execute_code_tool_def rel_refl split: option.splits)
  then show ?thesis using Some attempts_related [OF k]
    by (simp add: call_tool_with_def resolve_tenant_some [OF assms(2)])
qed

lemma nested_related:
  assumes "servers_keyed w" and "tid \<noteq> []"
  shows "R st (snd (call_nested n s env w now depth ca server tool args (Some tid) st))"
proof (induction n arbitrary: depth server tool args st)
  case 0
  show ?case using with_related [OF assms, where relay = None] by simp
next
  case (Suc n)
  show ?case
    unfolding call_nested.simps resolve_tenant_some [OF assms(2)]
  proof (rule with_related [OF assms])
    fix f a b c st1
    assume "(case ca of None \<Rightarrow> None | Some c \<Rightarrow> if \<not> cfg_sandbox_tool_bridge_enabled s then None
        else Some (relay_call s w now tid c (\<lambda>sv tl ar. call_nested n s env w now (Suc depth) ca sv tl ar (Some tid)))) = Some f"
    then obtain c0 where "f = relay_call s w now tid c0 (\<lambda>sv tl ar. call_nested n s env w now (Suc depth) ca sv tl ar (Some tid))"
      by (auto split: option.splits if_splits)
    then show "R st1 (snd (f a b c st1))" using relay_related Suc.IH by simp
  qed
qed

lemma call_related:
  assumes "servers_keyed w" and "tid \<noteq> []"
  shows "R st (snd (call_tool s env w now server tool args (Some tid) ca st))"
  unfolding call_tool_def by (rule nested_related [OF assms])

end

section \<open>The effects stay in the tenant\<close>

fun effect_tenant :: "effect \<Rightarrow> string" where
  "effect_tenant (Attempted t server tool args) = t"
| "effect_tenant (RanCode d t server tool) = t"

definition in_tenant :: "string \<Rightarrow> proxy_state \<Rightarrow> proxy_state \<Rightarrow> bool" where
  "in_tenant tid = adds (\<lambda>e. effect_tenant e = tid)"

interpretation own: call_relation "in_tenant tid" s env now tid for s env now tid
proof unfold_locales
  show "in_tenant tid st st2" if "in_tenant tid st st1" "in_tenant tid st1 st2" for st st1 st2
    using that unfolding in_tenant_def by (rule adds_trans)
qed (simp_all add: in_tenant_def adds_def)

section \<open>Calls billed\<close>

definition calls_billed :: "metering \<Rightarrow> nat" where
  "calls_billed m = length (filter (\<lambda>e. event_kind e = ''calls'') (usage_events m))"

lemma billed_record [simp]: "calls_billed (snd (record_usage now tid p c ms m)) = calls_billed m"
  by (simp add: record_usage_def calls_billed_def Let_def split: prod.splits)

lemma billed_emit [simp]:
  "kind \<noteq> [] \<Longrightarrow> calls_billed (emit_billing_event now tid kind n p meta m)
     = calls_billed m + (if kind = ''calls'' \<and> 0 < n then 1 else 0)"
  by (simp add: emit_billing_event_def calls_billed_def event_kind_def insert_one_def vget_def py_or_def)

lemma billed_call [simp]:
  "calls_billed (record_billable_call month s now tid server tool src m) = Suc (calls_billed m)"
proof -
  obtain r m1 where r: "record_usage now tid (current_period month s now) 1 0 m = (r, m1)" by fastforce
  have "calls_billed m1 = calls_billed m" using billed_record [of now tid "current_period month s now" 1 0 m] r by simp
  then show ?thesis by (simp add: record_billable_call_def Let_def r)
qed

lemma billed_meter [simp]: "calls_billed (ps_meter (meter_run s env now sv tool ms st)) = calls_billed (ps_meter st)"
proof -
  let ?p = "current_period (pe_month env) s now"
  obtain r m1 where r: "record_usage now (sv_tenant sv) ?p 0 (max 0 ms) (ps_meter st) = (r, m1)" by fastforce
  have "calls_billed m1 = calls_billed (ps_meter st)" using billed_record [of now "sv_tenant sv" ?p 0 "max 0 ms" "ps_meter st"] r by simp
  then show ?thesis by (simp add: meter_run_def Let_def r)
qed

definition same_bill :: "proxy_state \<Rightarrow> proxy_state \<Rightarrow> bool" where
  "same_bill st st' = (calls_billed (ps_meter st') = calls_billed (ps_meter st))"

interpretation billing: call_relation same_bill s env now tid for s env now tid
  by unfold_locales (simp_all add: same_bill_def)

end
