(* ===== verification/Rpc.thy ===== *)
theory Rpc
  imports AuthMw PendingActions SemanticCache HybridSearch TenantLifecycle CallEffects
begin

text \<open>\<open>gateway/routers/rpc.py\<close>, \<open>models/jsonrpc.py\<close> and \<open>models/domain.py\<close>: the JSON-RPC data plane.  A request is
  dispatched to its handler behind the tenant gates; a tool call then passes authorization, quota,
  sandbox preflight and confirmation before the cache or the downstream tool answers it.

  The state (\<open>gateway\<close>) puts the components' states side by side; one clock reading \<open>now\<close> serves all
  steps of a request.  Telemetry, spans and metrics are left out, and so is the echo of usage and
  quota figures in error data.\<close>

section \<open>State, environment, replies\<close>

record gateway =
  gw_fleet :: fleet
  gw_read_only :: "bool cache"
  gw_proxy :: proxy_world
  gw_run :: proxy_state
  gw_cache :: cache_state
  gw_pending :: docs
  gw_version :: int

text \<open>What the handlers call outside \<open>src\<close>: the transports and sandbox, the embedding and search
  services, hashes, fresh ids, and pydantic's reading of numbers.\<close>
record gateway_env =
  ge_proxy :: proxy_env
  ge_cache :: cache_env
  ge_search :: search_env
  ge_sha :: "string \<Rightarrow> string"
  ge_fingerprint :: "doc \<Rightarrow> string"
  ge_fresh :: "docs \<Rightarrow> string"
  ge_lax_int :: "pyval \<Rightarrow> int option"
  ge_lax_float :: "pyval \<Rightarrow> real option"

datatype rpc_code = PARSE_ERROR | INVALID_REQUEST | METHOD_NOT_FOUND | INVALID_PARAMS | INTERNAL_ERROR
  | SERVER_ERROR | UNAUTHORIZED | FORBIDDEN | RATE_LIMITED | UPSTREAM_TIMEOUT

fun code_number :: "rpc_code \<Rightarrow> int" where
  "code_number PARSE_ERROR = -32700"
| "code_number INVALID_REQUEST = -32600"
| "code_number METHOD_NOT_FOUND = -32601"
| "code_number INVALID_PARAMS = -32602"
| "code_number INTERNAL_ERROR = -32603"
| "code_number SERVER_ERROR = -32000"
| "code_number UNAUTHORIZED = -32001"
| "code_number FORBIDDEN = -32003"
| "code_number RATE_LIMITED = -32029"
| "code_number UPSTREAM_TIMEOUT = -32004"

text \<open>A reply: a result, the result asking for a confirmation (reason, action, expiry), or an error
  with the reason its data carries.\<close>
datatype answer =
    Completed pyval
  | ConfirmationRequired string string string string string pyval
  | Refused rpc_code string string

record rpc_reply =
  rp_id :: pyval
  rp_answer :: answer

record rpc_request =
  rpc_id :: pyval
  rpc_method :: string
  rpc_params :: doc

record rpc_context =
  cx_http :: "AuthMw.http_request"
  cx_state :: request_state
  cx_tenant :: string
  cx_user :: string

text \<open>Exceptions a handler lets escape to the dispatcher.\<close>
datatype rpc_exc = ValidationExc | KeyExc | UnknownTenantExc string | InactiveExc tenant_error | OtherExc

section \<open>Parameters\<close>

record call_params =
  cp_server :: string
  cp_name :: string
  cp_arguments :: doc
  cp_confirmation :: "string option"

record search_params =
  sp_query :: string
  sp_limit :: int
  sp_vector_weight :: "real option"
  sp_text_weight :: "real option"
  sp_scopes :: "string list option"
  sp_mode :: string

record list_params =
  lp_query :: "string option"
  lp_limit :: "int option"
  lp_scopes :: "string list option"
  lp_cursor :: "string option"
  lp_client_version :: "int option"

text \<open>The fields a model declares, None where validation fails: a required text, an optional one, an
  optional list of texts, an optional number.\<close>
definition need_str :: "doc \<Rightarrow> string \<Rightarrow> string option" where
  "need_str d k = (case dget d k of Some (VStr s) \<Rightarrow> Some s | _ \<Rightarrow> None)"

definition maybe_str :: "doc \<Rightarrow> string \<Rightarrow> string option option" where
  "maybe_str d k = (case dget d k of None \<Rightarrow> Some None | Some VNone \<Rightarrow> Some None | Some (VStr s) \<Rightarrow> Some (Some s) | _ \<Rightarrow> None)"

definition maybe_strs :: "doc \<Rightarrow> string \<Rightarrow> string list option option" where
  "maybe_strs d k =
     (case dget d k of
        None \<Rightarrow> Some None
      | Some VNone \<Rightarrow> Some None
      | Some (VList xs) \<Rightarrow> if list_all is_str xs then Some (Some (map py_str xs)) else None
      | _ \<Rightarrow> None)"

definition maybe_num :: "(pyval \<Rightarrow> 'a option) \<Rightarrow> doc \<Rightarrow> string \<Rightarrow> 'a option option" where
  "maybe_num lax d k =
     (case dget d k of None \<Rightarrow> Some None | Some VNone \<Rightarrow> Some None
      | Some v \<Rightarrow> (case lax v of Some n \<Rightarrow> Some (Some n) | None \<Rightarrow> None))"

definition parse_call :: "doc \<Rightarrow> call_params option" where
  "parse_call d =
     (case (need_str d ''server'', need_str d ''name'',
            case dget d ''arguments'' of None \<Rightarrow> Some [] | Some v \<Rightarrow> as_doc v, maybe_str d ''confirmation_id'') of
        (Some server, Some name, Some args, Some conf) \<Rightarrow>
          Some \<lparr>cp_server = server, cp_name = name, cp_arguments = args, cp_confirmation = conf\<rparr>
      | _ \<Rightarrow> None)"

definition parse_search :: "gateway_env \<Rightarrow> doc \<Rightarrow> search_params option" where
  "parse_search env d =
     (case (need_str d ''query'', case dget d ''limit'' of None \<Rightarrow> Some 10 | Some v \<Rightarrow> ge_lax_int env v,
            maybe_num (ge_lax_float env) d ''vector_weight'', maybe_num (ge_lax_float env) d ''text_weight'',
            maybe_strs d ''scopes'', case dget d ''mode'' of None \<Rightarrow> Some ''hybrid'' | Some _ \<Rightarrow> need_str d ''mode'') of
        (Some q, Some n, Some vw, Some tw, Some sc, Some md) \<Rightarrow>
          if md \<in> set [''hybrid'', ''vector'', ''text'']
          then Some \<lparr>sp_query = q, sp_limit = n, sp_vector_weight = vw, sp_text_weight = tw, sp_scopes = sc, sp_mode = md\<rparr>
          else None
      | _ \<Rightarrow> None)"

definition parse_list_params :: "gateway_env \<Rightarrow> doc \<Rightarrow> list_params option" where
  "parse_list_params env d =
     (case (maybe_str d ''query'', maybe_num (ge_lax_int env) d ''limit'', maybe_strs d ''scopes'', maybe_str d ''cursor'',
            maybe_num (ge_lax_int env) d ''client_catalog_version'') of
        (Some q, Some n, Some sc, Some cur, Some v) \<Rightarrow>
          Some \<lparr>lp_query = q, lp_limit = n, lp_scopes = sc, lp_cursor = cur, lp_client_version = v\<rparr>
      | _ \<Rightarrow> None)"

section \<open>Tool calls\<close>

definition tenant_docs :: "gateway \<Rightarrow> docs" where
  "tenant_docs w = fl_tenants (gw_fleet w)"

text \<open>The registry reads the same control collection as the other services.\<close>
definition proxy_view :: "gateway \<Rightarrow> proxy_world" where
  "proxy_view w = (gw_proxy w)\<lparr>pw_tenants := tenant_docs w\<rparr>"

definition caller_scopes :: "rpc_context \<Rightarrow> string list option \<Rightarrow> string list option" where
  "caller_scopes ctx explicit =
     (case explicit of Some (x # xs) \<Rightarrow> Some (x # xs)
      | _ \<Rightarrow> if rs_scopes (cx_state ctx) = [] then None else Some (rs_scopes (cx_state ctx)))"

definition caller_of :: "rpc_context \<Rightarrow> caller" where
  "caller_of ctx =
     \<lparr>ca_user = cx_user ctx, ca_scopes = filter (\<lambda>x. x \<noteq> []) (rs_scopes (cx_state ctx)),
      ca_roles = filter (\<lambda>x. x \<noteq> []) (rs_roles (cx_state ctx))\<rparr>"

text \<open>\<open>(authz.tool or {}).get("metadata", {})\<close>; None where a later \<open>.get\<close> on it raises.\<close>
definition tool_metadata :: "doc option \<Rightarrow> doc option" where
  "tool_metadata tool =
     (case dget (doc_or_empty tool) ''metadata'' of None \<Rightarrow> Some [] | Some (VDict m) \<Rightarrow> Some m | Some _ \<Rightarrow> None)"

definition is_code_metadata :: "doc \<Rightarrow> bool" where
  "is_code_metadata m = (vget m ''transport'' = VStr ''code'')"

text \<open>None: the projected cost is not a number (an exception).\<close>
definition sandbox_gate :: "settings \<Rightarrow> doc \<Rightarrow> usage_snapshot \<Rightarrow> quota \<Rightarrow> answer option option" where
  "sandbox_gate s m usage q =
     (if \<not> (is_code_metadata m \<and> cfg_quota_preflight_enabled s) then Some None
      else case py_int (py_or (vget m ''wall_timeout_ms'') (VInt (cfg_sandbox_wall_timeout_ms s))) of
          None \<Rightarrow> None
        | Some projected \<Rightarrow>
            (case check_sandbox_preflight usage q projected of
               None \<Rightarrow> Some None
             | Some _ \<Rightarrow> Some (Some (Refused RATE_LIMITED ''Projected sandbox cost exceeds the tenant's remaining quota.''
                                      ''sandbox_quota_preflight''))))"

definition reason_text :: "consume_outcome \<Rightarrow> string" where
  "reason_text r =
     (case r of ConsumeOk \<Rightarrow> ''ok'' | ConsumeNotFound \<Rightarrow> ''not_found'' | ConsumeNotApproved \<Rightarrow> ''not_approved''
      | ConsumeMismatch \<Rightarrow> ''mismatch'' | ConsumeExpired \<Rightarrow> ''expired'' | AlreadyConsumed \<Rightarrow> ''already_consumed'')"

text \<open>The confirmation step: None lets the call go on.\<close>
definition confirmation_step ::
  "gateway_env \<Rightarrow> settings \<Rightarrow> real \<Rightarrow> rpc_context \<Rightarrow> call_params \<Rightarrow> doc \<Rightarrow> gateway \<Rightarrow> answer option \<times> gateway" where
  "confirmation_step env s now ctx p m w =
     (let atype = py_str (vget_or m ''action_type'' (VStr ''destructive''));
          conf = opt_text (cp_confirmation p)
      in if \<not> truthy (vget m ''requires_confirmation'') then (None, w)
         else if conf \<noteq> [] then
           (case consume_approved_action (ge_fingerprint env) now (cx_tenant ctx) conf (cx_user ctx) (cp_server p)
                   (cp_name p) (cp_arguments p) (gw_pending w) of
              ((out, d), ds) \<Rightarrow>
                (if out = ConsumeOk then None
                 else if out = ConsumeMismatch
                 then Some (Refused FORBIDDEN ''Confirmation token does not match this request.'' (reason_text out))
                 else Some (ConfirmationRequired (reason_text out) conf (cp_server p) (cp_name p) atype
                              (vget (doc_or_empty d) ''expires_at'')),
                 w\<lparr>gw_pending := ds\<rparr>))
         else
           (case create_pending_action (ge_fingerprint env) now (ge_fresh env (gw_pending w)) (cx_tenant ctx) (cx_user ctx)
                   (cp_server p) (cp_name p) (cp_arguments p) (Some atype) (cfg_confirmation_ttl_seconds s) (gw_pending w) of
              (d, ds) \<Rightarrow>
                (Some (ConfirmationRequired ''pending'' (py_str (vget_or d ''_id'' (VStr []))) (cp_server p) (cp_name p) atype
                         (vget d ''expires_at'')),
                 w\<lparr>gw_pending := ds\<rparr>)))"

definition bill :: "gateway_env \<Rightarrow> settings \<Rightarrow> real \<Rightarrow> rpc_context \<Rightarrow> call_params \<Rightarrow> string \<Rightarrow> gateway \<Rightarrow> gateway" where
  "bill env s now ctx p src w =
     w\<lparr>gw_run := (gw_run w)\<lparr>ps_meter :=
        record_billable_call (pe_month (ge_proxy env)) s now (cx_tenant ctx) (cp_server p) (cp_name p) src (ps_meter (gw_run w))\<rparr>\<rparr>"

definition cache_ttl :: "doc \<Rightarrow> int option" where
  "cache_ttl m = py_int (py_or (vget_or m ''cache_ttl_seconds'' (VInt (24 * 3600))) (VInt 0))"

text \<open>The names in \<open>invalidates\<close>; None where iterating raises.\<close>
definition invalidates :: "doc \<Rightarrow> string list option" where
  "invalidates m =
     (case vget_or m ''invalidates'' (VList []) of
        VList xs \<Rightarrow> Some (scope_texts xs) | VStr t \<Rightarrow> Some (map (\<lambda>c. [c]) t) | VDict d \<Rightarrow> Some (map fst d) | _ \<Rightarrow> None)"

definition try_cache_lookup ::
  "gateway_env \<Rightarrow> settings \<Rightarrow> real \<Rightarrow> rpc_context \<Rightarrow> call_params \<Rightarrow> bool \<Rightarrow> int \<Rightarrow> gateway \<Rightarrow> (rpc_exc + answer option) \<times> gateway" where
  "try_cache_lookup env s now ctx p cacheable ttl w =
     (if \<not> (cacheable \<and> ttl > 0) then (Inr None, w)
      else case cache_lookup (ge_cache env) s (cp_name p) (cp_arguments p) (cx_tenant ctx) (gw_cache w) of
          (Inl _, sc) \<Rightarrow> (Inl OtherExc, w\<lparr>gw_cache := sc\<rparr>)
        | (Inr None, sc) \<Rightarrow> (Inr None, w\<lparr>gw_cache := sc\<rparr>)
        | (Inr (Some v), sc) \<Rightarrow> (Inr (Some (Completed v)), bill env s now ctx p ''cache_hit'' (w\<lparr>gw_cache := sc\<rparr>)))"

definition execute_downstream ::
  "gateway_env \<Rightarrow> settings \<Rightarrow> real \<Rightarrow> rpc_context \<Rightarrow> call_params \<Rightarrow> gateway \<Rightarrow> (call_exc + doc) \<times> gateway" where
  "execute_downstream env s now ctx p w =
     (case call_tool s (ge_proxy env) (proxy_view w) now (cp_server p) (cp_name p) (cp_arguments p) (Some (cx_tenant ctx))
             (Some (caller_of ctx)) (gw_run w) of
        (r, st) \<Rightarrow> (r, w\<lparr>gw_run := st\<rparr>))"

text \<open>After a live result: store it, invalidate what the tool names, bill the call.\<close>
definition settle_result ::
  "gateway_env \<Rightarrow> settings \<Rightarrow> real \<Rightarrow> rpc_context \<Rightarrow> call_params \<Rightarrow> bool \<Rightarrow> int \<Rightarrow> string list \<Rightarrow> doc \<Rightarrow> gateway
   \<Rightarrow> (rpc_exc + answer) \<times> gateway" where
  "settle_result env s now ctx p cacheable ttl names result w =
     (case (if cacheable \<and> ttl > 0
            then store_entry (ge_cache env) now (cp_name p) (cp_arguments p) (VDict result) (cx_tenant ctx) ttl None (gw_cache w)
            else (None, gw_cache w)) of
        (Some _, sc) \<Rightarrow> (Inl OtherExc, w\<lparr>gw_cache := sc\<rparr>)
      | (None, sc) \<Rightarrow>
          (let sc' = (if names = [] then sc else snd (cache_invalidate (cx_tenant ctx) names sc))
           in (Inr (Completed (VDict result)), bill env s now ctx p ''live_execution'' (w\<lparr>gw_cache := sc'\<rparr>))))"

definition run_step ::
  "gateway_env \<Rightarrow> settings \<Rightarrow> real \<Rightarrow> rpc_context \<Rightarrow> call_params \<Rightarrow> doc \<Rightarrow> gateway \<Rightarrow> (rpc_exc + answer) \<times> gateway" where
  "run_step env s now ctx p m w =
     (case (cache_ttl m, invalidates m) of
        (Some ttl, Some names) \<Rightarrow>
          (let cacheable = truthy (vget_or m ''cacheable'' (VBool False)) in
           case try_cache_lookup env s now ctx p cacheable ttl w of
             (Inl x, w1) \<Rightarrow> (Inl x, w1)
           | (Inr (Some a), w1) \<Rightarrow> (Inr a, w1)
           | (Inr None, w1) \<Rightarrow>
               (case execute_downstream env s now ctx p w1 of
                  (Inl CallTimeout, w2) \<Rightarrow> (Inr (Refused UPSTREAM_TIMEOUT [] []), w2)
                | (Inl CallKeyError, w2) \<Rightarrow> (Inl KeyExc, w2)
                | (Inl _, w2) \<Rightarrow> (Inl OtherExc, w2)
                | (Inr result, w2) \<Rightarrow> settle_result env s now ctx p cacheable ttl names result w2))
      | _ \<Rightarrow> (Inl OtherExc, w))"

text \<open>The gates of a call once it is authorized: quota, feature flag, preflight, confirmation.\<close>
definition gated_call ::
  "gateway_env \<Rightarrow> settings \<Rightarrow> real \<Rightarrow> rpc_context \<Rightarrow> call_params \<Rightarrow> doc option \<Rightarrow> gateway \<Rightarrow> (rpc_exc + answer) \<times> gateway" where
  "gated_call env s now ctx p tool w =
     (case check_quota s (cx_tenant ctx) (current_period (pe_month (ge_proxy env)) s now) (ps_meter (gw_run w)) of
        (Some _, _, _) \<Rightarrow> (Inr (Refused RATE_LIMITED ''Tenant usage quota exceeded.'' ''quota_exceeded''), w)
      | (None, usage, q) \<Rightarrow>
          (case tool_metadata tool of
             None \<Rightarrow> (Inl OtherExc, w)
           | Some m \<Rightarrow>
               if is_code_metadata m \<and> \<not> cfg_code_tool_execution_enabled s
               then (Inr (Refused SERVER_ERROR ''Code tool execution is not yet enabled.'' ''code_execution_not_enabled''), w)
               else (case sandbox_gate s m usage q of
                   None \<Rightarrow> (Inl OtherExc, w)
                 | Some (Some a) \<Rightarrow> (Inr a, w)
                 | Some None \<Rightarrow>
                     (case confirmation_step env s now ctx p m w of
                        (Some a, w1) \<Rightarrow> (Inr a, w1)
                      | (None, w1) \<Rightarrow> run_step env s now ctx p m w1))))"

fun auth_reason_text :: "auth_reason \<Rightarrow> string" where
  "auth_reason_text ToolNotFound = ''tool_not_found''"
| "auth_reason_text ToolDisabled = ''tool_disabled''"
| "auth_reason_text AdminOverride = ''admin_override''"
| "auth_reason_text InvokeNotPermitted = ''invoke_not_permitted''"
| "auth_reason_text ToolNotAllowlisted = ''tool_not_allowlisted''"
| "auth_reason_text ServerScopeRequired = ''server_scope_required''"
| "auth_reason_text NoScopeRequired = ''no_scope_required''"
| "auth_reason_text MissingScope = ''missing_scope''"
| "auth_reason_text ScopeMatch = ''scope_match''"
| "auth_reason_text ScopeMismatch = ''scope_mismatch''"

definition authorize_call ::
  "settings \<Rightarrow> real \<Rightarrow> string \<Rightarrow> string list \<Rightarrow> string list \<Rightarrow> string \<Rightarrow> string \<Rightarrow> gateway \<Rightarrow> authorization_result \<times> gateway" where
  "authorize_call s now tid scopes roles server name w =
     (case authorize_tool_call s now (pw_catalog (gw_proxy w)) (tenant_docs w) (ps_policy (gw_run w)) (Some tid)
             server name (map VStr scopes) roles of
        (authz, pol) \<Rightarrow> (authz, w\<lparr>gw_run := (gw_run w)\<lparr>ps_policy := pol\<rparr>\<rparr>))"

definition handle_tools_call ::
  "gateway_env \<Rightarrow> settings \<Rightarrow> real \<Rightarrow> rpc_context \<Rightarrow> doc \<Rightarrow> gateway \<Rightarrow> (rpc_exc + answer) \<times> gateway" where
  "handle_tools_call env s now ctx params w =
     (case parse_call params of
        None \<Rightarrow> (Inl ValidationExc, w)
      | Some p \<Rightarrow>
          (case authorize_call s now (cx_tenant ctx) (rs_scopes (cx_state ctx)) (rs_roles (cx_state ctx))
                  (cp_server p) (cp_name p) w of
             (authz, w1) \<Rightarrow>
               if \<not> auth_allowed authz then (Inr (Refused FORBIDDEN ''Insufficient scope for tool call.''
                       (auth_reason_text (auth_reason_code authz))), w1)
               else gated_call env s now ctx p (auth_tool authz) w1))"

section \<open>Discovery\<close>

definition to_mcp_tool :: "doc \<Rightarrow> pyval" where
  "to_mcp_tool item = VDict
     [(''name'', vget item ''name''), (''description'', vget_or item ''description'' (VStr [])),
      (''inputSchema'', vget_or item ''input_schema'' (VDict [])), (''server'', vget item ''server''),
      (''scopes'', vget_or item ''scopes'' (VList []))]"

definition decode_cursor :: "string option \<Rightarrow> int" where
  "decode_cursor cursor = (case parse_int (opt_text cursor) of Some n \<Rightarrow> max 0 n | None \<Rightarrow> 0)"

definition filter_curated :: "settings \<Rightarrow> real \<Rightarrow> string \<Rightarrow> docs \<Rightarrow> gateway \<Rightarrow> docs \<times> gateway" where
  "filter_curated s now tid items w =
     (case filter_available_tools (status_cache_ttl s) now (tenant_docs w) (ps_policy (gw_run w)) tid items ''server'' ''name'' of
        (items', pol) \<Rightarrow> (items', w\<lparr>gw_run := (gw_run w)\<lparr>ps_policy := pol\<rparr>\<rparr>))"

text \<open>One page of the full list: its items before curation and the next cursor.\<close>
definition list_page ::
  "settings \<Rightarrow> (string \<Rightarrow> docs) \<Rightarrow> string \<Rightarrow> string list option \<Rightarrow> int option \<Rightarrow> int \<Rightarrow> docs \<times> string option" where
  "list_page s catalog tid scopes cap offset =
     (let n = min (max 1 (int_or cap (cfg_route_top_k s))) (cfg_catalog_list_limit s);
          items = list_tools s catalog (Some tid) scopes (Some (n + 1)) offset None;
          has_more = int (length items) > n
      in (if has_more then take (nat n) items else items, if has_more then Some (int_str (offset + n)) else None))"

definition opt_str :: "string option \<Rightarrow> pyval" where
  "opt_str v = (case v of None \<Rightarrow> VNone | Some t \<Rightarrow> VStr t)"

definition handle_tools_list ::
  "gateway_env \<Rightarrow> settings \<Rightarrow> real \<Rightarrow> rpc_context \<Rightarrow> doc \<Rightarrow> gateway \<Rightarrow> (rpc_exc + answer) \<times> gateway" where
  "handle_tools_list env s now ctx params w =
     (case parse_list_params env params of
        None \<Rightarrow> (Inl ValidationExc, w)
      | Some p \<Rightarrow>
          (let query = (if opt_text (lp_query p) \<noteq> [] then opt_text (lp_query p)
                        else header (cx_http ctx) (lower (cfg_query_header s)));
               scopes = caller_scopes ctx (lp_scopes p);
               client = (case lp_client_version p of Some v \<Rightarrow> v | None \<Rightarrow> 0);
               page = (if query \<noteq> []
                       then (search_tools (ge_search env) s (pw_catalog (gw_proxy w)) (Some (cx_tenant ctx)) query
                               (Some (int_or (lp_limit p) (cfg_route_top_k s))) None None scopes (Some ''hybrid'') None, None)
                       else list_page s (pw_catalog (gw_proxy w)) (cx_tenant ctx) scopes (lp_limit p) (decode_cursor (lp_cursor p)))
           in case filter_curated s now (cx_tenant ctx) (fst page) w of
                (items, w1) \<Rightarrow>
                  (Inr (Completed (VDict
                     [(''tools'', VList (map to_mcp_tool items)), (''routed'', VBool (query \<noteq> [])),
                      (''next_cursor'', opt_str (snd page)), (''catalog_version'', VInt (gw_version w)),
                      (''list_changed'', VBool (client \<noteq> 0 \<and> client \<noteq> gw_version w))])), w1)))"

definition handle_tools_search ::
  "gateway_env \<Rightarrow> settings \<Rightarrow> real \<Rightarrow> rpc_context \<Rightarrow> doc \<Rightarrow> gateway \<Rightarrow> (rpc_exc + answer) \<times> gateway" where
  "handle_tools_search env s now ctx params w =
     (case parse_search env params of
        None \<Rightarrow> (Inl ValidationExc, w)
      | Some p \<Rightarrow>
          (case filter_curated s now (cx_tenant ctx)
                  (search_tools (ge_search env) s (pw_catalog (gw_proxy w)) (Some (cx_tenant ctx)) (sp_query p)
                     (Some (sp_limit p)) (sp_vector_weight p) (sp_text_weight p) (caller_scopes ctx (sp_scopes p))
                     (Some (sp_mode p)) None) w of
             (items, w1) \<Rightarrow>
               (Inr (Completed (VDict [(''mode'', VStr (sp_mode p)), (''items'', VList (map VDict items))])), w1)))"

section \<open>Dispatch\<close>

definition handle_initialize :: "settings \<Rightarrow> gateway \<Rightarrow> answer" where
  "handle_initialize s w = Completed (VDict
     [(''protocolVersion'', VStr ''2025-06-18''),
      (''capabilities'', VDict [(''tools'', VDict [(''listChanged'', VBool True), (''pagination'', VBool True)])]),
      (''serverInfo'', VDict [(''name'', VStr (cfg_app_name s)), (''version'', VStr (cfg_app_version s))]),
      (''catalog_version'', VInt (gw_version w))])"

definition handle_list_changed :: "gateway \<Rightarrow> answer" where
  "handle_list_changed w = Completed (VDict [(''catalog_version'', VInt (gw_version w)), (''changed'', VBool True)])"

definition TENANT_SCOPED_METHODS :: "string list" where
  "TENANT_SCOPED_METHODS = [''tools/call'', ''tools/list'', ''tools/search'']"

definition HANDLED_METHODS :: "string list" where
  "HANDLED_METHODS = [''initialize'', ''notifications/tools/list_changed''] @ TENANT_SCOPED_METHODS"

definition ready_gate :: "gateway_env \<Rightarrow> settings \<Rightarrow> real \<Rightarrow> string \<Rightarrow> gateway \<Rightarrow> (rpc_exc + unit) \<times> gateway" where
  "ready_gate env s now tid w =
     (case ensure_tenant_ready (ge_sha env) s now tid (gw_fleet w) of
        (Inl (UnknownTenantError t), f) \<Rightarrow> (Inl (UnknownTenantExc t), w\<lparr>gw_fleet := f\<rparr>)
      | (Inr _, f) \<Rightarrow> (Inr (), w\<lparr>gw_fleet := f\<rparr>))"

definition active_gate :: "settings \<Rightarrow> real \<Rightarrow> string \<Rightarrow> gateway \<Rightarrow> (rpc_exc + unit) \<times> gateway" where
  "active_gate s now tid w =
     (case assert_tenant_active (status_cache_ttl s) now (tenant_docs w) (fl_status (gw_fleet w)) tid of
        (r, c) \<Rightarrow> (case r of Inl e \<Rightarrow> Inl (InactiveExc e) | Inr _ \<Rightarrow> Inr (),
                   w\<lparr>gw_fleet := (gw_fleet w)\<lparr>fl_status := c\<rparr>\<rparr>))"

definition writable_gate :: "settings \<Rightarrow> real \<Rightarrow> string \<Rightarrow> gateway \<Rightarrow> (rpc_exc + unit) \<times> gateway" where
  "writable_gate s now tid w =
     (case assert_tenant_writable (status_cache_ttl s) now (tenant_docs w) (gw_read_only w) tid of
        (r, c) \<Rightarrow> (case r of Inl e \<Rightarrow> Inl (InactiveExc e) | Inr _ \<Rightarrow> Inr (), w\<lparr>gw_read_only := c\<rparr>))"

text \<open>One gate after the other: the first refusal ends it.\<close>
definition and_then ::
  "(rpc_exc + unit) \<times> gateway \<Rightarrow> (gateway \<Rightarrow> (rpc_exc + 'a) \<times> gateway) \<Rightarrow> (rpc_exc + 'a) \<times> gateway" where
  "and_then g f = (case g of (Inl x, w) \<Rightarrow> (Inl x, w) | (Inr _, w) \<Rightarrow> f w)"

definition tenant_gates :: "gateway_env \<Rightarrow> settings \<Rightarrow> real \<Rightarrow> string \<Rightarrow> string \<Rightarrow> gateway \<Rightarrow> (rpc_exc + unit) \<times> gateway" where
  "tenant_gates env s now tid meth w =
     and_then (ready_gate env s now tid w) (\<lambda>w1.
     and_then (active_gate s now tid w1) (\<lambda>w2.
     if meth = ''tools/call'' then writable_gate s now tid w2 else (Inr (), w2)))"

definition call_handler ::
  "gateway_env \<Rightarrow> settings \<Rightarrow> real \<Rightarrow> rpc_context \<Rightarrow> string \<Rightarrow> doc \<Rightarrow> gateway \<Rightarrow> (rpc_exc + answer) \<times> gateway" where
  "call_handler env s now ctx meth params w =
     (if meth = ''initialize'' then (Inr (handle_initialize s w), w)
      else if meth = ''notifications/tools/list_changed'' then (Inr (handle_list_changed w), w)
      else if meth = ''tools/call'' then handle_tools_call env s now ctx params w
      else if meth = ''tools/list'' then handle_tools_list env s now ctx params w
      else handle_tools_search env s now ctx params w)"

definition inactive_code :: "tenant_error \<Rightarrow> string" where
  "inactive_code e =
     (case e of TenantSuspended _ _ \<Rightarrow> ''tenant_suspended'' | TenantDeleted _ _ \<Rightarrow> ''tenant_deleted''
      | TenantReadOnly _ _ \<Rightarrow> ''tenant_read_only'')"

fun exc_answer :: "rpc_exc \<Rightarrow> answer" where
  "exc_answer ValidationExc = Refused INVALID_PARAMS ''Invalid JSON-RPC parameters.'' []"
| "exc_answer KeyExc = Refused METHOD_NOT_FOUND [] []"
| "exc_answer (UnknownTenantExc t) = Refused INVALID_REQUEST [] ''tenant_not_provisioned''"
| "exc_answer (InactiveExc e) = Refused FORBIDDEN [] (inactive_code e)"
| "exc_answer OtherExc = Refused INTERNAL_ERROR ''Gateway execution failed.'' []"

definition dispatch ::
  "gateway_env \<Rightarrow> settings \<Rightarrow> real \<Rightarrow> rpc_context \<Rightarrow> rpc_request \<Rightarrow> gateway \<Rightarrow> rpc_reply \<times> gateway" where
  "dispatch env s now ctx r w =
     (if rpc_method r \<notin> set HANDLED_METHODS
      then (\<lparr>rp_id = rpc_id r, rp_answer = Refused METHOD_NOT_FOUND (''Unsupported method: '' @ rpc_method r) []\<rparr>, w)
      else case (if rpc_method r \<in> set TENANT_SCOPED_METHODS
                 then and_then (tenant_gates env s now (cx_tenant ctx) (rpc_method r) w)
                        (call_handler env s now ctx (rpc_method r) (rpc_params r))
                 else call_handler env s now ctx (rpc_method r) (rpc_params r) w) of
          (Inl x, w') \<Rightarrow> (\<lparr>rp_id = rpc_id r, rp_answer = exc_answer x\<rparr>, w')
        | (Inr a, w') \<Rightarrow> (\<lparr>rp_id = rpc_id r, rp_answer = a\<rparr>, w'))"

definition jsonrpc_handler ::
  "gateway_env \<Rightarrow> settings \<Rightarrow> real \<Rightarrow> AuthMw.http_request \<Rightarrow> request_state \<Rightarrow> rpc_request \<Rightarrow> gateway \<Rightarrow> rpc_reply \<times> gateway" where
  "jsonrpc_handler env s now h st r w =
     dispatch env s now \<lparr>cx_http = h, cx_state = st, cx_tenant = py_str (rs_tenant st), cx_user = py_str (rs_user st)\<rparr> r w"

section \<open>What each step leaves alone\<close>

lemma proxy_view_simps [simp]:
  "servers_keyed (proxy_view w) = servers_keyed (gw_proxy w)" "pw_catalog (proxy_view w) = pw_catalog (gw_proxy w)"
  by (simp_all add: proxy_view_def servers_keyed_def)

text \<open>Steps that only touch the tenant caches.\<close>
definition run_untouched :: "gateway \<Rightarrow> gateway \<Rightarrow> bool" where
  "run_untouched w w' = (gw_proxy w' = gw_proxy w \<and> gw_run w' = gw_run w \<and> gw_cache w' = gw_cache w \<and> gw_pending w' = gw_pending w)"

lemma gates_leave_runs:
  "run_untouched w (snd (ready_gate env s now tid w))" "run_untouched w (snd (active_gate s now tid w))"
  "run_untouched w (snd (writable_gate s now tid w))"
  by (auto simp: run_untouched_def ready_gate_def active_gate_def writable_gate_def split: prod.split sum.split fleet_error.split)

lemma untouched_trans: "run_untouched w w1 \<Longrightarrow> run_untouched w1 w2 \<Longrightarrow> run_untouched w w2"
  by (simp add: run_untouched_def)

lemma tenant_gates_cases:
  assumes "tenant_gates env s now tid meth w = (r, w')"
  shows "run_untouched w w' \<and> (r = Inr () \<longrightarrow>
     (\<exists>w1 w2. ready_gate env s now tid w = (Inr (), w1) \<and> active_gate s now tid w1 = (Inr (), w2)
        \<and> (meth = ''tools/call'' \<longrightarrow> writable_gate s now tid w2 = (Inr (), w'))))"
proof -
  obtain r1 w1 where 1: "ready_gate env s now tid w = (r1, w1)" by fastforce
  obtain r2 w2 where 2: "active_gate s now tid w1 = (r2, w2)" by fastforce
  obtain r3 w3 where 3: "writable_gate s now tid w2 = (r3, w3)" by fastforce
  have u: "run_untouched w w1" "run_untouched w1 w2" "run_untouched w2 w3"
    using gates_leave_runs(1) [of w env s now tid] gates_leave_runs(2) [of w1 s now tid] gates_leave_runs(3) [of w2 s now tid]
    by (simp_all add: 1 2 3)
  then have "run_untouched w w2" "run_untouched w w3" by (blast intro: untouched_trans)+
  with u assms show ?thesis
    by (auto simp: tenant_gates_def and_then_def 1 2 3 split: sum.splits if_splits)
qed

lemma bill_simps [simp]:
  "ps_log (gw_run (bill env s now ctx p src w)) = ps_log (gw_run w)" "gw_pending (bill env s now ctx p src w) = gw_pending w"
  "gw_cache (bill env s now ctx p src w) = gw_cache w"
  "calls_billed (ps_meter (gw_run (bill env s now ctx p src w))) = Suc (calls_billed (ps_meter (gw_run w)))"
  by (simp_all add: bill_def)

lemma confirmation_leaves_runs:
  "gw_run (snd (confirmation_step env s now ctx p m w)) = gw_run w
   \<and> gw_proxy (snd (confirmation_step env s now ctx p m w)) = gw_proxy w
   \<and> (\<forall>a. fst (confirmation_step env s now ctx p m w) = Some a \<longrightarrow> \<not> (\<exists>v. a = Completed v))"
  by (auto simp: confirmation_step_def Let_def split: prod.splits)

lemma confirmation_passed:
  assumes "confirmation_step env s now ctx p m w = (None, w')" and "truthy (vget m ''requires_confirmation'')"
  shows "\<exists>d. consume_approved_action (ge_fingerprint env) now (cx_tenant ctx) (opt_text (cp_confirmation p)) (cx_user ctx)
       (cp_server p) (cp_name p) (cp_arguments p) (gw_pending w) = ((ConsumeOk, d), gw_pending w')"
  using assms by (auto simp: confirmation_step_def Let_def split: prod.splits if_splits)

definition executed :: "gateway \<Rightarrow> gateway \<Rightarrow> bool" where
  "executed w w' = (ps_log (gw_run w') \<noteq> ps_log (gw_run w))"

definition billed :: "gateway \<Rightarrow> nat" where
  "billed w = calls_billed (ps_meter (gw_run w))"

definition delivers :: "rpc_exc + answer \<Rightarrow> bool" where
  "delivers r = (case r of Inr (Completed v) \<Rightarrow> True | _ \<Rightarrow> False)"

lemma delivers_iff: "delivers r \<longleftrightarrow> (\<exists>v. r = Inr (Completed v))"
  by (auto simp: delivers_def split: sum.splits answer.splits)

lemma settle_facts:
  assumes "settle_result env s now ctx p c ttl names res w = (r, w')"
  shows "gw_pending w' = gw_pending w \<and> ps_log (gw_run w') = ps_log (gw_run w)
     \<and> billed w' = billed w + (if delivers r then 1 else 0)"
  using assms by (auto simp: settle_result_def Let_def billed_def delivers_iff split: prod.splits option.splits if_splits)

lemma execute_facts:
  assumes "servers_keyed (gw_proxy w)" and "cx_tenant ctx \<noteq> []" and "execute_downstream env s now ctx p w = (r, w')"
  shows "gw_pending w' = gw_pending w \<and> billed w' = billed w \<and> in_tenant (cx_tenant ctx) (gw_run w) (gw_run w')"
proof -
  let ?c = "call_tool s (ge_proxy env) (proxy_view w) now (cp_server p) (cp_name p) (cp_arguments p) (Some (cx_tenant ctx))
             (Some (caller_of ctx)) (gw_run w)"
  have k: "servers_keyed (proxy_view w)" using assms(1) by simp
  have "same_bill (gw_run w) (snd ?c)" "in_tenant (cx_tenant ctx) (gw_run w) (snd ?c)"
    by (rule billing.call_related [OF k assms(2)], rule own.call_related [OF k assms(2)])
  then show ?thesis using assms(3)
    by (auto simp: execute_downstream_def same_bill_def billed_def split: prod.splits)
qed

lemma lookup_facts:
  assumes "try_cache_lookup env s now ctx p c ttl w = (r, w')"
  shows "gw_pending w' = gw_pending w \<and> ps_log (gw_run w') = ps_log (gw_run w) \<and> gw_proxy w' = gw_proxy w
     \<and> (case r of Inr (Some a) \<Rightarrow> (\<exists>v. a = Completed v) \<and> billed w' = Suc (billed w) | _ \<Rightarrow> gw_run w' = gw_run w)"
  using assms by (auto simp: try_cache_lookup_def billed_def bill_def split: prod.splits sum.splits option.splits if_splits)

lemma in_tenant_log: "ps_log st' = ps_log st \<Longrightarrow> in_tenant t st st'"
  by (simp add: in_tenant_def adds_def)

lemma in_tenant_trans: "in_tenant t st st1 \<Longrightarrow> in_tenant t st1 st2 \<Longrightarrow> in_tenant t st st2"
  unfolding in_tenant_def by (rule adds_trans)

lemma run_step_facts:
  assumes "servers_keyed (gw_proxy w)" and "cx_tenant ctx \<noteq> []" and "run_step env s now ctx p m w = (r, w')"
  shows "gw_pending w' = gw_pending w \<and> billed w' = billed w + (if delivers r then 1 else 0)
     \<and> in_tenant (cx_tenant ctx) (gw_run w) (gw_run w')"
proof (cases "cache_ttl m = None \<or> invalidates m = None")
  case True
  then have "(r, w') = (Inl OtherExc, w)" using assms(3) by (auto simp: run_step_def split: option.splits)
  then show ?thesis by (simp add: delivers_iff in_tenant_log)
next
  case False
  then obtain ttl names where m: "cache_ttl m = Some ttl" "invalidates m = Some names" by auto
  define c where "c = truthy (vget_or m ''cacheable'' (VBool False))"
  obtain l w1 where l: "try_cache_lookup env s now ctx p c ttl w = (l, w1)" by fastforce
  obtain x w2 where x: "execute_downstream env s now ctx p w1 = (x, w2)" by fastforce
  note lf = lookup_facts [OF l]
  have k: "servers_keyed (gw_proxy w1)" using assms(1) lf by simp
  note xf = execute_facts [OF k assms(2) x]
  show ?thesis
  proof (cases "l = Inr None")
    case True
    have same: "gw_run w1 = gw_run w" "gw_pending w1 = gw_pending w" using lf True by simp_all
    have bl: "billed w2 = billed w" using xf same by (simp add: billed_def)
    show ?thesis
    proof (cases x)
      case (Inl e)
      then have "w' = w2 \<and> \<not> delivers r" using assms(3) l x True
        by (cases e) (auto simp: run_step_def m c_def [symmetric] Let_def delivers_iff)
      then show ?thesis using xf same bl by simp
    next
      case (Inr d)
      then have st: "settle_result env s now ctx p c ttl names d w2 = (r, w')" using assms(3) l x True
        by (simp add: run_step_def m c_def [symmetric] Let_def)
      show ?thesis using settle_facts [OF st] xf same bl in_tenant_trans [OF _ in_tenant_log] by auto
    qed
  next
    case False
    then have "(\<exists>e. l = Inl e \<and> r = Inl e \<and> w' = w1) \<or> (\<exists>a. l = Inr (Some a) \<and> r = Inr a \<and> w' = w1)"
      using assms(3) l by (auto simp: run_step_def m c_def [symmetric] Let_def split: sum.splits option.splits)
    then show ?thesis using lf by (auto simp: delivers_iff billed_def in_tenant_log)
  qed
qed

lemma gated_facts:
  assumes "servers_keyed (gw_proxy w)" and "cx_tenant ctx \<noteq> []" and "gated_call env s now ctx p tool w = (r, w')"
  shows "billed w' = billed w + (if delivers r then 1 else 0)
     \<and> in_tenant (cx_tenant ctx) (gw_run w) (gw_run w')"
proof -
  obtain qr usage q where qr: "check_quota s (cx_tenant ctx) (current_period (pe_month (ge_proxy env)) s now) (ps_meter (gw_run w)) = (qr, usage, q)"
    by (metis prod_cases3)
  show ?thesis
  proof (cases "\<exists>m w1. tool_metadata tool = Some m \<and> confirmation_step env s now ctx p m w = (None, w1) \<and> run_step env s now ctx p m w1 = (r, w')")
    case True
    then obtain m w1 where m: "confirmation_step env s now ctx p m w = (None, w1)" "run_step env s now ctx p m w1 = (r, w')" by blast
    then have c: "gw_run w1 = gw_run w" "gw_proxy w1 = gw_proxy w" using confirmation_leaves_runs [of env s now ctx p m w] by simp_all
    have "servers_keyed (gw_proxy w1)" using assms(1) c by simp
    from run_step_facts [OF this assms(2) m(2)] show ?thesis using c by (simp add: billed_def)
  next
    case False
    have nc: "\<not> (\<exists>v. a = Completed v) \<and> gw_run w1 = gw_run w" if "confirmation_step env s now ctx p m w = (Some a, w1)" for m a w1
      using confirmation_leaves_runs [of env s now ctx p m w] that by simp
    have ng: "sandbox_gate s m usage q \<noteq> Some (Some (Completed v))" for m v
      by (auto simp: sandbox_gate_def split: if_splits option.splits)
    have "gw_run w' = gw_run w \<and> \<not> delivers r"
      using False assms(3)
      by (auto simp: gated_call_def qr delivers_iff ng split: option.splits if_splits prod.splits dest: nc)
    then show ?thesis by (simp add: billed_def in_tenant_log)
  qed
qed

lemma authorize_call_leaves:
  "gw_proxy (snd (authorize_call s now tid sc ro server name w)) = gw_proxy w
   \<and> ps_log (gw_run (snd (authorize_call s now tid sc ro server name w))) = ps_log (gw_run w)
   \<and> ps_meter (gw_run (snd (authorize_call s now tid sc ro server name w))) = ps_meter (gw_run w)
   \<and> gw_pending (snd (authorize_call s now tid sc ro server name w)) = gw_pending w"
  by (simp add: authorize_call_def split: prod.split)

lemma tools_call_facts:
  assumes "servers_keyed (gw_proxy w)" and "cx_tenant ctx \<noteq> []" and "handle_tools_call env s now ctx params w = (r, w')"
  shows "billed w' = billed w + (if delivers r then 1 else 0)
     \<and> in_tenant (cx_tenant ctx) (gw_run w) (gw_run w')"
proof (cases "parse_call params")
  case None
  then show ?thesis using assms(3) by (auto simp: handle_tools_call_def delivers_iff in_tenant_log)
next
  case (Some p)
  obtain authz w1 where a: "authorize_call s now (cx_tenant ctx) (rs_scopes (cx_state ctx)) (rs_roles (cx_state ctx))
      (cp_server p) (cp_name p) w = (authz, w1)" by fastforce
  have w1: "gw_proxy w1 = gw_proxy w" "ps_log (gw_run w1) = ps_log (gw_run w)" "billed w1 = billed w"
    using authorize_call_leaves [of s now "cx_tenant ctx" "rs_scopes (cx_state ctx)" "rs_roles (cx_state ctx)" "cp_server p" "cp_name p" w]
    by (simp_all add: a billed_def)
  show ?thesis
  proof (cases "auth_allowed authz")
    case True
    then have g: "gated_call env s now ctx p (auth_tool authz) w1 = (r, w')"
      using assms(3) Some a by (simp add: handle_tools_call_def)
    have "servers_keyed (gw_proxy w1)" using assms(1) w1 by simp
    from gated_facts [OF this assms(2) g] show ?thesis using w1 in_tenant_trans [OF in_tenant_log [OF w1(2)]] by simp
  next
    case False
    then have "w' = w1 \<and> \<not> delivers r" using assms(3) Some a by (auto simp: handle_tools_call_def delivers_iff)
    then show ?thesis using w1 by (simp add: in_tenant_log)
  qed
qed

lemma curated_leaves:
  assumes "filter_curated s now tid items w = (xs, w')"
  shows "ps_log (gw_run w') = ps_log (gw_run w) \<and> billed w' = billed w \<and> gw_pending w' = gw_pending w"
  using assms by (auto simp: filter_curated_def billed_def split: prod.splits)

lemma discovery_leaves:
  "handle_tools_list env s now ctx ps w = (r, w') \<Longrightarrow> ps_log (gw_run w') = ps_log (gw_run w) \<and> billed w' = billed w \<and> gw_pending w' = gw_pending w"
  "handle_tools_search env s now ctx ps w = (r, w') \<Longrightarrow> ps_log (gw_run w') = ps_log (gw_run w) \<and> billed w' = billed w \<and> gw_pending w' = gw_pending w"
  by (auto simp: handle_tools_list_def handle_tools_search_def Let_def split: option.splits prod.splits dest!: curated_leaves)

section \<open>What a dispatched request does\<close>

lemma dispatch_cases:
  assumes "dispatch env s now ctx r w = (reply, w')"
  obtains (stopped) "run_untouched w w'" "\<And>v. rp_answer reply = Completed v \<Longrightarrow> rpc_method r \<noteq> ''tools/call''"
  | (discovered) "rpc_method r \<noteq> ''tools/call''" "ps_log (gw_run w') = ps_log (gw_run w)" "billed w' = billed w"
  | (called) w1 x where "rpc_method r = ''tools/call''" "tenant_gates env s now (cx_tenant ctx) ''tools/call'' w = (Inr (), w1)"
      "handle_tools_call env s now ctx (rpc_params r) w1 = (x, w')"
      "rp_answer reply = (case x of Inl e \<Rightarrow> exc_answer e | Inr a \<Rightarrow> a)"
proof -
  have refl: "run_untouched w w" by (simp add: run_untouched_def)
  have ex: "exc_answer e \<noteq> Completed v" for e v by (cases e) simp_all
  show thesis
  proof (cases "rpc_method r \<in> set TENANT_SCOPED_METHODS")
    case False
    then have "run_untouched w w'" "rpc_method r \<noteq> ''tools/call''"
      using assms refl by (auto simp: dispatch_def call_handler_def HANDLED_METHODS_def TENANT_SCOPED_METHODS_def split: if_splits)
    then show ?thesis by (rule stopped)
  next
    case True
    then have hm: "rpc_method r \<in> set HANDLED_METHODS" by (simp add: HANDLED_METHODS_def)
    obtain g w1 where g: "tenant_gates env s now (cx_tenant ctx) (rpc_method r) w = (g, w1)" by fastforce
    have u: "run_untouched w w1" using tenant_gates_cases [OF g] by blast
    show ?thesis
    proof (cases g)
      case (Inl e)
      then have "w' = w1" "rp_answer reply = exc_answer e" using assms True hm g by (auto simp: dispatch_def and_then_def)
      then show ?thesis using u ex stopped by metis
    next
      case (Inr _)
      obtain x w2 where x: "call_handler env s now ctx (rpc_method r) (rpc_params r) w1 = (x, w2)" by fastforce
      have d: "w' = w2" "rp_answer reply = (case x of Inl e \<Rightarrow> exc_answer e | Inr a \<Rightarrow> a)"
        using assms True hm g Inr x by (auto simp: dispatch_def and_then_def split: sum.splits)
      show ?thesis
      proof (cases "rpc_method r = ''tools/call''")
        case True
        then show ?thesis using called [of w1 x] g Inr x d by (simp add: call_handler_def)
      next
        case False
        have "ps_log (gw_run w2) = ps_log (gw_run w1) \<and> billed w2 = billed w1"
          using x False True discovery_leaves
          by (auto simp: call_handler_def TENANT_SCOPED_METHODS_def split: if_splits)
        then show ?thesis using discovered False d(1) u by (simp add: run_untouched_def billed_def)
      qed
    qed
  qed
qed

lemma keyed_after_gates: "run_untouched w w1 \<Longrightarrow> servers_keyed (gw_proxy w1) = servers_keyed (gw_proxy w)"
  by (simp add: run_untouched_def)

text \<open>C3. Every delivered result is billed, and nothing else is: over the JSON-RPC surface the number of
  billed calls grows by exactly one when a tool call is answered with a result, live or from the cache,
  and stays when it is refused, waits for a confirmation, times out or fails, and for every other
  method; and whatever the request carries out, it carries out in the caller's own tenant.\<close>
theorem rpc_bills_exactly_the_results:
  assumes "servers_keyed (gw_proxy w)" and "cx_tenant ctx \<noteq> []" and "dispatch env s now ctx r w = (reply, w')"
  shows "billed w' = billed w + (if rpc_method r = ''tools/call'' \<and> (\<exists>v. rp_answer reply = Completed v) then 1 else 0)
     \<and> in_tenant (cx_tenant ctx) (gw_run w) (gw_run w')"
  using assms(3)
proof (cases rule: dispatch_cases)
  case stopped
  then show ?thesis by (auto simp: run_untouched_def billed_def in_tenant_log)
next
  case discovered
  then show ?thesis by (simp add: in_tenant_log)
next
  case (called w1 x)
  have u: "run_untouched w w1" using tenant_gates_cases [OF called(2)] by blast
  have "servers_keyed (gw_proxy w1)" using keyed_after_gates [OF u] assms(1) by simp
  from tools_call_facts [OF this assms(2) called(3)] have f: "billed w' = billed w1 + (if delivers x then 1 else 0)"
    "in_tenant (cx_tenant ctx) (gw_run w1) (gw_run w')" by simp_all
  have "delivers x \<longleftrightarrow> (\<exists>v. rp_answer reply = Completed v)"
    using called(4) by (cases x; cases "projl x") (auto simp: delivers_iff)
  then show ?thesis using f u called(1) by (simp add: run_untouched_def billed_def)
qed

lemma gated_executed:
  assumes "servers_keyed (gw_proxy w)" and "cx_tenant ctx \<noteq> []" and "gated_call env s now ctx p tool w = (r, w')"
    and "ps_log (gw_run w') \<noteq> ps_log (gw_run w)"
  shows "\<exists>usage q m. check_quota s (cx_tenant ctx) (current_period (pe_month (ge_proxy env)) s now) (ps_meter (gw_run w)) = (None, usage, q)
     \<and> tool_metadata tool = Some m \<and> (is_code_metadata m \<longrightarrow> cfg_code_tool_execution_enabled s)
     \<and> sandbox_gate s m usage q = Some None
     \<and> (truthy (vget m ''requires_confirmation'') \<longrightarrow>
          (\<exists>d. consume_approved_action (ge_fingerprint env) now (cx_tenant ctx) (opt_text (cp_confirmation p)) (cx_user ctx)
             (cp_server p) (cp_name p) (cp_arguments p) (gw_pending w) = ((ConsumeOk, d), gw_pending w')))"
proof -
  obtain qr usage q where qr: "check_quota s (cx_tenant ctx) (current_period (pe_month (ge_proxy env)) s now) (ps_meter (gw_run w)) = (qr, usage, q)"
    by (metis prod_cases3)
  have nc: "gw_run w1 = gw_run w" if "confirmation_step env s now ctx p m w = (a, w1)" for m a w1
    using confirmation_leaves_runs [of env s now ctx p m w] that by simp
  obtain m w1 where g: "qr = None" "tool_metadata tool = Some m" "is_code_metadata m \<longrightarrow> cfg_code_tool_execution_enabled s"
    "sandbox_gate s m usage q = Some None" "confirmation_step env s now ctx p m w = (None, w1)" "run_step env s now ctx p m w1 = (r, w')"
    using assms(3,4) by (auto simp: gated_call_def qr split: option.splits if_splits prod.splits dest: nc)
  have "servers_keyed (gw_proxy w1)" using assms(1) g(5) confirmation_leaves_runs [of env s now ctx p m w] by simp
  from run_step_facts [OF this assms(2) g(6)] have "gw_pending w' = gw_pending w1" by simp
  then show ?thesis using qr g confirmation_passed [OF g(5)] by auto
qed

lemma gates_meaning:
  assumes "tenant_gates env s now tid ''tools/call'' w = (Inr (), w')"
  shows "fst (get_tenant_status (status_cache_ttl s) now (tenant_docs w') (fl_status (gw_fleet w)) tid) = STATUS_ACTIVE
     \<and> \<not> fst (get_tenant_read_only (status_cache_ttl s) now (tenant_docs w') (gw_read_only w) tid)"
proof -
  obtain w1 w2 where g: "ready_gate env s now tid w = (Inr (), w1)" "active_gate s now tid w1 = (Inr (), w2)"
    "writable_gate s now tid w2 = (Inr (), w')"
    using tenant_gates_cases [OF assms] by auto
  have 1: "fl_status (gw_fleet w1) = fl_status (gw_fleet w)" "gw_read_only w1 = gw_read_only w"
    using g(1) by (auto simp: ready_gate_def ensure_tenant_ready_def provision_tenant_def Let_def
        split: if_splits option.splits prod.splits sum.splits fleet_error.splits)
  have 2: "tenant_docs w2 = tenant_docs w1" "gw_read_only w2 = gw_read_only w1"
    "fst (assert_tenant_active (status_cache_ttl s) now (tenant_docs w1) (fl_status (gw_fleet w1)) tid) = Inr ()"
    using g(2) by (auto simp: active_gate_def tenant_docs_def split: prod.splits sum.splits)
  have 3: "tenant_docs w' = tenant_docs w2"
    "fst (assert_tenant_writable (status_cache_ttl s) now (tenant_docs w2) (gw_read_only w2) tid) = Inr ()"
    using g(3) by (auto simp: writable_gate_def tenant_docs_def split: prod.splits sum.splits)
  show ?thesis using 1 2(1,2) 3(1) 2(3) [unfolded assert_active_iff] 3(2) [unfolded assert_writable_iff] by simp
qed


lemma authorize_tool_found:
  "get_tool s catalog tid server name = Some tool \<Longrightarrow>
   auth_tool (fst (authorize_tool_call s now catalog db c tid server name sc ro)) = Some tool"
  by (simp add: authorize_tool_call_def Let_def split: prod.split)

lemma pending_created:
  assumes "confirmation_step env s now ctx p m w = (a, w')" and "truthy (vget m ''requires_confirmation'')" and "opt_text (cp_confirmation p) = []"
  shows "\<exists>d. gw_pending w' = gw_pending w @ [d] \<and> vget d ''status'' = VStr PENDING \<and> vget d ''tenant_id'' = VStr (cx_tenant ctx)
        \<and> vget d ''user_id'' = VStr (cx_user ctx) \<and> vget d ''server'' = VStr (cp_server p) \<and> vget d ''tool'' = VStr (cp_name p)
        \<and> vget d ''args_fingerprint'' = VStr (ge_fingerprint env (cp_arguments p))
        \<and> (\<exists>atype expiry. a = Some (ConfirmationRequired ''pending'' (py_str (vget d ''_id'')) (cp_server p) (cp_name p) atype expiry))"
  using assms
  by (auto simp: confirmation_step_def create_pending_action_def insert_one_def vget_def vget_or_def Let_def)

lemma gated_unconfirmed:
  assumes "gated_call env s now ctx p (Some tool) w = (x, w')" and "tool_metadata (Some tool) = Some m"
    and "truthy (vget m ''requires_confirmation'')" and "opt_text (cp_confirmation p) = []"
  shows "gw_run w' = gw_run w \<and> (gw_pending w' = gw_pending w
     \<or> (\<exists>a. x = Inr a \<and> confirmation_step env s now ctx p m w = (Some a, w')))"
proof -
  obtain qr usage q where qr: "check_quota s (cx_tenant ctx) (current_period (pe_month (ge_proxy env)) s now) (ps_meter (gw_run w)) = (qr, usage, q)"
    by (metis prod_cases3)
  obtain a w1 where c: "confirmation_step env s now ctx p m w = (a, w1)" by fastforce
  have "a \<noteq> None" using pending_created [OF c assms(3,4)] by auto
  moreover have "gw_run w1 = gw_run w" using confirmation_leaves_runs [of env s now ctx p m w] c by simp
  ultimately show ?thesis
    using assms(1) by (auto simp: gated_call_def qr assms(2) c split: option.splits if_splits)
qed

text \<open>A tool that requires a confirmation never runs without one: called with no confirmation id, it
  reaches no transport and no sandbox and is not billed, and either nothing is recorded (a gate
  refused it) or exactly one pending action is, for this tenant, user, tool and argument list, and
  the reply names it.\<close>
theorem unconfirmed_call_waits:
  assumes "dispatch env s now ctx r w = (reply, w')" and "rpc_method r = ''tools/call''" and "parse_call (rpc_params r) = Some p"
    and "get_tool s (pw_catalog (gw_proxy w)) (Some (cx_tenant ctx)) (cp_server p) (cp_name p) = Some tool"
    and "tool_metadata (Some tool) = Some m" and "truthy (vget m ''requires_confirmation'')" and "opt_text (cp_confirmation p) = []"
  shows "\<not> executed w w' \<and> billed w' = billed w
     \<and> (gw_pending w' = gw_pending w
        \<or> (\<exists>d. gw_pending w' = gw_pending w @ [d] \<and> vget d ''status'' = VStr PENDING \<and> vget d ''tenant_id'' = VStr (cx_tenant ctx)
              \<and> vget d ''user_id'' = VStr (cx_user ctx) \<and> vget d ''server'' = VStr (cp_server p) \<and> vget d ''tool'' = VStr (cp_name p)
              \<and> vget d ''args_fingerprint'' = VStr (ge_fingerprint env (cp_arguments p))
              \<and> (\<exists>atype expiry. rp_answer reply =
                    ConfirmationRequired ''pending'' (py_str (vget d ''_id'')) (cp_server p) (cp_name p) atype expiry)))"
  using assms(1)
proof (cases rule: dispatch_cases)
  case stopped
  then show ?thesis by (auto simp: executed_def run_untouched_def billed_def)
next
  case discovered
  then show ?thesis using assms(2) by simp
next
  case (called w1 x)
  have u: "run_untouched w w1" using tenant_gates_cases [OF called(2)] by blast
  obtain authz w2 where a: "authorize_call s now (cx_tenant ctx) (rs_scopes (cx_state ctx)) (rs_roles (cx_state ctx))
      (cp_server p) (cp_name p) w1 = (authz, w2)" by fastforce
  have w2: "ps_log (gw_run w2) = ps_log (gw_run w)" "ps_meter (gw_run w2) = ps_meter (gw_run w)" "gw_pending w2 = gw_pending w"
    using authorize_call_leaves [of s now "cx_tenant ctx" "rs_scopes (cx_state ctx)" "rs_roles (cx_state ctx)" "cp_server p" "cp_name p" w1] u
    by (simp_all add: a run_untouched_def)
  have az: "fst (authorize_tool_call s now (pw_catalog (gw_proxy w)) (tenant_docs w1) (ps_policy (gw_run w)) (Some (cx_tenant ctx)) (cp_server p)
      (cp_name p) (map VStr (rs_scopes (cx_state ctx))) (rs_roles (cx_state ctx))) = authz"
    using a u by (auto simp: authorize_call_def run_untouched_def split: prod.splits)
  have tool: "auth_tool authz = Some tool" unfolding az [symmetric] by (rule authorize_tool_found [OF assms(4)])
  show ?thesis
  proof (cases "auth_allowed authz")
    case False
    then have "w' = w2" using called(3) assms(3) a by (simp add: handle_tools_call_def)
    then show ?thesis using w2 by (simp add: executed_def billed_def)
  next
    case True
    then have g: "gated_call env s now ctx p (Some tool) w2 = (x, w')" using called(3) assms(3) a tool by (simp add: handle_tools_call_def)
    from gated_unconfirmed [OF this assms(5-7)] show ?thesis
      using pending_created [OF _ assms(6,7)] w2 called(4) by (fastforce simp: executed_def billed_def)
  qed
qed

section \<open>Walking through the pages of the catalog\<close>

definition page_request :: "string option \<Rightarrow> doc" where
  "page_request cursor = (case cursor of None \<Rightarrow> [] | Some c \<Rightarrow> [(''cursor'', VStr c)])"

text \<open>A client that follows \<open>next_cursor\<close>, for at most the given number of pages.\<close>
primrec walk :: "nat \<Rightarrow> gateway_env \<Rightarrow> settings \<Rightarrow> real \<Rightarrow> rpc_context \<Rightarrow> string option \<Rightarrow> gateway \<Rightarrow> pyval list option" where
  "walk 0 env s now ctx cursor w = None"
| "walk (Suc n) env s now ctx cursor w =
     (case handle_tools_list env s now ctx (page_request cursor) w of
        (Inr (Completed (VDict d)), w') \<Rightarrow>
          (case vget d ''tools'' of VList xs \<Rightarrow>
            (case vget d ''next_cursor'' of
               VStr c \<Rightarrow> map_option (\<lambda>ys. xs @ ys) (walk n env s now ctx (Some c) w')
             | _ \<Rightarrow> Some xs)
           | _ \<Rightarrow> None)
      | _ \<Rightarrow> None)"

lemma parse_page: "parse_list_params env (page_request c) =
   Some \<lparr>lp_query = None, lp_limit = None, lp_scopes = None, lp_cursor = c, lp_client_version = None\<rparr>"
  by (cases c) (simp_all add: page_request_def parse_list_params_def maybe_str_def maybe_num_def maybe_strs_def)

text \<open>Reading the policy again at the same instant gives the same policy.\<close>
lemma policy_stable:
  "fst (get_tool_policy ttl now db (snd (get_tool_policy ttl now db c t)) t) = fst (get_tool_policy ttl now db c t)"
  by (cases "cache_hit c t now")
    (auto simp: get_tool_policy_def cache_store_def cache_hit_def Let_def split: option.splits if_splits)

lemma curated_pages:
  assumes "filter_curated s now t xs w = (ys, w')"
  defines "pol \<equiv> fst (get_tool_policy (status_cache_ttl s) now (tenant_docs w) (ps_policy (gw_run w)) t)"
  shows "ys = filter (\<lambda>d. is_tool_available pol (text_field d ''server'') (text_field d ''name'')) xs"
    and "fst (get_tool_policy (status_cache_ttl s) now (tenant_docs w') (ps_policy (gw_run w')) t) = pol"
    and "gw_proxy w' = gw_proxy w" and "gw_version w' = gw_version w"
proof -
  obtain p c where g: "get_tool_policy (status_cache_ttl s) now (tenant_docs w) (ps_policy (gw_run w)) t = (p, c)" by fastforce
  have w': "w' = w\<lparr>gw_run := (gw_run w)\<lparr>ps_policy := c\<rparr>\<rparr>"
    using assms(1) by (auto simp: filter_curated_def filter_available_tools_def g)
  show "ys = filter (\<lambda>d. is_tool_available pol (text_field d ''server'') (text_field d ''name'')) xs"
    unfolding pol_def filter_is_filter [symmetric] using assms(1) by (auto simp: filter_curated_def split: prod.splits)
  show "fst (get_tool_policy (status_cache_ttl s) now (tenant_docs w') (ps_policy (gw_run w')) t) = pol"
    using policy_stable [of "status_cache_ttl s" now "tenant_docs w" "ps_policy (gw_run w)" t]
    unfolding pol_def g snd_conv fst_conv by (simp add: w' tenant_docs_def)
  show "gw_proxy w' = gw_proxy w" "gw_version w' = gw_version w" by (simp_all add: w')
qed

lemma list_page_slice:
  fixes cap :: "int option" and catalog :: "string \<Rightarrow> docs" and tid :: string and scopes :: "string list option"
  assumes "0 < cfg_catalog_list_limit s" and "0 \<le> offset"
  defines "n \<equiv> min (max 1 (int_or cap (cfg_route_top_k s))) (cfg_catalog_list_limit s)"
    and "all \<equiv> listed_tools (catalog (resolve_tenant s (Some tid))) scopes None"
  shows "list_page s catalog tid scopes cap offset =
     (take (nat n) (drop (nat offset) all), if offset + n < int (length all) then Some (int_str (offset + n)) else None)" and "0 < n"
proof -
  show n: "0 < n" using assms(1) by (simp add: n_def)
  have i: "int_or (Some (n + 1)) (cfg_catalog_list_limit s) = n + 1" using n by (simp add: int_or_def)
  have l: "list_tools s catalog (Some tid) scopes (Some (n + 1)) offset None = take (Suc (nat n)) (drop (nat offset) all)"
    using n assms(2) by (simp add: list_tools_def i all_def nat_add_distrib)
  have more: "n < int (length (take (Suc (nat n)) (drop (nat offset) all))) \<longleftrightarrow> offset + n < int (length all)"
    using n assms(2) by auto
  show "list_page s catalog tid scopes cap offset =
     (take (nat n) (drop (nat offset) all), if offset + n < int (length all) then Some (int_str (offset + n)) else None)"
    unfolding list_page_def n_def [symmetric] l Let_def more
  proof (cases "offset + n < int (length all)")
    case True
    then show "(if offset + n < int (length all) then take (nat n) (take (Suc (nat n)) (drop (nat offset) all))
        else take (Suc (nat n)) (drop (nat offset) all),
        if offset + n < int (length all) then Some (int_str (offset + n)) else None) =
      (take (nat n) (drop (nat offset) all), if offset + n < int (length all) then Some (int_str (offset + n)) else None)"
      by (simp add: min.absorb1)
  next
    case False
    then have "length (drop (nat offset) all) \<le> nat n" using n assms(2) by auto
    then show "(if offset + n < int (length all) then take (nat n) (take (Suc (nat n)) (drop (nat offset) all))
        else take (Suc (nat n)) (drop (nat offset) all),
        if offset + n < int (length all) then Some (int_str (offset + n)) else None) =
      (take (nat n) (drop (nat offset) all), if offset + n < int (length all) then Some (int_str (offset + n)) else None)"
      using False by simp
  qed
qed

lemma list_reply:
  assumes "header (cx_http ctx) (lower (cfg_query_header s)) = []"
  shows "handle_tools_list env s now ctx (page_request c) w =
    (let page = list_page s (pw_catalog (gw_proxy w)) (cx_tenant ctx) (caller_scopes ctx None) None (decode_cursor c) in
     case filter_curated s now (cx_tenant ctx) (fst page) w of (items, w1) \<Rightarrow>
       (Inr (Completed (VDict
          [(''tools'', VList (map to_mcp_tool items)), (''routed'', VBool False), (''next_cursor'', opt_str (snd page)),
           (''catalog_version'', VInt (gw_version w)), (''list_changed'', VBool False)])), w1))"
  using assms by (simp add: handle_tools_list_def parse_page Let_def opt_text_def)

lemma decode_int_str: "0 \<le> n \<Longrightarrow> decode_cursor (Some (int_str n)) = n"
  by (simp add: decode_cursor_def opt_text_def)

lemma walk_from:
  assumes "header (cx_http ctx) (lower (cfg_query_header s)) = []" and "0 < cfg_catalog_list_limit s"
    and "0 \<le> offset" and "decode_cursor c = offset"
    and "int (length all) \<le> offset + int k * min (max 1 (int_or None (cfg_route_top_k s))) (cfg_catalog_list_limit s)" and "0 < k"
    and "all = listed_tools (pw_catalog (gw_proxy w) (resolve_tenant s (Some (cx_tenant ctx)))) (caller_scopes ctx None) None"
    and "pol = fst (get_tool_policy (status_cache_ttl s) now (tenant_docs w) (ps_policy (gw_run w)) (cx_tenant ctx))"
  shows "walk k env s now ctx c w = Some (map to_mcp_tool
     (filter (\<lambda>d. is_tool_available pol (text_field d ''server'') (text_field d ''name'')) (drop (nat offset) all)))"
  using assms
proof (induction k arbitrary: c offset w)
  case (Suc k)
  define n where "n = min (max 1 (int_or None (cfg_route_top_k s))) (cfg_catalog_list_limit s)"
  let ?ok = "\<lambda>d. is_tool_available pol (text_field d ''server'') (text_field d ''name'')"
  have pg: "list_page s (pw_catalog (gw_proxy w)) (cx_tenant ctx) (caller_scopes ctx None) None offset =
     (take (nat n) (drop (nat offset) all), if offset + n < int (length all) then Some (int_str (offset + n)) else None)"
    using list_page_slice(1) [OF Suc.prems(2,3), where cap = None and catalog = "pw_catalog (gw_proxy w)"
        and tid = "cx_tenant ctx" and scopes = "caller_scopes ctx None"]
    by (simp add: n_def Suc.prems(7))
  have n: "0 < n" using list_page_slice(2) [OF Suc.prems(2,3), where cap = None] by (simp add: n_def)
  obtain items w1 where f: "filter_curated s now (cx_tenant ctx) (take (nat n) (drop (nat offset) all)) w = (items, w1)" by fastforce
  note cp = curated_pages [OF f]
  have items: "items = filter ?ok (take (nat n) (drop (nat offset) all))" using cp(1) by (simp add: Suc.prems(8))
  note reply = list_reply [OF Suc.prems(1), of env now c w, unfolded Suc.prems(4) pg Let_def fst_conv snd_conv f prod.case]
  show ?case
  proof (cases "offset + n < int (length all)")
    case False
    then have "take (nat n) (drop (nat offset) all) = drop (nat offset) all" using n Suc.prems(3) by simp
    then show ?thesis using False items by (simp add: reply opt_str_def vget_def)
  next
    case True
    have k: "0 < k" using Suc.prems(5) True by (cases k) (simp_all add: n_def [symmetric])
    have le: "int (length all) \<le> (offset + n) + int k * n" using Suc.prems(5) by (simp add: n_def [symmetric] algebra_simps)
    have "walk k env s now ctx (Some (int_str (offset + n))) w1 =
        Some (map to_mcp_tool (filter ?ok (drop (nat (offset + n)) all)))"
    proof (rule Suc.IH [OF Suc.prems(1,2)])
      show "decode_cursor (Some (int_str (offset + n))) = offset + n" using n Suc.prems(3) by (simp add: decode_int_str)
      show "int (length all) \<le> offset + n + int k * min (max 1 (int_or None (cfg_route_top_k s))) (cfg_catalog_list_limit s)"
        using le by (simp add: n_def [symmetric])
      show "all = listed_tools (pw_catalog (gw_proxy w1) (resolve_tenant s (Some (cx_tenant ctx)))) (caller_scopes ctx None) None"
        using cp(3) Suc.prems(7) by simp
      show "pol = fst (get_tool_policy (status_cache_ttl s) now (tenant_docs w1) (ps_policy (gw_run w1)) (cx_tenant ctx))"
        using cp(2) Suc.prems(8) by simp
    qed (use n k Suc.prems(3) in simp_all)
    moreover have "filter ?ok (drop (nat offset) all) = items @ filter ?ok (drop (nat (offset + n)) all)"
    proof -
      have "nat (offset + n) = nat n + nat offset" using n Suc.prems(3) by simp
      then have "drop (nat (offset + n)) all = drop (nat n) (drop (nat offset) all)" by (simp only: drop_drop)
      then show ?thesis unfolding items by (simp only: filter_append [symmetric] append_take_drop_id)
    qed
    ultimately show ?thesis using True by (simp add: reply opt_str_def vget_def)
  qed
qed simp

text \<open>C12. Paging loses and repeats nothing: a client that starts without a cursor and follows
  \<open>next_cursor\<close> to the end receives exactly the catalogued tools its scopes and the tenant's curation
  let it see, each once and in catalog order, and \<open>length / page size + 1\<close> pages are enough.\<close>
theorem paging_lists_the_catalog:
  fixes w :: gateway and now :: real
  assumes "header (cx_http ctx) (lower (cfg_query_header s)) = []" and "0 < cfg_catalog_list_limit s"
  defines "all \<equiv> listed_tools (pw_catalog (gw_proxy w) (resolve_tenant s (Some (cx_tenant ctx)))) (caller_scopes ctx None) None"
    and "pol \<equiv> fst (get_tool_policy (status_cache_ttl s) now (tenant_docs w) (ps_policy (gw_run w)) (cx_tenant ctx))"
    and "per_page \<equiv> min (max 1 (int_or None (cfg_route_top_k s))) (cfg_catalog_list_limit s)"
  shows "walk (length all div nat per_page + 1) env s now ctx None w =
     Some (map to_mcp_tool (filter (\<lambda>d. is_tool_available pol (text_field d ''server'') (text_field d ''name'')) all))"
proof -
  have sz: "0 < per_page" using assms(2) by (simp add: per_page_def)
  have "int (length all) \<le> int (length all div nat per_page + 1) * per_page"
    using sz by (simp add: algebra_simps zdiv_int) (metis add.commute less_le mult_div_mod_eq nle_le pos_mod_bound add_le_cancel_left)
  then show ?thesis
    using walk_from [OF assms(1,2), of 0 None all "length all div nat per_page + 1" w pol now env]
    by (simp add: all_def pol_def per_page_def decode_cursor_def parse_int_def opt_text_def)
qed

end
