(* ===== verification/Mcp.thy ===== *)
theory Mcp
  imports Rpc
begin

text \<open>\<open>gateway/mcp_server.py\<close>: the MCP meta-tools over the same services as the JSON-RPC surface: identity from
  the verified request, discovery, and \<open>call_downstream_tool\<close>, which passes the tenant gates,
  authorization, quota and preflight and then calls the tool.  It knows no confirmations and no cache.
  Audit rows are left out.\<close>

record mcp_identity =
  mi_tenant :: string
  mi_roles :: "string list"
  mi_scopes :: "string list"
  mi_user :: string

datatype mcp_error =
    CrossTenantForbidden
  | McpInactive tenant_error
  | McpForbidden auth_reason
  | McpQuotaExceeded quota_refusal
  | McpPreflight
  | McpDownstream call_exc
  | McpTypeError

text \<open>Outside a request (None) the default tenant is used with no roles and no scopes.\<close>
definition resolve_identity :: "settings \<Rightarrow> request_state option \<Rightarrow> string option \<Rightarrow> mcp_error + mcp_identity" where
  "resolve_identity s state override =
     (let verified = (case state of None \<Rightarrow> cfg_default_tenant_id s
                      | Some st \<Rightarrow> if truthy (rs_tenant st) then py_str (rs_tenant st) else cfg_default_tenant_id s);
          arg = opt_text override
      in if arg \<noteq> [] \<and> arg \<noteq> verified then Inl CrossTenantForbidden
         else Inr \<lparr>mi_tenant = (if arg \<noteq> [] then arg else verified),
                   mi_roles = (case state of None \<Rightarrow> [] | Some st \<Rightarrow> rs_roles st),
                   mi_scopes = (case state of None \<Rightarrow> [] | Some st \<Rightarrow> rs_scopes st),
                   mi_user = (case state of None \<Rightarrow> ''unknown-user''
                              | Some st \<Rightarrow> if truthy (rs_user st) then py_str (rs_user st) else ''unknown-user'')\<rparr>)"

text \<open>The active gate with this surface's error.\<close>
definition mcp_active :: "settings \<Rightarrow> real \<Rightarrow> string \<Rightarrow> gateway \<Rightarrow> mcp_error option \<times> gateway" where
  "mcp_active s now tid w =
     (case assert_tenant_active (status_cache_ttl s) now (tenant_docs w) (fl_status (gw_fleet w)) tid of
        (r, c) \<Rightarrow> (case r of Inl e \<Rightarrow> Some (McpInactive e) | Inr _ \<Rightarrow> None,
                   w\<lparr>gw_fleet := (gw_fleet w)\<lparr>fl_status := c\<rparr>\<rparr>))"

definition mcp_writable :: "settings \<Rightarrow> real \<Rightarrow> string \<Rightarrow> gateway \<Rightarrow> mcp_error option \<times> gateway" where
  "mcp_writable s now tid w =
     (case assert_tenant_writable (status_cache_ttl s) now (tenant_docs w) (gw_read_only w) tid of
        (r, c) \<Rightarrow> (case r of Inl e \<Rightarrow> Some (McpInactive e) | Inr _ \<Rightarrow> None, w\<lparr>gw_read_only := c\<rparr>))"

definition mcp_search_tools ::
  "gateway_env \<Rightarrow> settings \<Rightarrow> real \<Rightarrow> request_state option \<Rightarrow> string \<Rightarrow> int \<Rightarrow> real option \<Rightarrow> real option \<Rightarrow> string list option
   \<Rightarrow> string \<Rightarrow> string option \<Rightarrow> gateway \<Rightarrow> (mcp_error + doc) \<times> gateway" where
  "mcp_search_tools env s now state query cap vw tw scp mode tenant w =
     (case resolve_identity s state tenant of
        Inl e \<Rightarrow> (Inl e, w)
      | Inr i \<Rightarrow>
          (case mcp_active s now (mi_tenant i) w of
             (Some e, w1) \<Rightarrow> (Inl e, w1)
           | (None, w1) \<Rightarrow>
               (case filter_curated s now (mi_tenant i)
                       (search_tools (ge_search env) s (pw_catalog (gw_proxy w1)) (Some (mi_tenant i)) query (Some cap) vw tw
                          scp (Some mode) None) w1 of
                  (items, w2) \<Rightarrow>
                    (Inr [(''query'', VStr query), (''limit'', VInt cap), (''mode'', VStr mode), (''items'', VList (map VDict items))],
                     w2))))"

text \<open>A page of the catalog: the page size and cursor are numbers here.\<close>
definition mcp_page :: "settings \<Rightarrow> (string \<Rightarrow> docs) \<Rightarrow> string \<Rightarrow> string list option \<Rightarrow> int \<Rightarrow> int \<Rightarrow> docs \<times> int option" where
  "mcp_page s catalog tid scp cap cursor =
     (let n = min (max 1 cap) (cfg_catalog_list_limit s); offset = max 0 cursor;
          items = list_tools s catalog (Some tid) scp (Some (n + 1)) offset None;
          has_more = int (length items) > n
      in (if has_more then take (nat n) items else items, if has_more then Some (offset + n) else None))"

definition mcp_list_catalog_tools ::
  "gateway_env \<Rightarrow> settings \<Rightarrow> real \<Rightarrow> request_state option \<Rightarrow> int \<Rightarrow> int \<Rightarrow> string option \<Rightarrow> string list option \<Rightarrow> string option
   \<Rightarrow> gateway \<Rightarrow> (mcp_error + doc) \<times> gateway" where
  "mcp_list_catalog_tools env s now state cap cursor query scp tenant w =
     (case resolve_identity s state tenant of
        Inl e \<Rightarrow> (Inl e, w)
      | Inr i \<Rightarrow>
          (case mcp_active s now (mi_tenant i) w of
             (Some e, w1) \<Rightarrow> (Inl e, w1)
           | (None, w1) \<Rightarrow>
               (let catalog = pw_catalog (gw_proxy w1); q = opt_text query;
                    page = (if q \<noteq> []
                            then (search_tools (ge_search env) s catalog (Some (mi_tenant i)) q (Some cap) None None scp
                                    (Some ''hybrid'') None, None)
                            else mcp_page s catalog (mi_tenant i) scp cap cursor)
                in case filter_curated s now (mi_tenant i) (fst page) w1 of
                     (items, w2) \<Rightarrow>
                       (Inr [(''tools'', VList (map VDict items)),
                             (''next_cursor'', case snd page of None \<Rightarrow> VNone | Some n \<Rightarrow> VInt n),
                             (''catalog_version'', VInt (gw_version w2)), (''routed'', VBool (q \<noteq> []))], w2))))"

definition mcp_execute ::
  "gateway_env \<Rightarrow> settings \<Rightarrow> real \<Rightarrow> mcp_identity \<Rightarrow> string \<Rightarrow> string \<Rightarrow> doc \<Rightarrow> gateway \<Rightarrow> (mcp_error + doc) \<times> gateway" where
  "mcp_execute env s now i server name args w =
     (case call_tool s (ge_proxy env) (proxy_view w) now server name args (Some (mi_tenant i))
             (Some \<lparr>ca_user = mi_user i, ca_scopes = mi_scopes i, ca_roles = mi_roles i\<rparr>) (gw_run w) of
        (Inl e, st) \<Rightarrow> (Inl (McpDownstream e), w\<lparr>gw_run := st\<rparr>)
      | (Inr d, st) \<Rightarrow>
          (Inr [(''server'', VStr server), (''name'', VStr name), (''result'', VDict d)],
           w\<lparr>gw_run := st\<lparr>ps_meter := record_billable_call (pe_month (ge_proxy env)) s now (mi_tenant i) server name
                ''live_execution'' (ps_meter st)\<rparr>\<rparr>))"

text \<open>Quota and preflight, then the call.\<close>
definition mcp_gated ::
  "gateway_env \<Rightarrow> settings \<Rightarrow> real \<Rightarrow> mcp_identity \<Rightarrow> string \<Rightarrow> string \<Rightarrow> doc \<Rightarrow> doc option \<Rightarrow> gateway \<Rightarrow> (mcp_error + doc) \<times> gateway" where
  "mcp_gated env s now i server name args tool w =
     (case check_quota s (mi_tenant i) (current_period (pe_month (ge_proxy env)) s now) (ps_meter (gw_run w)) of
        (Some q, _, _) \<Rightarrow> (Inl (McpQuotaExceeded q), w)
      | (None, usage, q) \<Rightarrow>
          (case tool_metadata tool of
             None \<Rightarrow> (Inl McpTypeError, w)
           | Some m \<Rightarrow>
               (case sandbox_gate s m usage q of
                  None \<Rightarrow> (Inl McpTypeError, w)
                | Some (Some _) \<Rightarrow> (Inl McpPreflight, w)
                | Some None \<Rightarrow> mcp_execute env s now i server name args w)))"

definition call_downstream_tool ::
  "gateway_env \<Rightarrow> settings \<Rightarrow> real \<Rightarrow> request_state option \<Rightarrow> string \<Rightarrow> string \<Rightarrow> doc \<Rightarrow> string option \<Rightarrow> gateway
   \<Rightarrow> (mcp_error + doc) \<times> gateway" where
  "call_downstream_tool env s now state server name args tenant w =
     (case resolve_identity s state tenant of
        Inl e \<Rightarrow> (Inl e, w)
      | Inr i \<Rightarrow>
          (case mcp_active s now (mi_tenant i) w of
             (Some e, w1) \<Rightarrow> (Inl e, w1)
           | (None, w1) \<Rightarrow>
               (case mcp_writable s now (mi_tenant i) w1 of
                  (Some e, w2) \<Rightarrow> (Inl e, w2)
                | (None, w2) \<Rightarrow>
                    (case authorize_call s now (mi_tenant i) (mi_scopes i) (mi_roles i) server name w2 of
                       (authz, w3) \<Rightarrow>
                         if \<not> auth_allowed authz then (Inl (McpForbidden (auth_reason_code authz)), w3)
                         else mcp_gated env s now i server name args (auth_tool authz) w3))))"

section \<open>What a call does\<close>

lemma identity_tenant:
  assumes "resolve_identity s (Some st) tenant = Inr i" and "truthy (rs_tenant st)"
  shows "mi_tenant i = py_str (rs_tenant st) \<and> mi_scopes i = rs_scopes st \<and> mi_roles i = rs_roles st"
  using assms by (auto simp: resolve_identity_def Let_def split: if_splits)

lemma mcp_gates_leave:
  "run_untouched w (snd (mcp_active s now tid w))" "run_untouched w (snd (mcp_writable s now tid w))"
  "fst (mcp_active s now tid w) = None \<longleftrightarrow> fst (get_tenant_status (status_cache_ttl s) now (tenant_docs w) (fl_status (gw_fleet w)) tid) = STATUS_ACTIVE"
  "fst (mcp_writable s now tid w) = None \<longleftrightarrow> \<not> fst (get_tenant_read_only (status_cache_ttl s) now (tenant_docs w) (gw_read_only w) tid)"
  "tenant_docs (snd (mcp_active s now tid w)) = tenant_docs w" "gw_read_only (snd (mcp_active s now tid w)) = gw_read_only w"
  "tenant_docs (snd (mcp_writable s now tid w)) = tenant_docs w"
  unfolding assert_active_iff [symmetric] assert_writable_iff [symmetric]
  by (auto simp: run_untouched_def mcp_active_def mcp_writable_def tenant_docs_def split: prod.split sum.split)

lemma execute_outcome:
  assumes "servers_keyed (gw_proxy w)" and "mi_tenant i \<noteq> []" and "mcp_execute env s now i server name args w = (r, w')"
  shows "gw_pending w' = gw_pending w \<and> billed w' = billed w + (case r of Inr _ \<Rightarrow> 1 | Inl _ \<Rightarrow> 0)
     \<and> in_tenant (mi_tenant i) (gw_run w) (gw_run w')"
proof -
  let ?ca = "Some \<lparr>ca_user = mi_user i, ca_scopes = mi_scopes i, ca_roles = mi_roles i\<rparr>"
  have k: "servers_keyed (proxy_view w)" using assms(1) by simp
  obtain x st where c: "call_tool s (ge_proxy env) (proxy_view w) now server name args (Some (mi_tenant i)) ?ca (gw_run w) = (x, st)"
    by fastforce
  have "same_bill (gw_run w) st" "in_tenant (mi_tenant i) (gw_run w) st"
    using billing.call_related [OF k assms(2), of "gw_run w" s "ge_proxy env" now server name args ?ca]
      own.call_related [OF k assms(2), of "gw_run w" s "ge_proxy env" now server name args ?ca] c by simp_all
  then show ?thesis using assms(3)
    by (cases x) (auto simp: mcp_execute_def c billed_def same_bill_def in_tenant_def adds_def)
qed

lemma mcp_gated_outcome:
  assumes "servers_keyed (gw_proxy w)" and "mi_tenant i \<noteq> []" and "mcp_gated env s now i server name args tool w = (r, w')"
  shows "gw_pending w' = gw_pending w \<and> billed w' = billed w + (case r of Inr _ \<Rightarrow> 1 | Inl _ \<Rightarrow> 0)
     \<and> in_tenant (mi_tenant i) (gw_run w) (gw_run w')
     \<and> (ps_log (gw_run w') \<noteq> ps_log (gw_run w) \<longrightarrow>
          fst (check_quota s (mi_tenant i) (current_period (pe_month (ge_proxy env)) s now) (ps_meter (gw_run w))) = None)"
proof -
  obtain qr usage q where qr: "check_quota s (mi_tenant i) (current_period (pe_month (ge_proxy env)) s now) (ps_meter (gw_run w)) = (qr, usage, q)"
    by (metis prod_cases3)
  have "mcp_execute env s now i server name args w = (r, w') \<and> qr = None \<or> (\<exists>e. r = Inl e) \<and> w' = w"
    using assms(3) by (auto simp: mcp_gated_def qr split: option.splits)
  then show ?thesis using execute_outcome [OF assms(1,2), of env s now server name args r w'] qr
    by (auto simp: in_tenant_log)
qed

text \<open>C11. The MCP surface keeps a caller in its tenant: whatever \<open>tenant_id\<close> argument it passes, everything
  \<open>call_downstream_tool\<close> carries out happens in the verified tenant, only after that tenant was
  active, writable and within quota and the caller authorized, and exactly the calls that return a
  result are billed.\<close>
theorem mcp_call_is_confined:
  assumes "servers_keyed (gw_proxy w)" and "rs_tenant st = VStr tid" and "tid \<noteq> []"
    and "call_downstream_tool env s now (Some st) server name args tenant w = (r, w')"
  shows "in_tenant tid (gw_run w) (gw_run w') \<and> billed w' = billed w + (case r of Inr _ \<Rightarrow> 1 | Inl _ \<Rightarrow> 0)
     \<and> (executed w w' \<longrightarrow>
          fst (get_tenant_status (status_cache_ttl s) now (tenant_docs w) (fl_status (gw_fleet w)) tid) = STATUS_ACTIVE
        \<and> \<not> fst (get_tenant_read_only (status_cache_ttl s) now (tenant_docs w) (gw_read_only w) tid)
        \<and> auth_allowed (fst (authorize_tool_call s now (pw_catalog (gw_proxy w)) (tenant_docs w) (ps_policy (gw_run w)) (Some tid)
              server name (map VStr (rs_scopes st)) (rs_roles st)))
        \<and> fst (check_quota s tid (current_period (pe_month (ge_proxy env)) s now) (ps_meter (gw_run w))) = None)"
proof (cases "resolve_identity s (Some st) tenant")
  case (Inl e)
  then show ?thesis using assms(4) by (auto simp: call_downstream_tool_def executed_def in_tenant_log)
next
  case (Inr i)
  have i: "mi_tenant i = tid" "mi_scopes i = rs_scopes st" "mi_roles i = rs_roles st"
    using identity_tenant [OF Inr] assms(2,3) by simp_all
  obtain a w1 where 1: "mcp_active s now tid w = (a, w1)" by fastforce
  obtain b w2 where 2: "mcp_writable s now tid w1 = (b, w2)" by fastforce
  obtain authz w3 where 3: "authorize_call s now tid (rs_scopes st) (rs_roles st) server name w2 = (authz, w3)" by fastforce
  note g1 = mcp_gates_leave [where w = w and s = s and now = now and tid = tid, unfolded 1 fst_conv snd_conv]
  note g2 = mcp_gates_leave [where w = w1 and s = s and now = now and tid = tid, unfolded 2 fst_conv snd_conv]
  have u: "run_untouched w w2" by (rule untouched_trans [OF g1(1) g2(2)])
  have u3: "gw_proxy w3 = gw_proxy w" "ps_log (gw_run w3) = ps_log (gw_run w)" "ps_meter (gw_run w3) = ps_meter (gw_run w)"
    using authorize_call_leaves [of s now tid "rs_scopes st" "rs_roles st" server name w2] u by (simp_all add: 3 run_untouched_def)
  have az: "fst (authorize_tool_call s now (pw_catalog (gw_proxy w)) (tenant_docs w) (ps_policy (gw_run w)) (Some tid)
      server name (map VStr (rs_scopes st)) (rs_roles st)) = authz"
    using 3 u g1(5) g2(7) by (auto simp: authorize_call_def run_untouched_def split: prod.splits)
  show ?thesis
  proof (cases "a = None \<and> b = None \<and> auth_allowed authz")
    case True
    then have m: "mcp_gated env s now i server name args (auth_tool authz) w3 = (r, w')"
      using assms(4) Inr i 1 2 3 by (simp add: call_downstream_tool_def)
    have "servers_keyed (gw_proxy w3)" "mi_tenant i \<noteq> []" using assms(1,3) u3 i by simp_all
    from mcp_gated_outcome [OF this m] show ?thesis
      using True u3 i az g1(3,5,6) g2(4) in_tenant_trans [OF in_tenant_log [OF u3(2)]] by (auto simp: billed_def executed_def)
  next
    case False
    then have "(\<exists>e. r = Inl e) \<and> (w' = w1 \<or> w' = w2 \<or> w' = w3)"
      using assms(4) Inr i 1 2 3 by (auto simp: call_downstream_tool_def split: option.splits if_splits)
    then show ?thesis using g1(1) u u3 by (auto simp: run_untouched_def executed_def billed_def in_tenant_log)
  qed
qed

text \<open>On this surface a tool that requires a confirmation runs without one: a caller whose tenant is
  active, writable and within quota and who is authorized gets the tool's result from a single
  \<open>call_downstream_tool\<close>, and no pending action is created, asked for or consumed.  (The same call
  over JSON-RPC waits for an approval.)\<close>
theorem mcp_runs_unconfirmed:
  assumes "rs_tenant st = VStr tid" and "tid \<noteq> []"
    and "fst (get_tenant_status (status_cache_ttl s) now (tenant_docs w) (fl_status (gw_fleet w)) tid) = STATUS_ACTIVE"
    and "\<not> fst (get_tenant_read_only (status_cache_ttl s) now (tenant_docs w) (gw_read_only w) tid)"
    and "fst (authorize_tool_call s now (pw_catalog (gw_proxy w)) (tenant_docs w) (ps_policy (gw_run w)) (Some tid)
              server name (map VStr (rs_scopes st)) (rs_roles st)) = authz" and "auth_allowed authz"
    and "fst (check_quota s tid (current_period (pe_month (ge_proxy env)) s now) (ps_meter (gw_run w))) = None"
    and "tool_metadata (auth_tool authz) = Some m" and "truthy (vget m ''requires_confirmation'')" and "\<not> is_code_metadata m"
    and "get_server s (gw_proxy w) server (Some tid) = Some sv" and "sv_transport sv \<noteq> ''code''"
    and "\<forall>n. pe_attempt (ge_proxy env) n sv name args = AttemptOk d"
  shows "\<exists>w'. call_downstream_tool env s now (Some st) server name args None w
         = (Inr [(''server'', VStr server), (''name'', VStr name), (''result'', VDict d)], w')
     \<and> ps_log (gw_run w') = ps_log (gw_run w) @ [Attempted (sv_tenant sv) (sv_server sv) name args]
     \<and> gw_pending w' = gw_pending w"
proof -
  obtain i where i: "resolve_identity s (Some st) None = Inr i" "mi_tenant i = tid" "mi_scopes i = rs_scopes st" "mi_roles i = rs_roles st"
    using assms(1,2) by (simp add: resolve_identity_def opt_text_def)
  obtain a w1 where 1: "mcp_active s now tid w = (a, w1)" by fastforce
  obtain b w2 where 2: "mcp_writable s now tid w1 = (b, w2)" by fastforce
  obtain az w3 where 3: "authorize_call s now tid (rs_scopes st) (rs_roles st) server name w2 = (az, w3)" by fastforce
  note g1 = mcp_gates_leave [where w = w and s = s and now = now and tid = tid, unfolded 1 fst_conv snd_conv]
  note g2 = mcp_gates_leave [where w = w1 and s = s and now = now and tid = tid, unfolded 2 fst_conv snd_conv]
  have u: "run_untouched w w2" by (rule untouched_trans [OF g1(1) g2(2)])
  have u3: "gw_proxy w3 = gw_proxy w" "ps_log (gw_run w3) = ps_log (gw_run w)" "ps_meter (gw_run w3) = ps_meter (gw_run w)"
    "gw_pending w3 = gw_pending w"
    using authorize_call_leaves [of s now tid "rs_scopes st" "rs_roles st" server name w2] u by (simp_all add: 3 run_untouched_def)
  have az: "az = authz" using 3 u g1(5) g2(7) assms(5) by (auto simp: authorize_call_def run_untouched_def split: prod.splits)
  have ok: "a = None" "b = None" using g1(3,5,6) g2(4) assms(3,4) by simp_all
  obtain usage q where q: "check_quota s tid (current_period (pe_month (ge_proxy env)) s now) (ps_meter (gw_run w)) = (None, usage, q)"
    using assms(7) by (metis prod_cases3 fst_conv)
  have sg: "sandbox_gate s m usage q = Some None" using assms(10) by (simp add: sandbox_gate_def)
  have gs: "get_server s (proxy_view w3) server (Some tid) = Some sv" using assms(11) u3 by (simp add: get_server_def proxy_view_def)
  have call: "call_tool s (ge_proxy env) (proxy_view w3) now server name args (Some tid) ca (gw_run w3)
      = (Inr d, (gw_run w3)\<lparr>ps_log := ps_log (gw_run w3) @ [Attempted (sv_tenant sv) (sv_server sv) name args]\<rparr>)" for ca
    unfolding call_tool_transport [OF assms(2) gs assms(12)] using assms(13)
    by (simp add: call_attempts_def numeral_3_eq_3 Let_def)
  show ?thesis
    using i 1 2 3 ok az assms(6,8) u3 by (simp add: call_downstream_tool_def mcp_gated_def q sg mcp_execute_def call)
qed

end
