(* ===== verification/RpcDemo.thy ===== *)
theory RpcDemo
  imports Mcp
begin

text \<open>A gateway with one tenant and two tools of a transport server, one of which requires a confirmation, on
  which the properties of the data plane are applied.\<close>

definition demo_gateway :: gateway where
  "demo_gateway =
     \<lparr>gw_fleet = \<lparr>fl_tenants = [[(''tenant_id'', VStr ''acme''), (''status'', VStr ''active'')]], fl_databases = [],
                 fl_status = Map.empty, fl_ready = [''acme'']\<rparr>,
      gw_read_only = Map.empty,
      gw_proxy = \<lparr>pw_servers = [((''acme'', ''crm''), demo_server ''crm'' ''sse'')],
                  pw_catalog = (\<lambda>_. [[(''server'', VStr ''crm''), (''name'', VStr ''find''), (''scopes'', VList [])],
                    [(''server'', VStr ''crm''), (''name'', VStr ''pay''), (''scopes'', VList []),
                     (''metadata'', VDict [(''requires_confirmation'', VBool True)])]]),
                  pw_routing = (\<lambda>_. []), pw_secrets = (\<lambda>_. []), pw_tenants = []\<rparr>,
      gw_run = demo_proxy_state, gw_cache = empty_cache, gw_pending = [], gw_version = 1\<rparr>"

definition demo_gateway_env :: gateway_env where
  "demo_gateway_env =
     \<lparr>ge_proxy = demo_proxy_env\<lparr>pe_attempt := \<lambda>_ _ _ _. AttemptOk [(''ok'', VBool True)]\<rparr>, ge_cache = demo_cache_env,
      ge_search = demo_search_env, ge_sha = (\<lambda>x. x), ge_fingerprint = (\<lambda>_. ''fp''), ge_fresh = (\<lambda>_. ''a1''),
      ge_lax_int = (\<lambda>v. py_int v), ge_lax_float = num_of\<rparr>"

definition demo_state :: request_state where
  "demo_state = \<lparr>rs_tenant = VStr ''acme'', rs_user = VStr ''alice'', rs_roles = [''tool:invoke''], rs_scopes = [''server:crm''],
     rs_admin = False, rs_read_only = False, rs_via_cookie = False, rs_via_basic = False\<rparr>"

definition demo_context :: rpc_context where
  "demo_context = \<lparr>cx_http = \<lparr>rq_path = ''/rpc'', rq_method = ''POST'', rq_headers = [], rq_cookies = [], rq_base_url = []\<rparr>,
     cx_state = demo_state, cx_tenant = ''acme'', cx_user = ''alice''\<rparr>"

definition demo_tools_call :: "string \<Rightarrow> rpc_request" where
  "demo_tools_call tool = \<lparr>rpc_id = VInt 1, rpc_method = ''tools/call'',
     rpc_params = [(''server'', VStr ''crm''), (''name'', VStr tool)]\<rparr>"

lemma demo_keyed: "servers_keyed (gw_proxy demo_gateway)"
  by (auto simp: servers_keyed_def demo_gateway_def demo_server_def split: if_splits)

lemmas demo_plane = demo_gateway_def demo_gateway_env_def demo_state_def demo_context_def demo_tools_call_def demo_proxy_state_def

text \<open>The gateway after the tenant gates, with the caches they filled.\<close>
definition demo_ready :: gateway where
  "demo_ready = demo_gateway\<lparr>gw_fleet := (gw_fleet demo_gateway)\<lparr>fl_status := cache_store Map.empty ''acme'' ''active'' (status_cache_ttl default_settings) 0\<rparr>,
      gw_read_only := cache_store Map.empty ''acme'' False (status_cache_ttl default_settings) 0\<rparr>"

lemma demo_tenant: "find_tenant [[(''tenant_id'', VStr ''acme''), (''status'', VStr ''active'')]] ''acme'' =
    Some [(''tenant_id'', VStr ''acme''), (''status'', VStr ''active'')]"
  by (simp add: find_tenant_def vget_def)

lemma demo_status: "status_of_doc [(''tenant_id'', VStr ''acme''), (''status'', VStr ''active'')] = ''active''"
  "read_only_of_doc [(''tenant_id'', VStr ''acme''), (''status'', VStr ''active'')] = False"
  by code_simp+

lemma demo_gates: "tenant_gates demo_gateway_env default_settings 0 ''acme'' ''tools/call'' demo_gateway = (Inr (), demo_ready)"
  by (simp add: tenant_gates_def and_then_def ready_gate_def ensure_tenant_ready_def active_gate_def writable_gate_def
      assert_tenant_active_def assert_tenant_writable_def get_tenant_status_def get_tenant_read_only_def cache_hit_def
      tenant_docs_def demo_gateway_def demo_tenant demo_status doc_or_empty_def STATUS_ACTIVE_def demo_ready_def Let_def)

definition demo_params :: "string \<Rightarrow> call_params" where
  "demo_params tool = \<lparr>cp_server = ''crm'', cp_name = tool, cp_arguments = [], cp_confirmation = None\<rparr>"

lemma demo_parse: "parse_call (rpc_params (demo_tools_call tool)) = Some (demo_params tool)"
  by (simp add: demo_tools_call_def parse_call_def need_str_def maybe_str_def demo_params_def)

lemma demo_policy: "get_tool_policy (status_cache_ttl default_settings) 0
    [[(''tenant_id'', VStr ''acme''), (''status'', VStr ''active'')]] Map.empty ''acme'' =
   (\<lparr>allowlist = [], max_tools = 0, disabled_tools = []\<rparr>,
    cache_store Map.empty ''acme'' \<lparr>allowlist = [], max_tools = 0, disabled_tools = []\<rparr> (status_cache_ttl default_settings) 0)"
proof -
  have "normalize_policy [(''tenant_id'', VStr ''acme''), (''status'', VStr ''active'')] =
      \<lparr>allowlist = [], max_tools = 0, disabled_tools = []\<rparr>" by code_simp
  then show ?thesis by (simp add: get_tool_policy_def cache_hit_def demo_tenant doc_or_empty_def Let_def)
qed

definition demo_tool :: "string \<Rightarrow> doc" where
  "demo_tool name = (if name = ''find'' then [(''server'', VStr ''crm''), (''name'', VStr ''find''), (''scopes'', VList [])]
     else [(''server'', VStr ''crm''), (''name'', VStr ''pay''), (''scopes'', VList []),
           (''metadata'', VDict [(''requires_confirmation'', VBool True)])])"

lemma demo_found: "n \<in> {''find'', ''pay''} \<Longrightarrow>
   get_tool default_settings (pw_catalog (gw_proxy demo_gateway)) (Some ''acme'') ''crm'' n = Some (demo_tool n)"
  by (auto simp: get_tool_def tool_query_def resolve_plain demo_gateway_def vget_def demo_tool_def)

lemma demo_verdict:
  assumes "n \<in> {''find'', ''pay''}"
  shows "authorize_tool_call default_settings 0 (pw_catalog (gw_proxy demo_gateway))
    [[(''tenant_id'', VStr ''acme''), (''status'', VStr ''active'')]] Map.empty (Some ''acme'') ''crm'' n
    (map VStr (rs_scopes demo_state)) (rs_roles demo_state) = (verdict True NoScopeRequired (Some (demo_tool n)),
      cache_store Map.empty ''acme'' \<lparr>allowlist = [], max_tools = 0, disabled_tools = []\<rparr> (status_cache_ttl default_settings) 0)"
proof -
  have r: "required_scopes (demo_tool n) = []"
    by (simp add: required_scopes_def demo_tool_def vget_or_def scope_texts_def map_filter_simps)
  have t: "resolve_tenant default_settings (Some ''acme'') = ''acme''" by (simp add: resolve_tenant_def)
  show ?thesis
    by (simp add: authorize_tool_call_def demo_found [OF assms] t demo_policy r Let_def matches_allowlist_def demo_state_def
        scope_texts_def map_filter_simps INVOKE_ROLE_def)
qed

text \<open>The gateway when the call is authorized.\<close>
definition demo_checked :: gateway where
  "demo_checked = demo_ready\<lparr>gw_run := (gw_run demo_gateway)\<lparr>ps_policy :=
     cache_store Map.empty ''acme'' \<lparr>allowlist = [], max_tools = 0, disabled_tools = []\<rparr> (status_cache_ttl default_settings) 0\<rparr>\<rparr>"

lemma demo_authorize: "n \<in> {''find'', ''pay''} \<Longrightarrow>
   authorize_call default_settings 0 ''acme'' (rs_scopes demo_state) (rs_roles demo_state) ''crm'' n demo_ready =
   (verdict True NoScopeRequired (Some (demo_tool n)), demo_checked)"
  using demo_verdict [of n]
  by (simp add: authorize_call_def demo_ready_def tenant_docs_def demo_checked_def demo_gateway_def demo_proxy_state_def)

lemma demo_quota: "check_quota default_settings ''acme'' p (ps_meter (gw_run demo_gateway)) =
    (None, \<lparr>snap_calls = 0, snap_sandbox_ms = 0\<rparr>, \<lparr>calls_limit = 0, sandbox_seconds_limit = 0\<rparr>)"
proof -
  have "get_effective_quota default_settings ''acme'' (ps_meter (gw_run demo_gateway)) = \<lparr>calls_limit = 0, sandbox_seconds_limit = 0\<rparr>"
    by (simp add: demo_gateway_def demo_proxy_state_def get_effective_quota_def quota_snapshot_def non_negative_int_def
        doc_or_empty_def vget_def default_settings_def)
  moreover have "get_usage ''acme'' p (ps_meter (gw_run demo_gateway)) = \<lparr>snap_calls = 0, snap_sandbox_ms = 0\<rparr>"
    by (simp add: demo_gateway_def demo_proxy_state_def get_usage_def snapshot_of_def non_negative_int_def doc_or_empty_def vget_def)
  ultimately show ?thesis by (simp add: check_quota_def)
qed

lemma demo_meter: "ps_meter (gw_run demo_checked) = ps_meter (gw_run demo_gateway)" "ps_log (gw_run demo_checked) = []"
  "gw_proxy demo_checked = gw_proxy demo_gateway" "gw_pending demo_checked = []"
  "ps_log (gw_run demo_gateway) = []" "gw_pending demo_gateway = []"
  by (simp_all add: demo_checked_def demo_ready_def demo_gateway_def demo_proxy_state_def)

lemma demo_called: "call_tool default_settings (ge_proxy demo_gateway_env) (proxy_view demo_checked) 0 ''crm'' n [] (Some ''acme'') ca (gw_run demo_checked)
   = (Inr [(''ok'', VBool True)], (gw_run demo_checked)\<lparr>ps_log := [Attempted ''acme'' ''crm'' n []]\<rparr>)"
proof -
  have g: "get_server default_settings (proxy_view demo_checked) ''crm'' (Some ''acme'') = Some (demo_server ''crm'' ''sse'')"
    by (simp add: get_server_def proxy_view_def demo_meter demo_gateway_def resolve_tenant_def)
  have t: "sv_transport (demo_server ''crm'' ''sse'') \<noteq> ''code''" "''acme'' \<noteq> []" by (simp_all add: demo_server_def)
  show ?thesis
    unfolding call_tool_transport [OF t(2) g t(1)]
    by (simp add: call_attempts_def numeral_3_eq_3 Let_def demo_gateway_env_def demo_meter demo_server_def)
qed

text \<open>The call of \<open>find\<close> is answered live; the call of \<open>pay\<close> waits.\<close>
lemma demo_find: "\<exists>w'. dispatch demo_gateway_env default_settings 0 demo_context (demo_tools_call ''find'') demo_gateway
     = (\<lparr>rp_id = VInt 1, rp_answer = Completed (VDict [(''ok'', VBool True)])\<rparr>, w') \<and> executed demo_gateway w'"
proof -
  have m: "tool_metadata (Some (demo_tool ''find'')) = Some []" by (simp add: tool_metadata_def demo_tool_def doc_or_empty_def)
  have c: "cache_ttl [] = Some 86400" "invalidates [] = Some []"
    by (simp_all add: cache_ttl_def vget_or_def py_or_def invalidates_def scope_texts_def map_filter_simps)
  have cx: "cx_tenant demo_context = ''acme''" "cx_state demo_context = demo_state" by (simp_all add: demo_context_def)
  have p: "cp_server (demo_params n) = ''crm''" "cp_name (demo_params n) = n" "cp_arguments (demo_params n) = []" for n
    by (simp_all add: demo_params_def)
  have r: "run_step demo_gateway_env default_settings 0 demo_context (demo_params ''find'') [] demo_checked =
     (Inr (Completed (VDict [(''ok'', VBool True)])),
      bill demo_gateway_env default_settings 0 demo_context (demo_params ''find'') ''live_execution''
        (demo_checked\<lparr>gw_run := (gw_run demo_checked)\<lparr>ps_log := [Attempted ''acme'' ''crm'' ''find'' []]\<rparr>, gw_cache := gw_cache demo_checked\<rparr>))"
    by (simp add: run_step_def c try_cache_lookup_def vget_or_def execute_downstream_def cx p demo_called settle_result_def Let_def)
  have h: "handle_tools_call demo_gateway_env default_settings 0 demo_context (rpc_params (demo_tools_call ''find'')) demo_ready =
     run_step demo_gateway_env default_settings 0 demo_context (demo_params ''find'') [] demo_checked"
    by (simp add: handle_tools_call_def demo_parse cx p demo_authorize gated_call_def demo_meter demo_quota m is_code_metadata_def vget_def
        sandbox_gate_def confirmation_step_def)
  show ?thesis
    by (simp add: dispatch_def HANDLED_METHODS_def TENANT_SCOPED_METHODS_def demo_tools_call_def cx demo_gates and_then_def call_handler_def
        h [unfolded demo_tools_call_def, simplified] r executed_def demo_meter)
qed

section \<open>The properties applied\<close>

lemma demo_names: "cx_tenant demo_context \<noteq> []" "rs_tenant demo_state = VStr ''acme''" "''acme'' \<noteq> []"
  by (simp_all add: demo_context_def demo_state_def)

lemma rpc_bills_exactly_the_results_witness:
  "\<exists>reply w'. dispatch demo_gateway_env default_settings 0 demo_context (demo_tools_call ''find'') demo_gateway = (reply, w')
     \<and> billed w' = Suc (billed demo_gateway)"
proof -
  obtain w' where d: "dispatch demo_gateway_env default_settings 0 demo_context (demo_tools_call ''find'') demo_gateway
     = (\<lparr>rp_id = VInt 1, rp_answer = Completed (VDict [(''ok'', VBool True)])\<rparr>, w')" using demo_find by blast
  show ?thesis using d rpc_bills_exactly_the_results [OF demo_keyed demo_names(1) d] by (simp add: demo_tools_call_def)
qed


lemma demo_pay: "tool_metadata (Some (demo_tool ''pay'')) = Some [(''requires_confirmation'', VBool True)]"
  by (simp add: tool_metadata_def demo_tool_def doc_or_empty_def)

lemma unconfirmed_call_waits_witness:
  "\<not> executed demo_gateway (snd (dispatch demo_gateway_env default_settings 0 demo_context (demo_tools_call ''pay'') demo_gateway))"
proof -
  obtain reply w' where d: "dispatch demo_gateway_env default_settings 0 demo_context (demo_tools_call ''pay'') demo_gateway = (reply, w')"
    by fastforce
  have m: "rpc_method (demo_tools_call ''pay'') = ''tools/call''" by (simp add: demo_tools_call_def)
  have g: "get_tool default_settings (pw_catalog (gw_proxy demo_gateway)) (Some (cx_tenant demo_context)) (cp_server (demo_params ''pay''))
      (cp_name (demo_params ''pay'')) = Some (demo_tool ''pay'')"
    using demo_found [of "''pay''"] by (simp add: demo_context_def demo_params_def)
  show ?thesis
    using unconfirmed_call_waits [OF d m demo_parse g demo_pay] d by (simp add: demo_params_def opt_text_def vget_def)
qed

lemma paging_lists_the_catalog_witness:
  "\<exists>xs. walk 1 demo_gateway_env default_settings 0 demo_context None demo_gateway = Some xs"
proof -
  have h: "header (cx_http demo_context) (lower (cfg_query_header default_settings)) = []" "0 < cfg_catalog_list_limit default_settings"
    by (simp_all add: header_def demo_context_def opt_text_def default_settings_def)
  have z: "length (listed_tools (pw_catalog (gw_proxy demo_gateway) (resolve_tenant default_settings (Some (cx_tenant demo_context))))
      (caller_scopes demo_context None) None) \<le> 2"
    by (simp add: listed_tools_def find_docs_def demo_gateway_def)
  have p: "2 < nat (min (max 1 (int_or None (cfg_route_top_k default_settings))) (cfg_catalog_list_limit default_settings))"
    by (simp add: int_or_def default_settings_def)
  show ?thesis
    using paging_lists_the_catalog [OF h, where env = demo_gateway_env and now = 0 and w = demo_gateway] z p by (simp add: div_less)
qed

lemma mcp_call_is_confined_witness:
  "\<exists>r w'. call_downstream_tool demo_gateway_env default_settings 0 (Some demo_state) ''crm'' ''find'' [] (Some ''other'') demo_gateway = (r, w')
     \<and> in_tenant ''acme'' (gw_run demo_gateway) (gw_run w')"
proof -
  obtain r w' where d: "call_downstream_tool demo_gateway_env default_settings 0 (Some demo_state) ''crm'' ''find'' [] (Some ''other'') demo_gateway
     = (r, w')" by fastforce
  show ?thesis using d mcp_call_is_confined [OF demo_keyed demo_names(2,3) d] by blast
qed

lemma mcp_runs_unconfirmed_witness:
  "\<exists>w'. call_downstream_tool demo_gateway_env default_settings 0 (Some demo_state) ''crm'' ''pay'' [] None demo_gateway
       = (Inr [(''server'', VStr ''crm''), (''name'', VStr ''pay''), (''result'', VDict [(''ok'', VBool True)])], w')
     \<and> gw_pending w' = []"
proof -
  have t: "tenant_docs demo_gateway = [[(''tenant_id'', VStr ''acme''), (''status'', VStr ''active'')]]"
    "fl_status (gw_fleet demo_gateway) = Map.empty" "gw_read_only demo_gateway = Map.empty" "ps_policy (gw_run demo_gateway) = Map.empty"
    by (simp_all add: tenant_docs_def demo_gateway_def demo_proxy_state_def)
  have 1: "fst (get_tenant_status (status_cache_ttl default_settings) 0 (tenant_docs demo_gateway) (fl_status (gw_fleet demo_gateway)) ''acme'') = STATUS_ACTIVE"
    by (simp add: t get_tenant_status_def cache_hit_def demo_tenant demo_status doc_or_empty_def STATUS_ACTIVE_def Let_def)
  have 2: "\<not> fst (get_tenant_read_only (status_cache_ttl default_settings) 0 (tenant_docs demo_gateway) (gw_read_only demo_gateway) ''acme'')"
    by (simp add: t get_tenant_read_only_def cache_hit_def demo_tenant demo_status doc_or_empty_def Let_def)
  have 3: "fst (authorize_tool_call default_settings 0 (pw_catalog (gw_proxy demo_gateway)) (tenant_docs demo_gateway)
      (ps_policy (gw_run demo_gateway)) (Some ''acme'') ''crm'' ''pay'' (map VStr (rs_scopes demo_state)) (rs_roles demo_state))
    = verdict True NoScopeRequired (Some (demo_tool ''pay''))"
    using demo_verdict [of "''pay''"] by (simp add: t)
  have 4: "get_server default_settings (gw_proxy demo_gateway) ''crm'' (Some ''acme'') = Some (demo_server ''crm'' ''sse'')"
    by (simp add: get_server_def demo_gateway_def resolve_tenant_def)
  have 5: "fst (check_quota default_settings ''acme'' (current_period (pe_month (ge_proxy demo_gateway_env)) default_settings 0)
      (ps_meter (gw_run demo_gateway))) = None" by (simp add: demo_quota)
  show ?thesis
    using mcp_runs_unconfirmed [OF demo_names(2,3) 1 2 3 _ 5 _ _ _ 4, where m = "[(''requires_confirmation'', VBool True)]" and args = "[]"
        and d = "[(''ok'', VBool True)]"]
    by (auto simp: demo_pay vget_def is_code_metadata_def demo_server_def demo_gateway_env_def demo_meter)
qed

end
