(* ===== verification/DbBridge.thy ===== *)
theory DbBridge
  imports Settings DocStore
begin

text \<open>\<open>services/sandbox_db_bridge.py\<close>: the host side of a code tool's database access.  A relayed call is checked
  against the tool's action class and turned into one request of the database driver, on a
  collection of the tool's own tenant.  The driver and the coding of values (Extended JSON) are
  parameters; a driver answers a request with a value, or not at all (a time-out or another
  exception).  Its answer to an update or insert is the document of the result's attributes.\<close>

section \<open>Operations\<close>

definition ALLOWED_ACTION_TYPES :: "string list" where
  "ALLOWED_ACTION_TYPES = [''read'', ''write'', ''destructive'']"

definition READ_OPS :: "string list" where
  "READ_OPS = [''find_one'', ''find'', ''aggregate'', ''count_documents'', ''distinct'']"

definition WRITE_OPS :: "string list" where
  "WRITE_OPS = READ_OPS @ [''insert_one'', ''insert_many'', ''update_one'', ''update_many'']"

definition DESTRUCTIVE_OPS :: "string list" where
  "DESTRUCTIVE_OPS = WRITE_OPS @ [''delete_one'', ''delete_many'']"

definition ops_by_action :: "string \<Rightarrow> string list" where
  "ops_by_action a = (if a = ''write'' then WRITE_OPS else if a = ''destructive'' then DESTRUCTIVE_OPS else READ_OPS)"

definition bridge_action :: "string \<Rightarrow> string" where
  "bridge_action a = (if a \<in> set ALLOWED_ACTION_TYPES then a else ''read'')"

definition BANNED_AGG_STAGES :: "string list" where
  "BANNED_AGG_STAGES = [''$out'', ''$merge'', ''$function'', ''$where'', ''$accumulator'', ''$documents'', ''$unionWith'',
     ''$currentOp'', ''$listLocalSessions'', ''$listSessions'']"

definition MAX_PIPELINE_STAGES :: nat where
  "MAX_PIPELINE_STAGES = 25"

text \<open>\<open>^[A-Za-z0-9][A-Za-z0-9._-]*$\<close> on a stripped name.\<close>
definition collection_name_ok :: "string \<Rightarrow> bool" where
  "collection_name_ok s =
     (case s of [] \<Rightarrow> False
      | c # cs \<Rightarrow> is_alnum c \<and> list_all (\<lambda>x. is_alnum x \<or> x \<in> set ''._-'') cs)"

definition collection_allowed :: "string \<Rightarrow> bool" where
  "collection_allowed s = (collection_name_ok s \<and> \<not> startswith s ''system.'' \<and> CHR ''$'' \<notin> set s)"

definition as_bool :: "pyval \<Rightarrow> bool" where
  "as_bool v = (case v of VBool b \<Rightarrow> b | VStr s \<Rightarrow> lower (strip s) \<in> set [''1'', ''true'', ''yes'', ''on''] | VInt i \<Rightarrow> i \<noteq> 0
     | _ \<Rightarrow> False)"

section \<open>Requests to the driver\<close>

datatype db_request =
    FindOne doc pyval
  | Find doc pyval int
  | Aggregate "doc list"
  | CountDocuments doc
  | Distinct string doc
  | InsertOne doc
  | InsertMany docs bool
  | UpdateOne doc doc bool
  | UpdateMany doc doc bool
  | DeleteOne doc
  | DeleteMany doc

fun reads :: "db_request \<Rightarrow> bool" where
  "reads (FindOne q p) = True"
| "reads (Find q p n) = True"
| "reads (Aggregate p) = True"
| "reads (CountDocuments q) = True"
| "reads (Distinct f q) = True"
| "reads _ = False"

fun deletes :: "db_request \<Rightarrow> bool" where
  "deletes (DeleteOne q) = True"
| "deletes (DeleteMany q) = True"
| "deletes _ = False"

type_synonym db_driver = "db_request \<Rightarrow> docs \<Rightarrow> pyval option \<times> docs"

definition max_docs :: "settings \<Rightarrow> int" where
  "max_docs s = max 1 (cfg_sandbox_db_max_docs s)"

text \<open>None in the functions below is a raised exception.\<close>
definition arg_or :: "pyval list \<Rightarrow> pyval \<Rightarrow> pyval" where
  "arg_or args dflt = (case args of [] \<Rightarrow> dflt | a # _ \<Rightarrow> a)"

definition second_or :: "pyval list \<Rightarrow> pyval \<Rightarrow> pyval" where
  "second_or args dflt = (case args of _ # b # _ \<Rightarrow> b | _ \<Rightarrow> dflt)"

definition validate_lookup_stage :: "pyval \<Rightarrow> bool" where
  "validate_lookup_stage payload =
     (case payload of VDict d \<Rightarrow> is_str (vget d ''from'') \<and> \<not> truthy (vget d ''pipeline'') | _ \<Rightarrow> False)"

definition safe_stage :: "pyval \<Rightarrow> doc option" where
  "safe_stage v =
     (case v of
        VDict [(operator, payload)] \<Rightarrow>
          if operator \<in> set BANNED_AGG_STAGES then None
          else if operator = ''$lookup'' \<and> \<not> validate_lookup_stage payload then None
          else Some [(operator, payload)]
      | _ \<Rightarrow> None)"

fun all_stages :: "pyval list \<Rightarrow> doc list option" where
  "all_stages [] = Some []"
| "all_stages (v # vs) = (case safe_stage v of None \<Rightarrow> None | Some d \<Rightarrow> map_option (\<lambda>ds. d # ds) (all_stages vs))"

definition sanitize_pipeline :: "settings \<Rightarrow> pyval list \<Rightarrow> doc list option" where
  "sanitize_pipeline s stages =
     (if length stages > MAX_PIPELINE_STAGES then None
      else case all_stages stages of
          None \<Rightarrow> None
        | Some safe \<Rightarrow>
            if safe \<noteq> [] \<and> dget (last safe) ''$limit'' \<noteq> None then
              (case py_int (vget (last safe) ''$limit'') of
                 None \<Rightarrow> None
               | Some n \<Rightarrow> Some (butlast safe @ [dput ''$limit'' (VInt (max 1 (min (max_docs s) n))) (last safe)]))
            else Some (safe @ [[(''$limit'', VInt (max_docs s))]]))"

definition plan_find :: "settings \<Rightarrow> pyval list \<Rightarrow> doc \<Rightarrow> db_request option" where
  "plan_find s args kwargs =
     (let proj = second_or args (vget kwargs ''projection'') in
      case arg_or args (VDict []) of
        VDict q \<Rightarrow>
          if proj \<noteq> VNone \<and> as_doc proj = None then None
          else map_option (\<lambda>n. Find q proj (max 1 (min (max_docs s) n))) (py_int (vget_or kwargs ''limit'' (VInt (max_docs s))))
      | _ \<Rightarrow> None)"

definition plan_distinct :: "pyval list \<Rightarrow> doc \<Rightarrow> db_request option" where
  "plan_distinct args kwargs =
     (case args of [] \<Rightarrow> None
      | a # _ \<Rightarrow>
          (let field = strip (py_str (py_or a (VStr [])))
           in if field = [] then None
              else map_option (Distinct field) (as_doc (second_or args (py_or (vget kwargs ''query'') (VDict []))))))"

definition plan_two :: "(doc \<Rightarrow> doc \<Rightarrow> bool \<Rightarrow> db_request) \<Rightarrow> pyval list \<Rightarrow> doc \<Rightarrow> db_request option" where
  "plan_two f args kwargs =
     (case args of
        VDict q # VDict u # _ \<Rightarrow> Some (f q u (as_bool (vget kwargs ''upsert'')))
      | _ \<Rightarrow> None)"

definition plan_doc :: "(doc \<Rightarrow> db_request) \<Rightarrow> pyval list \<Rightarrow> db_request option" where
  "plan_doc f args = (case args of VDict d # _ \<Rightarrow> Some (f d) | _ \<Rightarrow> None)"

definition plan_insert_many :: "settings \<Rightarrow> pyval list \<Rightarrow> doc \<Rightarrow> db_request option" where
  "plan_insert_many s args kwargs =
     (case arg_or args (VList []) of
        VList vs \<Rightarrow>
          if list_all (\<lambda>v. as_doc v \<noteq> None) vs
          then Some (InsertMany (take (nat (max_docs s)) (List.map_filter as_doc vs)) (as_bool (vget_or kwargs ''ordered'' (VBool True))))
          else None
      | _ \<Rightarrow> None)"

definition plan_op :: "settings \<Rightarrow> string \<Rightarrow> pyval list \<Rightarrow> doc \<Rightarrow> db_request option" where
  "plan_op s op args kwargs =
     (if op = ''find_one'' then
        (case arg_or args (VDict []) of VDict q \<Rightarrow> Some (FindOne q (second_or args (vget kwargs ''projection''))) | _ \<Rightarrow> None)
      else if op = ''find'' then plan_find s args kwargs
      else if op = ''aggregate'' then
        (case arg_or args (VList []) of VList stages \<Rightarrow> map_option Aggregate (sanitize_pipeline s stages) | _ \<Rightarrow> None)
      else if op = ''count_documents'' then
        (case arg_or args (VDict []) of VDict q \<Rightarrow> Some (CountDocuments q) | _ \<Rightarrow> None)
      else if op = ''distinct'' then plan_distinct args kwargs
      else if op = ''insert_one'' then plan_doc InsertOne args
      else if op = ''insert_many'' then plan_insert_many s args kwargs
      else if op = ''update_one'' then plan_two UpdateOne args kwargs
      else if op = ''update_many'' then plan_two UpdateMany args kwargs
      else if op = ''delete_one'' then plan_doc DeleteOne args
      else if op = ''delete_many'' then plan_doc DeleteMany args
      else None)"

text \<open>What the bridge makes of the driver's answer; None where converting it raises.\<close>
definition count_field :: "doc \<Rightarrow> string \<Rightarrow> (string \<times> pyval) option" where
  "count_field d f = map_option (\<lambda>n. (f, VInt n)) (py_int (vget_or d f (VInt 0)))"

definition shape_result :: "settings \<Rightarrow> db_request \<Rightarrow> pyval \<Rightarrow> pyval option" where
  "shape_result s req v =
     (let attrs = (case v of VDict d \<Rightarrow> d | _ \<Rightarrow> []) in
      case req of
        FindOne _ _ \<Rightarrow> Some v
      | Find _ _ _ \<Rightarrow> Some (case v of VList xs \<Rightarrow> VList xs | _ \<Rightarrow> VList [])
      | Aggregate _ \<Rightarrow> Some (case v of VList xs \<Rightarrow> VList xs | _ \<Rightarrow> VList [])
      | CountDocuments _ \<Rightarrow> map_option VInt (py_int v)
      | Distinct _ _ \<Rightarrow> Some (case v of VList xs \<Rightarrow> VList (take (nat (max_docs s)) xs) | _ \<Rightarrow> VList [])
      | InsertOne _ \<Rightarrow> Some (VDict [(''inserted_id'', vget attrs ''inserted_id'')])
      | InsertMany _ _ \<Rightarrow>
          Some (VDict [(''inserted_ids'', case vget_or attrs ''inserted_ids'' (VList []) of VList xs \<Rightarrow> VList xs | _ \<Rightarrow> VList [])])
      | UpdateOne _ _ _ \<Rightarrow>
          (case (count_field attrs ''matched_count'', count_field attrs ''modified_count'') of
             (Some a, Some b) \<Rightarrow> Some (VDict [a, b, (''upserted_id'', vget attrs ''upserted_id'')]) | _ \<Rightarrow> None)
      | UpdateMany _ _ _ \<Rightarrow>
          (case (count_field attrs ''matched_count'', count_field attrs ''modified_count'') of
             (Some a, Some b) \<Rightarrow> Some (VDict [a, b, (''upserted_id'', vget attrs ''upserted_id'')]) | _ \<Rightarrow> None)
      | DeleteOne _ \<Rightarrow> map_option (\<lambda>a. VDict [a]) (count_field attrs ''deleted_count'')
      | DeleteMany _ \<Rightarrow> map_option (\<lambda>a. VDict [a]) (count_field attrs ''deleted_count''))"

section \<open>The bridge\<close>

record db_env =
  db_driver :: db_driver
  db_decode :: "pyval \<Rightarrow> pyval"
  db_encode :: "pyval \<Rightarrow> pyval"
  db_size :: "pyval \<Rightarrow> int"

text \<open>Databases by tenant and collection; the calls made; the requests issued (tenant, collection, request).\<close>
record db_state =
  dbs_data :: "string \<Rightarrow> string \<Rightarrow> docs"
  dbs_calls :: nat
  dbs_issued :: "(string \<times> string \<times> db_request) list"

definition bridge_max_calls :: "settings \<Rightarrow> int option \<Rightarrow> int" where
  "bridge_max_calls s override =
     (case override of Some n \<Rightarrow> max 0 n | None \<Rightarrow> max 0 (cfg_sandbox_db_max_calls_per_invocation s))"

definition issue_request ::
  "db_env \<Rightarrow> settings \<Rightarrow> string \<Rightarrow> string \<Rightarrow> db_request \<Rightarrow> db_state \<Rightarrow> pyval option \<times> db_state" where
  "issue_request env s tid coll req st =
     (case db_driver env req (dbs_data st tid coll) of
        (v, ds) \<Rightarrow>
          (Option.bind v (shape_result s req),
           st\<lparr>dbs_data := (dbs_data st)(tid := (dbs_data st tid)(coll := ds)), dbs_issued := dbs_issued st @ [(tid, coll, req)]\<rparr>))"

definition db_dispatch ::
  "db_env \<Rightarrow> settings \<Rightarrow> string \<Rightarrow> string \<Rightarrow> int option \<Rightarrow> doc \<Rightarrow> db_state \<Rightarrow> pyval option \<times> db_state" where
  "db_dispatch env s tid action override rpc st =
     (let cap = bridge_max_calls s override in
      if cap > 0 \<and> int (dbs_calls st) \<ge> cap then (None, st)
      else
        (let st1 = st\<lparr>dbs_calls := Suc (dbs_calls st)\<rparr>;
             op = strip (py_str (py_or (vget rpc ''op'') (VStr [])));
             coll = strip (py_str (py_or (vget rpc ''collection'') (VStr [])));
             args = (case vget rpc ''args'' of VList xs \<Rightarrow> xs | _ \<Rightarrow> []);
             kwargs = (case vget rpc ''kwargs'' of VDict d \<Rightarrow> d | _ \<Rightarrow> [])
         in if op \<notin> set (ops_by_action (bridge_action action)) then (None, st1)
            else if \<not> collection_allowed coll then (None, st1)
            else case plan_op s op (map (db_decode env) args) (map (\<lambda>kv. (fst kv, db_decode env (snd kv))) kwargs) of
                None \<Rightarrow> (None, st1)
              | Some req \<Rightarrow> issue_request env s tid coll req st1))"

text \<open>The reply: a payload, or an error (every failure has the type \<open>db_rpc_error\<close>).\<close>
definition db_handle ::
  "db_env \<Rightarrow> settings \<Rightarrow> string \<Rightarrow> string \<Rightarrow> int option \<Rightarrow> doc \<Rightarrow> db_state \<Rightarrow> (string + pyval) \<times> db_state" where
  "db_handle env s tid action override rpc st =
     (case db_dispatch env s tid action override rpc st of
        (None, st') \<Rightarrow> (Inl ''db_rpc_error'', st')
      | (Some v, st') \<Rightarrow>
          (if db_size env (db_encode env v) > max 1024 (cfg_sandbox_db_max_result_bytes s) then Inl ''db_rpc_error''
           else Inr (db_encode env v), st'))"

text \<open>All calls of one invocation.\<close>
definition db_session :: "db_env \<Rightarrow> settings \<Rightarrow> string \<Rightarrow> string \<Rightarrow> int option \<Rightarrow> docs \<Rightarrow> db_state \<Rightarrow> db_state" where
  "db_session env s tid action override rpcs st = foldl (\<lambda>st rpc. snd (db_handle env s tid action override rpc st)) st rpcs"

section \<open>What a request may be\<close>

text \<open>Only stages that pass the check, at most the allowed number, and a bounded \<open>$limit\<close> at the end.\<close>
definition pipeline_ok :: "settings \<Rightarrow> doc list \<Rightarrow> bool" where
  "pipeline_ok s p =
     (p \<noteq> [] \<and> length p \<le> Suc MAX_PIPELINE_STAGES
      \<and> (\<forall>d\<in>set p. \<exists>k v. d = [(k, v)] \<and> k \<notin> set BANNED_AGG_STAGES \<and> (k = ''$lookup'' \<longrightarrow> validate_lookup_stage v))
      \<and> (\<exists>n. last p = [(''$limit'', VInt n)] \<and> 1 \<le> n \<and> n \<le> max_docs s))"

definition request_ok :: "settings \<Rightarrow> string \<Rightarrow> db_request \<Rightarrow> bool" where
  "request_ok s action req =
     ((bridge_action action = ''read'' \<longrightarrow> reads req) \<and> (bridge_action action \<noteq> ''destructive'' \<longrightarrow> \<not> deletes req)
      \<and> (case req of Find q p n \<Rightarrow> 1 \<le> n \<and> n \<le> max_docs s
         | InsertMany ds b \<Rightarrow> int (length ds) \<le> max_docs s
         | Aggregate p \<Rightarrow> pipeline_ok s p | _ \<Rightarrow> True))"

lemma max_docs_pos: "1 \<le> max_docs s"
  by (simp add: max_docs_def)

lemma safe_stage_single:
  "safe_stage v = Some d \<Longrightarrow> \<exists>k x. d = [(k, x)] \<and> k \<notin> set BANNED_AGG_STAGES \<and> (k = ''$lookup'' \<longrightarrow> validate_lookup_stage x)"
  by (auto simp: safe_stage_def split: pyval.splits list.splits prod.splits if_splits)

lemma all_stages_sound:
  "all_stages vs = Some ds \<Longrightarrow> length ds = length vs \<and>
     (\<forall>d\<in>set ds. \<exists>k x. d = [(k, x)] \<and> k \<notin> set BANNED_AGG_STAGES \<and> (k = ''$lookup'' \<longrightarrow> validate_lookup_stage x))"
proof (induction vs arbitrary: ds)
  case (Cons v vs)
  then show ?case using safe_stage_single by (fastforce split: option.splits)
qed simp

lemma limit_not_banned: "''$limit'' \<notin> set BANNED_AGG_STAGES"
  by (simp add: BANNED_AGG_STAGES_def)

lemma sanitized_ok:
  assumes "sanitize_pipeline s stages = Some p"
  shows "pipeline_ok s p"
proof -
  obtain safe where safe: "all_stages stages = Some safe" and len: "length stages \<le> MAX_PIPELINE_STAGES"
    using assms by (auto simp: sanitize_pipeline_def split: if_splits option.splits)
  note a = all_stages_sound [OF safe]
  let ?ok = "\<lambda>d. \<exists>k x. d = [(k, x)] \<and> k \<notin> set BANNED_AGG_STAGES \<and> (k = ''$lookup'' \<longrightarrow> validate_lookup_stage x)"
  show ?thesis
  proof (cases "safe \<noteq> [] \<and> dget (last safe) ''$limit'' \<noteq> None")
    case True
    then obtain n where n: "p = butlast safe @ [dput ''$limit'' (VInt (max 1 (min (max_docs s) n))) (last safe)]"
      using assms safe by (auto simp: sanitize_pipeline_def split: if_splits option.splits)
    obtain k v where kv: "last safe = [(k, v)]" using a True last_in_set by blast
    then have l: "last safe = [(''$limit'', v)]" using True by (simp split: if_splits)
    have "\<forall>d\<in>set (butlast safe). ?ok d" using a by (meson in_set_butlastD)
    moreover have "length (butlast safe) \<le> MAX_PIPELINE_STAGES" using a len by simp
    moreover have "dput ''$limit'' x [(''$limit'', v)] = [(''$limit'', x)]" for x by (simp add: dput_def)
    ultimately show ?thesis using n l limit_not_banned max_docs_pos [of s] by (auto simp: pipeline_ok_def)
  next
    case False
    then have "p = safe @ [[(''$limit'', VInt (max_docs s))]]"
      using assms safe by (auto simp: sanitize_pipeline_def split: if_splits)
    then show ?thesis using a len limit_not_banned max_docs_pos [of s] by (auto simp: pipeline_ok_def)
  qed
qed

lemma plan_in_class:
  assumes "plan_op s op args kwargs = Some req" and "op \<in> set (ops_by_action (bridge_action action))"
  shows "request_ok s action req"
proof -
  have "op \<in> set READ_OPS" if "bridge_action action = ''read''"
    using assms(2) that by (simp add: ops_by_action_def)
  moreover have "op \<in> set WRITE_OPS" if "bridge_action action \<noteq> ''destructive''"
    using assms(2) that by (auto simp: ops_by_action_def WRITE_OPS_def split: if_splits)
  ultimately show ?thesis
    using assms(1) max_docs_pos [of s]
    by (auto simp: plan_op_def request_ok_def plan_find_def plan_distinct_def plan_two_def plan_doc_def plan_insert_many_def
        READ_OPS_def WRITE_OPS_def Let_def sanitized_ok
        split: if_splits pyval.splits list.splits option.splits)
qed

section \<open>What an invocation can do\<close>

definition driver_reads :: "db_driver \<Rightarrow> bool" where
  "driver_reads f = (\<forall>req ds. reads req \<longrightarrow> snd (f req ds) = ds)"

text \<open>What holds of the state of an invocation that started from \<open>d0\<close>.\<close>
definition session_ok :: "db_env \<Rightarrow> settings \<Rightarrow> string \<Rightarrow> string \<Rightarrow> int option \<Rightarrow> db_state \<Rightarrow> db_state \<Rightarrow> bool" where
  "session_ok env s tid action override d0 st =
     ((\<forall>(t, c, req)\<in>set (dbs_issued st). t = tid \<and> collection_allowed c \<and> request_ok s action req)
      \<and> length (dbs_issued st) \<le> dbs_calls st
      \<and> (0 < bridge_max_calls s override \<longrightarrow> int (dbs_calls st) \<le> bridge_max_calls s override)
      \<and> (\<forall>t. t \<noteq> tid \<longrightarrow> dbs_data st t = dbs_data d0 t)
      \<and> (\<forall>c. \<not> collection_allowed c \<longrightarrow> dbs_data st tid c = dbs_data d0 tid c)
      \<and> (bridge_action action = ''read'' \<and> driver_reads (db_driver env) \<longrightarrow> dbs_data st = dbs_data d0))"

lemma issue_keeps:
  assumes "session_ok env s tid action override d0 st" and "collection_allowed coll" and "request_ok s action req"
    and "length (dbs_issued st) < dbs_calls st"
  shows "session_ok env s tid action override d0 (snd (issue_request env s tid coll req st))"
proof -
  obtain v ds where d: "db_driver env req (dbs_data st tid coll) = (v, ds)" by fastforce
  have "ds = dbs_data st tid coll" if "bridge_action action = ''read''" "driver_reads (db_driver env)"
  proof -
    have "reads req" using assms(3) that(1) by (simp add: request_ok_def)
    then show ?thesis using that(2) d by (metis driver_reads_def snd_conv)
  qed
  then show ?thesis using assms by (auto simp: issue_request_def d session_ok_def)
qed

lemma dispatch_keeps:
  assumes "session_ok env s tid action override d0 st"
  shows "session_ok env s tid action override d0 (snd (db_dispatch env s tid action override rpc st))"
proof (cases "0 < bridge_max_calls s override \<and> bridge_max_calls s override \<le> int (dbs_calls st)")
  case True
  then show ?thesis using assms by (simp add: db_dispatch_def)
next
  case False
  let ?st = "st\<lparr>dbs_calls := Suc (dbs_calls st)\<rparr>"
  have 1: "session_ok env s tid action override d0 ?st" and 2: "length (dbs_issued ?st) < dbs_calls ?st"
    using assms False by (auto simp: session_ok_def)
  show ?thesis
    using 1 issue_keeps [OF 1 _ _ 2] plan_in_class False
    by (auto simp: db_dispatch_def Let_def split: option.split)
qed

lemma handle_state: "snd (db_handle env s tid action override rpc st) = snd (db_dispatch env s tid action override rpc st)"
  by (simp add: db_handle_def split: prod.split option.split)

lemma db_session_ok:
  assumes "dbs_issued st = []" and "dbs_calls st = 0"
  shows "session_ok env s tid action override st (db_session env s tid action override rpcs st)"
proof -
  have "session_ok env s tid action override st st" using assms by (simp add: session_ok_def)
  then have "session_ok env s tid action override st (foldl (\<lambda>st rpc. snd (db_handle env s tid action override rpc st)) st' rpcs)"
    if "session_ok env s tid action override st st'" for st'
    using that by (induction rpcs arbitrary: st') (simp_all add: handle_state dispatch_keeps)
  then show ?thesis using \<open>session_ok env s tid action override st st\<close> by (simp add: db_session_def)
qed

text \<open>C23. The database bridge confines a code tool, whatever sequence of calls its program makes: every
  request that reaches the database goes to an allowed collection of the tool's own tenant, belongs
  to the tool's action class (a read tool only reads, only a destructive tool deletes), asks for at
  most \<open>max_docs\<close> documents and carries a checked pipeline; the number of requests stays within the
  invocation's budget; no other tenant's data changes; and a read tool changes nothing at all.\<close>
theorem db_bridge_confines:
  assumes "dbs_issued st = []" and "dbs_calls st = 0"
  shows "session_ok env s tid action override st (db_session env s tid action override rpcs st)"
  by (rule db_session_ok [OF assms])

text \<open>The pipeline check looks at the top level only: a stage that is refused there passes inside
  \<open>$facet\<close>, and \<open>$lookup\<close> may read a collection the bridge itself would refuse.\<close>
lemma nested_stage_passes:
  "sanitize_pipeline default_settings [VDict [(''$facet'', VDict [(''a'', VList [VDict [(''$unionWith'', VStr ''system.users'')]])])]] \<noteq> None"
  "sanitize_pipeline default_settings [VDict [(''$lookup'', VDict [(''from'', VStr ''system.users'')])]] \<noteq> None"
  by code_simp+

text \<open>More documents than \<open>max_docs\<close> are dropped from an insert without an error.\<close>
lemma insert_many_truncates:
  assumes "int (length ds) > max_docs s"
  shows "plan_insert_many s [VList (map VDict ds)] [] = Some (InsertMany (take (nat (max_docs s)) ds) True)"
proof -
  have "List.map_filter as_doc (map VDict ds) = ds"
    by (induction ds) (simp_all add: map_filter_simps as_doc_def)
  moreover have "list_all (\<lambda>v. as_doc v \<noteq> None) (map VDict ds)" by (induction ds) (simp_all add: as_doc_def)
  ultimately show ?thesis by (simp add: plan_insert_many_def arg_or_def vget_or_def as_bool_def)
qed

definition demo_db_env :: db_env where
  "demo_db_env = \<lparr>db_driver = (\<lambda>req ds. (Some VNone, if reads req then ds else [])), db_decode = (\<lambda>v. v), db_encode = (\<lambda>v. v),
     db_size = (\<lambda>_. 0)\<rparr>"

definition demo_db_state :: db_state where
  "demo_db_state = \<lparr>dbs_data = (\<lambda>_ _. [[(''x'', VInt 1)]]), dbs_calls = 0, dbs_issued = []\<rparr>"

lemma db_bridge_confines_witness:
  "dbs_data (db_session demo_db_env default_settings ''acme'' ''read'' None
      [[(''op'', VStr ''find''), (''collection'', VStr ''orders'')], [(''op'', VStr ''delete_many''), (''collection'', VStr ''orders'')]]
      demo_db_state) = dbs_data demo_db_state"
proof -
  have "driver_reads (db_driver demo_db_env)" by (simp add: driver_reads_def demo_db_env_def)
  moreover have "bridge_action ''read'' = ''read''" by (simp add: bridge_action_def ALLOWED_ACTION_TYPES_def)
  ultimately show ?thesis
    using db_bridge_confines [of demo_db_state demo_db_env default_settings "''acme''" "''read''" None
        "[[(''op'', VStr ''find''), (''collection'', VStr ''orders'')], [(''op'', VStr ''delete_many''), (''collection'', VStr ''orders'')]]"]
    by (simp add: session_ok_def demo_db_state_def)
qed

end
