(* ===== verification/Breaker.thy ===== *)
theory Breaker
  imports Prelude Complex_Main
begin

text \<open>The contract of a consecutive-failure circuit breaker.  Three services carry one of their own (the
  sandbox HTTP bridge, the embedding transport, the semantic guardrail); each is shown to keep this
  contract where it is modelled, and inherits the consequences proved here.\<close>

text \<open>\<open>is_open s t\<close>: a call at time \<open>t\<close> fails fast.  \<open>fail s t\<close>, \<open>succeed s\<close>: the outcome of a call that was let
  through.  \<open>strikes\<close>: the consecutive failures counted.  Times are
  readings of the monotonic clock, from 0.\<close>
locale breaker =
  fixes is_open :: "'s \<Rightarrow> real \<Rightarrow> bool" and fail :: "'s \<Rightarrow> real \<Rightarrow> 's" and succeed :: "'s \<Rightarrow> 's" and strikes :: "'s \<Rightarrow> nat"
    and lim :: nat and reset :: real
  assumes strikes_fail: "strikes (fail s t) = Suc (strikes s)"
    and strikes_succeed: "strikes (succeed s) = 0"
    and fail_opens: "lim \<le> Suc (strikes s) \<Longrightarrow> 0 \<le> t \<Longrightarrow> t \<le> u \<Longrightarrow> is_open (fail s t) u \<longleftrightarrow> u < t + reset"
    and fail_keeps: "Suc (strikes s) < lim \<Longrightarrow> is_open (fail s t) u = is_open s u"
    and succeed_closed: "\<not> is_open s u \<Longrightarrow> \<not> is_open (succeed s) u"
begin

text \<open>The state after failures at the given times, earliest first.\<close>
primrec failing :: "'s \<Rightarrow> real list \<Rightarrow> 's" where
  "failing s [] = s"
| "failing s (t # ts) = failing (fail s t) ts"

lemma failing_append: "failing s (ts @ us) = failing (failing s ts) us"
  by (induction ts arbitrary: s) auto

lemma strikes_failing: "strikes (failing s ts) = strikes s + length ts"
  by (induction ts arbitrary: s) (simp_all add: strikes_fail)

text \<open>Enough failures in a row: every call until the reset time fails fast, whatever happened before.\<close>
lemma opens_after_limit:
  assumes "lim \<le> strikes s + length ts" and "ts \<noteq> []" and "0 \<le> last ts" and "last ts \<le> u"
  shows "is_open (failing s ts) u \<longleftrightarrow> u < last ts + reset"
proof -
  have f: "failing s ts = fail (failing s (butlast ts)) (last ts)"
    using failing_append [of s "butlast ts" "[last ts]"] assms(2) by simp
  have "lim \<le> Suc (strikes (failing s (butlast ts)))" using assms(1,2) by (simp add: strikes_failing)
  from fail_opens [OF this assms(3,4)] show ?thesis using f by simp
qed

text \<open>Fewer failures than the limit never open a breaker.\<close>
lemma stays_closed:
  assumes "strikes s + length ts < lim" and "\<not> is_open s u"
  shows "\<not> is_open (failing s ts) u"
  using assms
proof (induction ts arbitrary: s)
  case (Cons t ts)
  then have "\<not> is_open (fail s t) u" using fail_keeps [of s t u] by simp
  moreover have "strikes (fail s t) + length ts < lim" using Cons.prems(1) by (simp add: strikes_fail)
  ultimately show ?case using Cons.IH by simp
qed simp

text \<open>After a success the count starts again.\<close>
lemma success_clears:
  assumes "\<not> is_open s u" and "length ts < lim"
  shows "\<not> is_open (failing (succeed s) ts) u"
  by (rule stays_closed) (use assms in \<open>simp_all add: strikes_succeed succeed_closed\<close>)

text \<open>Calls made one after the other, each with the time it asked the breaker and the times of the failures it
  then caused (none, where it was not let through).\<close>
primrec let_through :: "'s \<Rightarrow> (real \<times> real list) list \<Rightarrow> bool" where
  "let_through s [] = True"
| "let_through s (b # bs) = ((snd b = [] \<or> \<not> is_open s (fst b)) \<and> let_through (failing s (snd b)) bs)"

text \<open>Within one reset period the failures stay below the limit, but for the ones the last call adds.\<close>
lemma failures_bounded:
  assumes "let_through (failing s ts) bs" and "strikes s = 0" and "0 \<le> t0"
    and "\<forall>b\<in>set bs. fst b < t0 + reset \<and> length (snd b) \<le> a \<and> (\<forall>t\<in>set (snd b). t0 \<le> t)"
    and "sorted (ts @ concat (map (\<lambda>b. fst b # snd b) bs))" and "\<forall>t\<in>set ts. t0 \<le> t"
  shows "length ts + length (concat (map snd bs)) \<le> max (length ts) (lim - 1 + a)"
  using assms(1,4-6)
proof (induction bs arbitrary: ts)
  case (Cons b bs)
  obtain u xs where b: "b = (u, xs)" by (cases b)
  show ?case
  proof (cases "xs = []")
    case True
    then show ?thesis using Cons.IH [of ts] Cons.prems b by (simp add: sorted_append)
  next
    case False
    have short: "length ts \<le> lim - 1"
    proof (rule ccontr)
      assume "\<not> length ts \<le> lim - 1"
      then have ts: "ts \<noteq> []" and l: "lim \<le> strikes s + length ts" using assms(2) by auto
      have m: "last ts \<in> set ts" using ts by simp
      then have "t0 \<le> last ts" "last ts \<le> u" using Cons.prems(3,4) b by (auto simp: sorted_append)
      then have "is_open (failing s ts) u"
        using opens_after_limit [OF l ts] assms(3) Cons.prems(2) b by auto
      then show False using Cons.prems(1) b False by simp
    qed
    have "length (ts @ xs) + length (concat (map snd bs)) \<le> max (length (ts @ xs)) (lim - 1 + a)"
    proof (rule Cons.IH)
      show "let_through (failing s (ts @ xs)) bs" using Cons.prems(1) b by (simp add: failing_append)
      show "sorted ((ts @ xs) @ concat (map (\<lambda>b. fst b # snd b) bs))" using Cons.prems(3) b by (simp add: sorted_append)
    qed (use Cons.prems(2,4) b in auto)
    then show ?thesis using short Cons.prems(2) b by simp
  qed
qed simp

text \<open>Once the limit was reached, a single further failure after the reset time opens it again.\<close>
lemma reopens_at_once:
  assumes "lim \<le> strikes s" and "0 \<le> t" and "t \<le> u"
  shows "is_open (fail s t) u \<longleftrightarrow> u < t + reset"
  by (rule fail_opens) (use assms in simp_all)

end

end
