(* ===== verification/HttpBridge.thy ===== *)
theory HttpBridge
  imports Usage Breaker
begin

text \<open>\<open>services/sandbox_http_bridge.py\<close>: the host side of a code tool's outbound HTTP.  A relayed call is checked
  (method class, scheme, headers, body), a secret of the server is attached, and the request is sent
  unless the breaker of the tenant and host is open; which addresses may be reached is the egress
  stack's decision (theory \<open>Egress\<close>), whose refusal is one of the outcomes of sending.  URL parsing,
  text encoding and sending are parameters.  The semaphores bound how many requests run at once and
  are left out: the model sends one request at a time.\<close>

section \<open>The breaker of a tenant and host\<close>

record host_breaker =
  hb_open_until :: real
  hb_strikes :: nat

text \<open>\<open>max_failures\<close> and \<open>reset_seconds\<close> as the constructor normalises them.\<close>
definition hb_limit :: "settings \<Rightarrow> nat" where
  "hb_limit s = nat (max 1 (cfg_sandbox_http_breaker_failures s))"

definition hb_reset :: "settings \<Rightarrow> real" where
  "hb_reset s = max 0 (of_int (cfg_sandbox_http_breaker_reset_seconds s))"

definition hb_new :: host_breaker where
  "hb_new = \<lparr>hb_open_until = 0, hb_strikes = 0\<rparr>"

definition hb_is_open :: "settings \<Rightarrow> host_breaker \<Rightarrow> real \<Rightarrow> bool" where
  "hb_is_open s b now = (hb_reset s > 0 \<and> now < hb_open_until b)"

definition hb_success :: "host_breaker \<Rightarrow> host_breaker" where
  "hb_success b = b\<lparr>hb_strikes := 0, hb_open_until := 0\<rparr>"

definition hb_failure :: "settings \<Rightarrow> host_breaker \<Rightarrow> real \<Rightarrow> host_breaker" where
  "hb_failure s b now =
     (let b' = b\<lparr>hb_strikes := Suc (hb_strikes b)\<rparr>
      in if hb_limit s \<le> hb_strikes b' then b'\<lparr>hb_open_until := now + hb_reset s\<rparr> else b')"

text \<open>It keeps the breaker contract.\<close>
interpretation http_breaker: breaker
  "\<lambda>b t. 0 \<le> t \<and> hb_is_open s b t" "hb_failure s" hb_success hb_strikes "hb_limit s" "hb_reset s" for s
  by unfold_locales (auto simp: hb_failure_def hb_success_def hb_is_open_def hb_reset_def Let_def)

section \<open>Checking a request\<close>

definition READ_METHODS :: "string list" where
  "READ_METHODS = [''GET'', ''HEAD'']"

definition WRITE_METHODS :: "string list" where
  "WRITE_METHODS = [''POST'', ''PUT'', ''PATCH'', ''DELETE'']"

definition http_action :: "string \<Rightarrow> string" where
  "http_action a = (if a \<in> set [''read'', ''write'', ''destructive''] then a else ''read'')"

definition methods_by_action :: "string \<Rightarrow> string list" where
  "methods_by_action a = (if a = ''read'' then READ_METHODS else READ_METHODS @ WRITE_METHODS)"

definition STRIPPED_RESPONSE_HEADERS :: "string list" where
  "STRIPPED_RESPONSE_HEADERS = [''set-cookie'', ''set-cookie2'', ''connection'', ''keep-alive'', ''proxy-authenticate'',
     ''proxy-authorization'', ''te'', ''trailer'', ''transfer-encoding'', ''upgrade'']"

text \<open>A body: raw text, or a JSON value.\<close>
datatype http_body = NoBody | RawBody string | JsonBody pyval

record http_out =
  ho_method :: string
  ho_url :: string
  ho_headers :: "(string \<times> string) list"
  ho_params :: "doc option"
  ho_body :: http_body

record http_response =
  hr_status :: int
  hr_headers :: "(string \<times> string) list"
  hr_url :: string
  hr_size :: int
  hr_body :: "string + string"

text \<open>How sending ends; a response carries its text (Inl) or its base64 form (Inr).\<close>
datatype send_outcome = Responded http_response | SendTimeout | SendFailed | EgressBlocked | SendCrashed

record http_env =
  he_url :: "string \<Rightarrow> string \<times> string option"
  he_send :: "nat \<Rightarrow> http_out \<Rightarrow> send_outcome"
  he_utf8 :: "string \<Rightarrow> int"
  he_json_size :: "pyval \<Rightarrow> int"
  he_month :: "real \<Rightarrow> string"

record http_bridge =
  hx_tenant :: string
  hx_action :: string
  hx_env :: "(string \<times> string) list"
  hx_server :: "string option"
  hx_tool :: "string option"

text \<open>Denials carry their kind.\<close>
definition validate_request :: "http_env \<Rightarrow> string \<Rightarrow> string \<Rightarrow> string \<Rightarrow> string + string" where
  "validate_request env action meth url =
     (if meth \<notin> set (READ_METHODS @ WRITE_METHODS) then Inl ''http_method_invalid''
      else if meth \<notin> set (methods_by_action (http_action action)) then Inl ''http_method_forbidden''
      else if fst (he_url env url) \<noteq> ''https'' then Inl ''http_scheme_forbidden''
      else case snd (he_url env url) of
          None \<Rightarrow> Inl ''http_url_invalid''
        | Some h \<Rightarrow> if h = [] then Inl ''http_url_invalid'' else Inr (lower h))"

definition inject_auth ::
  "(string \<times> string) list \<Rightarrow> pyval \<Rightarrow> (string \<times> string) list \<Rightarrow> string + (string \<times> string) list" where
  "inject_auth secrets auth headers =
     (if auth = VNone then Inr headers
      else case (case auth of
            VStr k \<Rightarrow> Some (k, ''Authorization'', ''Bearer'')
          | VDict d \<Rightarrow> Some (py_str (py_or (vget d ''key'') (VStr [])), py_str (py_or (vget d ''header'') (VStr ''Authorization'')),
              if vget d ''scheme'' = VNone then ''Bearer'' else py_str (vget d ''scheme''))
          | _ \<Rightarrow> None) of
        None \<Rightarrow> Inl ''http_auth_invalid''
      | Some (key, name, scheme) \<Rightarrow>
          if key = [] then Inl ''http_auth_invalid''
          else case dget secrets key of
              None \<Rightarrow> Inl ''http_auth_unknown_key''
            | Some v \<Rightarrow> Inr (dput name (if scheme \<noteq> [] then strip (scheme @ '' '' @ v) else v) headers))"

text \<open>The guest's own headers; the last of two equal names wins, as in the loop.\<close>
definition guest_headers :: "pyval \<Rightarrow> (string \<times> string) list" where
  "guest_headers raw =
     (case raw of
        VDict d \<Rightarrow> foldl (\<lambda>acc kv. if lower (fst kv) = ''host'' then acc else dput (fst kv) (py_str (snd kv)) acc) [] d
      | _ \<Rightarrow> [])"

definition build_headers :: "(string \<times> string) list \<Rightarrow> doc \<Rightarrow> string + (string \<times> string) list" where
  "build_headers secrets rpc = inject_auth secrets (vget rpc ''auth'') (guest_headers (vget rpc ''headers''))"

definition request_too_large :: "settings \<Rightarrow> int \<Rightarrow> bool" where
  "request_too_large s n = (let cap = max 0 (cfg_sandbox_http_max_request_bytes s) in cap \<noteq> 0 \<and> n > cap)"

definition build_body :: "http_env \<Rightarrow> settings \<Rightarrow> string \<Rightarrow> doc \<Rightarrow> string + http_body" where
  "build_body env s meth rpc =
     (let j = vget rpc ''json''; data = vget rpc ''data'' in
      if j = VNone \<and> data = VNone then Inr NoBody
      else if meth \<in> set READ_METHODS then Inl ''http_body_forbidden''
      else if j \<noteq> VNone then
        (if request_too_large s (he_json_size env j) then Inl ''http_request_too_large'' else Inr (JsonBody j))
      else case data of
          VStr t \<Rightarrow> if request_too_large s (he_utf8 env t) then Inl ''http_request_too_large'' else Inr (RawBody t)
        | _ \<Rightarrow> Inl ''http_body_invalid'')"

definition encode_response :: "settings \<Rightarrow> http_response \<Rightarrow> string + pyval" where
  "encode_response s r =
     (if hr_size r > max 1024 (cfg_sandbox_http_max_response_bytes s) then Inl ''http_response_too_large''
      else Inr (VDict
        ([(''status'', VInt (hr_status r)),
          (''headers'', VDict (foldl (\<lambda>acc kv. if lower (fst kv) \<in> set STRIPPED_RESPONSE_HEADERS then acc
                                 else dput (lower (fst kv)) (VStr (snd kv)) acc) [] (hr_headers r))),
          (''url'', VStr (hr_url r))]
         @ (case hr_body r of Inl t \<Rightarrow> [(''text'', VStr t)] | Inr b \<Rightarrow> [(''content_b64'', VStr b)]))))"

section \<open>The bridge\<close>

text \<open>The breakers are shared by the process; the calls are counted per invocation; the log holds what was sent.\<close>
record http_state =
  hs_breakers :: "((string \<times> string) \<times> host_breaker) list"
  hs_calls :: nat
  hs_sent :: "(string \<times> string \<times> http_out) list"
  hs_meter :: metering

definition breaker_of :: "http_state \<Rightarrow> string \<Rightarrow> string \<Rightarrow> host_breaker" where
  "breaker_of st tid host = (case dget (hs_breakers st) (tid, host) of Some b \<Rightarrow> b | None \<Rightarrow> hb_new)"

definition put_breaker :: "string \<Rightarrow> string \<Rightarrow> host_breaker \<Rightarrow> http_state \<Rightarrow> http_state" where
  "put_breaker tid host b st = st\<lparr>hs_breakers := dput (tid, host) b (hs_breakers st)\<rparr>"

definition meter_request :: "http_env \<Rightarrow> settings \<Rightarrow> real \<Rightarrow> http_bridge \<Rightarrow> string \<Rightarrow> http_response \<Rightarrow> http_state \<Rightarrow> http_state" where
  "meter_request env s now br host r st =
     st\<lparr>hs_meter := emit_billing_event now (hx_tenant br) ''sandbox_http_egress_request'' 1 (current_period (he_month env) s now)
          [(''host'', VStr host), (''status'', VInt (hr_status r)), (''bytes'', VInt (hr_size r)),
           (''server'', case hx_server br of None \<Rightarrow> VNone | Some x \<Rightarrow> VStr x),
           (''tool'', case hx_tool br of None \<Rightarrow> VNone | Some x \<Rightarrow> VStr x)] (hs_meter st)\<rparr>"

text \<open>The validated call: host and request, or the kind of the denial.\<close>
definition plan_request :: "http_env \<Rightarrow> settings \<Rightarrow> http_bridge \<Rightarrow> doc \<Rightarrow> string + (string \<times> http_out)" where
  "plan_request env s br rpc =
     (let meth = upper (strip (py_str (py_or (vget rpc ''method'') (VStr ''GET''))));
          url = strip (py_str (py_or (vget rpc ''url'') (VStr [])))
      in case validate_request env (hx_action br) meth url of
           Inl k \<Rightarrow> Inl k
         | Inr host \<Rightarrow>
             (case build_headers (hx_env br) rpc of
                Inl k \<Rightarrow> Inl k
              | Inr headers \<Rightarrow>
                  (case build_body env s meth rpc of
                     Inl k \<Rightarrow> Inl k
                   | Inr body \<Rightarrow>
                       Inr (host, \<lparr>ho_method = meth, ho_url = url, ho_headers = headers,
                                   ho_params = as_doc (vget rpc ''params''), ho_body = body\<rparr>))))"

text \<open>Sending: a time-out or transport failure is a strike, a policy refusal is not.\<close>
definition send_planned ::
  "http_env \<Rightarrow> settings \<Rightarrow> real \<Rightarrow> http_bridge \<Rightarrow> string \<Rightarrow> http_out \<Rightarrow> http_state \<Rightarrow> (string + pyval) \<times> http_state" where
  "send_planned env s now br host q st =
     (let tid = hx_tenant br; b = breaker_of st tid host in
      if hb_is_open s b now then (Inl ''http_circuit_open'', put_breaker tid host b st)
      else
        (let st1 = (put_breaker tid host b st)\<lparr>hs_sent := hs_sent st @ [(tid, host, q)]\<rparr> in
         case he_send env (length (hs_sent st)) q of
           SendTimeout \<Rightarrow> (Inl ''http_timeout'', put_breaker tid host (hb_failure s b now) st1)
         | SendFailed \<Rightarrow> (Inl ''http_request_failed'', put_breaker tid host (hb_failure s b now) st1)
         | EgressBlocked \<Rightarrow> (Inl ''egress_blocked'', st1)
         | SendCrashed \<Rightarrow> (Inl ''http_rpc_error'', st1)
         | Responded r \<Rightarrow>
             (let st2 = put_breaker tid host (hb_success b) st1 in
              case encode_response s r of
                Inl k \<Rightarrow> (Inl k, st2)
              | Inr v \<Rightarrow> (Inr v, meter_request env s now br host r st2))))"

definition http_handle ::
  "http_env \<Rightarrow> settings \<Rightarrow> real \<Rightarrow> http_bridge \<Rightarrow> doc \<Rightarrow> http_state \<Rightarrow> (string + pyval) \<times> http_state" where
  "http_handle env s now br rpc st =
     (let cap = max 0 (cfg_sandbox_http_max_calls_per_invocation s) in
      if cap > 0 \<and> int (hs_calls st) \<ge> cap then (Inl ''http_call_limit'', st)
      else
        (let st1 = st\<lparr>hs_calls := Suc (hs_calls st)\<rparr> in
         case plan_request env s br rpc of
           Inl k \<Rightarrow> (Inl k, st1)
         | Inr (host, q) \<Rightarrow> send_planned env s now br host q st1))"

definition http_session :: "http_env \<Rightarrow> settings \<Rightarrow> http_bridge \<Rightarrow> (real \<times> doc) list \<Rightarrow> http_state \<Rightarrow> http_state" where
  "http_session env s br rpcs st = foldl (\<lambda>st (now, rpc). snd (http_handle env s now br rpc st)) st rpcs"

section \<open>What is sent\<close>

definition sent_ok :: "http_env \<Rightarrow> settings \<Rightarrow> http_bridge \<Rightarrow> string \<times> string \<times> http_out \<Rightarrow> bool" where
  "sent_ok env s br e =
     (case e of (tid, host, q) \<Rightarrow>
        tid = hx_tenant br \<and> ho_method q \<in> set (methods_by_action (http_action (hx_action br)))
        \<and> fst (he_url env (ho_url q)) = ''https'' \<and> (\<exists>h. snd (he_url env (ho_url q)) = Some h \<and> host = lower h)
        \<and> (ho_method q \<in> set READ_METHODS \<longrightarrow> ho_body q = NoBody)
        \<and> (case ho_body q of NoBody \<Rightarrow> True | RawBody t \<Rightarrow> \<not> request_too_large s (he_utf8 env t)
           | JsonBody j \<Rightarrow> \<not> request_too_large s (he_json_size env j)))"

lemma planned_ok:
  assumes "plan_request env s br rpc = Inr (host, q)"
  shows "sent_ok env s br (hx_tenant br, host, q)"
proof -
  define meth where "meth = upper (strip (py_str (py_or (vget rpc ''method'') (VStr ''GET''))))"
  define url where "url = strip (py_str (py_or (vget rpc ''url'') (VStr [])))"
  obtain headers body where b: "validate_request env (hx_action br) meth url = Inr host" "build_body env s meth rpc = Inr body"
    and q: "q = \<lparr>ho_method = meth, ho_url = url, ho_headers = headers, ho_params = as_doc (vget rpc ''params''), ho_body = body\<rparr>"
    using assms by (auto simp: plan_request_def Let_def meth_def [symmetric] url_def [symmetric] split: sum.splits)
  have "meth \<in> set (methods_by_action (http_action (hx_action br)))" "fst (he_url env url) = ''https''"
    "\<exists>h. snd (he_url env url) = Some h \<and> host = lower h"
    using b(1) by (auto simp: validate_request_def split: if_splits option.splits)
  moreover have "(meth \<in> set READ_METHODS \<longrightarrow> body = NoBody) \<and> (case body of NoBody \<Rightarrow> True | RawBody t \<Rightarrow> \<not> request_too_large s (he_utf8 env t)
      | JsonBody j \<Rightarrow> \<not> request_too_large s (he_json_size env j))"
    using b(2) by (auto simp: build_body_def Let_def split: if_splits pyval.splits)
  ultimately show ?thesis by (simp add: sent_ok_def q)
qed

lemma put_breaker_simps [simp]:
  "hs_calls (put_breaker t h b st) = hs_calls st" "hs_sent (put_breaker t h b st) = hs_sent st"
  "breaker_of (put_breaker t h b st) t' h' = (if t' = t \<and> h' = h then b else breaker_of st t' h')"
  by (auto simp: put_breaker_def breaker_of_def)

lemma meter_request_simps [simp]:
  "hs_calls (meter_request env s now br h r st) = hs_calls st" "hs_sent (meter_request env s now br h r st) = hs_sent st"
  "breaker_of (meter_request env s now br h r st) t' h' = breaker_of st t' h'"
  by (simp_all add: meter_request_def breaker_of_def)

lemma breaker_of_update [simp]:
  "breaker_of (st\<lparr>hs_sent := x\<rparr>) t h = breaker_of st t h" "breaker_of (st\<lparr>hs_calls := n\<rparr>) t h = breaker_of st t h"
  by (simp_all add: breaker_of_def)

lemma send_effect:
  shows "hs_calls (snd (send_planned env s now br host q st)) = hs_calls st"
    and "hs_sent (snd (send_planned env s now br host q st)) =
       (if hb_is_open s (breaker_of st (hx_tenant br) host) now then hs_sent st else hs_sent st @ [(hx_tenant br, host, q)])"
    and "(t, h) \<noteq> (hx_tenant br, host) \<Longrightarrow> breaker_of (snd (send_planned env s now br host q st)) t h = breaker_of st t h"
  by (auto simp: send_planned_def Let_def split: send_outcome.split sum.split)

definition http_ok :: "http_env \<Rightarrow> settings \<Rightarrow> http_bridge \<Rightarrow> http_state \<Rightarrow> bool" where
  "http_ok env s br st =
     ((\<forall>e\<in>set (hs_sent st). sent_ok env s br e) \<and> length (hs_sent st) \<le> hs_calls st
      \<and> (0 < cfg_sandbox_http_max_calls_per_invocation s \<longrightarrow> int (hs_calls st) \<le> cfg_sandbox_http_max_calls_per_invocation s))"

lemma http_handle_ok:
  assumes "http_ok env s br st"
  shows "http_ok env s br (snd (http_handle env s now br rpc st))"
proof (cases "plan_request env s br rpc")
  case (Inl k)
  then show ?thesis using assms by (auto simp: http_handle_def http_ok_def)
next
  case (Inr hq)
  obtain host q where hq: "hq = (host, q)" by (cases hq)
  have "sent_ok env s br (hx_tenant br, host, q)" using planned_ok Inr hq by simp
  then show ?thesis using assms Inr hq by (auto simp: http_handle_def http_ok_def send_effect(1,2))
qed

lemma http_session_ok:
  assumes "hs_sent st = []" and "hs_calls st = 0"
  shows "http_ok env s br (http_session env s br rpcs st)"
proof -
  have "http_ok env s br (foldl (\<lambda>st (now, rpc). snd (http_handle env s now br rpc st)) st' rpcs)" if "http_ok env s br st'" for st'
    using that by (induction rpcs arbitrary: st') (auto simp: http_handle_ok)
  moreover have "http_ok env s br st" using assms by (simp add: http_ok_def)
  ultimately show ?thesis by (simp add: http_session_def)
qed

text \<open>The HTTP bridge confines a code tool, whatever sequence of calls its program makes: every request
  that leaves is sent in the tool's own tenant over https with a method of its action class (a read
  tool only GETs and HEADs, without a body), with a body within the configured size, and no more
  requests are sent than the invocation's budget allows.\<close>
theorem http_bridge_confines:
  assumes "hs_sent st = []" and "hs_calls st = 0"
  shows "http_ok env s br (http_session env s br rpcs st)"
  by (rule http_session_ok [OF assms])

section \<open>A failing host is cut off\<close>

definition sent_to :: "string \<Rightarrow> string \<Rightarrow> http_state \<Rightarrow> nat" where
  "sent_to tid host st = length (filter (\<lambda>(t, h, q). t = tid \<and> h = host) (hs_sent st))"

lemma failing_step:
  assumes fails: "\<And>i q. he_send env i q \<in> {SendTimeout, SendFailed}" and "0 \<le> t0" and "t0 \<le> now" and "now < t0 + hb_reset s"
    and "breaker_of st (hx_tenant br) host = http_breaker.failing s hb_new ts" and "sent_to (hx_tenant br) host st = length ts"
    and "\<forall>t\<in>set ts. t0 \<le> t \<and> t \<le> now" and "length ts \<le> hb_limit s"
  shows "\<exists>ts'. breaker_of (snd (http_handle env s now br rpc st)) (hx_tenant br) host = http_breaker.failing s hb_new ts'
     \<and> sent_to (hx_tenant br) host (snd (http_handle env s now br rpc st)) = length ts'
     \<and> (\<forall>t\<in>set ts'. t0 \<le> t \<and> t \<le> now) \<and> length ts' \<le> hb_limit s"
proof -
  have same: ?thesis if "breaker_of (snd (http_handle env s now br rpc st)) (hx_tenant br) host = breaker_of st (hx_tenant br) host"
    "sent_to (hx_tenant br) host (snd (http_handle env s now br rpc st)) = sent_to (hx_tenant br) host st"
    using that assms by metis
  show ?thesis
  proof (cases "plan_request env s br rpc")
    case (Inl k)
    then show ?thesis by (intro same) (auto simp: http_handle_def sent_to_def)
  next
    case (Inr hq)
    obtain h q where hq: "hq = (h, q)" by (cases hq)
    let ?st = "st\<lparr>hs_calls := Suc (hs_calls st)\<rparr>"
    show ?thesis
    proof (cases "h = host \<and> \<not> hb_is_open s (breaker_of st (hx_tenant br) host) now
        \<and> \<not> (0 < cfg_sandbox_http_max_calls_per_invocation s \<and> cfg_sandbox_http_max_calls_per_invocation s \<le> int (hs_calls st))")
      case False
      have o: "hb_is_open s (breaker_of st (hx_tenant br) host) now \<Longrightarrow> h = host \<Longrightarrow>
          breaker_of (snd (send_planned env s now br h q ?st)) (hx_tenant br) host = breaker_of st (hx_tenant br) host"
        by (simp add: send_planned_def Let_def)
      have o2: "h \<noteq> host \<Longrightarrow>
          breaker_of (snd (send_planned env s now br h q ?st)) (hx_tenant br) host = breaker_of st (hx_tenant br) host"
        by (subst send_effect(3)) auto
      show ?thesis
      proof (cases "h = host")
        case True
        then show ?thesis by (intro same) (use True False Inr hq o in \<open>auto simp: http_handle_def sent_to_def send_effect(2)\<close>)
      next
        case ne: False
        show ?thesis by (intro same) (use ne Inr hq o2 in \<open>auto simp: http_handle_def sent_to_def send_effect(2)\<close>)
      qed
    next
      case True
      have r: "snd (http_handle env s now br rpc st) = snd (send_planned env s now br host q ?st)"
        using True Inr hq by (auto simp: http_handle_def)
      have lt: "length ts < hb_limit s"
      proof (rule ccontr)
        assume "\<not> length ts < hb_limit s"
        moreover have "0 < hb_limit s" by (simp add: hb_limit_def)
        ultimately have ne: "ts \<noteq> []" and l: "hb_limit s \<le> hb_strikes hb_new + length ts" by auto
        have "last ts \<in> set ts" using ne by simp
        then have "t0 \<le> last ts" "last ts \<le> now" using assms(7) by blast+
        then have "hb_is_open s (http_breaker.failing s hb_new ts) now"
          using http_breaker.opens_after_limit [OF l ne] assms(2,4) by fastforce
        then show False using True assms(5) by simp
      qed
      have b: "breaker_of (snd (send_planned env s now br host q ?st)) (hx_tenant br) host
          = hb_failure s (breaker_of st (hx_tenant br) host) now"
        using True fails [of "length (hs_sent st)" q] by (auto simp: send_planned_def Let_def)
      show ?thesis
      proof (intro exI conjI)
        show "breaker_of (snd (http_handle env s now br rpc st)) (hx_tenant br) host = http_breaker.failing s hb_new (ts @ [now])"
          using r b assms(5) by (simp add: http_breaker.failing_append)
        show "sent_to (hx_tenant br) host (snd (http_handle env s now br rpc st)) = length (ts @ [now])"
          using r True assms(6) by (simp add: sent_to_def send_effect(2))
        show "\<forall>t\<in>set (ts @ [now]). t0 \<le> t \<and> t \<le> now" using assms(3,7) by auto
        show "length (ts @ [now]) \<le> hb_limit s" using lt by simp
      qed
    qed
  qed
qed

text \<open>A failing host is cut off: while every request fails, a tenant's calls to one host, however many
  its tools make and whatever other hosts they call in between, send at most
  \<open>sandbox_http_breaker_failures\<close> requests within one reset period.\<close>
theorem failing_host_is_cut_off:
  assumes "\<And>i q. he_send env i q \<in> {SendTimeout, SendFailed}" and "0 \<le> t0"
    and "sorted (map fst rpcs)" and "\<forall>(t, rpc)\<in>set rpcs. t0 \<le> t \<and> t < t0 + hb_reset s"
    and "breaker_of st (hx_tenant br) host = hb_new" and "hs_sent st = []"
  shows "sent_to (hx_tenant br) host (http_session env s br rpcs st) \<le> hb_limit s"
proof -
  have "sent_to (hx_tenant br) host (foldl (\<lambda>st (now, rpc). snd (http_handle env s now br rpc st)) st' rpcs) \<le> hb_limit s"
    if "breaker_of st' (hx_tenant br) host = http_breaker.failing s hb_new ts" "sent_to (hx_tenant br) host st' = length ts"
      "length ts \<le> hb_limit s" "\<forall>t\<in>set ts. t0 \<le> t \<and> (\<forall>u\<in>set (map fst rpcs). t \<le> u)" for st' ts
    using that assms(3,4)
  proof (induction rpcs arbitrary: st' ts)
    case (Cons r rpcs)
    obtain now rpc where r: "r = (now, rpc)" by (cases r)
    have n: "t0 \<le> now" "now < t0 + hb_reset s" "\<forall>t\<in>set ts. t0 \<le> t \<and> t \<le> now" using Cons.prems r by auto
    obtain ts' where ts': "breaker_of (snd (http_handle env s now br rpc st')) (hx_tenant br) host = http_breaker.failing s hb_new ts'"
      "sent_to (hx_tenant br) host (snd (http_handle env s now br rpc st')) = length ts'"
      "\<forall>t\<in>set ts'. t0 \<le> t \<and> t \<le> now" "length ts' \<le> hb_limit s"
      using failing_step [OF assms(1,2) n(1,2) Cons.prems(1,2) n(3) Cons.prems(3), of rpc] by blast
    have "\<forall>u\<in>set (map fst rpcs). now \<le> u" using Cons.prems(5) r by simp
    then have "\<forall>t\<in>set ts'. t0 \<le> t \<and> (\<forall>u\<in>set (map fst rpcs). t \<le> u)" using ts'(3) by fastforce
    from Cons.IH [OF ts'(1,2,4) this] show ?case using Cons.prems(5,6) r by simp
  qed simp
  from this [of st "[]"] show ?thesis using assms(5,6) by (simp add: http_session_def sent_to_def)
qed

text \<open>The guest cannot name a host header directly, but through \<open>auth\<close> it can.\<close>
lemma guest_sets_no_host: "(k, v) \<in> set (guest_headers raw) \<Longrightarrow> lower k \<noteq> ''host''"
proof -
  have "lower k \<noteq> ''host''" if "(k, v) \<in> set (foldl (\<lambda>acc kv. if lower (fst kv) = ''host'' then acc else dput (fst kv) (py_str (snd kv)) acc) acc d)"
    "\<forall>(k, v)\<in>set acc. lower k \<noteq> ''host''" for k v acc and d :: doc
    using that
  proof (induction d arbitrary: acc)
    case (Cons kv d)
    show ?case
    proof (cases "lower (fst kv) = ''host''")
      case True
      then show ?thesis using Cons by simp
    next
      case False
      have "\<forall>(k, v)\<in>set (dput (fst kv) (py_str (snd kv)) acc). lower k \<noteq> ''host''"
      proof safe
        fix a b
        assume m: "(a, b) \<in> set (dput (fst kv) (py_str (snd kv)) acc)" and h: "lower a = ''host''"
        have "a \<in> set (map fst (dput (fst kv) (py_str (snd kv)) acc))" using m by force
        then have "a = fst kv \<or> a \<in> fst ` set acc" by (auto simp: dput_def update_keys split: if_splits)
        then show False using h False Cons.prems(2) by auto
      qed
      then show ?thesis using Cons False by simp
    qed
  qed auto
  then show "(k, v) \<in> set (guest_headers raw) \<Longrightarrow> lower k \<noteq> ''host''"
    by (fastforce simp: guest_headers_def split: pyval.splits)
qed

lemma auth_sets_host:
  "build_headers [(''K'', ''evil.example'')] [(''auth'', VDict [(''key'', VStr ''K''), (''header'', VStr ''Host''), (''scheme'', VStr [])])]
   = Inr [(''Host'', ''evil.example'')]"
  by code_simp

section \<open>Witnesses\<close>

definition demo_http_env :: http_env where
  "demo_http_env = \<lparr>he_url = (\<lambda>u. (''https'', Some u)), he_send = (\<lambda>_ _. SendTimeout), he_utf8 = (\<lambda>t. int (length t)),
     he_json_size = (\<lambda>_. 0), he_month = (\<lambda>_. ''2024-01'')\<rparr>"

definition demo_http_bridge :: http_bridge where
  "demo_http_bridge = \<lparr>hx_tenant = ''acme'', hx_action = ''read'', hx_env = [], hx_server = None, hx_tool = None\<rparr>"

definition demo_http_state :: http_state where
  "demo_http_state = \<lparr>hs_breakers = [], hs_calls = 0, hs_sent = [],
     hs_meter = \<lparr>usage_counters = [], tenant_quotas = [], usage_events = []\<rparr>\<rparr>"

lemma http_bridge_confines_witness:
  "http_ok demo_http_env default_settings demo_http_bridge
     (http_session demo_http_env default_settings demo_http_bridge [(0, [(''url'', VStr ''h'')])] demo_http_state)"
  by (rule http_bridge_confines) (simp_all add: demo_http_state_def)

lemma failing_host_is_cut_off_witness:
  "sent_to ''acme'' ''h'' (http_session demo_http_env default_settings demo_http_bridge
     (replicate 100 (0, [(''url'', VStr ''h'')])) demo_http_state) \<le> hb_limit default_settings"
proof -
  have "sent_to (hx_tenant demo_http_bridge) ''h'' (http_session demo_http_env default_settings demo_http_bridge
     (replicate 100 (0, [(''url'', VStr ''h'')])) demo_http_state) \<le> hb_limit default_settings"
    by (rule failing_host_is_cut_off [where ?t0.0 = 0])
      (auto simp: demo_http_env_def demo_http_state_def breaker_of_def hb_reset_def default_settings_def map_replicate_const
        sorted_replicate)
  then show ?thesis by (simp add: demo_http_bridge_def)
qed

end
