(* ===== verification/Embeddings.thy ===== *)
theory Embeddings
  imports Settings Breaker "HOL-Library.Multiset"
begin

text \<open>\<open>services/embeddings.py\<close>: the embedding providers.  A service keeps a cache of vectors that is bounded in
  size and time, retries a failed request a bounded number of times, fails fast behind a circuit breaker
  while the provider is down, and translates texts into the request of one of five vendors and its
  response into vectors.  The HTTP transport, the clock and the decimal reader are parameters.
  Concurrent requests for one text are the subject of theory \<open>EmbedFlight\<close>.\<close>

section \<open>The vector cache\<close>

type_synonym vec = "real list"

text \<open>The ordered dictionary, oldest entry first; an entry carries its expiry.\<close>
record ttl_lru =
  tl_max :: nat
  tl_ttl :: real
  tl_items :: "(string \<times> vec \<times> real) list"

definition lru_new :: "int \<Rightarrow> real \<Rightarrow> ttl_lru" where
  "lru_new max_entries ttl_seconds = \<lparr>tl_max = nat (max 1 max_entries), tl_ttl = max 0 ttl_seconds, tl_items = []\<rparr>"

text \<open>\<open>move_to_end\<close>, and assignment followed by \<open>move_to_end\<close>.\<close>
definition at_end :: "string \<Rightarrow> vec \<times> real \<Rightarrow> (string \<times> vec \<times> real) list \<Rightarrow> (string \<times> vec \<times> real) list" where
  "at_end k x items = filter (\<lambda>e. fst e \<noteq> k) items @ [(k, x)]"

fun evict :: "nat \<Rightarrow> 'a list \<Rightarrow> 'a list" where
  "evict n [] = []"
| "evict n (x # xs) = (if length (x # xs) > n then evict n xs else x # xs)"

definition lru_get :: "string \<Rightarrow> real \<Rightarrow> ttl_lru \<Rightarrow> vec option \<times> ttl_lru" where
  "lru_get k now c =
     (case map_of (tl_items c) k of
        None \<Rightarrow> (None, c)
      | Some (v, e) \<Rightarrow>
          if now > e then (None, c\<lparr>tl_items := filter (\<lambda>e. fst e \<noteq> k) (tl_items c)\<rparr>)
          else (Some v, c\<lparr>tl_items := at_end k (v, e) (tl_items c)\<rparr>))"

definition lru_set :: "string \<Rightarrow> vec \<Rightarrow> real \<Rightarrow> ttl_lru \<Rightarrow> ttl_lru" where
  "lru_set k v now c = c\<lparr>tl_items := evict (tl_max c) (at_end k (v, now + tl_ttl c) (tl_items c))\<rparr>"

text \<open>A history of uses, each with its clock reading.\<close>
datatype lru_use = Look string real | Keep string vec real

fun use_key :: "lru_use \<Rightarrow> string" where
  "use_key (Look k t) = k"
| "use_key (Keep k v t) = k"

fun lru_step :: "ttl_lru \<Rightarrow> lru_use \<Rightarrow> ttl_lru" where
  "lru_step c (Look k t) = snd (lru_get k t c)"
| "lru_step c (Keep k v t) = lru_set k v t c"

definition lru_run :: "ttl_lru \<Rightarrow> lru_use list \<Rightarrow> ttl_lru" where
  "lru_run c us = foldl lru_step c us"

definition lru_wf :: "ttl_lru \<Rightarrow> bool" where
  "lru_wf c = (distinct (map fst (tl_items c)) \<and> length (tl_items c) \<le> tl_max c \<and> 0 < tl_max c)"

lemma evict_drop: "evict n xs = drop (length xs - n) xs"
  by (induction xs) (auto simp: Suc_diff_le)

lemma distinct_filter_fst: "distinct (map fst xs) \<Longrightarrow> distinct (map fst (filter P xs))"
  by (simp add: distinct_map_filter)

lemma at_end_distinct: "distinct (map fst items) \<Longrightarrow> distinct (map fst (at_end k x items))"
  by (auto simp: at_end_def distinct_filter_fst)

lemma at_end_length: "k \<in> fst ` set items \<Longrightarrow> length (at_end k x items) \<le> length items"
proof -
  assume "k \<in> fst ` set items"
  then have "length (filter (\<lambda>e. fst e \<noteq> k) items) < length items" by (auto simp: length_filter_less)
  then show ?thesis by (simp add: at_end_def)
qed

lemma lru_get_wf: "lru_wf c \<Longrightarrow> lru_wf (snd (lru_get k t c))"
proof (cases "map_of (tl_items c) k")
  case (Some x)
  assume wf: "lru_wf c"
  obtain v e where x: "x = (v, e)" by (cases x)
  have "k \<in> fst ` set (tl_items c)" using Some by (metis map_of_eq_None_iff option.distinct(1))
  then have "lru_wf (c\<lparr>tl_items := at_end k (v, e) (tl_items c)\<rparr>)"
    using wf at_end_length [of k "tl_items c" "(v, e)"] at_end_distinct [of "tl_items c"] by (simp add: lru_wf_def)
  moreover have "lru_wf (c\<lparr>tl_items := filter (\<lambda>e. fst e \<noteq> k) (tl_items c)\<rparr>)"
    using wf distinct_filter_fst [of "tl_items c"] le_trans [OF length_filter_le, of "tl_items c" "tl_max c"]
    unfolding lru_wf_def by simp
  ultimately show ?thesis using Some x by (simp add: lru_get_def)
qed (simp add: lru_get_def)

lemma lru_set_wf: "lru_wf c \<Longrightarrow> lru_wf (lru_set k v t c)"
  using at_end_distinct [of "tl_items c" k "(v, t + tl_ttl c)"]
  by (simp add: lru_set_def lru_wf_def evict_drop distinct_drop flip: drop_map)

lemma lru_step_wf: "lru_wf c \<Longrightarrow> lru_wf (lru_step c u)"
  by (cases u) (simp_all add: lru_get_wf lru_set_wf)

lemma lru_limits [simp]: "tl_max (lru_step c u) = tl_max c" "tl_ttl (lru_step c u) = tl_ttl c"
  by (cases u; auto simp: lru_get_def lru_set_def split: option.split prod.split)+

lemma lru_run_simps [simp]: "lru_run c [] = c" "lru_run c (u # us) = lru_run (lru_step c u) us"
  "lru_run c (us @ [u]) = lru_step (lru_run c us) u"
  by (simp_all add: lru_run_def)

lemma lru_run_wf: "lru_wf c \<Longrightarrow> lru_wf (lru_run c us)"
  by (induction us arbitrary: c) (simp_all add: lru_step_wf)

lemma lru_run_limits [simp]: "tl_max (lru_run c us) = tl_max c" "tl_ttl (lru_run c us) = tl_ttl c"
  by (induction us arbitrary: c) simp_all

lemma lru_new_wf: "lru_wf (lru_new n t)"
  by (simp add: lru_wf_def lru_new_def)

subsection \<open>What is served was kept\<close>

lemma at_end_item: "e \<in> set (at_end k x items) \<Longrightarrow> e = (k, x) \<or> e \<in> set items"
  by (auto simp: at_end_def)

lemma lru_step_items:
  assumes "(k, v, e) \<in> set (tl_items (lru_step c u))"
  shows "(k, v, e) \<in> set (tl_items c) \<or> (\<exists>t. u = Keep k v t \<and> e = t + tl_ttl c)"
proof (cases u)
  case (Look j t)
  then show ?thesis using assms
    by (auto simp: lru_get_def dest!: at_end_item split: option.splits if_splits dest: map_of_SomeD)
next
  case (Keep j w t)
  then show ?thesis using assms
    by (auto simp: lru_set_def evict_drop dest!: in_set_dropD at_end_item)
qed

lemma lru_run_items:
  "(k, v, e) \<in> set (tl_items (lru_run c us)) \<Longrightarrow>
     (k, v, e) \<in> set (tl_items c) \<or> (\<exists>t. Keep k v t \<in> set us \<and> e = t + tl_ttl c)"
proof (induction us arbitrary: c)
  case (Cons u us)
  from Cons.IH [of "lru_step c u"] Cons.prems show ?case using lru_step_items [of k v e c u] by auto
qed simp

lemma lru_get_item: "fst (lru_get k now c) = Some v \<Longrightarrow> \<exists>e. (k, v, e) \<in> set (tl_items c) \<and> now \<le> e"
  by (auto simp: lru_get_def not_less split: option.splits if_splits) (blast dest: map_of_SomeD)

text \<open>Whatever the history, the cache never holds more than its bound, and a vector it serves was stored
  for that very text no longer ago than the time to live.\<close>
lemma lru_bounded_and_fresh:
  assumes "fst (lru_get k now (lru_run (lru_new n ttl) us)) = Some v"
  shows "\<exists>t. Keep k v t \<in> set us \<and> now \<le> t + max 0 ttl"
proof -
  obtain e where "(k, v, e) \<in> set (tl_items (lru_run (lru_new n ttl) us))" "now \<le> e"
    using lru_get_item [OF assms] by blast
  with lru_run_items [of k v e "lru_new n ttl" us] show ?thesis by (auto simp: lru_new_def)
qed

lemma lru_bounded: "length (tl_items (lru_run (lru_new n ttl) us)) \<le> nat (max 1 n)"
  using lru_run_wf [OF lru_new_wf, of n ttl us] by (simp add: lru_wf_def lru_new_def)

subsection \<open>What is in use is kept\<close>

text \<open>The entry of a text and after it, towards the young end, only texts of a set.\<close>
definition young :: "string \<Rightarrow> vec \<times> real \<Rightarrow> string set \<Rightarrow> ttl_lru \<Rightarrow> bool" where
  "young k x T c = (\<exists>older younger. tl_items c = older @ (k, x) # younger \<and> fst ` set younger \<subseteq> T)"

lemma youngI: "tl_items c = older @ (k, x) # younger \<Longrightarrow> fst ` set younger \<subseteq> T \<Longrightarrow> young k x T c"
  by (auto simp: young_def)

lemma map_of_skip: "k \<notin> fst ` set a \<Longrightarrow> map_of (a @ (k, x) # b) k = Some x"
  by (induction a) auto

lemma young_at_end:
  assumes "tl_items c = a @ (k, x) # b" and "fst ` set b \<subseteq> T" and "j \<in> T" and "j \<noteq> k"
  shows "at_end j y (tl_items c) = filter (\<lambda>e. fst e \<noteq> j) a @ (k, x) # (filter (\<lambda>e. fst e \<noteq> j) b @ [(j, y)])"
    and "fst ` set (filter (\<lambda>e. fst e \<noteq> j) b @ [(j, y)]) \<subseteq> T"
  using assms by (auto simp: at_end_def)

lemma young_look:
  assumes "young k (v, e) T c" and "lru_wf c" and "j \<in> insert k T" and "j = k \<longrightarrow> now \<le> e"
  shows "young k (v, e) T (snd (lru_get j now c))"
proof -
  obtain a b where ab: "tl_items c = a @ (k, v, e) # b" "fst ` set b \<subseteq> T" using assms(1) by (auto simp: young_def)
  show ?thesis
  proof (cases "j = k")
    case True
    have "k \<notin> fst ` set a" using assms(2) ab(1) by (auto simp: lru_wf_def)
    then have "map_of (tl_items c) k = Some (v, e)" using ab(1) by (simp add: map_of_skip del: map_of_append)
    then show ?thesis using True assms(4) by (fastforce simp: lru_get_def young_def at_end_def)
  next
    case False
    then have "filter (\<lambda>e. fst e \<noteq> j) (tl_items c) = filter (\<lambda>e. fst e \<noteq> j) a @ (k, v, e) # filter (\<lambda>e. fst e \<noteq> j) b"
      using ab(1) by simp
    moreover have "fst ` set (filter (\<lambda>e. fst e \<noteq> j) b) \<subseteq> T" using ab(2) by auto
    moreover have "tl_items (c\<lparr>tl_items := filter (\<lambda>e. fst e \<noteq> j) (tl_items c)\<rparr>) = filter (\<lambda>e. fst e \<noteq> j) (tl_items c)"
      by simp
    ultimately have gone: "young k (v, e) T (c\<lparr>tl_items := filter (\<lambda>e. fst e \<noteq> j) (tl_items c)\<rparr>)"
      using youngI by metis
    have moved: "young k (v, e) T (c\<lparr>tl_items := at_end j y (tl_items c)\<rparr>)" for y
    proof -
      have j: "j \<in> T" using False assms(3) by simp
      have "tl_items (c\<lparr>tl_items := at_end j y (tl_items c)\<rparr>) = at_end j y (tl_items c)" by simp
      also note young_at_end(1) [OF ab j False]
      finally show ?thesis by (rule youngI) (rule young_at_end(2) [OF ab j False])
    qed
    show ?thesis using gone moved assms(1) by (auto simp: lru_get_def split: option.split)
  qed
qed

lemma drop_prefix: "n \<le> length xs \<Longrightarrow> drop n (xs @ ys) = drop n xs @ ys"
  by simp

lemma room_after:
  assumes "distinct (map fst b)" and "fst ` set b \<subseteq> T" and "finite T" and "card T < n"
  shows "length (a @ x # b) - n \<le> length a"
proof -
  have "length b = card (fst ` set b)" by (metis assms(1) distinct_card length_map set_map)
  also have "\<dots> \<le> card T" using assms(2,3) by (rule card_mono [rotated])
  finally show ?thesis using assms(4) by simp
qed

lemma young_keep:
  assumes "young k x T c" and "j \<in> T" and "j \<noteq> k" and "finite T" and "card T < tl_max c" and "lru_wf c"
  shows "young k x T (lru_set j w now c)"
proof -
  define y where "y = (w, now + tl_ttl c)"
  obtain a b where ab: "tl_items c = a @ (k, x) # b" "fst ` set b \<subseteq> T" using assms(1) by (auto simp: young_def)
  define a' b' where ab': "a' = filter (\<lambda>e. fst e \<noteq> j) a" "b' = filter (\<lambda>e. fst e \<noteq> j) b @ [(j, y)]"
  note e = young_at_end [OF ab assms(2,3), of y, folded ab']
  have "distinct (map fst (at_end j y (tl_items c)))"
    by (rule at_end_distinct) (use assms(6) in \<open>simp add: lru_wf_def\<close>)
  then have "distinct (map fst b')" unfolding e(1) by simp
  from room_after [OF this e(2) assms(4,5)] have short: "length (a' @ (k, x) # b') - tl_max c \<le> length a'" .
  have "tl_items (lru_set j w now c) = evict (tl_max c) (a' @ (k, x) # b')"
    unfolding e(1) [symmetric] by (simp add: lru_set_def y_def)
  also have "\<dots> = drop (length (a' @ (k, x) # b') - tl_max c) a' @ (k, x) # b'"
    unfolding evict_drop by (rule drop_prefix [OF short])
  finally show ?thesis using e(2) by (rule youngI)
qed

lemma young_run:
  assumes "young k (v, e) T c" and "lru_wf c" and "finite T" and "card T < tl_max c"
    and "\<forall>u\<in>set us. (case u of Look j t \<Rightarrow> j \<in> insert k T \<and> (j = k \<longrightarrow> t \<le> e) | Keep j w t \<Rightarrow> j \<in> T \<and> j \<noteq> k)"
  shows "young k (v, e) T (lru_run c us)"
  using assms
proof (induction us arbitrary: c)
  case (Cons u us)
  have "young k (v, e) T (lru_step c u)"
    using Cons.prems young_look young_keep by (cases u) auto
  moreover have "lru_wf (lru_step c u)" using Cons.prems(2) by (rule lru_step_wf)
  ultimately show ?case using Cons.IH [of "lru_step c u"] Cons.prems by simp
qed simp

lemma young_set: "lru_wf c \<Longrightarrow> young k (v, now + tl_ttl c) T (lru_set k v now c)"
proof -
  assume wf: "lru_wf c"
  let ?f = "filter (\<lambda>e. fst e \<noteq> k) (tl_items c)"
  have "evict (tl_max c) (?f @ [(k, v, now + tl_ttl c)]) = drop (Suc (length ?f) - tl_max c) ?f @ [(k, v, now + tl_ttl c)]"
    using wf by (auto simp: evict_drop lru_wf_def Suc_diff_le)
  then have "tl_items (lru_set k v now c) = drop (Suc (length ?f) - tl_max c) ?f @ (k, v, now + tl_ttl c) # []"
    by (simp add: lru_set_def at_end_def)
  then show ?thesis unfolding young_def by fastforce
qed

lemma young_get:
  assumes "young k (v, e) T c" and "lru_wf c" and "now \<le> e"
  shows "fst (lru_get k now c) = Some v"
proof -
  obtain a b where ab: "tl_items c = a @ (k, v, e) # b" using assms(1) by (auto simp: young_def)
  then have "k \<notin> fst ` set a" using assms(2) by (auto simp: lru_wf_def)
  then have "map_of (tl_items c) k = Some (v, e)" using ab by (simp add: map_of_skip del: map_of_append)
  then show ?thesis using assms(3) by (simp add: lru_get_def)
qed

text \<open>The vector cache is a least-recently-used cache: a stored vector is found again, at any time within
  the time to live, as long as fewer other texts than the cache has room for were looked up or
  stored in between, whatever the cache held before.\<close>
theorem recent_vector_is_found:
  assumes "lru_wf c" and "now \<le> t + tl_ttl c" and "\<forall>u\<in>set us. \<forall>w s. u \<noteq> Keep k w s"
    and "\<forall>s. Look k s \<in> set us \<longrightarrow> s \<le> now" and "card (use_key ` set us - {k}) < tl_max c"
  shows "fst (lru_get k now (lru_run (lru_set k v t c) us)) = Some v"
proof -
  let ?T = "use_key ` set us - {k}"
  have wf: "lru_wf (lru_set k v t c)" using lru_step_wf [OF assms(1), of "Keep k v t"] by simp
  have "\<forall>u\<in>set us. (case u of Look j s \<Rightarrow> j \<in> insert k ?T \<and> (j = k \<longrightarrow> s \<le> t + tl_ttl c) | Keep j w s \<Rightarrow> j \<in> ?T \<and> j \<noteq> k)"
  proof
    fix u
    assume u: "u \<in> set us"
    then have "use_key u \<in> use_key ` set us" by simp
    then show "case u of Look j s \<Rightarrow> j \<in> insert k ?T \<and> (j = k \<longrightarrow> s \<le> t + tl_ttl c) | Keep j w s \<Rightarrow> j \<in> ?T \<and> j \<noteq> k"
      using u assms(2-4) by (cases u) fastforce+
  qed
  moreover have "card ?T < tl_max (lru_set k v t c)" using assms(5) by (simp add: lru_set_def)
  ultimately have "young k (v, t + tl_ttl c) ?T (lru_run (lru_set k v t c) us)"
    using young_run [OF young_set [OF assms(1)] wf] by simp
  from young_get [OF this lru_run_wf [OF wf] assms(2)] show ?thesis .
qed

section \<open>The providers\<close>

text \<open>\<open>EmbeddingConfig\<close> of \<open>services/embedding_config.py\<close>: the resolved configuration, its key in clear.\<close>
record embedding_config =
  ec_provider :: string
  ec_model :: string
  ec_base_url :: "string option"
  ec_dimensions :: int
  ec_api_key :: string
  ec_azure_endpoint :: "string option"
  ec_azure_api_version :: string
  ec_azure_deployment :: "string option"
  ec_updated_at :: "real option"
  ec_updated_by :: "string option"
  ec_source :: string

text \<open>A configured service: model or deployment, key, base URL or endpoint (Azure: and API version), dimensions.\<close>
datatype embed_service =
    Ollama string string int
  | OpenAI string string string int
  | AzureOpenAI string string string string int
  | Voyage string string string int
  | Gemini string string string int

fun model_id :: "embed_service \<Rightarrow> string" where
  "model_id (Ollama m b d) = m"
| "model_id (OpenAI m k b d) = m"
| "model_id (AzureOpenAI m k e v d) = ''azure/'' @ m"
| "model_id (Voyage m k b d) = m"
| "model_id (Gemini m k b d) = m"

fun dimensions :: "embed_service \<Rightarrow> int" where
  "dimensions (Ollama m b d) = d"
| "dimensions (OpenAI m k b d) = d"
| "dimensions (AzureOpenAI m k e v d) = d"
| "dimensions (Voyage m k b d) = d"
| "dimensions (Gemini m k b d) = d"

definition embedding_version_for :: "embed_service \<Rightarrow> string" where
  "embedding_version_for svc = model_id svc @ '':'' @ int_str (dimensions svc)"

definition SUPPORTED_PROVIDERS :: "string list" where
  "SUPPORTED_PROVIDERS = [''ollama'', ''openai'', ''azure_openai'', ''voyage'', ''gemini'']"

definition PROVIDER_DEFAULT_MODELS :: "(string \<times> string) list" where
  "PROVIDER_DEFAULT_MODELS = [(''ollama'', ''nomic-embed-text''), (''openai'', ''text-embedding-3-small''),
     (''azure_openai'', []), (''voyage'', ''voyage-3''), (''gemini'', ''text-embedding-004'')]"

text \<open>\<open>a or b\<close> on texts.\<close>
definition or_text :: "string \<Rightarrow> string \<Rightarrow> string" where
  "or_text a b = (if a = [] then b else a)"

definition opt_or :: "string option \<Rightarrow> string \<Rightarrow> string" where
  "opt_or a b = (case a of Some x \<Rightarrow> or_text x b | None \<Rightarrow> b)"

definition trim_slash :: "string \<Rightarrow> string" where
  "trim_slash u = rstrip_char (CHR ''/'') u"

text \<open>None: the provider is not supported (\<open>ValueError\<close>).\<close>
definition build_provider_service :: "settings \<Rightarrow> embedding_config \<Rightarrow> embed_service option" where
  "build_provider_service s c =
     (let p = ec_provider c; m = ec_model c; k = ec_api_key c; d = ec_dimensions c in
      if p = ''ollama'' then
        Some (Ollama (or_text m (cfg_ollama_model s)) (trim_slash (opt_or (ec_base_url c) (cfg_ollama_base_url s)))
               (if d = 0 then cfg_ollama_dimensions s else d))
      else if p = ''openai'' then Some (OpenAI m k (trim_slash (opt_or (ec_base_url c) ''https://api.openai.com/v1'')) d)
      else if p = ''azure_openai'' then
        Some (AzureOpenAI (opt_or (ec_azure_deployment c) m) k (trim_slash (opt_or (ec_azure_endpoint c) []))
               (or_text (ec_azure_api_version c) ''2023-05-15'') d)
      else if p = ''voyage'' then Some (Voyage m k (trim_slash (opt_or (ec_base_url c) ''https://api.voyageai.com/v1'')) d)
      else if p = ''gemini'' then
        Some (Gemini m k (trim_slash (opt_or (ec_base_url c) ''https://generativelanguage.googleapis.com/v1beta'')) d)
      else None)"

record post_request =
  pq_url :: string
  pq_headers :: "(string \<times> string) list"
  pq_json :: doc

definition texts_value :: "string list \<Rightarrow> pyval" where
  "texts_value ts = VList (map VStr ts)"

definition model_path :: "string \<Rightarrow> string" where
  "model_path m = (if startswith m ''models/'' then m else ''models/'' @ m)"

text \<open>The request a provider is sent; None: a setting it needs is missing (\<open>ValueError\<close>).\<close>
fun embed_request :: "embed_service \<Rightarrow> string list \<Rightarrow> post_request option" where
  "embed_request (Ollama m b d) ts =
     Some \<lparr>pq_url = b @ ''/api/embed'', pq_headers = [],
           pq_json = [(''model'', VStr m), (''input'', texts_value ts), (''truncate'', VBool True)]
             @ (if d \<noteq> 0 then [(''dimensions'', VInt d)] else [])\<rparr>"
| "embed_request (OpenAI m k b d) ts =
     (if k = [] then None
      else Some \<lparr>pq_url = b @ ''/embeddings'', pq_headers = [(''Authorization'', ''Bearer '' @ k)],
                 pq_json = [(''model'', VStr m), (''input'', texts_value ts)]\<rparr>)"
| "embed_request (AzureOpenAI m k e v d) ts =
     (if k = [] \<or> e = [] \<or> m = [] then None
      else Some \<lparr>pq_url = e @ ''/openai/deployments/'' @ m @ ''/embeddings?api-version='' @ v,
                 pq_headers = [(''api-key'', k)], pq_json = [(''input'', texts_value ts)]\<rparr>)"
| "embed_request (Voyage m k b d) ts =
     (if k = [] then None
      else Some \<lparr>pq_url = b @ ''/embeddings'', pq_headers = [(''Authorization'', ''Bearer '' @ k)],
                 pq_json = [(''model'', VStr m), (''input'', texts_value ts)]\<rparr>)"
| "embed_request (Gemini m k b d) ts =
     (if k = [] then None
      else Some \<lparr>pq_url = b @ ''/'' @ model_path m @ '':batchEmbedContents'', pq_headers = [(''x-goog-api-key'', k)],
                 pq_json = [(''requests'', VList (map (\<lambda>t. VDict [(''model'', VStr (model_path m)),
                   (''content'', VDict [(''parts'', VList [VDict [(''text'', VStr t)]])])]) ts))]\<rparr>)"

section \<open>Reading a response\<close>

text \<open>\<open>float(v)\<close>; the reader of decimal texts is a parameter.\<close>
definition py_float :: "(string \<Rightarrow> real option) \<Rightarrow> pyval \<Rightarrow> real option" where
  "py_float rd v = (case v of VStr t \<Rightarrow> rd t | _ \<Rightarrow> num_of v)"

definition float_row :: "(string \<Rightarrow> real option) \<Rightarrow> pyval list \<Rightarrow> vec option" where
  "float_row rd vs = those (map (py_float rd) vs)"

definition item_index :: "pyval \<Rightarrow> pyval" where
  "item_index v = (case v of VDict d \<Rightarrow> vget_or d ''index'' (VInt 0) | _ \<Rightarrow> VInt 0)"

text \<open>\<open>sorted\<close> by index, stable; None: the indices do not compare (\<open>TypeError\<close>).\<close>
definition sort_items :: "pyval list \<Rightarrow> pyval list option" where
  "sort_items xs =
     (if length xs \<le> 1 then Some xs
      else if list_all (\<lambda>x. num_of (item_index x) \<noteq> None) xs then Some (sort_key (\<lambda>x. the (num_of (item_index x))) xs)
      else if list_all (\<lambda>x. is_str (item_index x)) xs then Some (sort_key (\<lambda>x. py_str (item_index x)) xs)
      else None)"

definition item_field :: "string \<Rightarrow> pyval \<Rightarrow> pyval list option" where
  "item_field f v = (case v of VDict d \<Rightarrow> as_list (vget d f) | _ \<Rightarrow> None)"

definition data_embeddings :: "(string \<Rightarrow> real option) \<Rightarrow> doc \<Rightarrow> vec list option" where
  "data_embeddings rd body =
     (case vget body ''data'' of
        VList data \<Rightarrow> Option.bind (sort_items data)
          (\<lambda>items. those (map (\<lambda>v. Option.bind (item_field ''embedding'' v) (float_row rd)) items))
      | _ \<Rightarrow> None)"

text \<open>A row of Ollama's answer is iterated: texts by characters, objects by keys.\<close>
definition ollama_row :: "(string \<Rightarrow> real option) \<Rightarrow> pyval \<Rightarrow> vec option" where
  "ollama_row rd v =
     (case v of VList xs \<Rightarrow> float_row rd xs | VStr t \<Rightarrow> float_row rd (map (\<lambda>c. VStr [c]) t)
      | VDict d \<Rightarrow> float_row rd (map (\<lambda>kv. VStr (fst kv)) d) | _ \<Rightarrow> None)"

fun read_response :: "(string \<Rightarrow> real option) \<Rightarrow> embed_service \<Rightarrow> doc \<Rightarrow> vec list option" where
  "read_response rd (Ollama m b d) body =
     (case vget body ''embeddings'' of VList rows \<Rightarrow> those (map (ollama_row rd) rows) | _ \<Rightarrow> None)"
| "read_response rd (Gemini m k b d) body =
     (case vget body ''embeddings'' of
        VList items \<Rightarrow> those (map (\<lambda>v. Option.bind (item_field ''values'' v) (float_row rd)) items) | _ \<Rightarrow> None)"
| "read_response rd _ body = data_embeddings rd body"

section \<open>The transport\<close>

text \<open>\<open>ee_post n q\<close>: how the n-th attempt's request ends: the decoded JSON body, or None where sending, the
  status check or the decoding raised.\<close>
record embed_env =
  ee_post :: "nat \<Rightarrow> post_request \<Rightarrow> pyval option"
  ee_float :: "string \<Rightarrow> real option"

record embed_state =
  es_cache :: ttl_lru
  es_open_until :: real
  es_strikes :: nat
  es_attempts :: nat
  es_sent :: "post_request list"

datatype embed_exc = CircuitOpen | RequestFailed

definition embed_new :: "settings \<Rightarrow> embed_state" where
  "embed_new s = \<lparr>es_cache = lru_new (cfg_embedding_cache_max_entries s) (of_int (cfg_embedding_cache_ttl_seconds s)),
     es_open_until = 0, es_strikes = 0, es_attempts = 0, es_sent = []\<rparr>"

definition reset_circuit_breaker :: "embed_state \<Rightarrow> embed_state" where
  "reset_circuit_breaker st = st\<lparr>es_open_until := 0, es_strikes := 0\<rparr>"

definition embed_is_open :: "embed_state \<Rightarrow> real \<Rightarrow> bool" where
  "embed_is_open st now = (now < es_open_until st)"

definition embed_success :: "embed_state \<Rightarrow> embed_state" where
  "embed_success st = st\<lparr>es_strikes := 0\<rparr>"

definition embed_failure :: "settings \<Rightarrow> embed_state \<Rightarrow> real \<Rightarrow> embed_state" where
  "embed_failure s st now =
     (let st' = st\<lparr>es_strikes := Suc (es_strikes st)\<rparr>
      in if cfg_embedding_circuit_failures s \<le> int (es_strikes st')
         then st'\<lparr>es_open_until := now + of_int (cfg_embedding_circuit_reset_seconds s)\<rparr> else st')"

interpretation embed_breaker: breaker
  embed_is_open "embed_failure s" embed_success es_strikes "nat (cfg_embedding_circuit_failures s)"
  "of_int (cfg_embedding_circuit_reset_seconds s)" for s
  by unfold_locales (auto simp: embed_is_open_def embed_failure_def embed_success_def Let_def)

definition request_embeddings :: "embed_env \<Rightarrow> embed_service \<Rightarrow> string list \<Rightarrow> embed_state \<Rightarrow> vec list option \<times> embed_state" where
  "request_embeddings env svc ts st =
     (let st1 = st\<lparr>es_attempts := Suc (es_attempts st)\<rparr> in
      case embed_request svc ts of
        None \<Rightarrow> (None, st1)
      | Some q \<Rightarrow>
          (case ee_post env (es_attempts st) q of
             Some (VDict body) \<Rightarrow> (read_response (ee_float env) svc body, st1\<lparr>es_sent := es_sent st @ [q]\<rparr>)
           | _ \<Rightarrow> (None, st1\<lparr>es_sent := es_sent st @ [q]\<rparr>)))"

text \<open>The retry loop with \<open>k\<close> attempts left; \<open>clk i\<close> is the clock when the call's i-th attempt has failed.\<close>
primrec embed_attempts ::
  "embed_env \<Rightarrow> settings \<Rightarrow> embed_service \<Rightarrow> (nat \<Rightarrow> real) \<Rightarrow> string list \<Rightarrow> nat \<Rightarrow> nat \<Rightarrow> embed_state
   \<Rightarrow> (embed_exc + vec list) \<times> embed_state" where
  "embed_attempts env s svc clk ts i 0 st = (Inl RequestFailed, st)"
| "embed_attempts env s svc clk ts i (Suc k) st =
     (case request_embeddings env svc ts st of
        (r, st1) \<Rightarrow>
          if r \<noteq> None \<and> r \<noteq> Some [] then (Inr (the r), embed_success st1)
          else embed_attempts env s svc clk ts (Suc i) k (embed_failure s st1 (clk i)))"

definition embed_texts ::
  "embed_env \<Rightarrow> settings \<Rightarrow> embed_service \<Rightarrow> real \<Rightarrow> (nat \<Rightarrow> real) \<Rightarrow> string list \<Rightarrow> embed_state
   \<Rightarrow> (embed_exc + vec list) \<times> embed_state" where
  "embed_texts env s svc now clk ts st =
     (if embed_is_open st now then (Inl CircuitOpen, st)
      else embed_attempts env s svc clk ts 0 (nat (cfg_embedding_retry_attempts s)) st)"

text \<open>One request alone; \<open>clk\<close> after the last attempt is the time the vector is stored at.\<close>
definition embed_one ::
  "embed_env \<Rightarrow> settings \<Rightarrow> embed_service \<Rightarrow> real \<Rightarrow> (nat \<Rightarrow> real) \<Rightarrow> string \<Rightarrow> embed_state
   \<Rightarrow> (embed_exc + vec) \<times> embed_state" where
  "embed_one env s svc now clk t st =
     (case lru_get t now (es_cache st) of
        (Some v, c) \<Rightarrow> (Inr v, st\<lparr>es_cache := c\<rparr>)
      | (None, c) \<Rightarrow>
          (case embed_texts env s svc now clk [t] (st\<lparr>es_cache := c\<rparr>) of
             (Inr (v # vs), st') \<Rightarrow>
               (Inr v, st'\<lparr>es_cache := lru_set t v (clk (nat (cfg_embedding_retry_attempts s))) (es_cache st')\<rparr>)
           | (Inr [], st') \<Rightarrow> (Inl RequestFailed, st')
           | (Inl x, st') \<Rightarrow> (Inl x, st')))"

definition detect_dimensions ::
  "embed_env \<Rightarrow> settings \<Rightarrow> embed_service \<Rightarrow> real \<Rightarrow> (nat \<Rightarrow> real) \<Rightarrow> embed_state \<Rightarrow> (embed_exc + int) \<times> embed_state" where
  "detect_dimensions env s svc now clk st =
     (case embed_one env s svc now clk (or_text (cfg_embedding_probe_text s) ''embedding dimension probe'') st of
        (Inl x, st') \<Rightarrow> (Inl x, st')
      | (Inr v, st') \<Rightarrow> (if v = [] then Inl RequestFailed else Inr (int (length v)), st'))"

section \<open>Vectors stay with their texts\<close>

definition data_item :: "nat \<times> vec \<Rightarrow> pyval" where
  "data_item iv = VDict [(''index'', VInt (int (fst iv))), (''embedding'', VList (map VFloat (snd iv)))]"

lemma those_map_Some: "(\<And>x. x \<in> set xs \<Longrightarrow> f x = Some (g x)) \<Longrightarrow> those (map f xs) = Some (map g xs)"
  by (induction xs) auto

lemma float_row_VFloat [simp]: "float_row rd (map VFloat v) = Some v"
  unfolding float_row_def by (subst map_map, subst those_map_Some [where g = "\<lambda>x. x"]) (simp_all add: py_float_def)

lemma data_item_simps [simp]: "num_of (item_index (data_item iv)) = Some (real (fst iv))"
  "Option.bind (item_field ''embedding'' (data_item iv)) (float_row rd) = Some (snd iv)"
  by (simp_all add: data_item_def item_index_def item_field_def as_list_def)

lemma filter_same_mset:
  assumes "mset xs = mset ys" and "distinct (map f xs)"
  shows "filter (\<lambda>x. a = f x) xs = filter (\<lambda>x. a = f x) ys"
proof -
  have m: "mset (filter (\<lambda>x. a = f x) xs) = mset (filter (\<lambda>x. a = f x) ys)" using assms(1) by simp
  have "filter (\<lambda>x. a = f x) xs = [] \<or> (\<exists>x. filter (\<lambda>x. a = f x) xs = [x])"
    using assms(2) by (induction xs) (auto simp: filter_empty_conv)
  then show ?thesis
  proof
    assume "filter (\<lambda>x. a = f x) xs = []"
    then show ?thesis using m by (metis mset_zero_iff mset.simps(1))
  next
    assume "\<exists>x. filter (\<lambda>x. a = f x) xs = [x]"
    then show ?thesis using m by (metis mset_single_iff mset_single_iff_right mset.simps)
  qed
qed

text \<open>However a provider orders the items of its answer, their \<open>index\<close> puts every vector back to its own text:
  any permutation of the items for a batch yields the vectors in the order of the texts.\<close>
theorem vectors_in_text_order:
  assumes "mset items = mset (map data_item (enumerate 0 vs))"
  shows "data_embeddings rd [(''data'', VList items)] = Some vs"
proof -
  let ?xs = "map data_item (enumerate 0 vs)" and ?f = "\<lambda>x. the (num_of (item_index x))"
  have set: "set items = set ?xs" using assms mset_eq_setD by blast
  have f: "map ?f ?xs = map real [0..<length vs]"
  proof -
    have "map ?f ?xs = map real (map fst (enumerate 0 vs))" unfolding map_map by (rule map_cong) simp_all
    also have "\<dots> = map real [0..<length vs]" by (subst map_fst_enumerate) simp
    finally show ?thesis .
  qed
  have d: "distinct (map ?f ?xs)" unfolding f by (simp add: distinct_map inj_on_def)
  have s: "sorted (map ?f ?xs)" unfolding f by (rule sorted_map_mono) (simp_all add: mono_on_def)
  have sorted: "sort_key ?f items = ?xs"
    by (rule properties_for_sort_key) (use assms s filter_same_mset [OF assms [symmetric] d] in simp_all)
  have "sort_items items = Some ?xs"
  proof (cases "length items \<le> 1")
    case True
    then have "sort_key ?f items = items" by (cases items) auto
    then show ?thesis using True sorted by (simp add: sort_items_def)
  next
    case False
    moreover have "list_all (\<lambda>x. num_of (item_index x) \<noteq> None) items" using set by (auto simp: list_all_iff)
    ultimately show ?thesis using sorted by (simp add: sort_items_def)
  qed
  moreover have "those (map (\<lambda>v. Option.bind (item_field ''embedding'' v) (float_row rd)) ?xs) = Some (map snd (enumerate 0 vs))"
    by (subst map_map, subst those_map_Some [where g = snd]) simp_all
  ultimately show ?thesis by (simp add: data_embeddings_def)
qed

lemma vectors_in_text_order_witness:
  "data_embeddings (\<lambda>_. None) [(''data'', VList [data_item (1, [2]), data_item (0, [1])])] = Some [[1], [2]]"
  by (rule vectors_in_text_order) (simp add: add_mset_commute)

lemma recent_vector_is_found_witness:
  "fst (lru_get ''a'' 3 (lru_run (lru_set ''a'' [1] 0 (lru_new 2 5)) [Keep ''b'' [2] 1, Look ''a'' 2])) = Some [1]"
  by (rule recent_vector_is_found) (simp_all add: lru_new_wf, simp_all add: lru_new_def insert_Diff_if)

section \<open>A dead provider is left alone\<close>

lemma request_fails:
  assumes "\<And>n q. ee_post env n q = None"
  shows "fst (request_embeddings env svc ts st) = None"
    and "es_attempts (snd (request_embeddings env svc ts st)) = Suc (es_attempts st)"
    and "es_strikes (snd (request_embeddings env svc ts st)) = es_strikes st"
    and "es_open_until (snd (request_embeddings env svc ts st)) = es_open_until st"
  using assms by (simp_all add: request_embeddings_def Let_def split: option.split)

text \<open>The breaker's part of the state.\<close>
definition same_breaker :: "embed_state \<Rightarrow> embed_state \<Rightarrow> bool" where
  "same_breaker a b = (es_strikes a = es_strikes b \<and> es_open_until a = es_open_until b)"

lemma same_refl: "same_breaker a a"
  by (simp add: same_breaker_def)

lemma same_failure: "same_breaker a b \<Longrightarrow> same_breaker (embed_failure s a t) (embed_failure s b t)"
  by (simp add: same_breaker_def embed_failure_def Let_def)

lemma same_open: "same_breaker a b \<Longrightarrow> embed_is_open a = embed_is_open b"
  by (simp add: same_breaker_def embed_is_open_def fun_eq_iff)

lemma embed_failure_attempts [simp]: "es_attempts (embed_failure s st t) = es_attempts st"
  by (simp add: embed_failure_def Let_def)

lemma attempts_all_fail:
  assumes "\<And>n q. ee_post env n q = None" and "same_breaker a st"
  shows "same_breaker (embed_breaker.failing s a (map clk [i..<i + k])) (snd (embed_attempts env s svc clk ts i k st))
     \<and> es_attempts (snd (embed_attempts env s svc clk ts i k st)) = es_attempts st + k"
  using assms(2)
proof (induction k arbitrary: a st i)
  case (Suc k)
  define st1 where "st1 = snd (request_embeddings env svc ts st)"
  have eq: "embed_attempts env s svc clk ts i (Suc k) st = embed_attempts env s svc clk ts (Suc i) k (embed_failure s st1 (clk i))"
    using request_fails(1) [OF assms(1), of svc ts st]
    by (cases "request_embeddings env svc ts st") (simp add: st1_def)
  have "same_breaker a st1" using Suc.prems request_fails [OF assms(1)] by (simp add: st1_def same_breaker_def)
  from Suc.IH [OF same_failure [OF this], of s "clk i" "Suc i"]
  show ?case unfolding eq using request_fails(2) [OF assms(1), of svc ts st]
    by (simp add: st1_def upt_conv_Cons del: embed_attempts.simps upt_Suc)
qed simp

text \<open>The calls of a session: the time of the call, the clock readings of its attempts, the texts.\<close>
type_synonym embed_call = "real \<times> (nat \<Rightarrow> real) \<times> string list"

definition embed_session :: "embed_env \<Rightarrow> settings \<Rightarrow> embed_service \<Rightarrow> embed_call list \<Rightarrow> embed_state \<Rightarrow> embed_state" where
  "embed_session env s svc calls st = foldl (\<lambda>st (now, clk, ts). snd (embed_texts env s svc now clk ts st)) st calls"

definition call_times :: "settings \<Rightarrow> embed_call \<Rightarrow> real list" where
  "call_times s c = map (fst (snd c)) [0..<nat (cfg_embedding_retry_attempts s)]"

lemma session_batches:
  assumes "\<And>n q. ee_post env n q = None" and "same_breaker a st"
  shows "\<exists>bs. embed_breaker.let_through s a bs \<and> es_attempts (embed_session env s svc calls st)
       = es_attempts st + length (concat (map snd bs))
     \<and> list_all2 (\<lambda>b c. fst b = fst c \<and> (snd b = [] \<or> snd b = call_times s c)) bs calls"
  using assms(2)
proof (induction calls arbitrary: a st)
  case Nil
  show ?case by (intro exI [of _ "[]"]) (simp add: embed_session_def)
next
  case (Cons c calls)
  obtain now clk ts where c: "c = (now, clk, ts)" by (cases c)
  define b where "b = (now, if embed_is_open st now then [] else call_times s c)"
  let ?st = "snd (embed_texts env s svc now clk ts st)"
  have step: "same_breaker (embed_breaker.failing s a (snd b)) ?st \<and> es_attempts ?st = es_attempts st + length (snd b)"
    using attempts_all_fail [OF assms(1) Cons.prems, of s clk 0 "nat (cfg_embedding_retry_attempts s)" svc ts] Cons.prems
    by (simp add: b_def c embed_texts_def call_times_def)
  from Cons.IH [OF conjunct1 [OF step]] obtain bs where bs: "embed_breaker.let_through s (embed_breaker.failing s a (snd b)) bs"
    "es_attempts (embed_session env s svc calls ?st) = es_attempts ?st + length (concat (map snd bs))"
    "list_all2 (\<lambda>b c. fst b = fst c \<and> (snd b = [] \<or> snd b = call_times s c)) bs calls" by blast
  have "embed_breaker.let_through s a (b # bs)" using bs(1) same_open [OF Cons.prems] by (simp add: b_def)
  moreover have "es_attempts (embed_session env s svc (c # calls) st) = es_attempts st + length (concat (map snd (b # bs)))"
    using bs(2) step by (simp add: embed_session_def c)
  ultimately show ?case using bs(3) by (intro exI [of _ "b # bs"]) (simp add: b_def c)
qed

lemma list_all2_member: "list_all2 P bs cs \<Longrightarrow> b \<in> set bs \<Longrightarrow> \<exists>c\<in>set cs. P b c"
  by (induction rule: list_all2_induct) auto

lemma sorted_thinned:
  assumes "list_all2 (\<lambda>b c. fst b = fst c \<and> (snd b = [] \<or> snd b = f c)) bs cs"
    and "sorted (concat (map (\<lambda>c. fst c # f c) cs))"
  shows "sorted (concat (map (\<lambda>b. fst b # snd b) bs))
     \<and> set (concat (map (\<lambda>b. fst b # snd b) bs)) \<subseteq> set (concat (map (\<lambda>c. fst c # f c) cs))"
  using assms
proof (induction rule: list_all2_induct)
  case (Cons b bs c cs)
  let ?R = "concat (map (\<lambda>b. fst b # snd b) bs)" and ?S = "concat (map (\<lambda>c. fst c # f c) cs)"
  have split: "sorted ((fst c # f c) @ ?S)" using Cons.prems by simp
  then have ih: "sorted ?R" "set ?R \<subseteq> set ?S" using Cons.IH unfolding sorted_append by blast+
  have "sorted (fst b # snd b)" "set (fst b # snd b) \<subseteq> set (fst c # f c)"
    using Cons.hyps(1) split by (auto simp: sorted_append)
  then have "sorted ((fst b # snd b) @ ?R)" using ih split unfolding sorted_append by blast
  then show ?case using ih Cons.hyps(1) by auto
qed simp

text \<open>A provider that is down is left alone: while every request fails, however many calls are made within one
  reset period, the attempts stay below the breaker's limit but for the ones the call that reached it
  still had left.\<close>
theorem dead_provider_is_left_alone:
  assumes "\<And>n q. ee_post env n q = None" and "es_strikes st = 0" and "0 \<le> t0"
    and "sorted (concat (map (\<lambda>c. fst c # call_times s c) calls))"
    and "\<forall>c\<in>set calls. t0 \<le> fst c \<and> fst c < t0 + of_int (cfg_embedding_circuit_reset_seconds s)
       \<and> (\<forall>t\<in>set (call_times s c). t0 \<le> t)"
  shows "es_attempts (embed_session env s svc calls st)
     \<le> es_attempts st + (nat (cfg_embedding_circuit_failures s) - 1 + nat (cfg_embedding_retry_attempts s))"
proof -
  obtain bs where bs: "embed_breaker.let_through s st bs"
    "es_attempts (embed_session env s svc calls st) = es_attempts st + length (concat (map snd bs))"
    "list_all2 (\<lambda>b c. fst b = fst c \<and> (snd b = [] \<or> snd b = call_times s c)) bs calls"
    using session_batches [OF assms(1) same_refl] by blast
  have "\<forall>b\<in>set bs. fst b < t0 + of_int (cfg_embedding_circuit_reset_seconds s)
      \<and> length (snd b) \<le> nat (cfg_embedding_retry_attempts s) \<and> (\<forall>t\<in>set (snd b). t0 \<le> t)"
  proof
    fix b
    assume "b \<in> set bs"
    then obtain c where c: "c \<in> set calls" "fst b = fst c" "snd b = [] \<or> snd b = call_times s c"
      using list_all2_member [OF bs(3)] by blast
    have l: "length (call_times s c) = nat (cfg_embedding_retry_attempts s)" by (simp add: call_times_def)
    have "\<forall>t\<in>set (call_times s c). t0 \<le> t" and u: "fst b < t0 + of_int (cfg_embedding_circuit_reset_seconds s)"
      using assms(5) c(1,2) by auto
    then have "length (snd b) \<le> nat (cfg_embedding_retry_attempts s) \<and> (\<forall>t\<in>set (snd b). t0 \<le> t)"
      using c(3) l by (elim disjE) simp_all
    with u show "fst b < t0 + of_int (cfg_embedding_circuit_reset_seconds s)
      \<and> length (snd b) \<le> nat (cfg_embedding_retry_attempts s) \<and> (\<forall>t\<in>set (snd b). t0 \<le> t)" by blast
  qed
  moreover have "sorted ([] @ concat (map (\<lambda>b. fst b # snd b) bs))"
    unfolding append_Nil by (rule conjunct1 [OF sorted_thinned [OF bs(3) assms(4)]])
  moreover have "embed_breaker.let_through s (embed_breaker.failing s st []) bs" using bs(1) by simp
  ultimately have "length ([] :: real list) + length (concat (map snd bs))
      \<le> max (length ([] :: real list)) (nat (cfg_embedding_circuit_failures s) - 1 + nat (cfg_embedding_retry_attempts s))"
    by (intro embed_breaker.failures_bounded [OF _ assms(2,3)]) simp_all
  then have "length (concat (map snd bs)) \<le> nat (cfg_embedding_circuit_failures s) - 1 + nat (cfg_embedding_retry_attempts s)"
    by simp
  then show ?thesis using bs(2) by simp
qed

lemma dead_provider_is_left_alone_witness:
  "es_attempts (embed_session \<lparr>ee_post = \<lambda>_ _. None, ee_float = \<lambda>_. None\<rparr> default_settings (Ollama ''m'' ''u'' 0)
     [(1, \<lambda>_. 2, [''x'']), (3, \<lambda>_. 4, [''y'']), (5, \<lambda>_. 6, [''z'']), (7, \<lambda>_. 8, [''w''])] (embed_new default_settings))
   \<le> es_attempts (embed_new default_settings) + (nat (cfg_embedding_circuit_failures default_settings) - 1
       + nat (cfg_embedding_retry_attempts default_settings))"
  by (rule dead_provider_is_left_alone [where ?t0.0 = 1])
    (simp_all add: embed_new_def call_times_def default_settings_def numeral_2_eq_2)

end
