(* ===== verification/EmbedFlight.thy ===== *)
theory EmbedFlight
  imports Embeddings
begin

text \<open>\<open>BaseHttpEmbeddingService.embed_text\<close> (\<open>services/embeddings.py\<close>) as concurrent requests run it.  A request for
  a text that is not cached leads, and calls the provider, unless another request for the text is in
  flight on the same event loop; then it follows, and awaits the leader's future.  The events are the
  points at which a coroutine runs: it arrives, the provider's outcome reaches the leader, a follower
  is woken, a task is cancelled.  As the event loop defines it, cancelling a task that awaits a future
  cancels the future, and the exception that cancellation raises is not an \<open>Exception\<close>: the handler of
  the leader that passes a failure on does not run for it.\<close>

section \<open>Requests and their events\<close>

datatype future = Pending | Resolved vec | Failed embed_exc | Cancelled

text \<open>Leading and Following name the text and the future.\<close>
datatype flight_request = Leading string nat | Following string nat | Returned vec | Raised embed_exc | Dropped

record flight =
  fl_cache :: ttl_lru
  fl_inflight :: "string \<rightharpoonup> nat \<times> nat"
  fl_futures :: "nat \<rightharpoonup> future"
  fl_next :: nat
  fl_tasks :: "nat \<rightharpoonup> flight_request"

text \<open>Arrive: task, event loop, text, time.  Provided: leader, time, what \<open>embed_texts\<close> came to.\<close>
datatype flight_event =
    Arrive nat nat string real
  | Provided nat real "embed_exc + vec"
  | Woken nat
  | Cancel nat

definition flight_new :: "ttl_lru \<Rightarrow> flight" where
  "flight_new c = \<lparr>fl_cache = c, fl_inflight = Map.empty, fl_futures = Map.empty, fl_next = 0, fl_tasks = Map.empty\<rparr>"

definition set_task :: "nat \<Rightarrow> flight_request \<Rightarrow> flight \<Rightarrow> flight" where
  "set_task i r st = st\<lparr>fl_tasks := (fl_tasks st)(i \<mapsto> r)\<rparr>"

definition lead :: "nat \<Rightarrow> nat \<Rightarrow> string \<Rightarrow> flight \<Rightarrow> flight" where
  "lead i l t st =
     set_task i (Leading t (fl_next st))
       (st\<lparr>fl_inflight := (fl_inflight st)(t \<mapsto> (l, fl_next st)), fl_futures := (fl_futures st)(fl_next st \<mapsto> Pending),
           fl_next := Suc (fl_next st)\<rparr>)"

definition arrive :: "nat \<Rightarrow> nat \<Rightarrow> string \<Rightarrow> real \<Rightarrow> flight \<Rightarrow> flight" where
  "arrive i l t now st =
     (case lru_get t now (fl_cache st) of
        (Some v, c) \<Rightarrow> set_task i (Returned v) (st\<lparr>fl_cache := c\<rparr>)
      | (None, c) \<Rightarrow>
          (let st1 = st\<lparr>fl_cache := c\<rparr> in
           case fl_inflight st t of
             Some (l', f) \<Rightarrow>
               if l' = l \<and> fl_futures st f = Some Pending then set_task i (Following t f) st1 else lead i l t st1
           | None \<Rightarrow> lead i l t st1))"

text \<open>\<open>if not future.done()\<close>.\<close>
definition settle :: "nat \<Rightarrow> future \<Rightarrow> flight \<Rightarrow> flight" where
  "settle f x st = (if fl_futures st f = Some Pending then st\<lparr>fl_futures := (fl_futures st)(f \<mapsto> x)\<rparr> else st)"

text \<open>The \<open>finally\<close> block.\<close>
definition forget :: "string \<Rightarrow> nat \<Rightarrow> flight \<Rightarrow> flight" where
  "forget t f st =
     (case fl_inflight st t of
        Some (_, g) \<Rightarrow> if g = f then st\<lparr>fl_inflight := (fl_inflight st)(t := None)\<rparr> else st
      | None \<Rightarrow> st)"

definition provided :: "nat \<Rightarrow> string \<Rightarrow> nat \<Rightarrow> real \<Rightarrow> embed_exc + vec \<Rightarrow> flight \<Rightarrow> flight" where
  "provided i t f now r st =
     forget t f
       (case r of
          Inr v \<Rightarrow> set_task i (Returned v) (settle f (Resolved v) (st\<lparr>fl_cache := lru_set t v now (fl_cache st)\<rparr>))
        | Inl x \<Rightarrow> set_task i (Raised x) (settle f (Failed x) st))"

definition awaited :: "future \<Rightarrow> flight_request option" where
  "awaited x = (case x of Pending \<Rightarrow> None | Resolved v \<Rightarrow> Some (Returned v) | Failed e \<Rightarrow> Some (Raised e) | Cancelled \<Rightarrow> Some Dropped)"

text \<open>One event; None where it cannot happen.\<close>
fun flight_step :: "flight_event \<Rightarrow> flight \<Rightarrow> flight option" where
  "flight_step (Arrive i l t now) st = (if fl_tasks st i = None then Some (arrive i l t now st) else None)"
| "flight_step (Provided i now r) st =
     (case fl_tasks st i of Some (Leading t f) \<Rightarrow> Some (provided i t f now r st) | _ \<Rightarrow> None)"
| "flight_step (Woken i) st =
     (case fl_tasks st i of
        Some (Following t f) \<Rightarrow>
          (case fl_futures st f of Some x \<Rightarrow> map_option (\<lambda>r. set_task i r st) (awaited x) | None \<Rightarrow> None)
      | _ \<Rightarrow> None)"
| "flight_step (Cancel i) st =
     (case fl_tasks st i of
        Some (Leading t f) \<Rightarrow> Some (forget t f (set_task i Dropped st))
      | Some (Following t f) \<Rightarrow> Some (set_task i Dropped (settle f Cancelled st))
      | _ \<Rightarrow> None)"

fun flight_run :: "flight_event list \<Rightarrow> flight \<Rightarrow> flight option" where
  "flight_run [] st = Some st"
| "flight_run (e # es) st = Option.bind (flight_step e st) (flight_run es)"

lemma flight_run_ConsE:
  assumes "flight_run (e # es) st = Some st'"
  obtains st1 where "flight_step e st = Some st1" "flight_run es st1 = Some st'"
  using assms unfolding flight_run.simps bind_eq_Some_conv by blast

lemma flight_fields [simp]:
  "fl_tasks (set_task i r st) = (fl_tasks st)(i \<mapsto> r)" "fl_futures (set_task i r st) = fl_futures st"
  "fl_inflight (set_task i r st) = fl_inflight st" "fl_next (set_task i r st) = fl_next st"
  "fl_tasks (settle f x st) = fl_tasks st" "fl_inflight (settle f x st) = fl_inflight st" "fl_next (settle f x st) = fl_next st"
  "fl_tasks (forget t f st) = fl_tasks st" "fl_futures (forget t f st) = fl_futures st" "fl_next (forget t f st) = fl_next st"
  by (simp_all add: set_task_def settle_def forget_def split: option.split)

lemma settle_futures: "fl_futures (settle f x st) g = (if g = f \<and> fl_futures st f = Some Pending then Some x else fl_futures st g)"
  by (simp add: settle_def)

section \<open>Futures and their leaders\<close>

text \<open>Futures are allocated once, and each has at most one leader.\<close>
definition flight_ok :: "flight \<Rightarrow> bool" where
  "flight_ok st =
     ((\<forall>f. (fl_futures st f \<noteq> None) = (f < fl_next st))
      \<and> (\<forall>i t f. fl_tasks st i = Some (Leading t f) \<or> fl_tasks st i = Some (Following t f) \<longrightarrow> f < fl_next st)
      \<and> (\<forall>i j t u f. fl_tasks st i = Some (Leading t f) \<longrightarrow> fl_tasks st j = Some (Leading u f) \<longrightarrow> i = j)
      \<and> (\<forall>t l f. fl_inflight st t = Some (l, f) \<longrightarrow> f < fl_next st))"

lemma lead_fields [simp]:
  "fl_tasks (lead i l t st) = (fl_tasks st)(i \<mapsto> Leading t (fl_next st))" "fl_next (lead i l t st) = Suc (fl_next st)"
  "fl_futures (lead i l t st) = (fl_futures st)(fl_next st \<mapsto> Pending)"
  "fl_inflight (lead i l t st) = (fl_inflight st)(t \<mapsto> (l, fl_next st))"
  by (simp_all add: lead_def)

text \<open>How a request can begin.\<close>
lemma arrive_cases:
  obtains (cached) v c where "arrive i l t now st = set_task i (Returned v) (st\<lparr>fl_cache := c\<rparr>)"
  | (follow) f c where "arrive i l t now st = set_task i (Following t f) (st\<lparr>fl_cache := c\<rparr>)"
      "fl_inflight st t = Some (l, f)" "fl_futures st f = Some Pending"
  | (lead) c where "arrive i l t now st = lead i l t (st\<lparr>fl_cache := c\<rparr>)"
      "\<And>f. fl_inflight st t = Some (l, f) \<Longrightarrow> fl_futures st f \<noteq> Some Pending"
proof -
  obtain r c where g: "lru_get t now (fl_cache st) = (r, c)" by (cases "lru_get t now (fl_cache st)")
  show thesis
  proof (cases r)
    case (Some v)
    then show thesis using cached [of v c] g by (simp add: arrive_def)
  next
    case None
    show thesis
    proof (cases "\<exists>f. fl_inflight st t = Some (l, f) \<and> fl_futures st f = Some Pending")
      case True
      then show thesis using follow [of _ c] g None by (auto simp: arrive_def Let_def)
    next
      case False
      have "arrive i l t now st = lead i l t (st\<lparr>fl_cache := c\<rparr>)"
        using False g None by (auto simp: arrive_def Let_def split: option.split)
      then show thesis using lead [of c] False by blast
    qed
  qed
qed

lemma step_ok:
  assumes "flight_ok st" and "flight_step e st = Some st'"
  shows "flight_ok st'"
proof (cases e)
  case (Arrive i l t now)
  then have st': "st' = arrive i l t now st" using assms(2) by (simp split: if_splits)
  show ?thesis
  proof (cases rule: arrive_cases [of i l t now st])
    case (lead c)
    have new: "\<not> (fl_tasks st j = Some (Leading u (fl_next st)))" for j u
      using assms(1) unfolding flight_ok_def by (metis less_irrefl)
    show ?thesis using assms(1) st' lead(1) new by (auto simp: flight_ok_def less_Suc_eq)
  qed (use assms(1) st' in \<open>auto simp: flight_ok_def\<close>)
next
  case (Provided i now r)
  then obtain t f where l: "fl_tasks st i = Some (Leading t f)" and st': "st' = provided i t f now r st"
    using assms(2) by (auto split: option.splits flight_request.splits)
  show ?thesis using assms(1) l unfolding st' provided_def flight_ok_def forget_def
    by (auto simp: settle_futures split: sum.split option.split)
next
  case (Woken i)
  then show ?thesis using assms by (auto simp: flight_ok_def awaited_def split: option.splits flight_request.splits future.splits if_splits)
next
  case (Cancel i)
  then show ?thesis using assms
    by (auto simp: flight_ok_def settle_futures forget_def split: option.splits flight_request.splits if_splits)
qed

lemma run_ok: "flight_ok st \<Longrightarrow> flight_run es st = Some st' \<Longrightarrow> flight_ok st'"
proof (induction es arbitrary: st)
  case (Cons e es)
  show ?case by (rule flight_run_ConsE [OF Cons.prems(2)]) (use Cons.IH Cons.prems(1) step_ok in blast)
qed simp

lemma new_ok: "flight_ok (flight_new c)"
  by (simp add: flight_ok_def flight_new_def)

section \<open>Without cancellations nobody waits in vain\<close>

fun uncancelled :: "nat \<Rightarrow> flight_event \<Rightarrow> bool" where
  "uncancelled l (Arrive i l' t now) = (l' = l)"
| "uncancelled l (Cancel i) = False"
| "uncancelled l _ = True"

definition steady :: "nat \<Rightarrow> flight \<Rightarrow> bool" where
  "steady l st =
     ((\<forall>i t f. fl_tasks st i = Some (Leading t f) \<longrightarrow> fl_inflight st t = Some (l, f) \<and> fl_futures st f = Some Pending)
      \<and> (\<forall>k t f. fl_tasks st k = Some (Following t f) \<longrightarrow>
           (\<exists>i. fl_tasks st i = Some (Leading t f)) \<or> (\<exists>x. fl_futures st f = Some x \<and> x \<noteq> Pending \<and> x \<noteq> Cancelled))
      \<and> (\<forall>t l' f. fl_inflight st t = Some (l', f) \<longrightarrow> l' = l \<and> (fl_futures st f = Some Pending \<longrightarrow> (\<exists>i. fl_tasks st i = Some (Leading t f)))))"

lemma steadyD:
  assumes "steady l st"
  shows "fl_tasks st i = Some (Leading t f) \<Longrightarrow> fl_inflight st t = Some (l, f)"
    and "fl_tasks st i = Some (Leading t f) \<Longrightarrow> fl_futures st f = Some Pending"
    and "fl_tasks st k = Some (Following t f) \<Longrightarrow>
           (\<exists>i. fl_tasks st i = Some (Leading t f)) \<or> (\<exists>x. fl_futures st f = Some x \<and> x \<noteq> Pending \<and> x \<noteq> Cancelled)"
    and "fl_inflight st t = Some (l', f) \<Longrightarrow> l' = l"
    and "fl_inflight st t = Some (l', f) \<Longrightarrow> fl_futures st f = Some Pending \<Longrightarrow> \<exists>i. fl_tasks st i = Some (Leading t f)"
  using assms unfolding steady_def by blast+

lemma steady_arrive:
  assumes "flight_ok st" and "steady l st" and fresh: "fl_tasks st i = None"
  shows "steady l (arrive i l t now st)"
proof (cases rule: arrive_cases [of i l t now st])
  case (cached v c)
  have "fl_tasks st j = Some x \<Longrightarrow> j \<noteq> i" for j x using fresh by auto
  then show ?thesis unfolding cached(1) steady_def using steadyD [OF assms(2)] by (auto; metis)
next
  case (follow f c)
  obtain j where j: "fl_tasks st j = Some (Leading t f)" using steadyD(5) [OF assms(2) follow(2,3)] by blast
  have ne: "fl_tasks st j = Some x \<Longrightarrow> j \<noteq> i" for j x using fresh by auto
  show ?thesis unfolding follow(1) steady_def using steadyD [OF assms(2)] j ne by (auto; metis)
next
  case (lead c)
  have ne: "fl_tasks st j = Some x \<Longrightarrow> j \<noteq> i" for j x using fresh by auto
  have nf: "fl_tasks st j \<noteq> Some (Leading u (fl_next st))" "fl_tasks st j \<noteq> Some (Following u (fl_next st))"
    "fl_inflight st u \<noteq> Some (l', fl_next st)" for j u l'
    using assms(1) unfolding flight_ok_def by (metis less_irrefl)+
  have nt: "fl_tasks st j \<noteq> Some (Leading t g)" for j g
    using lead(2) steadyD(1,2) [OF assms(2)] by blast
  show ?thesis unfolding lead(1) steady_def using steadyD [OF assms(2)] ne nf nt by (auto; metis)
qed

lemma steady_provided:
  assumes "flight_ok st" and "steady l st" and i: "fl_tasks st i = Some (Leading t f)"
  shows "steady l (provided i t f now r st)"
proof -
  define x where "x = (case r of Inr v \<Rightarrow> Resolved v | Inl e \<Rightarrow> Failed e)"
  define y where "y = (case r of Inr v \<Rightarrow> Returned v | Inl e \<Rightarrow> Raised e)"
  let ?st = "provided i t f now r st"
  have y: "y \<noteq> Leading u g" "y \<noteq> Following u g" for u g by (simp_all add: y_def split: sum.split)
  have x: "x \<noteq> Pending" "x \<noteq> Cancelled" by (simp_all add: x_def split: sum.split)
  have tasks: "fl_tasks ?st = (fl_tasks st)(i \<mapsto> y)" by (simp add: provided_def y_def split: sum.split)
  have futures: "fl_futures ?st = (fl_futures st)(f \<mapsto> x)"
    using steadyD(2) [OF assms(2) i] by (auto simp: provided_def x_def settle_def fun_eq_iff split: sum.split)
  have inflight: "fl_inflight ?st = (fl_inflight st)(t := None)"
    using steadyD(1) [OF assms(2) i]
    by (auto simp: provided_def forget_def settle_def set_task_def fun_eq_iff split: sum.split option.split)
  have one: "fl_tasks st j = Some (Leading u g) \<Longrightarrow> j \<noteq> i \<Longrightarrow> u \<noteq> t \<and> g \<noteq> f" for j u g
    using steadyD(1) [OF assms(2)] i assms(1) unfolding flight_ok_def by (metis option.inject prod.inject)
  show ?thesis unfolding steady_def tasks futures inflight
  proof (intro conjI allI impI)
    fix k u g
    assume "((fl_tasks st)(i \<mapsto> y)) k = Some (Following u g)"
    then have k: "k \<noteq> i" "fl_tasks st k = Some (Following u g)" using y by (auto split: if_splits)
    from steadyD(3) [OF assms(2) k(2)]
    show "(\<exists>ia. ((fl_tasks st)(i \<mapsto> y)) ia = Some (Leading u g))
        \<or> (\<exists>z. ((fl_futures st)(f \<mapsto> x)) g = Some z \<and> z \<noteq> Pending \<and> z \<noteq> Cancelled)"
    proof
      assume "\<exists>j. fl_tasks st j = Some (Leading u g)"
      then obtain j where "fl_tasks st j = Some (Leading u g)" by blast
      then show ?thesis using x i by (cases "j = i") auto
    next
      assume "\<exists>z. fl_futures st g = Some z \<and> z \<noteq> Pending \<and> z \<noteq> Cancelled"
      then show ?thesis using x by (cases "g = f") auto
    qed
  next
    fix u l' g
    assume g: "((fl_inflight st)(t := None)) u = Some (l', g)" and p: "((fl_futures st)(f \<mapsto> x)) g = Some Pending"
    then have "u \<noteq> t" "fl_inflight st u = Some (l', g)" "fl_futures st g = Some Pending" using x by (auto split: if_splits)
    then obtain j where "fl_tasks st j = Some (Leading u g)" using steadyD(5) [OF assms(2)] by blast
    then show "\<exists>ia. ((fl_tasks st)(i \<mapsto> y)) ia = Some (Leading u g)" using i \<open>u \<noteq> t\<close> by (intro exI [of _ j]) auto
  qed (use y one steadyD(1,2,4) [OF assms(2)] in \<open>auto split: if_splits\<close>)
qed

lemma woken_effect:
  assumes "flight_step (Woken i) st = Some st'"
  obtains t f x r where "fl_tasks st i = Some (Following t f)" "fl_futures st f = Some x" "awaited x = Some r" "st' = set_task i r st"
  using assms by (auto split: option.splits flight_request.splits)

lemma awaited_not_waiting: "awaited x = Some r \<Longrightarrow> r \<noteq> Leading t f \<and> r \<noteq> Following t f"
  by (auto simp: awaited_def split: future.splits)

lemma steady_step:
  assumes "flight_ok st" and "steady l st" and "uncancelled l e" and "flight_step e st = Some st'"
  shows "steady l st'"
proof (cases e)
  case (Arrive i l' t now)
  then show ?thesis using steady_arrive [OF assms(1,2)] assms(3,4) by (auto split: if_splits)
next
  case (Provided i now r)
  then show ?thesis using steady_provided [OF assms(1,2)] assms(4) by (auto split: option.splits flight_request.splits)
next
  case (Woken i)
  then obtain t f x r where w: "fl_tasks st i = Some (Following t f)" "awaited x = Some r" "st' = set_task i r st"
    using woken_effect assms(4) by metis
  have ne: "fl_tasks st j = Some (Leading u g) \<Longrightarrow> j \<noteq> i" for j u g using w(1) by auto
  show ?thesis unfolding w(3) steady_def
    using steadyD [OF assms(2)] awaited_not_waiting [OF w(2)] ne by (auto; metis)
qed (use assms(3) in simp)

lemma steady_run:
  "flight_ok st \<Longrightarrow> steady l st \<Longrightarrow> \<forall>e\<in>set es. uncancelled l e \<Longrightarrow> flight_run es st = Some st' \<Longrightarrow> flight_ok st' \<and> steady l st'"
proof (induction es arbitrary: st)
  case (Cons e es)
  obtain st1 where s: "flight_step e st = Some st1" "flight_run es st1 = Some st'" using Cons.prems(4) by (rule flight_run_ConsE)
  have "flight_ok st1" "steady l st1" using step_ok steady_step Cons.prems(1-3) s(1) by (auto simp del: flight_step.simps)
  then show ?case using Cons.IH Cons.prems(3) s(2) by simp
qed simp

lemma new_steady: "steady l (flight_new c)"
  by (simp add: steady_def flight_new_def)

text \<open>C25. Identical concurrent requests share one provider call: on one event loop and as long as none is cancelled,
  at every moment at most one request leads for a text, and no other waits in vain: the request it
  follows is still being served and its answer becomes the follower's, or the answer is already there.\<close>
theorem one_call_per_text:
  assumes "flight_run es (flight_new c) = Some st" and "\<forall>e\<in>set es. uncancelled l e"
  shows "(fl_tasks st i = Some (Leading t f) \<and> fl_tasks st j = Some (Leading t g) \<longrightarrow> i = j)
     \<and> (fl_tasks st k = Some (Following t f) \<longrightarrow>
          (\<exists>i. fl_tasks st i = Some (Leading t f)
             \<and> (\<forall>now r. \<exists>st'. flight_run [Provided i now r, Woken k] st = Some st'
                  \<and> fl_tasks st' k = Some (case r of Inr v \<Rightarrow> Returned v | Inl x \<Rightarrow> Raised x)))
        \<or> (\<exists>x. fl_futures st f = Some (Resolved x) \<or> (\<exists>e. fl_futures st f = Some (Failed e))))"
proof -
  have inv: "flight_ok st" "steady l st" using steady_run [OF new_ok new_steady assms(2,1)] by blast+
  have one: "fl_tasks st i = Some (Leading t f) \<Longrightarrow> fl_tasks st j = Some (Leading t g) \<Longrightarrow> i = j"
    using steadyD(1) [OF inv(2)] inv(1) unfolding flight_ok_def by (metis option.inject prod.inject)
  have serve: "\<exists>st'. flight_run [Provided i now r, Woken k] st = Some st'
      \<and> fl_tasks st' k = Some (case r of Inr v \<Rightarrow> Returned v | Inl x \<Rightarrow> Raised x)"
    if k: "fl_tasks st k = Some (Following t f)" and i: "fl_tasks st i = Some (Leading t f)" for i now r
  proof -
    have "k \<noteq> i" using i k by auto
    then show ?thesis using i k steadyD(2) [OF inv(2) i]
      by (cases r) (auto simp: provided_def settle_futures awaited_def)
  qed
  have "(\<exists>i. fl_tasks st i = Some (Leading t f)) \<or> (\<exists>x. fl_futures st f = Some (Resolved x) \<or> (\<exists>e. fl_futures st f = Some (Failed e)))"
    if "fl_tasks st k = Some (Following t f)"
    using steadyD(3) [OF inv(2) that] by (metis future.exhaust)
  then show ?thesis using one serve by blast
qed

section \<open>A cancellation reaches the others\<close>

text \<open>A future nobody will complete.\<close>
definition lost :: "nat \<Rightarrow> flight \<Rightarrow> bool" where
  "lost f st = (fl_futures st f = Some Cancelled
      \<or> (fl_futures st f = Some Pending \<and> (\<forall>i t. fl_tasks st i \<noteq> Some (Leading t f))))"

definition denied :: "nat \<Rightarrow> string \<Rightarrow> nat \<Rightarrow> flight \<Rightarrow> bool" where
  "denied k t f st = (lost f st \<and> f < fl_next st \<and> (fl_tasks st k = Some Dropped \<or> fl_tasks st k = Some (Following t f)))"

lemma denied_step:
  assumes "denied k t f st" and "flight_step e st = Some st'"
  shows "denied k t f st'"
proof (cases e)
  case (Arrive i l t now)
  then have st': "st' = arrive i l t now st" and "fl_tasks st i = None" using assms(2) by (auto split: if_splits)
  then have "k \<noteq> i" using assms(1) by (auto simp: denied_def)
  then show ?thesis
    by (cases rule: arrive_cases [of i l t now st]) (use st' assms(1) in \<open>auto simp: denied_def lost_def\<close>)
next
  case (Provided i now r)
  then obtain t g where l: "fl_tasks st i = Some (Leading t g)" and st': "st' = provided i t g now r st"
    using assms(2) by (auto split: option.splits flight_request.splits)
  then have "k \<noteq> i" using assms(1) by (auto simp: denied_def)
  moreover have "fl_futures st g = Some Pending \<Longrightarrow> g \<noteq> f" using l assms(1) by (auto simp: denied_def lost_def)
  ultimately show ?thesis using assms(1) unfolding st' provided_def denied_def lost_def
    by (auto simp: settle_futures split: sum.split)
next
  case (Woken i)
  then obtain t g x r where w: "fl_tasks st i = Some (Following t g)" "fl_futures st g = Some x" "awaited x = Some r" "st' = set_task i r st"
    using woken_effect assms(2) by metis
  have "r = Dropped" if "i = k" using that w assms(1) by (auto simp: denied_def lost_def awaited_def)
  then show ?thesis using assms(1) awaited_not_waiting [OF w(3)] unfolding w(4) denied_def lost_def by auto
next
  case (Cancel i)
  then show ?thesis using assms
    by (auto simp: denied_def lost_def settle_futures split: option.splits flight_request.splits if_splits)
qed

lemma denied_run: "denied k t f st \<Longrightarrow> flight_run es st = Some st' \<Longrightarrow> denied k t f st'"
proof (induction es arbitrary: st)
  case (Cons e es)
  show ?case by (rule flight_run_ConsE [OF Cons.prems(2)]) (use Cons.IH Cons.prems(1) denied_step in blast)
qed simp


section \<open>Witnesses\<close>

definition demo_flight :: flight where
  "demo_flight = set_task 1 (Following ''a'' 0) (lead 0 7 ''a'' (flight_new (lru_new 2 5)))"

lemma demo_flight_run: "flight_run [Arrive 0 7 ''a'' 0, Arrive 1 7 ''a'' 1] (flight_new (lru_new 2 5)) = Some demo_flight"
  by (simp add: arrive_def lru_get_def lru_new_def flight_new_def demo_flight_def lead_def set_task_def)

lemma one_call_per_text_witness:
  "\<exists>i. fl_tasks demo_flight i = Some (Leading ''a'' 0)
     \<and> (\<forall>now r. \<exists>st'. flight_run [Provided i now r, Woken 1] demo_flight = Some st'
          \<and> fl_tasks st' 1 = Some (case r of Inr v \<Rightarrow> Returned v | Inl x \<Rightarrow> Raised x))"
proof -
  have "fl_tasks demo_flight 1 = Some (Following ''a'' 0)" "fl_futures demo_flight 0 = Some Pending"
    by (simp_all add: demo_flight_def set_task_def lead_def flight_new_def)
  then show ?thesis using one_call_per_text [OF demo_flight_run, of 7 0 "''a''" 0 1 0 1] by simp
qed


end
