(* ===== verification/EmbedConfig.thy ===== *)
theory EmbedConfig
  imports Embeddings TenantLifecycle
begin

text \<open>\<open>services/embedding_config.py\<close>, the status half of \<open>services/embedding_reprovision.py\<close> and
  \<open>gateway/routers/admin/embeddings.py\<close>: which embedding provider is in force, for the platform and for each
  tenant, where its key comes from, and the admin handlers that change it.  The configuration is one
  document per database; each process caches the services it built from them.  Encryption and the
  provider's transport are parameters, and so is whether a database can be read.\<close>

section \<open>State\<close>

text \<open>Keys are encrypted with a secret of the deployment, or with the tenant's own data key (base64 of the binary).\<close>
record config_env =
  ce_fernet_enc :: "string \<Rightarrow> string \<Rightarrow> string"
  ce_fernet_dec :: "string \<Rightarrow> string \<Rightarrow> string option"
  ce_qe_enc :: "string \<Rightarrow> string \<Rightarrow> string"
  ce_qe_dec :: "string \<Rightarrow> string option"
  ce_readable :: "string option \<Rightarrow> bool"
  ce_embed :: embed_env
  ce_sha :: "string \<Rightarrow> string"

text \<open>The \<open>gateway_config\<close> collections of the control database and of the tenants, \<open>embedding_status\<close>, the fleet of
  theory \<open>TenantLifecycle\<close>, the requests the admin handlers sent to providers, and the background jobs started
  (None: the platform's).\<close>
record config_world =
  cw_control :: docs
  cw_tenant :: "string \<Rightarrow> docs"
  cw_status :: docs
  cw_fleet :: fleet
  cw_sent :: "post_request list"
  cw_jobs :: "string option list"

text \<open>What one process has built.\<close>
record config_proc =
  cp_active :: "embed_service option"
  cp_tenants :: "(string \<times> embed_service) list"

definition EMBEDDING_CONFIG_ID :: string where
  "EMBEDDING_CONFIG_ID = ''embedding''"

definition config_key :: query where
  "config_key = key_query ''_id'' EMBEDDING_CONFIG_ID"

section \<open>Keys at rest\<close>

definition fernet_secret :: "settings \<Rightarrow> string" where
  "fernet_secret s =
     or_text (opt_text (cfg_embedding_secret s))
       (or_text (opt_text (cfg_admin_session_secret s)) (or_text (cfg_jwt_secret s) ''dev-secret''))"

definition encrypt_api_key :: "config_env \<Rightarrow> settings \<Rightarrow> string \<Rightarrow> string" where
  "encrypt_api_key env s k = (if k = [] then [] else ''enc::'' @ ce_fernet_enc env (fernet_secret s) k)"

definition decrypt_api_key :: "config_env \<Rightarrow> settings \<Rightarrow> pyval \<Rightarrow> string" where
  "decrypt_api_key env s stored =
     (case stored of
        VStr t \<Rightarrow>
          if startswith t ''enc::''
          then (case ce_fernet_dec env (fernet_secret s) (drop 5 t) of Some k \<Rightarrow> k | None \<Rightarrow> [])
          else []
      | _ \<Rightarrow> [])"

definition encrypt_tenant_api_key :: "config_env \<Rightarrow> settings \<Rightarrow> string \<Rightarrow> string \<Rightarrow> pyval" where
  "encrypt_tenant_api_key env s tid k =
     (if k = [] then VNone
      else if \<not> cfg_qe_enabled s then VStr (encrypt_api_key env s k)
      else VStr (''qe::'' @ ce_qe_enc env tid k))"

definition decrypt_tenant_api_key :: "config_env \<Rightarrow> settings \<Rightarrow> pyval \<Rightarrow> string" where
  "decrypt_tenant_api_key env s stored =
     (case stored of
        VStr t \<Rightarrow>
          if startswith t ''qe::'' then
            (if \<not> cfg_qe_enabled s then [] else case ce_qe_dec env (drop 4 t) of Some k \<Rightarrow> k | None \<Rightarrow> [])
          else decrypt_api_key env s stored
      | _ \<Rightarrow> [])"

section \<open>Defaults\<close>

definition resolve_provider_and_key :: "settings \<Rightarrow> string \<times> string" where
  "resolve_provider_and_key s =
     (let voyage_key = strip (cfg_voyage_api_key s);
          provider = (case cfg_embedding_provider s of
              Some p \<Rightarrow> if p \<in> set SUPPORTED_PROVIDERS then p else if voyage_key \<noteq> [] then ''voyage'' else ''ollama''
            | None \<Rightarrow> if voyage_key \<noteq> [] then ''voyage'' else ''ollama'');
          api_key = cfg_embedding_api_key s
      in (provider, if provider = ''voyage'' \<and> api_key = [] \<and> voyage_key \<noteq> [] then voyage_key else api_key))"

definition default_model_for :: "settings \<Rightarrow> string \<Rightarrow> string" where
  "default_model_for s p =
     (if opt_text (cfg_embedding_model s) \<noteq> [] then opt_text (cfg_embedding_model s)
      else let provider = or_text p (fst (resolve_provider_and_key s)) in
        if provider = ''ollama'' then cfg_ollama_model s
        else if provider = ''azure_openai'' then opt_text (cfg_azure_openai_deployment s)
        else case dget PROVIDER_DEFAULT_MODELS provider of Some m \<Rightarrow> m | None \<Rightarrow> [])"

definition default_config_from_settings :: "settings \<Rightarrow> embedding_config" where
  "default_config_from_settings s =
     (case resolve_provider_and_key s of (p, k) \<Rightarrow>
        \<lparr>ec_provider = p, ec_model = default_model_for s p,
         ec_base_url = (if p = ''ollama'' then Some (opt_or (cfg_embedding_base_url s) (cfg_ollama_base_url s)) else cfg_embedding_base_url s),
         ec_dimensions = (if p = ''ollama'' then cfg_ollama_dimensions s else 0), ec_api_key = k,
         ec_azure_endpoint = cfg_azure_openai_endpoint s, ec_azure_api_version = cfg_azure_openai_api_version s,
         ec_azure_deployment = cfg_azure_openai_deployment s, ec_updated_at = None, ec_updated_by = None, ec_source = ''env''\<rparr>)"

text \<open>True: \<open>ValueError\<close>.\<close>
definition invalid_config :: "embedding_config \<Rightarrow> bool" where
  "invalid_config c =
     (if ec_provider c \<notin> set SUPPORTED_PROVIDERS then True
      else if ec_provider c = ''azure_openai'' then
        (opt_text (ec_azure_deployment c) = [] \<and> ec_model c = []) \<or> opt_text (ec_azure_endpoint c) = [] \<or> ec_api_key c = []
      else ec_model c = [] \<or> (ec_provider c \<in> set [''openai'', ''voyage'', ''gemini''] \<and> ec_api_key c = []))"

section \<open>Persistence\<close>

definition text_field :: "doc \<Rightarrow> string \<Rightarrow> string option" where
  "text_field d f = (case vget d f of VStr t \<Rightarrow> Some t | _ \<Rightarrow> None)"

definition time_field :: "doc \<Rightarrow> string \<Rightarrow> real option" where
  "time_field d f = (case vget d f of VTime t \<Rightarrow> Some t | _ \<Rightarrow> None)"

text \<open>None: the stored dimensions are no number.\<close>
definition config_from_doc :: "settings \<Rightarrow> doc \<Rightarrow> string \<Rightarrow> string \<Rightarrow> embedding_config option" where
  "config_from_doc s d source k =
     map_option (\<lambda>dims.
        \<lparr>ec_provider = py_str (py_or (vget d ''provider'') (VStr (fst (resolve_provider_and_key s)))),
         ec_model = py_str (py_or (vget d ''model'') (VStr [])), ec_base_url = text_field d ''base_url'',
         ec_dimensions = dims, ec_api_key = k, ec_azure_endpoint = text_field d ''azure_endpoint'',
         ec_azure_api_version = py_str (py_or (vget d ''azure_api_version'') (VStr (cfg_azure_openai_api_version s))),
         ec_azure_deployment = text_field d ''azure_deployment'', ec_updated_at = time_field d ''updated_at'',
         ec_updated_by = text_field d ''updated_by'', ec_source = source\<rparr>)
       (py_int (py_or (vget d ''dimensions'') (VInt 0)))"

definition opt_value :: "string option \<Rightarrow> pyval" where
  "opt_value x = (case x of Some t \<Rightarrow> VStr t | None \<Rightarrow> VNone)"

definition config_doc :: "embedding_config \<Rightarrow> pyval \<Rightarrow> string option \<Rightarrow> real \<Rightarrow> doc" where
  "config_doc c enc by_user now =
     [(''_id'', VStr EMBEDDING_CONFIG_ID), (''provider'', VStr (ec_provider c)), (''model'', VStr (ec_model c)),
      (''base_url'', opt_value (ec_base_url c)), (''dimensions'', VInt (ec_dimensions c)), (''api_key_encrypted'', enc),
      (''azure_endpoint'', opt_value (ec_azure_endpoint c)), (''azure_api_version'', VStr (ec_azure_api_version c)),
      (''azure_deployment'', opt_value (ec_azure_deployment c)), (''updated_at'', VTime now), (''updated_by'', opt_value by_user)]"

definition load_persisted_config :: "config_env \<Rightarrow> settings \<Rightarrow> config_world \<Rightarrow> embedding_config option" where
  "load_persisted_config env s w =
     (case (if ce_readable env None then find_one config_key (cw_control w) else None) of
        None \<Rightarrow> Some (default_config_from_settings s)
      | Some d \<Rightarrow>
          if d = [] then Some (default_config_from_settings s)
          else (let k0 = decrypt_api_key env s (vget d ''api_key_encrypted'');
                    k1 = or_text k0 (cfg_embedding_api_key s);
                    k2 = (if k1 = [] \<and> py_str (py_or (vget d ''provider'') (VStr [])) = ''voyage''
                          then strip (cfg_voyage_api_key s) else k1)
                in config_from_doc s d ''db'' k2))"

definition save_persisted_config :: "config_env \<Rightarrow> settings \<Rightarrow> real \<Rightarrow> embedding_config \<Rightarrow> string option \<Rightarrow> config_world \<Rightarrow> config_world" where
  "save_persisted_config env s now c by_user w =
     (let enc = (if encrypt_api_key env s (ec_api_key c) = [] then VNone else VStr (encrypt_api_key env s (ec_api_key c)))
      in w\<lparr>cw_control := fst (update_one config_key (set_fields (config_doc c enc by_user now)) True (cw_control w))\<rparr>)"

definition resolved_tenant :: "settings \<Rightarrow> string \<Rightarrow> string" where
  "resolved_tenant s tid = or_text tid (cfg_default_tenant_id s)"

definition load_tenant_config :: "config_env \<Rightarrow> settings \<Rightarrow> string \<Rightarrow> config_world \<Rightarrow> embedding_config option" where
  "load_tenant_config env s tid w =
     (let t = resolved_tenant s tid in
      case (if ce_readable env (Some t) then find_one config_key (cw_tenant w t) else None) of
        None \<Rightarrow> map_option (\<lambda>c. c\<lparr>ec_source := ''platform-default''\<rparr>) (load_persisted_config env s w)
      | Some d \<Rightarrow>
          if d = [] then map_option (\<lambda>c. c\<lparr>ec_source := ''platform-default''\<rparr>) (load_persisted_config env s w)
          else config_from_doc s d ''tenant-db'' (decrypt_tenant_api_key env s (vget d ''api_key_encrypted'')))"

definition invalidate_tenant_embedding :: "string \<Rightarrow> config_proc \<Rightarrow> config_proc" where
  "invalidate_tenant_embedding tid p = p\<lparr>cp_tenants := dpop tid (cp_tenants p)\<rparr>"

definition save_tenant_config ::
  "config_env \<Rightarrow> settings \<Rightarrow> real \<Rightarrow> string \<Rightarrow> embedding_config \<Rightarrow> string option \<Rightarrow> config_world \<times> config_proc
   \<Rightarrow> config_world \<times> config_proc" where
  "save_tenant_config env s now tid c by_user wp =
     (let t = resolved_tenant s tid; w = fst wp;
          d = config_doc c (encrypt_tenant_api_key env s t (ec_api_key c)) by_user now
      in (w\<lparr>cw_tenant := (cw_tenant w)(t := fst (update_one config_key (set_fields d) True (cw_tenant w t)))\<rparr>,
          invalidate_tenant_embedding t (snd wp)))"

definition delete_tenant_config ::
  "config_env \<Rightarrow> settings \<Rightarrow> string \<Rightarrow> config_world \<times> config_proc \<Rightarrow> bool \<times> config_world \<times> config_proc" where
  "delete_tenant_config env s tid wp =
     (let t = resolved_tenant s tid; w = fst wp in
      if \<not> ce_readable env (Some t) then (False, wp)
      else (find_one config_key (cw_tenant w t) \<noteq> None,
            w\<lparr>cw_tenant := (cw_tenant w)(t := delete_one config_key (cw_tenant w t))\<rparr>, invalidate_tenant_embedding t (snd wp)))"

section \<open>Services in force\<close>

text \<open>Ask a freshly built service for the width of its vectors; the requests it sent.\<close>
definition probe_service ::
  "config_env \<Rightarrow> settings \<Rightarrow> real \<Rightarrow> embed_service \<Rightarrow> (embed_exc + int) \<times> post_request list" where
  "probe_service env s now svc =
     (case detect_dimensions (ce_embed env) s svc now (\<lambda>_. now) (embed_new s) of (r, st) \<Rightarrow> (r, es_sent st))"

definition log_sent :: "post_request list \<Rightarrow> config_world \<Rightarrow> config_world" where
  "log_sent qs w = w\<lparr>cw_sent := cw_sent w @ qs\<rparr>"

text \<open>None: the provider is unsupported, or its width cannot be detected and must not be guessed.\<close>
definition resolve_dimensions ::
  "config_env \<Rightarrow> settings \<Rightarrow> real \<Rightarrow> embedding_config \<Rightarrow> embedding_config option \<times> post_request list" where
  "resolve_dimensions env s now c =
     (if ec_dimensions c > 0 then (Some c, [])
      else case build_provider_service s c of
          None \<Rightarrow> (None, [])
        | Some svc \<Rightarrow>
            (case probe_service env s now svc of
               (Inr n, qs) \<Rightarrow> (Some (c\<lparr>ec_dimensions := n\<rparr>), qs)
             | (Inl x, qs) \<Rightarrow>
                 (if ec_provider c = ''ollama'' then Some (c\<lparr>ec_dimensions := cfg_ollama_dimensions s\<rparr>) else None, qs)))"

definition resolve_active_service :: "settings \<Rightarrow> config_proc \<Rightarrow> (embed_service \<times> config_proc) option" where
  "resolve_active_service s p =
     (case cp_active p of
        Some svc \<Rightarrow> Some (svc, p)
      | None \<Rightarrow> map_option (\<lambda>svc. (svc, p\<lparr>cp_active := Some svc\<rparr>)) (build_provider_service s (default_config_from_settings s)))"

definition reset_active_embedding_config :: "config_proc \<Rightarrow> config_proc" where
  "reset_active_embedding_config p = \<lparr>cp_active = None, cp_tenants = []\<rparr>"

definition refresh_active_embedding_config ::
  "config_env \<Rightarrow> settings \<Rightarrow> real \<Rightarrow> config_world \<times> config_proc \<Rightarrow> embedding_config option \<times> config_world \<times> config_proc" where
  "refresh_active_embedding_config env s now wp =
     (case load_persisted_config env s (fst wp) of
        None \<Rightarrow> (None, wp)
      | Some c \<Rightarrow>
          (case resolve_dimensions env s now c of
             (None, qs) \<Rightarrow> (None, log_sent qs (fst wp), snd wp)
           | (Some c', qs) \<Rightarrow>
               (case build_provider_service s c' of
                  None \<Rightarrow> (None, log_sent qs (fst wp), snd wp)
                | Some svc \<Rightarrow> (Some c', log_sent qs (fst wp), (snd wp)\<lparr>cp_active := Some svc\<rparr>))))"

text \<open>A tenant uses the platform's service, whatever that is at the time, or one of its own.\<close>
datatype tenant_service = FollowActive | OwnService embed_service

definition get_embedding_service_for ::
  "config_env \<Rightarrow> settings \<Rightarrow> string \<Rightarrow> config_world \<times> config_proc \<Rightarrow> tenant_service option \<times> config_proc" where
  "get_embedding_service_for env s tid wp =
     (let t = resolved_tenant s tid; p = snd wp in
      case dget (cp_tenants p) t of
        Some svc \<Rightarrow> (Some (OwnService svc), p)
      | None \<Rightarrow>
          (case load_tenant_config env s t (fst wp) of
             None \<Rightarrow> (None, p)
           | Some c \<Rightarrow>
               if ec_source c = ''platform-default'' then (Some FollowActive, p)
               else (case build_provider_service s c of
                       None \<Rightarrow> (None, p)
                     | Some svc \<Rightarrow> (Some (OwnService svc), p\<lparr>cp_tenants := dput t svc (cp_tenants p)\<rparr>))))"

definition service_in_force :: "settings \<Rightarrow> tenant_service \<Rightarrow> config_proc \<Rightarrow> (embed_service \<times> config_proc) option" where
  "service_in_force s ts p = (case ts of OwnService svc \<Rightarrow> Some (svc, p) | FollowActive \<Rightarrow> resolve_active_service s p)"

text \<open>Model, width and version of a tenant's service.\<close>
definition tenant_embedding_identity ::
  "config_env \<Rightarrow> settings \<Rightarrow> string \<Rightarrow> config_world \<times> config_proc \<Rightarrow> (string \<times> int \<times> string) option \<times> config_proc" where
  "tenant_embedding_identity env s tid wp =
     (case get_embedding_service_for env s tid wp of
        (None, p) \<Rightarrow> (None, p)
      | (Some ts, p) \<Rightarrow>
          (case service_in_force s ts p of
             None \<Rightarrow> (None, p)
           | Some (svc, p') \<Rightarrow> (Some (model_id svc, dimensions svc, embedding_version_for svc), p')))"

section \<open>The status of a reprovisioning\<close>

definition status_id_for :: "string option \<Rightarrow> string" where
  "status_id_for tid = (case tid of Some t \<Rightarrow> if t = [] then ''reprovision'' else ''reprovision:'' @ t | None \<Rightarrow> ''reprovision'')"

definition REPROVISION_STALE_SECONDS :: real where
  "REPROVISION_STALE_SECONDS = 3600"

definition is_running_and_fresh :: "real \<Rightarrow> doc \<Rightarrow> bool" where
  "is_running_and_fresh now st =
     (vget st ''state'' = VStr ''running''
      \<and> (case vget st ''started_at'' of VTime t \<Rightarrow> now - t < REPROVISION_STALE_SECONDS | _ \<Rightarrow> True))"

text \<open>Also \<open>get_tenant_reprovision_status\<close>; an unreadable status counts as idle.\<close>
definition get_reprovision_status :: "config_env \<Rightarrow> string option \<Rightarrow> config_world \<Rightarrow> doc" where
  "get_reprovision_status env tid w =
     (case (if ce_readable env None then find_one (key_query ''_id'' (status_id_for tid)) (cw_status w) else None) of
        None \<Rightarrow> [(''state'', VStr ''idle'')]
      | Some d \<Rightarrow> if d = [] then [(''state'', VStr ''idle'')] else dpop ''_id'' d)"

definition write_status :: "string \<Rightarrow> doc \<Rightarrow> config_world \<Rightarrow> config_world" where
  "write_status sid fs w =
     w\<lparr>cw_status := fst (update_one (key_query ''_id'' sid) (set_fields ((''_id'', VStr sid) # fs)) True (cw_status w))\<rparr>"

definition is_reprovision_running :: "config_env \<Rightarrow> real \<Rightarrow> string option \<Rightarrow> config_world \<Rightarrow> bool" where
  "is_reprovision_running env now tid w = is_running_and_fresh now (get_reprovision_status env tid w)"

definition progress :: "int \<Rightarrow> int \<Rightarrow> pyval" where
  "progress done all = VDict [(''completed'', VInt done), (''total'', VInt all)]"

definition running_fields :: "real \<Rightarrow> string option \<Rightarrow> string \<times> int \<times> string \<Rightarrow> string option \<Rightarrow> doc" where
  "running_fields now tid who by_user =
     (case who of (model, dims, version) \<Rightarrow>
        [(''state'', VStr ''running'')] @ (case tid of Some t \<Rightarrow> [(''tenant_id'', VStr t)] | None \<Rightarrow> []) @
        [(''started_at'', VTime now), (''finished_at'', VNone), (''started_by'', opt_value by_user), (''target_model'', VStr model),
         (''target_version'', VStr version), (''target_dimensions'', VInt dims), (''error'', VNone), (''tenants'', VList []),
         (''totals'', VDict []), (''progress'', progress 0 (if tid = None then 0 else 1))])"

text \<open>Why a handler refuses.\<close>
datatype refusal = Conflict | Unprocessable | Forbidden | ServerError

text \<open>\<open>trigger_tenant_reprovision\<close>: mark the job as running and start it.\<close>
definition trigger_tenant_reprovision ::
  "config_env \<Rightarrow> settings \<Rightarrow> real \<Rightarrow> string \<Rightarrow> string option \<Rightarrow> config_world \<times> config_proc \<Rightarrow> (refusal + doc) \<times> config_world \<times> config_proc" where
  "trigger_tenant_reprovision env s now tid by_user wp =
     (if is_reprovision_running env now (Some tid) (fst wp) then (Inl Conflict, wp)
      else case tenant_embedding_identity env s tid wp of
          (None, p) \<Rightarrow> (Inl ServerError, fst wp, p)
        | (Some who, p) \<Rightarrow>
            (let w = write_status (status_id_for (Some tid)) (running_fields now (Some tid) who by_user) (fst wp);
                 w' = w\<lparr>cw_jobs := cw_jobs w @ [Some tid]\<rparr>
             in (Inr (get_reprovision_status env (Some tid) w'), w', p)))"

definition trigger_reprovision ::
  "config_env \<Rightarrow> settings \<Rightarrow> real \<Rightarrow> string option \<Rightarrow> config_world \<times> config_proc \<Rightarrow> (refusal + doc) \<times> config_world \<times> config_proc" where
  "trigger_reprovision env s now by_user wp =
     (if is_reprovision_running env now None (fst wp) then (Inl Conflict, wp)
      else case resolve_active_service s (snd wp) of
          None \<Rightarrow> (Inl ServerError, wp)
        | Some (svc, p) \<Rightarrow>
            (let w = write_status (status_id_for None)
                   (running_fields now None (model_id svc, dimensions svc, embedding_version_for svc) by_user) (fst wp);
                 w' = w\<lparr>cw_jobs := cw_jobs w @ [None]\<rparr>
             in (Inr (get_reprovision_status env None w'), w', p)))"

section \<open>The admin handlers\<close>

record config_payload =
  ep_provider :: string
  ep_model :: "string option"
  ep_base_url :: "string option"
  ep_api_key :: "string option"
  ep_azure_endpoint :: "string option"
  ep_azure_api_version :: "string option"
  ep_azure_deployment :: "string option"
  ep_reprovision :: bool

text \<open>The authenticated caller of an admin request.\<close>
record admin_caller =
  ad_user :: string
  ad_tenant :: string
  ad_roles :: "string list"
  ad_header_tenant :: "string option"

definition is_platform_admin :: "settings \<Rightarrow> admin_caller \<Rightarrow> bool" where
  "is_platform_admin s a = (cfg_platform_admin_role s \<in> set (ad_roles a))"

text \<open>None: 403.\<close>
definition resolve_target_tenant :: "settings \<Rightarrow> admin_caller \<Rightarrow> string \<Rightarrow> string option" where
  "resolve_target_tenant s a requested =
     (let target = or_text requested (opt_or (ad_header_tenant a) (ad_tenant a))
      in if target \<noteq> ad_tenant a \<and> \<not> is_platform_admin s a then None else Some target)"

definition merge_embedding_config :: "settings \<Rightarrow> embedding_config \<Rightarrow> config_payload \<Rightarrow> embedding_config" where
  "merge_embedding_config s current q =
     (let same = (ep_provider q = ec_provider current) in
      \<lparr>ec_provider = ep_provider q,
       ec_model = (case ep_model q of Some m \<Rightarrow> m
                   | None \<Rightarrow> if \<not> same then default_model_for s (ep_provider q) else ec_model current),
       ec_base_url = (case ep_base_url q of Some u \<Rightarrow> Some u | None \<Rightarrow> if same then ec_base_url current else None),
       ec_dimensions = 0,
       ec_api_key = (case ep_api_key q of Some k \<Rightarrow> k | None \<Rightarrow> ec_api_key current),
       ec_azure_endpoint = (case ep_azure_endpoint q of Some u \<Rightarrow> Some u | None \<Rightarrow> ec_azure_endpoint current),
       ec_azure_api_version = opt_or (ep_azure_api_version q) (ec_azure_api_version current),
       ec_azure_deployment = (case ep_azure_deployment q of Some d \<Rightarrow> Some d | None \<Rightarrow> ec_azure_deployment current),
       ec_updated_at = None, ec_updated_by = None, ec_source = ''env''\<rparr>)"

definition validate_and_detect ::
  "config_env \<Rightarrow> settings \<Rightarrow> real \<Rightarrow> embedding_config \<Rightarrow> (refusal + embedding_config) \<times> post_request list" where
  "validate_and_detect env s now c =
     (if invalid_config c then (Inl Unprocessable, [])
      else case build_provider_service s c of
          None \<Rightarrow> (Inl ServerError, [])
        | Some svc \<Rightarrow>
            (case probe_service env s now svc of
               (Inl x, qs) \<Rightarrow> (Inl Unprocessable, qs)
             | (Inr n, qs) \<Rightarrow> (Inr (c\<lparr>ec_dimensions := n\<rparr>), qs)))"

definition update_embedding_config ::
  "config_env \<Rightarrow> settings \<Rightarrow> real \<Rightarrow> admin_caller \<Rightarrow> config_payload \<Rightarrow> config_world \<times> config_proc
   \<Rightarrow> (refusal + embedding_config) \<times> config_world \<times> config_proc" where
  "update_embedding_config env s now a q wp =
     (if \<not> is_platform_admin s a then (Inl Forbidden, wp)
      else if is_reprovision_running env now None (fst wp) then (Inl Conflict, wp)
      else case load_persisted_config env s (fst wp) of
          None \<Rightarrow> (Inl ServerError, wp)
        | Some current \<Rightarrow>
            (case validate_and_detect env s now (merge_embedding_config s current q) of
               (Inl e, qs) \<Rightarrow> (Inl e, log_sent qs (fst wp), snd wp)
             | (Inr c, qs) \<Rightarrow>
                 (let w = save_persisted_config env s now c (Some (ad_user a)) (log_sent qs (fst wp)) in
                  case refresh_active_embedding_config env s now (w, snd wp) of
                    (None, wp2) \<Rightarrow> (Inl ServerError, wp2)
                  | (Some refreshed, wp2) \<Rightarrow>
                      if ep_reprovision q then
                        (case trigger_reprovision env s now (Some (ad_user a)) wp2 of
                           (Inl e, wp3) \<Rightarrow> (Inl e, wp3)
                         | (Inr _, wp3) \<Rightarrow> (Inr refreshed, wp3))
                      else (Inr refreshed, wp2))))"

definition update_tenant_embedding_config ::
  "config_env \<Rightarrow> settings \<Rightarrow> real \<Rightarrow> admin_caller \<Rightarrow> string \<Rightarrow> config_payload \<Rightarrow> config_world \<times> config_proc
   \<Rightarrow> (refusal + embedding_config) \<times> config_world \<times> config_proc" where
  "update_tenant_embedding_config env s now a tid q wp =
     (case resolve_target_tenant s a tid of
        None \<Rightarrow> (Inl Forbidden, wp)
      | Some t \<Rightarrow>
          if is_reprovision_running env now (Some t) (fst wp) then (Inl Conflict, wp)
          else
            (let w1 = (fst wp)\<lparr>cw_fleet := snd (provision_tenant (ce_sha env) s now t (cw_fleet (fst wp)))\<rparr> in
             case load_tenant_config env s t w1 of
               None \<Rightarrow> (Inl ServerError, w1, snd wp)
             | Some current \<Rightarrow>
                 (case validate_and_detect env s now (merge_embedding_config s current q) of
                    (Inl e, qs) \<Rightarrow> (Inl e, log_sent qs w1, snd wp)
                  | (Inr c, qs) \<Rightarrow>
                      (let wp2 = save_tenant_config env s now t c (Some (ad_user a)) (log_sent qs w1, snd wp) in
                       case load_tenant_config env s t (fst wp2) of
                         None \<Rightarrow> (Inl ServerError, wp2)
                       | Some refreshed \<Rightarrow>
                           if ep_reprovision q then
                             (case trigger_tenant_reprovision env s now t (Some (ad_user a)) wp2 of
                                (Inl e, wp3) \<Rightarrow> (Inl e, wp3)
                              | (Inr _, wp3) \<Rightarrow> (Inr refreshed, wp3))
                           else (Inr refreshed, wp2)))))"

definition reset_tenant_embedding_config ::
  "config_env \<Rightarrow> settings \<Rightarrow> real \<Rightarrow> admin_caller \<Rightarrow> string \<Rightarrow> bool \<Rightarrow> config_world \<times> config_proc
   \<Rightarrow> (refusal + embedding_config) \<times> config_world \<times> config_proc" where
  "reset_tenant_embedding_config env s now a tid reprovision wp =
     (case resolve_target_tenant s a tid of
        None \<Rightarrow> (Inl Forbidden, wp)
      | Some t \<Rightarrow>
          if is_reprovision_running env now (Some t) (fst wp) then (Inl Conflict, wp)
          else
            (case delete_tenant_config env s t wp of
               (deleted, wp2) \<Rightarrow>
                 (case load_tenant_config env s t (fst wp2) of
                    None \<Rightarrow> (Inl ServerError, wp2)
                  | Some refreshed \<Rightarrow>
                      if reprovision \<and> deleted then
                        (case trigger_tenant_reprovision env s now t (Some (ad_user a)) wp2 of
                           (Inl e, wp3) \<Rightarrow> (Inl e, wp3)
                         | (Inr _, wp3) \<Rightarrow> (Inr refreshed, wp3))
                      else (Inr refreshed, wp2))))"

text \<open>The two test handlers: try a candidate against the provider, store nothing.\<close>
definition try_config ::
  "config_env \<Rightarrow> settings \<Rightarrow> real \<Rightarrow> config_payload \<Rightarrow> embedding_config \<Rightarrow> config_world \<Rightarrow> (embed_service \<times> int) option \<times> config_world" where
  "try_config env s now q current w =
     (let c = merge_embedding_config s current q in
      if invalid_config c then (None, w)
      else case build_provider_service s c of
          None \<Rightarrow> (None, w)
        | Some svc \<Rightarrow>
            (case probe_service env s now svc of
               (Inl x, qs) \<Rightarrow> (None, log_sent qs w)
             | (Inr n, qs) \<Rightarrow> (Some (svc, n), log_sent qs w)))"

definition test_embedding_config ::
  "config_env \<Rightarrow> settings \<Rightarrow> real \<Rightarrow> admin_caller \<Rightarrow> config_payload \<Rightarrow> config_world
   \<Rightarrow> (refusal + (embed_service \<times> int) option) \<times> config_world" where
  "test_embedding_config env s now a q w =
     (if \<not> is_platform_admin s a then (Inl Forbidden, w)
      else case load_persisted_config env s w of
          None \<Rightarrow> (Inl ServerError, w)
        | Some current \<Rightarrow> (case try_config env s now q current w of (r, w') \<Rightarrow> (Inr r, w')))"

definition test_tenant_embedding_config ::
  "config_env \<Rightarrow> settings \<Rightarrow> real \<Rightarrow> admin_caller \<Rightarrow> string \<Rightarrow> config_payload \<Rightarrow> config_world
   \<Rightarrow> (refusal + (embed_service \<times> int) option) \<times> config_world" where
  "test_tenant_embedding_config env s now a tid q w =
     (case resolve_target_tenant s a tid of
        None \<Rightarrow> (Inl Forbidden, w)
      | Some t \<Rightarrow>
          (case load_tenant_config env s t w of
             None \<Rightarrow> (Inl ServerError, w)
           | Some current \<Rightarrow> (case try_config env s now q current w of (r, w') \<Rightarrow> (Inr r, w'))))"

section \<open>A saved override is read back\<close>

text \<open>The documented behaviour of the two encryption schemes.\<close>
definition crypto_sound :: "config_env \<Rightarrow> bool" where
  "crypto_sound env = ((\<forall>k x. ce_fernet_dec env k (ce_fernet_enc env k x) = Some x) \<and> (\<forall>t x. ce_qe_dec env (ce_qe_enc env t x) = Some x))"

lemma api_key_back: "crypto_sound env \<Longrightarrow> decrypt_api_key env s (VStr (encrypt_api_key env s k)) = k"
  by (simp add: decrypt_api_key_def encrypt_api_key_def crypto_sound_def startswith_def)

lemma tenant_key_back:
  assumes "crypto_sound env"
  shows "decrypt_tenant_api_key env s (encrypt_tenant_api_key env s t k) = k"
proof -
  have "\<not> startswith (encrypt_api_key env s k) ''qe::''" by (simp add: encrypt_api_key_def startswith_def)
  then show ?thesis using assms api_key_back [OF assms, of s k]
    by (simp add: decrypt_tenant_api_key_def encrypt_tenant_api_key_def crypto_sound_def startswith_def)
qed

lemma opt_value_back: "vget d f = opt_value x \<Longrightarrow> text_field d f = x"
  by (simp add: text_field_def opt_value_def split: option.splits)

lemma upsert_found:
  assumes "matches (apply_update u (upsert_seed q)) q" and "\<And>d. matches d q \<Longrightarrow> matches (apply_update u d) q"
  shows "\<exists>d. find_one q (fst (update_one q u True ds)) = Some (apply_update u d)"
proof (cases "find_one q ds")
  case (Some d)
  then have "matches d q" using find_one_SomeD by blast
  from find_one_on_first_same [where f = "apply_update u", OF Some assms(2) [OF this]]
  have "find_one q (on_first (\<lambda>d. matches d q) (apply_update u) ds) = Some (apply_update u d)" by simp
  then show ?thesis using Some by (auto simp: update_one_def fou_hit)
next
  case None
  then show ?thesis using assms(1)
    by (auto simp: update_one_def find_one_and_update_def find_one_append Let_def)
qed

lemma config_upserted:
  "\<exists>d. find_one config_key (fst (update_one config_key (set_fields (config_doc c enc b now)) True ds)) = Some (dmerge d (config_doc c enc b now))"
proof -
  have key: "matches (dmerge d (config_doc c enc b now)) config_key" for d
    by (simp add: config_key_def config_doc_def EMBEDDING_CONFIG_ID_def)
  show ?thesis using upsert_found [where u = "set_fields (config_doc c enc b now)" and q = config_key and ds = ds] key by simp
qed

lemma config_back:
  assumes "ec_provider c \<noteq> []" and "ec_azure_api_version c \<noteq> []"
  shows "config_from_doc s (dmerge d (config_doc c enc b now)) src k
       = Some (c\<lparr>ec_api_key := k, ec_updated_at := Some now, ec_updated_by := b, ec_source := src\<rparr>)"
  using assms
  by (simp add: config_from_doc_def config_doc_def py_or_def time_field_def opt_value_back)

lemma saved_back:
  assumes "crypto_sound env" and "ce_readable env (Some t)" and "t \<noteq> []"
    and "ec_provider c \<noteq> []" and "ec_azure_api_version c \<noteq> []"
  shows "load_tenant_config env s t (fst (save_tenant_config env s now t c b (w, p)))
       = Some (c\<lparr>ec_updated_at := Some now, ec_updated_by := b, ec_source := ''tenant-db''\<rparr>)"
proof -
  let ?d = "config_doc c (encrypt_tenant_api_key env s t (ec_api_key c)) b now"
  obtain d where d: "find_one config_key (fst (update_one config_key (set_fields ?d) True (cw_tenant w t))) = Some (dmerge d ?d)"
    using config_upserted by blast
  have "vget (dmerge d ?d) ''_id'' = VStr EMBEDDING_CONFIG_ID" by (simp add: config_doc_def)
  then have ne: "dmerge d ?d \<noteq> []" by auto
  have "vget (dmerge d ?d) ''api_key_encrypted'' = encrypt_tenant_api_key env s t (ec_api_key c)"
    by (simp add: config_doc_def)
  then show ?thesis using assms d ne config_back [OF assms(4,5)] tenant_key_back [OF assms(1)]
    by (simp add: load_tenant_config_def save_tenant_config_def resolved_tenant_def or_text_def Let_def)
qed

text \<open>C22. A tenant's saved embedding configuration is read back as it was, key included, whichever of the two
  encryption schemes is on and whatever was stored before, and no other tenant's is touched.\<close>
theorem saved_override_is_read_back:
  assumes "crypto_sound env" and "ce_readable env (Some t)" and "t \<noteq> []"
    and "ec_provider c \<noteq> []" and "ec_azure_api_version c \<noteq> []"
  shows "load_tenant_config env s t (fst (save_tenant_config env s now t c b (w, p)))
       = Some (c\<lparr>ec_updated_at := Some now, ec_updated_by := b, ec_source := ''tenant-db''\<rparr>)
     \<and> (u \<noteq> t \<longrightarrow> cw_tenant (fst (save_tenant_config env s now t c b (w, p))) u = cw_tenant w u)"
  using saved_back [OF assms] assms(3) by (simp add: save_tenant_config_def resolved_tenant_def or_text_def Let_def)

section \<open>What a tenant's test sends\<close>

lemma request_sent_mono: "set (es_sent st) \<subseteq> set (es_sent (snd (request_embeddings env svc ts st)))"
  by (auto simp: request_embeddings_def Let_def split: option.split pyval.split)

lemma failure_sent [simp]: "es_sent (embed_failure s st t) = es_sent st" "es_sent (embed_success st) = es_sent st"
  by (simp_all add: embed_failure_def embed_success_def Let_def)

lemma attempts_sent_mono: "set (es_sent st) \<subseteq> set (es_sent (snd (embed_attempts env s svc clk ts i k st)))"
proof (induction k arbitrary: i st)
  case (Suc k)
  have "set (es_sent st) \<subseteq> set (es_sent (embed_failure s (snd (request_embeddings env svc ts st)) (clk i)))"
    using request_sent_mono [of st] by simp
  also note Suc.IH [of _ "Suc i"]
  finally show ?case using request_sent_mono [of st env svc ts] by (cases "request_embeddings env svc ts st") simp
qed simp

lemma attempts_send:
  assumes "embed_request svc ts = Some q"
  shows "q \<in> set (es_sent (snd (embed_attempts env s svc clk ts i (Suc k) st)))"
proof -
  obtain r st1 where r: "request_embeddings env svc ts st = (r, st1)" by (cases "request_embeddings env svc ts st")
  then have q: "q \<in> set (es_sent st1)" using assms
    by (auto simp: request_embeddings_def Let_def split: option.splits pyval.splits)
  have "set (es_sent st1) \<subseteq> set (es_sent (snd (embed_attempts env s svc clk ts (Suc i) k (embed_failure s st1 (clk i)))))"
    using attempts_sent_mono [of "embed_failure s st1 (clk i)"] by simp
  then show ?thesis using q r by auto
qed

definition probe_text :: "settings \<Rightarrow> string" where
  "probe_text s = or_text (cfg_embedding_probe_text s) ''embedding dimension probe''"

lemma probe_sends:
  assumes "embed_request svc [probe_text s] = Some q" and "0 < cfg_embedding_retry_attempts s" and "0 \<le> now"
  shows "q \<in> set (snd (probe_service env s now svc))"
proof -
  obtain k where k: "nat (cfg_embedding_retry_attempts s) = Suc k" using assms(2) gr0_implies_Suc by force
  let ?r = "embed_texts (ce_embed env) s svc now (\<lambda>_. now) [probe_text s] (embed_new s)"
  have "q \<in> set (es_sent (snd ?r))"
    using attempts_send [OF assms(1)] assms(3) unfolding embed_texts_def k by (simp add: embed_is_open_def embed_new_def)
  moreover have "lru_get t now (es_cache (embed_new s)) = (None, es_cache (embed_new s))" for t
    by (simp add: lru_get_def embed_new_def lru_new_def)
  ultimately have "q \<in> set (es_sent (snd (embed_one (ce_embed env) s svc now (\<lambda>_. now) (probe_text s) (embed_new s))))"
    by (cases ?r) (auto simp: embed_one_def split: sum.split list.split)
  then show ?thesis
    by (auto simp: probe_service_def detect_dimensions_def probe_text_def [symmetric] split: prod.split sum.split)
qed

text \<open>The platform's own provider key leaves with a tenant's test request: an administrator of a tenant without
  an override, who names a base URL and no key, makes the gateway send the platform's key to that URL.\<close>
theorem tenant_test_sends_the_platform_key:
  assumes "find_one config_key (cw_tenant w t) = None" and "load_persisted_config env s w = Some c" and "ec_api_key c \<noteq> []"
    and "ad_tenant a = t" and "t \<noteq> []"
    and "ep_provider q = ''openai'' \<or> ep_provider q = ''voyage''" and "ep_model q = Some m" and "m \<noteq> []"
    and "ep_base_url q = Some u" and "u \<noteq> []" and "ep_api_key q = None"
    and "0 < cfg_embedding_retry_attempts s" and "0 \<le> now"
  shows "\<exists>pq\<in>set (cw_sent (snd (test_tenant_embedding_config env s now a t q w))).
     pq_url pq = trim_slash u @ ''/embeddings'' \<and> pq_headers pq = [(''Authorization'', ''Bearer '' @ ec_api_key c)]"
proof -
  have t: "resolve_target_tenant s a t = Some t" using assms(4,5) by (simp add: resolve_target_tenant_def or_text_def)
  have load: "load_tenant_config env s t w = Some (c\<lparr>ec_source := ''platform-default''\<rparr>)"
    using assms(1,2,5) by (simp add: load_tenant_config_def resolved_tenant_def or_text_def Let_def)
  define m' where "m' = merge_embedding_config s (c\<lparr>ec_source := ''platform-default''\<rparr>) q"
  have m': "ec_provider m' = ep_provider q" "ec_model m' = m" "ec_api_key m' = ec_api_key c" "ec_base_url m' = Some u"
    using assms(7,9,11) by (simp_all add: m'_def merge_embedding_config_def Let_def)
  obtain svc where svc: "build_provider_service s m' = Some svc"
    "svc = OpenAI m (ec_api_key c) (trim_slash u) (ec_dimensions m') \<or> svc = Voyage m (ec_api_key c) (trim_slash u) (ec_dimensions m')"
    using assms(6,10) m' by (auto simp: build_provider_service_def opt_or_def or_text_def Let_def)
  have valid: "\<not> invalid_config m'" using assms(3,6,8) m' by (auto simp: invalid_config_def SUPPORTED_PROVIDERS_def)
  obtain pq where pq: "embed_request svc [probe_text s] = Some pq" "pq_url pq = trim_slash u @ ''/embeddings''"
    "pq_headers pq = [(''Authorization'', ''Bearer '' @ ec_api_key c)]"
    using svc(2) assms(3) by (elim disjE) auto
  have "pq \<in> set (cw_sent (snd (test_tenant_embedding_config env s now a t q w)))"
    using probe_sends [OF pq(1) assms(12,13), of env] t load valid svc(1)
    by (auto simp: test_tenant_embedding_config_def try_config_def Let_def m'_def [symmetric] log_sent_def
        split: prod.split sum.split)
  then show ?thesis using pq(2,3) by blast
qed

section \<open>The stored width\<close>

lemma load_tenant_cong:
  assumes "cw_control w = cw_control w'" and "cw_tenant w = cw_tenant w'"
  shows "load_tenant_config env s t w = load_tenant_config env s t w'"
  unfolding load_tenant_config_def load_persisted_config_def assms by (rule refl)

lemma config_fleet [simp]:
  "load_tenant_config env s t (w\<lparr>cw_fleet := f\<rparr>) = load_tenant_config env s t w"
  "load_tenant_config env s t (log_sent qs w) = load_tenant_config env s t w"
  by (rule load_tenant_cong; simp add: log_sent_def)+

lemma config_dims_back:
  "config_from_doc s (dmerge d (config_doc c enc b now)) src k = Some c' \<Longrightarrow> ec_dimensions c' = ec_dimensions c"
  by (auto simp: config_from_doc_def config_doc_def py_or_def split: if_splits)

lemma saved_dims:
  assumes "ce_readable env (Some t)" and "t \<noteq> []"
    and "load_tenant_config env s t (fst (save_tenant_config env s now t c b wp)) = Some c'"
  shows "ec_dimensions c' = ec_dimensions c"
proof -
  let ?d = "config_doc c (encrypt_tenant_api_key env s t (ec_api_key c)) b now"
  obtain d where d: "find_one config_key (fst (update_one config_key (set_fields ?d) True (cw_tenant (fst wp) t))) = Some (dmerge d ?d)"
    using config_upserted by blast
  have "vget (dmerge d ?d) ''_id'' = VStr EMBEDDING_CONFIG_ID" by (simp add: config_doc_def)
  then have "dmerge d ?d \<noteq> []" by auto
  then show ?thesis using assms d config_dims_back
    by (fastforce simp: load_tenant_config_def save_tenant_config_def resolved_tenant_def or_text_def Let_def)
qed

lemma trigger_keeps_config:
  "load_tenant_config env s t (fst (snd (trigger_tenant_reprovision env s now u b wp))) = load_tenant_config env s t (fst wp)"
  by (rule load_tenant_cong; auto simp: trigger_tenant_reprovision_def write_status_def Let_def split: option.split prod.split)

text \<open>The width a tenant's configuration is stored with is measured, never declared: it is the length of the vector
  the configured provider itself returned for the probe text when the configuration was saved.\<close>
theorem stored_width_is_measured:
  assumes "update_tenant_embedding_config env s now a tid q (w, p) = (Inr c, wp')"
    and "\<And>t. ce_readable env (Some t)" and "ad_tenant a \<noteq> []"
  shows "\<exists>t current svc qs. resolve_target_tenant s a tid = Some t \<and> load_tenant_config env s t w = Some current
     \<and> build_provider_service s (merge_embedding_config s current q) = Some svc
     \<and> probe_service env s now svc = (Inr (ec_dimensions c), qs) \<and> load_tenant_config env s t (fst wp') = Some c"
proof -
  obtain t where t: "resolve_target_tenant s a tid = Some t" "\<not> is_reprovision_running env now (Some t) w"
    using assms(1) by (auto simp: update_tenant_embedding_config_def split: option.splits if_splits)
  then have ne: "t \<noteq> []" using assms(3)
    by (auto simp: resolve_target_tenant_def or_text_def opt_or_def Let_def split: if_splits option.splits)
  define w1 where "w1 = w\<lparr>cw_fleet := snd (provision_tenant (ce_sha env) s now t (cw_fleet w))\<rparr>"
  obtain current cand qs where cur: "load_tenant_config env s t w = Some current"
    and cand: "validate_and_detect env s now (merge_embedding_config s current q) = (Inr cand, qs)"
    using assms(1) t by (auto simp: update_tenant_embedding_config_def Let_def split: option.splits prod.splits sum.splits)
  define wp2 where "wp2 = save_tenant_config env s now t cand (Some (ad_user a)) (log_sent qs w1, p)"
  have w1: "load_tenant_config env s t w1 = Some current" using cur by (simp add: w1_def)
  obtain c2 where c2: "load_tenant_config env s t (fst wp2) = Some c2"
    using w1 assms(1) t cur cand
    by (auto simp: update_tenant_embedding_config_def Let_def w1_def [symmetric] wp2_def split: option.splits)
  have res: "c = c2 \<and> (wp' = wp2 \<or> wp' = snd (trigger_tenant_reprovision env s now t (Some (ad_user a)) wp2))"
    using assms(1) t w1 cand c2
    by (auto simp: update_tenant_embedding_config_def Let_def w1_def [symmetric] wp2_def [symmetric]
        split: if_splits prod.splits sum.splits)
  obtain svc n where svc: "build_provider_service s (merge_embedding_config s current q) = Some svc"
    "probe_service env s now svc = (Inr n, qs)" "ec_dimensions cand = n"
    using cand by (auto simp: validate_and_detect_def split: if_splits option.splits prod.splits sum.splits)
  have "ec_dimensions c2 = n" using saved_dims [OF assms(2) ne c2 [unfolded wp2_def]] svc(3) by simp
  moreover have "load_tenant_config env s t (fst wp') = Some c" using res c2 trigger_keeps_config [of env s t now t "Some (ad_user a)" wp2] by auto
  ultimately show ?thesis using t(1) cur svc res by blast
qed

text \<open>While a tenant's vectors are being rebuilt its configuration cannot be changed.\<close>
lemma busy_configuration_is_frozen:
  assumes "is_reprovision_running env now (Some t) w" and "resolve_target_tenant s a tid = Some t"
  shows "update_tenant_embedding_config env s now a tid q (w, p) = (Inl Conflict, w, p)"
    and "reset_tenant_embedding_config env s now a tid r (w, p) = (Inl Conflict, w, p)"
  using assms by (simp_all add: update_tenant_embedding_config_def reset_tenant_embedding_config_def)

section \<open>Which service a tenant gets\<close>

text \<open>A tenant never embeds with another tenant's provider or key: a process that has no service for it yet takes
  the platform's when it has no override, and otherwise builds one from its own document and key; and what
  it keeps for other tenants does not change.\<close>
theorem tenants_embed_with_their_own:
  assumes "dget (cp_tenants p) t = None" and "t \<noteq> []" and "ce_readable env (Some t)"
    and "get_embedding_service_for env s t (w, p) = (Some ts, p')"
  shows "(find_one config_key (cw_tenant w t) = None \<longrightarrow> ts = FollowActive \<and> p' = p)
     \<and> (\<forall>d. find_one config_key (cw_tenant w t) = Some d \<and> d \<noteq> [] \<longrightarrow>
          (\<exists>c svc. config_from_doc s d ''tenant-db'' (decrypt_tenant_api_key env s (vget d ''api_key_encrypted'')) = Some c
             \<and> build_provider_service s c = Some svc \<and> ts = OwnService svc))
     \<and> (u \<noteq> t \<longrightarrow> dget (cp_tenants p') u = dget (cp_tenants p) u)"
proof -
  have src: "config_from_doc s d ''tenant-db'' k = Some c \<Longrightarrow> ec_source c \<noteq> ''platform-default''" for d k c
    by (auto simp: config_from_doc_def)
  show ?thesis using assms src
    by (auto simp: get_embedding_service_for_def load_tenant_config_def resolved_tenant_def or_text_def Let_def
        split: option.splits if_splits)
qed

text \<open>A service another process has cached outlives every change of the configuration.\<close>
lemma other_process_keeps_its_service:
  assumes "dget (cp_tenants p) t = Some svc" and "t \<noteq> []"
  shows "get_embedding_service_for env s t (w, p) = (Some (OwnService svc), p)"
  using assms by (simp add: get_embedding_service_for_def resolved_tenant_def or_text_def)

section \<open>Witnesses\<close>

text \<open>A provider that answers every request with one vector of width 2.\<close>
definition demo_config_env :: config_env where
  "demo_config_env = \<lparr>ce_fernet_enc = (\<lambda>k x. x), ce_fernet_dec = (\<lambda>k x. Some x), ce_qe_enc = (\<lambda>t x. x), ce_qe_dec = Some,
     ce_readable = (\<lambda>_. True),
     ce_embed = \<lparr>ee_post = (\<lambda>_ _. Some (VDict [(''data'', VList [VDict [(''embedding'', VList [VInt 1, VInt 2])]])])), ee_float = (\<lambda>_. None)\<rparr>,
     ce_sha = (\<lambda>_. ''0123456789'')\<rparr>"

definition demo_platform :: embedding_config where
  "demo_platform = \<lparr>ec_provider = ''openai'', ec_model = ''m'', ec_base_url = None, ec_dimensions = 2, ec_api_key = ''sk-platform'',
     ec_azure_endpoint = None, ec_azure_api_version = ''v1'', ec_azure_deployment = None, ec_updated_at = Some 1, ec_updated_by = None,
     ec_source = ''db''\<rparr>"

definition demo_config_world :: config_world where
  "demo_config_world = \<lparr>cw_control = [config_doc demo_platform (VStr ''enc::sk-platform'') None 1], cw_tenant = (\<lambda>_. []), cw_status = [],
     cw_fleet = demo_fleet, cw_sent = [], cw_jobs = []\<rparr>"

definition demo_payload :: config_payload where
  "demo_payload = \<lparr>ep_provider = ''openai'', ep_model = Some ''m'', ep_base_url = Some ''https://evil.example'', ep_api_key = None,
     ep_azure_endpoint = None, ep_azure_api_version = None, ep_azure_deployment = None, ep_reprovision = False\<rparr>"

definition demo_tenant_admin :: admin_caller where
  "demo_tenant_admin = \<lparr>ad_user = ''eve'', ad_tenant = ''acme'', ad_roles = [''admin''], ad_header_tenant = None\<rparr>"

definition demo_config_proc :: config_proc where
  "demo_config_proc = \<lparr>cp_active = None, cp_tenants = []\<rparr>"

lemma demo_persisted: "load_persisted_config demo_config_env default_settings demo_config_world = Some demo_platform"
  by (simp add: load_persisted_config_def demo_config_env_def demo_config_world_def config_key_def EMBEDDING_CONFIG_ID_def
      config_doc_def demo_platform_def decrypt_api_key_def startswith_def or_text_def config_from_doc_def py_or_def
      text_field_def time_field_def opt_value_def Let_def)

lemma tenant_test_sends_the_platform_key_witness:
  "\<exists>pq\<in>set (cw_sent (snd (test_tenant_embedding_config demo_config_env default_settings 0 demo_tenant_admin ''acme'' demo_payload
       demo_config_world))).
     pq_url pq = trim_slash ''https://evil.example'' @ ''/embeddings''
     \<and> pq_headers pq = [(''Authorization'', ''Bearer '' @ ec_api_key demo_platform)]"
  by (rule tenant_test_sends_the_platform_key [OF _ demo_persisted, where m = "''m''" and u = "''https://evil.example''"])
    (simp_all add: demo_config_world_def demo_platform_def demo_tenant_admin_def demo_payload_def default_settings_def)

lemma saved_override_is_read_back_witness:
  "load_tenant_config demo_config_env default_settings ''acme''
     (fst (save_tenant_config demo_config_env default_settings 5 ''acme'' demo_platform (Some ''eve'') (demo_config_world, demo_config_proc)))
     = Some (demo_platform\<lparr>ec_updated_at := Some 5, ec_updated_by := Some ''eve'', ec_source := ''tenant-db''\<rparr>)
   \<and> cw_tenant (fst (save_tenant_config demo_config_env default_settings 5 ''acme'' demo_platform (Some ''eve'')
       (demo_config_world, demo_config_proc))) ''other'' = cw_tenant demo_config_world ''other''"
  using saved_override_is_read_back [of demo_config_env "''acme''" demo_platform default_settings 5 "Some ''eve''" demo_config_world
      demo_config_proc "''other''"]
  by (simp add: crypto_sound_def demo_config_env_def demo_platform_def)

lemma tenants_embed_with_their_own_witness:
  "(find_one config_key (cw_tenant demo_config_world ''acme'') = None \<longrightarrow> FollowActive = FollowActive \<and> demo_config_proc = demo_config_proc)
     \<and> (\<forall>d. find_one config_key (cw_tenant demo_config_world ''acme'') = Some d \<and> d \<noteq> [] \<longrightarrow>
          (\<exists>c svc. config_from_doc default_settings d ''tenant-db''
               (decrypt_tenant_api_key demo_config_env default_settings (vget d ''api_key_encrypted'')) = Some c
             \<and> build_provider_service default_settings c = Some svc \<and> FollowActive = OwnService svc))
     \<and> (''other'' \<noteq> ''acme'' \<longrightarrow> dget (cp_tenants demo_config_proc) ''other'' = dget (cp_tenants demo_config_proc) ''other'')"
proof (rule tenants_embed_with_their_own)
  show "get_embedding_service_for demo_config_env default_settings ''acme'' (demo_config_world, demo_config_proc)
      = (Some FollowActive, demo_config_proc)"
    using demo_persisted
    by (simp add: get_embedding_service_for_def load_tenant_config_def resolved_tenant_def or_text_def demo_config_proc_def Let_def)
      (simp add: demo_config_world_def)
qed (simp_all add: demo_config_proc_def demo_config_env_def)

lemma stored_width_is_measured_witness:
  "\<exists>c wp'. update_tenant_embedding_config demo_config_env default_settings 0 demo_tenant_admin ''acme'' demo_payload
       (demo_config_world, demo_config_proc) = (Inr c, wp')
     \<and> (\<exists>t current svc qs. resolve_target_tenant default_settings demo_tenant_admin ''acme'' = Some t
       \<and> load_tenant_config demo_config_env default_settings t demo_config_world = Some current
       \<and> build_provider_service default_settings (merge_embedding_config default_settings current demo_payload) = Some svc
       \<and> probe_service demo_config_env default_settings 0 svc = (Inr (ec_dimensions c), qs)
       \<and> load_tenant_config demo_config_env default_settings t (fst wp') = Some c)"
proof -
  let ?c = "demo_platform\<lparr>ec_source := ''platform-default''\<rparr>"
  have load: "load_tenant_config demo_config_env default_settings ''acme'' demo_config_world = Some ?c"
    using demo_persisted by (simp add: load_tenant_config_def resolved_tenant_def or_text_def Let_def) (simp add: demo_config_world_def)
  let ?m = "merge_embedding_config default_settings ?c demo_payload"
  define cand where "cand = ?m\<lparr>ec_dimensions := 2\<rparr>"
  have m: "?m = demo_platform\<lparr>ec_dimensions := 0, ec_base_url := Some ''https://evil.example'', ec_updated_at := None, ec_source := ''env''\<rparr>"
    by (simp add: merge_embedding_config_def demo_payload_def demo_platform_def opt_or_def or_text_def Let_def)
  have "\<exists>qs. validate_and_detect demo_config_env default_settings 0 ?m = (Inr cand, qs)"
    unfolding cand_def m
    by (simp add: validate_and_detect_def invalid_config_def SUPPORTED_PROVIDERS_def demo_platform_def build_provider_service_def
        probe_service_def detect_dimensions_def embed_one_def lru_get_def embed_new_def lru_new_def embed_texts_def embed_is_open_def
        default_settings_def or_text_def opt_or_def Let_def request_embeddings_def demo_config_env_def data_embeddings_def
        sort_items_def item_field_def as_list_def float_row_def py_float_def numeral_2_eq_2)
  then obtain qs where v: "validate_and_detect demo_config_env default_settings 0 ?m = (Inr cand, qs)" by blast
  define w where "w = log_sent qs (demo_config_world\<lparr>cw_fleet := snd (provision_tenant (ce_sha demo_config_env) default_settings 0 ''acme''
      (cw_fleet demo_config_world))\<rparr>)"
  define wp where "wp = save_tenant_config demo_config_env default_settings 0 ''acme'' cand (Some ''eve'') (w, demo_config_proc)"
  define c where "c = cand\<lparr>ec_updated_at := Some 0, ec_updated_by := Some ''eve'', ec_source := ''tenant-db''\<rparr>"
  have saved: "load_tenant_config demo_config_env default_settings ''acme'' (fst wp) = Some c"
    unfolding wp_def c_def cand_def m by (rule saved_back) (simp_all add: crypto_sound_def demo_config_env_def demo_platform_def)
  have t: "resolve_target_tenant default_settings demo_tenant_admin ''acme'' = Some ''acme''"
    by (simp add: resolve_target_tenant_def or_text_def demo_tenant_admin_def)
  have idle: "\<not> is_reprovision_running demo_config_env 0 (Some ''acme'') demo_config_world"
    by (simp add: is_reprovision_running_def get_reprovision_status_def is_running_and_fresh_def demo_config_world_def)
  have user: "ad_user demo_tenant_admin = ''eve''" and norep: "\<not> ep_reprovision demo_payload"
    by (simp_all add: demo_tenant_admin_def demo_payload_def)
  have upd: "update_tenant_embedding_config demo_config_env default_settings 0 demo_tenant_admin ''acme'' demo_payload
       (demo_config_world, demo_config_proc) = (Inr c, wp)"
    using load v t idle saved norep
    by (simp add: update_tenant_embedding_config_def user Let_def w_def [symmetric] wp_def [symmetric])
  show ?thesis
    by (rule exI [of _ c], rule exI [of _ wp], rule conjI [OF upd], rule stored_width_is_measured [OF upd])
      (simp_all add: demo_config_env_def demo_tenant_admin_def)
qed

end
