(* ===== verification/CacheMigration.thy ===== *)
theory CacheMigration
  imports SemanticCache
begin

text \<open>\<open>services/cache_migration.py\<close>: what happens to cached results when the embedding version changes.  Entries of any
  other version are stale; they are counted, deleted, or embedded again, a page at a time.  Concurrent
  writes of a page are taken in page order; the provider's batch call is a parameter.\<close>

section \<open>Pages\<close>

record mig_env =
  me_cache :: cache_env
  me_texts :: "string list \<Rightarrow> real list list option"
  me_index_names :: "string \<Rightarrow> string list option"

definition stale_query :: "string \<Rightarrow> query" where
  "stale_query version = [(''embedding_version'', COps [QNe (VStr version)])]"

definition page_size :: "settings \<Rightarrow> int \<Rightarrow> nat" where
  "page_size s batch_size = nat (if batch_size > 0 then batch_size else max 1 (cfg_cache_migration_fetch_page_size s))"

definition stale_page :: "string \<Rightarrow> nat \<Rightarrow> docs \<Rightarrow> docs" where
  "stale_page version n ds = take n (find_docs (stale_query version) ds)"

definition doc_version :: "doc \<Rightarrow> string" where
  "doc_version d = py_str (py_or (vget d ''embedding_version'') (VStr ''unversioned''))"

definition count_by_version :: "docs \<Rightarrow> (string \<times> int) list" where
  "count_by_version ds =
     foldl (\<lambda>c d. dput (doc_version d) ((case dget c (doc_version d) of Some n \<Rightarrow> n | None \<Rightarrow> 0) + 1) c) [] ds"

definition stale_doc_query :: "doc \<Rightarrow> query" where
  "stale_doc_query d =
     [(''tool_name'', CEq (vget d ''tool_name'')), (''arguments_hash'', CEq (vget d ''arguments_hash'')),
      (''embedding_version'', CEq (vget d ''embedding_version''))]
     @ (if truthy (vget d ''tenant_id'') then [(''tenant_id'', CEq (vget d ''tenant_id''))] else [])"

definition page_ids :: "docs \<Rightarrow> pyval list" where
  "page_ids page = filter (\<lambda>v. v \<noteq> VNone) (map (\<lambda>d. vget d ''_id'') page)"

definition delete_page :: "docs \<Rightarrow> docs \<Rightarrow> docs \<times> nat" where
  "delete_page page ds =
     (if page_ids page \<noteq> [] then delete_many [(''_id'', COps [QIn (page_ids page)])] ds
      else foldl (\<lambda>acc d. case delete_many (stale_doc_query d) (fst acc) of (ds', n) \<Rightarrow> (ds', snd acc + n)) (ds, 0) page)"

lemma delete_many_count: "delete_many q ds = (ds', n) \<Longrightarrow> length ds' + n = length ds"
  by (auto simp: delete_many_def Let_def)

lemma delete_page_count: "delete_page page ds = (ds', n) \<Longrightarrow> length ds' + n = length ds"
proof -
  have fold: "foldl (\<lambda>acc d. case delete_many (stale_doc_query d) (fst acc) of (ds', n) \<Rightarrow> (ds', snd acc + n)) (xs, k) page = (ys, m)
      \<Longrightarrow> length ys + m = length xs + k" for xs ys k m
  proof (induction page arbitrary: xs k)
    case (Cons d page)
    obtain zs j where z: "delete_many (stale_doc_query d) xs = (zs, j)" by (cases "delete_many (stale_doc_query d) xs")
    then show ?case using Cons delete_many_count [OF z] by fastforce
  qed simp
  assume "delete_page page ds = (ds', n)"
  then show ?thesis using fold [of ds 0 ds' n] delete_many_count [of _ ds ds' n] by (auto simp: delete_page_def split: if_splits)
qed

section \<open>Purging\<close>

text \<open>The paged loop: it ends when a page is empty or none of it could be deleted.\<close>
function purge_stale_entries :: "string \<Rightarrow> nat \<Rightarrow> docs \<Rightarrow> docs \<times> nat" where
  "purge_stale_entries version n ds =
     (let page = stale_page version n ds in
      if page = [] then (ds, 0)
      else case delete_page page ds of
          (ds', removed) \<Rightarrow>
            if removed = 0 then (ds', 0)
            else (case purge_stale_entries version n ds' of (ds'', m) \<Rightarrow> (ds'', removed + m)))"
  by auto
termination
  by (relation "measure (\<lambda>(v, n, ds). length ds)") (auto dest!: delete_page_count [OF sym])

declare purge_stale_entries.simps [simp del]

section \<open>Embedding again\<close>

definition usable_doc :: "doc \<Rightarrow> bool" where
  "usable_doc d = (is_str (vget d ''tool_name'') \<and> as_doc (vget d ''arguments'') \<noteq> None)"

definition doc_tool :: "doc \<Rightarrow> string" where
  "doc_tool d = py_str (vget d ''tool_name'')"

definition doc_args :: "doc \<Rightarrow> doc" where
  "doc_args d = doc_or_empty (as_doc (vget d ''arguments''))"

definition remaining_ttl :: "real \<Rightarrow> pyval \<Rightarrow> int" where
  "remaining_ttl now v = (case v of VTime e \<Rightarrow> max 1 (trunc (e - now)) | _ \<Rightarrow> 24 * 3600)"

text \<open>Store one entry under the active version; the exception, if the index cannot be set up.\<close>
definition store_one :: "mig_env \<Rightarrow> real \<Rightarrow> string \<Rightarrow> doc \<times> real list \<Rightarrow> cache_state \<Rightarrow> cache_exc option \<times> cache_state" where
  "store_one env now tid dv st =
     (case dv of (d, vec) \<Rightarrow>
        store_entry (me_cache env) now (doc_tool d) (doc_args d) (vget d ''result'') tid (remaining_ttl now (vget d ''expires_at''))
          (Some vec) st)"

text \<open>\<open>gather\<close>: every write is carried out, the first exception is raised.\<close>
fun store_all :: "mig_env \<Rightarrow> real \<Rightarrow> string \<Rightarrow> (doc \<times> real list) list \<Rightarrow> cache_state \<Rightarrow> cache_exc option \<times> cache_state" where
  "store_all env now tid [] st = (None, st)"
| "store_all env now tid (dv # dvs) st =
     (case store_one env now tid dv st of
        (x, st1) \<Rightarrow> (case store_all env now tid dvs st1 of (y, st2) \<Rightarrow> (if x \<noteq> None then x else y, st2)))"

definition set_tenant_docs :: "string \<Rightarrow> docs \<Rightarrow> cache_state \<Rightarrow> cache_state" where
  "set_tenant_docs tid ds st = st\<lparr>sc_docs := (sc_docs st)(tid := ds)\<rparr>"

datatype mig_exc = ProviderFailed | LengthMismatch | StoreFailed

text \<open>One page: the usable entries are embedded in one call and stored, then the page is deleted.\<close>
definition reembed_page ::
  "mig_env \<Rightarrow> real \<Rightarrow> string \<Rightarrow> docs \<Rightarrow> cache_state \<Rightarrow> (mig_exc + nat \<times> nat) \<times> cache_state" where
  "reembed_page env now tid page st =
     (let usable = filter usable_doc page;
          finish = (\<lambda>st. case delete_page page (sc_docs st tid) of
                        (ds, removed) \<Rightarrow> (Inr (length usable, removed), set_tenant_docs tid ds st))
      in if usable = [] then finish st
         else case me_texts env (map (\<lambda>d. serialize (me_cache env) (doc_tool d) (doc_args d)) usable) of
             None \<Rightarrow> (Inl ProviderFailed, st)
           | Some vecs \<Rightarrow>
               if length vecs \<noteq> length usable then (Inl LengthMismatch, st)
               else (case store_all env now tid (zip usable vecs) st of
                       (Some x, st1) \<Rightarrow> (Inl StoreFailed, st1)
                     | (None, st1) \<Rightarrow> finish st1))"

text \<open>The loop with \<open>fuel\<close> rounds; None: they did not suffice.  Counts of entries embedded again and skipped.\<close>
fun reembed_stale_entries ::
  "nat \<Rightarrow> mig_env \<Rightarrow> real \<Rightarrow> string \<Rightarrow> string \<Rightarrow> nat \<Rightarrow> cache_state \<Rightarrow> ((mig_exc + nat \<times> nat) \<times> cache_state) option" where
  "reembed_stale_entries 0 env now version tid n st = None"
| "reembed_stale_entries (Suc fuel) env now version tid n st =
     (let page = stale_page version n (sc_docs st tid); skipped = length (filter (\<lambda>d. \<not> usable_doc d) page) in
      if page = [] then Some (Inr (0, 0), st)
      else case reembed_page env now tid page st of
          (Inl x, st1) \<Rightarrow> Some (Inl x, st1)
        | (Inr (done, removed), st1) \<Rightarrow>
            if removed = 0 \<and> done = 0 then Some (Inr (done, skipped), st1)
            else (case reembed_stale_entries fuel env now version tid n st1 of
                    None \<Rightarrow> None
                  | Some (Inl x, st2) \<Rightarrow> Some (Inl x, st2)
                  | Some (Inr (d, k), st2) \<Rightarrow> Some (Inr (done + d, skipped + k), st2)))"

section \<open>A migration\<close>

datatype migration_mode = StatusOnly | Purge | Reembed

record mig_summary =
  ms_tenant :: string
  ms_total :: nat
  ms_active :: nat
  ms_stale :: nat
  ms_counts :: "(string \<times> int) list"
  ms_index_present :: bool
  ms_purged :: nat
  ms_reembedded :: nat
  ms_skipped :: nat
  ms_remaining :: nat

definition active_version :: "mig_env \<Rightarrow> string \<Rightarrow> string" where
  "active_version env tid = emb_version (env_embedder (me_cache env) tid)"

definition version_count :: "string \<Rightarrow> (string \<times> int) list \<Rightarrow> nat" where
  "version_count v c = (case dget c v of Some n \<Rightarrow> nat n | None \<Rightarrow> 0)"

definition migrate_tenant ::
  "nat \<Rightarrow> mig_env \<Rightarrow> settings \<Rightarrow> real \<Rightarrow> migration_mode \<Rightarrow> int \<Rightarrow> string \<Rightarrow> cache_state
   \<Rightarrow> ((mig_exc + mig_summary) \<times> cache_state) option" where
  "migrate_tenant fuel env s now mode batch tid st =
     (let version = active_version env tid; ds = sc_docs st tid; counts = count_by_version ds;
          total = nat (sum_list (map snd counts)); active = version_count version counts; stale = total - active;
          names = (case me_index_names env tid of Some ns \<Rightarrow> ns | None \<Rightarrow> []);
          base = \<lparr>ms_tenant = tid, ms_total = total, ms_active = active, ms_stale = stale, ms_counts = counts,
                  ms_index_present = (semantic_cache_index_name (env_sha1 (me_cache env)) version \<in> set names),
                  ms_purged = 0, ms_reembedded = 0, ms_skipped = 0, ms_remaining = stale\<rparr>
      in case mode of
           StatusOnly \<Rightarrow> Some (Inr base, st)
         | Purge \<Rightarrow>
             (case purge_stale_entries version (page_size s batch) ds of
                (ds', n) \<Rightarrow> Some (Inr (base\<lparr>ms_purged := n, ms_remaining := stale - n\<rparr>), set_tenant_docs tid ds' st))
         | Reembed \<Rightarrow>
             (case reembed_stale_entries fuel env now version tid (page_size s batch) st of
                None \<Rightarrow> None
              | Some (Inl x, st') \<Rightarrow> Some (Inl x, st')
              | Some (Inr (m, k), st') \<Rightarrow>
                  Some (Inr (base\<lparr>ms_reembedded := m, ms_skipped := k, ms_remaining := stale - m - k\<rparr>), st')))"

text \<open>The tenants in order; the first exception ends the run.\<close>
fun migrate ::
  "nat \<Rightarrow> mig_env \<Rightarrow> settings \<Rightarrow> real \<Rightarrow> migration_mode \<Rightarrow> int \<Rightarrow> string list \<Rightarrow> cache_state
   \<Rightarrow> ((mig_exc + mig_summary list) \<times> cache_state) option" where
  "migrate fuel env s now mode batch [] st = Some (Inr [], st)"
| "migrate fuel env s now mode batch (t # ts) st =
     (case migrate_tenant fuel env s now mode batch t st of
        None \<Rightarrow> None
      | Some (Inl x, st1) \<Rightarrow> Some (Inl x, st1)
      | Some (Inr m, st1) \<Rightarrow>
          (case migrate fuel env s now mode batch ts st1 of
             None \<Rightarrow> None
           | Some (Inl x, st2) \<Rightarrow> Some (Inl x, st2)
           | Some (Inr ms, st2) \<Rightarrow> Some (Inr (m # ms), st2)))"

section \<open>Deleting a page\<close>

definition is_stale :: "string \<Rightarrow> doc \<Rightarrow> bool" where
  "is_stale version d = matches d (stale_query version)"

lemma is_stale_iff: "is_stale version d \<longleftrightarrow> vget d ''embedding_version'' \<noteq> VStr version"
  by (simp add: is_stale_def stale_query_def resolve_plain)

text \<open>The store's documented behaviour on ids: every stale document has one, no two documents share it.\<close>
definition ids_ok :: "string \<Rightarrow> docs \<Rightarrow> bool" where
  "ids_ok version ds =
     ((\<forall>d\<in>set ds. is_stale version d \<longrightarrow> is_str (vget d ''_id''))
      \<and> (\<forall>d\<in>set ds. \<forall>e\<in>set ds. is_stale version d \<and> \<not> is_stale version e \<longrightarrow> (\<forall>x\<in>set (value_items (vget e ''_id'')). x \<noteq> vget d ''_id''))
      \<and> distinct (map (\<lambda>d. vget d ''_id'') (filter (is_stale version) ds)))"

lemma stale_page_alt: "stale_page version n ds = take n (filter (is_stale version) ds)"
  unfolding stale_page_def find_docs_def is_stale_def by (rule refl)

lemma is_str_iff: "is_str v \<longleftrightarrow> (\<exists>t. v = VStr t)"
  by (cases v) (simp_all add: is_str_def)

lemma id_match:
  assumes "\<forall>v\<in>set ids. is_str v"
  shows "matches d [(''_id'', COps [QIn ids])] \<longleftrightarrow> (\<exists>x\<in>set (value_items (vget d ''_id'')). x \<in> set ids)"
proof -
  have "veq x v = (x = v)" if v: "v \<in> set ids" for x v
  proof -
    obtain t where "v = VStr t" using assms v by (auto simp: is_str_iff)
    then show ?thesis by simp
  qed
  then show ?thesis by (auto simp: resolve_plain vmem_def list_ex_iff)
qed

lemma page_deleted:
  assumes "ids_ok version ds" and "page = take n (filter (is_stale version) ds)" and "page \<noteq> []"
  shows "delete_page page ds = (filter (\<lambda>d. d \<notin> set page) ds, length page)"
    and "filter (is_stale version) (filter (\<lambda>d. d \<notin> set page) ds) = drop n (filter (is_stale version) ds)"
    and "filter (\<lambda>d. \<not> is_stale version d) (filter (\<lambda>d. d \<notin> set page) ds) = filter (\<lambda>d. \<not> is_stale version d) ds"
proof -
  let ?S = "filter (is_stale version) ds"
  have sub: "set page \<subseteq> set ?S" unfolding assms(2) by (rule set_take_subset)
  have str: "is_str (vget d ''_id'')" if "d \<in> set page" for d using assms(1) sub that by (auto simp: ids_ok_def)
  then have "page_ids page = map (\<lambda>d. vget d ''_id'') page"
    by (fastforce simp: page_ids_def filter_id_conv is_str_iff)
  then have ids: "page_ids page \<noteq> []" "set (page_ids page) = (\<lambda>d. vget d ''_id'') ` set page" using assms(3) by auto
  have inj: "inj_on (\<lambda>d. vget d ''_id'') (set ?S)" and ds: "distinct ?S"
    using assms(1) by (auto simp: ids_ok_def distinct_map)
  have m: "matches d [(''_id'', COps [QIn (page_ids page)])] \<longleftrightarrow> d \<in> set page" if d: "d \<in> set ds" for d
  proof -
    have strs: "\<forall>v\<in>set (page_ids page). is_str v" using ids(2) str by auto
    have m: "matches d [(''_id'', COps [QIn (page_ids page)])] \<longleftrightarrow>
        (\<exists>x\<in>set (value_items (vget d ''_id'')). \<exists>e\<in>set page. x = vget e ''_id'')" unfolding id_match [OF strs] ids(2) by blast
    show ?thesis
    proof (cases "is_stale version d")
      case True
      then have "value_items (vget d ''_id'') = [vget d ''_id'']"
        using assms(1) d by (auto simp: ids_ok_def is_str_def value_items_def split: pyval.splits)
      then show ?thesis using m inj sub True d unfolding inj_on_def by auto
    next
      case False
      then show ?thesis using m sub assms(1) d unfolding ids_ok_def by fastforce
    qed
  qed
  have kept: "filter (\<lambda>d. \<not> matches d [(''_id'', COps [QIn (page_ids page)])]) ds = filter (\<lambda>d. d \<notin> set page) ds"
    using m by (intro filter_cong) auto
  show stale: "filter (is_stale version) (filter (\<lambda>d. d \<notin> set page) ds) = drop n ?S"
  proof -
    have "filter (is_stale version) (filter (\<lambda>d. d \<notin> set page) ds) = filter (\<lambda>d. d \<notin> set page) ?S"
      by (simp add: conj_commute)
    also have "\<dots> = filter (\<lambda>d. d \<notin> set page) (page @ drop n ?S)" using assms(2) by simp
    also have "\<dots> = drop n ?S"
    proof -
      have "set page \<inter> set (drop n ?S) = {}" using ds assms(2) set_take_disj_set_drop_if_distinct [of ?S n n] by simp
      then show ?thesis by (auto simp: filter_id_conv)
    qed
    finally show ?thesis .
  qed
  show live: "filter (\<lambda>d. \<not> is_stale version d) (filter (\<lambda>d. d \<notin> set page) ds) = filter (\<lambda>d. \<not> is_stale version d) ds"
    using sub by (auto intro: filter_cong)
  have "length ds - length (filter (\<lambda>d. d \<notin> set page) ds) = length page"
  proof -
    have l: "length (filter (is_stale version) xs) + length (filter (\<lambda>d. \<not> is_stale version d) xs) = length xs" for xs :: docs
      using sum_length_filter_compl by blast
    have "length page + length (drop n ?S) = length ?S" using assms(2) by simp
    then show ?thesis using l [of ds] l [of "filter (\<lambda>d. d \<notin> set page) ds"] stale live by simp
  qed
  then show "delete_page page ds = (filter (\<lambda>d. d \<notin> set page) ds, length page)"
    using ids(1) kept by (simp add: delete_page_def delete_many_def)
qed

lemma page_deleted_ids:
  assumes "ids_ok version ds"
  shows "ids_ok version (filter P ds)"
proof -
  have "filter (is_stale version) (filter P ds) = filter P (filter (is_stale version) ds)" by (simp add: conj_commute)
  then have "distinct (map (\<lambda>d. vget d ''_id'') (filter (is_stale version) (filter P ds)))"
    using assms by (simp only: ids_ok_def distinct_map_filter)
  then show ?thesis using assms unfolding ids_ok_def by auto
qed

text \<open>A purge ends, and removes exactly the stale entries: every entry of the active version stays, in order, every
  other is gone, and the count it reports is their number.\<close>
theorem purge_removes_exactly_the_stale:
  assumes "ids_ok version ds" and "0 < n"
  shows "purge_stale_entries version n ds
     = (filter (\<lambda>d. \<not> is_stale version d) ds, length (filter (is_stale version) ds))"
  using assms(1)
proof (induction "length ds" arbitrary: ds rule: less_induct)
  case less
  let ?S = "filter (is_stale version) ds"
  define page where "page = take n ?S"
  show ?case
  proof (cases "page = []")
    case True
    then have "?S = []" using assms(2) by (auto simp: page_def)
    then show ?thesis using True by (subst purge_stale_entries.simps) (simp add: stale_page_alt page_def [symmetric] filter_empty_conv)
  next
    case False
    note d = page_deleted [OF less.prems page_def False]
    let ?ds = "filter (\<lambda>d. d \<notin> set page) ds"
    have len: "0 < length page" "length page + length (drop n ?S) = length ?S" using False by (simp_all add: page_def)
    have "length ?ds < length ds" using delete_page_count [OF d(1)] len(1) by linarith
    from less.hyps [OF this page_deleted_ids [OF less.prems]]
    have "purge_stale_entries version n ?ds = (filter (\<lambda>d. \<not> is_stale version d) ds, length (drop n ?S))"
      by (simp only: d(2,3))
    then show ?thesis using False d(1) len
      by (subst purge_stale_entries.simps) (simp add: stale_page_alt page_def [symmetric] Let_def)
  qed
qed

section \<open>Storing an entry of a page\<close>

definition entry_key :: "mig_env \<Rightarrow> string \<Rightarrow> doc \<Rightarrow> query" where
  "entry_key env tid d =
     cache_key tid (doc_tool d) (env_sha256 (me_cache env) (serialize (me_cache env) (doc_tool d) (doc_args d))) (active_version env tid)"

lemma key_not_stale: "matches e (entry_key env tid d) \<Longrightarrow> \<not> is_stale (active_version env tid) e"
  by (simp add: entry_key_def cache_key_match is_stale_iff)

lemma on_first_member: "e \<in> set (on_first p f ds) \<Longrightarrow> e \<in> set ds \<or> (\<exists>d\<in>set ds. p d \<and> e = f d)"
  by (induction ds) (auto split: if_splits)

text \<open>What an upsert of an active entry does to the collection.\<close>
lemma upsert_active:
  assumes "\<And>d. \<not> is_stale v (apply_update u d)" and "untouched ''_id'' u" and "\<And>d. matches d q \<Longrightarrow> \<not> is_stale v d"
    and "dget (upsert_seed q) ''_id'' = None"
  shows "filter (is_stale v) (fst (update_one q u True ds)) = filter (is_stale v) ds"
    and "ids_ok v ds \<Longrightarrow> ids_ok v (fst (update_one q u True ds))"
proof -
  let ?ds = "fst (update_one q u True ds)"
  show st: "filter (is_stale v) ?ds = filter (is_stale v) ds"
  proof (cases "find_one q ds")
    case None
    then show ?thesis using assms(1) by (simp add: update_one_def find_one_and_update_def Let_def)
  next
    case (Some d)
    have "filter (is_stale v) (on_first (\<lambda>d. matches d q) (apply_update u) xs) = filter (is_stale v) xs" for xs
      using assms(1,3) by (induction xs) auto
    then show ?thesis by (simp add: update_one_def fou_hit [OF Some])
  qed
  assume ok: "ids_ok v ds"
  have mem: "e \<in> set ds \<or> (\<not> is_stale v e \<and> (vget e ''_id'' = VNone \<or> (\<exists>d\<in>set ds. \<not> is_stale v d \<and> vget e ''_id'' = vget d ''_id'')))"
    if "e \<in> set ?ds" for e
  proof (cases "find_one q ds")
    case None
    have "vget (apply_update u (upsert_seed q)) ''_id'' = VNone"
      unfolding vget_untouched [OF assms(2)] using assms(4) by (simp add: vget_def)
    then show ?thesis using None that assms(1) by (auto simp: update_one_def find_one_and_update_def Let_def)
  next
    case (Some d)
    have "e \<in> set (on_first (\<lambda>d. matches d q) (apply_update u) ds)" using that by (simp add: update_one_def fou_hit [OF Some])
    from on_first_member [OF this] show ?thesis using assms(1,3) vget_untouched [OF assms(2)] by auto
  qed
  have "\<forall>d\<in>set ?ds. is_stale v d \<longrightarrow> is_str (vget d ''_id'')"
    using mem ok unfolding ids_ok_def by blast
  moreover have "\<forall>x\<in>set (value_items (vget e ''_id'')). x \<noteq> vget d ''_id''"
    if d: "d \<in> set ?ds" "is_stale v d" and e: "e \<in> set ?ds" "\<not> is_stale v e" for d e
  proof -
    have d': "d \<in> set ds" "is_str (vget d ''_id'')" using mem [OF d(1)] d(2) ok unfolding ids_ok_def by blast+
    from mem [OF e(1)] consider "e \<in> set ds" | "vget e ''_id'' = VNone"
      | e0 where "e0 \<in> set ds" "\<not> is_stale v e0" "vget e ''_id'' = vget e0 ''_id''" by blast
    then show ?thesis
    proof cases
      case 1
      then show ?thesis using ok d(2) d'(1) e(2) unfolding ids_ok_def by blast
    next
      case 2
      then show ?thesis using d'(2) by (auto simp: value_items_def is_str_iff)
    next
      case 3
      then show ?thesis using ok d(2) d'(1) unfolding ids_ok_def by auto
    qed
  qed
  ultimately show "ids_ok v ?ds" using ok st unfolding ids_ok_def by auto
qed

lemma store_one_docs:
  "sc_docs (snd (store_one env now tid (d, vec) st)) = (sc_docs st)(tid :=
     fst (update_one (entry_key env tid d) (set_fields (cache_fields (me_cache env) now (doc_tool d) (doc_args d) (vget d ''result'') tid
        (remaining_ttl now (vget d ''expires_at'')) vec)) True (sc_docs st tid)))"
  by (simp add: store_one_def store_entry_def entry_key_def active_version_def Let_def)

lemma store_one_effect:
  fixes env tid st d vec now
  defines "v \<equiv> active_version env tid" and "ds' \<equiv> sc_docs (snd (store_one env now tid (d, vec) st)) tid"
  shows "filter (is_stale v) ds' = filter (is_stale v) (sc_docs st tid)"
    and "ids_ok v (sc_docs st tid) \<Longrightarrow> ids_ok v ds'"
    and "\<exists>e. find_one (entry_key env tid d) ds' = Some e \<and> vget e ''result'' = vget d ''result''"
    and "find_one (entry_key env tid x) (sc_docs st tid) \<noteq> None \<Longrightarrow> find_one (entry_key env tid x) ds' \<noteq> None"
proof -
  define u where "u = set_fields (cache_fields (me_cache env) now (doc_tool d) (doc_args d) (vget d ''result'') tid
        (remaining_ttl now (vget d ''expires_at'')) vec)"
  have ds': "ds' = fst (update_one (entry_key env tid d) u True (sc_docs st tid))" by (simp add: ds'_def store_one_docs u_def)
  have a: "\<not> is_stale v (apply_update u e)" for e
    by (simp add: u_def is_stale_iff v_def active_version_def cache_fields_def Let_def)
  have b: "untouched ''_id'' u" by (simp add: u_def untouched_def cache_fields_def Let_def)
  have c: "matches e (entry_key env tid d) \<Longrightarrow> \<not> is_stale v e" for e using key_not_stale v_def by blast
  have f: "dget (upsert_seed (entry_key env tid d)) ''_id'' = None"
    by (simp add: entry_key_def cache_key_def upsert_seed_def map_filter_simps)
  show "filter (is_stale v) ds' = filter (is_stale v) (sc_docs st tid)" unfolding ds' by (rule upsert_active(1) [OF a b c f])
  show "ids_ok v (sc_docs st tid) \<Longrightarrow> ids_ok v ds'" unfolding ds' by (rule upsert_active(2) [OF a b c f])
  have m: "matches (apply_update u e) (entry_key env tid d)" for e
    by (simp add: u_def entry_key_def cache_key_match cache_fields_def active_version_def Let_def)
  have r: "vget (apply_update u e) ''result'' = vget d ''result''" for e
    by (simp add: u_def cache_fields_def Let_def)
  show "\<exists>e. find_one (entry_key env tid d) ds' = Some e \<and> vget e ''result'' = vget d ''result''"
  proof (cases "find_one (entry_key env tid d) (sc_docs st tid)")
    case None
    then show ?thesis unfolding ds' using m r by (simp add: update_one_def find_one_and_update_def find_one_append Let_def)
  next
    case (Some e)
    then show ?thesis unfolding ds' using find_one_on_first_same [OF Some m] r by (simp add: update_one_def fou_hit)
  qed
  assume "find_one (entry_key env tid x) (sc_docs st tid) \<noteq> None"
  then obtain e where e: "e \<in> set (sc_docs st tid)" "matches e (entry_key env tid x)"
    by (auto dest: find_one_SomeD)
  have "\<exists>e'\<in>set ds'. matches e' (entry_key env tid x)"
  proof (cases "find_one (entry_key env tid d) (sc_docs st tid)")
    case None
    then show ?thesis unfolding ds' using e by (auto simp: update_one_def find_one_and_update_def Let_def)
  next
    case (Some e0)
    have same: "matches (apply_update u y) (entry_key env tid x)" if "matches y (entry_key env tid d)" "matches y (entry_key env tid x)" for y
    proof -
      have "entry_key env tid d = entry_key env tid x" using that unfolding entry_key_def cache_key_match by auto
      then show ?thesis using m [of y] by simp
    qed
    have "\<exists>e'\<in>set (on_first (\<lambda>d'. matches d' (entry_key env tid d)) (apply_update u) ds). matches e' (entry_key env tid x)"
      if "e \<in> set ds" for ds using that e(2) same by (induction ds) auto
    then show ?thesis unfolding ds' using e(1) by (simp add: update_one_def fou_hit [OF Some])
  qed
  then show "find_one (entry_key env tid x) ds' \<noteq> None" by (auto simp: find_one_None_iff)
qed

lemma store_all_effect:
  fixes env tid
  defines "v \<equiv> active_version env tid"
  shows "filter (is_stale v) (sc_docs (snd (store_all env now tid dvs st)) tid) = filter (is_stale v) (sc_docs st tid)
    \<and> (ids_ok v (sc_docs st tid) \<longrightarrow> ids_ok v (sc_docs (snd (store_all env now tid dvs st)) tid))
    \<and> (\<forall>x. find_one (entry_key env tid x) (sc_docs st tid) \<noteq> None
          \<longrightarrow> find_one (entry_key env tid x) (sc_docs (snd (store_all env now tid dvs st)) tid) \<noteq> None)
    \<and> (\<forall>d\<in>fst ` set dvs. find_one (entry_key env tid d) (sc_docs (snd (store_all env now tid dvs st)) tid) \<noteq> None)"
proof (induction dvs arbitrary: st)
  case (Cons dv dvs)
  obtain d vec where dv: "dv = (d, vec)" by (cases dv)
  let ?st = "snd (store_one env now tid (d, vec) st)"
  have s: "sc_docs (snd (store_all env now tid (dv # dvs) st)) = sc_docs (snd (store_all env now tid dvs ?st))"
    by (simp add: dv split: prod.split)
  have one: "filter (is_stale v) (sc_docs ?st tid) = filter (is_stale v) (sc_docs st tid)"
    "ids_ok v (sc_docs st tid) \<Longrightarrow> ids_ok v (sc_docs ?st tid)"
    "find_one (entry_key env tid d) (sc_docs ?st tid) \<noteq> None"
    "\<And>x. find_one (entry_key env tid x) (sc_docs st tid) \<noteq> None \<Longrightarrow> find_one (entry_key env tid x) (sc_docs ?st tid) \<noteq> None"
    using store_one_effect(1,2,4) [where env = env and tid = tid and now = now and d = d and vec = vec and st = st]
      store_one_effect(3) [where env = env and tid = tid and now = now and d = d and vec = vec and st = st]
    unfolding v_def by auto
  show ?case unfolding s using Cons.IH [of ?st] one dv by (auto simp del: not_None_eq)
qed simp

section \<open>The loop\<close>

lemma reembed_page_effect:
  fixes env tid st n
  defines "v \<equiv> active_version env tid" and "ds \<equiv> sc_docs st tid"
  assumes ok: "ids_ok v ds" and page: "page = take n (filter (is_stale v) ds)" and ne: "page \<noteq> []"
    and r: "reembed_page env now tid page st = (r, st')"
  shows "(\<exists>x. r = Inl x \<and> filter (is_stale v) (sc_docs st' tid) = filter (is_stale v) ds)
     \<or> (r = Inr (length (filter usable_doc page), length page) \<and> ids_ok v (sc_docs st' tid)
        \<and> filter (is_stale v) (sc_docs st' tid) = drop n (filter (is_stale v) ds)
        \<and> (\<forall>x. find_one (entry_key env tid x) ds \<noteq> None \<or> x \<in> set (filter usable_doc page)
              \<longrightarrow> find_one (entry_key env tid x) (sc_docs st' tid) \<noteq> None))"
proof -
  let ?usable = "filter usable_doc page"
  have finish: "ids_ok v (sc_docs (set_tenant_docs tid (fst (delete_page page (sc_docs st1 tid))) st1) tid)
      \<and> snd (delete_page page (sc_docs st1 tid)) = length page
      \<and> filter (is_stale v) (sc_docs (set_tenant_docs tid (fst (delete_page page (sc_docs st1 tid))) st1) tid) = drop n (filter (is_stale v) ds)
      \<and> (\<forall>x. find_one (entry_key env tid x) (sc_docs st1 tid) \<noteq> None
            \<longrightarrow> find_one (entry_key env tid x) (sc_docs (set_tenant_docs tid (fst (delete_page page (sc_docs st1 tid))) st1) tid) \<noteq> None)"
    if s1: "ids_ok v (sc_docs st1 tid)" "filter (is_stale v) (sc_docs st1 tid) = filter (is_stale v) ds" for st1
  proof -
    have "page = take n (filter (is_stale v) (sc_docs st1 tid))" using page s1(2) by simp
    note d = page_deleted [OF s1(1) this ne]
    have "find_one (entry_key env tid x) (filter (\<lambda>d. d \<notin> set page) (sc_docs st1 tid)) \<noteq> None"
      if some: "find_one (entry_key env tid x) (sc_docs st1 tid) \<noteq> None" for x
    proof -
      obtain e where e: "e \<in> set (sc_docs st1 tid)" "matches e (entry_key env tid x)" using some find_one_SomeD by fastforce
      have "\<forall>d\<in>set page. is_stale v d" using page set_take_subset by fastforce
      then have "e \<notin> set page" using key_not_stale e(2) v_def by blast
      then show ?thesis using e by (auto simp: find_one_None_iff)
    qed
    then show ?thesis using d page_deleted_ids [OF s1(1)] s1(2) by (simp add: set_tenant_docs_def)
  qed
  show ?thesis
  proof (cases "?usable = []")
    case True
    then have "r = Inr (0, snd (delete_page page (sc_docs st tid)))" "st' = set_tenant_docs tid (fst (delete_page page (sc_docs st tid))) st"
      using r by (auto simp: reembed_page_def Let_def split: prod.splits)
    then show ?thesis using finish [of st] ok True by (auto simp: ds_def)
  next
    case False
    show ?thesis
    proof (cases "\<exists>vecs. me_texts env (map (\<lambda>d. serialize (me_cache env) (doc_tool d) (doc_args d)) ?usable) = Some vecs \<and> length vecs = length ?usable")
      case no: False
      then have "(\<exists>x. r = Inl x) \<and> st' = st" using r False by (auto simp: reembed_page_def Let_def split: option.splits if_splits)
      then show ?thesis by (auto simp: ds_def)
    next
      case True
      then obtain vecs where vecs: "me_texts env (map (\<lambda>d. serialize (me_cache env) (doc_tool d) (doc_args d)) ?usable) = Some vecs"
        "length vecs = length ?usable" by blast
      obtain x st1 where s: "store_all env now tid (zip ?usable vecs) st = (x, st1)" by (cases "store_all env now tid (zip ?usable vecs) st")
      have fst: "fst ` set (zip ?usable vecs) = set ?usable" using vecs(2) by (metis list.set_map map_fst_zip)
      note eff = store_all_effect [of env tid now "zip ?usable vecs" st, unfolded s fst, folded v_def, simplified snd_conv]
      have s1: "ids_ok v (sc_docs st1 tid)" "filter (is_stale v) (sc_docs st1 tid) = filter (is_stale v) ds"
        using eff ok by (simp_all add: ds_def)
      show ?thesis
      proof (cases x)
        case (Some e)
        then have "(\<exists>x. r = Inl x) \<and> st' = st1" using r False vecs s by (auto simp: reembed_page_def Let_def)
        then show ?thesis using s1 by auto
      next
        case None
        then have "r = Inr (length ?usable, snd (delete_page page (sc_docs st1 tid)))"
          "st' = set_tenant_docs tid (fst (delete_page page (sc_docs st1 tid))) st1"
          using r False vecs s by (auto simp: reembed_page_def Let_def split: prod.splits)
        then show ?thesis using finish [OF s1] eff by (auto simp: ds_def)
      qed
    qed
  qed
qed

text \<open>What the loop promises of its result and of the collection it leaves.\<close>
definition reembed_post :: "mig_env \<Rightarrow> string \<Rightarrow> docs \<Rightarrow> mig_exc + nat \<times> nat \<Rightarrow> docs \<Rightarrow> bool" where
  "reembed_post env tid ds r ds' =
     (let S = filter (is_stale (active_version env tid)) ds; S' = filter (is_stale (active_version env tid)) ds' in
      case r of
        Inr (m, k) \<Rightarrow> S' = [] \<and> m + k = length S
          \<and> (\<forall>d. find_one (entry_key env tid d) ds \<noteq> None \<or> (d \<in> set S \<and> usable_doc d) \<longrightarrow> find_one (entry_key env tid d) ds' \<noteq> None)
      | Inl x \<Rightarrow> \<exists>j. S' = drop j S)"

lemma reembed_post_round:
  fixes env tid n ds ds1
  defines "S \<equiv> filter (is_stale (active_version env tid)) ds"
  defines "page \<equiv> take n S"
  assumes "filter (is_stale (active_version env tid)) ds1 = drop n S" and "reembed_post env tid ds1 r ds2"
    and keys: "\<And>d. find_one (entry_key env tid d) ds \<noteq> None \<or> d \<in> set (filter usable_doc page) \<Longrightarrow> find_one (entry_key env tid d) ds1 \<noteq> None"
  shows "reembed_post env tid ds
     (case r of Inl x \<Rightarrow> Inl x
      | Inr (m, k) \<Rightarrow> Inr (length (filter usable_doc page) + m, length (filter (\<lambda>d. \<not> usable_doc d) page) + k)) ds2"
proof (cases r)
  case (Inl x)
  then obtain j where "filter (is_stale (active_version env tid)) ds2 = drop (j + n) S"
    using assms(3,4) by (auto simp: reembed_post_def drop_drop)
  then show ?thesis using Inl by (auto simp: reembed_post_def S_def)
next
  case (Inr mk)
  obtain m k where mk: "r = Inr (m, k)" using Inr by (cases mk) simp
  have S: "set S = set page \<union> set (drop n S)" unfolding page_def by (metis append_take_drop_id set_append)
  have len: "length page + length (drop n S) = length S" by (simp add: page_def)
  have split: "length (filter usable_doc page) + length (filter (\<lambda>d. \<not> usable_doc d) page) = length page"
    by (rule sum_length_filter_compl)
  have post: "filter (is_stale (active_version env tid)) ds2 = []" "m + k = length (drop n S)"
    "\<And>d. find_one (entry_key env tid d) ds1 \<noteq> None \<or> (d \<in> set (drop n S) \<and> usable_doc d) \<Longrightarrow> find_one (entry_key env tid d) ds2 \<noteq> None"
    using assms(4) mk unfolding reembed_post_def Let_def assms(3) by auto
  have "find_one (entry_key env tid d) ds2 \<noteq> None"
    if "find_one (entry_key env tid d) ds \<noteq> None \<or> (d \<in> set S \<and> usable_doc d)" for d
  proof (cases "d \<in> set (drop n S) \<and> usable_doc d")
    case False
    then have "find_one (entry_key env tid d) ds \<noteq> None \<or> d \<in> set (filter usable_doc page)" using that S by auto
    then show ?thesis using keys post(3) by blast
  qed (use post(3) in blast)
  moreover have "length (filter usable_doc page) + m + (length (filter (\<lambda>d. \<not> usable_doc d) page) + k) = length S"
    using post(2) split len by linarith
  ultimately show ?thesis using mk post(1) by (simp add: reembed_post_def S_def del: not_None_eq)
qed

lemma reembed_loop:
  assumes "0 < n" and "ids_ok (active_version env tid) (sc_docs st tid)"
    and "length (filter (is_stale (active_version env tid)) (sc_docs st tid)) < fuel"
  shows "\<exists>r st'. reembed_stale_entries fuel env now (active_version env tid) tid n st = Some (r, st')
     \<and> reembed_post env tid (sc_docs st tid) r (sc_docs st' tid)"
  using assms(2,3)
proof (induction fuel arbitrary: st)
  case (Suc fuel)
  let ?v = "active_version env tid"
  let ?S = "filter (is_stale ?v) (sc_docs st tid)"
  define page where "page = take n ?S"
  show ?case
  proof (cases "page = []")
    case True
    then have "?S = []" using assms(1) by (auto simp: page_def)
    then show ?thesis using True by (simp add: stale_page_alt page_def [symmetric] reembed_post_def)
  next
    case False
    obtain r st1 where r: "reembed_page env now tid page st = (r, st1)" by (cases "reembed_page env now tid page st")
    note eff = reembed_page_effect [OF Suc.prems(1) page_def False r]
    show ?thesis
    proof (cases r)
      case (Inl x)
      then have "filter (is_stale ?v) (sc_docs st1 tid) = drop 0 ?S" using eff by auto
      then have "reembed_post env tid (sc_docs st tid) (Inl x) (sc_docs st1 tid)"
        unfolding reembed_post_def Let_def sum.case by (rule exI)
      then show ?thesis using r Inl False by (simp add: stale_page_alt page_def [symmetric])
    next
      case (Inr mk)
      then have p: "r = Inr (length (filter usable_doc page), length page)" "ids_ok ?v (sc_docs st1 tid)"
        "filter (is_stale ?v) (sc_docs st1 tid) = drop n ?S"
        "\<And>x. find_one (entry_key env tid x) (sc_docs st tid) \<noteq> None \<or> x \<in> set (filter usable_doc page)
            \<Longrightarrow> find_one (entry_key env tid x) (sc_docs st1 tid) \<noteq> None" using eff by auto
      have "0 < length page" "length page + length (drop n ?S) = length ?S" using False by (simp_all add: page_def)
      then have "length (filter (is_stale ?v) (sc_docs st1 tid)) < fuel" unfolding p(3) using Suc.prems(2) by linarith
      from Suc.IH [OF p(2) this] obtain r2 st2 where ih: "reembed_stale_entries fuel env now ?v tid n st1 = Some (r2, st2)"
        "reembed_post env tid (sc_docs st1 tid) r2 (sc_docs st2 tid)" by blast
      from reembed_post_round [OF p(3) ih(2), folded page_def, OF p(4)] show ?thesis
        using r p(1) ih(1) False by (cases r2) (auto simp: stale_page_alt page_def [symmetric])
    qed
  qed
qed simp

text \<open>C27. Embedding again ends, with at most as many rounds as there are stale entries (and one), and what it leaves is
  known: when it succeeds no stale entry is left, each was counted as embedded or skipped, and every
  usable one has an entry of the active version for its tool and arguments; when the provider or the store
  fails, the stale entries not yet reached are all still there.\<close>
theorem reembedding_leaves_nothing_stale:
  fixes env tid st
  defines "v \<equiv> active_version env tid" and "S \<equiv> filter (is_stale (active_version env tid)) (sc_docs st tid)"
  assumes "ids_ok v (sc_docs st tid)" and "0 < n" and "length S < fuel"
  shows "\<exists>r st'. reembed_stale_entries fuel env now v tid n st = Some (r, st')
     \<and> (case r of
          Inr (m, k) \<Rightarrow> filter (is_stale v) (sc_docs st' tid) = [] \<and> m + k = length S
            \<and> (\<forall>d\<in>set S. usable_doc d \<longrightarrow> find_one (entry_key env tid d) (sc_docs st' tid) \<noteq> None)
        | Inl x \<Rightarrow> \<exists>j. filter (is_stale v) (sc_docs st' tid) = drop j S)"
proof -
  obtain r st' where r: "reembed_stale_entries fuel env now v tid n st = Some (r, st')"
    "reembed_post env tid (sc_docs st tid) r (sc_docs st' tid)"
    using reembed_loop [OF assms(4), of env tid st fuel now] assms(3,5) unfolding v_def S_def by blast
  show ?thesis
    by (rule exI, rule exI, rule conjI, rule r(1)) (use r(2) in \<open>auto simp: reembed_post_def v_def S_def split: sum.splits\<close>)
qed

text \<open>Embedding again lets an old result win: where an entry of another version holds a result for the same tool and
  arguments as an entry of the active version, however much newer, the old result replaces the new one.\<close>
theorem reembedding_overwrites_newer_results:
  assumes "filter (is_stale (active_version env tid)) (sc_docs st tid) = [old]" and "ids_ok (active_version env tid) (sc_docs st tid)"
    and "usable_doc old" and "find_one (entry_key env tid old) (sc_docs st tid) = Some newer" and "0 < n" and "2 \<le> fuel"
    and "reembed_stale_entries fuel env now (active_version env tid) tid n st = Some (Inr (m, k), st')"
  shows "\<exists>e. find_one (entry_key env tid old) (sc_docs st' tid) = Some e \<and> vget e ''result'' = vget old ''result''"
proof -
  let ?v = "active_version env tid"
  obtain f where f: "fuel = Suc (Suc f)" using assms(6) by (metis Suc_le_D numeral_2_eq_2 Suc_le_mono)
  have page: "stale_page ?v n (sc_docs st tid) = [old]" using assms(1,5) by (cases n) (simp_all add: stale_page_alt)
  obtain r st1 where r: "reembed_page env now tid [old] st = (r, st1)" by (cases "reembed_page env now tid [old] st")
  obtain vec st0 where s: "store_one env now tid (old, vec) st = (None, st0)"
    "st1 = set_tenant_docs tid (fst (delete_page [old] (sc_docs st0 tid))) st0" and rr: "\<exists>q. r = Inr (1, q)"
    using r assms(3,7) page
    by (auto simp: f reembed_page_def Let_def length_Suc_conv split: option.splits if_splits prod.splits)
  note eff = store_one_effect [where env = env and tid = tid and now = now and d = old and vec = vec and st = st, unfolded s, simplified]
  have st: "[old] = take n (filter (is_stale ?v) (sc_docs st0 tid))" using eff(1) assms(1,5) by (cases n) simp_all
  note d = page_deleted [OF eff(2) [OF assms(2)] st]
  have docs: "sc_docs st1 tid = filter (\<lambda>d. d \<noteq> old) (sc_docs st0 tid)" using s(2) d(1) by (simp add: set_tenant_docs_def)
  have none: "filter (is_stale ?v) (sc_docs st1 tid) = []" using d(2) eff(1) assms(1,5) docs by (cases n) simp_all
  then have "st' = st1" using assms(7) page r rr by (auto simp: f stale_page_alt split: if_splits)
  have skip: "find_one q (filter (\<lambda>d. d \<noteq> old) ds) = find_one q ds" if "\<not> matches old q" for q ds
    using that by (induction ds) auto
  have "is_stale ?v old" using assms(1) by (metis filter_eq_ConsD)
  then have "\<not> matches old (entry_key env tid old)" using key_not_stale by blast
  then have "find_one (entry_key env tid old) (sc_docs st1 tid) = find_one (entry_key env tid old) (sc_docs st0 tid)"
    unfolding docs by (rule skip)
  then show ?thesis using eff(3) \<open>st' = st1\<close> by simp
qed

section \<open>A concrete migration\<close>

definition demo_mig_env :: mig_env where
  "demo_mig_env = \<lparr>me_cache = demo_cache_env, me_texts = (\<lambda>ts. Some (map (\<lambda>_. [0]) ts)), me_index_names = (\<lambda>_. None)\<rparr>"

text \<open>The same call answered twice: under an old version, and since under the active one.\<close>
definition old_entry :: doc where
  "old_entry = [(''_id'', VStr ''1''), (''tenant_id'', VStr ''acme''), (''tool_name'', VStr ''find''), (''arguments'', VDict [(''id'', VInt 1)]),
     (''embedding_version'', VStr ''m0:4''), (''result'', VStr ''old'')]"

definition newer_entry :: doc where
  "newer_entry = [(''_id'', VStr ''2''), (''tenant_id'', VStr ''acme''), (''tool_name'', VStr ''find''), (''arguments_hash'', VStr ''find:id''),
     (''embedding_version'', VStr ''m1:4''), (''result'', VStr ''new'')]"

definition demo_mig_state :: cache_state where
  "demo_mig_state = \<lparr>sc_docs = (\<lambda>_. [newer_entry, old_entry]), ensured_indexes = []\<rparr>"

lemmas mig_eval = demo_mig_env_def demo_mig_state_def old_entry_def newer_entry_def active_version_def is_stale_iff usable_doc_def
  entry_key_def doc_tool_def doc_args_def as_doc_def is_str_iff cache_eval

lemma demo_stale: "filter (is_stale (active_version demo_mig_env ''acme'')) (sc_docs demo_mig_state ''acme'') = [old_entry]"
  by (simp add: mig_eval)

lemma demo_ids: "ids_ok (active_version demo_mig_env ''acme'') (sc_docs demo_mig_state ''acme'')"
  unfolding ids_ok_def demo_stale by (simp add: mig_eval value_items_def)

lemma demo_store: "fst (store_all demo_mig_env now tid dvs st) = None"
proof (induction dvs arbitrary: st)
  case (Cons dv dvs)
  obtain d vec where dv: "dv = (d, vec)" by (cases dv)
  have "fst (store_one demo_mig_env now tid (d, vec) st') = None" for st'
    by (simp add: store_one_def store_entry_def ensure_index_def demo_mig_env_def demo_cache_env_def Let_def)
  then show ?case using Cons.IH dv by (simp split: prod.split) (metis fst_conv)
qed simp

lemma demo_page: "fst (reembed_page demo_mig_env now tid page st) \<noteq> Inl x"
proof -
  let ?dvs = "zip (filter usable_doc page) (map (\<lambda>_. [0]) (filter usable_doc page))"
  have m: "me_texts demo_mig_env ts = Some (map (\<lambda>_. [0]) ts)" for ts by (simp add: demo_mig_env_def)
  obtain st1 where "store_all demo_mig_env now tid ?dvs st = (None, st1)" using demo_store by (metis prod.collapse)
  then show ?thesis by (simp add: reembed_page_def m Let_def comp_def split: prod.split)
qed

lemma demo_loop: "reembed_stale_entries fuel demo_mig_env now v tid n st \<noteq> Some (Inl x, st')"
proof (induction fuel arbitrary: st st')
  case (Suc fuel)
  obtain r st1 where r: "reembed_page demo_mig_env now tid (stale_page v n (sc_docs st tid)) st = (r, st1)" by fastforce
  moreover have "r \<noteq> Inl y" for y using demo_page r by (metis fst_conv)
  ultimately show ?case using Suc by (cases r) (auto simp: Let_def split: prod.splits sum.splits option.splits)
qed simp

lemma demo_reembed:
  "\<exists>m k st'. reembed_stale_entries 2 demo_mig_env 0 (active_version demo_mig_env ''acme'') ''acme'' 1 demo_mig_state = Some (Inr (m, k), st')"
proof -
  obtain r st' where r: "reembed_stale_entries 2 demo_mig_env 0 (active_version demo_mig_env ''acme'') ''acme'' 1 demo_mig_state = Some (r, st')"
    using reembed_loop [OF _ demo_ids, of 1 2 0] unfolding demo_stale by auto
  then show ?thesis using demo_loop by (cases r) force+
qed

lemma purge_removes_exactly_the_stale_witness:
  "purge_stale_entries (active_version demo_mig_env ''acme'') 1 (sc_docs demo_mig_state ''acme'')
   = (filter (\<lambda>d. \<not> is_stale (active_version demo_mig_env ''acme'') d) (sc_docs demo_mig_state ''acme''),
      length (filter (is_stale (active_version demo_mig_env ''acme'')) (sc_docs demo_mig_state ''acme'')))"
  by (rule purge_removes_exactly_the_stale [OF demo_ids]) simp

lemma reembedding_leaves_nothing_stale_witness:
  "\<exists>r st'. reembed_stale_entries 2 demo_mig_env 0 (active_version demo_mig_env ''acme'') ''acme'' 1 demo_mig_state = Some (r, st')"
  using reembedding_leaves_nothing_stale [OF demo_ids, of 1 2 0] unfolding demo_stale by auto

lemma reembedding_overwrites_newer_results_witness:
  "\<exists>m k st' e. reembed_stale_entries 2 demo_mig_env 0 (active_version demo_mig_env ''acme'') ''acme'' 1 demo_mig_state = Some (Inr (m, k), st')
     \<and> find_one (entry_key demo_mig_env ''acme'' old_entry) (sc_docs st' ''acme'') = Some e \<and> vget e ''result'' = vget old_entry ''result''"
proof -
  obtain m k st' where run: "reembed_stale_entries 2 demo_mig_env 0 (active_version demo_mig_env ''acme'') ''acme'' 1 demo_mig_state
      = Some (Inr (m, k), st')" using demo_reembed by blast
  have new: "find_one (entry_key demo_mig_env ''acme'' old_entry) (sc_docs demo_mig_state ''acme'') = Some newer_entry"
    by (simp add: mig_eval)
  have "usable_doc old_entry" by (simp add: mig_eval)
  from reembedding_overwrites_newer_results [OF demo_stale demo_ids this new _ _ run] run show ?thesis by auto
qed

end
