(* ===== verification/Regex.thy ===== *)
theory Regex
  imports Prelude
begin

text \<open>What the guardrails use of Python's \<open>re\<close>: sets of characters, sequences, greedy repetition, alternatives and the
  word boundary; searching, and substitution of the leftmost matches.  A position is the character before
  it (if any) and the text after it; the matcher lists the ends of the matches at a position in the order
  in which the backtracking engine tries them.  It is shown to agree with the declarative meaning.\<close>

datatype rx_pos = At (before: "char option") (after: string)

datatype rx =
    RSet "char \<Rightarrow> bool"
  | REps
  | RSeq rx rx
  | RAlt rx rx
  | RStar rx
  | RBound

definition word_char :: "char \<Rightarrow> bool" where
  "word_char c = (is_alnum c \<or> c = CHR ''_'')"

definition at_boundary :: "rx_pos \<Rightarrow> bool" where
  "at_boundary x =
     ((case before x of Some c \<Rightarrow> word_char c | None \<Rightarrow> False) \<noteq> (case after x of c # _ \<Rightarrow> word_char c | [] \<Rightarrow> False))"

text \<open>Repetition: longer first; a round that consumes nothing is not repeated.\<close>
fun star_ends :: "nat \<Rightarrow> (rx_pos \<Rightarrow> rx_pos list) \<Rightarrow> rx_pos \<Rightarrow> rx_pos list" where
  "star_ends 0 f x = [x]"
| "star_ends (Suc n) f x = concat (map (star_ends n f) (filter (\<lambda>y. length (after y) < length (after x)) (f x))) @ [x]"

primrec rx_ends :: "rx \<Rightarrow> rx_pos \<Rightarrow> rx_pos list" where
  "rx_ends (RSet p) x = (case after x of c # s \<Rightarrow> if p c then [At (Some c) s] else [] | [] \<Rightarrow> [])"
| "rx_ends REps x = [x]"
| "rx_ends (RSeq r q) x = concat (map (rx_ends q) (rx_ends r x))"
| "rx_ends (RAlt r q) x = rx_ends r x @ rx_ends q x"
| "rx_ends (RStar r) x = star_ends (length (after x)) (rx_ends r) x"
| "rx_ends RBound x = (if at_boundary x then [x] else [])"

text \<open>The declarative meaning.\<close>
inductive rx_match :: "rx \<Rightarrow> rx_pos \<Rightarrow> rx_pos \<Rightarrow> bool" where
  set_char: "p c \<Longrightarrow> rx_match (RSet p) (At b (c # s)) (At (Some c) s)"
| eps: "rx_match REps x x"
| seq: "rx_match r x y \<Longrightarrow> rx_match q y z \<Longrightarrow> rx_match (RSeq r q) x z"
| alt_left: "rx_match r x y \<Longrightarrow> rx_match (RAlt r q) x y"
| alt_right: "rx_match q x y \<Longrightarrow> rx_match (RAlt r q) x y"
| star_stop: "rx_match (RStar r) x x"
| star_more: "rx_match r x y \<Longrightarrow> rx_match (RStar r) y z \<Longrightarrow> rx_match (RStar r) x z"
| bound: "at_boundary x \<Longrightarrow> rx_match RBound x x"

inductive_cases set_charE: "rx_match (RSet p) x y"
inductive_cases epsE: "rx_match REps x y"
inductive_cases seqE: "rx_match (RSeq r q) x y"
inductive_cases altE: "rx_match (RAlt r q) x y"
inductive_cases boundE: "rx_match RBound x y"

text \<open>A match consumes a piece of the text.\<close>
definition last_of :: "char option \<Rightarrow> string \<Rightarrow> char option" where
  "last_of b m = (if m = [] then b else Some (last m))"

lemma last_of_append: "last_of (last_of b m) n = last_of b (m @ n)"
  by (simp add: last_of_def)

lemma match_consumes: "rx_match r x y \<Longrightarrow> \<exists>m. after x = m @ after y \<and> before y = last_of (before x) m"
proof (induction rule: rx_match.induct)
  case (seq r x y q z)
  then obtain m n where "after x = (m @ n) @ after z" "before z = last_of (before x) (m @ n)" by (auto simp: last_of_append)
  then show ?case by blast
next
  case (star_more r x y z)
  then obtain m n where "after x = (m @ n) @ after z" "before z = last_of (before x) (m @ n)" by (auto simp: last_of_append)
  then show ?case by blast
next
  case (set_char p c b s)
  then show ?case by (intro exI [of _ "[c]"]) (simp add: last_of_def)
qed (auto simp: last_of_def)

lemma match_length: "rx_match r x y \<Longrightarrow> length (after y) \<le> length (after x)"
  using match_consumes by fastforce

lemma match_stuck: "rx_match r x y \<Longrightarrow> length (after y) = length (after x) \<Longrightarrow> y = x"
  using match_consumes [of r x y] by (cases x; cases y) (auto simp: last_of_def)

lemma star_ends_sound:
  assumes "\<And>x y. y \<in> set (f x) \<Longrightarrow> rx_match r x y"
  shows "y \<in> set (star_ends n f x) \<Longrightarrow> rx_match (RStar r) x y"
proof (induction n arbitrary: x)
  case 0
  then show ?case by (simp add: star_stop)
next
  case (Suc n)
  then show ?case using assms by (auto intro: star_stop star_more)
qed

lemma star_ends_complete:
  assumes "rx_match q x y" and "q = RStar r" and "\<And>x y. rx_match r x y \<Longrightarrow> y \<in> set (f x)" and "length (after x) \<le> n"
  shows "y \<in> set (star_ends n f x)"
  using assms
proof (induction arbitrary: n rule: rx_match.induct)
  case (star_stop r x)
  then show ?case by (cases n) auto
next
  case (star_more r' x y z)
  show ?case
  proof (cases "length (after y) < length (after x)")
    case False
    then have "y = x" using match_stuck [OF star_more.hyps(1)] match_length [OF star_more.hyps(1)] by simp
    then show ?thesis using star_more.IH(2) star_more.prems by simp
  next
    case True
    then obtain m where n: "n = Suc m" using star_more.prems(3) by (cases n) auto
    have "z \<in> set (star_ends m f y)" using star_more.IH(2) [of m] star_more.prems True n by simp
    moreover have "y \<in> set (f x)" using star_more.prems(1,2) star_more.hyps(1) by simp
    ultimately show ?thesis using n True by auto
  qed
qed auto

text \<open>The matcher finds exactly the matches.\<close>
lemma rx_ends_iff: "y \<in> set (rx_ends r x) \<longleftrightarrow> rx_match r x y"
proof (induction r arbitrary: x y)
  case (RSet p)
  show ?case by (cases x) (auto intro: set_char elim!: set_charE split: list.splits)
next
  case REps
  show ?case by (auto intro: eps elim: epsE)
next
  case (RSeq r q)
  then show ?case by (auto intro: seq elim!: seqE)
next
  case (RAlt r q)
  then show ?case by (auto intro: alt_left alt_right elim!: altE)
next
  case (RStar r)
  show ?case
    using star_ends_sound [of "rx_ends r" r y "length (after x)" x] star_ends_complete [of "RStar r" x y r "rx_ends r" "length (after x)"] RStar
    by auto
next
  case RBound
  show ?case by (auto intro: bound elim: boundE)
qed

section \<open>Derived patterns\<close>

definition rx_lit :: "string \<Rightarrow> rx" where
  "rx_lit s = foldr (\<lambda>c r. RSeq (RSet (\<lambda>x. x = c)) r) s REps"

definition rx_opt :: "rx \<Rightarrow> rx" where
  "rx_opt r = RAlt r REps"

definition rx_plus :: "rx \<Rightarrow> rx" where
  "rx_plus r = RSeq r (RStar r)"

text \<open>\<open>{n}\<close>, \<open>{n,}\<close> and \<open>{n,n+m}\<close>.\<close>
fun rx_times :: "nat \<Rightarrow> rx \<Rightarrow> rx" where
  "rx_times 0 r = REps"
| "rx_times (Suc n) r = RSeq r (rx_times n r)"

fun rx_upto :: "nat \<Rightarrow> rx \<Rightarrow> rx" where
  "rx_upto 0 r = REps"
| "rx_upto (Suc n) r = rx_opt (RSeq r (rx_upto n r))"

definition rx_atleast :: "nat \<Rightarrow> rx \<Rightarrow> rx" where
  "rx_atleast n r = RSeq (rx_times n r) (RStar r)"

definition rx_between :: "nat \<Rightarrow> nat \<Rightarrow> rx \<Rightarrow> rx" where
  "rx_between n m r = RSeq (rx_times n r) (rx_upto (m - n) r)"

definition rx_seq :: "rx list \<Rightarrow> rx" where
  "rx_seq rs = foldr RSeq rs REps"

section \<open>Searching and substituting\<close>

fun rx_search_from :: "rx \<Rightarrow> char option \<Rightarrow> string \<Rightarrow> bool" where
  "rx_search_from r b [] = (rx_ends r (At b []) \<noteq> [])"
| "rx_search_from r b (c # s) = (rx_ends r (At b (c # s)) \<noteq> [] \<or> rx_search_from r (Some c) s)"

definition rx_search :: "rx \<Rightarrow> string \<Rightarrow> bool" where
  "rx_search r s = rx_search_from r None s"

text \<open>\<open>re.sub\<close>: the first match in the engine's order at the leftmost position, then on from its end; none of the
  patterns in use matches the empty text.\<close>
function rx_sub_from :: "rx \<Rightarrow> (string \<Rightarrow> string) \<Rightarrow> rx_pos \<Rightarrow> string" where
  "rx_sub_from r f x =
     (case rx_ends r x of
        y # _ \<Rightarrow>
          if length (after y) < length (after x)
          then f (take (length (after x) - length (after y)) (after x)) @ rx_sub_from r f y
          else (case after x of [] \<Rightarrow> [] | c # s \<Rightarrow> c # rx_sub_from r f (At (Some c) s))
      | [] \<Rightarrow> (case after x of [] \<Rightarrow> [] | c # s \<Rightarrow> c # rx_sub_from r f (At (Some c) s)))"
  by auto
termination by (relation "measure (\<lambda>(r, f, x). length (after x))") auto

declare rx_sub_from.simps [simp del]

definition rx_sub :: "rx \<Rightarrow> (string \<Rightarrow> string) \<Rightarrow> string \<Rightarrow> string" where
  "rx_sub r f s = rx_sub_from r f (At None s)"

text \<open>A search succeeds exactly where the text has a piece that matches in its place.\<close>
lemma search_from_iff:
  "rx_search_from r b s \<longleftrightarrow> (\<exists>u v y. s = u @ v \<and> rx_match r (At (last_of b u) v) y)"
proof (induction s arbitrary: b)
  case Nil
  have "rx_ends r (At b []) \<noteq> [] \<longleftrightarrow> (\<exists>y. rx_match r (At b []) y)"
    by (metis all_not_in_conv rx_ends_iff set_empty)
  then show ?case by (simp add: last_of_def)
next
  case (Cons c s)
  have e: "rx_ends r (At b (c # s)) \<noteq> [] \<longleftrightarrow> (\<exists>y. rx_match r (At b (c # s)) y)"
    by (metis all_not_in_conv rx_ends_iff set_empty)
  have "(\<exists>u v y. c # s = u @ v \<and> rx_match r (At (last_of b u) v) y)
      \<longleftrightarrow> (\<exists>y. rx_match r (At b (c # s)) y) \<or> (\<exists>u v y. s = u @ v \<and> rx_match r (At (last_of (Some c) u) v) y)" (is "?L = (?A \<or> ?B)")
  proof
    assume ?L
    then obtain u v y where u: "c # s = u @ v" "rx_match r (At (last_of b u) v) y" by blast
    show "?A \<or> ?B"
    proof (cases u)
      case Nil
      then show ?thesis using u by (auto simp: last_of_def)
    next
      case (Cons d w)
      then have "s = w @ v" "last_of b u = last_of (Some c) w" using u(1) by (auto simp: last_of_def)
      then show ?thesis using u(2) by auto
    qed
  next
    assume "?A \<or> ?B"
    then show ?L
    proof
      assume ?A
      then have "c # s = [] @ (c # s) \<and> (\<exists>y. rx_match r (At (last_of b []) (c # s)) y)" by (simp add: last_of_def)
      then show ?L by blast
    next
      assume ?B
      then obtain u v y where u: "s = u @ v" "rx_match r (At (last_of (Some c) u) v) y" by blast
      then have "c # s = (c # u) @ v \<and> rx_match r (At (last_of b (c # u)) v) y" by (cases "u = []") (simp_all add: last_of_def)
      then show ?L by blast
    qed
  qed
  then show ?case using e Cons.IH by simp
qed

text \<open>Where nothing matches nothing is replaced.\<close>
lemma sub_from_clean: "\<not> rx_search_from r b s \<Longrightarrow> rx_sub_from r f (At b s) = s"
proof (induction s arbitrary: b)
  case Nil
  then show ?case by (subst rx_sub_from.simps) simp
next
  case (Cons c s)
  then show ?case by (subst rx_sub_from.simps) simp
qed

lemma sub_clean: "\<not> rx_search r s \<Longrightarrow> rx_sub r f s = s"
  by (simp add: rx_search_def rx_sub_def sub_from_clean)

section \<open>What a pattern may consume\<close>

primrec rx_alphabet :: "rx \<Rightarrow> char \<Rightarrow> bool" where
  "rx_alphabet (RSet p) c = p c"
| "rx_alphabet REps c = False"
| "rx_alphabet (RSeq r q) c = (rx_alphabet r c \<or> rx_alphabet q c)"
| "rx_alphabet (RAlt r q) c = (rx_alphabet r c \<or> rx_alphabet q c)"
| "rx_alphabet (RStar r) c = rx_alphabet r c"
| "rx_alphabet RBound c = False"

lemma match_alphabet: "rx_match r x y \<Longrightarrow> \<exists>m. after x = m @ after y \<and> (\<forall>c\<in>set m. rx_alphabet r c)"
proof (induction rule: rx_match.induct)
  case (seq r x y q z)
  then obtain m n where "after x = m @ after y" "\<forall>c\<in>set m. rx_alphabet r c" "after y = n @ after z" "\<forall>c\<in>set n. rx_alphabet q c"
    by blast
  then show ?case by (intro exI [of _ "m @ n"]) auto
next
  case (star_more r x y z)
  then obtain m n where "after x = m @ after y" "\<forall>c\<in>set m. rx_alphabet r c" "after y = n @ after z" "\<forall>c\<in>set n. rx_alphabet (RStar r) c"
    by blast
  then show ?case by (intro exI [of _ "m @ n"]) auto
next
  case (set_char p c b s)
  then show ?case by (intro exI [of _ "[c]"]) simp
qed auto

lemma rx_alphabet_lit: "rx_alphabet (rx_lit s) c \<longleftrightarrow> c \<in> set s"
  by (induction s) (auto simp: rx_lit_def)

lemma match_lit: "rx_match (rx_lit s) x y \<Longrightarrow> after x = s @ after y"
proof (induction s arbitrary: x)
  case Nil
  then show ?case by (auto simp: rx_lit_def elim: epsE)
next
  case (Cons a s)
  then obtain z where z: "rx_match (RSet (\<lambda>x. x = a)) x z" "rx_match (rx_lit s) z y" by (auto simp: rx_lit_def elim: seqE)
  then show ?case using Cons.IH [OF z(2)] by (auto elim: set_charE)
qed

text \<open>\<open>re.match\<close> with a pattern that ends in \<open>$\<close>: to the end of the text, or to a newline that ends it.\<close>
definition rx_whole :: "rx \<Rightarrow> string \<Rightarrow> bool" where
  "rx_whole r s = list_ex (\<lambda>y. after y = [] \<or> after y = [CHR 0x0A]) (rx_ends r (At None s))"

lemma rx_whole_iff: "rx_whole r s \<longleftrightarrow> (\<exists>y. rx_match r (At None s) y \<and> (after y = [] \<or> after y = [CHR 0x0A]))"
  by (auto simp: rx_whole_def list_ex_iff rx_ends_iff)

end
