(* ===== verification/CodeLint.thy ===== *)
theory CodeLint
  imports Regex Authorization EmbedConfig DbBridge HttpBridge
begin

text \<open>\<open>services/code_tools.py\<close>: what is checked of a code tool when it is authored.  Its source is parsed and every node
  of the syntax tree inspected; imports, calls, names and attributes that reach the host are errors, and so
  are unpinned requirements and a missing function of the tool's name; a signature that does not fit the
  input schema, or an operation the declared action type does not cover, is a warning.  Python's parser is a
  parameter; the tree it returns is a \<open>py_node\<close>, in which nodes the checks do not look at are \<open>Other\<close>.\<close>

section \<open>Syntax trees\<close>

text \<open>The last argument of a node is its line.  \<open>FunctionDef\<close> has the name, the \<open>Arguments\<close> and the remaining children
  (body, decorators, return annotation); it stands for the asynchronous form as well.  \<open>CallN\<close> has the
  function and the arguments (a keyword is an \<open>Other\<close> node around its value), \<open>BitOr\<close> is a binary operation
  with \<open>|\<close>, \<open>NoneConst\<close> the constant None.\<close>
datatype py_node =
    Import "string list" int
  | ImportFrom "string option" int
  | CallN py_node "py_node list" int
  | Attribute py_node string int
  | Name string int
  | Subscript py_node py_node
  | BitOr py_node py_node
  | NoneConst
  | FunctionDef string py_node "py_node list" int
  | ClassDef string "py_node list"
  | Assign "py_node list" py_node
  | AnnAssign py_node py_node "py_node option"
  | Arguments "py_node list" "py_node list" "py_node option" "py_node list" "py_node option list" "py_node option" "py_node list"
  | Arg string "py_node option"
  | Other "py_node list"

definition opt_list :: "'a option \<Rightarrow> 'a list" where
  "opt_list x = (case x of Some a \<Rightarrow> [a] | None \<Rightarrow> [])"

text \<open>\<open>ast.iter_child_nodes\<close>.\<close>
fun child_nodes :: "py_node \<Rightarrow> py_node list" where
  "child_nodes (CallN f as l) = f # as"
| "child_nodes (Attribute v a l) = [v]"
| "child_nodes (Subscript v i) = [v, i]"
| "child_nodes (BitOr a b) = [a, b]"
| "child_nodes (FunctionDef n as rest l) = as # rest"
| "child_nodes (ClassDef n xs) = xs"
| "child_nodes (Assign ts v) = ts @ [v]"
| "child_nodes (AnnAssign t a v) = [t, a] @ opt_list v"
| "child_nodes (Arguments po as va ko kd kw df) =
     po @ as @ opt_list va @ ko @ concat (map opt_list kd) @ opt_list kw @ df"
| "child_nodes (Arg n a) = opt_list a"
| "child_nodes (Other xs) = xs"
| "child_nodes _ = []"

lemma opt_list_simps [simp]: "opt_list None = []" "opt_list (Some a) = [a]"
  by (simp_all add: opt_list_def)

definition weight :: "py_node \<Rightarrow> nat" where
  "weight n = 2 * size n + 1"

lemma weigh_list: "sum_list (map weight xs) \<le> 2 * size_list size xs"
  by (induction xs) (simp_all add: weight_def)

lemma weigh_opt: "sum_list (map weight (opt_list x)) \<le> 2 * size_option size x"
  by (cases x) (simp_all add: weight_def)

lemma weigh_opts: "sum_list (map weight (concat (map opt_list xs))) \<le> 2 * size_list (size_option size) xs"
proof (induction xs)
  case (Cons x xs)
  then show ?case using weigh_opt [of x] by simp
qed simp

lemma children_lighter: "sum_list (map weight (child_nodes n)) < weight n"
proof (cases n)
  case (Arguments po as va ko kd kw df)
  then show ?thesis
    using weigh_list [of po] weigh_list [of as] weigh_opt [of va] weigh_list [of ko] weigh_opts [of kd] weigh_opt [of kw] weigh_list [of df]
    by (simp add: weight_def)
next
  case (AnnAssign t a v)
  then show ?thesis using weigh_opt [of v] by (simp add: weight_def)
next
  case (Arg x a)
  then show ?thesis using weigh_opt [of a] by (simp add: weight_def)
next
  case (Other xs)
  then show ?thesis using weigh_list [of xs] by (simp add: weight_def)
next
  case (ClassDef x xs)
  then show ?thesis using weigh_list [of xs] by (simp add: weight_def)
next
  case (CallN f xs l)
  then show ?thesis using weigh_list [of xs] by (simp add: weight_def)
next
  case (FunctionDef x as xs l)
  then show ?thesis using weigh_list [of xs] by (simp add: weight_def)
next
  case (Assign ts v)
  then show ?thesis using weigh_list [of ts] by (simp add: weight_def)
qed (simp_all add: weight_def)

text \<open>\<open>ast.walk\<close>: breadth first, with the queue of nodes still to visit.\<close>
function walk :: "py_node list \<Rightarrow> py_node list" where
  "walk [] = []"
| "walk (n # q) = n # walk (q @ child_nodes n)"
  by pat_completeness auto
termination
proof (relation "measure (\<lambda>q. sum_list (map weight q))")
  fix n :: py_node and q
  show "(q @ child_nodes n, n # q) \<in> measure (\<lambda>q. sum_list (map weight q))"
    using children_lighter [of n] by simp
qed simp

text \<open>The nodes of a tree, as its structure defines them.\<close>
inductive inside :: "py_node \<Rightarrow> py_node \<Rightarrow> bool" where
  here: "inside n n"
| below: "c \<in> set (child_nodes p) \<Longrightarrow> inside n c \<Longrightarrow> inside n p"

lemma walk_iff: "n \<in> set (walk q) \<longleftrightarrow> (\<exists>p\<in>set q. inside n p)"
proof (induction q rule: walk.induct)
  case (2 m q)
  have "inside n m \<longleftrightarrow> n = m \<or> (\<exists>c\<in>set (child_nodes m). inside n c)"
    by (auto intro: inside.intros elim: inside.cases)
  then show ?case using 2 by auto
qed simp

section \<open>Errors in the source\<close>

definition MAX_RAW_CODE_BYTES :: nat where
  "MAX_RAW_CODE_BYTES = 64 * 1024"

definition ACTION_RANK :: "(string \<times> nat) list" where
  "ACTION_RANK = [(''read'', 0), (''write'', 1), (''destructive'', 2)]"

definition DB_WRITE_OPS :: "string list" where
  "DB_WRITE_OPS = [''insert_one'', ''insert_many'', ''update_one'', ''update_many'']"

definition DB_DESTRUCTIVE_OPS :: "string list" where
  "DB_DESTRUCTIVE_OPS = [''delete_one'', ''delete_many'']"

definition HTTP_WRITE_VERBS :: "string list" where
  "HTTP_WRITE_VERBS = [''post'', ''put'', ''patch'', ''delete'']"

definition BANNED_IMPORTS :: "string list" where
  "BANNED_IMPORTS = [''os'', ''sys'', ''subprocess'', ''socket'', ''shutil'', ''ctypes'', ''multiprocessing'', ''importlib'',
     ''marshal'', ''pickle'', ''builtins'', ''resource'', ''signal'', ''pty'']"

definition BANNED_CALLS :: "string list" where
  "BANNED_CALLS = [''eval'', ''exec'', ''compile'', ''__import__'', ''globals'', ''locals'', ''vars'', ''open'', ''breakpoint'']"

definition BANNED_ATTRIBUTES :: "string list" where
  "BANNED_ATTRIBUTES = [''__globals__'', ''__builtins__'', ''__subclasses__'', ''__bases__'', ''__mro__'', ''__code__'', ''__dict__'',
     ''__import__'', ''__getattribute__'', ''__reduce__'']"

datatype issue_kind =
    NoSource
  | TooLarge
  | NotPython string "int option"
  | BannedImport string
  | BannedImportFrom string
  | BannedCall string
  | BannedAttribute string
  | BannedReference string
  | NoFunction string
  | MissingParameter string
  | UndescribedParameter string
  | ActionDrift string string string string
  | Unpinned pyval
  | UnknownAction pyval

text \<open>The messages are the constructors above; \<open>is_error\<close> is the severity, otherwise \<open>warning\<close>.\<close>
record issue =
  is_error :: bool
  is_kind :: issue_kind
  is_line :: "int option"

definition error_at :: "issue_kind \<Rightarrow> int option \<Rightarrow> issue" where
  "error_at k l = \<lparr>is_error = True, is_kind = k, is_line = l\<rparr>"

definition warning_at :: "issue_kind \<Rightarrow> int option \<Rightarrow> issue" where
  "warning_at k l = \<lparr>is_error = False, is_kind = k, is_line = l\<rparr>"

definition module_root :: "string \<Rightarrow> string" where
  "module_root m = hd (split_on (CHR ''.'') m)"

fun node_issues :: "py_node \<Rightarrow> issue list" where
  "node_issues (Import ms l) =
     map (\<lambda>m. error_at (BannedImport (module_root m)) (Some l)) (filter (\<lambda>m. module_root m \<in> set BANNED_IMPORTS) ms)"
| "node_issues (ImportFrom m l) =
     (let root = module_root (case m of Some t \<Rightarrow> t | None \<Rightarrow> []) in
      if root \<in> set BANNED_IMPORTS then [error_at (BannedImportFrom root) (Some l)] else [])"
| "node_issues (CallN f as l) =
     (case f of Name x _ \<Rightarrow> if x \<in> set BANNED_CALLS then [error_at (BannedCall x) (Some l)] else [] | _ \<Rightarrow> [])"
| "node_issues (Attribute v a l) = (if a \<in> set BANNED_ATTRIBUTES then [error_at (BannedAttribute a) (Some l)] else [])"
| "node_issues (Name x l) = (if x \<in> set BANNED_CALLS then [error_at (BannedReference x) (Some l)] else [])"
| "node_issues _ = []"

fun bound_names :: "py_node \<Rightarrow> string list" where
  "bound_names (FunctionDef n as rest l) = [n]"
| "bound_names (ClassDef n xs) = [n]"
| "bound_names (Assign ts v) = List.map_filter (\<lambda>t. case t of Name x l \<Rightarrow> Some x | _ \<Rightarrow> None) ts"
| "bound_names (AnnAssign t a v) = (case t of Name x l \<Rightarrow> [x] | _ \<Rightarrow> [])"
| "bound_names _ = []"

definition top_level_bindings :: "py_node list \<Rightarrow> string list" where
  "top_level_bindings tree = concat (map bound_names tree)"

section \<open>Signatures and schemas\<close>

definition arg_name :: "py_node \<Rightarrow> string" where
  "arg_name n = (case n of Arg x a \<Rightarrow> x | _ \<Rightarrow> [])"

definition arg_annotation :: "py_node \<Rightarrow> py_node option" where
  "arg_annotation n = (case n of Arg x a \<Rightarrow> a | _ \<Rightarrow> None)"

text \<open>The named parameters of a function in order, each with whether it has no default, and whether it takes \<open>**kwargs\<close>.\<close>
definition named_params :: "py_node \<Rightarrow> (py_node \<times> bool) list \<times> bool" where
  "named_params as =
     (case as of
        Arguments po ar va ko kd kw df \<Rightarrow>
          (let pos = po @ ar in
           (map (\<lambda>(i, p). (p, i < length pos - length df)) (enumerate 0 pos) @ map (\<lambda>(p, d). (p, d = None)) (zip ko kd), kw \<noteq> None))
      | _ \<Rightarrow> ([], False))"

definition function_params :: "py_node \<Rightarrow> string list \<times> string list \<times> bool" where
  "function_params as =
     (case named_params as of (ps, kw) \<Rightarrow> (map (arg_name \<circ> fst) ps, map (arg_name \<circ> fst) (filter snd ps), kw))"

text \<open>The first function of the given name at the top level: its arguments and line.\<close>
fun function_named :: "string \<Rightarrow> py_node list \<Rightarrow> (py_node \<times> int) option" where
  "function_named t [] = None"
| "function_named t (FunctionDef n as rest l # ns) = (if n = t then Some (as, l) else function_named t ns)"
| "function_named t (_ # ns) = function_named t ns"

definition signature_issues :: "py_node list \<Rightarrow> string \<Rightarrow> pyval \<Rightarrow> issue list" where
  "signature_issues tree tool schema =
     (case schema of
        VDict d \<Rightarrow>
          (case vget d ''properties'' of
             VDict props \<Rightarrow>
               if tool = [] \<or> props = [] then []
               else (case function_named tool tree of
                       None \<Rightarrow> []
                     | Some (as, l) \<Rightarrow>
                         (case function_params as of
                            (params, req, kw) \<Rightarrow>
                              (if kw then []
                               else map (\<lambda>f. warning_at (MissingParameter f) (Some l))
                                      (filter (\<lambda>f. f \<notin> set params) (scope_texts (iter_values (py_or (vget d ''required'') (VList []))))))
                              @ map (\<lambda>p. warning_at (UndescribedParameter p) (Some l))
                                  (filter (\<lambda>p. p \<notin> set (map fst props)) (sorted_set req))))
           | _ \<Rightarrow> [])
      | _ \<Rightarrow> [])"

definition ANNOTATION_JSON_TYPES :: "(string \<times> string) list" where
  "ANNOTATION_JSON_TYPES = [(''str'', ''string''), (''bytes'', ''string''), (''int'', ''integer''), (''float'', ''number''),
     (''bool'', ''boolean''), (''dict'', ''object''), (''Dict'', ''object''), (''Mapping'', ''object''), (''list'', ''array''),
     (''List'', ''array''), (''tuple'', ''array''), (''Tuple'', ''array''), (''set'', ''array''), (''Set'', ''array''),
     (''Sequence'', ''array'')]"

fun annotation_name :: "py_node \<Rightarrow> string" where
  "annotation_name (Name x l) = x"
| "annotation_name (Attribute v a l) = a"
| "annotation_name (Subscript v i) = annotation_name v"
| "annotation_name NoneConst = ''None''"
| "annotation_name _ = []"

definition json_type :: "string \<Rightarrow> string" where
  "json_type a = (case map_of ANNOTATION_JSON_TYPES a of Some t \<Rightarrow> t | None \<Rightarrow> ''string'')"

fun annotation_info :: "py_node \<Rightarrow> string \<times> bool" where
  "annotation_info (Subscript v i) =
     (if annotation_name v = ''Optional'' then (fst (annotation_info i), True) else (json_type (annotation_name v), False))"
| "annotation_info (BitOr a b) =
     (if annotation_name b = ''None'' then (fst (annotation_info a), True)
      else (fst (annotation_info a), snd (annotation_info a) \<or> snd (annotation_info b)))"
| "annotation_info n = (json_type (annotation_name n), False)"

definition param_info :: "py_node \<Rightarrow> string \<times> bool" where
  "param_info p = (case arg_annotation p of None \<Rightarrow> (''string'', False) | Some a \<Rightarrow> annotation_info a)"

fun is_function :: "py_node \<Rightarrow> bool" where
  "is_function (FunctionDef n as rest l) = True"
| "is_function _ = False"

definition find_function :: "py_node list \<Rightarrow> string \<Rightarrow> py_node option" where
  "find_function tree tool =
     (if tool \<noteq> [] then map_option fst (function_named tool tree)
      else case filter is_function tree of FunctionDef n as rest l # _ \<Rightarrow> Some as | _ \<Rightarrow> None)"

text \<open>How Python's parser answers: the tree of a module, or the message and line of the \<open>SyntaxError\<close>.\<close>
type_synonym parser = "string \<Rightarrow> string \<times> int option + py_node list"

definition suggest_input_schema :: "parser \<Rightarrow> pyval \<Rightarrow> string \<Rightarrow> doc option" where
  "suggest_input_schema parse raw tool =
     (case raw of
        VStr src \<Rightarrow>
          if strip src = [] then None
          else (case parse src of
                  Inl e \<Rightarrow> None
                | Inr tree \<Rightarrow>
                    (case find_function tree tool of
                       None \<Rightarrow> None
                     | Some as \<Rightarrow>
                         (let ps = fst (named_params as);
                              props = foldl (\<lambda>d p. dput (arg_name (fst p)) (VDict [(''type'', VStr (fst (param_info (fst p))))]) d) [] ps;
                              req = map (arg_name \<circ> fst) (filter (\<lambda>p. snd p \<and> \<not> snd (param_info (fst p))) ps)
                          in if props = [] then None
                             else Some ([(''type'', VStr ''object''), (''properties'', VDict props)]
                                    @ (if req = [] then [] else [(''required'', VList (map VStr req))])))))
      | _ \<Rightarrow> None)"

section \<open>Operations beyond the declared action type\<close>

text \<open>The attributes along a chain of accesses, subscripts and calls, and the node it is rooted at.\<close>
fun chain :: "py_node \<Rightarrow> string list \<times> py_node" where
  "chain (Attribute v a l) = (case chain v of (as, r) \<Rightarrow> (a # as, r))"
| "chain (Subscript v i) = chain v"
| "chain (CallN f as l) = chain f"
| "chain n = ([], n)"

definition context_namespace :: "py_node \<Rightarrow> string option" where
  "context_namespace v =
     (case chain v of
        (as, Name x l) \<Rightarrow>
          if x = ''context'' then (if ''db'' \<in> set as then Some ''db'' else if ''http'' \<in> set as then Some ''http'' else None)
          else None
      | _ \<Rightarrow> None)"

text \<open>\<open>x in _ACTION_RANK\<close> on a value; a list or dict does not hash (\<open>TypeError\<close>), which \<open>validate_code_tool\<close> below
  answers with None before this matters.\<close>
definition declared_action :: "pyval \<Rightarrow> string" where
  "declared_action v = (case v of VStr a \<Rightarrow> if a \<in> fst ` set ACTION_RANK then a else ''read'' | _ \<Rightarrow> ''read'')"

definition action_rank :: "string \<Rightarrow> nat" where
  "action_rank a = (case map_of ACTION_RANK a of Some n \<Rightarrow> n | None \<Rightarrow> 0)"

definition needed_action :: "string option \<Rightarrow> string \<Rightarrow> string option" where
  "needed_action ns op =
     (if ns = Some ''db'' \<and> op \<in> set DB_DESTRUCTIVE_OPS then Some ''destructive''
      else if ns = Some ''db'' \<and> op \<in> set DB_WRITE_OPS then Some ''write''
      else if ns = Some ''http'' \<and> op \<in> set HTTP_WRITE_VERBS then Some ''write'' else None)"

text \<open>The namespace, operation, needed action and line of a call that goes beyond the declared type.\<close>
definition drift_of :: "string \<Rightarrow> py_node \<Rightarrow> (string \<times> string \<times> string \<times> int) option" where
  "drift_of declared n =
     (case n of
        CallN (Attribute v op l') as l \<Rightarrow>
          (case (context_namespace v, needed_action (context_namespace v) op) of
             (Some ns, Some need) \<Rightarrow> if action_rank need \<le> action_rank declared then None else Some (ns, op, need, l)
           | _ \<Rightarrow> None)
      | _ \<Rightarrow> None)"

text \<open>One warning for each operation and line.\<close>
fun drift_issues :: "string \<Rightarrow> (string \<times> int) list \<Rightarrow> py_node list \<Rightarrow> issue list" where
  "drift_issues declared seen [] = []"
| "drift_issues declared seen (n # ns) =
     (case drift_of declared n of
        Some (nsp, op, need, l) \<Rightarrow>
          if (op, l) \<in> set seen then drift_issues declared seen ns
          else warning_at (ActionDrift nsp op need declared) (Some l) # drift_issues declared ((op, l) # seen) ns
      | None \<Rightarrow> drift_issues declared seen ns)"

definition action_type_drift_issues :: "py_node list \<Rightarrow> pyval \<Rightarrow> issue list" where
  "action_type_drift_issues tree action = drift_issues (declared_action action) [] (walk tree)"

definition source_issues :: "parser \<Rightarrow> string \<Rightarrow> string \<Rightarrow> pyval \<Rightarrow> pyval \<Rightarrow> issue list" where
  "source_issues parse raw tool schema action =
     (if length raw > MAX_RAW_CODE_BYTES then [error_at TooLarge None] else [])
     @ (case parse raw of
          Inl (msg, l) \<Rightarrow> [error_at (NotPython msg l) l]
        | Inr tree \<Rightarrow>
            concat (map node_issues (walk tree))
            @ (if tool \<noteq> [] \<and> tool \<notin> set (top_level_bindings tree) then [error_at (NoFunction tool) None]
               else signature_issues tree tool schema)
            @ action_type_drift_issues tree action)"

section \<open>Requirements\<close>

definition REQUIREMENT_RE :: rx where
  "REQUIREMENT_RE =
     rx_seq [RSet is_alnum, rx_opt (RSeq (RStar (RSet (\<lambda>c. is_alnum c \<or> c \<in> set ''._-''))) (RSet is_alnum)),
             rx_opt (rx_seq [rx_lit ''['', rx_plus (RSet (\<lambda>c. is_alnum c \<or> c \<in> set '',._-'')), rx_lit '']'']),
             rx_lit ''=='', RSet is_alnum, RStar (RSet (\<lambda>c. is_alnum c \<or> c \<in> set ''.-_+!''))]"

definition pinned :: "pyval \<Rightarrow> bool" where
  "pinned r = (case r of VStr t \<Rightarrow> rx_whole REQUIREMENT_RE (strip t) | _ \<Rightarrow> False)"

definition requirement_issues :: "pyval list \<Rightarrow> issue list" where
  "requirement_issues rs = map (\<lambda>r. error_at (Unpinned r) None) (filter (\<lambda>r. \<not> pinned r) rs)"

section \<open>The whole check\<close>

definition hashable :: "pyval \<Rightarrow> bool" where
  "hashable v = (case v of VList _ \<Rightarrow> False | VDict _ \<Rightarrow> False | _ \<Rightarrow> True)"

text \<open>None: the name is not a text, the metadata not a dict, or the action type does not hash (an \<open>AttributeError\<close> or
  \<open>TypeError\<close> escapes).\<close>
definition validate_code_tool :: "parser \<Rightarrow> doc \<Rightarrow> issue list option" where
  "validate_code_tool parse tool =
     (case (py_or (vget tool ''name'') (VStr []), py_or (vget tool ''metadata'') (VDict [])) of
        (VStr n, VDict metadata) \<Rightarrow>
          (let action = vget metadata ''action_type'' in
           if \<not> hashable action then None
           else Some
             ((case vget tool ''raw_code'' of
                 VStr raw \<Rightarrow> if strip raw = [] then [error_at NoSource None]
                             else source_issues parse raw (strip n) (vget tool ''input_schema'') action
               | _ \<Rightarrow> [error_at NoSource None])
              @ requirement_issues (iter_values (py_or (vget tool ''requirements'') (VList [])))
              @ (if action \<noteq> VNone \<and> \<not> (\<exists>a\<in>set ALLOWED_ACTION_TYPES. action = VStr a)
                 then [error_at (UnknownAction action) None] else [])))
      | _ \<Rightarrow> None)"

text \<open>The errors of a rejection (\<open>CodeToolValidationError\<close>); none of them: the tool is accepted.\<close>
definition lint_code_tool :: "parser \<Rightarrow> doc \<Rightarrow> issue_kind list option" where
  "lint_code_tool parse tool = map_option (\<lambda>is. map is_kind (filter is_error is)) (validate_code_tool parse tool)"

definition ENCRYPTED_PREFIXES :: "string list" where
  "ENCRYPTED_PREFIXES = [''enc::'', ''qe::'']"

definition is_encrypted_token :: "pyval \<Rightarrow> bool" where
  "is_encrypted_token v = (case v of VStr t \<Rightarrow> list_ex (startswith t) ENCRYPTED_PREFIXES | _ \<Rightarrow> False)"

definition encrypt_raw_code :: "config_env \<Rightarrow> settings \<Rightarrow> string \<Rightarrow> string \<Rightarrow> pyval" where
  "encrypt_raw_code env s tid raw = encrypt_tenant_api_key env s tid raw"

definition decrypt_raw_code :: "config_env \<Rightarrow> settings \<Rightarrow> pyval \<Rightarrow> string" where
  "decrypt_raw_code env s stored = decrypt_tenant_api_key env s stored"

section \<open>Accepted code\<close>

text \<open>What no accepted tree contains: the name or attribute itself, whether called, aliased or only mentioned.\<close>
definition reaches_host :: "py_node \<Rightarrow> bool" where
  "reaches_host n =
     (case n of
        Import ms l \<Rightarrow> \<exists>m\<in>set ms. module_root m \<in> set BANNED_IMPORTS
      | ImportFrom m l \<Rightarrow> \<exists>t. m = Some t \<and> module_root t \<in> set BANNED_IMPORTS
      | Name x l \<Rightarrow> x \<in> set BANNED_CALLS
      | Attribute v a l \<Rightarrow> a \<in> set BANNED_ATTRIBUTES
      | _ \<Rightarrow> False)"

lemma no_module_banned: "module_root [] \<notin> set BANNED_IMPORTS"
  by (simp add: module_root_def split_on_single BANNED_IMPORTS_def)

lemma error_at_simps [simp]: "is_error (error_at k l)" "is_kind (error_at k l) = k" "is_line (error_at k l) = l"
  by (simp_all add: error_at_def)

lemma warning_at_simps [simp]: "\<not> is_error (warning_at k l)" "is_kind (warning_at k l) = k" "is_line (warning_at k l) = l"
  by (simp_all add: warning_at_def)

lemma node_issues_error: "i \<in> set (node_issues n) \<Longrightarrow> is_error i"
  by (cases n) (auto simp: Let_def split: py_node.splits if_splits option.splits)

lemma clean_node: "node_issues n = [] \<Longrightarrow> \<not> reaches_host n"
  using no_module_banned
  by (cases n) (auto simp: reaches_host_def Let_def filter_empty_conv split: if_splits option.splits)

lemma signature_warnings: "i \<in> set (signature_issues tree t s) \<Longrightarrow> \<not> is_error i"
  by (auto simp: signature_issues_def split: pyval.splits option.splits prod.splits if_splits)

lemma drift_sound:
  "i \<in> set (drift_issues d seen ns) \<Longrightarrow>
   \<exists>n\<in>set ns. \<exists>nsp op need l. drift_of d n = Some (nsp, op, need, l) \<and> i = warning_at (ActionDrift nsp op need d) (Some l)"
proof (induction ns arbitrary: seen)
  case (Cons n ns)
  consider (later) seen' where "i \<in> set (drift_issues d seen' ns)"
    | (first) nsp op need l where "drift_of d n = Some (nsp, op, need, l)" "i = warning_at (ActionDrift nsp op need d) (Some l)"
    using Cons.prems by (auto split: option.splits if_splits)
  then show ?case
  proof cases
    case later
    then show ?thesis using Cons.IH by (meson list.set_intros(2))
  next
    case first
    then show ?thesis by auto
  qed
qed simp

lemma drift_warnings: "i \<in> set (drift_issues d seen ns) \<Longrightarrow> \<not> is_error i"
  using drift_sound [of i d seen ns] by auto

lemma drift_filtered: "filter is_error (action_type_drift_issues tree a) = []"
  using drift_warnings by (auto simp: filter_empty_conv action_type_drift_issues_def)

lemma accepted_source:
  assumes "filter is_error (source_issues parse raw t schema action) = []"
  shows "length raw \<le> MAX_RAW_CODE_BYTES"
    and "\<exists>tree. parse raw = Inr tree \<and> (\<forall>n\<in>set (walk tree). \<not> reaches_host n) \<and> (t \<noteq> [] \<longrightarrow> t \<in> set (top_level_bindings tree))"
proof -
  show "length raw \<le> MAX_RAW_CODE_BYTES" using assms by (auto simp: source_issues_def split: if_splits)
  obtain tree where p: "parse raw = Inr tree" using assms by (cases "parse raw") (auto simp: source_issues_def)
  have "node_issues n = []" if "n \<in> set (walk tree)" for n
  proof (rule ccontr)
    assume "node_issues n \<noteq> []"
    then obtain i where "i \<in> set (node_issues n)" by (meson last_in_set)
    then have "i \<in> set (filter is_error (source_issues parse raw t schema action))"
      using that node_issues_error p by (auto simp: source_issues_def)
    then show False using assms by simp
  qed
  then have "\<forall>n\<in>set (walk tree). \<not> reaches_host n" using clean_node by blast
  moreover have "t \<noteq> [] \<longrightarrow> t \<in> set (top_level_bindings tree)"
    using assms p by (auto simp: source_issues_def split: if_splits)
  ultimately show "\<exists>tree. parse raw = Inr tree \<and> (\<forall>n\<in>set (walk tree). \<not> reaches_host n) \<and> (t \<noteq> [] \<longrightarrow> t \<in> set (top_level_bindings tree))"
    using p by blast
qed

text \<open>C17. Code that is accepted is clean: it has a source within the size limit that parses, no node anywhere in its
  tree imports a banned module or mentions a banned builtin or attribute, and the function the runner
  will look up is bound at the top level.\<close>
theorem accepted_code_is_clean:
  assumes "lint_code_tool parse tool = Some []" and "vget tool ''name'' = VStr name"
  shows "\<exists>raw tree. vget tool ''raw_code'' = VStr raw \<and> parse raw = Inr tree \<and> length raw \<le> 64 * 1024
     \<and> (\<forall>n p. p \<in> set tree \<and> inside n p \<longrightarrow> \<not> reaches_host n)
     \<and> (strip name \<noteq> [] \<longrightarrow> strip name \<in> set (top_level_bindings tree))"
proof -
  have n: "py_or (vget tool ''name'') (VStr []) = VStr name" using assms(2) by (simp add: py_or_def)
  obtain raw s a where raw: "vget tool ''raw_code'' = VStr raw" "filter is_error (source_issues parse raw (strip name) s a) = []"
    using assms(1) n by (auto simp: lint_code_tool_def validate_code_tool_def Let_def split: pyval.splits if_splits)
  obtain tree where "parse raw = Inr tree" "\<forall>n\<in>set (walk tree). \<not> reaches_host n"
    "strip name \<noteq> [] \<longrightarrow> strip name \<in> set (top_level_bindings tree)"
    using accepted_source(2) [OF raw(2)] by blast
  moreover from this have "\<forall>n p. p \<in> set tree \<and> inside n p \<longrightarrow> \<not> reaches_host n" using walk_iff by blast
  moreover have "length raw \<le> 64 * 1024" using accepted_source(1) [OF raw(2)] by (simp add: MAX_RAW_CODE_BYTES_def)
  ultimately show ?thesis using raw(1) by blast
qed

section \<open>Warnings and the bridges\<close>

lemma needed_action_ns:
  "needed_action ns op = Some need \<Longrightarrow>
     ns = Some (if op \<in> set HTTP_WRITE_VERBS then ''http'' else ''db'')
   \<and> need = (if op \<in> set DB_DESTRUCTIVE_OPS then ''destructive'' else ''write'')"
  by (auto simp: needed_action_def HTTP_WRITE_VERBS_def DB_WRITE_OPS_def DB_DESTRUCTIVE_OPS_def split: if_splits)

lemma drift_ofD:
  assumes "drift_of d n = Some (nsp, op, need, l)"
  shows "nsp = (if op \<in> set HTTP_WRITE_VERBS then ''http'' else ''db'')"
    and "need = (if op \<in> set DB_DESTRUCTIVE_OPS then ''destructive'' else ''write'')"
proof -
  obtain v where "needed_action (Some nsp) op = Some need"
    using assms by (auto simp: drift_of_def split: py_node.splits option.splits if_splits)
  from needed_action_ns [OF this]
  show "nsp = (if op \<in> set HTTP_WRITE_VERBS then ''http'' else ''db'')"
    and "need = (if op \<in> set DB_DESTRUCTIVE_OPS then ''destructive'' else ''write'')" by simp_all
qed

lemma drift_complete:
  "n \<in> set ns \<Longrightarrow> drift_of d n = Some (nsp, op, need, l) \<Longrightarrow> (op, l) \<notin> set seen
   \<Longrightarrow> warning_at (ActionDrift nsp op need d) (Some l) \<in> set (drift_issues d seen ns)"
proof (induction ns arbitrary: seen)
  case (Cons m ms)
  show ?case
  proof (cases "drift_of d m")
    case None
    then show ?thesis using Cons by auto
  next
    case (Some x)
    obtain nsp' op' need' l' where x: "x = (nsp', op', need', l')" by (cases x)
    show ?thesis
    proof (cases "(op', l') = (op, l)")
      case True
      then have "nsp' = nsp" "need' = need"
        using drift_ofD [of d m nsp' op' need' l'] drift_ofD [OF Cons.prems(2)] Some x by auto
      then show ?thesis using True Some x Cons.prems(3) by auto
    next
      case False
      then have "n \<in> set ms" using Cons.prems(1,2) Some x by auto
      then show ?thesis using Cons.IH [of seen] Cons.IH [of "(op', l') # seen"] Cons.prems(2,3) Some x False by auto
    qed
  qed
qed simp

text \<open>Whether the bridge of a namespace refuses an operation it knows, for a tool of the action type.\<close>
definition bridge_refuses :: "string \<Rightarrow> string \<Rightarrow> string \<Rightarrow> bool" where
  "bridge_refuses a ns op =
     (if ns = ''db'' then op \<in> set DESTRUCTIVE_OPS \<and> op \<notin> set (ops_by_action (bridge_action a))
      else ns = ''http'' \<and> op \<in> set (map lower (READ_METHODS @ WRITE_METHODS))
        \<and> upper op \<notin> set (methods_by_action (http_action a)))"

lemma bridge_actions: "bridge_action a = declared_action (VStr a)" "http_action a = declared_action (VStr a)"
  by (auto simp: bridge_action_def http_action_def declared_action_def ACTION_RANK_def ALLOWED_ACTION_TYPES_def)

lemma declared_cases:
  obtains "declared_action v = ''read''" | "declared_action v = ''write''" | "declared_action v = ''destructive''"
proof -
  have "declared_action v \<in> {''read'', ''write'', ''destructive''}"
    by (cases v) (auto simp: declared_action_def ACTION_RANK_def)
  then show ?thesis using that by blast
qed

lemma action_ranks: "action_rank ''read'' = 0" "action_rank ''write'' = 1" "action_rank ''destructive'' = 2"
  by (simp_all add: action_rank_def ACTION_RANK_def)

lemma verbs: "map lower (READ_METHODS @ WRITE_METHODS) = [''get'', ''head'', ''post'', ''put'', ''patch'', ''delete'']"
  "upper ''get'' = ''GET''" "upper ''head'' = ''HEAD''" "upper ''post'' = ''POST''" "upper ''put'' = ''PUT''" "upper ''patch'' = ''PATCH''"
  "upper ''delete'' = ''DELETE''"
  by (simp_all add: READ_METHODS_def WRITE_METHODS_def lower_def upper_def lower_char_def upper_char_def is_upper_def is_lower_def char_of_eq_iff)

lemma refused_db:
  "bridge_refuses a ''db'' op \<longleftrightarrow>
     (op \<in> set DB_WRITE_OPS \<and> declared_action (VStr a) = ''read'') \<or> (op \<in> set DB_DESTRUCTIVE_OPS \<and> declared_action (VStr a) \<noteq> ''destructive'')"
proof -
  have disj: "set DB_DESTRUCTIVE_OPS \<inter> set WRITE_OPS = {}" "set DB_WRITE_OPS \<inter> set READ_OPS = {}" "set DB_WRITE_OPS \<inter> set DB_DESTRUCTIVE_OPS = {}"
    "set DB_DESTRUCTIVE_OPS \<inter> set READ_OPS = {}"
    by code_simp+
  have "set DESTRUCTIVE_OPS = set WRITE_OPS \<union> set DB_DESTRUCTIVE_OPS" "set WRITE_OPS = set READ_OPS \<union> set DB_WRITE_OPS"
    by (auto simp: DESTRUCTIVE_OPS_def WRITE_OPS_def DB_WRITE_OPS_def DB_DESTRUCTIVE_OPS_def)
  then show ?thesis using disj unfolding bridge_refuses_def ops_by_action_def bridge_actions
    by (cases rule: declared_cases [of "VStr a"]) auto
qed

lemma refused_http: "bridge_refuses a ''http'' op \<longleftrightarrow> op \<in> set HTTP_WRITE_VERBS \<and> declared_action (VStr a) = ''read''"
proof (cases "op \<in> set (map lower (READ_METHODS @ WRITE_METHODS))")
  case True
  then consider "op = ''get''" | "op = ''head''" | "op = ''post''" | "op = ''put''" | "op = ''patch''" | "op = ''delete''"
    unfolding verbs(1) by auto
  then show ?thesis using True
    by cases (auto simp: bridge_refuses_def bridge_actions methods_by_action_def verbs READ_METHODS_def WRITE_METHODS_def HTTP_WRITE_VERBS_def)
next
  case False
  then show ?thesis unfolding verbs(1) bridge_refuses_def by (auto simp: HTTP_WRITE_VERBS_def verbs(1))
qed

lemma drift_agrees:
  "(\<exists>need. needed_action (Some ns) op = Some need \<and> \<not> action_rank need \<le> action_rank (declared_action (VStr a))) \<longleftrightarrow> bridge_refuses a ns op"
proof -
  have disj: "set DB_WRITE_OPS \<inter> set DB_DESTRUCTIVE_OPS = {}" by code_simp
  consider "ns = ''db''" | "ns = ''http''" | "ns \<noteq> ''db''" "ns \<noteq> ''http''" by blast
  then show ?thesis
  proof cases
    case 1
    then show ?thesis using disj unfolding 1 refused_db needed_action_def
      by (cases rule: declared_cases [of "VStr a"]) (auto simp: action_ranks)
  next
    case 2
    then show ?thesis unfolding 2 refused_http needed_action_def
      by (cases rule: declared_cases [of "VStr a"]) (auto simp: action_ranks)
  next
    case 3
    then show ?thesis by (simp add: needed_action_def bridge_refuses_def)
  qed
qed


section \<open>Pinned requirements\<close>

lemma match_set: "rx_match (RSet p) x y \<Longrightarrow> \<exists>c. after x = c # after y \<and> p c"
  by (auto elim!: set_charE)

lemma strip_no_newline: "s = strip t \<Longrightarrow> s \<noteq> m @ [CHR 0x0A]"
proof
  assume s: "s = strip t" "s = m @ [CHR 0x0A]"
  have "rstrip s = s" using s(1) by (simp add: strip_def)
  moreover have "s \<noteq> []" using s(2) by simp
  ultimately have "\<not> is_space (last s)" using rstrip_last [of s] by simp
  then show False using s(2) by (simp add: is_space_def)
qed

lemma pinned_shape:
  assumes "rx_whole REQUIREMENT_RE s" and "s = strip t"
  shows "\<exists>n v. s = n @ ''=='' @ v \<and> n \<noteq> [] \<and> v \<noteq> [] \<and> is_alnum (hd n) \<and> is_alnum (hd v)
     \<and> (\<forall>c\<in>set n. is_alnum c \<or> c \<in> set ''._-[],'') \<and> (\<forall>c\<in>set v. is_alnum c \<or> c \<in> set ''.-_+!'')"
proof -
  obtain y where y: "rx_match REQUIREMENT_RE (At None s) y" "after y = [] \<or> after y = [CHR 0x0A]"
    using assms(1) unfolding rx_whole_iff by blast
  obtain x1 x2 x3 x4 x5 where m: "rx_match (RSet is_alnum) (At None s) x1"
    "rx_match (rx_opt (RSeq (RStar (RSet (\<lambda>c. is_alnum c \<or> c \<in> set ''._-''))) (RSet is_alnum))) x1 x2"
    "rx_match (rx_opt (rx_seq [rx_lit ''['', rx_plus (RSet (\<lambda>c. is_alnum c \<or> c \<in> set '',._-'')), rx_lit '']''])) x2 x3"
    "rx_match (rx_lit ''=='') x3 x4" "rx_match (RSet is_alnum) x4 x5"
    "rx_match (RStar (RSet (\<lambda>c. is_alnum c \<or> c \<in> set ''.-_+!''))) x5 y"
    using y(1) unfolding REQUIREMENT_RE_def rx_seq_def by (auto elim!: seqE epsE)
  obtain a where a: "s = a # after x1" "is_alnum a" using match_set [OF m(1)] by auto
  obtain n2 where n2: "after x1 = n2 @ after x2" "\<forall>c\<in>set n2. is_alnum c \<or> c \<in> set ''._-''"
    using match_alphabet [OF m(2)] by (auto simp: rx_opt_def)
  obtain n3 where n3: "after x2 = n3 @ after x3" "\<forall>c\<in>set n3. is_alnum c \<or> c \<in> set ''._-[],''"
    using match_alphabet [OF m(3)] by (auto simp: rx_opt_def rx_seq_def rx_plus_def rx_alphabet_lit)
  have lit: "after x3 = ''=='' @ after x4" using match_lit [OF m(4)] .
  obtain b where b: "after x4 = b # after x5" "is_alnum b" using match_set [OF m(5)] by auto
  obtain v where v: "after x5 = v @ after y" "\<forall>c\<in>set v. is_alnum c \<or> c \<in> set ''.-_+!''" using match_alphabet [OF m(6)] by auto
  have s: "s = (a # n2 @ n3) @ ''=='' @ (b # v) @ after y" using a(1) n2(1) n3(1) lit b(1) v(1) by simp
  have "after y = []" using y(2) s strip_no_newline [OF assms(2), of "(a # n2 @ n3) @ ''=='' @ (b # v)"] by auto
  then show ?thesis using s a(2) n2(2) n3(2) b(2) v(2) by (intro exI [of _ "a # n2 @ n3"] exI [of _ "b # v"]) auto
qed

text \<open>Every requirement of an accepted tool is a distribution name, possibly with extras, pinned to one version: it starts
  with a letter or digit, so the installer cannot take it for an option, and it has no character of a URL, a
  path, a version range or an environment marker.\<close>
theorem accepted_requirements_are_pinned:
  assumes "lint_code_tool parse tool = Some []" and "vget tool ''requirements'' = VList rs" and "r \<in> set rs"
  shows "\<exists>t n v. r = VStr t \<and> strip t = n @ ''=='' @ v \<and> n \<noteq> [] \<and> v \<noteq> [] \<and> is_alnum (hd n)
     \<and> (\<forall>c\<in>set n. is_alnum c \<or> c \<in> set ''._-[],'') \<and> (\<forall>c\<in>set v. is_alnum c \<or> c \<in> set ''.-_+!'')"
proof -
  have rs: "r \<in> set (iter_values (py_or (vget tool ''requirements'') (VList [])))" using assms(2,3) by (auto simp: py_or_def)
  have "filter is_error (requirement_issues (iter_values (py_or (vget tool ''requirements'') (VList [])))) = []"
    using assms(1) by (auto simp: lint_code_tool_def validate_code_tool_def Let_def split: pyval.splits if_splits)
  then have "pinned r" using rs by (auto simp: requirement_issues_def filter_empty_conv)
  then obtain t where "r = VStr t" "rx_whole REQUIREMENT_RE (strip t)" by (auto simp: pinned_def split: pyval.splits)
  then show ?thesis using pinned_shape [OF _ refl] by blast
qed

section \<open>The suggested schema\<close>

lemma keys_foldl_dput: "fst ` set (foldl (\<lambda>d p. dput (f p) (g p) d) d0 ps) = fst ` set d0 \<union> f ` set ps"
proof (induction ps arbitrary: d0)
  case (Cons p ps)
  have "fst ` set (dput (f p) (g p) d0) = insert (f p) (fst ` set d0)" by (simp add: dput_def dom_update)
  then show ?case unfolding foldl_Cons Cons.IH by auto
qed simp

text \<open>The input schema suggested for a function fits it: with it the function draws no signature warning.\<close>
theorem suggested_schema_fits:
  assumes "parse raw = Inr tree"
  shows "signature_issues tree tool (case suggest_input_schema parse (VStr raw) tool of Some d \<Rightarrow> VDict d | None \<Rightarrow> VNone) = []"
proof (cases "suggest_input_schema parse (VStr raw) tool")
  case None
  then show ?thesis by (simp add: signature_issues_def)
next
  case (Some d)
  show ?thesis
  proof (cases "tool = []")
    case True
    then show ?thesis using Some by (simp add: signature_issues_def split: pyval.split)
  next
    case False
    then obtain as l ps kw where f: "function_named tool tree = Some (as, l)" "named_params as = (ps, kw)"
      using Some assms by (cases "named_params (fst (the (function_named tool tree)))")
        (auto simp: suggest_input_schema_def find_function_def split: if_splits option.splits)
    define props where "props = foldl (\<lambda>d p. dput (arg_name (fst p)) (VDict [(''type'', VStr (fst (param_info (fst p))))]) d) [] ps"
    have keys: "fst ` set props = (arg_name \<circ> fst) ` set ps" unfolding props_def keys_foldl_dput by (simp add: comp_def)
    have d: "vget d ''properties'' = VDict props" "props \<noteq> []"
      "vget d ''required'' = VNone \<or> vget d ''required'' = VList (map VStr (map (arg_name \<circ> fst) (filter (\<lambda>p. snd p \<and> \<not> snd (param_info (fst p))) ps)))"
      using Some assms f False
      by (auto simp: suggest_input_schema_def find_function_def Let_def props_def split: if_splits)
    have "set (scope_texts (iter_values (py_or (vget d ''required'') (VList [])))) \<subseteq> (arg_name \<circ> fst) ` set ps"
      using d(3) by (auto simp: scope_texts_def map_filter_def py_or_def split: if_splits) (force intro: image_eqI)
    then show ?thesis using Some d(1,2) f False keys
      by (auto simp: signature_issues_def function_params_def filter_empty_conv)
  qed
qed

section \<open>Witnesses\<close>

text \<open>A tool \<open>add\<close> that calls \<open>context.db.rows.insert_one\<close>.\<close>
definition demo_code_tree :: "py_node list" where
  "demo_code_tree =
     [FunctionDef ''add'' (Arguments [] [Arg ''a'' (Some (Name ''int'' 1)), Arg ''context'' None] None [] [] None [])
        [Other [CallN (Attribute (Attribute (Attribute (Name ''context'' 2) ''db'' 2) ''rows'' 2) ''insert_one'' 2) [Name ''a'' 2] 2]] 1]"

definition demo_parser :: parser where
  "demo_parser src = (if src = ''def add'' then Inr demo_code_tree else Inl (''invalid syntax'', Some 1))"

definition demo_code_tool :: doc where
  "demo_code_tool = [(''name'', VStr ''add''), (''raw_code'', VStr ''def add''), (''requirements'', VList [VStr ''a==1'']),
     (''metadata'', VDict [(''action_type'', VStr ''read'')])]"

lemma demo_checks: "pinned (VStr ''a==1'')" "concat (map node_issues (walk demo_code_tree)) = []"
  "top_level_bindings demo_code_tree = [''add'']" "strip ''def add'' = ''def add''" "strip ''add'' = ''add''"
  by code_simp+

lemma demo_linted: "lint_code_tool demo_parser demo_code_tool = Some []"
  by (simp add: lint_code_tool_def validate_code_tool_def demo_code_tool_def source_issues_def demo_parser_def demo_checks hashable_def
      signature_issues_def MAX_RAW_CODE_BYTES_def requirement_issues_def py_or_def drift_filtered ALLOWED_ACTION_TYPES_def Let_def)

lemma accepted_code_is_clean_witness:
  "\<exists>raw tree. vget demo_code_tool ''raw_code'' = VStr raw \<and> demo_parser raw = Inr tree \<and> ''add'' \<in> set (top_level_bindings tree)"
  using accepted_code_is_clean [OF demo_linted, of "''add''"] by (auto simp: demo_code_tool_def strip_nospace is_space_def)

lemma accepted_requirements_are_pinned_witness:
  "\<exists>n v. strip ''a==1'' = n @ ''=='' @ v \<and> n \<noteq> [] \<and> v \<noteq> []"
proof -
  have "vget demo_code_tool ''requirements'' = VList [VStr ''a==1'']" by (simp add: demo_code_tool_def)
  from accepted_requirements_are_pinned [OF demo_linted this, of "VStr ''a==1''"] show ?thesis by auto
qed

lemma suggested_schema_fits_witness:
  "signature_issues demo_code_tree ''add''
     (case suggest_input_schema demo_parser (VStr ''def add'') ''add'' of Some d \<Rightarrow> VDict d | None \<Rightarrow> VNone) = []"
  by (rule suggested_schema_fits) (simp add: demo_parser_def)


end
