(* ===== verification/Registration.thy ===== *)
theory Registration
  imports Users AccountTier TenantLifecycle Usage RateLimit Regex
begin

text \<open>\<open>services/registration.py\<close> and \<open>gateway/routers/auth.py\<close>: public sign-up and the password grant.  A
  sign-up is checked, throttled per client address and counted against the cap of the beta; then it
  provisions a tenant, marks it unconfirmed, creates the account, caps the quota, mirrors the session
  record and mints a token, undoing the tenant when the first steps fail.  Fresh identifiers, salts, the
  token coding and which database call raises are parameters; the starter tools are seeded without
  effect on the result, and only which tenant they were seeded for is kept.\<close>

section \<open>Sign-up\<close>

definition SELF_REGISTRATION_ACTOR :: string where "SELF_REGISTRATION_ACTOR = ''self-registration''"

datatype signup_step = ProvisionStep | TierStep | CreateStep | QuotaStep | SyncStep

text \<open>\<open>RegistrationError\<close> with its subclasses, the errors of the user store, and any other exception.\<close>
datatype signup_error =
    RegistrationDisabled
  | InvalidEmail
  | PasswordTooShort int
  | RegistrationThrottled int
  | BetaFull
  | AccountRefused user_error
  | StepRaises signup_step

record signup_world =
  su_fleet :: fleet
  su_confirm :: "string cache"
  su_users :: docs
  su_sessions :: docs
  su_metering :: metering
  su_attempts :: docs
  su_seeded :: "string list"

text \<open>\<open>sg_concurrent\<close>: the accounts other requests create between the uniqueness check and \<open>create_user\<close>.
  A step that raises leaves its collection as it was.\<close>
record signup_env =
  sg_sha :: "string \<Rightarrow> string"
  sg_kdf :: kdf
  sg_salt :: "nat list"
  sg_drop :: "string \<Rightarrow> drop_outcome"
  sg_enc :: "doc \<Rightarrow> string \<Rightarrow> string \<Rightarrow> string"
  sg_suffix :: string
  sg_user_id :: string
  sg_concurrent :: docs
  sg_failing :: "signup_step option"

record registration_result =
  rr_user :: doc
  rr_tenant :: string
  rr_confirmation :: string
  rr_auth_mode :: string
  rr_token :: string
  rr_expires_in :: int

definition EMAIL_RE :: rx where
  "EMAIL_RE =
     (let part = rx_plus (RSet (\<lambda>c. c \<noteq> CHR ''@'' \<and> \<not> is_space c))
      in rx_seq [part, rx_lit ''@'', part, rx_lit ''.'', part])"

definition validate_credentials :: "settings \<Rightarrow> string \<Rightarrow> string \<Rightarrow> signup_error + string" where
  "validate_credentials s email pw =
     (let normalized = normalize_email email; min_len = max 1 (cfg_self_registration_min_password_length s)
      in if normalized = [] \<or> \<not> rx_whole EMAIL_RE normalized then Inl InvalidEmail
         else if int (length pw) < min_len then Inl (PasswordTooShort min_len)
         else Inr normalized)"

definition attempt_query :: "string \<Rightarrow> int \<Rightarrow> query" where
  "attempt_query ip e = [(''client_ip'', CEq (VStr ip)), (''window_epoch'', CEq (VInt e))]"

definition attempt_update :: "string \<Rightarrow> int \<Rightarrow> real \<Rightarrow> real \<Rightarrow> update_spec" where
  "attempt_update ip e now expires =
     \<lparr>upd_set = [(''updated_at'', VTime now), (''expires_at'', VTime expires)],
      upd_set_on_insert = [(''client_ip'', VStr ip), (''window_epoch'', VInt e), (''created_at'', VTime now)],
      upd_inc = [(''count'', VInt 1)], upd_add_to_set = [], upd_pull = []\<rparr>"

text \<open>The seconds to wait when the attempt is throttled, and the attempts counted.\<close>
definition enforce_ip_throttle :: "settings \<Rightarrow> real \<Rightarrow> string \<Rightarrow> docs \<Rightarrow> int option \<times> docs" where
  "enforce_ip_throttle s now ip attempts =
     (let window = max 1 (cfg_self_registration_window_seconds s);
          limit = max 0 (cfg_self_registration_max_per_ip s);
          e = window_epoch window now; window_end = e + window
      in if limit \<le> 0 then (None, attempts)
         else case find_one_and_update (attempt_query ip e)
                     (attempt_update ip e now (of_int (window_end + window))) True attempts of
             (bucket, attempts') \<Rightarrow>
               (if count_of bucket 1 > limit then Some (max 1 (trunc (of_int window_end - now))) else None, attempts'))"

definition self_registered_query :: query where
  "self_registered_query = [(''self_registered'', CEq (VBool True))]"

definition enforce_beta_cap :: "settings \<Rightarrow> docs \<Rightarrow> bool" where
  "enforce_beta_cap s users =
     (let cap = max 0 (cfg_self_registration_max_tenants s)
      in cap \<le> 0 \<or> int (count_documents self_registered_query users) < cap)"

definition mint_token ::
  "(doc \<Rightarrow> string \<Rightarrow> string \<Rightarrow> string) \<Rightarrow> settings \<Rightarrow> real \<Rightarrow> string \<Rightarrow> string \<Rightarrow> string list \<Rightarrow> string list \<Rightarrow> string" where
  "mint_token enc s now email tid roles scopes =
     (if cfg_auth_mode s = ''jwks'' then mint_session enc s now email (Some tid) roles
      else mint_bearer_jwt enc s now email tid roles scopes (Some (cfg_admin_session_ttl_seconds s)))"

definition rollback_tenant :: "signup_env \<Rightarrow> settings \<Rightarrow> string \<Rightarrow> signup_world \<Rightarrow> signup_world" where
  "rollback_tenant env s tid w = w\<lparr>su_fleet := snd (deprovision_tenant (sg_sha env) s (sg_drop env) tid (su_fleet w))\<rparr>"

definition self_service_account :: "string \<Rightarrow> string \<Rightarrow> string \<Rightarrow> new_user" where
  "self_service_account email pw tid =
     \<lparr>nu_email = email, nu_password = pw, nu_tenant = tid, nu_roles = SELF_SERVICE_ROLES, nu_scopes = [''server:*''],
      nu_status = ''active'', nu_created_by = Some SELF_REGISTRATION_ACTOR, nu_self_registered = True,
      nu_label = None, nu_client = None\<rparr>"

text \<open>The steps under the rollback: the tier is stamped before the account exists.\<close>
definition open_account ::
  "signup_env \<Rightarrow> settings \<Rightarrow> real \<Rightarrow> string \<Rightarrow> string \<Rightarrow> string \<Rightarrow> signup_world \<Rightarrow> (signup_error + doc) \<times> signup_world" where
  "open_account env s now tid email pw w =
     (if sg_failing env = Some TierStep then (Inl (StepRaises TierStep), rollback_tenant env s tid w)
      else case set_tenant_confirmation (status_cache_ttl s) now now (fl_tenants (su_fleet w)) (su_confirm w) tid
                  CONFIRMATION_UNCONFIRMED (Some SELF_REGISTRATION_ACTOR) of
          None \<Rightarrow> (Inl (StepRaises TierStep), rollback_tenant env s tid w)
        | Some (_, db, c) \<Rightarrow>
            (let w1 = w\<lparr>su_fleet := (su_fleet w)\<lparr>fl_tenants := db\<rparr>, su_confirm := c,
                       su_users := su_users w @ sg_concurrent env\<rparr>
             in if sg_failing env = Some CreateStep then (Inl (StepRaises CreateStep), rollback_tenant env s tid w1)
                else case create_user (sg_kdf env) (sg_salt env) (sg_user_id env) now (self_service_account email pw tid) (su_users w1) of
                    Inl err \<Rightarrow> (Inl (AccountRefused err), rollback_tenant env s tid w1)
                  | Inr (user, users) \<Rightarrow> (Inr user, w1\<lparr>su_users := users\<rparr>)))"

text \<open>The steps after it.\<close>
definition finish_account ::
  "signup_env \<Rightarrow> settings \<Rightarrow> real \<Rightarrow> string \<Rightarrow> string \<Rightarrow> doc \<Rightarrow> signup_world
   \<Rightarrow> (signup_error + registration_result) \<times> signup_world" where
  "finish_account env s now tid email user w =
     (if sg_failing env = Some QuotaStep then (Inl (StepRaises QuotaStep), w)
      else (let caps = tier_caps s CONFIRMATION_UNCONFIRMED;
                w1 = w\<lparr>su_metering := snd (set_quota now tid (quota_calls_per_period caps) (quota_sandbox_seconds_per_period caps)
                         (Some SELF_REGISTRATION_ACTOR) (su_metering w))\<rparr>
            in if sg_failing env = Some SyncStep then (Inl (StepRaises SyncStep), w1)
               else (let w2 = w1\<lparr>su_sessions := sync_session_context now user (su_sessions w1)\<rparr>;
                         w3 = (if cfg_seed_starter_tools_on_register s then w2\<lparr>su_seeded := su_seeded w2 @ [tid]\<rparr> else w2)
                     in (Inr \<lparr>rr_user = user, rr_tenant = tid, rr_confirmation = CONFIRMATION_UNCONFIRMED,
                              rr_auth_mode = cfg_auth_mode s,
                              rr_token = mint_token (sg_enc env) s now email tid SELF_SERVICE_ROLES [''server:*''],
                              rr_expires_in = cfg_admin_session_ttl_seconds s\<rparr>, w3))))"

definition register_self_service_user ::
  "signup_env \<Rightarrow> settings \<Rightarrow> real \<Rightarrow> string \<Rightarrow> string \<Rightarrow> string \<Rightarrow> signup_world
   \<Rightarrow> (signup_error + registration_result) \<times> signup_world" where
  "register_self_service_user env s now email pw ip w =
     (if \<not> cfg_self_registration_enabled s then (Inl RegistrationDisabled, w)
      else case validate_credentials s email pw of
          Inl err \<Rightarrow> (Inl err, w)
        | Inr normalized \<Rightarrow>
            (case enforce_ip_throttle s now ip (su_attempts w) of
               (Some wait, as) \<Rightarrow> (Inl (RegistrationThrottled wait), w\<lparr>su_attempts := as\<rparr>)
             | (None, as) \<Rightarrow>
                 (let w1 = w\<lparr>su_attempts := as\<rparr>; tid = cfg_self_registration_tenant_prefix s @ sg_suffix env
                  in if \<not> enforce_beta_cap s (su_users w1) then (Inl BetaFull, w1)
                     else if find_user_by_email (su_users w1) normalized \<noteq> None
                     then (Inl (AccountRefused (UserAlreadyExists normalized)), w1)
                     else if sg_failing env = Some ProvisionStep then (Inl (StepRaises ProvisionStep), w1)
                     else (case open_account env s now tid normalized pw
                                  (w1\<lparr>su_fleet := snd (provision_tenant (sg_sha env) s now tid (su_fleet w1))\<rparr>) of
                             (Inl err, w2) \<Rightarrow> (Inl err, w2)
                           | (Inr user, w2) \<Rightarrow> finish_account env s now tid normalized user w2))))"

section \<open>The endpoints\<close>

text \<open>A request body: JSON that does not parse, a JSON value, or the fields of a form.\<close>
datatype auth_body = BadJson | Json pyval | Form "(string \<times> string list) list"

datatype auth_reply =
    TokenIssued string int
  | Registered registration_result
  | AuthRefused nat string
  | RetryLater int
  | ServerError

definition first_of :: "string list option \<Rightarrow> string" where
  "first_of v = (case v of Some (x # _) \<Rightarrow> x | _ \<Rightarrow> [])"

text \<open>\<open>parsed.get(a) or parsed.get(b) or [""]\<close>; a parsed field has at least one value.\<close>
definition form_either :: "(string \<times> string list) list \<Rightarrow> string \<Rightarrow> string \<Rightarrow> string" where
  "form_either fs a b = (case map_of fs a of Some v \<Rightarrow> first_of (Some v) | None \<Rightarrow> first_of (map_of fs b))"

definition json_text :: "pyval \<Rightarrow> string" where
  "json_text v = py_str (py_or v (VStr []))"

definition read_credentials :: "auth_body \<Rightarrow> string \<times> string \<times> string" where
  "read_credentials b =
     (case b of
        Json (VDict d) \<Rightarrow>
          (py_str (py_or (vget d ''grant_type'') (VStr ''password'')),
           json_text (py_or (vget d ''username'') (vget d ''email'')), json_text (vget d ''password''))
      | Form fs \<Rightarrow>
          (case map_of fs ''grant_type'' of None \<Rightarrow> ''password'' | Some v \<Rightarrow> first_of (Some v),
           form_either fs ''username'' ''email'', first_of (map_of fs ''password''))
      | _ \<Rightarrow> (''password'', [], []))"

definition issue_token ::
  "(doc \<Rightarrow> string \<Rightarrow> string \<Rightarrow> string) \<Rightarrow> kdf \<Rightarrow> settings \<Rightarrow> real \<Rightarrow> docs option \<Rightarrow> auth_body \<Rightarrow> auth_reply" where
  "issue_token enc kdf s now users body =
     (case read_credentials body of
        (grant, name, pw) \<Rightarrow>
          if grant \<noteq> [] \<and> grant \<noteq> ''password'' then AuthRefused 400 ''unsupported_grant_type''
          else if name = [] \<or> pw = [] then AuthRefused 400 ''invalid_request''
          else (case resolve_login_principal kdf s users name pw of
                  None \<Rightarrow> AuthRefused 401 ''invalid_grant''
                | Some p \<Rightarrow>
                    TokenIssued (mint_token enc s now (pr_email p) (pr_tenant p) (pr_roles p) (pr_scopes p))
                      (cfg_admin_session_ttl_seconds s)))"

definition read_registration :: "auth_body \<Rightarrow> string \<times> string" where
  "read_registration b =
     (case b of
        Json (VDict d) \<Rightarrow> (json_text (py_or (vget d ''email'') (vget d ''username'')), json_text (vget d ''password''))
      | Form fs \<Rightarrow> (form_either fs ''email'' ''username'', first_of (map_of fs ''password''))
      | _ \<Rightarrow> ([], []))"

fun signup_reply :: "signup_error \<Rightarrow> auth_reply" where
  "signup_reply RegistrationDisabled = AuthRefused 404 ''Not found.''"
| "signup_reply InvalidEmail = AuthRefused 422 ''A valid email address is required.''"
| "signup_reply (PasswordTooShort n) = AuthRefused 422 (''Password must be at least '' @ int_str n @ '' characters.'')"
| "signup_reply (RegistrationThrottled n) = RetryLater n"
| "signup_reply BetaFull = AuthRefused 403 ''The beta is currently full; new sign-ups are paused.''"
| "signup_reply (AccountRefused (UserAlreadyExists e)) = AuthRefused 409 (''A user with email '' @ e @ '' already exists.'')"
| "signup_reply _ = ServerError"

text \<open>\<open>ip\<close>: the address of the connection's peer, or \<open>unknown\<close>.\<close>
definition register_endpoint ::
  "signup_env \<Rightarrow> settings \<Rightarrow> real \<Rightarrow> string option \<Rightarrow> auth_body \<Rightarrow> signup_world \<Rightarrow> auth_reply \<times> signup_world" where
  "register_endpoint env s now ip body w =
     (if \<not> cfg_self_registration_enabled s then (AuthRefused 404 ''Not found.'', w)
      else case read_registration body of
          (email, pw) \<Rightarrow>
            (case register_self_service_user env s now email pw (case ip of Some a \<Rightarrow> a | None \<Rightarrow> ''unknown'') w of
               (Inl err, w') \<Rightarrow> (signup_reply err, w')
             | (Inr r, w') \<Rightarrow> (Registered r, w')))"

definition metadata_enabled :: "settings \<Rightarrow> bool" where
  "metadata_enabled s = (cfg_oauth_metadata_enabled s \<or> cfg_auth_mode s = ''jwks'')"

definition protected_resource_metadata :: "settings \<Rightarrow> string \<Rightarrow> doc option" where
  "protected_resource_metadata s base_url =
     (if \<not> metadata_enabled s then None
      else Some ([(''resource'', VStr (rstrip_char CHR ''/'' base_url))]
        @ (if opt_text (cfg_jwt_issuer s) \<noteq> [] then [(''authorization_servers'', VList [VStr (opt_text (cfg_jwt_issuer s))])] else [])
        @ (if opt_text (cfg_jwks_uri s) \<noteq> [] then [(''jwks_uri'', VStr (opt_text (cfg_jwks_uri s)))] else [])
        @ (if opt_text (cfg_jwt_audience s) \<noteq> [] then [(''audience'', VStr (opt_text (cfg_jwt_audience s)))] else [])
        @ [(''bearer_methods_supported'', VList [VStr ''header''])]))"

section \<open>Where a registrant ends up\<close>

lemma provisioned:
  assumes "find_tenant (fl_tenants F) tid = None"
  obtains d where "fl_tenants (snd (provision_tenant sha s now tid F)) = fl_tenants F @ [d]" "vget d ''tenant_id'' = VStr tid"
proof -
  let ?u = "provision_update (tenant_db_name sha s tid) now tid" and ?q = "key_query ''tenant_id'' tid"
  have "fl_tenants (snd (provision_tenant sha s now tid F)) = fl_tenants F @ [apply_update ?u (upsert_seed ?q)]"
    using assms by (simp add: provision_tenant_def update_one_def find_one_and_update_def find_tenant_def Let_def)
  moreover have "vget (apply_update ?u (upsert_seed ?q)) ''tenant_id'' = VStr tid"
    by (simp add: apply_update_def provision_update_def key_query_def upsert_seed_def map_filter_simps vget_def)
  ultimately show ?thesis using that by blast
qed

lemma find_tenant_append: "find_tenant (ds @ es) t = (case find_tenant ds t of Some d \<Rightarrow> Some d | None \<Rightarrow> find_tenant es t)"
  by (simp add: find_tenant_def find_one_append split: option.splits)

lemma confirmation_keeps_key: "untouched ''tenant_id'' (set_fields (confirmation_updates n wall by'))"
  by (simp add: untouched_def confirmation_updates_def)

lemma clean_unconfirmed: "clean_confirmation (VStr CONFIRMATION_UNCONFIRMED) = CONFIRMATION_UNCONFIRMED"
  "CONFIRMATION_UNCONFIRMED \<in> set VALID_CONFIRMATIONS"
  using clean_confirmation_valid [of CONFIRMATION_UNCONFIRMED] by (simp_all add: confirmation_defs)

lemma tier_stamped:
  assumes "find_tenant db tid = Some d"
    and "set_tenant_confirmation ttl wall now db c tid CONFIRMATION_UNCONFIRMED by' = Some (r, db', c')"
  shows "confirmation_of_doc (doc_or_empty (find_tenant db' tid)) = CONFIRMATION_UNCONFIRMED"
    and "t \<noteq> tid \<Longrightarrow> find_tenant db' t = find_tenant db t"
    and "filter (\<lambda>x. \<not> matches x (key_query ''tenant_id'' tid)) db' = filter (\<lambda>x. \<not> matches x (key_query ''tenant_id'' tid)) db"
proof -
  let ?u = "set_fields (confirmation_updates CONFIRMATION_UNCONFIRMED wall by')"
  have n: "normalize_confirmation (VStr CONFIRMATION_UNCONFIRMED) = CONFIRMATION_UNCONFIRMED"
    using normalize_confirmation_id clean_unconfirmed(2) by blast
  have db': "db' = snd (update_tenant tid ?u db)"
    using assms by (auto simp: set_tenant_confirmation_def clean_unconfirmed n Let_def tenants.modify_case_found [OF assms(1)])
  show "confirmation_of_doc (doc_or_empty (find_tenant db' tid)) = CONFIRMATION_UNCONFIRMED"
    unfolding db' tenants.lookup_same [OF assms(1) confirmation_keeps_key]
    using confirmation_after_update [OF clean_unconfirmed(2)] by (simp add: doc_or_empty_def)
  show "t \<noteq> tid \<Longrightarrow> find_tenant db' t = find_tenant db t"
    unfolding db' by (rule tenants.lookup_other [OF confirmation_keeps_key])
  have "find_one (key_query ''tenant_id'' tid) db = Some d" using assms(1) by (simp add: find_tenant_def)
  then have on: "db' = on_first (\<lambda>x. matches x (key_query ''tenant_id'' tid)) (apply_update ?u) db"
    unfolding db' update_tenant_def by (simp add: fou_hit del: apply_set_fields)
  show "filter (\<lambda>x. \<not> matches x (key_query ''tenant_id'' tid)) db' = filter (\<lambda>x. \<not> matches x (key_query ''tenant_id'' tid)) db"
    unfolding on by (induction db) (use vget_untouched [OF confirmation_keeps_key] in \<open>auto simp del: apply_set_fields\<close>)
qed

lemma tier_never_refused:
  assumes "find_tenant db tid = Some d"
  obtains r db' c' where "set_tenant_confirmation ttl wall now db c tid CONFIRMATION_UNCONFIRMED by' = Some (r, db', c')"
  using that by (simp add: set_tenant_confirmation_def clean_unconfirmed Let_def tenants.modify_case_found [OF assms])

lemma account_created:
  assumes "create_user kdf salt fresh now (self_service_account email pw tid) users = Inr (user, users')"
  obtains d where "users' = users @ [d]" "user = public_user d" "vget d ''tenant_id'' = VStr tid"
    "vget d ''email'' = VStr (normalize_email email)"
    "vget d ''roles'' = VList [VStr ''user'', VStr ''admin'']" "vget d ''scopes'' = VList [VStr ''server:*'']"
    "vget d ''status'' = VStr ''active''" "vget d ''self_registered'' = VBool True"
    "\<exists>h. hash_password kdf salt DEFAULT_ITERATIONS pw = Some h \<and> vget d ''password_hash'' = VStr h"
    "find_one (key_query ''email'' (normalize_email email)) users = None"
  using assms by (auto simp: create_user_def Let_def self_service_account_def SELF_SERVICE_ROLES_def insert_one_def
      split: if_splits option.splits)

lemma find_replaced:
  assumes "CHR ''.'' \<notin> set f" and "vget r f = VStr k"
  shows "find_one (key_query f k) (replace_one (key_query f k) r True ds) = Some r"
    and "j \<noteq> k \<Longrightarrow> find_one (key_query f j) (replace_one (key_query f k) r True ds) = find_one (key_query f j) ds"
proof -
  have m: "matches r (key_query f k)" and no: "\<And>d j. matches d (key_query f k) \<Longrightarrow> j \<noteq> k \<Longrightarrow> \<not> matches d (key_query f j)"
    using assms by auto
  show "find_one (key_query f k) (replace_one (key_query f k) r True ds) = Some r"
    unfolding replace_one_def using find_one_on_first_same [of "key_query f k" ds _ "\<lambda>_. r"] m
    by (auto simp: find_one_append simp del: matches_key split: option.splits)
  show "j \<noteq> k \<Longrightarrow> find_one (key_query f j) (replace_one (key_query f k) r True ds) = find_one (key_query f j) ds"
    unfolding replace_one_def using find_one_on_first_other [of "key_query f k" "key_query f j" "\<lambda>_. r" ds] m no
    by (auto simp: find_one_append simp del: matches_key split: option.splits)
qed

lemma quota_set:
  "get_effective_quota s tid (snd (set_quota now tid calls sandbox by' m)) = \<lparr>calls_limit = max 0 calls, sandbox_seconds_limit = max 0 sandbox\<rparr>"
  "t \<noteq> tid \<Longrightarrow> get_effective_quota s t (snd (set_quota now tid calls sandbox by' m)) = get_effective_quota s t m"
  by (simp_all add: set_quota_def Let_def get_effective_quota_def find_replaced quota_snapshot_def doc_or_empty_def non_negative_int_def)

lemma session_of_other:
  assumes "t \<noteq> text_field user ''tenant_id''"
  shows "find_one (session_query t u) (sync_session_context now user sessions) = find_one (session_query t u) sessions"
proof -
  let ?tid = "text_field user ''tenant_id''" and ?uid = "text_field user ''email''"
  let ?q = "session_query ?tid ?uid" and ?r = "session_query t u"
  have no: "\<not> matches d ?r" if "vget d ''tenant_id'' = VStr ?tid" for d
    using that assms by (simp add: session_query_def resolve_plain)
  have q: "vget d ''tenant_id'' = VStr ?tid" if "matches d ?q" for d
    using that by (simp add: session_query_def resolve_plain)
  show ?thesis
  proof (cases "?tid = [] \<or> ?uid = []")
    case False
    obtain fs where synced: "sync_session_context now user sessions
        = fst (update_one ?q (set_fields ((''tenant_id'', VStr ?tid) # (''user_id'', VStr ?uid) # fs)) True sessions)"
      and plain: "''tenant_id'' \<notin> fst ` set fs"
      using False by (simp add: sync_session_context_def Let_def)
    let ?u = "set_fields ((''tenant_id'', VStr ?tid) # (''user_id'', VStr ?uid) # fs)"
    have upd: "vget (apply_update ?u d) ''tenant_id'' = VStr ?tid" for d
      using plain by (simp add: vget_def dget_dmerge_notin)
    have hit: "find_one ?r (on_first (\<lambda>d. matches d ?q) (apply_update ?u) sessions) = find_one ?r sessions"
      by (rule find_one_on_first_other) (use no q upd in blast)+
    show ?thesis unfolding synced update_one_def find_one_and_update_def Let_def
      using hit no [OF upd] by (simp add: find_one_append del: apply_set_fields split: option.splits)
  qed (auto simp: sync_session_context_def Let_def)
qed

lemma vget_or_text: "vget d f = VStr t \<Longrightarrow> vget_or d f x = VStr t"
  by (auto simp: vget_def vget_or_def split: option.splits)

lemma public_tenant: "vget d ''tenant_id'' = VStr t \<Longrightarrow> text_field (public_user d) ''tenant_id'' = t"
  by (simp add: public_user_def text_field_def vget_or_text vget_or_def [of "_ # _"])

lemma opened:
  assumes "find_tenant (fl_tenants (su_fleet w)) tid = Some t0"
    and "open_account env s now tid email pw w = (Inr user, w2)"
  shows "\<exists>d. su_users w2 = su_users w @ sg_concurrent env @ [d] \<and> user = public_user d \<and> vget d ''tenant_id'' = VStr tid
       \<and> vget d ''email'' = VStr (normalize_email email) \<and> vget d ''roles'' = VList [VStr ''user'', VStr ''admin'']
       \<and> vget d ''scopes'' = VList [VStr ''server:*''] \<and> vget d ''status'' = VStr ''active'' \<and> vget d ''self_registered'' = VBool True
       \<and> (\<exists>h. hash_password (sg_kdf env) (sg_salt env) DEFAULT_ITERATIONS pw = Some h \<and> vget d ''password_hash'' = VStr h)
       \<and> find_one (key_query ''email'' (normalize_email email)) (su_users w @ sg_concurrent env) = None"
    and "confirmation_of_doc (doc_or_empty (find_tenant (fl_tenants (su_fleet w2)) tid)) = CONFIRMATION_UNCONFIRMED"
    and "t \<noteq> tid \<Longrightarrow> find_tenant (fl_tenants (su_fleet w2)) t = find_tenant (fl_tenants (su_fleet w)) t"
    and "su_metering w2 = su_metering w" and "su_sessions w2 = su_sessions w"
    and "fl_databases (su_fleet w2) = fl_databases (su_fleet w)"
proof -
  obtain r db c where st: "set_tenant_confirmation (status_cache_ttl s) now now (fl_tenants (su_fleet w)) (su_confirm w) tid
      CONFIRMATION_UNCONFIRMED (Some SELF_REGISTRATION_ACTOR) = Some (r, db, c)"
    by (rule tier_never_refused [OF assms(1)])
  note ts = tier_stamped [OF assms(1) st]
  obtain users' where cu: "create_user (sg_kdf env) (sg_salt env) (sg_user_id env) now (self_service_account email pw tid)
      (su_users w @ sg_concurrent env) = Inr (user, users')"
    and w2: "w2 = w\<lparr>su_fleet := (su_fleet w)\<lparr>fl_tenants := db\<rparr>, su_confirm := c, su_users := users'\<rparr>"
    using assms(2) by (auto simp: open_account_def st Let_def split: if_splits sum.splits)
  show "\<exists>d. su_users w2 = su_users w @ sg_concurrent env @ [d] \<and> user = public_user d \<and> vget d ''tenant_id'' = VStr tid
       \<and> vget d ''email'' = VStr (normalize_email email) \<and> vget d ''roles'' = VList [VStr ''user'', VStr ''admin'']
       \<and> vget d ''scopes'' = VList [VStr ''server:*''] \<and> vget d ''status'' = VStr ''active'' \<and> vget d ''self_registered'' = VBool True
       \<and> (\<exists>h. hash_password (sg_kdf env) (sg_salt env) DEFAULT_ITERATIONS pw = Some h \<and> vget d ''password_hash'' = VStr h)
       \<and> find_one (key_query ''email'' (normalize_email email)) (su_users w @ sg_concurrent env) = None"
    by (rule account_created [OF cu], rule exI) (use w2 in simp)
  show "confirmation_of_doc (doc_or_empty (find_tenant (fl_tenants (su_fleet w2)) tid)) = CONFIRMATION_UNCONFIRMED"
    and "t \<noteq> tid \<Longrightarrow> find_tenant (fl_tenants (su_fleet w2)) t = find_tenant (fl_tenants (su_fleet w)) t"
    and "su_metering w2 = su_metering w" and "su_sessions w2 = su_sessions w" and "fl_databases (su_fleet w2) = fl_databases (su_fleet w)"
    using ts w2 by simp_all
qed

lemma registered:
  assumes "register_self_service_user env s now email pw ip w = (Inr r, w')"
  obtains normalized user as w2 where "validate_credentials s email pw = Inr normalized"
    "enforce_ip_throttle s now ip (su_attempts w) = (None, as)" "enforce_beta_cap s (su_users w)"
    "open_account env s now (cfg_self_registration_tenant_prefix s @ sg_suffix env) normalized pw
       (w\<lparr>su_attempts := as, su_fleet := snd (provision_tenant (sg_sha env) s now (cfg_self_registration_tenant_prefix s @ sg_suffix env) (su_fleet w))\<rparr>)
     = (Inr user, w2)"
    "finish_account env s now (cfg_self_registration_tenant_prefix s @ sg_suffix env) normalized user w2 = (Inr r, w')"
  using assms that by (auto simp: register_self_service_user_def Let_def split: if_splits sum.splits prod.splits option.splits)

lemma validated_email: "validate_credentials s email pw = Inr n \<Longrightarrow> n = normalize_email email"
  by (auto simp: validate_credentials_def Let_def split: if_splits)

lemma normalize_email_idem: "normalize_email (normalize_email e) = normalize_email e"
  by (simp add: normalize_email_def strip_lower)

text \<open>C33. A successful sign-up stays in its box: the tenant is the fresh one, the one new account has exactly the roles
  and scopes of self-service, the tenant is stored as unconfirmed and metered with the unconfirmed caps,
  and nothing of another tenant changes: not its record, its quota, its sessions or its accounts.\<close>
theorem registrant_is_confined:
  assumes "register_self_service_user env s now email pw ip w = (Inr r, w')"
    and "tid = cfg_self_registration_tenant_prefix s @ sg_suffix env" and "find_tenant (fl_tenants (su_fleet w)) tid = None"
  shows "rr_tenant r = tid
     \<and> (\<exists>d. su_users w' = su_users w @ sg_concurrent env @ [d] \<and> rr_user r = public_user d \<and> vget d ''tenant_id'' = VStr tid
          \<and> vget d ''email'' = VStr (normalize_email email) \<and> vget d ''roles'' = VList [VStr ''user'', VStr ''admin'']
          \<and> vget d ''scopes'' = VList [VStr ''server:*''])
     \<and> confirmation_of_doc (doc_or_empty (find_tenant (fl_tenants (su_fleet w')) tid)) = CONFIRMATION_UNCONFIRMED
     \<and> get_effective_quota s tid (su_metering w') =
         \<lparr>calls_limit = quota_calls_per_period (tier_caps s CONFIRMATION_UNCONFIRMED),
          sandbox_seconds_limit = quota_sandbox_seconds_per_period (tier_caps s CONFIRMATION_UNCONFIRMED)\<rparr>
     \<and> (t \<noteq> tid \<longrightarrow> find_tenant (fl_tenants (su_fleet w')) t = find_tenant (fl_tenants (su_fleet w)) t
          \<and> get_effective_quota s t (su_metering w') = get_effective_quota s t (su_metering w)
          \<and> find_one (session_query t u) (su_sessions w') = find_one (session_query t u) (su_sessions w))"
proof -
  obtain normalized user as w2 where v: "validate_credentials s email pw = Inr normalized"
    and op: "open_account env s now tid normalized pw
       (w\<lparr>su_attempts := as, su_fleet := snd (provision_tenant (sg_sha env) s now tid (su_fleet w))\<rparr>) = (Inr user, w2)"
    and fin: "finish_account env s now tid normalized user w2 = (Inr r, w')"
    using registered [OF assms(1)] assms(2) by metis
  let ?F = "snd (provision_tenant (sg_sha env) s now tid (su_fleet w))"
  obtain t0 where F: "fl_tenants ?F = fl_tenants (su_fleet w) @ [t0]" "vget t0 ''tenant_id'' = VStr tid"
    using provisioned [OF assms(3)] by blast
  have found: "find_tenant (fl_tenants ?F) tid = Some t0" and other: "t \<noteq> tid \<Longrightarrow> find_tenant (fl_tenants ?F) t = find_tenant (fl_tenants (su_fleet w)) t"
    using F(2) assms(3) unfolding F(1) find_tenant_append
    by (simp_all add: find_tenant_def split: option.split)
  have found': "find_tenant (fl_tenants (su_fleet (w\<lparr>su_attempts := as, su_fleet := ?F\<rparr>))) tid = Some t0" using found by simp
  note o' = opened [OF found' op]
  obtain d where d: "su_users w2 = su_users w @ sg_concurrent env @ [d]" "user = public_user d" "vget d ''tenant_id'' = VStr tid"
    "vget d ''email'' = VStr (normalize_email normalized)" "vget d ''roles'' = VList [VStr ''user'', VStr ''admin'']"
    "vget d ''scopes'' = VList [VStr ''server:*'']" using o'(1) by auto
  have tu: "text_field user ''tenant_id'' = tid" using d(2,3) by (simp add: public_tenant)
  have fin': "rr_tenant r = tid" "rr_user r = user" "su_users w' = su_users w2" "su_fleet w' = su_fleet w2"
    "su_metering w' = snd (set_quota now tid (quota_calls_per_period (tier_caps s CONFIRMATION_UNCONFIRMED))
        (quota_sandbox_seconds_per_period (tier_caps s CONFIRMATION_UNCONFIRMED)) (Some SELF_REGISTRATION_ACTOR) (su_metering w2))"
    "su_sessions w' = sync_session_context now user (su_sessions w2)"
    using fin by (auto simp: finish_account_def Let_def split: if_splits)
  have caps: "max 0 (quota_calls_per_period (tier_caps s c)) = quota_calls_per_period (tier_caps s c)"
    "max 0 (quota_sandbox_seconds_per_period (tier_caps s c)) = quota_sandbox_seconds_per_period (tier_caps s c)" for c
    using tier_caps_nonneg [of s c] by simp_all
  have rest: "t \<noteq> tid \<Longrightarrow> find_tenant (fl_tenants (su_fleet w')) t = find_tenant (fl_tenants (su_fleet w)) t
          \<and> get_effective_quota s t (su_metering w') = get_effective_quota s t (su_metering w)
          \<and> find_one (session_query t u) (su_sessions w') = find_one (session_query t u) (su_sessions w)"
    using o'(3) [of t] o'(4,5) other by (simp add: fin' quota_set session_of_other tu)
  show ?thesis
  proof (intro conjI impI exI [of _ d])
    show "vget d ''email'' = VStr (normalize_email email)" using d(4) unfolding validated_email [OF v] normalize_email_idem .
  qed (use fin' d o'(2) rest in \<open>simp_all add: quota_set caps\<close>)
qed

section \<open>Sign-ups that fail\<close>

lemma rolled_back:
  assumes "find_tenant (fl_tenants (su_fleet w0)) tid = None" and "find_tenant (fl_tenants (su_fleet w)) tid = Some t0"
    and "filter (\<lambda>x. \<not> matches x (key_query ''tenant_id'' tid)) (fl_tenants (su_fleet w)) = fl_tenants (su_fleet w0)"
    and "open_account env s now tid email pw w = (Inl err, w')"
  shows "fl_tenants (su_fleet w') = fl_tenants (su_fleet w0)"
    and "su_users w' = su_users w \<or> su_users w' = su_users w @ sg_concurrent env"
    and "su_metering w' = su_metering w" and "su_sessions w' = su_sessions w"
proof -
  obtain r db c where st: "set_tenant_confirmation (status_cache_ttl s) now now (fl_tenants (su_fleet w)) (su_confirm w) tid
      CONFIRMATION_UNCONFIRMED (Some SELF_REGISTRATION_ACTOR) = Some (r, db, c)"
    by (rule tier_never_refused [OF assms(2)])
  have rb: "fl_tenants (su_fleet (rollback_tenant env s tid v)) = filter (\<lambda>x. \<not> matches x (key_query ''tenant_id'' tid)) (fl_tenants (su_fleet v))" for v
    by (simp add: rollback_tenant_def deprovision_tenant_def delete_many_def Let_def evict_tenant_cache_def split: drop_outcome.split)
  have keep: "su_users (rollback_tenant env s tid v) = su_users v" "su_metering (rollback_tenant env s tid v) = su_metering v"
    "su_sessions (rollback_tenant env s tid v) = su_sessions v" for v
    by (simp_all add: rollback_tenant_def)
  let ?w1 = "w\<lparr>su_fleet := (su_fleet w)\<lparr>fl_tenants := db\<rparr>, su_confirm := c, su_users := su_users w @ sg_concurrent env\<rparr>"
  have "w' = rollback_tenant env s tid w \<or> w' = rollback_tenant env s tid ?w1"
    using assms(4) by (auto simp: open_account_def st Let_def split: if_splits sum.splits)
  then show "fl_tenants (su_fleet w') = fl_tenants (su_fleet w0)" "su_users w' = su_users w \<or> su_users w' = su_users w @ sg_concurrent env"
    "su_metering w' = su_metering w" "su_sessions w' = su_sessions w"
    using assms(3) tier_stamped(3) [OF assms(2) st] by (auto simp: rb keep)
qed

lemma filter_fresh: "find_tenant ds tid = None \<Longrightarrow> filter (\<lambda>x. \<not> matches x (key_query ''tenant_id'' tid)) ds = ds"
  by (auto simp: find_tenant_def find_one_None_iff filter_id_conv)

lemma finish_fails_late:
  "finish_account env s now tid email user w = (Inl err, w') \<Longrightarrow> err = StepRaises QuotaStep \<or> err = StepRaises SyncStep"
  by (auto simp: finish_account_def Let_def split: if_splits)


text \<open>A sign-up that fails after its account exists is not undone, and not capped: when storing the quota raises, the
  caller is refused, yet the password already opens the account, and its tenant is metered with the
  platform's default quota, which is unlimited when that default is zero.\<close>
theorem failed_quota_leaves_uncapped_account:
  assumes "register_self_service_user env s now email pw ip w = (Inl (StepRaises QuotaStep), w')"
    and "tid = cfg_self_registration_tenant_prefix s @ sg_suffix env" and "find_tenant (fl_tenants (su_fleet w)) tid = None"
    and "find_one (key_query ''_id'' tid) (tenant_quotas (su_metering w)) = None"
    and "\<forall>b\<in>set (sg_salt env). b < 256" and "\<And>p i. length (sg_kdf env p (sg_salt env) i DERIVED_KEY_BYTES) = DERIVED_KEY_BYTES"
    and "\<And>p i. \<forall>b\<in>set (sg_kdf env p (sg_salt env) i DERIVED_KEY_BYTES). b < 256"
  shows "(\<exists>u. authenticate (sg_kdf env) (su_users w') email pw = Some u \<and> text_field u ''tenant_id'' = tid)
     \<and> (cfg_default_quota_calls_per_period s = 0 \<and> cfg_default_quota_sandbox_seconds_per_period s = 0
        \<longrightarrow> fst (check_quota s tid period (su_metering w')) = None)"
proof -
  obtain normalized user as where v: "validate_credentials s email pw = Inr normalized"
    and op: "open_account env s now tid normalized pw
       (w\<lparr>su_attempts := as, su_fleet := snd (provision_tenant (sg_sha env) s now tid (su_fleet w))\<rparr>) = (Inr user, w')"
    using assms(1,2) by (auto simp: register_self_service_user_def Let_def finish_account_def open_account_def
        validate_credentials_def split: if_splits sum.splits prod.splits option.splits)
  let ?F = "snd (provision_tenant (sg_sha env) s now tid (su_fleet w))"
  obtain t0 where F: "fl_tenants ?F = fl_tenants (su_fleet w) @ [t0]" "vget t0 ''tenant_id'' = VStr tid"
    using provisioned [OF assms(3)] by blast
  have found: "find_tenant (fl_tenants (su_fleet (w\<lparr>su_attempts := as, su_fleet := ?F\<rparr>))) tid = Some t0"
    using F(2) assms(3) by (simp add: F(1) find_tenant_append) (simp add: find_tenant_def)
  note o' = opened [OF found op]
  have n: "normalize_email normalized = normalize_email email" unfolding validated_email [OF v] normalize_email_idem ..
  obtain d h where d: "su_users w' = (su_users w @ sg_concurrent env) @ [d]" "vget d ''tenant_id'' = VStr tid"
    "vget d ''email'' = VStr (normalize_email email)" "vget d ''status'' = VStr ''active''" "vget d ''password_hash'' = VStr h"
    "hash_password (sg_kdf env) (sg_salt env) DEFAULT_ITERATIONS pw = Some h"
    "find_one (key_query ''email'' (normalize_email email)) (su_users w @ sg_concurrent env) = None"
    using o'(1) unfolding n by auto
  have it: "0 < DEFAULT_ITERATIONS" by (simp add: DEFAULT_ITERATIONS_def)
  have "find_user_by_email (su_users w') email = Some d"
    unfolding find_user_by_email_def d(1) find_one_append [of _ "su_users w @ sg_concurrent env"] d(7) using d(3) by simp
  moreover have "verify_password (sg_kdf env) pw (VStr h)" using password_round_trip [OF d(6) it assms(5-7)] by blast
  ultimately have "authenticate (sg_kdf env) (su_users w') email pw = Some (public_user d)"
    using d(4,5) by (simp add: authenticate_def vget_or_text text_field_def)
  moreover have "find_one (key_query ''_id'' tid) (tenant_quotas (su_metering w')) = None" using o'(4) assms(4) by simp
  ultimately show ?thesis using d(2)
    by (auto simp: public_tenant check_quota_def Let_def get_effective_quota_def quota_snapshot_def doc_or_empty_def non_negative_int_def vget_def)
qed

section \<open>How many sign-ups\<close>

text \<open>A history of sign-ups, each with its environment, time, credentials and address.\<close>
fun sign_ups ::
  "settings \<Rightarrow> (signup_env \<times> real \<times> string \<times> string \<times> string) list \<Rightarrow> signup_world
   \<Rightarrow> (signup_error + registration_result) list \<times> signup_world" where
  "sign_ups s [] w = ([], w)"
| "sign_ups s ((env, now, email, pw, ip) # rs) w =
     (case register_self_service_user env s now email pw ip w of
        (out, w1) \<Rightarrow> (case sign_ups s rs w1 of (outs, w2) \<Rightarrow> (out # outs, w2)))"

definition attempt_count :: "string \<Rightarrow> int \<Rightarrow> docs \<Rightarrow> int" where
  "attempt_count ip e attempts = count_of (find_one (attempt_query ip e) attempts) 0"

definition accounts_from ::
  "string \<Rightarrow> (signup_env \<times> real \<times> string \<times> string \<times> string) list \<Rightarrow> (signup_error + registration_result) list \<Rightarrow> nat" where
  "accounts_from ip rs outs = length (filter (\<lambda>((env, now, email, pw, i), out). i = ip \<and> \<not> isl out) (zip rs outs))"

lemma attempt_matches:
  "matches d (attempt_query ip e) \<longleftrightarrow> vget d ''client_ip'' = VStr ip \<and> canon (vget d ''window_epoch'') = VFloat (of_int e)"
  by (simp add: attempt_query_def resolve_plain canon_int_iff)

lemma attempt_update_keeps:
  assumes "matches d (attempt_query ip e)"
  shows "matches (apply_update (attempt_update ip e now x) d) (attempt_query ip' e') = matches d (attempt_query ip' e')"
proof -
  obtain y z where "dget d ''client_ip'' = Some y" "dget d ''window_epoch'' = Some z"
    using assms by (auto simp: attempt_matches vget_def split: option.splits)
  then show ?thesis by (simp add: attempt_matches vget_def apply_update_def attempt_update_def)
qed

lemma attempt_counted:
  assumes "buckets_ok ds" and "find_one_and_update (attempt_query ip e) (attempt_update ip e now x) True ds = (b, ds')"
  shows "buckets_ok ds'" and "count_of b 1 = attempt_count ip e ds + 1"
    and "attempt_count ip' e' ds' = attempt_count ip' e' ds + (if ip' = ip \<and> e' = e then 1 else 0)"
proof -
  let ?Q = "range (\<lambda>(i, e). attempt_query i e)" and ?q = "attempt_query ip e" and ?u = "attempt_update ip e now x"
  have seed: "upsert_seed ?q = [(''client_ip'', VStr ip), (''window_epoch'', VInt e)]"
    by (simp add: upsert_seed_def attempt_query_def map_filter_simps)
  have keep: "\<And>d r. matches d ?q \<Longrightarrow> r \<in> ?Q \<Longrightarrow> matches (apply_update ?u d) r = matches d r" using attempt_update_keeps by auto
  have excl: "\<And>d r. matches d ?q \<Longrightarrow> r \<in> ?Q \<Longrightarrow> r \<noteq> ?q \<Longrightarrow> \<not> matches d r" by (auto simp: attempt_matches)
  have q: "?q \<in> ?Q" "matches (upsert_seed ?q) ?q" "dget (upsert_seed ?q) ''count'' = None"
    by (auto simp: seed attempt_matches intro: range_eqI [of _ _ "(ip, e)"])
  have inc: "vget_or (apply_update ?u d) ''count'' (VInt 0) = num_add (vget_or d ''count'' (VInt 0)) (VInt 1)"
    and some: "dget (apply_update ?u d) ''count'' \<noteq> None" for d
    by (simp_all add: apply_update_def attempt_update_def vget_or_def)
  note k = counter_step [OF assms keep excl q inc some]
  show "buckets_ok ds'" "count_of b 1 = attempt_count ip e ds + 1" using k(1,2) by (simp_all add: attempt_count_def)
  show "attempt_count ip' e' ds' = attempt_count ip' e' ds + (if ip' = ip \<and> e' = e then 1 else 0)"
  proof (cases "ip' = ip \<and> e' = e")
    case True
    then show ?thesis using k(3) by (simp add: attempt_count_def)
  next
    case False
    then have "attempt_query ip' e' \<noteq> ?q" by (auto simp: attempt_query_def)
    moreover have "attempt_query ip' e' \<in> ?Q" by (auto intro: range_eqI [of _ _ "(ip', e')"])
    ultimately show ?thesis using k(4) False by (simp add: attempt_count_def)
  qed
qed

lemma later_steps_keep_attempts:
  "open_account env s now tid email pw w = (r, w') \<Longrightarrow> su_attempts w' = su_attempts w"
  "finish_account env s now tid email user w = (q, w') \<Longrightarrow> su_attempts w' = su_attempts w"
proof -
  have "su_attempts (rollback_tenant env s tid v) = su_attempts v" for v by (simp add: rollback_tenant_def)
  then show "open_account env s now tid email pw w = (r, w') \<Longrightarrow> su_attempts w' = su_attempts w"
    by (auto simp: open_account_def Let_def split: if_splits option.splits prod.splits sum.splits)
qed (auto simp: finish_account_def Let_def split: if_splits)

lemma attempts_after:
  assumes "register_self_service_user env s now email pw ip w = (out, w')"
  shows "(isl out \<and> su_attempts w' = su_attempts w)
     \<or> (su_attempts w' = snd (enforce_ip_throttle s now ip (su_attempts w))
        \<and> (fst (enforce_ip_throttle s now ip (su_attempts w)) \<noteq> None \<longrightarrow> isl out))"
  using assms
  by (auto simp: register_self_service_user_def Let_def dest!: later_steps_keep_attempts split: if_splits sum.splits prod.splits option.splits)

lemma throttle_step:
  assumes "buckets_ok ds" and "0 < cfg_self_registration_max_per_ip s"
    and "window_epoch (max 1 (cfg_self_registration_window_seconds s)) now = e"
    and "enforce_ip_throttle s now ip ds = (r, ds')"
  shows "buckets_ok ds'" and "attempt_count j e ds' = attempt_count j e ds + (if j = ip then 1 else 0)"
    and "r = None \<longleftrightarrow> attempt_count ip e ds + 1 \<le> cfg_self_registration_max_per_ip s"
proof -
  let ?x = "of_int (e + max 1 (cfg_self_registration_window_seconds s) + max 1 (cfg_self_registration_window_seconds s)) :: real"
  obtain b where fou: "find_one_and_update (attempt_query ip e) (attempt_update ip e now ?x) True ds = (b, ds')"
    and r: "r = None \<longleftrightarrow> \<not> count_of b 1 > max 0 (cfg_self_registration_max_per_ip s)"
    using assms(2-4) by (auto simp: enforce_ip_throttle_def Let_def split: prod.splits if_splits)
  note k = attempt_counted [OF assms(1) fou]
  show "buckets_ok ds'" "attempt_count j e ds' = attempt_count j e ds + (if j = ip then 1 else 0)" using k(1,3) by auto
  show "r = None \<longleftrightarrow> attempt_count ip e ds + 1 \<le> cfg_self_registration_max_per_ip s" using r k(2) assms(2) by auto
qed

text \<open>Within one window an address opens at most as many accounts as the configured limit, less the attempts already
  counted, however sign-ups from all addresses interleave and whichever of them fail.\<close>
theorem accounts_per_address_bounded:
  assumes "buckets_ok (su_attempts w)" and "0 < cfg_self_registration_max_per_ip s"
    and "\<forall>(env, now, r)\<in>set rs. window_epoch (max 1 (cfg_self_registration_window_seconds s)) now = e"
  shows "accounts_from ip rs (fst (sign_ups s rs w)) = 0
     \<or> int (accounts_from ip rs (fst (sign_ups s rs w))) + attempt_count ip e (su_attempts w) \<le> cfg_self_registration_max_per_ip s"
  using assms(1,3)
proof (induction rs arbitrary: w)
  case (Cons q rs)
  obtain env now email pw i where q: "q = (env, now, email, pw, i)" by (cases q)
  obtain out w1 where reg: "register_self_service_user env s now email pw i w = (out, w1)" by fastforce
  obtain outs w2 where rest: "sign_ups s rs w1 = (outs, w2)" by fastforce
  obtain t ds where th: "enforce_ip_throttle s now i (su_attempts w) = (t, ds)" by fastforce
  have e: "window_epoch (max 1 (cfg_self_registration_window_seconds s)) now = e" using Cons.prems(2) by (simp add: q)
  note k = throttle_step [OF Cons.prems(1) assms(2) e th]
  have S: "accounts_from ip (q # rs) (fst (sign_ups s (q # rs) w)) = (if i = ip \<and> \<not> isl out then 1 else 0) + accounts_from ip rs outs"
    by (simp add: q reg rest accounts_from_def)
  have late: "\<forall>(env, now, r)\<in>set rs. window_epoch (max 1 (cfg_self_registration_window_seconds s)) now = e" using Cons.prems(2) by simp
  have ok: "buckets_ok (su_attempts w1)" using attempts_after [OF reg] Cons.prems(1) k(1) th by auto
  have IH: "accounts_from ip rs outs = 0 \<or> int (accounts_from ip rs outs) + attempt_count ip e (su_attempts w1) \<le> cfg_self_registration_max_per_ip s"
    using Cons.IH [OF ok late] rest by simp
  show ?case unfolding S using attempts_after [OF reg] th k(2) [of ip] k(3) IH
    by (cases "isl out"; cases "ip = i") auto
qed (simp add: accounts_from_def)

definition self_registered :: "docs \<Rightarrow> nat" where
  "self_registered users = count_documents self_registered_query users"

lemma self_registered_append: "self_registered (xs @ ys) = self_registered xs + self_registered ys"
  by (simp add: self_registered_def count_documents_def find_docs_def)

lemma one_account: "self_registered [d] \<le> 1"
  by (simp add: self_registered_def count_documents_def find_docs_def)

lemma users_after_opening:
  "open_account env s now tid email pw w = (r, w') \<Longrightarrow>
   su_users w' = su_users w \<or> su_users w' = su_users w @ sg_concurrent env \<or> (\<exists>d. su_users w' = su_users w @ sg_concurrent env @ [d])"
  "finish_account env s now tid email user w = (q, w') \<Longrightarrow> su_users w' = su_users w"
proof -
  have "su_users (rollback_tenant env s tid v) = su_users v" for v by (simp add: rollback_tenant_def)
  then show "open_account env s now tid email pw w = (r, w') \<Longrightarrow>
     su_users w' = su_users w \<or> su_users w' = su_users w @ sg_concurrent env \<or> (\<exists>d. su_users w' = su_users w @ sg_concurrent env @ [d])"
    by (auto simp: open_account_def Let_def create_user_def insert_one_def split: if_splits option.splits prod.splits sum.splits)
qed (auto simp: finish_account_def Let_def split: if_splits)

lemma users_after:
  assumes "register_self_service_user env s now email pw ip w = (out, w')"
  shows "su_users w' = su_users w
     \<or> (enforce_beta_cap s (su_users w) \<and> (su_users w' = su_users w @ sg_concurrent env \<or> (\<exists>d. su_users w' = su_users w @ sg_concurrent env @ [d])))"
  using assms
  by (auto simp: register_self_service_user_def Let_def dest!: users_after_opening split: if_splits sum.splits prod.splits option.splits)

text \<open>The beta cap: a history of sign-ups takes the number of self-registered accounts beyond the cap (or beyond where it
  was) by no more than the accounts that were opened concurrently with one of them; without concurrency, not at all.\<close>
theorem beta_cap_bounds_accounts:
  assumes "0 < cfg_self_registration_max_tenants s"
  shows "int (self_registered (su_users (snd (sign_ups s rs w))))
     \<le> max (int (self_registered (su_users w))) (cfg_self_registration_max_tenants s)
        + int (\<Sum>(env, r)\<leftarrow>rs. self_registered (sg_concurrent env))"
proof (induction rs arbitrary: w)
  case (Cons q rs)
  obtain env now email pw i where q: "q = (env, now, email, pw, i)" by (cases q)
  obtain out w1 where reg: "register_self_service_user env s now email pw i w = (out, w1)" by fastforce
  have "int (self_registered (su_users w1)) \<le> max (int (self_registered (su_users w))) (cfg_self_registration_max_tenants s)
      + int (self_registered (sg_concurrent env))"
  proof (cases "su_users w1 = su_users w")
    case False
    then have cap: "enforce_beta_cap s (su_users w)" and
      "su_users w1 = su_users w @ sg_concurrent env \<or> (\<exists>d. su_users w1 = su_users w @ sg_concurrent env @ [d])"
      using users_after [OF reg] by blast+
    then have "self_registered (su_users w1) \<le> self_registered (su_users w) + self_registered (sg_concurrent env) + 1"
      using one_account by (auto simp: self_registered_append)
    moreover have "int (self_registered (su_users w)) < cfg_self_registration_max_tenants s"
      using cap assms by (simp add: enforce_beta_cap_def self_registered_def)
    ultimately show ?thesis by linarith
  qed simp
  moreover have "snd (sign_ups s (q # rs) w) = snd (sign_ups s rs w1)" by (simp add: q reg split: prod.split)
  ultimately show ?case using Cons.IH [of w1] by (simp add: q)
qed simp

section \<open>Examples\<close>

definition beta_settings :: settings where
  "beta_settings = default_settings\<lparr>cfg_self_registration_enabled := True, cfg_self_registration_max_per_ip := 2\<rparr>"

definition demo_signup :: "signup_step option \<Rightarrow> signup_env" where
  "demo_signup failing =
     \<lparr>sg_sha = (\<lambda>t. ''00000000''), sg_kdf = demo_kdf, sg_salt = [1, 171], sg_drop = (\<lambda>_. Dropped), sg_enc = (\<lambda>d k a. ''token''),
      sg_suffix = ''0123'', sg_user_id = ''u1'', sg_concurrent = [], sg_failing = failing\<rparr>"

definition empty_world :: signup_world where
  "empty_world =
     \<lparr>su_fleet = \<lparr>fl_tenants = [], fl_databases = [], fl_status = Map.empty, fl_ready = []\<rparr>, su_confirm = Map.empty, su_users = [],
      su_sessions = [], su_metering = \<lparr>usage_counters = [], tenant_quotas = [], usage_events = []\<rparr>, su_attempts = [], su_seeded = []\<rparr>"

lemma demo_validated: "validate_credentials beta_settings ''a@b.c'' ''longenough1'' = Inr ''a@b.c''"
proof -
  have "normalize_email ''a@b.c'' = ''a@b.c''" by code_simp
  moreover have "rx_whole EMAIL_RE ''a@b.c''" by code_simp
  ultimately show ?thesis by (simp add: validate_credentials_def beta_settings_def default_settings_def)
qed

lemma demo_throttle:
  "\<exists>as. enforce_ip_throttle beta_settings 0 ip [] = (None, as)"
  by (simp add: enforce_ip_throttle_def beta_settings_def default_settings_def Let_def find_one_and_update_def
      attempt_update_def attempt_query_def apply_update_def upsert_seed_def map_filter_simps count_of_def doc_or_empty_def vget_or_def)

lemma demo_registered:
  obtains as w2 user where
    "register_self_service_user (demo_signup f) beta_settings 0 ''a@b.c'' ''longenough1'' ip empty_world
      = (if f = Some ProvisionStep then (Inl (StepRaises ProvisionStep), empty_world\<lparr>su_attempts := as\<rparr>)
         else if f = Some TierStep \<or> f = Some CreateStep
         then (Inl (StepRaises (the f)), snd (open_account (demo_signup f) beta_settings 0 ''selfsvc-0123'' ''a@b.c'' ''longenough1''
           (empty_world\<lparr>su_attempts := as, su_fleet := snd (provision_tenant (\<lambda>t. ''00000000'') beta_settings 0 ''selfsvc-0123'' (su_fleet empty_world))\<rparr>)))
         else finish_account (demo_signup f) beta_settings 0 ''selfsvc-0123'' ''a@b.c'' user w2)"
proof -
  obtain as where th: "enforce_ip_throttle beta_settings 0 ip [] = (None, as)" using demo_throttle by blast
  let ?w = "empty_world\<lparr>su_attempts := as, su_fleet := snd (provision_tenant (\<lambda>t. ''00000000'') beta_settings 0 ''selfsvc-0123'' (su_fleet empty_world))\<rparr>"
  have "find_tenant (fl_tenants (su_fleet empty_world)) ''selfsvc-0123'' = None" by (simp add: empty_world_def find_tenant_def)
  then obtain d where d: "fl_tenants (su_fleet ?w) = [d]" "vget d ''tenant_id'' = VStr ''selfsvc-0123''"
    using provisioned [of "su_fleet empty_world" "''selfsvc-0123''" "\<lambda>t. ''00000000''" beta_settings 0] by (auto simp: empty_world_def)
  then have found: "find_tenant (fl_tenants (su_fleet ?w)) ''selfsvc-0123'' = Some d" by (simp add: find_tenant_def)
  obtain r db c where st: "set_tenant_confirmation (status_cache_ttl beta_settings) 0 0 (fl_tenants (su_fleet ?w)) (su_confirm ?w) ''selfsvc-0123''
      CONFIRMATION_UNCONFIRMED (Some SELF_REGISTRATION_ACTOR) = Some (r, db, c)"
    by (rule tier_never_refused [OF found])
  have e: "normalize_email ''a@b.c'' = ''a@b.c''" by code_simp
  obtain user us where cu: "create_user demo_kdf [1, 171] ''u1'' 0 (self_service_account ''a@b.c'' ''longenough1'' ''selfsvc-0123'') [] = Inr (user, us)"
    by (simp add: create_user_def self_service_account_def e hash_password_def Let_def)
  have users: "su_users ?w = []" by (simp add: empty_world_def)
  have parts: "sg_failing (demo_signup f) = f" "sg_concurrent (demo_signup f) = []" "sg_kdf (demo_signup f) = demo_kdf"
    "sg_salt (demo_signup f) = [1, 171]" "sg_user_id (demo_signup f) = ''u1''" by (simp_all add: demo_signup_def)
  obtain x w2 where op: "open_account (demo_signup f) beta_settings 0 ''selfsvc-0123'' ''a@b.c'' ''longenough1'' ?w = (x, w2)" by fastforce
  have x: "x = (if f = Some TierStep \<or> f = Some CreateStep then Inl (StepRaises (the f)) else Inr user)"
    using op unfolding open_account_def st Let_def by (auto simp: parts users [simplified] cu [simplified] split: if_splits)
  have pre: "cfg_self_registration_enabled beta_settings" "cfg_self_registration_tenant_prefix beta_settings @ sg_suffix (demo_signup f) = ''selfsvc-0123''"
    "su_attempts empty_world = []" "sg_failing (demo_signup f) = f" "enforce_beta_cap beta_settings []" "su_users empty_world = []"
    "find_user_by_email [] ''a@b.c'' = None" "sg_sha (demo_signup f) = (\<lambda>t. ''00000000'')"
    by (simp_all add: beta_settings_def default_settings_def demo_signup_def empty_world_def enforce_beta_cap_def count_documents_def
        find_docs_def find_user_by_email_def)
  show ?thesis
  proof (rule that [of as user w2])
    show "register_self_service_user (demo_signup f) beta_settings 0 ''a@b.c'' ''longenough1'' ip empty_world
      = (if f = Some ProvisionStep then (Inl (StepRaises ProvisionStep), empty_world\<lparr>su_attempts := as\<rparr>)
         else if f = Some TierStep \<or> f = Some CreateStep
         then (Inl (StepRaises (the f)), snd (open_account (demo_signup f) beta_settings 0 ''selfsvc-0123'' ''a@b.c'' ''longenough1'' ?w))
         else finish_account (demo_signup f) beta_settings 0 ''selfsvc-0123'' ''a@b.c'' user w2)"
      unfolding register_self_service_user_def demo_validated
      using op x by (simp add: pre th Let_def)
  qed
qed

lemma registrant_is_confined_witness:
  "\<exists>r w'. register_self_service_user (demo_signup None) beta_settings 0 ''a@b.c'' ''longenough1'' ''10.0.0.1'' empty_world = (Inr r, w')
     \<and> rr_tenant r = ''selfsvc-0123'' \<and> calls_limit (get_effective_quota beta_settings ''selfsvc-0123'' (su_metering w')) = 100"
proof -
  obtain r w' where r: "register_self_service_user (demo_signup None) beta_settings 0 ''a@b.c'' ''longenough1'' ''10.0.0.1'' empty_world = (Inr r, w')"
    by (rule demo_registered [of None "''10.0.0.1''"]) (auto simp: finish_account_def demo_signup_def Let_def)
  have t: "''selfsvc-0123'' = cfg_self_registration_tenant_prefix beta_settings @ sg_suffix (demo_signup None)"
    by (simp add: beta_settings_def default_settings_def demo_signup_def)
  have n: "find_tenant (fl_tenants (su_fleet empty_world)) ''selfsvc-0123'' = None" by (simp add: empty_world_def find_tenant_def)
  have c: "quota_calls_per_period (tier_caps beta_settings CONFIRMATION_UNCONFIRMED) = 100"
    using normalize_confirmation_id [OF clean_unconfirmed(2)] by (simp add: tier_caps_def beta_settings_def default_settings_def)
  show ?thesis using r registrant_is_confined [OF r t n] c by auto
qed


lemma failed_quota_leaves_uncapped_account_witness:
  "\<exists>w' u. register_self_service_user (demo_signup (Some QuotaStep)) beta_settings 0 ''a@b.c'' ''longenough1'' ''10.0.0.1'' empty_world
       = (Inl (StepRaises QuotaStep), w')
     \<and> authenticate demo_kdf (su_users w') ''a@b.c'' ''longenough1'' = Some u
     \<and> fst (check_quota beta_settings ''selfsvc-0123'' ''2025-01'' (su_metering w')) = None"
proof -
  obtain w' where r: "register_self_service_user (demo_signup (Some QuotaStep)) beta_settings 0 ''a@b.c'' ''longenough1'' ''10.0.0.1'' empty_world
       = (Inl (StepRaises QuotaStep), w')"
    by (rule demo_registered [of "Some QuotaStep" "''10.0.0.1''"]) (auto simp: finish_account_def demo_signup_def)
  have t: "''selfsvc-0123'' = cfg_self_registration_tenant_prefix beta_settings @ sg_suffix (demo_signup (Some QuotaStep))"
    by (simp add: beta_settings_def default_settings_def demo_signup_def)
  have n: "find_tenant (fl_tenants (su_fleet empty_world)) ''selfsvc-0123'' = None"
    "find_one (key_query ''_id'' ''selfsvc-0123'') (tenant_quotas (su_metering empty_world)) = None"
    by (simp_all add: empty_world_def find_tenant_def)
  have b: "\<forall>b\<in>set (demo_kdf p [1, 171] i DERIVED_KEY_BYTES). b < 256" for p i
    by (auto simp: demo_kdf_def dest!: in_set_takeD intro: less_trans [OF mod_less_divisor])
  have len: "length (demo_kdf p [1, 171] i DERIVED_KEY_BYTES) = DERIVED_KEY_BYTES" for p i by (simp add: demo_kdf_def)
  have k: "sg_kdf (demo_signup f) = demo_kdf" "sg_salt (demo_signup f) = [1, 171]" for f by (simp_all add: demo_signup_def)
  have z: "cfg_default_quota_calls_per_period beta_settings = 0" "cfg_default_quota_sandbox_seconds_per_period beta_settings = 0"
    by (simp_all add: beta_settings_def default_settings_def)
  have salt: "\<forall>b\<in>set [1, 171 :: nat]. b < 256" by simp
  show ?thesis using failed_quota_leaves_uncapped_account [OF r t n, unfolded k, OF salt len b] r z by blast
qed

lemma accounts_per_address_bounded_witness:
  "accounts_from ''10.0.0.1'' [(demo_signup None, 1, ''a@b.c'', ''longenough1'', ''10.0.0.1''), (demo_signup None, 2, ''c@b.c'', ''longenough1'', ''10.0.0.1'')]
     (fst (sign_ups beta_settings [(demo_signup None, 1, ''a@b.c'', ''longenough1'', ''10.0.0.1''), (demo_signup None, 2, ''c@b.c'', ''longenough1'', ''10.0.0.1'')]
        empty_world)) \<le> 2"
proof -
  let ?rs = "[(demo_signup None, 1, ''a@b.c'', ''longenough1'', ''10.0.0.1''), (demo_signup None, 2, ''c@b.c'', ''longenough1'', ''10.0.0.1'')]"
  have ok: "buckets_ok (su_attempts empty_world)" by (simp add: empty_world_def buckets_ok_def)
  have lim: "cfg_self_registration_max_per_ip beta_settings = 2" by (simp add: beta_settings_def)
  have e: "\<forall>(env, now, r)\<in>set ?rs. window_epoch (max 1 (cfg_self_registration_window_seconds beta_settings)) now = 0"
    by (simp add: beta_settings_def default_settings_def window_epoch_def)
  have z: "attempt_count ''10.0.0.1'' 0 (su_attempts empty_world) = 0" by (simp add: empty_world_def attempt_count_def count_of_def)
  show ?thesis using accounts_per_address_bounded [OF ok _ e, of "''10.0.0.1''"] z lim by auto
qed

lemma beta_cap_bounds_accounts_witness:
  "self_registered (su_users (snd (sign_ups (beta_settings\<lparr>cfg_self_registration_max_tenants := 1\<rparr>)
     [(demo_signup None, 1, ''a@b.c'', ''longenough1'', ''10.0.0.1''), (demo_signup None, 2, ''c@b.c'', ''longenough1'', ''10.0.0.2'')] empty_world))) \<le> 1"
proof -
  have "self_registered [] = 0" by (simp add: self_registered_def count_documents_def find_docs_def)
  then show ?thesis
    using beta_cap_bounds_accounts [of "beta_settings\<lparr>cfg_self_registration_max_tenants := 1\<rparr>"
        "[(demo_signup None, 1, ''a@b.c'', ''longenough1'', ''10.0.0.1''), (demo_signup None, 2, ''c@b.c'', ''longenough1'', ''10.0.0.2'')]" empty_world]
    by (simp add: empty_world_def demo_signup_def del: sign_ups.simps)
qed

end
