(* ===== verification/SandboxPool.thy ===== *)
theory SandboxPool
  imports Settings
begin

text \<open>\<open>services/sandbox_pool.py\<close>: the pool of warm workers as a state machine.  What runs between two suspension points of a
  coroutine is one event; spawning, pinging and the outcome of a job are decided by the environment, and so
  are the instants at which waits expire.  Workers and jobs are numbers; killing or terminating a worker takes
  effect at once.  The pool is related to what it promises, a lending desk that never hands out a worker it has
  taken out of use, by a simulation.\<close>

section \<open>State\<close>

text \<open>\<open>pl_starting\<close>: the workers \<open>start\<close> still has to spawn (it holds the lock); \<open>pl_waiting\<close>, \<open>pl_leased\<close>: the calls of
  \<open>submit\<close> that wait for a worker or run on one; \<open>pl_parent\<close>: the job whose relayed tool call a job is; \<open>pl_sweep\<close>: the idle
  workers a sweep has yet to look at; \<open>pl_refills\<close>: the background tasks of \<open>_discard\<close> that have not got the lock,
  \<open>pl_spawning\<close>: one of them has; \<open>pl_dead\<close>: workers with \<open>alive = False\<close>; \<open>pl_exited\<close>: processes with an exit code.
  \<open>pl_lost\<close> and \<open>pl_poisoned\<close> only observe: how many spawns failed, and on which workers a job failed.\<close>
record pool =
  pl_size :: nat
  pl_max_jobs :: nat
  pl_started :: bool
  pl_closed :: bool
  pl_starting :: "nat option"
  pl_free :: "nat list"
  pl_all :: "nat list"
  pl_waiting :: "nat list"
  pl_leased :: "(nat \<times> nat) list"
  pl_parent :: "(nat \<times> nat) list"
  pl_sweep :: "nat list"
  pl_refills :: nat
  pl_spawning :: bool
  pl_dead :: "nat list"
  pl_exited :: "nat list"
  pl_jobs :: "nat \<Rightarrow> nat"
  pl_next :: nat
  pl_lost :: nat
  pl_poisoned :: "nat list"

definition new_pool :: "settings \<Rightarrow> pool" where
  "new_pool s =
     \<lparr>pl_size = nat (max 0 (cfg_sandbox_pool_size s)), pl_max_jobs = nat (max 0 (cfg_sandbox_worker_max_jobs s)),
      pl_started = False, pl_closed = False, pl_starting = None, pl_free = [], pl_all = [], pl_waiting = [], pl_leased = [],
      pl_parent = [], pl_sweep = [], pl_refills = 0, pl_spawning = False, pl_dead = [], pl_exited = [], pl_jobs = (\<lambda>_. 0),
      pl_next = 0, pl_lost = 0, pl_poisoned = []\<rparr>"

datatype pool_event =
    StartBegin
  | StartSpawn bool
  | StartEnd
  | Submit nat "nat option"
  | Acquire nat
  | Abandon nat
  | JobDone nat
  | JobFails nat
  | RefillBegin
  | RefillSpawn bool
  | Exits nat
  | SweepBegin
  | SweepNext bool
  | Close
  | CancelTasks

definition lock_free :: "pool \<Rightarrow> bool" where
  "lock_free p = (pl_starting p = None \<and> \<not> pl_spawning p)"

text \<open>\<open>_spawn_worker\<close> with the two lines after it: the new worker is known and queued.\<close>
definition add_worker :: "pool \<Rightarrow> pool" where
  "add_worker p = p\<lparr>pl_all := pl_all p @ [pl_next p], pl_free := pl_free p @ [pl_next p], pl_next := Suc (pl_next p)\<rparr>"

definition discard :: "nat \<Rightarrow> pool \<Rightarrow> pool" where
  "discard w p =
     (if w \<in> set (pl_dead p) then p
      else p\<lparr>pl_dead := w # pl_dead p, pl_all := removeAll w (pl_all p), pl_exited := w # pl_exited p, pl_refills := Suc (pl_refills p)\<rparr>)"

definition release :: "nat \<Rightarrow> pool \<Rightarrow> pool" where
  "release j p = p\<lparr>pl_leased := filter (\<lambda>l. fst l \<noteq> j) (pl_leased p)\<rparr>"

text \<open>A job relays one call at a time and waits for it.\<close>
definition awaits_child :: "pool \<Rightarrow> nat \<Rightarrow> bool" where
  "awaits_child p j = list_ex (\<lambda>(c, q). q = j \<and> (c \<in> set (pl_waiting p) \<or> c \<in> fst ` set (pl_leased p))) (pl_parent p)"

definition known_job :: "pool \<Rightarrow> nat \<Rightarrow> bool" where
  "known_job p j = (j \<in> set (pl_waiting p) \<or> j \<in> fst ` set (pl_leased p) \<or> j \<in> fst ` set (pl_parent p))"

text \<open>The end of \<open>submit\<close> when the job returned a frame.\<close>
definition serve_done :: "nat \<Rightarrow> pool \<Rightarrow> pool" where
  "serve_done w p =
     (let n = Suc (pl_jobs p w); p1 = p\<lparr>pl_jobs := (pl_jobs p)(w := n)\<rparr>
      in if pl_max_jobs p > 0 \<and> n \<ge> pl_max_jobs p then discard w p1 else p1\<lparr>pl_free := pl_free p1 @ [w]\<rparr>)"

fun pool_step :: "pool_event \<Rightarrow> pool \<Rightarrow> pool option" where
  "pool_step StartBegin p =
     (if lock_free p \<and> \<not> pl_started p \<and> \<not> pl_closed p
      then Some (p\<lparr>pl_started := True, pl_starting := Some (pl_size p)\<rparr>) else None)"
| "pool_step (StartSpawn ok) p =
     (case pl_starting p of
        Some (Suc n) \<Rightarrow>
          (let p1 = p\<lparr>pl_starting := Some n\<rparr> in Some (if ok then add_worker p1 else p1\<lparr>pl_lost := Suc (pl_lost p1)\<rparr>))
      | _ \<Rightarrow> None)"
| "pool_step StartEnd p = (if pl_starting p = Some 0 then Some (p\<lparr>pl_starting := None\<rparr>) else None)"
| "pool_step (Submit j parent) p =
     (if pl_closed p \<or> \<not> pl_started p \<or> known_job p j then None
      else case parent of
          None \<Rightarrow> Some (p\<lparr>pl_waiting := pl_waiting p @ [j]\<rparr>)
        | Some q \<Rightarrow>
            if q \<in> fst ` set (pl_leased p) \<and> \<not> awaits_child p q
            then Some (p\<lparr>pl_waiting := pl_waiting p @ [j], pl_parent := (j, q) # pl_parent p\<rparr>) else None)"
| "pool_step (Acquire j) p =
     (case pl_free p of
        [] \<Rightarrow> None
      | w # ws \<Rightarrow>
          if j \<notin> set (pl_waiting p) then None
          else if w \<in> set (pl_exited p) then Some (discard w (p\<lparr>pl_free := ws\<rparr>))
          else Some (p\<lparr>pl_free := ws, pl_waiting := removeAll j (pl_waiting p), pl_leased := (j, w) # pl_leased p\<rparr>))"
| "pool_step (Abandon j) p =
     (if j \<in> set (pl_waiting p) then Some (p\<lparr>pl_waiting := removeAll j (pl_waiting p)\<rparr>) else None)"
| "pool_step (JobDone j) p =
     (case map_of (pl_leased p) j of
        Some w \<Rightarrow> if awaits_child p j then None else Some (serve_done w (release j p))
      | None \<Rightarrow> None)"
| "pool_step (JobFails j) p =
     (case map_of (pl_leased p) j of
        Some w \<Rightarrow> if awaits_child p j then None
                  else Some ((discard w (release j p))\<lparr>pl_poisoned := w # pl_poisoned p\<rparr>)
      | None \<Rightarrow> None)"
| "pool_step RefillBegin p =
     (if pl_refills p = 0 then None
      else if pl_closed p then Some (p\<lparr>pl_refills := pl_refills p - 1\<rparr>)
      else if \<not> lock_free p then None
      else if length (pl_all p) \<ge> pl_size p then Some (p\<lparr>pl_refills := pl_refills p - 1\<rparr>)
      else Some (p\<lparr>pl_refills := pl_refills p - 1, pl_spawning := True\<rparr>))"
| "pool_step (RefillSpawn ok) p =
     (if \<not> pl_spawning p then None
      else (let p1 = p\<lparr>pl_spawning := False\<rparr>
            in Some (if \<not> ok then p1\<lparr>pl_lost := Suc (pl_lost p1)\<rparr> else if pl_closed p then p1 else add_worker p1)))"
| "pool_step (Exits w) p = Some (p\<lparr>pl_exited := w # pl_exited p\<rparr>)"
| "pool_step SweepBegin p =
     (if pl_closed p \<or> pl_sweep p \<noteq> [] then None else Some (p\<lparr>pl_sweep := pl_free p, pl_free := []\<rparr>))"
| "pool_step (SweepNext healthy) p =
     (case pl_sweep p of
        [] \<Rightarrow> None
      | w # ws \<Rightarrow>
          (let p1 = p\<lparr>pl_sweep := ws\<rparr>
           in if pl_closed p then Some (p1\<lparr>pl_free := pl_free p1 @ [w]\<rparr>)
              else if w \<in> set (pl_exited p) \<or> \<not> healthy then Some (discard w p1)
              else Some (p1\<lparr>pl_free := pl_free p1 @ [w]\<rparr>)))"
| "pool_step Close p =
     Some (p\<lparr>pl_closed := True, pl_sweep := [], pl_free := [], pl_all := [], pl_dead := pl_all p @ pl_dead p,
             pl_exited := pl_all p @ pl_exited p\<rparr>)"
| "pool_step CancelTasks p =
     (if pl_closed p then Some (p\<lparr>pl_refills := 0, pl_spawning := False\<rparr>) else None)"

fun pool_run :: "pool_event list \<Rightarrow> pool \<Rightarrow> pool option" where
  "pool_run [] p = Some p"
| "pool_run (e # es) p = (case pool_step e p of None \<Rightarrow> None | Some q \<Rightarrow> pool_run es q)"

section \<open>The invariant\<close>

definition pending :: "pool \<Rightarrow> nat" where
  "pending p = pl_refills p + (if pl_spawning p then 1 else 0) + (case pl_starting p of Some n \<Rightarrow> n | None \<Rightarrow> 0)"

definition lent_workers :: "pool \<Rightarrow> nat list" where
  "lent_workers p = map snd (pl_leased p)"

definition held :: "pool \<Rightarrow> nat list" where
  "held p = pl_free p @ pl_sweep p @ lent_workers p"

definition lease_ok :: "pool \<Rightarrow> bool" where
  "lease_ok p = (distinct (held p) \<and> distinct (map fst (pl_leased p)) \<and> distinct (pl_waiting p)
     \<and> (\<forall>j\<in>set (pl_waiting p). j \<notin> fst ` set (pl_leased p)))"

definition worker_ok :: "pool \<Rightarrow> bool" where
  "worker_ok p =
     (distinct (pl_all p) \<and> (\<forall>w\<in>set (held p). w \<in> set (pl_all p) \<or> w \<in> set (pl_dead p))
      \<and> (\<forall>w\<in>set (pl_dead p). w \<notin> set (pl_all p) \<and> w \<in> set (pl_exited p))
      \<and> (\<forall>w\<in>set (pl_all p). w < pl_next p) \<and> (\<forall>w\<in>set (pl_dead p). w < pl_next p)
      \<and> (\<forall>w\<in>set (pl_poisoned p). w \<in> set (pl_dead p) \<and> w \<notin> set (lent_workers p))
      \<and> (\<not> pl_closed p \<longrightarrow> (\<forall>w\<in>set (held p). w \<notin> set (pl_dead p))))"

definition capacity_ok :: "pool \<Rightarrow> bool" where
  "capacity_ok p =
     (length (pl_all p) + pending p \<le> pl_size p
      \<and> (pl_started p \<and> \<not> pl_closed p \<longrightarrow> length (pl_all p) + pending p + pl_lost p = pl_size p)
      \<and> (\<not> pl_started p \<longrightarrow> length (pl_all p) + pending p + pl_lost p = 0 \<and> pl_starting p = None))"

lemma discard_fields [simp]:
  "pl_free (discard w p) = pl_free p" "pl_sweep (discard w p) = pl_sweep p" "pl_leased (discard w p) = pl_leased p"
  "pl_waiting (discard w p) = pl_waiting p" "pl_parent (discard w p) = pl_parent p" "pl_size (discard w p) = pl_size p"
  "pl_closed (discard w p) = pl_closed p" "pl_started (discard w p) = pl_started p" "pl_starting (discard w p) = pl_starting p"
  "pl_spawning (discard w p) = pl_spawning p" "pl_next (discard w p) = pl_next p" "pl_lost (discard w p) = pl_lost p"
  "pl_poisoned (discard w p) = pl_poisoned p" "set (pl_dead (discard w p)) = insert w (set (pl_dead p))" "held (discard w p) = held p"
  by (auto simp: discard_def held_def lent_workers_def)

lemma release_fields [simp]:
  "pl_free (release j p) = pl_free p" "pl_sweep (release j p) = pl_sweep p" "pl_all (release j p) = pl_all p"
  "pl_waiting (release j p) = pl_waiting p" "pl_parent (release j p) = pl_parent p" "pl_size (release j p) = pl_size p"
  "pl_closed (release j p) = pl_closed p" "pl_started (release j p) = pl_started p" "pl_starting (release j p) = pl_starting p"
  "pl_spawning (release j p) = pl_spawning p" "pl_next (release j p) = pl_next p" "pl_lost (release j p) = pl_lost p"
  "pl_poisoned (release j p) = pl_poisoned p" "pl_dead (release j p) = pl_dead p" "pl_refills (release j p) = pl_refills p"
  "pl_exited (release j p) = pl_exited p" "pl_leased (release j p) = filter (\<lambda>l. fst l \<noteq> j) (pl_leased p)"
  by (simp_all add: release_def)

lemma unlease:
  "distinct (map fst L) \<Longrightarrow> distinct (map snd L) \<Longrightarrow> map_of L j = Some w \<Longrightarrow>
   map snd (filter (\<lambda>l. fst l \<noteq> j) L) = removeAll w (map snd L)"
proof (induction L)
  case (Cons l L)
  obtain i v where l: "l = (i, v)" by (cases l)
  show ?case
  proof (cases "i = j")
    case True
    then have "v = w" "w \<notin> set (map snd L)" "\<forall>x\<in>set L. fst x \<noteq> j" using Cons.prems by (auto simp: l)
    then show ?thesis by (simp add: l True filter_id_conv)
  next
    case False
    then have "w \<in> set (map snd L)" using Cons.prems by (auto simp: l dest: map_of_SomeD intro: rev_image_eqI)
    then have "v \<noteq> w" using Cons.prems by (auto simp: l)
    then show ?thesis using Cons False by (simp add: l)
  qed
qed simp

lemma lent_workers_simps [simp]:
  "lent_workers (discard w p) = lent_workers p" "lent_workers (p\<lparr>pl_free := xs\<rparr>) = lent_workers p"
  "lent_workers (p\<lparr>pl_sweep := xs\<rparr>) = lent_workers p" "lent_workers (p\<lparr>pl_starting := a\<rparr>) = lent_workers p"
  "lent_workers (p\<lparr>pl_lost := n\<rparr>) = lent_workers p" "lent_workers (p\<lparr>pl_spawning := b\<rparr>) = lent_workers p"
  "lent_workers (p\<lparr>pl_refills := n\<rparr>) = lent_workers p" "lent_workers (p\<lparr>pl_started := b\<rparr>) = lent_workers p"
  "lent_workers (p\<lparr>pl_jobs := f\<rparr>) = lent_workers p" "lent_workers (p\<lparr>pl_waiting := ws\<rparr>) = lent_workers p"
  "lent_workers (p\<lparr>pl_parent := ps\<rparr>) = lent_workers p" "lent_workers (p\<lparr>pl_exited := xs\<rparr>) = lent_workers p"
  "lent_workers (p\<lparr>pl_poisoned := xs\<rparr>) = lent_workers p" "lent_workers (add_worker p) = lent_workers p"
  "lent_workers (p\<lparr>pl_leased := (j, w) # L\<rparr>) = w # map snd L"
  by (simp_all add: lent_workers_def add_worker_def discard_def)

lemma distinct_mid: "distinct (xs @ w # ys) \<longleftrightarrow> w \<notin> set (xs @ ys) \<and> distinct (xs @ ys)"
  by auto

lemma held_release:
  assumes "lease_ok p" and "map_of (pl_leased p) j = Some w"
  shows "held (release j p) = pl_free p @ pl_sweep p @ removeAll w (lent_workers p)"
    and "w \<in> set (held p)" and "w \<notin> set (pl_free p)" and "w \<notin> set (pl_sweep p)"
    and "set (held (release j p)) = set (held p) - {w}" and "set (lent_workers (release j p)) = set (lent_workers p) - {w}"
proof -
  have w: "w \<in> set (lent_workers p)" using assms(2) by (auto simp: lent_workers_def dest: map_of_SomeD intro: rev_image_eqI)
  then show "w \<in> set (held p)" by (simp add: held_def)
  show nf: "w \<notin> set (pl_free p)" and ns: "w \<notin> set (pl_sweep p)" using assms(1) w by (auto simp: lease_ok_def held_def)
  have l: "lent_workers (release j p) = removeAll w (lent_workers p)"
    using assms unlease [of "pl_leased p" j w] by (simp add: held_def lease_ok_def lent_workers_def)
  then show h: "held (release j p) = pl_free p @ pl_sweep p @ removeAll w (lent_workers p)" by (simp add: held_def)
  show "set (held (release j p)) = set (held p) - {w}" unfolding h using nf ns by (auto simp: held_def)
  show "set (lent_workers (release j p)) = set (lent_workers p) - {w}" by (simp add: l)
qed

lemma lease_ok_mono:
  assumes "lease_ok p" and "distinct (held q)" and "pl_leased q = pl_leased p" and "pl_waiting q = pl_waiting p"
  shows "lease_ok q"
  using assms by (simp add: lease_ok_def)

lemma release_lease_ok:
  assumes "lease_ok p" and "map_of (pl_leased p) j = Some w"
  shows "lease_ok (release j p)"
  using assms(1) unfolding lease_ok_def held_release(1) [OF assms]
  by (auto simp: held_def distinct_removeAll distinct_map_filter)

lemma lease_ok_requeue:
  assumes "lease_ok p" and "w \<notin> set (held p)"
  shows "lease_ok (p\<lparr>pl_free := pl_free p @ [w]\<rparr>)"
  by (rule lease_ok_mono [OF assms(1)]) (use assms in \<open>simp_all add: held_def lease_ok_def distinct_mid\<close>)

lemma lease_ok_add: "lease_ok p \<Longrightarrow> pl_next p \<notin> set (held p) \<Longrightarrow> lease_ok (add_worker p)"
  using lease_ok_requeue [of p "pl_next p"] by (simp add: add_worker_def lease_ok_def held_def lent_workers_def)

lemma lease_ok_congs:
  "lease_ok p \<Longrightarrow> lease_ok (p\<lparr>pl_starting := a\<rparr>)" "lease_ok p \<Longrightarrow> lease_ok (p\<lparr>pl_lost := n\<rparr>)"
  "lease_ok p \<Longrightarrow> lease_ok (p\<lparr>pl_spawning := b\<rparr>)" "lease_ok p \<Longrightarrow> lease_ok (p\<lparr>pl_jobs := f\<rparr>)"
  "lease_ok p \<Longrightarrow> lease_ok (p\<lparr>pl_poisoned := xs\<rparr>)" "lease_ok p \<Longrightarrow> lease_ok (discard w p)"
  by (simp_all add: lease_ok_def held_def)

lemma fresh_not_held: "worker_ok p \<Longrightarrow> pl_next p \<notin> set (held p)"
  unfolding worker_ok_def by (metis less_irrefl)

lemma lease_ok_step:
  assumes "lease_ok p" and "worker_ok p" and "pool_step e p = Some q"
  shows "lease_ok q"
proof (cases e)
  case (StartSpawn ok)
  then obtain n where "pl_starting p = Some (Suc n)"
    and q: "q = (let p1 = p\<lparr>pl_starting := Some n\<rparr> in if ok then add_worker p1 else p1\<lparr>pl_lost := Suc (pl_lost p1)\<rparr>)"
    using assms(3) by (auto simp: Let_def split: option.splits nat.splits)
  have "pl_next (p\<lparr>pl_starting := Some n\<rparr>) \<notin> set (held (p\<lparr>pl_starting := Some n\<rparr>))" using fresh_not_held [OF assms(2)] by (simp add: held_def)
  then show ?thesis unfolding q Let_def using lease_ok_add lease_ok_congs assms(1) by simp
next
  case (RefillSpawn ok)
  have "pl_next (p\<lparr>pl_spawning := False\<rparr>) \<notin> set (held (p\<lparr>pl_spawning := False\<rparr>))" using fresh_not_held [OF assms(2)] by (simp add: held_def)
  then show ?thesis using assms(1,3) RefillSpawn by (auto simp: Let_def intro!: lease_ok_add lease_ok_congs split: if_splits)
next
  case (JobDone j)
  then obtain w where w: "map_of (pl_leased p) j = Some w" and q: "q = serve_done w (release j p)"
    using assms(3) by (auto split: option.splits if_splits)
  have r: "lease_ok (release j p)" using release_lease_ok [OF assms(1) w] .
  have "w \<notin> set (held (release j p))" using held_release(5) [OF assms(1) w] by blast
  then have "w \<notin> set (held ((release j p)\<lparr>pl_jobs := f\<rparr>))" for f by (simp add: held_def)
  then show ?thesis unfolding q serve_done_def Let_def
    using lease_ok_requeue [OF lease_ok_congs(4) [OF r]] lease_ok_congs(6) [OF lease_ok_congs(4) [OF r]] by simp
next
  case (JobFails j)
  then obtain w where w: "map_of (pl_leased p) j = Some w" and q: "q = (discard w (release j p))\<lparr>pl_poisoned := w # pl_poisoned p\<rparr>"
    using assms(3) by (auto split: option.splits if_splits)
  show ?thesis unfolding q using release_lease_ok [OF assms(1) w] lease_ok_congs(5,6) by blast
next
  case (Acquire j)
  then obtain w ws where f: "pl_free p = w # ws" and j: "j \<in> set (pl_waiting p)" using assms(3) by (auto split: list.splits if_splits)
  have "distinct (w # ws @ pl_sweep p @ lent_workers p)" using assms(1) by (simp add: lease_ok_def held_def f)
  then have d: "distinct (ws @ pl_sweep p @ lent_workers p)" "distinct (ws @ pl_sweep p @ w # lent_workers p)"
    by (simp_all add: distinct_mid [of "ws @ pl_sweep p", simplified])
  show ?thesis
  proof (cases "w \<in> set (pl_exited p)")
    case True
    then have "q = discard w (p\<lparr>pl_free := ws\<rparr>)" using assms(3) Acquire f j by simp
    moreover have "lease_ok (p\<lparr>pl_free := ws\<rparr>)" by (rule lease_ok_mono [OF assms(1)]) (use d(1) in \<open>simp_all add: held_def\<close>)
    ultimately show ?thesis using lease_ok_congs(6) by simp
  next
    case False
    then have q: "q = p\<lparr>pl_free := ws, pl_waiting := removeAll j (pl_waiting p), pl_leased := (j, w) # pl_leased p\<rparr>"
      using assms(3) Acquire f j by simp
    have "held q = ws @ pl_sweep p @ w # lent_workers p" by (simp add: q held_def lent_workers_def)
    then show ?thesis using assms(1) d(2) j unfolding lease_ok_def by (simp add: q distinct_removeAll)
  qed
next
  case (SweepNext healthy)
  then obtain w ws where f: "pl_sweep p = w # ws" using assms(3) by (auto split: list.splits)
  have "distinct (pl_free p @ w # ws @ lent_workers p)" using assms(1) by (simp add: lease_ok_def held_def f)
  then have d: "w \<notin> set (pl_free p @ ws @ lent_workers p)" "distinct (pl_free p @ ws @ lent_workers p)" using distinct_mid [of "pl_free p" w "ws @ lent_workers p"] by blast+
  have o1: "lease_ok (p\<lparr>pl_sweep := ws\<rparr>)" by (rule lease_ok_mono [OF assms(1)]) (use d(2) in \<open>simp_all add: held_def\<close>)
  have "lease_ok (p\<lparr>pl_sweep := ws, pl_free := pl_free p @ [w]\<rparr>)" using lease_ok_requeue [OF o1, of w] d(1) by (simp add: held_def)
  then show ?thesis using assms(3) SweepNext f lease_ok_congs(6) [OF o1] by (auto simp: Let_def split: if_splits)
next
  case (Submit j parent)
  then have q: "pl_leased q = pl_leased p" "held q = held p" "pl_waiting q = pl_waiting p @ [j]" "\<not> known_job p j"
    using assms(3) by (auto simp: held_def split: if_splits option.splits)
  then show ?thesis using assms(1) unfolding lease_ok_def known_job_def by auto
next
  case SweepBegin
  then have q: "q = p\<lparr>pl_sweep := pl_free p, pl_free := []\<rparr>" "pl_sweep p = []" using assms(3) by (auto split: if_splits)
  then show ?thesis using assms(1) by (simp add: lease_ok_def held_def)
next
  case Close
  then have q: "q = p\<lparr>pl_closed := True, pl_sweep := [], pl_free := [], pl_all := [], pl_dead := pl_all p @ pl_dead p,
             pl_exited := pl_all p @ pl_exited p\<rparr>" using assms(3) by simp
  show ?thesis using assms(1) unfolding q lease_ok_def held_def lent_workers_def by simp
next
  case (Abandon j)
  then have "q = p\<lparr>pl_waiting := removeAll j (pl_waiting p)\<rparr>" using assms(3) by (simp split: if_splits)
  then show ?thesis using assms(1) by (simp add: lease_ok_def held_def distinct_removeAll)
next
  case StartBegin
  then have "q = p\<lparr>pl_started := True, pl_starting := Some (pl_size p)\<rparr>" using assms(3) by (simp split: if_splits)
  then show ?thesis using assms(1) by (simp add: lease_ok_def held_def)
next
  case StartEnd
  then show ?thesis using assms(1,3) lease_ok_congs(1) by (auto split: if_splits)
next
  case (Exits w)
  then have "q = p\<lparr>pl_exited := w # pl_exited p\<rparr>" using assms(3) by simp
  then show ?thesis using assms(1) by (simp add: lease_ok_def held_def)
next
  case RefillBegin
  then have "pl_leased q = pl_leased p \<and> pl_waiting q = pl_waiting p \<and> held q = held p" using assms(3) by (auto simp: held_def split: if_splits)
  then show ?thesis using assms(1) by (simp add: lease_ok_def)
next
  case CancelTasks
  then have "pl_leased q = pl_leased p \<and> pl_waiting q = pl_waiting p \<and> held q = held p" using assms(3) by (auto simp: held_def split: if_splits)
  then show ?thesis using assms(1) by (simp add: lease_ok_def)
qed

lemma worker_ok_mono:
  assumes "worker_ok p" and "pl_all q = pl_all p" and "pl_dead q = pl_dead p" and "set (pl_exited p) \<subseteq> set (pl_exited q)"
    and "pl_next q = pl_next p" and "pl_poisoned q = pl_poisoned p" and "pl_closed q = pl_closed p"
    and "set (held q) \<subseteq> set (held p)" and "set (lent_workers q) \<subseteq> set (lent_workers p)"
  shows "worker_ok q"
  using assms(1,4,8,9) unfolding worker_ok_def assms(2,3,5-7) by (meson subsetD)

lemma worker_ok_congs:
  "worker_ok p \<Longrightarrow> worker_ok (p\<lparr>pl_starting := a\<rparr>)" "worker_ok p \<Longrightarrow> worker_ok (p\<lparr>pl_lost := n\<rparr>)"
  "worker_ok p \<Longrightarrow> worker_ok (p\<lparr>pl_spawning := b\<rparr>)" "worker_ok p \<Longrightarrow> worker_ok (p\<lparr>pl_refills := n\<rparr>)"
  "worker_ok p \<Longrightarrow> worker_ok (p\<lparr>pl_started := b\<rparr>)" "worker_ok p \<Longrightarrow> worker_ok (p\<lparr>pl_jobs := f\<rparr>)"
  "worker_ok p \<Longrightarrow> worker_ok (p\<lparr>pl_waiting := ws\<rparr>)" "worker_ok p \<Longrightarrow> worker_ok (p\<lparr>pl_parent := ps\<rparr>)"
  "worker_ok p \<Longrightarrow> worker_ok (p\<lparr>pl_exited := w # pl_exited p\<rparr>)"
  by (rule worker_ok_mono, assumption, (simp add: held_def subset_insertI; fail)+)+

lemma worker_ok_release: "worker_ok p \<Longrightarrow> worker_ok (release j p)"
  by (erule worker_ok_mono) (auto simp: held_def lent_workers_def)

lemma worker_ok_discard:
  assumes "worker_ok p" and "w \<in> set (pl_all p) \<or> w \<in> set (pl_dead p)" and "w \<notin> set (held p)"
  shows "worker_ok (discard w p)"
proof (cases "w \<in> set (pl_dead p)")
  case False
  have d: "pl_all (discard w p) = removeAll w (pl_all p)" "pl_dead (discard w p) = w # pl_dead p" "pl_exited (discard w p) = w # pl_exited p"
    using False by (simp_all add: discard_def)
  show ?thesis using assms unfolding worker_ok_def d by (auto simp: distinct_removeAll)
qed (use assms in \<open>simp add: discard_def\<close>)

lemma worker_ok_requeue:
  assumes "worker_ok p" and "w \<in> set (pl_all p) \<or> w \<in> set (pl_dead p)" and "\<not> pl_closed p \<longrightarrow> w \<notin> set (pl_dead p)"
  shows "worker_ok (p\<lparr>pl_free := pl_free p @ [w]\<rparr>)"
proof -
  have "set (held (p\<lparr>pl_free := pl_free p @ [w]\<rparr>)) = insert w (set (held p))" by (auto simp: held_def)
  then show ?thesis using assms unfolding worker_ok_def by simp
qed

lemma worker_ok_poison:
  assumes "worker_ok p" and "w \<in> set (pl_dead p)" and "w \<notin> set (lent_workers p)"
  shows "worker_ok (p\<lparr>pl_poisoned := w # pl_poisoned p\<rparr>)"
  using assms by (simp add: worker_ok_def held_def)

lemma worker_ok_add:
  assumes "worker_ok p"
  shows "worker_ok (add_worker p)"
proof -
  have h: "set (held (add_worker p)) = insert (pl_next p) (set (held p))" by (auto simp: held_def add_worker_def lent_workers_def)
  have n: "pl_next p \<notin> set (pl_all p)" "pl_next p \<notin> set (pl_dead p)" using assms unfolding worker_ok_def by (metis less_irrefl)+
  have a: "pl_all (add_worker p) = pl_all p @ [pl_next p]" "pl_dead (add_worker p) = pl_dead p" "pl_exited (add_worker p) = pl_exited p"
    "pl_next (add_worker p) = Suc (pl_next p)" "pl_poisoned (add_worker p) = pl_poisoned p" "pl_closed (add_worker p) = pl_closed p"
    by (simp_all add: add_worker_def)
  show ?thesis using assms n unfolding worker_ok_def h a lent_workers_simps by (auto simp: less_SucI)
qed

lemma worker_ok_step:
  assumes "lease_ok p" and "worker_ok p" and "pool_step e p = Some q"
  shows "worker_ok q"
proof (cases e)
  case (StartSpawn ok)
  then show ?thesis using assms(2,3)
    by (auto simp: Let_def intro!: worker_ok_add worker_ok_congs split: option.splits nat.splits if_splits)
next
  case (RefillSpawn ok)
  then show ?thesis using assms(2,3) by (auto simp: Let_def intro!: worker_ok_add worker_ok_congs split: if_splits)
next
  case (Acquire j)
  then obtain w ws where f: "pl_free p = w # ws" and j: "j \<in> set (pl_waiting p)" using assms(3) by (auto split: list.splits if_splits)
  have o1: "worker_ok (p\<lparr>pl_free := ws\<rparr>)" by (rule worker_ok_mono [OF assms(2)]) (auto simp: held_def f)
  have "distinct (w # ws @ pl_sweep p @ lent_workers p)" using assms(1) by (simp add: lease_ok_def held_def f)
  then have n: "w \<notin> set (held (p\<lparr>pl_free := ws\<rparr>))" by (simp add: held_def)
  have w: "w \<in> set (held p)" by (simp add: held_def f)
  then have m: "w \<in> set (pl_all p) \<or> w \<in> set (pl_dead p)" using assms(2) unfolding worker_ok_def by blast
  show ?thesis
  proof (cases "w \<in> set (pl_exited p)")
    case True
    have "worker_ok (discard w (p\<lparr>pl_free := ws\<rparr>))" by (rule worker_ok_discard [OF o1]) (use m n in simp_all)
    then show ?thesis using assms(3) Acquire f j True by simp
  next
    case False
    have q: "q = p\<lparr>pl_free := ws, pl_waiting := removeAll j (pl_waiting p), pl_leased := (j, w) # pl_leased p\<rparr>"
      using assms(3) Acquire f j False by simp
    have h: "set (held q) = set (held p)" "set (lent_workers q) = insert w (set (lent_workers p))"
      unfolding q by (auto simp: held_def f lent_workers_def)
    have "w \<notin> set (pl_dead p)" using assms(2) False unfolding worker_ok_def by blast
    then show ?thesis using assms(2) unfolding worker_ok_def h by (auto simp: q)
  qed
next
  case (JobDone j)
  then obtain w where w: "map_of (pl_leased p) j = Some w" and q: "q = serve_done w (release j p)"
    using assms(3) by (auto split: option.splits if_splits)
  note h = held_release [OF assms(1) w]
  have m: "w \<in> set (pl_all p) \<or> w \<in> set (pl_dead p)" "\<not> pl_closed p \<longrightarrow> w \<notin> set (pl_dead p)"
    using assms(2) h(2) unfolding worker_ok_def by blast+
  have j: "worker_ok ((release j p)\<lparr>pl_jobs := f\<rparr>)" for f using worker_ok_congs(6) [OF worker_ok_release [OF assms(2)]] .
  have "w \<notin> set (held ((release j p)\<lparr>pl_jobs := f\<rparr>))" for f using h(5) by (simp add: held_def)
  then show ?thesis unfolding q serve_done_def Let_def
    using worker_ok_discard [OF j] worker_ok_requeue [OF j] m by simp
next
  case (JobFails j)
  then obtain w where w: "map_of (pl_leased p) j = Some w" and q: "q = (discard w (release j p))\<lparr>pl_poisoned := w # pl_poisoned p\<rparr>"
    using assms(3) by (auto split: option.splits if_splits)
  note h = held_release [OF assms(1) w]
  have m: "w \<in> set (pl_all p) \<or> w \<in> set (pl_dead p)" using assms(2) h(2) unfolding worker_ok_def by blast
  have "worker_ok (discard w (release j p))" by (rule worker_ok_discard [OF worker_ok_release [OF assms(2)]]) (use m h(5) in auto)
  from worker_ok_poison [OF this, of w] h(6) show ?thesis unfolding q by simp
next
  case (SweepNext healthy)
  then obtain w ws where f: "pl_sweep p = w # ws" using assms(3) by (auto split: list.splits)
  have o1: "worker_ok (p\<lparr>pl_sweep := ws\<rparr>)" by (rule worker_ok_mono [OF assms(2)]) (auto simp: held_def f)
  have "distinct (pl_free p @ w # ws @ lent_workers p)" using assms(1) by (simp add: lease_ok_def held_def f)
  then have n: "w \<notin> set (held (p\<lparr>pl_sweep := ws\<rparr>))"
    using distinct_mid [of "pl_free p" w "ws @ lent_workers p"] by (simp add: held_def)
  have w: "w \<in> set (held p)" by (simp add: held_def f)
  have m: "w \<in> set (pl_all p) \<or> w \<in> set (pl_dead p)" "\<not> pl_closed p \<longrightarrow> w \<notin> set (pl_dead p)"
    using assms(2) w unfolding worker_ok_def by blast+
  have "worker_ok (discard w (p\<lparr>pl_sweep := ws\<rparr>))" by (rule worker_ok_discard [OF o1]) (use m n in simp_all)
  moreover have "worker_ok (p\<lparr>pl_sweep := ws, pl_free := pl_free p @ [w]\<rparr>)" using worker_ok_requeue [OF o1, of w] m by simp
  ultimately show ?thesis using assms(3) SweepNext f by (auto simp: Let_def split: if_splits)
next
  case SweepBegin
  then have q: "q = p\<lparr>pl_sweep := pl_free p, pl_free := []\<rparr>" using assms(3) by (simp split: if_splits)
  show ?thesis unfolding q by (rule worker_ok_mono [OF assms(2)]) (auto simp: held_def)
next
  case Close
  then have q: "q = p\<lparr>pl_closed := True, pl_sweep := [], pl_free := [], pl_all := [], pl_dead := pl_all p @ pl_dead p,
             pl_exited := pl_all p @ pl_exited p\<rparr>" using assms(3) by simp
  have l: "lent_workers q = lent_workers p" "held q = lent_workers p" unfolding q by (simp_all add: lent_workers_def held_def)
  show ?thesis using assms(2) unfolding worker_ok_def l by (auto simp: q held_def)
next
  case (Submit j parent)
  then show ?thesis using assms(2,3) worker_ok_congs(7,8) by (auto split: if_splits option.splits)
next
  case RefillBegin
  then show ?thesis using assms(2,3) worker_ok_congs(3,4) by (auto split: if_splits)
next
  case CancelTasks
  then show ?thesis using assms(2,3) worker_ok_congs(3,4) by (auto split: if_splits)
qed (use assms(2,3) in \<open>auto intro!: worker_ok_congs split: if_splits\<close>)

lemma capacity_discard:
  assumes "capacity_ok p" and "pl_started p" and "distinct (pl_all p)" and "w \<in> set (pl_all p) \<or> w \<in> set (pl_dead p)"
  shows "capacity_ok (discard w p)"
proof (cases "w \<in> set (pl_dead p)")
  case False
  then have "w \<in> set (pl_all p)" using assms(4) by blast
  moreover have "removeAll w (pl_all p) = remove1 w (pl_all p)" using assms(3) by (simp add: distinct_remove1_removeAll)
  moreover have "0 < length (pl_all p)" using calculation(1) by (rule length_pos_if_in_set)
  ultimately have "length (pl_all p) = Suc (length (removeAll w (pl_all p)))" by (simp add: length_remove1)
  then show ?thesis using assms(1,2) False by (auto simp: capacity_ok_def discard_def pending_def)
qed (use assms(1) in \<open>simp add: discard_def\<close>)

definition running :: "pool \<Rightarrow> bool" where
  "running p = (held p \<noteq> [] \<longrightarrow> pl_started p)"

lemma capacity_step:
  assumes "lease_ok p" and "worker_ok p" and "capacity_ok p" and "running p" and "pool_step e p = Some q"
  shows "capacity_ok q \<and> running q"
proof -
  have d: "distinct (pl_all p)" using assms(2) unfolding worker_ok_def by blast
  have known: "w \<in> set (pl_all p) \<or> w \<in> set (pl_dead p)" "pl_started p" if "w \<in> set (held p)" for w
    using assms(2,4) that unfolding worker_ok_def running_def by (auto simp: in_set_conv_decomp)
  have congs: "capacity_ok (p'\<lparr>pl_free := xs\<rparr>) = capacity_ok p'" "capacity_ok (p'\<lparr>pl_sweep := xs\<rparr>) = capacity_ok p'"
    "capacity_ok (p'\<lparr>pl_jobs := f\<rparr>) = capacity_ok p'" "capacity_ok (p'\<lparr>pl_poisoned := xs\<rparr>) = capacity_ok p'"
    "capacity_ok (release j p') = capacity_ok p'" "capacity_ok (p'\<lparr>pl_waiting := xs\<rparr>) = capacity_ok p'"
    "capacity_ok (p'\<lparr>pl_parent := ps\<rparr>) = capacity_ok p'" "capacity_ok (p'\<lparr>pl_exited := xs\<rparr>) = capacity_ok p'" for p' xs f j ps
    by (simp_all add: capacity_ok_def pending_def release_def)
  show ?thesis
  proof (cases e)
    case (StartSpawn ok)
    then show ?thesis using assms(3,5)
      by (cases ok) (auto simp: Let_def capacity_ok_def pending_def add_worker_def running_def split: option.splits nat.splits)
  next
    case (Acquire j)
    then obtain w ws where f: "pl_free p = w # ws" using assms(5) by (auto split: list.splits)
    have w: "w \<in> set (held p)" by (simp add: held_def f)
    have "capacity_ok (discard w (p\<lparr>pl_free := ws\<rparr>))" by (rule capacity_discard) (use assms(3) d known [OF w] in \<open>simp_all add: congs\<close>)
    moreover have "capacity_ok (p\<lparr>pl_free := ws, pl_waiting := removeAll j (pl_waiting p), pl_leased := (j, w) # pl_leased p\<rparr>)"
      using assms(3) by (simp add: capacity_ok_def pending_def)
    ultimately show ?thesis using assms(5) Acquire f known(2) [OF w] by (auto simp: running_def split: if_splits)
  next
    case (JobDone j)
    then obtain w where w: "map_of (pl_leased p) j = Some w" and q: "q = serve_done w (release j p)"
      using assms(5) by (auto split: option.splits if_splits)
    note k = known [OF held_release(2) [OF assms(1) w]]
    have "capacity_ok (discard w ((release j p)\<lparr>pl_jobs := f\<rparr>))" for f
      by (rule capacity_discard) (use assms(3) d k in \<open>simp_all add: congs\<close>)
    then show ?thesis unfolding q serve_done_def Let_def using assms(3) k(2) by (simp add: congs running_def)
  next
    case (JobFails j)
    then obtain w where w: "map_of (pl_leased p) j = Some w" and q: "q = (discard w (release j p))\<lparr>pl_poisoned := w # pl_poisoned p\<rparr>"
      using assms(5) by (auto split: option.splits if_splits)
    note k = known [OF held_release(2) [OF assms(1) w]]
    have "capacity_ok (discard w (release j p))" by (rule capacity_discard) (use assms(3) d k in \<open>simp_all add: congs\<close>)
    then show ?thesis unfolding q using k(2) by (simp add: congs running_def)
  next
    case (SweepNext healthy)
    then obtain w ws where f: "pl_sweep p = w # ws" using assms(5) by (auto split: list.splits)
    have w: "w \<in> set (held p)" by (simp add: held_def f)
    have "capacity_ok (discard w (p\<lparr>pl_sweep := ws\<rparr>))" by (rule capacity_discard) (use assms(3) d known [OF w] in \<open>simp_all add: congs\<close>)
    then show ?thesis using assms(3,5) SweepNext f known(2) [OF w] by (auto simp: Let_def congs running_def split: if_splits)
  next
    case (Submit j parent)
    then have "pl_started p" "capacity_ok q" "pl_started q = pl_started p" using assms(3,5) by (auto simp: congs split: if_splits option.splits)
    then show ?thesis by (simp add: running_def)
  next
    case (RefillSpawn ok)
    then have "pl_started p" using assms(3,5) by (auto simp: capacity_ok_def pending_def split: if_splits)
    then show ?thesis using assms(3,5) RefillSpawn
      by (auto simp: Let_def capacity_ok_def pending_def add_worker_def running_def split: if_splits)
  next
    case StartBegin
    then show ?thesis using assms(3,5) by (auto simp: capacity_ok_def pending_def running_def split: if_splits)
  next
    case StartEnd
    then show ?thesis using assms(3-5) by (auto simp: capacity_ok_def pending_def running_def held_def split: if_splits)
  next
    case RefillBegin
    then show ?thesis using assms(3-5) by (auto simp: capacity_ok_def pending_def running_def held_def lock_free_def split: if_splits)
  next
    case SweepBegin
    then have "q = p\<lparr>pl_sweep := pl_free p, pl_free := []\<rparr>" "pl_sweep p = []" using assms(5) by (auto split: if_splits)
    then show ?thesis using assms(3,4) by (auto simp: congs running_def held_def)
  next
    case Close
    then have q: "q = p\<lparr>pl_closed := True, pl_sweep := [], pl_free := [], pl_all := [], pl_dead := pl_all p @ pl_dead p,
               pl_exited := pl_all p @ pl_exited p\<rparr>" using assms(5) by simp
    have "held q = lent_workers p" by (simp add: q held_def lent_workers_def)
    then show ?thesis using assms(3,4) unfolding running_def by (auto simp: q capacity_ok_def pending_def held_def)
  next
    case CancelTasks
    then show ?thesis using assms(3-5) by (auto simp: capacity_ok_def pending_def running_def held_def split: if_splits)
  next
    case (Abandon j)
    then have q: "q = p\<lparr>pl_waiting := removeAll j (pl_waiting p)\<rparr>" using assms(5) by (simp split: if_splits)
    then have "held q = held p" by (simp add: held_def)
    then show ?thesis using assms(3,4) by (simp add: q congs running_def)
  next
    case (Exits w)
    then have q: "q = p\<lparr>pl_exited := w # pl_exited p\<rparr>" using assms(5) by simp
    then have "held q = held p" by (simp add: held_def)
    then show ?thesis using assms(3,4) by (simp add: q congs running_def)
  qed
qed

definition pool_ok :: "pool \<Rightarrow> bool" where
  "pool_ok p = (lease_ok p \<and> worker_ok p \<and> capacity_ok p \<and> running p)"

lemma pool_ok_step: "pool_ok p \<Longrightarrow> pool_step e p = Some q \<Longrightarrow> pool_ok q"
  using lease_ok_step worker_ok_step capacity_step unfolding pool_ok_def by blast

lemma pool_ok_run: "pool_ok p \<Longrightarrow> pool_run es p = Some q \<Longrightarrow> pool_ok q"
  by (induction es arbitrary: p) (auto split: option.splits dest: pool_ok_step)

lemma pool_ok_new: "pool_ok (new_pool s)"
  by (simp add: pool_ok_def new_pool_def lease_ok_def worker_ok_def capacity_ok_def running_def held_def lent_workers_def pending_def)

lemma new_pool_run_ok: "pool_run es (new_pool s) = Some p \<Longrightarrow> pool_ok p"
  using pool_ok_run [OF pool_ok_new] .

section \<open>What the pool promises: a lending desk\<close>

text \<open>The promise, without queues, locks, sweeps and processes: workers are idle, lent to one job each, or taken out of use for
  good.\<close>
record desk =
  dk_idle :: "nat set"
  dk_lent :: "(nat \<times> nat) set"
  dk_gone :: "nat set"

inductive lends :: "desk \<Rightarrow> desk \<Rightarrow> bool" where
  rest: "lends d d"
| stock: "w \<notin> dk_idle d \<Longrightarrow> w \<notin> snd ` dk_lent d \<Longrightarrow> w \<notin> dk_gone d \<Longrightarrow> lends d (d\<lparr>dk_idle := insert w (dk_idle d)\<rparr>)"
| lend: "w \<in> dk_idle d \<Longrightarrow> j \<notin> fst ` dk_lent d \<Longrightarrow>
    lends d (d\<lparr>dk_idle := dk_idle d - {w}, dk_lent := insert (j, w) (dk_lent d)\<rparr>)"
| give_back: "(j, w) \<in> dk_lent d \<Longrightarrow>
    lends d (d\<lparr>dk_idle := insert w (dk_idle d), dk_lent := dk_lent d - {(j, w)}\<rparr>)"
| retire: "w \<in> dk_idle d \<Longrightarrow> lends d (d\<lparr>dk_idle := dk_idle d - {w}, dk_gone := insert w (dk_gone d)\<rparr>)"
| lose: "(j, w) \<in> dk_lent d \<Longrightarrow> lends d (d\<lparr>dk_lent := dk_lent d - {(j, w)}, dk_gone := insert w (dk_gone d)\<rparr>)"
| close: "dk_idle d \<subseteq> ws \<Longrightarrow> ws \<inter> snd ` dk_lent d = {} \<Longrightarrow> lends d (d\<lparr>dk_idle := {}, dk_gone := dk_gone d \<union> ws\<rparr>)"

inductive_cases lendsE: "lends d d'"

definition empty_desk :: desk where
  "empty_desk = \<lparr>dk_idle = {}, dk_lent = {}, dk_gone = {}\<rparr>"

definition desk_ok :: "desk \<Rightarrow> bool" where
  "desk_ok d =
     (inj_on fst (dk_lent d) \<and> inj_on snd (dk_lent d) \<and> dk_idle d \<inter> snd ` dk_lent d = {} \<and> dk_idle d \<inter> dk_gone d = {}
      \<and> dk_gone d \<inter> snd ` dk_lent d = {})"

lemma unlend:
  assumes "inj_on snd L" and "(j, w) \<in> L"
  shows "snd ` (L - {(j, w)}) = snd ` L - {w}" and "w \<in> snd ` L"
  using inj_on_image_set_diff [OF assms(1), of L "{(j, w)}"] assms(2) by force+

text \<open>On the desk, what is gone stays gone and is never lent again.\<close>
lemma lends_ok:
  assumes "lends d d'" and "desk_ok d"
  shows "desk_ok d' \<and> dk_gone d \<subseteq> dk_gone d'"
proof -
  have ok: "inj_on fst (dk_lent d)" "inj_on snd (dk_lent d)" "dk_idle d \<inter> snd ` dk_lent d = {}" "dk_idle d \<inter> dk_gone d = {}"
    "dk_gone d \<inter> snd ` dk_lent d = {}" using assms(2) by (simp_all add: desk_ok_def)
  from assms(1) show ?thesis
  proof (cases rule: lends.cases)
    case (lend w j)
    have "w \<notin> snd ` dk_lent d" "w \<notin> dk_gone d" using lend(2) ok(3,4) by blast+
    then show ?thesis using ok lend unfolding desk_ok_def
      by (simp add: inj_on_insert image_insert [of snd]) blast
  next
    case (give_back j w)
    note u = unlend [OF ok(2) give_back(2)]
    show ?thesis using ok u(2) unfolding desk_ok_def give_back(1)
      by (simp add: inj_on_diff u(1)) blast
  next
    case (lose j w)
    note u = unlend [OF ok(2) lose(2)]
    show ?thesis using ok u(2) unfolding desk_ok_def lose(1)
      by (simp add: inj_on_diff u(1)) blast
  next
    case (close ws)
    show ?thesis using ok close(3) unfolding desk_ok_def close(1) by simp blast
  next
    case (retire w)
    show ?thesis using ok retire(2) unfolding desk_ok_def retire(1) by simp blast
  next
    case (stock w)
    show ?thesis using ok stock(2-4) unfolding desk_ok_def stock(1) by simp
  qed (use assms(2) in simp)
qed

lemma lends_star_ok: "lends\<^sup>*\<^sup>* d d' \<Longrightarrow> desk_ok d \<Longrightarrow> desk_ok d' \<and> dk_gone d \<subseteq> dk_gone d'"
  by (induction rule: rtranclp_induct) (use lends_ok in blast)+

text \<open>How the pool implements it.\<close>
definition desk_of :: "pool \<Rightarrow> desk" where
  "desk_of p =
     \<lparr>dk_idle = {w. (w \<in> set (pl_free p) \<or> w \<in> set (pl_sweep p)) \<and> w \<notin> set (pl_dead p)}, dk_lent = set (pl_leased p),
      dk_gone = set (pl_dead p) - set (lent_workers p)\<rparr>"

lemma desk_same:
  "pl_free q = pl_free p \<Longrightarrow> pl_sweep q = pl_sweep p \<Longrightarrow> pl_dead q = pl_dead p \<Longrightarrow> pl_leased q = pl_leased p \<Longrightarrow> desk_of q = desk_of p"
  by (simp add: desk_of_def lent_workers_def)

lemma desk_add:
  assumes "worker_ok p"
  shows "lends (desk_of p) (desk_of (add_worker p))"
proof -
  have n: "pl_next p \<notin> set (held p)" using fresh_not_held [OF assms] .
  have nd: "pl_next p \<notin> set (pl_dead p)" using assms unfolding worker_ok_def by (metis less_irrefl)
  have "desk_of (add_worker p) = (desk_of p)\<lparr>dk_idle := insert (pl_next p) (dk_idle (desk_of p))\<rparr>"
    using nd by (auto simp: desk_of_def add_worker_def lent_workers_def)
  moreover have "lends (desk_of p) ((desk_of p)\<lparr>dk_idle := insert (pl_next p) (dk_idle (desk_of p))\<rparr>)"
    by (rule lends.stock) (use n nd in \<open>auto simp: desk_of_def held_def lent_workers_def\<close>)
  ultimately show ?thesis by simp
qed

text \<open>Taking an idle worker out of the queue \<open>p\<close> had it in, and discarding it.\<close>
lemma desk_discard_idle:
  assumes "pl_leased q = pl_leased p" "pl_dead q = pl_dead p" "w \<notin> set (lent_workers p)"
    and "set (pl_free p) \<union> set (pl_sweep p) = insert w (set (pl_free q) \<union> set (pl_sweep q))" "w \<notin> set (pl_free q)" "w \<notin> set (pl_sweep q)"
  shows "lends (desk_of p) (desk_of (discard w q))"
proof (cases "w \<in> set (pl_dead p)")
  case True
  then have "desk_of (discard w q) = desk_of p" using assms by (auto simp: desk_of_def discard_def lent_workers_def)
  then show ?thesis using lends.rest by simp
next
  case False
  have "dk_idle (desk_of (discard w q)) = dk_idle (desk_of p) - {w}" "dk_gone (desk_of (discard w q)) = insert w (dk_gone (desk_of p))"
    "dk_lent (desk_of (discard w q)) = dk_lent (desk_of p)"
    using assms False by (auto simp: desk_of_def discard_def lent_workers_def)
  then have "desk_of (discard w q) = (desk_of p)\<lparr>dk_idle := dk_idle (desk_of p) - {w}, dk_gone := insert w (dk_gone (desk_of p))\<rparr>" by simp
  moreover have "w \<in> dk_idle (desk_of p)" using assms(4) False by (auto simp: desk_of_def)
  ultimately show ?thesis using lends.retire [of w "desk_of p"] by simp
qed

lemma leased_release:
  assumes "lease_ok p" and "map_of (pl_leased p) j = Some w"
  shows "set (pl_leased (release j p)) = set (pl_leased p) - {(j, w)}" and "(j, w) \<in> set (pl_leased p)"
proof -
  show m: "(j, w) \<in> set (pl_leased p)" using assms(2) by (rule map_of_SomeD)
  have d: "distinct (map fst (pl_leased p))" using assms(1) by (simp add: lease_ok_def)
  have u: "x = (j, w)" if x: "x \<in> set (pl_leased p)" "fst x = j" for x
  proof -
    have "map_of (pl_leased p) j = Some (snd x)" using x map_of_is_SomeI [OF d, of j "snd x"] by (metis prod.collapse)
    then show ?thesis using assms(2) x(2) by (metis option.inject prod.collapse)
  qed
  have "{x \<in> set (pl_leased p). fst x \<noteq> j} = set (pl_leased p) - {(j, w)}"
  proof (rule set_eqI)
    fix x show "x \<in> {x \<in> set (pl_leased p). fst x \<noteq> j} \<longleftrightarrow> x \<in> set (pl_leased p) - {(j, w)}" using u [of x] by auto
  qed
  then show "set (pl_leased (release j p)) = set (pl_leased p) - {(j, w)}" by simp
qed

lemma desk_lose:
  assumes "lease_ok p" and "map_of (pl_leased p) j = Some w" and "pl_leased q = pl_leased (release j p)"
    and "set (pl_dead q) = insert w (set (pl_dead p))" and "set (pl_free q) - {w} = set (pl_free p)" and "pl_sweep q = pl_sweep p"
  shows "lends (desk_of p) (desk_of q)"
proof -
  note h = held_release [OF assms(1,2)] and l = leased_release [OF assms(1,2)]
  have lw: "set (lent_workers q) = set (lent_workers p) - {w}" using h(6) assms(3) by (simp add: lent_workers_def)
  have "dk_idle (desk_of q) = dk_idle (desk_of p)" using h(3,4) assms(4-6) by (auto simp: desk_of_def)
  moreover have "dk_gone (desk_of q) = insert w (dk_gone (desk_of p))" using lw assms(4) by (auto simp: desk_of_def)
  moreover have "dk_lent (desk_of q) = dk_lent (desk_of p) - {(j, w)}" using l(1) assms(3) by (simp add: desk_of_def)
  ultimately have "desk_of q = (desk_of p)\<lparr>dk_lent := dk_lent (desk_of p) - {(j, w)}, dk_gone := insert w (dk_gone (desk_of p))\<rparr>" by simp
  moreover have "(j, w) \<in> dk_lent (desk_of p)" using l(2) by (simp add: desk_of_def)
  ultimately show ?thesis using lends.lose [of j w "desk_of p"] by simp
qed

lemma desk_give_back:
  assumes "lease_ok p" and "map_of (pl_leased p) j = Some w" and "w \<notin> set (pl_dead p)" and "pl_leased q = pl_leased (release j p)"
    and "pl_dead q = pl_dead p" and "set (pl_free q) = insert w (set (pl_free p))" and "pl_sweep q = pl_sweep p"
  shows "lends (desk_of p) (desk_of q)"
proof -
  note h = held_release [OF assms(1,2)] and l = leased_release [OF assms(1,2)]
  have lw: "set (lent_workers q) = set (lent_workers p) - {w}" using h(6) assms(4) by (simp add: lent_workers_def)
  have "dk_idle (desk_of q) = insert w (dk_idle (desk_of p))" using assms(3,5-7) by (auto simp: desk_of_def)
  moreover have "dk_gone (desk_of q) = dk_gone (desk_of p)" using lw assms(3,5) by (auto simp: desk_of_def)
  moreover have "dk_lent (desk_of q) = dk_lent (desk_of p) - {(j, w)}" using l(1) assms(4) by (simp add: desk_of_def)
  ultimately have "desk_of q = (desk_of p)\<lparr>dk_idle := insert w (dk_idle (desk_of p)), dk_lent := dk_lent (desk_of p) - {(j, w)}\<rparr>" by simp
  moreover have "(j, w) \<in> dk_lent (desk_of p)" using l(2) by (simp add: desk_of_def)
  ultimately show ?thesis using lends.give_back [of j w "desk_of p"] by simp
qed

lemma pool_step_lends:
  assumes "lease_ok p" and "worker_ok p" and "pool_step e p = Some q"
  shows "lends (desk_of p) (desk_of q)"
proof (cases e)
  case (StartSpawn ok)
  then obtain n where q: "q = (if ok then add_worker (p\<lparr>pl_starting := Some n\<rparr>) else p\<lparr>pl_starting := Some n, pl_lost := Suc (pl_lost p)\<rparr>)"
    using assms(3) by (cases ok) (auto simp: Let_def split: option.splits nat.splits)
  have "desk_of (p\<lparr>pl_starting := Some n\<rparr>) = desk_of p" by (rule desk_same) simp_all
  moreover have "desk_of (p\<lparr>pl_starting := Some n, pl_lost := Suc (pl_lost p)\<rparr>) = desk_of p" by (rule desk_same) simp_all
  ultimately show ?thesis unfolding q using desk_add [OF worker_ok_congs(1) [OF assms(2), of "Some n"]] lends.rest [of "desk_of p"] by simp
next
  case (RefillSpawn ok)
  have "desk_of (p\<lparr>pl_spawning := False\<rparr>) = desk_of p" by (rule desk_same) simp_all
  moreover have "desk_of (p\<lparr>pl_spawning := False, pl_lost := Suc (pl_lost p)\<rparr>) = desk_of p" by (rule desk_same) simp_all
  ultimately show ?thesis using assms(3) RefillSpawn desk_add [OF worker_ok_congs(3) [OF assms(2), of False]] lends.rest [of "desk_of p"]
    by (auto simp: Let_def split: if_splits)
next
  case (Acquire j)
  then obtain w ws where f: "pl_free p = w # ws" and j: "j \<in> set (pl_waiting p)" using assms(3) by (auto split: list.splits if_splits)
  have "distinct (w # ws @ pl_sweep p @ lent_workers p)" using assms(1) by (simp add: lease_ok_def held_def f)
  then have n: "w \<notin> set ws" "w \<notin> set (pl_sweep p)" "w \<notin> set (lent_workers p)" by simp_all
  show ?thesis
  proof (cases "w \<in> set (pl_exited p)")
    case True
    then have q: "q = discard w (p\<lparr>pl_free := ws\<rparr>)" using assms(3) Acquire f j by simp
    show ?thesis unfolding q by (rule desk_discard_idle) (use n in \<open>auto simp: f\<close>)
  next
    case False
    then have q: "q = p\<lparr>pl_free := ws, pl_waiting := removeAll j (pl_waiting p), pl_leased := (j, w) # pl_leased p\<rparr>"
      using assms(3) Acquire f j by simp
    have nd: "w \<notin> set (pl_dead p)" using assms(2) False unfolding worker_ok_def by blast
    have "dk_idle (desk_of q) = dk_idle (desk_of p) - {w}" "dk_gone (desk_of q) = dk_gone (desk_of p)"
      "dk_lent (desk_of q) = insert (j, w) (dk_lent (desk_of p))"
      using n nd by (auto simp: desk_of_def q f lent_workers_def)
    then have "desk_of q = (desk_of p)\<lparr>dk_idle := dk_idle (desk_of p) - {w}, dk_lent := insert (j, w) (dk_lent (desk_of p))\<rparr>" by simp
    moreover have "w \<in> dk_idle (desk_of p)" using nd by (simp add: desk_of_def f)
    moreover have "j \<notin> fst ` dk_lent (desk_of p)" using assms(1) j by (simp add: desk_of_def lease_ok_def)
    ultimately show ?thesis using lends.lend [of w "desk_of p" j] by simp
  qed
next
  case (JobDone j)
  then obtain w where w: "map_of (pl_leased p) j = Some w" and q: "q = serve_done w (release j p)"
    using assms(3) by (auto split: option.splits if_splits)
  note h = held_release [OF assms(1) w]
  let ?n = "Suc (pl_jobs (release j p) w)" and ?p1 = "(release j p)\<lparr>pl_jobs := (pl_jobs (release j p))(w := Suc (pl_jobs (release j p) w))\<rparr>"
  show ?thesis
  proof (cases "pl_max_jobs (release j p) > 0 \<and> ?n \<ge> pl_max_jobs (release j p)")
    case True
    then have q: "q = discard w ?p1" by (simp add: q serve_done_def)
    show ?thesis unfolding q by (rule desk_lose [OF assms(1) w]) (use h(3) in auto)
  next
    case False
    then have q: "q = ?p1\<lparr>pl_free := pl_free p @ [w]\<rparr>" by (auto simp: q serve_done_def Let_def)
    show ?thesis
    proof (cases "w \<in> set (pl_dead p)")
      case True
      show ?thesis unfolding q by (rule desk_lose [OF assms(1) w]) (use h(3) True in auto)
    next
      case False
      show ?thesis unfolding q by (rule desk_give_back [OF assms(1) w False]) auto
    qed
  qed
next
  case (JobFails j)
  then obtain w where w: "map_of (pl_leased p) j = Some w" and q: "q = (discard w (release j p))\<lparr>pl_poisoned := w # pl_poisoned p\<rparr>"
    using assms(3) by (auto split: option.splits if_splits)
  show ?thesis unfolding q by (rule desk_lose [OF assms(1) w]) (use held_release(3) [OF assms(1) w] in auto)
next
  case (SweepNext healthy)
  then obtain w ws where f: "pl_sweep p = w # ws" using assms(3) by (auto split: list.splits)
  have "distinct (pl_free p @ w # ws @ lent_workers p)" using assms(1) by (simp add: lease_ok_def held_def f)
  then have n: "w \<notin> set (pl_free p)" "w \<notin> set ws" "w \<notin> set (lent_workers p)" by auto
  have "lends (desk_of p) (desk_of (discard w (p\<lparr>pl_sweep := ws\<rparr>)))" by (rule desk_discard_idle) (use n in \<open>auto simp: f\<close>)
  moreover have "desk_of (p\<lparr>pl_sweep := ws, pl_free := pl_free p @ [w]\<rparr>) = desk_of p" by (auto simp: desk_of_def f lent_workers_def)
  ultimately show ?thesis using assms(3) SweepNext f lends.rest [of "desk_of p"] by (auto simp: Let_def split: if_splits)
next
  case SweepBegin
  then have q: "q = p\<lparr>pl_sweep := pl_free p, pl_free := []\<rparr>" "pl_sweep p = []" using assms(3) by (auto split: if_splits)
  have "desk_of q = desk_of p" using q(2) by (auto simp: desk_of_def q(1) lent_workers_def)
  then show ?thesis using lends.rest by simp
next
  case Close
  then have q: "q = p\<lparr>pl_closed := True, pl_sweep := [], pl_free := [], pl_all := [], pl_dead := pl_all p @ pl_dead p,
             pl_exited := pl_all p @ pl_exited p\<rparr>" using assms(3) by simp
  have known: "w \<in> set (pl_all p) \<or> w \<in> set (pl_dead p)" if "w \<in> set (pl_free p) \<or> w \<in> set (pl_sweep p)" for w
    using assms(2) that unfolding worker_ok_def held_def by auto
  let ?ws = "set (pl_all p) - set (lent_workers p)"
  have "distinct (held p)" using assms(1) by (simp add: lease_ok_def)
  then have "dk_idle (desk_of p) \<subseteq> ?ws" using known by (auto simp: desk_of_def held_def)
  moreover have "?ws \<inter> snd ` dk_lent (desk_of p) = {}" by (auto simp: desk_of_def lent_workers_def)
  ultimately have "lends (desk_of p) ((desk_of p)\<lparr>dk_idle := {}, dk_gone := dk_gone (desk_of p) \<union> ?ws\<rparr>)" by (rule lends.close)
  moreover have "desk_of q = (desk_of p)\<lparr>dk_idle := {}, dk_gone := dk_gone (desk_of p) \<union> ?ws\<rparr>"
    by (auto simp: desk_of_def q lent_workers_def)
  ultimately show ?thesis by simp
next
  case (Submit j parent)
  then have "desk_of q = desk_of p" using assms(3) by (intro desk_same) (auto split: if_splits option.splits)
  then show ?thesis using lends.rest by simp
next
  case (Abandon j)
  then have "desk_of q = desk_of p" using assms(3) by (intro desk_same) (auto split: if_splits)
  then show ?thesis using lends.rest by simp
next
  case StartBegin
  then have "desk_of q = desk_of p" using assms(3) by (intro desk_same) (auto split: if_splits)
  then show ?thesis using lends.rest by simp
next
  case StartEnd
  then have "desk_of q = desk_of p" using assms(3) by (intro desk_same) (auto split: if_splits)
  then show ?thesis using lends.rest by simp
next
  case RefillBegin
  then have "desk_of q = desk_of p" using assms(3) by (intro desk_same) (auto split: if_splits)
  then show ?thesis using lends.rest by simp
next
  case CancelTasks
  then have "desk_of q = desk_of p" using assms(3) by (intro desk_same) (auto split: if_splits)
  then show ?thesis using lends.rest by simp
next
  case (Exits w)
  then have "desk_of q = desk_of p" using assms(3) by (intro desk_same) auto
  then show ?thesis using lends.rest by simp
qed

lemma pool_run_lends: "pool_ok p \<Longrightarrow> pool_run es p = Some q \<Longrightarrow> lends\<^sup>*\<^sup>* (desk_of p) (desk_of q)"
proof (induction es arbitrary: p)
  case (Cons e es)
  then obtain r where r: "pool_step e p = Some r" "pool_run es r = Some q" by (auto split: option.splits)
  have "lends (desk_of p) (desk_of r)" using pool_step_lends r(1) Cons.prems(1) unfolding pool_ok_def by blast
  moreover have "lends\<^sup>*\<^sup>* (desk_of r) (desk_of q)" using Cons.IH [OF pool_ok_step [OF Cons.prems(1) r(1)] r(2)] .
  ultimately show ?case by (rule converse_rtranclp_into_rtranclp)
qed simp

lemma desk_of_ok: "pool_ok p \<Longrightarrow> desk_ok (desk_of p)"
proof -
  assume p: "pool_ok p"
  then have d: "distinct (pl_free p @ pl_sweep p @ lent_workers p)" "distinct (map fst (pl_leased p))"
    unfolding pool_ok_def lease_ok_def held_def by blast+
  have l: "snd ` set (pl_leased p) = set (lent_workers p)" by (simp add: lent_workers_def)
  have "inj_on fst (set (pl_leased p))" "inj_on snd (set (pl_leased p))"
    using d by (simp_all add: distinct_map lent_workers_def)
  then show "desk_ok (desk_of p)" using d(1) unfolding desk_ok_def desk_of_def by (simp add: l) blast
qed

lemma step_keeps:
  assumes "pool_step e p = Some q"
  shows "pl_size q = pl_size p" and "pl_lost p \<le> pl_lost q" and "pl_started p \<Longrightarrow> pl_started q"
  using assms
  by (cases e; auto simp: Let_def serve_done_def add_worker_def split: if_splits option.splits nat.splits list.splits)+

lemma run_keeps:
  assumes "pool_run es p = Some q"
  shows "pl_size q = pl_size p" and "pl_lost p \<le> pl_lost q" and "pl_started p \<Longrightarrow> pl_started q"
proof -
  have "pl_size q = pl_size p \<and> pl_lost p \<le> pl_lost q \<and> (pl_started p \<longrightarrow> pl_started q)"
    using assms
  proof (induction es arbitrary: p)
    case (Cons e es)
    then obtain r where r: "pool_step e p = Some r" "pool_run es r = Some q" by (auto split: option.splits)
    show ?case using step_keeps [OF r(1)] Cons.IH [OF r(2)] by auto
  qed simp
  then show "pl_size q = pl_size p" "pl_lost p \<le> pl_lost q" "pl_started p \<Longrightarrow> pl_started q" by blast+
qed


text \<open>A worker on which a job failed never serves again: it is not lent now and in no continuation; besides, no worker
  serves two jobs, no job has two workers, and there are never more workers than the size of the pool.\<close>
theorem failed_worker_never_serves:
  assumes "pool_run es (new_pool s) = Some p" and "pool_run es' p = Some q" and "w \<in> set (pl_poisoned p)"
  shows "(j, w) \<notin> set (pl_leased q) \<and> distinct (map fst (pl_leased q)) \<and> distinct (map snd (pl_leased q))
     \<and> length (pl_all q) \<le> nat (cfg_sandbox_pool_size s)"
proof -
  have p: "pool_ok p" using new_pool_run_ok [OF assms(1)] .
  have q: "pool_ok q" using pool_ok_run [OF p assms(2)] .
  have "w \<in> dk_gone (desk_of p)" using p assms(3) unfolding pool_ok_def worker_ok_def desk_of_def by auto
  then have g: "w \<in> dk_gone (desk_of q)" using lends_star_ok [OF pool_run_lends [OF p assms(2)] desk_of_ok [OF p]] by blast
  have "dk_gone (desk_of q) \<inter> snd ` dk_lent (desk_of q) = {}" using desk_of_ok [OF q] by (simp add: desk_ok_def)
  then have "(j, w) \<notin> dk_lent (desk_of q)" using g by (metis IntI empty_iff image_eqI snd_conv)
  then have "(j, w) \<notin> set (pl_leased q)" by (simp add: desk_of_def)
  moreover have "distinct (map fst (pl_leased q)) \<and> distinct (map snd (pl_leased q))"
    using q by (simp add: pool_ok_def lease_ok_def held_def lent_workers_def)
  moreover have "pl_size q = pl_size (new_pool s)" using run_keeps(1) [OF assms(1)] run_keeps(1) [OF assms(2)] by simp
  then have "pl_size q = nat (cfg_sandbox_pool_size s)" by (simp add: new_pool_def)
  ultimately show ?thesis using q unfolding pool_ok_def capacity_ok_def by simp
qed

text \<open>Workers lost to failed spawns are never made up for: while the pool is open, workers, pending spawns and failed spawns
  always add up to its size.  So once as many spawns have failed as the pool has places, it stays open and empty
  for good, and no job is ever served again.\<close>
theorem failed_spawns_are_final:
  assumes "pool_run es (new_pool s) = Some p" and "pl_started p" and "pool_run es' p = Some q" and "\<not> pl_closed q"
  shows "length (pl_all q) + pending q + pl_lost q = nat (cfg_sandbox_pool_size s)
     \<and> (pl_lost p = nat (cfg_sandbox_pool_size s) \<longrightarrow> pl_all q = [] \<and> pl_free q = [] \<and> pl_leased q = [] \<and> pending q = 0)"
proof -
  have q: "pool_ok q" using pool_ok_run [OF new_pool_run_ok [OF assms(1)] assms(3)] .
  have size: "pl_size q = nat (cfg_sandbox_pool_size s)"
    using run_keeps(1) [OF assms(1)] run_keeps(1) [OF assms(3)] by (simp add: new_pool_def)
  have sum: "length (pl_all q) + pending q + pl_lost q = pl_size q"
    using q run_keeps(3) [OF assms(3,2)] assms(4) unfolding pool_ok_def capacity_ok_def by blast
  have "pl_all q = [] \<and> pl_free q = [] \<and> pl_leased q = [] \<and> pending q = 0" if "pl_lost p = nat (cfg_sandbox_pool_size s)"
  proof -
    have "length (pl_all q) = 0 \<and> pending q = 0" using sum size that run_keeps(2) [OF assms(3)] by linarith
    moreover have "\<forall>w\<in>set (held q). w \<in> set (pl_all q)" using q assms(4) unfolding pool_ok_def worker_ok_def by blast
    ultimately have "set (held q) = {}" "pl_all q = []" "pending q = 0" by auto
    then show ?thesis by (simp add: held_def lent_workers_def)
  qed
  then show ?thesis using sum size by simp
qed

section \<open>Relayed calls on a full pool\<close>

text \<open>Every worker is taken by a job that waits for a relayed call, and that call waits for a worker.\<close>
definition starved :: "pool \<Rightarrow> bool" where
  "starved p = (pl_started p \<and> pl_free p = [] \<and> pl_sweep p = [] \<and> pending p = 0
     \<and> (\<forall>l\<in>set (pl_leased p). \<exists>c\<in>set (pl_waiting p). (c, fst l) \<in> set (pl_parent p)))"

definition gives_up :: "pool_event \<Rightarrow> bool" where
  "gives_up e = (case e of Abandon _ \<Rightarrow> True | _ \<Rightarrow> False)"

lemma starved_awaits:
  assumes "starved p" and "map_of (pl_leased p) j = Some w"
  shows "awaits_child p j"
proof -
  have "(j, w) \<in> set (pl_leased p)" using assms(2) by (rule map_of_SomeD)
  then obtain c where "c \<in> set (pl_waiting p)" "(c, j) \<in> set (pl_parent p)" using assms(1) unfolding starved_def by fastforce
  then show ?thesis by (auto simp: awaits_child_def list_ex_iff)
qed

lemma starved_mono:
  assumes "starved p" and "pl_leased q = pl_leased p" and "set (pl_waiting p) \<subseteq> set (pl_waiting q)" and "set (pl_parent p) \<subseteq> set (pl_parent q)"
    and "pl_free q = []" and "pl_sweep q = []" and "pending q = 0" and "pl_started q"
  shows "starved q"
  using assms unfolding starved_def by (metis subsetD)

lemma starved_step:
  assumes "starved p" and "pool_step e p = Some q" and "\<not> gives_up e"
  shows "starved q \<and> pl_leased q = pl_leased p"
proof -
  have p: "pl_started p" "pl_free p = []" "pl_sweep p = []" "pl_refills p = 0" "\<not> pl_spawning p"
    "pl_starting p = None \<or> pl_starting p = Some 0"
    using assms(1) by (auto simp: starved_def pending_def split: if_splits option.splits)
  have "pl_leased q = pl_leased p \<and> set (pl_waiting p) \<subseteq> set (pl_waiting q) \<and> set (pl_parent p) \<subseteq> set (pl_parent q)
      \<and> pl_free q = [] \<and> pl_sweep q = [] \<and> pending q = 0 \<and> pl_started q"
    using assms(2,3) p starved_awaits [OF assms(1)]
    by (cases e) (auto simp: gives_up_def pending_def split: if_splits option.splits)
  then show ?thesis using starved_mono [OF assms(1)] by blast
qed

text \<open>Relayed calls starve on a full pool: when every worker is held by a job whose relayed call waits for a worker, no
  event serves any job, however many are submitted, spawned, swept or exit, until one of the waiting calls
  gives up at its acquire timeout.\<close>
theorem relayed_calls_starve:
  assumes "starved p" and "pool_run es p = Some q" and "\<forall>e\<in>set es. \<not> gives_up e"
  shows "pl_leased q = pl_leased p \<and> (j \<in> set (pl_waiting q) \<longrightarrow> pool_step (Acquire j) q = None \<and> pool_step (JobDone i) q = None)"
proof -
  have "starved q \<and> pl_leased q = pl_leased p"
    using assms
  proof (induction es arbitrary: p)
    case (Cons e es)
    then obtain r where r: "pool_step e p = Some r" "pool_run es r = Some q" by (auto split: option.splits)
    then show ?case using starved_step [OF Cons.prems(1) r(1)] Cons.IH [of r] Cons.prems(3) by simp
  qed simp
  moreover have "pool_step (JobDone i) q = None" if "starved q"
    using starved_awaits [OF that, of i] by (simp split: option.split)
  moreover have "pl_free q = []" if "starved q" using that by (simp add: starved_def)
  ultimately show ?thesis by simp
qed

section \<open>Examples\<close>

definition one_worker :: settings where
  "one_worker = default_settings\<lparr>cfg_sandbox_pool_size := 1\<rparr>"

lemma new_pool_of_one: "new_pool one_worker =
   \<lparr>pl_size = 1, pl_max_jobs = 0, pl_started = False, pl_closed = False, pl_starting = None, pl_free = [], pl_all = [], pl_waiting = [],
    pl_leased = [], pl_parent = [], pl_sweep = [], pl_refills = 0, pl_spawning = False, pl_dead = [], pl_exited = [],
    pl_jobs = (\<lambda>_. 0), pl_next = 0, pl_lost = 0, pl_poisoned = []\<rparr>"
  by (simp add: new_pool_def one_worker_def default_settings_def)

lemmas pool_simps = new_pool_of_one lock_free_def add_worker_def discard_def release_def awaits_child_def known_job_def serve_done_def Let_def

text \<open>The second job is served by the worker that replaces the one whose job failed.\<close>
lemma demo_history:
  "\<exists>p. pool_run [StartBegin, StartSpawn True, StartEnd, Submit 7 None, Acquire 7, JobFails 7, RefillBegin, RefillSpawn True] (new_pool one_worker) = Some p
     \<and> pl_poisoned p = [0] \<and> (\<exists>q. pool_run [Submit 8 None, Acquire 8] p = Some q \<and> pl_leased q = [(8, 1)])"
  by (simp add: pool_simps)


lemma failed_worker_never_serves_witness:
  "\<exists>p q. pool_run [StartBegin, StartSpawn True, StartEnd, Submit 7 None, Acquire 7, JobFails 7, RefillBegin, RefillSpawn True] (new_pool one_worker) = Some p
     \<and> pool_run [Submit 8 None, Acquire 8] p = Some q \<and> (8, 0) \<notin> set (pl_leased q)"
proof -
  obtain p q where p: "pool_run [StartBegin, StartSpawn True, StartEnd, Submit 7 None, Acquire 7, JobFails 7, RefillBegin, RefillSpawn True] (new_pool one_worker) = Some p"
    "pool_run [Submit 8 None, Acquire 8] p = Some q" "pl_poisoned p = [0]"
    using demo_history by blast
  then show ?thesis using failed_worker_never_serves [OF p(1,2), of 0 8] by auto
qed

lemma failed_spawns_are_final_witness:
  "\<exists>p q. pool_run [StartBegin, StartSpawn True, StartEnd, Submit 7 None, Acquire 7, JobFails 7, RefillBegin, RefillSpawn False] (new_pool one_worker) = Some p
     \<and> pool_run [Submit 8 None] p = Some q \<and> pl_all q = [] \<and> pending q = 0"
proof -
  obtain p q where p: "pool_run [StartBegin, StartSpawn True, StartEnd, Submit 7 None, Acquire 7, JobFails 7, RefillBegin, RefillSpawn False] (new_pool one_worker) = Some p"
    "pool_run [Submit 8 None] p = Some q" "pl_started p" "\<not> pl_closed q" "pl_lost p = 1"
    by (simp add: pool_simps)
  have "nat (cfg_sandbox_pool_size one_worker) = 1" by (simp add: one_worker_def)
  then show ?thesis using failed_spawns_are_final [OF p(1,3,2,4)] p(1,2,5) by auto
qed

text \<open>The only worker runs job 7, which relays a call as job 8.\<close>
lemma relayed_calls_starve_witness:
  "\<exists>p q. pool_run [StartBegin, StartSpawn True, StartEnd, Submit 7 None, Acquire 7, Submit 8 (Some 7)] (new_pool one_worker) = Some p
     \<and> pool_run [SweepBegin, Submit 9 None, Exits 3] p = Some q \<and> pool_step (Acquire 8) q = None \<and> pool_step (JobDone 7) q = None"
proof -
  obtain p where p: "pool_run [StartBegin, StartSpawn True, StartEnd, Submit 7 None, Acquire 7, Submit 8 (Some 7)] (new_pool one_worker) = Some p"
    and s: "starved p" and c: "\<exists>q. pool_run [SweepBegin, Submit 9 None, Exits 3] p = Some q \<and> 8 \<in> set (pl_waiting q)"
    by (simp add: pool_simps starved_def pending_def)
  obtain q where q: "pool_run [SweepBegin, Submit 9 None, Exits 3] p = Some q" "8 \<in> set (pl_waiting q)" using c by blast
  have n: "\<forall>e\<in>set [SweepBegin, Submit 9 None, Exits 3]. \<not> gives_up e" by (simp add: gives_up_def)
  show ?thesis using relayed_calls_starve [OF s q(1) n, of 8 7] p q by auto
qed

text \<open>A shutdown that overtakes \<open>start\<close> does not stop it: the worker it spawns afterwards is in no list that is ever
  terminated again.\<close>
lemma start_outlives_shutdown:
  "\<exists>p. pool_run [StartBegin, Close, CancelTasks, StartSpawn True, StartEnd] (new_pool one_worker) = Some p
     \<and> pl_closed p \<and> pl_all p = [0] \<and> 0 \<notin> set (pl_exited p)"
  by (simp add: pool_simps)

end
