(* ===== verification/SandboxExecutor.thy ===== *)
theory SandboxExecutor
  imports SandboxPool DbBridge HttpBridge ProxyRegistry
begin

text \<open>\<open>services/sandbox_executor.py\<close>, \<open>sandbox_errors.py\<close> and the job protocol of \<open>sandbox_pool.py\<close>: how one run of a code tool is
  prepared, what it may ask of the host while it runs, how its last frame becomes a result or an error, and
  how many runs there are at a time.  A worker is a function from the replies it has been sent to the line
  it writes next; how many lines fit before the deadline, JSON parsing and \<open>pip\<close> are parameters.\<close>

section \<open>Errors and budgets\<close>

text \<open>\<open>OtherError\<close>: an exception that is no \<open>SandboxError\<close>.\<close>
datatype sandbox_error = SandboxError string | SandboxTimeoutError string | SandboxProtocolError string | OtherError

definition BRIDGE_RPC_FRAME_TYPES :: "string list" where
  "BRIDGE_RPC_FRAME_TYPES = [''db_rpc'', ''tool_rpc'', ''http_rpc'']"

definition frame_budget_bytes :: "int \<Rightarrow> int" where
  "frame_budget_bytes max_output = 2 * max 1024 max_output + 128 * 1024"

definition FRAME_HEADROOM_BYTES :: int where "FRAME_HEADROOM_BYTES = 64 * 1024"

definition stream_limit :: "settings \<Rightarrow> int" where
  "stream_limit s = frame_budget_bytes (cfg_sandbox_max_output_bytes s) + FRAME_HEADROOM_BYTES"

text \<open>What \<open>create_subprocess_exec\<close> takes where no limit is given, as for a throwaway worker.\<close>
definition default_stream_limit :: int where "default_stream_limit = 64 * 1024"

text \<open>In milliseconds.\<close>
definition acquire_timeout :: "settings \<Rightarrow> int \<Rightarrow> int" where
  "acquire_timeout s timeout_ms =
     (if cfg_sandbox_pool_acquire_timeout_ms s > 0 then cfg_sandbox_pool_acquire_timeout_ms s
      else max 50 (max timeout_ms (cfg_sandbox_pool_warmup_timeout_ms s)))"

definition pool_read_timeout :: "settings \<Rightarrow> int \<Rightarrow> int" where
  "pool_read_timeout s timeout_ms = max 50 (timeout_ms + max 0 (cfg_sandbox_worker_startup_grace_ms s) + 500)"

definition pump_budget :: "settings \<Rightarrow> int \<Rightarrow> int" where
  "pump_budget s timeout_ms = max 50 (max 1 timeout_ms + max 0 (cfg_sandbox_worker_startup_grace_ms s))"

section \<open>Frames\<close>

text \<open>What the host reads: a line, the end of the stream, nothing in time, or a line over the reader's limit.\<close>
datatype worker_read = Line string | Eof | Late | Overlong

datatype frame_kind = BridgeCall doc | Final doc | Bad sandbox_error

text \<open>A frame whose \<open>type\<close> does not hash raises a \<open>TypeError\<close>.\<close>
definition classify_line :: "(string \<Rightarrow> pyval option) \<Rightarrow> string \<Rightarrow> frame_kind" where
  "classify_line json l =
     (case json l of
        None \<Rightarrow> Bad (SandboxProtocolError ''Sandbox worker returned a malformed frame.'')
      | Some (VDict d) \<Rightarrow>
          (case vget d ''type'' of
             VStr t \<Rightarrow> if t \<in> set BRIDGE_RPC_FRAME_TYPES then BridgeCall d else Final d
           | VList _ \<Rightarrow> Bad OtherError
           | VDict _ \<Rightarrow> Bad OtherError
           | _ \<Rightarrow> Final d)
      | Some _ \<Rightarrow> Bad (SandboxProtocolError ''Sandbox worker frame was not a JSON object.''))"

type_synonym 's dispatcher = "doc \<Rightarrow> 's \<Rightarrow> doc \<times> 's"
type_synonym worker = "doc list \<Rightarrow> worker_read"

definition no_bridge :: sandbox_error where
  "no_bridge = SandboxProtocolError ''Sandbox worker requested a host bridge call when no bridge is enabled.''"

text \<open>\<open>WorkerPool._run_on_worker\<close>: at most \<open>n\<close> lines fit before the deadline; \<open>rs\<close> are the replies sent so far.\<close>
fun run_on_worker ::
  "(string \<Rightarrow> pyval option) \<Rightarrow> 's dispatcher option \<Rightarrow> worker \<Rightarrow> nat \<Rightarrow> doc list \<Rightarrow> 's \<Rightarrow> (sandbox_error + doc) \<times> doc list \<times> 's" where
  "run_on_worker json dsp w 0 rs st =
     (Inl (SandboxTimeoutError ''Code tool exceeded its deadline inside the warm sandbox worker.''), rs, st)"
| "run_on_worker json dsp w (Suc n) rs st =
     (case w rs of
        Late \<Rightarrow> (Inl (SandboxTimeoutError ''Code tool exceeded its deadline inside the warm sandbox worker.''), rs, st)
      | Overlong \<Rightarrow> (Inl (SandboxProtocolError ''Sandbox worker frame exceeded the read buffer limit.''), rs, st)
      | Eof \<Rightarrow> (Inl (SandboxError ''Sandbox worker exited before returning a result.''), rs, st)
      | Line l \<Rightarrow>
          (case classify_line json l of
             Bad e \<Rightarrow> (Inl e, rs, st)
           | Final d \<Rightarrow> (Inr d, rs, st)
           | BridgeCall d \<Rightarrow>
               (case dsp of
                  None \<Rightarrow> (Inl no_bridge, rs, st)
                | Some f \<Rightarrow> (case f d st of (r, st') \<Rightarrow> run_on_worker json dsp w n (rs @ [r]) st'))))"

text \<open>\<open>WasmExecutor._pump_worker_frames\<close>; \<open>Inr None\<close>: the worker closed its output.  The \<open>TimeoutError\<close> becomes the run's time-out
  error, and the \<open>ValueError\<close> of an over-long line is not caught.\<close>
fun pump_worker_frames ::
  "(string \<Rightarrow> pyval option) \<Rightarrow> 's dispatcher option \<Rightarrow> worker \<Rightarrow> nat \<Rightarrow> doc list \<Rightarrow> 's \<Rightarrow> (sandbox_error + doc option) \<times> doc list \<times> 's" where
  "pump_worker_frames json dsp w 0 rs st = (Inl (SandboxTimeoutError ''timed out''), rs, st)"
| "pump_worker_frames json dsp w (Suc n) rs st =
     (case w rs of
        Late \<Rightarrow> (Inl (SandboxTimeoutError ''timed out''), rs, st)
      | Overlong \<Rightarrow> (Inl OtherError, rs, st)
      | Eof \<Rightarrow> (Inr None, rs, st)
      | Line l \<Rightarrow>
          (case classify_line json l of
             Bad e \<Rightarrow> (Inl e, rs, st)
           | Final d \<Rightarrow> (Inr (Some d), rs, st)
           | BridgeCall d \<Rightarrow>
               (case dsp of
                  None \<Rightarrow> (Inl no_bridge, rs, st)
                | Some f \<Rightarrow> (case f d st of (r, st') \<Rightarrow> pump_worker_frames json dsp w n (rs @ [r]) st'))))"

section \<open>Limits\<close>

record sandbox_limits =
  sl_fuel :: int
  sl_memory_bytes :: int
  sl_wall_timeout_ms :: int
  sl_max_output_bytes :: int

definition resolve_limits :: "settings \<Rightarrow> sandbox_limits option \<Rightarrow> sandbox_limits" where
  "resolve_limits s given =
     (case given of
        Some l \<Rightarrow> l
      | None \<Rightarrow> \<lparr>sl_fuel = max 1 (cfg_sandbox_fuel s), sl_memory_bytes = max 1 (cfg_sandbox_memory_bytes s),
                 sl_wall_timeout_ms = max 1 (cfg_sandbox_wall_timeout_ms s),
                 sl_max_output_bytes = max 1 (cfg_sandbox_max_output_bytes s)\<rparr>)"

definition limits_payload :: "settings \<Rightarrow> sandbox_limits \<Rightarrow> doc" where
  "limits_payload s l =
     [(''fuel'', VInt (sl_fuel l)), (''memory_bytes'', VInt (sl_memory_bytes l)), (''wall_timeout_ms'', VInt (sl_wall_timeout_ms l)),
      (''max_output_bytes'', VInt (sl_max_output_bytes l)), (''boot_grace_ms'', VInt (max 0 (cfg_sandbox_worker_startup_grace_ms s)))]"

definition tool_bridge_enabled :: "settings \<Rightarrow> exec_request \<Rightarrow> bool" where
  "tool_bridge_enabled s req = (cfg_sandbox_tool_bridge_enabled s \<and> er_can_relay req)"

definition worker_timeout_ms :: "settings \<Rightarrow> int \<Rightarrow> bool \<Rightarrow> bool \<Rightarrow> bool \<Rightarrow> int" where
  "worker_timeout_ms s wall db tool http =
     max 1 wall
     + (if db then max 0 (cfg_sandbox_db_max_calls_per_invocation s) * max 0 (cfg_sandbox_db_query_timeout_ms s) else 0)
     + (if tool then max 1 wall else 0)
     + (if http then max 0 (cfg_sandbox_http_max_calls_per_invocation s) * max 0 (cfg_sandbox_http_timeout_ms s) else 0)"

text \<open>What \<open>run\<close> passes: it leaves the HTTP bridge out.\<close>
definition run_timeout_ms :: "settings \<Rightarrow> exec_request \<Rightarrow> sandbox_limits \<Rightarrow> int" where
  "run_timeout_ms s req l =
     worker_timeout_ms s (sl_wall_timeout_ms l) (cfg_sandbox_db_bridge_enabled s) (tool_bridge_enabled s req) False"

definition job_payload :: "settings \<Rightarrow> exec_request \<Rightarrow> string list \<Rightarrow> sandbox_limits \<Rightarrow> doc" where
  "job_payload s req paths l =
     [(''tenant_id'', VStr (er_tenant req)), (''server'', VStr (er_server req)), (''tool'', VStr (er_tool req)),
      (''raw_code'', VStr (er_code req)), (''requirements'', VList (map VStr (er_requirements req))),
      (''python_paths'', VList (map VStr paths)), (''arguments'', VDict (er_arguments req)),
      (''env'', VDict (map (\<lambda>(k, v). (k, VStr v)) (er_env req))), (''action_type'', VStr (er_action req)),
      (''db_bridge'', VBool (cfg_sandbox_db_bridge_enabled s)), (''tool_bridge'', VBool (tool_bridge_enabled s req)),
      (''http_bridge'', VBool (cfg_sandbox_http_bridge_enabled s)),
      (''db_rpc_wait_ms'', VInt (worker_timeout_ms s (sl_wall_timeout_ms l) (cfg_sandbox_db_bridge_enabled s)
           (tool_bridge_enabled s req) (cfg_sandbox_http_bridge_enabled s))),
      (''limits'', VDict (limits_payload s l))]"

section \<open>The bridges of a run\<close>

record bridge_env =
  be_db :: db_env
  be_http :: http_env
  be_proxy :: proxy_env
  be_decode :: "pyval \<Rightarrow> pyval"
  be_encode :: "doc \<Rightarrow> pyval"
  be_relay :: invoker

text \<open>\<open>bs_frames\<close> only observes: the frames handled, in order.\<close>
record bridge_state =
  bs_db :: db_state
  bs_http :: http_state
  bs_tool_calls :: nat
  bs_proxy :: proxy_state
  bs_frames :: "doc list"

text \<open>Messages are left out.\<close>
definition bridge_reply :: "string \<Rightarrow> doc \<Rightarrow> string + pyval \<Rightarrow> doc" where
  "bridge_reply kind frame r =
     [(''type'', VStr kind), (''id'', vget frame ''id'')]
     @ (case r of Inr v \<Rightarrow> [(''ok'', VBool True), (''result'', v)]
        | Inl k \<Rightarrow> [(''ok'', VBool False), (''error'', VDict [(''type'', VStr k)])])"

definition http_bridge_of :: "exec_request \<Rightarrow> http_bridge" where
  "http_bridge_of req =
     \<lparr>hx_tenant = er_tenant req, hx_action = er_action req, hx_env = er_env req, hx_server = Some (er_server req),
      hx_tool = Some (er_tool req)\<rparr>"

definition tool_arguments :: "bridge_env \<Rightarrow> doc \<Rightarrow> pyval" where
  "tool_arguments env frame = (if vget frame ''arguments'' = VNone then VNone else be_decode env (vget frame ''arguments''))"

definition dispatch_frame :: "bridge_env \<Rightarrow> settings \<Rightarrow> real \<Rightarrow> exec_request \<Rightarrow> bridge_state dispatcher" where
  "dispatch_frame env s now req frame st0 =
     (let st = st0\<lparr>bs_frames := bs_frames st0 @ [frame]\<rparr> in
      if vget frame ''type'' = VStr ''tool_rpc'' then
        (if \<not> tool_bridge_enabled s req then (bridge_reply ''tool_rpc_result'' frame (Inl ''tool_rpc_error''), st)
         else case bridge_handle s (be_proxy env) (be_relay env) (bs_tool_calls st) (py_str (py_or (vget frame ''server'') (VStr [])))
                     (py_str (py_or (vget frame ''tool'') (VStr []))) (tool_arguments env frame) (bs_proxy st) of
             (r, calls, ps) \<Rightarrow>
               (bridge_reply ''tool_rpc_result'' frame (map_sum (\<lambda>k. k) (be_encode env) r), st\<lparr>bs_tool_calls := calls, bs_proxy := ps\<rparr>))
      else if vget frame ''type'' = VStr ''http_rpc'' then
        (if \<not> cfg_sandbox_http_bridge_enabled s then (bridge_reply ''http_rpc_result'' frame (Inl ''http_rpc_error''), st)
         else case http_handle (be_http env) s now (http_bridge_of req) frame (bs_http st) of
             (r, hs) \<Rightarrow> (bridge_reply ''http_rpc_result'' frame r, st\<lparr>bs_http := hs\<rparr>))
      else if \<not> cfg_sandbox_db_bridge_enabled s then (bridge_reply ''db_rpc_result'' frame (Inl ''db_rpc_error''), st)
      else case db_handle (be_db env) s (er_tenant req) (er_action req) None frame (bs_db st) of
          (r, ds) \<Rightarrow> (bridge_reply ''db_rpc_result'' frame r, st\<lparr>bs_db := ds\<rparr>))"

definition bridge_dispatcher :: "bridge_env \<Rightarrow> settings \<Rightarrow> real \<Rightarrow> exec_request \<Rightarrow> bridge_state dispatcher option" where
  "bridge_dispatcher env s now req =
     (if \<not> cfg_sandbox_db_bridge_enabled s \<and> \<not> tool_bridge_enabled s req \<and> \<not> cfg_sandbox_http_bridge_enabled s then None
      else Some (dispatch_frame env s now req))"

section \<open>Requirements\<close>

datatype pip_outcome = PipOk | PipTimeout | PipFails string

definition pip_options :: "string list" where
  "pip_options = [''install'', ''--disable-pip-version-check'', ''--no-input'', ''--no-deps'', ''--only-binary=:all:'']"

text \<open>The paths for the guest, and the command given to \<open>pip\<close>, if any.\<close>
definition stage_requirements ::
  "(string list \<Rightarrow> pip_outcome) \<Rightarrow> settings \<Rightarrow> string list \<Rightarrow> string list \<Rightarrow> (sandbox_error + string list) \<times> string list option" where
  "stage_requirements pip s requirements permitted =
     (let normalized = filter (\<lambda>r. r \<noteq> []) (map strip requirements);
          decision = evaluate_requirements s normalized permitted
      in if normalized = [] then (Inr [], None)
         else if \<not> decision_ok decision then (Inl (SandboxError (decision_error_message decision)), None)
         else (case pip (pip_options @ normalized) of
                 PipOk \<Rightarrow> Inr [''/job/site-packages'']
               | PipTimeout \<Rightarrow> Inl (SandboxTimeoutError ''Installing tool requirements exceeded sandbox timeout.'')
               | PipFails e \<Rightarrow> Inl (SandboxError (''Failed to install tool requirements: '' @ e)), Some (pip_options @ normalized)))"

section \<open>What the processes see of the environment\<close>

definition PASSED_VARIABLES :: "string list" where
  "PASSED_VARIABLES = [''PATH'', ''PYTHONPATH'', ''PYTHONHOME'', ''LC_ALL'', ''LANG'']"

text \<open>\<open>environ\<close>: the gateway's own environment; \<open>repo\<close>: the directory of the program.  Paths are separated by a colon.\<close>
definition subprocess_env :: "(string \<times> string) list \<Rightarrow> string \<Rightarrow> (string \<times> string) list" where
  "subprocess_env environ repo =
     (let env = List.map_filter (\<lambda>k. case dget environ k of Some v \<Rightarrow> (if v = [] then None else Some (k, v)) | None \<Rightarrow> None)
                  PASSED_VARIABLES;
          parts = filter (\<lambda>q. q \<noteq> []) (split_on CHR '':'' (case dget env ''PYTHONPATH'' of Some v \<Rightarrow> v | None \<Rightarrow> []));
          parts1 = (if repo \<in> set parts then parts else repo # parts)
      in dput ''PYTHONPATH'' (join '':'' parts1) env)"

text \<open>Neither \<open>pip\<close> nor a worker gets a variable of the gateway besides the five that are named.\<close>
lemma no_secret_reaches_a_process:
  "fst ` set (subprocess_env environ repo) \<subseteq> set PASSED_VARIABLES"
proof -
  have "fst ` set (List.map_filter (\<lambda>k. case dget environ k of Some v \<Rightarrow> (if v = [] then None else Some (k, v)) | None \<Rightarrow> None) PASSED_VARIABLES)
      \<subseteq> set PASSED_VARIABLES"
    by (auto simp: List.map_filter_def split: option.splits if_splits)
  moreover have "''PYTHONPATH'' \<in> set PASSED_VARIABLES" by (simp add: PASSED_VARIABLES_def)
  ultimately show ?thesis unfolding subprocess_env_def Let_def keys_dput by simp
qed

section \<open>Results\<close>

record exec_result =
  xr_payload :: doc
  xr_stdout :: string
  xr_stderr :: string
  xr_elapsed_ms :: int

definition frame_error :: "doc \<Rightarrow> sandbox_error" where
  "frame_error frame =
     (let err = (case vget frame ''error'' of VDict d \<Rightarrow> d | _ \<Rightarrow> []);
          kind = py_str (py_or (vget err ''type'') (VStr ''execution_error''));
          message = py_str (py_or (vget err ''message'') (VStr ''Sandbox execution failed.''))
      in if kind \<in> {''timeout'', ''fuel_exhausted'', ''epoch_timeout''} then SandboxTimeoutError message
         else if kind = ''protocol_error'' then SandboxProtocolError message
         else SandboxError message)"

text \<open>A text is taken as its UTF-8 bytes.\<close>
definition result_from_frame :: "doc \<Rightarrow> sandbox_limits \<Rightarrow> int \<Rightarrow> sandbox_error + exec_result" where
  "result_from_frame frame l elapsed =
     (let out = py_str (py_or (vget frame ''stdout'') (VStr [])); err = py_str (py_or (vget frame ''stderr'') (VStr []))
      in if int (length out + length err) > sl_max_output_bytes l
         then Inl (SandboxProtocolError ''Sandbox output exceeded the configured output-size limit.'')
         else if \<not> truthy (vget frame ''ok'') then Inl (frame_error frame)
         else Inr \<lparr>xr_payload = (case vget frame ''result'' of VDict d \<Rightarrow> d | v \<Rightarrow> [(''data'', v)]),
                   xr_stdout = out, xr_stderr = err, xr_elapsed_ms = elapsed\<rparr>)"

text \<open>\<open>rc\<close>: the exit code, if there is one.\<close>
definition worker_exit_detail :: "int option \<Rightarrow> string \<Rightarrow> string" where
  "worker_exit_detail rc err =
     (let parts = (case rc of Some c \<Rightarrow> [if c < 0 then ''killed by signal '' @ int_str (- c) else ''exit code '' @ int_str c] | None \<Rightarrow> [])
            @ (if strip err \<noteq> [] then [strip err] else [])
      in if parts = [] then ''.'' else '' ('' @ join ''; '' parts @ '').'')"

section \<open>A whole run\<close>

text \<open>\<open>xe_spawn\<close>: the worker that runs a job; \<open>xe_lines\<close>: how many lines it writes within so many milliseconds; \<open>xe_lease\<close>: whether
  the pool hands out a worker in time.\<close>
record exec_env =
  xe_json :: "string \<Rightarrow> pyval option"
  xe_pip :: "string list \<Rightarrow> pip_outcome"
  xe_spawn :: "doc \<Rightarrow> worker"
  xe_lines :: "int \<Rightarrow> nat"
  xe_lease :: bool
  xe_exit :: "int option \<times> string"
  xe_elapsed :: int
  xe_bridges :: bridge_env

definition stage_job ::
  "exec_env \<Rightarrow> settings \<Rightarrow> exec_request \<Rightarrow> sandbox_limits \<Rightarrow> sandbox_error + doc" where
  "stage_job env s req l =
     (case fst (stage_requirements (xe_pip env) s (er_requirements req) (er_allowed req)) of
        Inl e \<Rightarrow> Inl e
      | Inr paths \<Rightarrow> Inr (job_payload s req paths l))"

definition wasm_run ::
  "exec_env \<Rightarrow> settings \<Rightarrow> real \<Rightarrow> exec_request \<Rightarrow> sandbox_limits option \<Rightarrow> bridge_state \<Rightarrow> (sandbox_error + exec_result) \<times> bridge_state" where
  "wasm_run env s now req given st =
     (if cfg_code_executor s = ''disabled'' then (Inl (SandboxError ''Code executor is disabled.''), st)
      else (let l = resolve_limits s given in
            case stage_job env s req l of
              Inl e \<Rightarrow> (Inl e, st)
            | Inr job \<Rightarrow>
                (case pump_worker_frames (xe_json env) (bridge_dispatcher (xe_bridges env) s now req) (xe_spawn env job)
                        (xe_lines env (pump_budget s (run_timeout_ms s req l))) [] st of
                   (Inl e, rs, st') \<Rightarrow> (Inl e, st')
                 | (Inr None, rs, st') \<Rightarrow>
                     (Inl (SandboxError (''Sandbox worker exited before returning a result''
                        @ worker_exit_detail (fst (xe_exit env)) (snd (xe_exit env)))), st')
                 | (Inr (Some f), rs, st') \<Rightarrow> (result_from_frame f l (xe_elapsed env), st'))))"

definition pooled_run ::
  "exec_env \<Rightarrow> settings \<Rightarrow> real \<Rightarrow> exec_request \<Rightarrow> sandbox_limits option \<Rightarrow> bridge_state \<Rightarrow> (sandbox_error + exec_result) \<times> bridge_state" where
  "pooled_run env s now req given st =
     (if cfg_code_executor s = ''disabled'' then (Inl (SandboxError ''Code executor is disabled.''), st)
      else (let l = resolve_limits s given in
            case stage_job env s req l of
              Inl e \<Rightarrow> (Inl e, st)
            | Inr job \<Rightarrow>
                if \<not> xe_lease env then (Inl (SandboxError ''No warm sandbox worker became available before the acquire timeout.''), st)
                else (case run_on_worker (xe_json env) (bridge_dispatcher (xe_bridges env) s now req) (xe_spawn env job)
                              (xe_lines env (pool_read_timeout s (run_timeout_ms s req l))) [] st of
                        (Inl e, rs, st') \<Rightarrow> (Inl e, st')
                      | (Inr f, rs, st') \<Rightarrow> (result_from_frame f l (xe_elapsed env), st'))))"

definition executor_run ::
  "exec_env \<Rightarrow> settings \<Rightarrow> real \<Rightarrow> exec_request \<Rightarrow> sandbox_limits option \<Rightarrow> bridge_state \<Rightarrow> (sandbox_error + exec_result) \<times> bridge_state" where
  "executor_run env s = (if cfg_sandbox_pool_size s > 0 \<and> cfg_code_executor s \<noteq> ''disabled'' then pooled_run env s else wasm_run env s)"

section \<open>What a run reaches\<close>

definition frame_goes_to :: "settings \<Rightarrow> exec_request \<Rightarrow> doc \<Rightarrow> string" where
  "frame_goes_to s req frame =
     (if vget frame ''type'' = VStr ''tool_rpc'' then (if tool_bridge_enabled s req then ''tool'' else [])
      else if vget frame ''type'' = VStr ''http_rpc'' then (if cfg_sandbox_http_bridge_enabled s then ''http'' else [])
      else if cfg_sandbox_db_bridge_enabled s then ''db'' else [])"

text \<open>The state a run started from \<open>st0\<close> has, split by bridge.\<close>
definition bridges_split :: "bridge_env \<Rightarrow> settings \<Rightarrow> real \<Rightarrow> exec_request \<Rightarrow> bridge_state \<Rightarrow> bridge_state \<Rightarrow> bool" where
  "bridges_split env s now req st0 st =
     (\<exists>fs. bs_frames st = bs_frames st0 @ fs
       \<and> bs_db st = db_session (be_db env) s (er_tenant req) (er_action req) None (filter (\<lambda>f. frame_goes_to s req f = ''db'') fs) (bs_db st0)
       \<and> bs_http st = http_session (be_http env) s (http_bridge_of req) (map (Pair now) (filter (\<lambda>f. frame_goes_to s req f = ''http'') fs)) (bs_http st0)
       \<and> (filter (\<lambda>f. frame_goes_to s req f = ''tool'') fs = [] \<longrightarrow> bs_proxy st = bs_proxy st0))"

lemma db_session_snoc:
  "db_session env s tid a o' (fs @ [f]) st = snd (db_handle env s tid a o' f (db_session env s tid a o' fs st))"
  by (simp add: db_session_def)

lemma http_session_snoc:
  "http_session env s br (fs @ [(now, f)]) st = snd (http_handle env s now br f (http_session env s br fs st))"
  by (simp add: http_session_def)

lemma dispatch_effect:
  "bs_frames (snd (dispatch_frame env s now req frame st)) = bs_frames st @ [frame]"
  "bs_db (snd (dispatch_frame env s now req frame st)) = (if frame_goes_to s req frame = ''db''
     then snd (db_handle (be_db env) s (er_tenant req) (er_action req) None frame (bs_db st)) else bs_db st)"
  "bs_http (snd (dispatch_frame env s now req frame st)) = (if frame_goes_to s req frame = ''http''
     then snd (http_handle (be_http env) s now (http_bridge_of req) frame (bs_http st)) else bs_http st)"
  "frame_goes_to s req frame \<noteq> ''tool'' \<Longrightarrow> bs_proxy (snd (dispatch_frame env s now req frame st)) = bs_proxy st"
  unfolding dispatch_frame_def Let_def frame_goes_to_def
  by (simp_all add: case_prod_unfold split: if_splits)

lemma dispatch_split:
  assumes "bridges_split env s now req st0 st"
  shows "bridges_split env s now req st0 (snd (dispatch_frame env s now req frame st))"
proof -
  let ?db = "\<lambda>fs. db_session (be_db env) s (er_tenant req) (er_action req) None (filter (\<lambda>f. frame_goes_to s req f = ''db'') fs) (bs_db st0)"
  let ?http = "\<lambda>fs. http_session (be_http env) s (http_bridge_of req) (map (Pair now) (filter (\<lambda>f. frame_goes_to s req f = ''http'') fs)) (bs_http st0)"
  obtain fs where fs: "bs_frames st = bs_frames st0 @ fs" "bs_db st = ?db fs" "bs_http st = ?http fs"
    "filter (\<lambda>f. frame_goes_to s req f = ''tool'') fs = [] \<longrightarrow> bs_proxy st = bs_proxy st0"
    using assms unfolding bridges_split_def by blast
  let ?st = "snd (dispatch_frame env s now req frame st)"
  have "bs_frames ?st = bs_frames st0 @ (fs @ [frame])" unfolding dispatch_effect(1) fs(1) by simp
  moreover have "bs_db ?st = ?db (fs @ [frame])" unfolding dispatch_effect(2) fs(2) by (simp add: db_session_snoc)
  moreover have "bs_http ?st = ?http (fs @ [frame])" unfolding dispatch_effect(3) fs(3) by (simp add: http_session_snoc)
  moreover have "bs_proxy ?st = bs_proxy st0" if t: "filter (\<lambda>f. frame_goes_to s req f = ''tool'') (fs @ [frame]) = []"
  proof -
    have "frame_goes_to s req frame \<noteq> ''tool''" "filter (\<lambda>f. frame_goes_to s req f = ''tool'') fs = []" using t by (auto split: if_splits)
    then show ?thesis using dispatch_effect(4) fs(4) by simp
  qed
  ultimately show ?thesis unfolding bridges_split_def by blast
qed

lemma run_keeps_invariant:
  assumes "\<And>g f st. dsp = Some g \<Longrightarrow> P st \<Longrightarrow> P (snd (g f st))"
  shows "P st \<Longrightarrow> P (snd (snd (run_on_worker json dsp w n rs st)))"
    and "P st \<Longrightarrow> P (snd (snd (pump_worker_frames json dsp w n rs st)))"
proof -
  have k: "P st'" if "dsp = Some g" "P st" "g f st = (r, st')" for g f st r st' using assms [OF that(1,2), of f] that(3) by simp
  show "P st \<Longrightarrow> P (snd (snd (run_on_worker json dsp w n rs st)))"
    by (induction n arbitrary: rs st) (auto split: worker_read.split frame_kind.split option.split prod.split dest: k)
  show "P st \<Longrightarrow> P (snd (snd (pump_worker_frames json dsp w n rs st)))"
    by (induction n arbitrary: rs st) (auto split: worker_read.split frame_kind.split option.split prod.split dest: k)
qed

lemma executor_split:
  assumes "executor_run env s now req given st = (out, st')"
  shows "bridges_split (xe_bridges env) s now req st st'"
proof -
  let ?P = "bridges_split (xe_bridges env) s now req st"
  have z: "?P st" by (auto simp: bridges_split_def db_session_def http_session_def)
  have step: "?P (snd (g f st'))" if "bridge_dispatcher (xe_bridges env) s now req = Some g" "?P st'" for g f st'
    using that dispatch_split by (auto simp: bridge_dispatcher_def split: if_splits)
  have r0: "?P (snd (snd (run_on_worker json (bridge_dispatcher (xe_bridges env) s now req) w n [] st)))" for json w n
    by (rule run_keeps_invariant(1) [where P = ?P, OF _ z]) (rule step)
  have p0: "?P (snd (snd (pump_worker_frames json (bridge_dispatcher (xe_bridges env) s now req) w n [] st)))" for json w n
    by (rule run_keeps_invariant(2) [where P = ?P, OF _ z]) (rule step)
  have r: "?P st2" if "run_on_worker json (bridge_dispatcher (xe_bridges env) s now req) w n [] st = (x, rs, st2)" for json w n x rs st2
    using r0 [of json w n] unfolding that by simp
  have p: "?P st2" if "pump_worker_frames json (bridge_dispatcher (xe_bridges env) s now req) w n [] st = (x, rs, st2)" for json w n x rs st2
    using p0 [of json w n] unfolding that by simp
  show ?thesis
  proof (cases "cfg_sandbox_pool_size s > 0 \<and> cfg_code_executor s \<noteq> ''disabled''")
    case True
    then show ?thesis using assms z r
      by (auto simp: executor_run_def pooled_run_def Let_def split: if_splits sum.splits prod.splits)
  next
    case False
    then have "executor_run env s = wasm_run env s" unfolding executor_run_def by (rule if_not_P)
    then show ?thesis using assms z p
      by (auto simp: wasm_run_def Let_def split: if_splits sum.splits prod.splits option.splits)
  qed
qed


section \<open>Two runners, one protocol\<close>

fun error_kind :: "sandbox_error \<Rightarrow> string" where
  "error_kind (SandboxError _) = ''error''"
| "error_kind (SandboxTimeoutError _) = ''timeout''"
| "error_kind (SandboxProtocolError _) = ''protocol''"
| "error_kind OtherError = ''other''"

text \<open>A pooled and a throwaway worker are spoken to alike: as long as a worker neither closes its output nor writes a line over
  the reader's limit, the same frames are answered with the same replies, and the final frame or the kind of
  error is the same.\<close>
theorem runners_agree:
  assumes "\<And>rs. w rs \<noteq> Eof \<and> w rs \<noteq> Overlong"
  shows "(map_sum error_kind Some (fst (run_on_worker json dsp w n rs st)), snd (run_on_worker json dsp w n rs st))
    = (map_sum error_kind (\<lambda>x. x) (fst (pump_worker_frames json dsp w n rs st)), snd (pump_worker_frames json dsp w n rs st))"
proof (induction n arbitrary: rs st)
  case (Suc n)
  then show ?case using assms [of rs]
    by (auto split: worker_read.split frame_kind.split option.split prod.split)
qed simp

text \<open>Where they differ: a line within the worker's own budget can exceed what a throwaway worker's reader takes, and then an
  exception escapes that is no \<open>SandboxError\<close>.\<close>
lemma throwaway_reader_is_too_small: "default_stream_limit < frame_budget_bytes m \<and> frame_budget_bytes (cfg_sandbox_max_output_bytes s) < stream_limit s"
  by (simp add: default_stream_limit_def frame_budget_bytes_def stream_limit_def FRAME_HEADROOM_BYTES_def)

lemma overlong_line_escapes:
  "w rs = Overlong \<Longrightarrow> fst (pump_worker_frames json dsp w (Suc n) rs st) = Inl OtherError"
  "w rs = Overlong \<Longrightarrow> \<exists>m. fst (run_on_worker json dsp w (Suc n) rs st) = Inl (SandboxProtocolError m)"
  by simp_all

text \<open>The guest is told to wait for its HTTP calls longer than the host waits for the guest.\<close>
lemma http_headroom_is_missing:
  assumes "cfg_sandbox_http_bridge_enabled s" and "0 < cfg_sandbox_http_max_calls_per_invocation s" and "0 < cfg_sandbox_http_timeout_ms s"
  shows "\<exists>wait. vget (job_payload s req paths l) ''db_rpc_wait_ms'' = VInt wait
     \<and> wait = run_timeout_ms s req l + cfg_sandbox_http_max_calls_per_invocation s * cfg_sandbox_http_timeout_ms s"
  using assms by (simp add: job_payload_def run_timeout_ms_def worker_timeout_ms_def vget_def)

section \<open>Staging and results\<close>


text \<open>Only the name is checked: a direct reference after the extras passes as the permitted package.\<close>
lemma direct_reference_passes:
  "decision_ok (evaluate_requirements (default_settings\<lparr>cfg_sandbox_allowed_requirements := ''numpy''\<rparr>)
     [''numpy[x] @ https://h/w.whl''] [''numpy''])"
  by code_simp

text \<open>A run that succeeds returns no more output than its limits allow, whichever worker ran it.\<close>
theorem output_is_bounded:
  assumes "executor_run env s now req given st = (Inr x, st')"
  shows "int (length (xr_stdout x) + length (xr_stderr x)) \<le> sl_max_output_bytes (resolve_limits s given)"
proof -
  have res: "int (length (xr_stdout x) + length (xr_stderr x)) \<le> sl_max_output_bytes l"
    if "result_from_frame f l e = Inr x" for f l e
    using that by (auto simp: result_from_frame_def Let_def split: if_splits)
  show ?thesis
  proof (cases "cfg_sandbox_pool_size s > 0 \<and> cfg_code_executor s \<noteq> ''disabled''")
    case True
    then show ?thesis using assms
      by (auto simp: executor_run_def pooled_run_def Let_def dest: res split: if_splits sum.splits prod.splits)
  next
    case False
    then have "executor_run env s = wasm_run env s" unfolding executor_run_def by (rule if_not_P)
    then show ?thesis using assms
      by (auto simp: wasm_run_def Let_def dest: res split: if_splits sum.splits prod.splits option.splits)
  qed
qed

section \<open>Witnesses\<close>

definition demo_exec_request :: exec_request where
  "demo_exec_request = \<lparr>er_tenant = ''acme'', er_server = ''calc'', er_tool = ''add'', er_code = ''x'', er_requirements = [], er_arguments = [],
     er_env = [], er_action = ''read'', er_can_relay = False, er_depth = 0, er_allowed = []\<rparr>"

text \<open>A worker that makes two database calls, then answers.\<close>
definition demo_worker :: worker where
  "demo_worker rs = Line (if length rs < 2 then ''call'' else ''done'')"

definition demo_json :: "string \<Rightarrow> pyval option" where
  "demo_json l = Some (VDict (if l = ''call'' then [(''type'', VStr ''db_rpc''), (''op'', VStr ''find''), (''collection'', VStr ''orders'')]
     else [(''ok'', VBool True), (''stdout'', VStr ''hi''), (''result'', VDict [(''x'', VInt 1)])]))"

definition demo_exec_env :: exec_env where
  "demo_exec_env =
     \<lparr>xe_json = demo_json, xe_pip = (\<lambda>_. PipOk), xe_spawn = (\<lambda>_. demo_worker), xe_lines = (\<lambda>_. 5), xe_lease = True,
      xe_exit = (None, []), xe_elapsed = 7,
      xe_bridges = \<lparr>be_db = demo_db_env, be_http = demo_http_env, be_proxy = demo_proxy_env, be_decode = (\<lambda>v. v), be_encode = VDict,
        be_relay = (\<lambda>_ _ _ st. (Inl ''timeout'', st))\<rparr>\<rparr>"

definition demo_bridge_state :: bridge_state where
  "demo_bridge_state = \<lparr>bs_db = demo_db_state, bs_http = demo_http_state, bs_tool_calls = 0, bs_proxy = demo_proxy_state, bs_frames = []\<rparr>"

definition demo_exec_settings :: settings where
  "demo_exec_settings = default_settings\<lparr>cfg_sandbox_db_bridge_enabled := True\<rparr>"


lemma demo_exec_run:
  "map_sum error_kind xr_stdout (fst (executor_run demo_exec_env demo_exec_settings 0 demo_exec_request None demo_bridge_state)) = Inr ''hi''"
  by code_simp

lemma output_is_bounded_witness:
  "int (length ''hi'') \<le> sl_max_output_bytes (resolve_limits demo_exec_settings None)"
proof -
  obtain x st' where r: "executor_run demo_exec_env demo_exec_settings 0 demo_exec_request None demo_bridge_state = (Inr x, st')" "xr_stdout x = ''hi''"
    using demo_exec_run by (cases "executor_run demo_exec_env demo_exec_settings 0 demo_exec_request None demo_bridge_state"; cases "fst (executor_run demo_exec_env demo_exec_settings 0 demo_exec_request None demo_bridge_state)") auto
  show ?thesis using output_is_bounded [OF r(1)] r(2) by simp
qed

lemma runners_agree_witness:
  "snd (run_on_worker demo_json (None :: bridge_state dispatcher option) demo_worker 3 [] demo_bridge_state)
   = snd (pump_worker_frames demo_json None demo_worker 3 [] demo_bridge_state)"
proof -
  have "demo_worker rs \<noteq> Eof \<and> demo_worker rs \<noteq> Overlong" for rs by (simp add: demo_worker_def)
  from runners_agree [OF this, where json = demo_json and dsp = None and n = 3 and rs = "[]" and st = demo_bridge_state] show ?thesis by simp
qed


end
