(* ===== verification/RunGuards.thy ===== *)
theory RunGuards
  imports Settings
begin

text \<open>How many code tools run at a time (\<open>WasmExecutor._global_guard\<close>, \<open>_tenant_semaphore\<close> in \<open>services/sandbox_executor.py\<close>):
  a request first takes a slot of the whole process, then one of its tenant; a call a running tool makes of another
  takes neither.  The state is the list of requests in the order they came, each with how far it got; both
  \<open>asyncio.Semaphore\<close>s serve their waiters in that order.\<close>

section \<open>State\<close>

datatype phase = WaitGlobal | WaitTenant | InRun

text \<open>\<open>en_parent\<close>: the run whose worker waits for this one; \<open>en_depth\<close>: the request's \<open>call_depth\<close>.\<close>
record run_entry =
  en_id :: nat
  en_tenant :: string
  en_parent :: "nat option"
  en_depth :: nat
  en_phase :: phase

type_synonym guards = "run_entry list"

definition global_limit :: "settings \<Rightarrow> nat" where
  "global_limit s = nat (max 0 (cfg_sandbox_max_global_concurrency s))"

definition tenant_limit :: "settings \<Rightarrow> nat" where
  "tenant_limit s = nat (max 1 (cfg_sandbox_max_concurrency_per_tenant s))"

definition depth_limit :: "settings \<Rightarrow> nat" where
  "depth_limit s = nat (max 0 (cfg_sandbox_tool_call_max_depth s))"

definition is_nested :: "run_entry \<Rightarrow> bool" where "is_nested e = (0 < en_depth e)"

definition holds_global :: "run_entry \<Rightarrow> bool" where "holds_global e = (\<not> is_nested e \<and> en_phase e \<noteq> WaitGlobal)"

definition holds_tenant :: "string \<Rightarrow> run_entry \<Rightarrow> bool" where
  "holds_tenant tid e = (\<not> is_nested e \<and> en_tenant e = tid \<and> en_phase e = InRun)"

section \<open>Steps\<close>

text \<open>Whether the semaphore an entry waits for lets it pass.\<close>
definition may_pass :: "settings \<Rightarrow> guards \<Rightarrow> run_entry \<Rightarrow> bool" where
  "may_pass s q e =
     (case en_phase e of
        WaitGlobal \<Rightarrow> is_nested e \<or> global_limit s = 0 \<or> length (filter holds_global q) < global_limit s
      | WaitTenant \<Rightarrow> is_nested e \<or> length (filter (holds_tenant (en_tenant e)) q) < tenant_limit s
      | InRun \<Rightarrow> False)"

fun next_phase :: "phase \<Rightarrow> phase" where
  "next_phase WaitGlobal = WaitTenant"
| "next_phase _ = InRun"

fun move_first :: "(run_entry \<Rightarrow> bool) \<Rightarrow> guards \<Rightarrow> guards option" where
  "move_first P [] = None"
| "move_first P (e # q) =
     (if P e then Some (e\<lparr>en_phase := next_phase (en_phase e)\<rparr> # q) else map_option ((#) e) (move_first P q))"

fun to_go :: "phase \<Rightarrow> nat" where
  "to_go WaitGlobal = 2"
| "to_go WaitTenant = 1"
| "to_go InRun = 0"

lemma move_firstE:
  assumes "move_first P q = Some q'"
  obtains us e vs where "q = us @ e # vs" "P e" "q' = us @ e\<lparr>en_phase := next_phase (en_phase e)\<rparr> # vs"
proof -
  have "\<exists>us e vs. q = us @ e # vs \<and> P e \<and> q' = us @ e\<lparr>en_phase := next_phase (en_phase e)\<rparr> # vs"
    using assms
  proof (induction q arbitrary: q')
    case (Cons a q)
    show ?case
    proof (cases "P a")
      case True
      then show ?thesis using Cons.prems by (intro exI [of _ "[]"]) auto
    next
      case False
      then obtain q2 where q2: "move_first P q = Some q2" "q' = a # q2" using Cons.prems by auto
      then obtain us e vs where "q = us @ e # vs" "P e" "q2 = us @ e\<lparr>en_phase := next_phase (en_phase e)\<rparr> # vs"
        using Cons.IH by blast
      then show ?thesis using q2(2) by (intro exI [of _ "a # us"]) auto
    qed
  qed simp
  then show thesis using that by blast
qed

lemma move_first_None: "move_first P q = None \<longleftrightarrow> (\<forall>e \<in> set q. \<not> P e)"
  by (induction q) auto

text \<open>Everybody who may pass passes, the first in line first.\<close>
function serve_waiters :: "settings \<Rightarrow> guards \<Rightarrow> guards" where
  "serve_waiters s q = (case move_first (may_pass s q) q of None \<Rightarrow> q | Some q' \<Rightarrow> serve_waiters s q')"
  by auto
termination
proof (relation "measure (\<lambda>(s, q). sum_list (map (\<lambda>e. to_go (en_phase e)) q))")
  fix s q q'
  assume "move_first (may_pass s q) q = Some q'"
  then obtain us e vs where "q = us @ e # vs" "may_pass s q e" "q' = us @ e\<lparr>en_phase := next_phase (en_phase e)\<rparr> # vs"
    by (rule move_firstE)
  then show "((s, q'), (s, q)) \<in> measure (\<lambda>(s, q). sum_list (map (\<lambda>e. to_go (en_phase e)) q))"
    by (cases "en_phase e") (auto simp: may_pass_def)
qed simp

declare serve_waiters.simps [simp del]

text \<open>A request comes in from outside; a running tool calls another (\<open>services/proxy_registry.py\<close> refuses the call at the
  limit of depth, and a tool waits for its call's answer); a request ends or is cancelled.\<close>
datatype guard_event = Enter nat string | Relay nat nat | Leave nat

definition guard_step :: "settings \<Rightarrow> guard_event \<Rightarrow> guards \<Rightarrow> guards" where
  "guard_step s ev q =
     (case ev of
        Enter i tid \<Rightarrow>
          (if i \<in> en_id ` set q then q
           else serve_waiters s (q @ [\<lparr>en_id = i, en_tenant = tid, en_parent = None, en_depth = 0, en_phase = WaitGlobal\<rparr>]))
      | Relay i p \<Rightarrow>
          (case find (\<lambda>e. en_id e = p) q of
             Some e \<Rightarrow>
               (if i \<in> en_id ` set q \<or> en_phase e \<noteq> InRun \<or> Some p \<in> en_parent ` set q \<or> depth_limit s \<le> en_depth e then q
                else serve_waiters s (q @ [\<lparr>en_id = i, en_tenant = en_tenant e, en_parent = Some p, en_depth = Suc (en_depth e), en_phase = WaitGlobal\<rparr>]))
           | None \<Rightarrow> q)
      | Leave i \<Rightarrow> (if Some i \<in> en_parent ` set q then q else serve_waiters s (filter (\<lambda>e. en_id e \<noteq> i) q)))"

definition guard_run :: "settings \<Rightarrow> guard_event list \<Rightarrow> guards" where
  "guard_run s evs = fold (guard_step s) evs []"

definition in_run :: "guards \<Rightarrow> nat" where "in_run q = length (filter (\<lambda>e. en_phase e = InRun) q)"

definition in_run_of :: "string \<Rightarrow> guards \<Rightarrow> nat" where
  "in_run_of tid q = length (filter (\<lambda>e. en_phase e = InRun \<and> en_tenant e = tid) q)"

section \<open>Invariant\<close>

definition slots_ok :: "settings \<Rightarrow> guards \<Rightarrow> bool" where
  "slots_ok s q =
     ((0 < global_limit s \<longrightarrow> length (filter holds_global q) \<le> global_limit s)
      \<and> (\<forall>tid. length (filter (holds_tenant tid) q) \<le> tenant_limit s))"

definition hangs_on :: "run_entry \<Rightarrow> run_entry \<Rightarrow> bool" where
  "hangs_on e p = (en_parent e = Some (en_id p) \<and> en_phase p = InRun \<and> en_depth e = Suc (en_depth p) \<and> en_tenant e = en_tenant p)"

text \<open>Each relayed call hangs on one running tool of its own tenant, and no two on the same.\<close>
definition calls_ok :: "settings \<Rightarrow> guards \<Rightarrow> bool" where
  "calls_ok s q =
     (distinct (map en_id q)
      \<and> (\<forall>e \<in> set q. en_depth e \<le> depth_limit s)
      \<and> (\<forall>e \<in> set q. \<not> is_nested e \<longrightarrow> en_parent e = None)
      \<and> (\<forall>e \<in> set q. is_nested e \<longrightarrow> (\<exists>p \<in> set q. hangs_on e p))
      \<and> (\<forall>e \<in> set q. \<forall>f \<in> set q. en_parent e = en_parent f \<longrightarrow> is_nested e \<longrightarrow> en_id e = en_id f))"

definition nobody_may_pass :: "settings \<Rightarrow> guards \<Rightarrow> bool" where
  "nobody_may_pass s q = (\<forall>e \<in> set q. \<not> may_pass s q e)"

lemma calls_okD:
  assumes "calls_ok s q"
  shows "distinct (map en_id q)" and "e \<in> set q \<Longrightarrow> en_depth e \<le> depth_limit s"
    and "e \<in> set q \<Longrightarrow> \<not> is_nested e \<Longrightarrow> en_parent e = None"
    and "e \<in> set q \<Longrightarrow> is_nested e \<Longrightarrow> \<exists>p \<in> set q. hangs_on e p"
    and "e \<in> set q \<Longrightarrow> f \<in> set q \<Longrightarrow> en_parent e = en_parent f \<Longrightarrow> is_nested e \<Longrightarrow> en_id e = en_id f"
  using assms unfolding calls_ok_def by blast+

lemma slots_ok_move:
  assumes "slots_ok s (us @ e # vs)" and "may_pass s (us @ e # vs) e"
  shows "slots_ok s (us @ e\<lparr>en_phase := next_phase (en_phase e)\<rparr> # vs)"
proof (cases "is_nested e")
  case True
  then show ?thesis using assms(1) by (simp add: slots_ok_def holds_global_def holds_tenant_def is_nested_def)
next
  case False
  then show ?thesis using assms
    by (cases "en_phase e") (auto simp: slots_ok_def may_pass_def holds_global_def holds_tenant_def is_nested_def)
qed

lemma calls_ok_move:
  assumes "calls_ok s (us @ e # vs)" and "may_pass s (us @ e # vs) e"
  shows "calls_ok s (us @ e\<lparr>en_phase := next_phase (en_phase e)\<rparr> # vs)"
proof -
  let ?e = "e\<lparr>en_phase := next_phase (en_phase e)\<rparr>" and ?q = "us @ e # vs"
  have ne: "en_phase e \<noteq> InRun" using assms(2) by (auto simp: may_pass_def)
  have orig: "\<exists>y \<in> set ?q. en_id y = en_id x \<and> en_tenant y = en_tenant x \<and> en_parent y = en_parent x \<and> en_depth y = en_depth x"
    if "x \<in> set (us @ ?e # vs)" for x
    using that by auto
  have hang: "\<exists>p \<in> set (us @ ?e # vs). hangs_on x p" if nx: "is_nested x" and xin: "x \<in> set (us @ ?e # vs)" for x
  proof -
    obtain y where y: "y \<in> set ?q" "en_tenant y = en_tenant x" "en_parent y = en_parent x" "en_depth y = en_depth x"
      using orig [OF xin] by blast
    then have "is_nested y" using nx by (simp add: is_nested_def)
    then obtain p where p: "p \<in> set ?q" "hangs_on y p" using calls_okD(4) [OF assms(1) y(1)] by blast
    then have "p \<noteq> e" using ne by (auto simp: hangs_on_def)
    then have "p \<in> set (us @ ?e # vs)" using p(1) by simp
    moreover have "hangs_on x p" using p(2) y(2-4) by (simp add: hangs_on_def)
    ultimately show ?thesis by blast
  qed
  have only: "en_id x = en_id x'"
    if xs: "x \<in> set (us @ ?e # vs)" "x' \<in> set (us @ ?e # vs)" and px: "en_parent x = en_parent x'" "is_nested x" for x x'
  proof -
    obtain y y' where y: "y \<in> set ?q" "en_id y = en_id x" "en_parent y = en_parent x" "en_depth y = en_depth x"
        and y': "y' \<in> set ?q" "en_id y' = en_id x'" "en_parent y' = en_parent x'"
      using orig [OF xs(1)] orig [OF xs(2)] by blast
    have "is_nested y" "en_parent y = en_parent y'" using px y y' by (simp_all add: is_nested_def)
    then show ?thesis using calls_okD(5) [OF assms(1) y(1) y'(1)] y(2) y'(2) by simp
  qed
  have "distinct (map en_id (us @ ?e # vs)) \<and> (\<forall>x \<in> set (us @ ?e # vs). en_depth x \<le> depth_limit s)
      \<and> (\<forall>x \<in> set (us @ ?e # vs). \<not> is_nested x \<longrightarrow> en_parent x = None)"
    using assms(1) unfolding calls_ok_def is_nested_def by simp
  then show ?thesis using hang only unfolding calls_ok_def by blast
qed

lemma serve_waiters_induct:
  assumes "P q" and "\<And>us e vs. P (us @ e # vs) \<Longrightarrow> may_pass s (us @ e # vs) e \<Longrightarrow> P (us @ e\<lparr>en_phase := next_phase (en_phase e)\<rparr> # vs)"
  shows "P (serve_waiters s q)"
  using assms
proof (induction s q rule: serve_waiters.induct)
  case (1 s q)
  show ?case
  proof (cases "move_first (may_pass s q) q")
    case None
    then show ?thesis using "1.prems"(1) by (subst serve_waiters.simps) simp
  next
    case (Some q')
    then obtain us e vs where "q = us @ e # vs" "may_pass s q e" "q' = us @ e\<lparr>en_phase := next_phase (en_phase e)\<rparr> # vs"
      by (rule move_firstE)
    then have "P q'" using "1.prems" by blast
    then have "P (serve_waiters s q')" using "1.IH" [OF Some] "1.prems"(2) by blast
    then show ?thesis using Some by (subst serve_waiters.simps) simp
  qed
qed

lemma serve_waiters_done: "nobody_may_pass s (serve_waiters s q)"
proof (induction s q rule: serve_waiters.induct)
  case (1 s q)
  then show ?case by (subst serve_waiters.simps) (auto simp: nobody_may_pass_def move_first_None split: option.split)
qed

lemma serve_waiters_slots: "slots_ok s q \<Longrightarrow> slots_ok s (serve_waiters s q)"
  by (rule serve_waiters_induct) (auto intro: slots_ok_move)

lemma serve_waiters_calls: "calls_ok s q \<Longrightarrow> calls_ok s (serve_waiters s q)"
  by (rule serve_waiters_induct) (auto intro: calls_ok_move)

lemma nested_free: "calls_ok s q \<Longrightarrow> e \<in> set q \<Longrightarrow> is_nested e \<longleftrightarrow> en_parent e \<noteq> None"
  using calls_okD(3,4) by (fastforce simp: hangs_on_def)

lemma calls_ok_add:
  assumes ok: "calls_ok s q" and new: "en_id e \<notin> en_id ` set q" and depth: "en_depth e \<le> depth_limit s"
    and top: "\<not> is_nested e \<Longrightarrow> en_parent e = None"
    and sub: "is_nested e \<Longrightarrow> p \<in> set q \<and> hangs_on e p \<and> en_parent e \<notin> en_parent ` set q"
  shows "calls_ok s (q @ [e])"
proof -
  have h: "\<exists>p \<in> set (q @ [e]). hangs_on x p" if x: "is_nested x" "x \<in> set (q @ [e])" for x
  proof (cases "x = e")
    case True
    then show ?thesis using sub x(1) by auto
  next
    case False
    then have "x \<in> set q" using x(2) by simp
    then show ?thesis using calls_okD(4) [OF ok _ x(1)] by auto
  qed
  have u: "en_id x = en_id y"
    if xy: "x \<in> set (q @ [e])" "y \<in> set (q @ [e])" "en_parent x = en_parent y" "is_nested x" for x y
  proof -
    have some: "en_parent x \<noteq> None"
      using h [OF xy(4,1)] by (auto simp: hangs_on_def)
    have other: "en_parent z \<noteq> en_parent e" if "z \<in> set q" "en_parent e \<noteq> None" for z
    proof
      assume "en_parent z = en_parent e"
      then have "en_parent e \<in> en_parent ` set q" using that(1) by (metis imageI)
      then show False using sub top that(2) by blast
    qed
    show ?thesis
    proof (cases "x = e \<or> y = e")
      case True
      then show ?thesis using xy(1-3) some other by auto
    next
      case False
      then have "x \<in> set q" "y \<in> set q" using xy(1,2) by auto
      then show ?thesis using calls_okD(5) [OF ok] xy(3,4) by blast
    qed
  qed
  have "distinct (map en_id (q @ [e]))" using calls_okD(1) [OF ok] new by simp
  moreover have "\<forall>x \<in> set (q @ [e]). en_depth x \<le> depth_limit s" using calls_okD(2) [OF ok] depth by auto
  moreover have "\<forall>x \<in> set (q @ [e]). \<not> is_nested x \<longrightarrow> en_parent x = None" using calls_okD(3) [OF ok] top by auto
  ultimately show ?thesis using h u unfolding calls_ok_def by blast
qed

lemma calls_ok_drop:
  assumes ok: "calls_ok s q" and free: "Some i \<notin> en_parent ` set q"
  shows "calls_ok s (filter (\<lambda>e. en_id e \<noteq> i) q)"
proof -
  have "\<exists>p \<in> set (filter (\<lambda>e. en_id e \<noteq> i) q). hangs_on e p" if e: "e \<in> set q" "is_nested e" for e
  proof -
    obtain p where p: "p \<in> set q" "hangs_on e p" using calls_okD(4) [OF ok e] by blast
    then have "en_id p \<noteq> i" using free e(1) by (force simp: hangs_on_def)
    then show ?thesis using p by auto
  qed
  then show ?thesis using ok unfolding calls_ok_def by (simp add: distinct_map_filter)
qed

lemma filter_length_mono: "(\<And>e. P e \<Longrightarrow> R e) \<Longrightarrow> length (filter P q) \<le> length (filter R q)"
  by (induction q) auto

lemma slots_ok_drop: "slots_ok s q \<Longrightarrow> slots_ok s (filter (\<lambda>e. en_id e \<noteq> i) q)"
proof -
  have le: "length (filter P (filter (\<lambda>e. en_id e \<noteq> i) q)) \<le> length (filter P q)" for P
    by (simp only: filter_filter) (rule filter_length_mono, simp)
  then show "slots_ok s q \<Longrightarrow> slots_ok s (filter (\<lambda>e. en_id e \<noteq> i) q)"
    unfolding slots_ok_def by (meson order_trans)
qed

lemma guard_step_keeps:
  assumes "slots_ok s q" and "calls_ok s q" and "nobody_may_pass s q"
  shows "slots_ok s (guard_step s ev q) \<and> calls_ok s (guard_step s ev q) \<and> nobody_may_pass s (guard_step s ev q)"
proof -
  have fin: "slots_ok s (serve_waiters s r) \<and> calls_ok s (serve_waiters s r) \<and> nobody_may_pass s (serve_waiters s r)" if "slots_ok s r" "calls_ok s r" for r
    using that by (simp add: serve_waiters_slots serve_waiters_calls serve_waiters_done)
  have wait: "slots_ok s (q @ [e])" if "en_phase e = WaitGlobal" for e
    using assms(1) that by (simp add: slots_ok_def holds_global_def holds_tenant_def)
  show ?thesis
  proof (cases ev)
    case (Enter i tid)
    show ?thesis
    proof (cases "i \<in> en_id ` set q")
      case False
      then have "calls_ok s (q @ [\<lparr>en_id = i, en_tenant = tid, en_parent = None, en_depth = 0, en_phase = WaitGlobal\<rparr>])"
        by (intro calls_ok_add [OF assms(2)]) (simp_all add: is_nested_def)
      then show ?thesis using False fin wait by (simp add: guard_step_def Enter)
    qed (use assms in \<open>simp add: guard_step_def Enter\<close>)
  next
    case (Relay i p)
    show ?thesis
    proof (cases "find (\<lambda>e. en_id e = p) q")
      case (Some e)
      have e: "e \<in> set q" "en_id e = p" using Some by (auto simp: find_Some_iff)
      show ?thesis
      proof (cases "i \<in> en_id ` set q \<or> en_phase e \<noteq> InRun \<or> Some p \<in> en_parent ` set q \<or> depth_limit s \<le> en_depth e")
        case False
        then have "calls_ok s (q @ [\<lparr>en_id = i, en_tenant = en_tenant e, en_parent = Some p, en_depth = Suc (en_depth e), en_phase = WaitGlobal\<rparr>])"
          using e by (intro calls_ok_add [OF assms(2), of _ e]) (simp_all add: is_nested_def hangs_on_def)
        then show ?thesis using False fin wait by (simp add: guard_step_def Relay Some)
      qed (use assms in \<open>simp add: guard_step_def Relay Some\<close>)
    qed (use assms in \<open>simp add: guard_step_def Relay\<close>)
  next
    case (Leave i)
    then show ?thesis using assms fin slots_ok_drop calls_ok_drop by (simp add: guard_step_def)
  qed
qed

lemma guard_run_ok: "slots_ok s (guard_run s evs) \<and> calls_ok s (guard_run s evs) \<and> nobody_may_pass s (guard_run s evs)"
proof (induction evs rule: rev_induct)
  case Nil
  then show ?case by (simp add: guard_run_def slots_ok_def calls_ok_def nobody_may_pass_def)
next
  case (snoc ev evs)
  then show ?case using guard_step_keeps by (simp add: guard_run_def)
qed

section \<open>How many tools run at once\<close>

text \<open>The runs at one depth are no more than those at the depth above, for any property a run shares with its caller.\<close>
lemma at_depth_bounded:
  assumes ok: "calls_ok s q" and inh: "\<And>e p. e \<in> set q \<Longrightarrow> p \<in> set q \<Longrightarrow> en_tenant e = en_tenant p \<Longrightarrow> Q e \<Longrightarrow> Q p"
  shows "card {e \<in> set q. en_phase e = InRun \<and> en_depth e = d \<and> Q e} \<le> card {e \<in> set q. en_phase e = InRun \<and> en_depth e = 0 \<and> Q e}"
proof (induction d)
  case (Suc d)
  let ?at = "\<lambda>d. {e \<in> set q. en_phase e = InRun \<and> en_depth e = d \<and> Q e}"
  have "\<forall>e \<in> ?at (Suc d). \<exists>p. p \<in> set q \<and> hangs_on e p"
  proof
    fix e
    assume "e \<in> ?at (Suc d)"
    then have "e \<in> set q" "is_nested e" by (simp_all add: is_nested_def)
    then show "\<exists>p. p \<in> set q \<and> hangs_on e p" using calls_okD(4) [OF ok] by blast
  qed
  then obtain up where "\<forall>e \<in> ?at (Suc d). up e \<in> set q \<and> hangs_on e (up e)" by (rule bchoice [THEN exE])
  then have up: "up e \<in> set q" "hangs_on e (up e)" if "e \<in> ?at (Suc d)" for e using that by blast+
  have "up e \<in> ?at d" if e: "e \<in> ?at (Suc d)" for e
  proof -
    have "Q (up e)" using inh [of e "up e"] e up [OF e] by (simp add: hangs_on_def)
    then show ?thesis using e up [OF e] by (simp add: hangs_on_def)
  qed
  then have "up ` ?at (Suc d) \<subseteq> ?at d" by blast
  moreover have "inj_on up (?at (Suc d))"
  proof (rule inj_onI)
    fix e f
    assume ef: "e \<in> ?at (Suc d)" "f \<in> ?at (Suc d)" "up e = up f"
    then have "en_parent e = en_parent f" using up(2) [OF ef(1)] up(2) [OF ef(2)] by (simp add: hangs_on_def)
    then have "en_id e = en_id f" using calls_okD(5) [OF ok, of e f] ef(1,2) by (simp add: is_nested_def)
    then show "e = f" using calls_okD(1) [OF ok] ef(1,2) by (simp add: distinct_map inj_on_def)
  qed
  ultimately have "card (?at (Suc d)) \<le> card (?at d)" by (simp add: card_inj_on_le)
  then show ?case using Suc by simp
qed simp

lemma all_depths_bounded:
  assumes ok: "calls_ok s q" and inh: "\<And>e p. e \<in> set q \<Longrightarrow> p \<in> set q \<Longrightarrow> en_tenant e = en_tenant p \<Longrightarrow> Q e \<Longrightarrow> Q p"
    and top: "card {e \<in> set q. en_phase e = InRun \<and> en_depth e = 0 \<and> Q e} \<le> m"
  shows "length (filter (\<lambda>e. en_phase e = InRun \<and> Q e) q) \<le> Suc (depth_limit s) * m"
proof -
  let ?at = "\<lambda>d. {e \<in> set q. en_phase e = InRun \<and> en_depth e = d \<and> Q e}"
  have d: "distinct q" using ok unfolding calls_ok_def by (simp add: distinct_map)
  have "\<forall>e \<in> set q. en_depth e \<le> depth_limit s" using ok unfolding calls_ok_def by blast
  then have "set (filter (\<lambda>e. en_phase e = InRun \<and> Q e) q) = (\<Union>d \<in> {..depth_limit s}. ?at d)" by auto
  then have "length (filter (\<lambda>e. en_phase e = InRun \<and> Q e) q) = card (\<Union>d \<in> {..depth_limit s}. ?at d)"
    using distinct_card [of "filter (\<lambda>e. en_phase e = InRun \<and> Q e) q"] d by (simp add: distinct_filter)
  also have "\<dots> \<le> (\<Sum>d \<in> {..depth_limit s}. card (?at d))" by (rule card_UN_le) simp
  also have "\<dots> \<le> (\<Sum>d \<in> {..depth_limit s}. m)"
    by (rule sum_mono) (rule order_trans [OF at_depth_bounded [OF ok inh] top], assumption+)
  finally show ?thesis by simp
qed

text \<open>C30. However requests come, call each other and end: with a limit for the whole process, no more tools run at once than that limit
  times one more than the depth of calls, and no tenant runs more than its own limit times the same factor.\<close>
theorem running_tools_bounded:
  "(0 < global_limit s \<longrightarrow> in_run (guard_run s evs) \<le> Suc (depth_limit s) * global_limit s)
   \<and> in_run_of tid (guard_run s evs) \<le> Suc (depth_limit s) * tenant_limit s"
proof
  let ?q = "guard_run s evs"
  have ok: "slots_ok s ?q" "calls_ok s ?q" using guard_run_ok by blast+
  have d: "distinct ?q" using ok(2) unfolding calls_ok_def by (simp add: distinct_map)
  have card: "card {e \<in> set ?q. P e} = length (filter P ?q)" for P
    using distinct_card [of "filter P ?q"] d by (simp add: distinct_filter)
  show "0 < global_limit s \<longrightarrow> in_run ?q \<le> Suc (depth_limit s) * global_limit s"
  proof
    assume g: "0 < global_limit s"
    have "length (filter (\<lambda>e. en_phase e = InRun \<and> en_depth e = 0 \<and> True) ?q) \<le> length (filter holds_global ?q)"
      by (rule filter_length_mono) (simp add: holds_global_def is_nested_def)
    then have "card {e \<in> set ?q. en_phase e = InRun \<and> en_depth e = 0 \<and> True} \<le> global_limit s"
      using ok(1) g unfolding card slots_ok_def by simp
    then show "in_run ?q \<le> Suc (depth_limit s) * global_limit s"
      using all_depths_bounded [OF ok(2), where Q = "\<lambda>_. True"] by (simp add: in_run_def)
  qed
  have "length (filter (\<lambda>e. en_phase e = InRun \<and> en_depth e = 0 \<and> en_tenant e = tid) ?q) \<le> length (filter (holds_tenant tid) ?q)"
    by (rule filter_length_mono) (simp add: holds_tenant_def is_nested_def)
  then have "card {e \<in> set ?q. en_phase e = InRun \<and> en_depth e = 0 \<and> en_tenant e = tid} \<le> tenant_limit s"
    using ok(1) unfolding card slots_ok_def by (meson order_trans)
  then show "in_run_of tid ?q \<le> Suc (depth_limit s) * tenant_limit s"
    using all_depths_bounded [OF ok(2), where Q = "\<lambda>e. en_tenant e = tid"] by (simp add: in_run_of_def)
qed

text \<open>Nobody waits while what it waits for is free.\<close>
lemma nobody_waits_in_vain:
  assumes "e \<in> set (guard_run s evs)" and "en_phase e = WaitTenant"
  shows "length (filter (holds_tenant (en_tenant e)) (guard_run s evs)) = tenant_limit s"
proof -
  have "\<not> may_pass s (guard_run s evs) e" "length (filter (holds_tenant (en_tenant e)) (guard_run s evs)) \<le> tenant_limit s"
    using guard_run_ok assms(1) unfolding nobody_may_pass_def slots_ok_def by blast+
  then show ?thesis using assms(2) by (simp add: may_pass_def)
qed

section \<open>Two consequences\<close>

definition guard_settings :: settings where
  "guard_settings = default_settings\<lparr>cfg_sandbox_max_global_concurrency := 2, cfg_sandbox_max_concurrency_per_tenant := 1\<rparr>"

text \<open>The limit for the whole process is not a limit on the tools that run: with room for two, eight run.\<close>
lemma nested_runs_exceed_the_ceiling:
  "in_run (guard_run guard_settings
     [Enter 0 ''a'', Enter 1 ''b'', Relay 2 0, Relay 3 2, Relay 4 3, Relay 5 1, Relay 6 5, Relay 7 6]) = 8"
  by code_simp

text \<open>A request takes the slot of the process before it waits for its tenant: two requests of one tenant keep a second tenant out while
  one tool runs.\<close>
lemma waiting_requests_hold_slots:
  "map (\<lambda>e. (en_tenant e, en_phase e)) (guard_run guard_settings [Enter 0 ''a'', Enter 1 ''a'', Enter 2 ''b''])
   = [(''a'', InRun), (''a'', WaitTenant), (''b'', WaitGlobal)]"
  by code_simp

lemma running_tools_bounded_witness:
  "in_run (guard_run guard_settings [Enter 0 ''a'', Enter 1 ''b'', Relay 2 0]) \<le> 8
   \<and> in_run_of ''a'' (guard_run guard_settings [Enter 0 ''a'', Enter 1 ''b'', Relay 2 0]) \<le> 4"
proof -
  have l: "global_limit guard_settings = 2" "tenant_limit guard_settings = 1" "depth_limit guard_settings = 3"
    by (simp_all add: guard_settings_def global_limit_def tenant_limit_def depth_limit_def default_settings_def)
  show ?thesis using running_tools_bounded [of guard_settings "[Enter 0 ''a'', Enter 1 ''b'', Relay 2 0]" "''a''"] unfolding l by simp
qed

end
