(* ===== verification/AdminGuards.thy ===== *)
theory AdminGuards
  imports EmbedConfig
begin

text \<open>\<open>gateway/routers/admin/_common.py\<close>: the guards every admin handler starts with, beside those of \<open>EmbedConfig\<close>
  (\<open>is_platform_admin\<close>, \<open>resolve_target_tenant\<close>), and the interface the handlers share: what callers without the
  platform role must leave alone.  A handler answers with an HTTP status or a value.\<close>

section \<open>Guards\<close>

definition require_platform_admin :: "settings \<Rightarrow> admin_caller \<Rightarrow> bool" where
  "require_platform_admin s a = is_platform_admin s a"

definition require_tenant_admin :: "settings \<Rightarrow> admin_caller \<Rightarrow> bool" where
  "require_tenant_admin s a = (is_platform_admin s a \<or> ''admin'' \<in> set (ad_roles a) \<or> ''tenant-admin'' \<in> set (ad_roles a))"

text \<open>False: 403.  The second component is the cache of the flag.\<close>
definition require_tenant_writable ::
  "settings \<Rightarrow> real \<Rightarrow> admin_caller \<Rightarrow> docs \<Rightarrow> bool cache \<Rightarrow> string \<Rightarrow> bool \<times> bool cache" where
  "require_tenant_writable s now a tenants c tid =
     (if is_platform_admin s a then (True, c)
      else case get_tenant_read_only (status_cache_ttl s) now tenants c tid of (frozen, c1) \<Rightarrow> (\<not> frozen, c1))"

definition may_assign_roles :: "settings \<Rightarrow> admin_caller \<Rightarrow> string list \<Rightarrow> bool" where
  "may_assign_roles s a roles = (cfg_platform_admin_role s \<notin> set roles \<or> is_platform_admin s a)"

text \<open>\<open>set(doc.get("roles", []))\<close>.\<close>
definition has_role :: "string \<Rightarrow> doc \<Rightarrow> bool" where
  "has_role r d = (VStr r \<in> set (iter_values (vget_or d ''roles'' (VList []))))"

definition load_managed_user :: "settings \<Rightarrow> admin_caller \<Rightarrow> string \<Rightarrow> docs \<Rightarrow> nat + doc" where
  "load_managed_user s a uid users =
     (case find_one (key_query ''_id'' uid) users of
        None \<Rightarrow> Inl 404
      | Some d \<Rightarrow>
          if is_platform_admin s a then Inr d
          else if py_str (vget d ''tenant_id'') \<noteq> ad_tenant a then Inl 403
          else if has_role (cfg_platform_admin_role s) d then Inl 403
          else Inr d)"

text \<open>\<open>isoformat\<close>: \<open>datetime.fromisoformat\<close> with the time zone filled in.\<close>
definition build_time_range :: "(string \<Rightarrow> real option) \<Rightarrow> string \<Rightarrow> string \<Rightarrow> nat + qop list" where
  "build_time_range isoformat since to =
     (case (if since = [] then Some [] else map_option (\<lambda>t. [QGte (VTime t)]) (isoformat since)) of
        None \<Rightarrow> Inl 422
      | Some lo \<Rightarrow>
          (case (if to = [] then Some [] else map_option (\<lambda>t. [QLte (VTime t)]) (isoformat to)) of
             None \<Rightarrow> Inl 422
           | Some hi \<Rightarrow> Inr (lo @ hi)))"

section \<open>What a handler must leave alone\<close>

text \<open>\<open>same t w w'\<close>: nothing that is out of reach of an administrator of \<open>t\<close> differs.\<close>
locale confined_admin =
  fixes powerful :: "admin_caller \<Rightarrow> bool"
    and step :: "admin_caller \<Rightarrow> 'q \<Rightarrow> 'w \<Rightarrow> 'w"
    and same :: "string \<Rightarrow> 'w \<Rightarrow> 'w \<Rightarrow> bool"
  assumes same_refl: "same t w w"
    and same_trans: "same t w1 w2 \<Longrightarrow> same t w2 w3 \<Longrightarrow> same t w1 w3"
    and step_same: "\<not> powerful a \<Longrightarrow> same (ad_tenant a) w (step a q w)"
begin

lemma history_same:
  assumes "\<forall>(a, q)\<in>set qs. \<not> powerful a \<and> ad_tenant a = t"
  shows "same t w (fold (\<lambda>(a, q). step a q) qs w)"
  using assms
proof (induction qs arbitrary: w)
  case Nil
  then show ?case by (simp add: same_refl)
next
  case (Cons x qs)
  obtain a q where x: "x = (a, q)" by (cases x)
  have "same t w (step a q w)" using step_same [of a w q] Cons.prems x by auto
  moreover have "same t (step a q w) (fold (\<lambda>(a, q). step a q) qs (step a q w))" using Cons by auto
  ultimately show ?case using same_trans x by fastforce
qed

end

section \<open>Facts about the guards\<close>

lemma target_of_plain:
  "\<not> is_platform_admin s a \<Longrightarrow> resolve_target_tenant s a r = Some t \<Longrightarrow> t = ad_tenant a"
  by (auto simp: resolve_target_tenant_def Let_def split: if_splits)

lemma managed_by_plain:
  assumes "\<not> is_platform_admin s a" and "load_managed_user s a uid users = Inr d"
  shows "find_one (key_query ''_id'' uid) users = Some d" and "py_str (vget d ''tenant_id'') = ad_tenant a"
    and "\<not> has_role (cfg_platform_admin_role s) d"
  using assms by (auto simp: load_managed_user_def split: option.splits if_splits)

lemma find_one_in_filter:
  "find_one q ds = Some d \<Longrightarrow> \<not> P d \<Longrightarrow> \<not> P (f d) \<Longrightarrow> filter P (on_first (\<lambda>d. matches d q) f ds) = filter P ds"
  by (induction ds) (auto simp: find_one_def split: if_splits)

lemma find_one_dropped:
  "find_one q ds = Some d \<Longrightarrow> \<not> P d \<Longrightarrow> filter P (drop_first (\<lambda>d. matches d q) ds) = filter P ds"
  by (induction ds) (auto simp: find_one_def split: if_splits)

lemma in_replaced: "d \<in> set (replace_one q r True ds) \<Longrightarrow> d \<in> set ds \<or> d = r"
proof -
  have "d \<in> set (on_first p (\<lambda>_. r) ds) \<Longrightarrow> d \<in> set ds \<or> d = r" for p by (induction ds) (auto split: if_splits)
  then show "d \<in> set (replace_one q r True ds) \<Longrightarrow> d \<in> set ds \<or> d = r"
    by (auto simp: replace_one_def split: option.splits)
qed

lemma in_deleted_one: "d \<in> set (delete_one q ds) \<Longrightarrow> d \<in> set ds"
proof -
  have "d \<in> set (drop_first P ds) \<Longrightarrow> d \<in> set ds" for P by (induction ds) (auto split: if_splits)
  then show "d \<in> set (delete_one q ds) \<Longrightarrow> d \<in> set ds" unfolding delete_one_def by blast
qed

section \<open>What provisioning leaves alone\<close>

lemma provisioned_others:
  assumes "u \<noteq> t"
  shows "find_tenant (fl_tenants (snd (provision_tenant sha s now t F))) u = find_tenant (fl_tenants F) u"
proof -
  let ?q = "key_query ''tenant_id'' t" and ?u = "provision_update (tenant_db_name sha s t) now t"
  have kept: "vget (apply_update ?u d) ''tenant_id'' = VStr t" if "vget d ''tenant_id'' = VStr t" for d
    by (simp add: apply_update_def provision_update_def vget_def)
  have seed: "vget (apply_update ?u (upsert_seed ?q)) ''tenant_id'' = VStr t"
    by (simp add: apply_update_def provision_update_def key_query_def upsert_seed_def map_filter_simps vget_def)
  have "find_one (key_query ''tenant_id'' u) (on_first (\<lambda>d. matches d ?q) (apply_update ?u) ds) = find_one (key_query ''tenant_id'' u) ds" for ds
    by (rule find_one_on_first_other) (use assms kept in auto)
  then show ?thesis using assms seed
    by (auto simp: provision_tenant_def find_tenant_def update_one_def find_one_and_update_def Let_def find_one_append
        simp del: matches_key split: option.split) (simp_all)
qed

text \<open>The document of the tenant afterwards: the one it had, updated, or a fresh one.\<close>
lemma provisioned_own:
  "find_tenant (fl_tenants (snd (provision_tenant sha s now t F))) t
   = Some (apply_update (provision_update (tenant_db_name sha s t) now t)
             (case find_tenant (fl_tenants F) t of Some d \<Rightarrow> d | None \<Rightarrow> upsert_seed (key_query ''tenant_id'' t)))"
proof -
  let ?q = "key_query ''tenant_id'' t" and ?u = "provision_update (tenant_db_name sha s t) now t"
  have kept: "matches (apply_update ?u d) ?q" for d by (simp add: apply_update_def provision_update_def vget_def)
  show ?thesis
  proof (cases "find_tenant (fl_tenants F) t")
    case None
    then show ?thesis using kept
      by (simp add: provision_tenant_def find_tenant_def update_one_def find_one_and_update_def Let_def find_one_append del: matches_key)
  next
    case (Some d)
    then have "find_one ?q (on_first (\<lambda>d. matches d ?q) (apply_update ?u) (fl_tenants F)) = Some (apply_update ?u d)"
      using find_one_on_first_same [where f = "apply_update ?u"] kept unfolding find_tenant_def by blast
    then show ?thesis using Some
      by (simp add: provision_tenant_def find_tenant_def update_one_def find_one_and_update_def Let_def del: matches_key)
  qed
qed

end
