(* ===== verification/AdminUsers.thy ===== *)
theory AdminUsers
  imports AdminGuards Registration AuthMw
begin

text \<open>\<open>gateway/routers/admin/users.py\<close>: managing accounts.  The accounts and the session records mirrored from them are in the
  control database; the flag that freezes a tenant and the catalog the preset scopes are derived from are read.  The main
  result is that an administrator of one tenant reaches neither the accounts of the others nor the role of the platform.\<close>

section \<open>Requests and state\<close>

record user_fields =
  uf_email :: string
  uf_password :: string
  uf_tenant :: "string option"
  uf_roles :: "string list"
  uf_scopes :: "string list"
  uf_status :: string
  uf_label :: "string option"
  uf_client :: "string option"

record preset_fields =
  qf_email :: "string option"
  qf_tenant :: "string option"
  qf_label :: "string option"
  qf_client :: "string option"

record user_changes =
  uc_password :: "string option"
  uc_roles :: "string list option"
  uc_scopes :: "string list option"
  uc_status :: "string option"

datatype preset = DemoUser | ViewerUser | TeamUser

record accounts =
  ac_users :: docs
  ac_sessions :: docs
  ac_tenants :: docs
  ac_frozen :: "bool cache"
  ac_catalog :: "string \<Rightarrow> docs"

text \<open>\<open>ae_rand\<close>: the random part of the \<open>n\<close>-th generated address; \<open>ae_enc\<close> encodes a token.\<close>
record account_env =
  ae_kdf :: kdf
  ae_salt :: "nat list"
  ae_uuid :: string
  ae_rand :: "nat \<Rightarrow> string"
  ae_generated :: string
  ae_enc :: "doc \<Rightarrow> string \<Rightarrow> string \<Rightarrow> string"

section \<open>Handlers\<close>

definition actor_of :: "admin_caller \<Rightarrow> string option" where
  "actor_of a = (if ad_user a = [] then None else Some (ad_user a))"

text \<open>A password that cannot be hashed raises what no handler catches.\<close>
definition user_error_status :: "user_error \<Rightarrow> nat" where
  "user_error_status e = (case e of UserAlreadyExists _ \<Rightarrow> 409 | UserNotFound _ \<Rightarrow> 404 | EmailRequired \<Rightarrow> 422 | EmptyPassword \<Rightarrow> 500)"

definition create_account ::
  "account_env \<Rightarrow> real \<Rightarrow> new_user \<Rightarrow> accounts \<Rightarrow> (user_error + doc) \<times> accounts" where
  "create_account env now u w =
     (case create_user (ae_kdf env) (ae_salt env) (ae_uuid env) now u (ac_users w) of
        Inl e \<Rightarrow> (Inl e, w)
      | Inr (d, users') \<Rightarrow> (Inr d, w\<lparr>ac_users := users', ac_sessions := sync_session_context now d (ac_sessions w)\<rparr>))"

definition open_target :: "settings \<Rightarrow> real \<Rightarrow> admin_caller \<Rightarrow> string option \<Rightarrow> accounts \<Rightarrow> (nat + string) \<times> accounts" where
  "open_target s now a requested w =
     (case resolve_target_tenant s a (opt_text requested) of
        None \<Rightarrow> (Inl 403, w)
      | Some t \<Rightarrow>
          (case require_tenant_writable s now a (ac_tenants w) (ac_frozen w) t of
             (ok, c) \<Rightarrow> (if ok then Inr t else Inl 403, w\<lparr>ac_frozen := c\<rparr>)))"

definition create_user_endpoint ::
  "account_env \<Rightarrow> settings \<Rightarrow> real \<Rightarrow> admin_caller \<Rightarrow> user_fields \<Rightarrow> accounts \<Rightarrow> (nat + doc) \<times> accounts" where
  "create_user_endpoint env s now a p w =
     (case open_target s now a (uf_tenant p) w of
        (Inl c, w1) \<Rightarrow> (Inl c, w1)
      | (Inr t, w1) \<Rightarrow>
          if \<not> may_assign_roles s a (uf_roles p) then (Inl 403, w1)
          else (case create_account env now
                  \<lparr>nu_email = uf_email p, nu_password = uf_password p, nu_tenant = t, nu_roles = uf_roles p, nu_scopes = uf_scopes p,
                   nu_status = uf_status p, nu_created_by = actor_of a, nu_self_registered = False, nu_label = uf_label p,
                   nu_client = uf_client p\<rparr> w1 of
                  (Inl e, w2) \<Rightarrow> (Inl (user_error_status e), w2)
                | (Inr d, w2) \<Rightarrow> (Inr d, w2)))"

definition list_users_endpoint ::
  "settings \<Rightarrow> admin_caller \<Rightarrow> string option \<Rightarrow> accounts \<Rightarrow> nat + docs" where
  "list_users_endpoint s a requested w =
     (if is_platform_admin s a \<and> opt_text requested = [] then Inr (list_users None (ac_users w))
      else case resolve_target_tenant s a (opt_text requested) of
          None \<Rightarrow> Inl 403
        | Some t \<Rightarrow> Inr (list_users (Some t) (ac_users w)))"

definition preset_roles :: "preset \<Rightarrow> string list" where
  "preset_roles k = (case k of DemoUser \<Rightarrow> DEMO_USER_ROLES | ViewerUser \<Rightarrow> VIEWER_USER_ROLES | TeamUser \<Rightarrow> TEAM_USER_ROLES)"

definition preset_prefix :: "preset \<Rightarrow> string" where
  "preset_prefix k = (case k of DemoUser \<Rightarrow> ''demo'' | ViewerUser \<Rightarrow> ''viewer'' | TeamUser \<Rightarrow> ''team'')"

definition preset_scopes :: "preset \<Rightarrow> docs \<Rightarrow> string list" where
  "preset_scopes k catalog = (case k of TeamUser \<Rightarrow> derive_safe_scopes catalog | _ \<Rightarrow> derive_demo_scopes catalog)"

text \<open>The recommended scopes shown for a role preset.\<close>
definition preset_scopes_endpoint :: "preset \<Rightarrow> settings \<Rightarrow> admin_caller \<Rightarrow> string option \<Rightarrow> accounts \<Rightarrow> nat + string list" where
  "preset_scopes_endpoint k s a requested w =
     (case resolve_target_tenant s a (opt_text requested) of
        None \<Rightarrow> Inl 403
      | Some t \<Rightarrow> Inr (preset_scopes k (ac_catalog w t)))"

definition candidate_emails :: "account_env \<Rightarrow> string option \<Rightarrow> string \<Rightarrow> string list" where
  "candidate_emails env email prefix =
     (if strip (opt_text email) \<noteq> [] then [opt_text email]
      else map (\<lambda>i. prefix @ ''-'' @ ae_rand env i @ ''@demo.local'') [0..<5])"

fun create_preset_user_record ::
  "account_env \<Rightarrow> real \<Rightarrow> new_user \<Rightarrow> string list \<Rightarrow> accounts \<Rightarrow> (nat + doc) \<times> accounts" where
  "create_preset_user_record env now u [] w = (Inl 409, w)"
| "create_preset_user_record env now u (e # es) w =
     (case create_account env now (u\<lparr>nu_email := e\<rparr>) w of
        (Inr d, w1) \<Rightarrow> (Inr d, w1)
      | (Inl (UserAlreadyExists _), w1) \<Rightarrow> create_preset_user_record env now u es w1
      | (Inl err, w1) \<Rightarrow> (Inl (user_error_status err), w1))"

definition create_preset_user ::
  "preset \<Rightarrow> account_env \<Rightarrow> settings \<Rightarrow> real \<Rightarrow> admin_caller \<Rightarrow> preset_fields \<Rightarrow> accounts \<Rightarrow> (nat + doc \<times> string) \<times> accounts" where
  "create_preset_user k env s now a p w =
     (case open_target s now a (qf_tenant p) w of
        (Inl c, w1) \<Rightarrow> (Inl c, w1)
      | (Inr t, w1) \<Rightarrow>
          (case create_preset_user_record env now
                  \<lparr>nu_email = [], nu_password = ae_generated env, nu_tenant = t, nu_roles = preset_roles k,
                   nu_scopes = preset_scopes k (ac_catalog w1 t), nu_status = ''active'', nu_created_by = actor_of a,
                   nu_self_registered = False, nu_label = qf_label p, nu_client = qf_client p\<rparr>
                  (candidate_emails env (qf_email p) (preset_prefix k)) w1 of
             (Inl c, w2) \<Rightarrow> (Inl c, w2)
           | (Inr d, w2) \<Rightarrow> (Inr (d, ae_generated env), w2)))"

definition change_my_password ::
  "account_env \<Rightarrow> real \<Rightarrow> admin_caller \<Rightarrow> string \<Rightarrow> string \<Rightarrow> accounts \<Rightarrow> (nat + unit) \<times> accounts" where
  "change_my_password env now a old new w =
     (case find_user_by_email (ac_users w) (ad_user a) of
        None \<Rightarrow> (Inl 400, w)
      | Some d \<Rightarrow>
          if \<not> verify_password (ae_kdf env) old (VStr (text_field d ''password_hash'')) then (Inl 403, w)
          else (case update_user (ae_kdf env) (ae_salt env) now (py_str (vget d ''_id'')) (Some new) None None None (ac_users w) of
                  (Inl e, users') \<Rightarrow> (Inl 500, w\<lparr>ac_users := users'\<rparr>)
                | (Inr u, users') \<Rightarrow>
                    (Inr (), w\<lparr>ac_users := users', ac_sessions := sync_session_context now u (ac_sessions w)\<rparr>)))"

definition get_user_endpoint :: "settings \<Rightarrow> admin_caller \<Rightarrow> string \<Rightarrow> accounts \<Rightarrow> nat + doc" where
  "get_user_endpoint s a uid w = map_sum (\<lambda>c. c) public_user (load_managed_user s a uid (ac_users w))"

definition MIN_TOKEN_TTL_SECONDS :: int where "MIN_TOKEN_TTL_SECONDS = 60"
definition MAX_TOKEN_TTL_SECONDS :: int where "MAX_TOKEN_TTL_SECONDS = 30 * 24 * 60 * 60"

text \<open>\<open>minutes\<close>: the requested lifetime, if any.\<close>
definition resolve_token_ttl :: "settings \<Rightarrow> int option \<Rightarrow> int" where
  "resolve_token_ttl s minutes =
     (case minutes of
        None \<Rightarrow> cfg_admin_session_ttl_seconds s
      | Some m \<Rightarrow> max MIN_TOKEN_TTL_SECONDS (min MAX_TOKEN_TTL_SECONDS (m * 60)))"

record minted =
  mi_token :: string
  mi_expires_in :: int
  mi_tenant :: string
  mi_roles :: "string list"
  mi_scopes :: "string list"
  mi_data_plane_ok :: bool

text \<open>The caveat is left out.\<close>
definition mint_user_token ::
  "account_env \<Rightarrow> settings \<Rightarrow> real \<Rightarrow> admin_caller \<Rightarrow> string \<Rightarrow> int option \<Rightarrow> accounts \<Rightarrow> nat + minted" where
  "mint_user_token env s now a uid minutes w =
     (case load_managed_user s a uid (ac_users w) of
        Inl c \<Rightarrow> Inl c
      | Inr d \<Rightarrow>
          (let email = text_field d ''email''; raw = text_field d ''tenant_id'';
               tid = (if raw = [] then cfg_default_tenant_id s else raw);
               roles = clean_str_list (vget d ''roles''); scopes = clean_str_list (vget d ''scopes'');
               jwks = (cfg_auth_mode s = ''jwks''); ttl = resolve_token_ttl s minutes
           in Inr \<lparr>mi_token = (if jwks then mint_session (ae_enc env) s now email (Some tid) roles
                                else mint_bearer_jwt (ae_enc env) s now email tid roles scopes (Some ttl)),
                   mi_expires_in = (if jwks then cfg_admin_session_ttl_seconds s else ttl),
                   mi_tenant = tid, mi_roles = roles, mi_scopes = scopes,
                   mi_data_plane_ok = (''admin'' \<in> set roles \<or> ''tool:invoke'' \<in> set roles)\<rparr>))"

text \<open>The tenant of the account is the one that must be writable.\<close>
definition open_account_of :: "settings \<Rightarrow> real \<Rightarrow> admin_caller \<Rightarrow> string \<Rightarrow> accounts \<Rightarrow> (nat + doc) \<times> accounts" where
  "open_account_of s now a uid w =
     (case load_managed_user s a uid (ac_users w) of
        Inl c \<Rightarrow> (Inl c, w)
      | Inr d \<Rightarrow>
          (case require_tenant_writable s now a (ac_tenants w) (ac_frozen w) (py_str (vget d ''tenant_id'')) of
             (ok, c) \<Rightarrow> (if ok then Inr d else Inl 403, w\<lparr>ac_frozen := c\<rparr>)))"

definition update_user_endpoint ::
  "account_env \<Rightarrow> settings \<Rightarrow> real \<Rightarrow> admin_caller \<Rightarrow> string \<Rightarrow> user_changes \<Rightarrow> accounts \<Rightarrow> (nat + doc) \<times> accounts" where
  "update_user_endpoint env s now a uid ch w =
     (case open_account_of s now a uid w of
        (Inl c, w1) \<Rightarrow> (Inl c, w1)
      | (Inr d, w1) \<Rightarrow>
          if (case uc_roles ch of Some rs \<Rightarrow> \<not> may_assign_roles s a rs | None \<Rightarrow> False) then (Inl 403, w1)
          else (case update_user (ae_kdf env) (ae_salt env) now uid (uc_password ch) (uc_roles ch) (uc_scopes ch) (uc_status ch)
                       (ac_users w1) of
                  (Inl e, users') \<Rightarrow> (Inl (user_error_status e), w1\<lparr>ac_users := users'\<rparr>)
                | (Inr u, users') \<Rightarrow>
                    (Inr u, w1\<lparr>ac_users := users', ac_sessions := sync_session_context now u (ac_sessions w1)\<rparr>)))"

definition delete_user_endpoint ::
  "settings \<Rightarrow> real \<Rightarrow> admin_caller \<Rightarrow> string \<Rightarrow> accounts \<Rightarrow> (nat + unit) \<times> accounts" where
  "delete_user_endpoint s now a uid w =
     (case open_account_of s now a uid w of
        (Inl c, w1) \<Rightarrow> (Inl c, w1)
      | (Inr d, w1) \<Rightarrow>
          if text_field d ''email'' = ad_user a then (Inl 400, w1)
          else (case delete_user uid (ac_users w1) (ac_sessions w1) of
                  (_, users', sessions') \<Rightarrow> (Inr (), w1\<lparr>ac_users := users', ac_sessions := sessions'\<rparr>)))"

text \<open>The requests that manage accounts; each comes with the random values it draws and its time.\<close>
datatype user_request =
    CreateUser user_fields
  | CreatePreset preset preset_fields
  | UpdateUser string user_changes
  | DeleteUser string

definition user_admin_step :: "settings \<Rightarrow> admin_caller \<Rightarrow> account_env \<times> real \<times> user_request \<Rightarrow> accounts \<Rightarrow> accounts" where
  "user_admin_step s a q w =
     (case q of (env, now, r) \<Rightarrow>
        (case r of
           CreateUser p \<Rightarrow> snd (create_user_endpoint env s now a p w)
         | CreatePreset k p \<Rightarrow> snd (create_preset_user k env s now a p w)
         | UpdateUser uid ch \<Rightarrow> snd (update_user_endpoint env s now a uid ch w)
         | DeleteUser uid \<Rightarrow> snd (delete_user_endpoint s now a uid w)))"

section \<open>Out of reach\<close>

text \<open>The accounts an administrator of \<open>t\<close> must not touch: those of other tenants, and those with the role of the platform.\<close>
definition out_of_reach :: "settings \<Rightarrow> string \<Rightarrow> doc \<Rightarrow> bool" where
  "out_of_reach s t d = (py_str (vget d ''tenant_id'') \<noteq> t \<or> has_role (cfg_platform_admin_role s) d)"

definition same_accounts :: "settings \<Rightarrow> string \<Rightarrow> accounts \<Rightarrow> accounts \<Rightarrow> bool" where
  "same_accounts s t w w' =
     (filter (out_of_reach s t) (ac_users w') = filter (out_of_reach s t) (ac_users w)
      \<and> (\<forall>t' u. t' \<noteq> t \<longrightarrow> find_one (session_query t' u) (ac_sessions w') = find_one (session_query t' u) (ac_sessions w))
      \<and> ac_tenants w' = ac_tenants w \<and> ac_catalog w' = ac_catalog w)"

lemma same_accounts_refl: "same_accounts s t w w"
  by (simp add: same_accounts_def)

lemma same_accounts_trans: "same_accounts s t w1 w2 \<Longrightarrow> same_accounts s t w2 w3 \<Longrightarrow> same_accounts s t w1 w3"
  by (simp add: same_accounts_def)

lemma same_accounts_frozen: "same_accounts s t w (w\<lparr>ac_frozen := c\<rparr>)"
  by (simp add: same_accounts_def)

lemma text_of_public [simp]: "text_field (public_user d) ''tenant_id'' = text_field d ''tenant_id''"
  "text_field (public_user d) ''email'' = text_field d ''email''"
  by (simp_all add: public_user_def text_field_def vget_or_def vget_def py_str_def)

lemma created_user:
  assumes "create_user kdf salt fresh now u users = Inr (d', users')"
  shows "\<exists>d. users' = users @ [d] \<and> d' = public_user d \<and> vget d ''tenant_id'' = VStr (nu_tenant u)
     \<and> vget d ''email'' = VStr (normalize_email (nu_email u)) \<and> vget_or d ''roles'' v = VList (map VStr (nu_roles u))
     \<and> vget_or d ''status'' v = VStr (nu_status u) \<and> find_user_by_email users (nu_email u) = None \<and> normalize_email (nu_email u) \<noteq> []"
proof -
  obtain h where "hash_password kdf salt DEFAULT_ITERATIONS (nu_password u) = Some h" "normalize_email (nu_email u) \<noteq> []"
    "find_one (key_query ''email'' (normalize_email (nu_email u))) users = None"
    using assms by (auto simp: create_user_def Let_def split: if_splits option.splits)
  then show ?thesis using assms
    by (auto simp: create_user_def Let_def insert_one_def find_user_by_email_def vget_def vget_or_def)
qed

lemma create_account_same:
  assumes "nu_tenant u = t" and "cfg_platform_admin_role s \<notin> set (nu_roles u)"
  shows "same_accounts s t w (snd (create_account env now u w))"
proof (cases "create_user (ae_kdf env) (ae_salt env) (ae_uuid env) now u (ac_users w)")
  case (Inl e)
  then show ?thesis by (simp add: create_account_def same_accounts_refl)
next
  case (Inr p)
  obtain d' users' where p: "p = (d', users')" by (cases p)
  obtain d where d: "users' = ac_users w @ [d]" "d' = public_user d" "vget d ''tenant_id'' = VStr t"
    "vget_or d ''roles'' (VList []) = VList (map VStr (nu_roles u))"
    using created_user [OF Inr [unfolded p], of "VList []"] assms(1) by blast
  have "\<not> out_of_reach s t d" using d(3,4) assms(2) by (auto simp: out_of_reach_def has_role_def iter_values_def py_str_def)
  moreover have "text_field d ''tenant_id'' = t" using d(3) by (auto simp: text_field_def vget_or_def vget_def py_str_def split: option.splits)
  ultimately show ?thesis
    by (simp add: create_account_def Inr p d(1,2) same_accounts_def session_of_other)
qed

lemma updated_user:
  assumes "update_user kdf salt now uid pw roles scopes status users = (r, users')"
    and "find_one (key_query ''_id'' uid) users = Some d"
  shows "users' = users \<and> (\<forall>u. r \<noteq> Inr u) \<or> (\<exists>up. users' = on_first (\<lambda>d. matches d (key_query ''_id'' uid)) (apply_update (set_fields up)) users
     \<and> vget (apply_update (set_fields up) d) ''tenant_id'' = vget d ''tenant_id''
     \<and> text_field (apply_update (set_fields up) d) ''tenant_id'' = text_field d ''tenant_id''
     \<and> vget_or (apply_update (set_fields up) d) ''roles'' v = (case roles of Some rs \<Rightarrow> VList (map VStr rs) | None \<Rightarrow> vget_or d ''roles'' v)
     \<and> (\<forall>u. r = Inr u \<longrightarrow> u = public_user (apply_update (set_fields up) d)))"
proof -
  let ?q = "key_query ''_id'' uid"
  let ?hashed = "case pw of None \<Rightarrow> Some [] | Some p \<Rightarrow> map_option (\<lambda>h. [(''password_hash'', VStr h)]) (hash_password kdf salt DEFAULT_ITERATIONS p)"
  show ?thesis
  proof (cases ?hashed)
    case None
    then show ?thesis using assms(1) by (auto simp: update_user_def)
  next
    case (Some hs)
    then have hs: "fst ` set hs \<subseteq> {''password_hash''}" by (auto split: option.splits)
    define up where "up = [(''updated_at'', VTime now)] @ hs
                 @ (case roles of Some r \<Rightarrow> [(''roles'', VList (map VStr r))] | None \<Rightarrow> [])
                 @ (case scopes of Some r \<Rightarrow> [(''scopes'', VList (map VStr r))] | None \<Rightarrow> [])
                 @ (case status of Some st \<Rightarrow> [(''status'', VStr st)] | None \<Rightarrow> [])"
    have upd: "find_one_and_update ?q (set_fields up) False users
        = (Some (apply_update (set_fields up) d), on_first (\<lambda>d. matches d ?q) (apply_update (set_fields up)) users)"
      by (rule fou_hit) (rule assms(2))
    have found: "find_one ?q (on_first (\<lambda>d. matches d ?q) (apply_update (set_fields up)) users) = Some (apply_update (set_fields up) d)"
    proof (rule find_one_on_first_same [OF assms(2)])
      have "''_id'' \<notin> fst ` set up" using hs by (auto simp: up_def split: option.splits)
      then have "vget (apply_update (set_fields up) d) ''_id'' = vget d ''_id''" by (simp add: vget_def dget_dmerge_notin)
      then show "matches (apply_update (set_fields up) d) ?q" using find_one_SomeD [OF assms(2)] by simp
    qed
    have t: "''tenant_id'' \<notin> fst ` set up" using hs by (auto simp: up_def split: option.splits)
    have "vget_or (apply_update (set_fields up) d) ''roles'' v = (case roles of Some rs \<Rightarrow> VList (map VStr rs) | None \<Rightarrow> vget_or d ''roles'' v)"
    proof (cases roles)
      case None
      then have "''roles'' \<notin> fst ` set up" using hs by (auto simp: up_def split: option.splits)
      then show ?thesis using None by (simp add: vget_or_def dget_dmerge_notin)
    next
      case (Some rs)
      let ?pre = "[(''updated_at'', VTime now)] @ hs"
        and ?post = "(case scopes of Some r \<Rightarrow> [(''scopes'', VList (map VStr r))] | None \<Rightarrow> [])
                 @ (case status of Some st \<Rightarrow> [(''status'', VStr st)] | None \<Rightarrow> [])"
      have "up = ?pre @ (''roles'', VList (map VStr rs)) # ?post" using Some by (simp add: up_def)
      moreover have "''roles'' \<notin> fst ` set ?post" by (auto split: option.splits)
      moreover have "dmerge d (xs @ ys) = dmerge (dmerge d xs) ys" for xs ys by (simp add: dmerge_def)
      ultimately have "dget (dmerge d up) ''roles'' = Some (VList (map VStr rs))" by (simp only: dmerge_Cons) (simp add: dget_dmerge_notin)
      then show ?thesis using Some by (simp add: vget_or_def)
    qed
    moreover have "users' = on_first (\<lambda>d. matches d ?q) (apply_update (set_fields up)) users \<and> r = Inr (public_user (apply_update (set_fields up) d))"
      using assms(1) unfolding update_user_def Some option.case Let_def up_def [symmetric] update_one_def upd found
      by (simp del: apply_set_fields matches_key add: found)
    moreover have "vget (apply_update (set_fields up) d) ''tenant_id'' = vget d ''tenant_id''"
      "text_field (apply_update (set_fields up) d) ''tenant_id'' = text_field d ''tenant_id''"
      using t by (simp_all add: vget_def text_field_def vget_or_def dget_dmerge_notin)
    ultimately show ?thesis by (simp del: apply_set_fields matches_key) blast
  qed
qed

lemma own_text: "py_str (vget d f) = t \<Longrightarrow> text_field d f = t \<or> text_field d f = []"
  by (auto simp: text_field_def vget_def vget_or_def py_str_def split: option.splits)

lemma find_one_drop_other:
  "(\<And>d. matches d q \<Longrightarrow> \<not> matches d r) \<Longrightarrow> find_one r (drop_first (\<lambda>d. matches d q) ds) = find_one r ds"
  by (induction ds) auto

lemma sync_own:
  assumes "text_field user ''tenant_id'' = t \<or> text_field user ''tenant_id'' = []" and "t' \<noteq> t"
  shows "find_one (session_query t' u) (sync_session_context now user sessions) = find_one (session_query t' u) sessions"
proof (cases "text_field user ''tenant_id'' = []")
  case True
  then show ?thesis by (simp add: sync_session_context_def)
next
  case False
  then show ?thesis using assms by (intro session_of_other) auto
qed

lemma clear_own:
  assumes "tid = t \<or> tid = []" and "t' \<noteq> t"
  shows "find_one (session_query t' u) (clear_session_context tid user sessions) = find_one (session_query t' u) sessions"
proof (cases "tid = []")
  case True
  then show ?thesis by (simp add: clear_session_context_def)
next
  case False
  have "\<not> matches d (session_query t' u)" if "matches d (session_query tid user)" for d
    using that assms False by (simp add: session_query_def resolve_plain)
  then show ?thesis by (simp add: clear_session_context_def delete_one_def find_one_drop_other)
qed

lemma update_user_same:
  assumes d: "find_one (key_query ''_id'' uid) (ac_users w) = Some d" "\<not> out_of_reach s t d"
    and roles: "\<And>rs. roles = Some rs \<Longrightarrow> cfg_platform_admin_role s \<notin> set rs"
    and r: "update_user kdf salt now uid pw roles scopes status (ac_users w) = (r, users')"
  shows "same_accounts s t w (w\<lparr>ac_users := users'\<rparr>)"
    and "r = Inr u \<Longrightarrow> same_accounts s t w (w\<lparr>ac_users := users', ac_sessions := sync_session_context now u (ac_sessions w)\<rparr>)"
proof -
  have key: "filter (out_of_reach s t) users' = filter (out_of_reach s t) (ac_users w)
      \<and> (r = Inr u \<longrightarrow> text_field u ''tenant_id'' = text_field d ''tenant_id'')" for u
    using updated_user [OF r d(1), of "VList []"]
  proof (elim disjE exE, goal_cases)
    case (2 up)
    let ?d = "apply_update (set_fields up) d"
    have t: "vget ?d ''tenant_id'' = vget d ''tenant_id''" "text_field ?d ''tenant_id'' = text_field d ''tenant_id''"
      and rs: "vget_or ?d ''roles'' (VList []) = (case roles of Some rs \<Rightarrow> VList (map VStr rs) | None \<Rightarrow> vget_or d ''roles'' (VList []))"
      and users': "users' = on_first (\<lambda>d. matches d (key_query ''_id'' uid)) (apply_update (set_fields up)) (ac_users w)"
      and u: "r = Inr u \<Longrightarrow> u = public_user ?d"
      using 2 by blast+
    have "\<not> out_of_reach s t ?d"
      unfolding out_of_reach_def has_role_def t rs using d(2) roles
      by (cases roles) (auto simp: out_of_reach_def has_role_def)
    then have "filter (out_of_reach s t) users' = filter (out_of_reach s t) (ac_users w)"
      unfolding users' using find_one_in_filter [OF d(1), of "out_of_reach s t"] d(2) by blast
    moreover have "text_field u ''tenant_id'' = text_field d ''tenant_id''" if "r = Inr u" unfolding u [OF that] using t(2) by simp
    ultimately show ?case by blast
  qed simp
  show "same_accounts s t w (w\<lparr>ac_users := users'\<rparr>)" using key by (simp add: same_accounts_def)
  have own: "text_field d ''tenant_id'' = t \<or> text_field d ''tenant_id'' = []"
    by (rule own_text) (use d(2) in \<open>simp add: out_of_reach_def\<close>)
  show "r = Inr u \<Longrightarrow> same_accounts s t w (w\<lparr>ac_users := users', ac_sessions := sync_session_context now u (ac_sessions w)\<rparr>)"
    using key [of u] own sync_own [of u t] by (simp add: same_accounts_def)
qed

definition role_is_apart :: "settings \<Rightarrow> bool" where
  "role_is_apart s = (\<forall>k. cfg_platform_admin_role s \<notin> set (preset_roles k))"

lemma preset_record_same:
  assumes "nu_tenant u = t" and "cfg_platform_admin_role s \<notin> set (nu_roles u)"
  shows "same_accounts s t w (snd (create_preset_user_record env now u es w))"
proof (induction es arbitrary: w)
  case (Cons e es)
  have one: "same_accounts s t w (snd (create_account env now (u\<lparr>nu_email := e\<rparr>) w))"
    by (rule create_account_same) (simp_all add: assms)
  have "same_accounts s t w1 (snd (create_preset_user_record env now u es w1))" for w1 by (rule Cons.IH)
  then show ?case using one same_accounts_trans
    by (auto split: prod.splits sum.splits user_error.splits)
qed (simp add: same_accounts_refl)

lemma open_target_same:
  assumes "\<not> is_platform_admin s a" and "open_target s now a req w = (x, w1)"
  shows "same_accounts s (ad_tenant a) w w1" and "x = Inr t \<Longrightarrow> t = ad_tenant a"
  using assms target_of_plain [OF assms(1)]
  by (auto simp: open_target_def same_accounts_refl same_accounts_frozen split: option.splits prod.splits if_splits)

lemma open_account_same:
  assumes "\<not> is_platform_admin s a" and "open_account_of s now a uid w = (x, w1)"
  shows "same_accounts s (ad_tenant a) w w1" and "ac_users w1 = ac_users w"
    and "x = Inr d \<Longrightarrow> find_one (key_query ''_id'' uid) (ac_users w) = Some d \<and> \<not> out_of_reach s (ad_tenant a) d"
  using assms managed_by_plain [OF assms(1)]
  by (auto simp: open_account_of_def same_accounts_refl same_accounts_frozen out_of_reach_def split: sum.splits prod.splits if_splits)

lemma create_user_endpoint_same:
  assumes "\<not> is_platform_admin s a"
  shows "same_accounts s (ad_tenant a) w (snd (create_user_endpoint env s now a p w))"
proof (cases "open_target s now a (uf_tenant p) w")
  case (Pair x w1)
  note o' = open_target_same [OF assms Pair]
  show ?thesis
  proof (cases x)
    case (Inr t)
    have "cfg_platform_admin_role s \<notin> set (uf_roles p)" if "may_assign_roles s a (uf_roles p)"
      using that assms by (simp add: may_assign_roles_def)
    then show ?thesis using o' Inr create_account_same same_accounts_trans [OF o'(1)]
      by (auto simp: create_user_endpoint_def Pair split: prod.splits sum.splits) (metis (no_types, lifting) new_user.select_convs(3,4) snd_conv)+
  qed (use o' in \<open>simp add: create_user_endpoint_def Pair\<close>)
qed

lemma create_preset_user_same:
  assumes "\<not> is_platform_admin s a" and "role_is_apart s"
  shows "same_accounts s (ad_tenant a) w (snd (create_preset_user k env s now a p w))"
proof (cases "open_target s now a (qf_tenant p) w")
  case (Pair x w1)
  note o' = open_target_same [OF assms(1) Pair]
  show ?thesis
  proof (cases x)
    case (Inr t)
    let ?u = "\<lparr>nu_email = [], nu_password = ae_generated env, nu_tenant = t, nu_roles = preset_roles k,
                   nu_scopes = preset_scopes k (ac_catalog w1 t), nu_status = ''active'', nu_created_by = actor_of a,
                   nu_self_registered = False, nu_label = qf_label p, nu_client = qf_client p\<rparr>"
    have "same_accounts s (ad_tenant a) w1 (snd (create_preset_user_record env now ?u es w1))" for es
      by (rule preset_record_same) (use o'(2) [OF Inr] assms(2) in \<open>simp_all add: role_is_apart_def\<close>)
    then show ?thesis using same_accounts_trans [OF o'(1)]
      by (simp add: create_preset_user_def Pair Inr split: prod.split sum.split) (metis snd_conv)
  qed (use o' in \<open>simp add: create_preset_user_def Pair\<close>)
qed

lemma update_user_endpoint_same:
  assumes "\<not> is_platform_admin s a"
  shows "same_accounts s (ad_tenant a) w (snd (update_user_endpoint env s now a uid ch w))"
proof (cases "open_account_of s now a uid w")
  case (Pair x w1)
  note o' = open_account_same [OF assms Pair]
  show ?thesis
  proof (cases x)
    case (Inr d)
    have d: "find_one (key_query ''_id'' uid) (ac_users w1) = Some d" "\<not> out_of_reach s (ad_tenant a) d"
      using o'(2,3) Inr by auto
    show ?thesis
    proof (cases "case uc_roles ch of Some rs \<Rightarrow> \<not> may_assign_roles s a rs | None \<Rightarrow> False")
      case False
      then have rs: "cfg_platform_admin_role s \<notin> set rs" if "uc_roles ch = Some rs" for rs
        using that assms by (simp add: may_assign_roles_def)
      obtain r users' where u: "update_user (ae_kdf env) (ae_salt env) now uid (uc_password ch) (uc_roles ch) (uc_scopes ch)
          (uc_status ch) (ac_users w1) = (r, users')" by fastforce
      note k = update_user_same [OF d rs u]
      show ?thesis using k same_accounts_trans [OF o'(1)] False
        by (cases r) (simp_all add: update_user_endpoint_def Pair Inr u)
    qed (use o' in \<open>simp add: update_user_endpoint_def Pair Inr\<close>)
  qed (use o' in \<open>simp add: update_user_endpoint_def Pair\<close>)
qed

lemma delete_user_endpoint_same:
  assumes "\<not> is_platform_admin s a"
  shows "same_accounts s (ad_tenant a) w (snd (delete_user_endpoint s now a uid w))"
proof (cases "open_account_of s now a uid w")
  case (Pair x w1)
  note o' = open_account_same [OF assms Pair]
  show ?thesis
  proof (cases x)
    case (Inr d)
    have d: "find_one (key_query ''_id'' uid) (ac_users w1) = Some d" "\<not> out_of_reach s (ad_tenant a) d"
      using o'(2,3) Inr by auto
    have "text_field d ''tenant_id'' = ad_tenant a \<or> text_field d ''tenant_id'' = []"
      by (rule own_text) (use d(2) in \<open>simp add: out_of_reach_def\<close>)
    then have "same_accounts s (ad_tenant a) w1 (w1\<lparr>ac_users := delete_one (key_query ''_id'' uid) (ac_users w1),
        ac_sessions := clear_session_context (text_field d ''tenant_id'') (text_field d ''email'') (ac_sessions w1)\<rparr>)"
      using find_one_dropped [OF d(1), of "out_of_reach s (ad_tenant a)"] d(2) clear_own
      by (simp add: same_accounts_def delete_one_def del: matches_key)
    then show ?thesis using same_accounts_trans [OF o'(1)] o'(1)
      by (simp add: delete_user_endpoint_def Pair Inr delete_user_def d(1))
  qed (use o' in \<open>simp add: delete_user_endpoint_def Pair\<close>)
qed

lemma admin_step_same:
  assumes "\<not> is_platform_admin s a" and "role_is_apart s"
  shows "same_accounts s (ad_tenant a) w (user_admin_step s a q w)"
  using create_user_endpoint_same create_preset_user_same update_user_endpoint_same delete_user_endpoint_same assms
  by (simp add: user_admin_step_def split: prod.split user_request.split)

text \<open>The interface of \<open>AdminGuards\<close>, provided by account management.\<close>
interpretation accounts_admin: confined_admin
  "\<lambda>a. is_platform_admin s a \<or> \<not> role_is_apart s" "user_admin_step s" "same_accounts s" for s
  by unfold_locales (auto intro: same_accounts_refl same_accounts_trans admin_step_same)

text \<open>C37. However administrators of one tenant create, preset, change and delete accounts: the accounts of other tenants and those with
  the role of the platform stay as they are, no account gets that role, and no session record of another tenant changes.\<close>
theorem tenant_admins_manage_their_own:
  assumes "\<forall>(a, q)\<in>set qs. \<not> is_platform_admin s a \<and> ad_tenant a = t" and "role_is_apart s"
    and "w' = fold (\<lambda>(a, q). user_admin_step s a q) qs w"
  shows "filter (out_of_reach s t) (ac_users w') = filter (out_of_reach s t) (ac_users w)
     \<and> (d \<in> set (ac_users w') \<and> has_role (cfg_platform_admin_role s) d \<longrightarrow> d \<in> set (ac_users w))
     \<and> (t' \<noteq> t \<longrightarrow> find_one (session_query t' u) (ac_sessions w') = find_one (session_query t' u) (ac_sessions w))"
proof -
  have same: "same_accounts s t w w'" unfolding assms(3) by (rule accounts_admin.history_same [where s = s]) (use assms in auto)
  then have eq: "filter (out_of_reach s t) (ac_users w') = filter (out_of_reach s t) (ac_users w)" by (simp add: same_accounts_def)
  moreover have "d \<in> set (ac_users w)" if "d \<in> set (ac_users w')" "has_role (cfg_platform_admin_role s) d"
  proof -
    have "d \<in> set (filter (out_of_reach s t) (ac_users w'))" using that by (simp add: out_of_reach_def)
    then show ?thesis unfolding eq by simp
  qed
  ultimately show ?thesis using same unfolding same_accounts_def by blast
qed

text \<open>A token an administrator of a tenant mints is one for an account of that tenant without the role of the platform, and a
  requested lifetime is held between a minute and thirty days.\<close>
theorem minted_token_is_confined:
  assumes "mint_user_token env s now a uid (Some m) w = Inr k" and "\<not> is_platform_admin s a"
    and "cfg_auth_mode s \<noteq> ''jwks''"
  shows "\<exists>d. find_one (key_query ''_id'' uid) (ac_users w) = Some d \<and> py_str (vget d ''tenant_id'') = ad_tenant a
     \<and> cfg_platform_admin_role s \<notin> set (mi_roles k) \<and> mi_roles k = clean_str_list (vget d ''roles'')
     \<and> mi_token k = mint_bearer_jwt (ae_enc env) s now (text_field d ''email'') (mi_tenant k) (mi_roles k) (mi_scopes k) (Some (mi_expires_in k))
     \<and> mi_tenant k \<in> {ad_tenant a, cfg_default_tenant_id s}
     \<and> 60 \<le> mi_expires_in k \<and> mi_expires_in k \<le> 2592000"
proof -
  obtain d where d: "load_managed_user s a uid (ac_users w) = Inr d"
    using assms(1) by (auto simp: mint_user_token_def split: sum.splits)
  note m = managed_by_plain [OF assms(2) d]
  have own: "text_field d ''tenant_id'' = ad_tenant a \<or> text_field d ''tenant_id'' = []" by (rule own_text) (rule m(2))
  have k: "mi_roles k = clean_str_list (vget d ''roles'')" "mi_expires_in k = resolve_token_ttl s (Some m)"
    "mi_tenant k = (if text_field d ''tenant_id'' = [] then cfg_default_tenant_id s else text_field d ''tenant_id'')"
    "mi_token k = mint_bearer_jwt (ae_enc env) s now (text_field d ''email'') (mi_tenant k) (mi_roles k) (mi_scopes k) (Some (mi_expires_in k))"
    using assms(1,3) by (auto simp: mint_user_token_def d Let_def)
  have "cfg_platform_admin_role s \<notin> set (clean_str_list (vget d ''roles''))"
    using m(3) by (auto simp: has_role_def clean_str_list_def scope_texts_def vget_def vget_or_def map_filter_def split: option.splits pyval.splits)
  moreover have "60 \<le> mi_expires_in k \<and> mi_expires_in k \<le> 2592000"
    by (simp add: k(2) resolve_token_ttl_def MIN_TOKEN_TTL_SECONDS_def MAX_TOKEN_TTL_SECONDS_def)
  ultimately show ?thesis using m(1,2) k own by auto
qed

text \<open>An empty password raises what the handlers do not catch.\<close>
lemma empty_password_is_not_caught:
  assumes "open_target s now a (uf_tenant p) w = (Inr t, w1)" and "may_assign_roles s a (uf_roles p)"
    and "uf_password p = []" and "normalize_email (uf_email p) \<noteq> []" and "find_user_by_email (ac_users w1) (uf_email p) = None"
  shows "fst (create_user_endpoint env s now a p w) = Inl 500"
  using assms by (simp add: create_user_endpoint_def create_account_def create_user_def hash_password_def find_user_by_email_def
      user_error_status_def)

text \<open>An administrator of the default tenant who creates a disabled account under the address of the bootstrap administrator, which has
  no account, shuts that administrator out of the tool surface: the record mirrored for the address is not active.\<close>
lemma bootstrap_admin_can_be_shut_out:
  assumes "create_user_endpoint env s now a p w = (Inr d, w')" and "\<not> is_platform_admin s a" and "ad_tenant a \<noteq> []"
    and "uf_status p = ''disabled''"
  shows "not_active (find_one (session_query (ad_tenant a) (normalize_email (uf_email p))) (ac_sessions w'))"
proof -
  obtain x w1 where o': "open_target s now a (uf_tenant p) w = (x, w1)" by fastforce
  then obtain t where t: "x = Inr t" using assms(1) by (cases x) (auto simp: create_user_endpoint_def)
  then have own: "t = ad_tenant a" using open_target_same(2) [OF assms(2) o'] by simp
  let ?u = "\<lparr>nu_email = uf_email p, nu_password = uf_password p, nu_tenant = t, nu_roles = uf_roles p, nu_scopes = uf_scopes p,
                   nu_status = uf_status p, nu_created_by = actor_of a, nu_self_registered = False, nu_label = uf_label p,
                   nu_client = uf_client p\<rparr>"
  obtain users' where c: "create_user (ae_kdf env) (ae_salt env) (ae_uuid env) now ?u (ac_users w1) = Inr (d, users')"
    and w': "ac_sessions w' = sync_session_context now d (ac_sessions w1)"
    using assms(1) by (auto simp: create_user_endpoint_def o' t create_account_def split: if_splits sum.splits)
  obtain e where e: "d = public_user e" "vget e ''tenant_id'' = VStr t" "vget e ''email'' = VStr (normalize_email (uf_email p))"
    "vget_or e ''status'' (VStr ''active'') = VStr ''disabled''" "normalize_email (uf_email p) \<noteq> []"
    using created_user [OF c, of "VStr ''active''"] assms(4) by auto
  have tf: "text_field e f = v" if "vget e f = VStr v" for f v
    using that by (auto simp: text_field_def vget_def vget_or_def py_str_def split: option.splits)
  have "py_str (vget_or d ''status'' (VStr ''active'')) = ''disabled''" using e(4) by (simp add: e(1) public_user_def vget_or_def py_str_def)
  then obtain r where "find_one (session_query (ad_tenant a) (normalize_email (uf_email p))) (ac_sessions w') = Some r"
    "vget_or r ''status'' (VStr ''active'') = VStr ''disabled''"
    unfolding w' using synced_session [of d "ad_tenant a" "normalize_email (uf_email p)" "''disabled''" now "ac_sessions w1"]
      tf [OF e(2)] tf [OF e(3)] e(5) assms(3) own by (auto simp: e(1))
  then show ?thesis by (simp add: not_active_def py_str_def)
qed

section \<open>Witnesses\<close>

definition acme_admin :: admin_caller where
  "acme_admin = \<lparr>ad_user = ''ann@acme'', ad_tenant = ''acme'', ad_roles = [''admin''], ad_header_tenant = None\<rparr>"

definition demo_accounts :: accounts where
  "demo_accounts =
     \<lparr>ac_users = [[(''_id'', VStr ''u1''), (''tenant_id'', VStr ''acme''), (''email'', VStr ''bob@acme''), (''roles'', VList [VStr ''user''])],
                [(''_id'', VStr ''u2''), (''tenant_id'', VStr ''other''), (''email'', VStr ''eve@other''), (''roles'', VList [VStr ''admin''])]],
      ac_sessions = [], ac_tenants = [], ac_frozen = Map.empty, ac_catalog = (\<lambda>_. [])\<rparr>"

definition demo_account_env :: account_env where
  "demo_account_env = \<lparr>ae_kdf = demo_kdf, ae_salt = [1, 2], ae_uuid = ''u3'', ae_rand = (\<lambda>_. ''00''), ae_generated = ''pw'',
     ae_enc = (\<lambda>d k a. k)\<rparr>"

lemma demo_roles: "\<not> is_platform_admin default_settings acme_admin" "role_is_apart default_settings"
  by (auto simp: is_platform_admin_def acme_admin_def default_settings_def role_is_apart_def preset_roles_def DEMO_USER_ROLES_def
      VIEWER_USER_ROLES_def TEAM_USER_ROLES_def split: preset.split)

lemma tenant_admins_manage_their_own_witness:
  "filter (out_of_reach default_settings ''acme'') (ac_users (fold (\<lambda>(a, q). user_admin_step default_settings a q)
      [(acme_admin, demo_account_env, 0, DeleteUser ''u1''), (acme_admin, demo_account_env, 0, DeleteUser ''u2'')] demo_accounts))
   = filter (out_of_reach default_settings ''acme'') (ac_users demo_accounts)"
proof -
  have "\<forall>(a, q)\<in>set [(acme_admin, demo_account_env, 0, DeleteUser ''u1''), (acme_admin, demo_account_env, 0, DeleteUser ''u2'')].
      \<not> is_platform_admin default_settings a \<and> ad_tenant a = ''acme''"
    using demo_roles(1) by (simp add: acme_admin_def)
  from tenant_admins_manage_their_own [OF this demo_roles(2) refl] show ?thesis by blast
qed

lemma minted_token_is_confined_witness:
  "\<exists>k. mint_user_token demo_account_env default_settings 0 acme_admin ''u1'' (Some 1000000) demo_accounts = Inr k
     \<and> mi_expires_in k \<le> 2592000 \<and> ''platform-admin'' \<notin> set (mi_roles k)"
proof -
  have l: "load_managed_user default_settings acme_admin ''u1'' (ac_users demo_accounts)
      = Inr [(''_id'', VStr ''u1''), (''tenant_id'', VStr ''acme''), (''email'', VStr ''bob@acme''), (''roles'', VList [VStr ''user''])]"
    using demo_roles(1) by (simp add: load_managed_user_def demo_accounts_def acme_admin_def has_role_def default_settings_def py_str_def
        vget_def vget_or_def)
  then obtain k where k: "mint_user_token demo_account_env default_settings 0 acme_admin ''u1'' (Some 1000000) demo_accounts = Inr k"
    by (simp add: mint_user_token_def Let_def)
  have "cfg_auth_mode default_settings \<noteq> ''jwks''" "cfg_platform_admin_role default_settings = ''platform-admin''"
    by (simp_all add: default_settings_def)
  then show ?thesis using minted_token_is_confined [OF k demo_roles(1)] k by auto
qed

end
