(* ===== verification/AdminServers.thy ===== *)
theory AdminServers
  imports AdminGuards AccountTier CodeLint ProxyRegistry TenantLifecycle
begin

text \<open>\<open>gateway/routers/admin/servers.py\<close>: registering, changing, listing and removing the servers of a tenant.  A registration
  passes the guards of the caller, the caps of the account's tier and of the tool policy, the server policy with the
  egress allowlist, the check of its credentials and, for code servers, the lint, the package policy and the encryption of the
  source, before the document is stored and the server mounted.  The documents are in \<open>pw_routing\<close> of the tenant.\<close>

section \<open>Requests and state\<close>

record server_upsert =
  uq_tenant :: "string option"
  uq_server :: string
  uq_transport :: string
  uq_endpoint :: "string option"
  uq_command :: "string option"
  uq_args :: "string list"
  uq_env :: "(string \<times> string) list"
  uq_cwd :: "string option"
  uq_enabled :: bool
  uq_metadata :: doc
  uq_tools :: docs

record server_patch =
  sp_tenant :: "string option"
  sp_fields :: doc

record server_admin =
  sa_fleet :: fleet
  sa_frozen :: "bool cache"
  sa_tier :: "string cache"
  sa_policy :: "tool_policy cache"
  sa_pip :: "string list cache"
  sa_egress :: "string list cache"
  sa_proxy :: proxy_world

record server_env =
  se_urlp :: "string \<Rightarrow> url_parts"
  se_dns :: dns
  se_sha :: "string \<Rightarrow> string"
  se_parse :: parser
  se_config :: config_env
  se_proxy :: proxy_env

abbreviation tenants_of :: "server_admin \<Rightarrow> docs" where
  "tenants_of w \<equiv> fl_tenants (sa_fleet w)"

section \<open>Checks\<close>

definition tool_count :: "doc \<Rightarrow> nat" where
  "tool_count d = (case py_or (vget d ''tools'') (VList []) of VList xs \<Rightarrow> length xs | _ \<Rightarrow> 0)"

definition others_query :: "string \<Rightarrow> string \<Rightarrow> query" where
  "others_query f v = [(f, COps [QNe (VStr v)])]"

text \<open>Some: the status of the refusal.\<close>
definition check_tool_cap :: "docs \<Rightarrow> string \<Rightarrow> nat \<Rightarrow> int \<Rightarrow> nat option" where
  "check_tool_cap catalog server incoming cap =
     (if cap \<le> 0 then None
      else if int (count_documents (others_query ''server'' server) catalog) + int incoming > cap then Some 422 else None)"

definition enforce_max_tools ::
  "settings \<Rightarrow> real \<Rightarrow> string \<Rightarrow> string \<Rightarrow> nat \<Rightarrow> server_admin \<Rightarrow> nat option \<times> server_admin" where
  "enforce_max_tools s now tid server incoming w =
     (case get_tool_policy (status_cache_ttl s) now (tenants_of w) (sa_policy w) tid of
        (pol, c) \<Rightarrow> (check_tool_cap (pw_catalog (sa_proxy w) tid) server incoming (max_tools pol), w\<lparr>sa_policy := c\<rparr>))"

definition enforce_account_tier ::
  "settings \<Rightarrow> real \<Rightarrow> admin_caller \<Rightarrow> string \<Rightarrow> doc \<Rightarrow> server_admin \<Rightarrow> nat option \<times> server_admin" where
  "enforce_account_tier s now a tid d w =
     (if is_platform_admin s a then (None, w)
      else case get_tenant_tier_caps s now (tenants_of w) (sa_tier w) tid of
          (caps, c) \<Rightarrow>
            (let w1 = w\<lparr>sa_tier := c\<rparr>; server = text_field d ''server'' in
             (if allowed_transports caps \<noteq> {} \<and> py_str (py_or (vget d ''transport'') (VStr [])) \<notin> allowed_transports caps then Some 403
              else if max_servers caps > 0
                \<and> int (count_documents (others_query ''_id'' server) (pw_routing (sa_proxy w) tid)) + 1 > max_servers caps then Some 422
              else check_tool_cap (pw_catalog (sa_proxy w) tid) server (tool_count d) (cap_tools caps), w1)))"

definition resolve_auth_scheme :: "pyval \<Rightarrow> string" where
  "resolve_auth_scheme metadata =
     (let auth = (case (case metadata of VDict m \<Rightarrow> vget m ''auth'' | _ \<Rightarrow> VNone) of VDict x \<Rightarrow> x | _ \<Rightarrow> [])
      in case vget auth ''scheme'' of
           VStr raw \<Rightarrow> if strip raw = [] then ''jwt''
                       else map (\<lambda>c. if c = CHR ''-'' then CHR ''_'' else c) (lower (strip raw))
         | _ \<Rightarrow> ''jwt'')"

definition requires_secure_credential_transport :: "doc \<Rightarrow> string \<Rightarrow> bool" where
  "requires_secure_credential_transport d scheme =
     (scheme \<noteq> ''none'' \<and> py_str (py_or (vget d ''transport'') (VStr [])) \<in> {''streamable_http'', ''sse''}
      \<and> (case vget d ''endpoint'' of VStr e \<Rightarrow> startswith (lower (strip e)) ''http://'' | _ \<Rightarrow> False))"

text \<open>False: 422, here and in \<open>server_doc_ok\<close>.\<close>
definition server_auth_ok :: "settings \<Rightarrow> doc \<Rightarrow> bool" where
  "server_auth_ok s d =
     (py_str (py_or (vget d ''transport'') (VStr [])) = ''code''
      \<or> (let scheme = resolve_auth_scheme (vget d ''metadata'')
         in scheme \<in> {''jwt'', ''none''} \<and> (scheme = ''jwt'' \<longrightarrow> cfg_downstream_jwt_enabled s)
            \<and> (requires_secure_credential_transport d scheme \<longrightarrow> cfg_downstream_allow_insecure_credentials s)))"

definition server_doc_ok :: "doc \<Rightarrow> bool" where
  "server_doc_ok d =
     (let t = vget d ''transport'' in
      \<not> (t \<in> {VStr ''streamable_http'', VStr ''sse''} \<and> \<not> truthy (vget d ''endpoint''))
      \<and> \<not> (t = VStr ''stdio'' \<and> \<not> truthy (vget d ''command''))
      \<and> \<not> (t = VStr ''code'' \<and> \<not> truthy (vget d ''tools'')))"

definition apply_server_policy ::
  "server_env \<Rightarrow> settings \<Rightarrow> real \<Rightarrow> bool \<Rightarrow> doc \<Rightarrow> server_admin \<Rightarrow> (nat + doc) \<times> server_admin" where
  "apply_server_policy env s now platform d w =
     (case enforce_server_policy (se_urlp env) (se_dns env) s platform d of
        Inl e \<Rightarrow> (Inl 422, w)
      | Inr d1 \<Rightarrow>
          if py_str (py_or (vget d1 ''transport'') (VStr [])) \<in> {''streamable_http'', ''sse''}
          then (case vget d1 ''endpoint'' of
              VStr e \<Rightarrow>
                if e = [] then (Inr d1, w)
                else (case get_tenant_egress_allowlist (egress_cache_ttl s) now (tenants_of w) (sa_egress w) (doc_tenant s d1) of
                    (al, c) \<Rightarrow>
                      (case check_endpoint_allowed (se_urlp env) (se_dns env) s al None e of
                         Inl x \<Rightarrow> (Inl 422, w\<lparr>sa_egress := c\<rparr>)
                       | Inr _ \<Rightarrow> (Inr d1, w\<lparr>sa_egress := c\<rparr>)))
            | _ \<Rightarrow> (Inr d1, w))
          else (Inr d1, w))"

text \<open>One authored function: new source is linted and encrypted; a token kept from an earlier save is not.\<close>
definition prepare_tool ::
  "server_env \<Rightarrow> settings \<Rightarrow> real \<Rightarrow> docs \<Rightarrow> string \<Rightarrow> pyval \<Rightarrow> doc \<Rightarrow> string list cache \<Rightarrow> (nat + doc) \<times> string list cache" where
  "prepare_tool env s now tenants tid server tool c =
     (let tool1 = (if dget tool ''server'' = None then dput ''server'' server tool else tool); raw = vget tool1 ''raw_code'';
          coded = (case raw of
              VStr src \<Rightarrow>
                if is_encrypted_token raw then Inr tool1
                else (case lint_code_tool (se_parse env) tool1 of
                    None \<Rightarrow> Inl 500
                  | Some issues \<Rightarrow>
                      if issues \<noteq> [] then Inl 422
                      else Inr (dput ''raw_code'' (encrypt_raw_code (se_config env) s tid src) tool1))
            | _ \<Rightarrow> Inr tool1)
      in case coded of
           Inl e \<Rightarrow> (Inl e, c)
         | Inr tool2 \<Rightarrow>
             (case evaluate_tenant_requirements s now tenants c tid
                     (map py_str (iter_values (py_or (vget tool2 ''requirements'') (VList [])))) of
                (decision, c1) \<Rightarrow>
                  if decision_ok decision then (Inr (dput ''embedding'' (VList []) tool2), c1) else (Inl 422, c1)))"

fun prepare_tools ::
  "server_env \<Rightarrow> settings \<Rightarrow> real \<Rightarrow> docs \<Rightarrow> string \<Rightarrow> pyval \<Rightarrow> docs \<Rightarrow> string list cache \<Rightarrow> (nat + docs) \<times> string list cache" where
  "prepare_tools env s now tenants tid server [] c = (Inr [], c)"
| "prepare_tools env s now tenants tid server (t # ts) c =
     (case prepare_tool env s now tenants tid server t c of
        (Inl e, c1) \<Rightarrow> (Inl e, c1)
      | (Inr t1, c1) \<Rightarrow>
          (case prepare_tools env s now tenants tid server ts c1 of
             (Inl e, c2) \<Rightarrow> (Inl e, c2)
           | (Inr ts1, c2) \<Rightarrow> (Inr (t1 # ts1), c2)))"

definition prepare_code_server ::
  "server_env \<Rightarrow> settings \<Rightarrow> real \<Rightarrow> string \<Rightarrow> doc \<Rightarrow> server_admin \<Rightarrow> (nat + doc) \<times> server_admin" where
  "prepare_code_server env s now tid d w =
     (if vget d ''transport'' \<noteq> VStr ''code'' then (Inr d, w)
      else case prepare_tools env s now (tenants_of w) tid (vget d ''server'') (field_docs d ''tools'') (sa_pip w) of
          (Inl e, c) \<Rightarrow> (Inl e, w\<lparr>sa_pip := c\<rparr>)
        | (Inr ts, c) \<Rightarrow>
            (Inr (dpop ''env'' (dpop ''args'' (dpop ''command'' (dput ''cwd'' VNone (dput ''endpoint'' VNone
               (dput ''tools'' (VList (map VDict ts)) d)))))), w\<lparr>sa_pip := c\<rparr>))"

text \<open>The checks after the guards, in the order both handlers have them.\<close>
definition vet_server ::
  "server_env \<Rightarrow> settings \<Rightarrow> real \<Rightarrow> admin_caller \<Rightarrow> string \<Rightarrow> doc \<Rightarrow> server_admin \<Rightarrow> (nat + doc) \<times> server_admin" where
  "vet_server env s now a tid d w =
     (case enforce_account_tier s now a tid d w of
        (Some e, w1) \<Rightarrow> (Inl e, w1)
      | (None, w1) \<Rightarrow>
          (case enforce_max_tools s now tid (text_field d ''server'') (tool_count d) w1 of
             (Some e, w2) \<Rightarrow> (Inl e, w2)
           | (None, w2) \<Rightarrow>
               (case apply_server_policy env s now (is_platform_admin s a) d w2 of
                  (Inl e, w3) \<Rightarrow> (Inl e, w3)
                | (Inr d1, w3) \<Rightarrow>
                    if \<not> server_auth_ok s d1 then (Inl 422, w3) else prepare_code_server env s now tid d1 w3)))"

section \<open>Handlers\<close>

definition opt_val :: "string option \<Rightarrow> pyval" where
  "opt_val v = (case v of Some t \<Rightarrow> VStr t | None \<Rightarrow> VNone)"

definition to_server_doc :: "server_upsert \<Rightarrow> string \<Rightarrow> doc" where
  "to_server_doc p tid =
     [(''tenant_id'', VStr tid), (''server'', VStr (uq_server p)), (''transport'', VStr (uq_transport p)),
      (''endpoint'', opt_val (uq_endpoint p)), (''command'', opt_val (uq_command p)), (''args'', VList (map VStr (uq_args p))),
      (''env'', VDict (map (\<lambda>(k, v). (k, VStr v)) (uq_env p))), (''cwd'', opt_val (uq_cwd p)), (''enabled'', VBool (uq_enabled p)),
      (''metadata'', VDict (uq_metadata p)), (''tools'', VList (map VDict (uq_tools p))), (''_id'', VStr (uq_server p))]"

definition redact_tool :: "doc \<Rightarrow> doc" where
  "redact_tool tool =
     (let public = filter (\<lambda>kv. fst kv \<notin> {''raw_code'', ''embedding''}) tool
      in if dget tool ''raw_code'' \<noteq> None then dput ''has_raw_code'' (VBool (truthy (vget tool ''raw_code''))) public else public)"

definition public_server_doc :: "doc \<Rightarrow> doc" where
  "public_server_doc d =
     [(''tenant_id'', vget d ''tenant_id''), (''origin'', vget_or d ''origin'' (VStr ''platform'')), (''server'', vget d ''server''),
      (''transport'', vget d ''transport''), (''endpoint'', vget d ''endpoint''), (''command'', vget d ''command''),
      (''args'', vget_or d ''args'' (VList [])), (''env'', vget_or d ''env'' (VDict [])), (''cwd'', vget d ''cwd''),
      (''enabled'', VBool (truthy (vget_or d ''enabled'' (VBool True)))), (''metadata'', vget_or d ''metadata'' (VDict [])),
      (''tools'', VList (map (\<lambda>t. VDict (redact_tool t)) (field_docs d ''tools'')))]"

definition public_server_doc_with_code :: "config_env \<Rightarrow> settings \<Rightarrow> doc \<Rightarrow> doc" where
  "public_server_doc_with_code ce s d =
     (if vget d ''transport'' \<noteq> VStr ''code'' then public_server_doc d
      else dput ''tools'' (VList (map (\<lambda>t. VDict (dput ''raw_code'' (VStr (decrypt_raw_code ce s (vget t ''raw_code''))) (redact_tool t)))
             (field_docs d ''tools''))) (public_server_doc d))"

definition set_routing :: "string \<Rightarrow> docs \<Rightarrow> server_admin \<Rightarrow> server_admin" where
  "set_routing tid ds w = w\<lparr>sa_proxy := (sa_proxy w)\<lparr>pw_routing := (pw_routing (sa_proxy w))(tid := ds)\<rparr>\<rparr>"

text \<open>Mounting or unmounting after the document was stored; a mount that raises is not caught.\<close>
definition mount_stored ::
  "server_env \<Rightarrow> settings \<Rightarrow> real \<Rightarrow> string \<Rightarrow> string \<Rightarrow> bool \<Rightarrow> doc \<Rightarrow> server_admin \<Rightarrow> (nat + doc) \<times> server_admin" where
  "mount_stored env s now tid server enabled d w =
     (if enabled then
        (case mount_or_update (se_proxy env) s now d (sa_proxy w) of
           (None, pw) \<Rightarrow> (Inr (public_server_doc d), w\<lparr>sa_proxy := pw\<rparr>)
         | (Some e, pw) \<Rightarrow> (Inl 500, w\<lparr>sa_proxy := pw\<rparr>))
      else (Inr (public_server_doc d), w\<lparr>sa_proxy := unmount s server (Some tid) (sa_proxy w)\<rparr>))"

definition store_server ::
  "server_env \<Rightarrow> settings \<Rightarrow> real \<Rightarrow> string \<Rightarrow> string \<Rightarrow> doc \<Rightarrow> server_admin \<Rightarrow> (nat + doc) \<times> server_admin" where
  "store_server env s now tid server d w =
     mount_stored env s now tid server (truthy (vget_or d ''enabled'' (VBool True))) d
       (set_routing tid (replace_one (key_query ''_id'' server) d True (pw_routing (sa_proxy w) tid)) w)"

definition open_servers :: "settings \<Rightarrow> real \<Rightarrow> admin_caller \<Rightarrow> string option \<Rightarrow> server_admin \<Rightarrow> (nat + string) \<times> server_admin" where
  "open_servers s now a wanted w =
     (case resolve_target_tenant s a (opt_text wanted) of
        None \<Rightarrow> (Inl 403, w)
      | Some t \<Rightarrow>
          (case require_tenant_writable s now a (tenants_of w) (sa_frozen w) t of
             (ok, c) \<Rightarrow> (if ok then Inr t else Inl 403, w\<lparr>sa_frozen := c\<rparr>)))"

definition create_or_update_server ::
  "server_env \<Rightarrow> settings \<Rightarrow> real \<Rightarrow> admin_caller \<Rightarrow> server_upsert \<Rightarrow> server_admin \<Rightarrow> (nat + doc) \<times> server_admin" where
  "create_or_update_server env s now a p w =
     (case open_servers s now a (uq_tenant p) w of
        (Inl e, w1) \<Rightarrow> (Inl e, w1)
      | (Inr tid, w1) \<Rightarrow>
          (let w2 = w1\<lparr>sa_fleet := snd (provision_tenant (se_sha env) s now tid (sa_fleet w1))\<rparr>; d = to_server_doc p tid in
           if \<not> server_doc_ok d then (Inl 422, w2)
           else case vet_server env s now a tid d w2 of
               (Inl e, w3) \<Rightarrow> (Inl e, w3)
             | (Inr d1, w3) \<Rightarrow> store_server env s now tid (uq_server p) d1 w3))"

definition merged_doc :: "doc \<Rightarrow> doc \<Rightarrow> string \<Rightarrow> string \<Rightarrow> doc" where
  "merged_doc existing updates server tid =
     (let m = dput ''tenant_id'' (VStr tid) (dput ''_id'' (VStr server) (dput ''server'' (VStr server) (dmerge existing updates)));
          args = VList (map (\<lambda>x. VStr (py_str x)) (iter_values (py_or (vget m ''args'') (VList []))));
          env = (case py_or (vget m ''env'') (VDict []) of VDict e \<Rightarrow> VDict (map (\<lambda>(k, v). (k, VStr (py_str v))) e) | v \<Rightarrow> v)
      in dput ''origin'' (vget_or existing ''origin'' (VStr ''platform'')) (dput ''env'' env (dput ''args'' args m)))"

text \<open>\<open>query\<close>: the tenant named in the address; \<open>sp_fields\<close> holds the fields that were given, except the tenant.\<close>
definition patch_server ::
  "server_env \<Rightarrow> settings \<Rightarrow> real \<Rightarrow> admin_caller \<Rightarrow> string \<Rightarrow> server_patch \<Rightarrow> string option \<Rightarrow> server_admin \<Rightarrow> (nat + doc) \<times> server_admin" where
  "patch_server env s now a server p query w =
     (case open_servers s now a (if opt_text (sp_tenant p) \<noteq> [] then sp_tenant p else query) w of
        (Inl e, w1) \<Rightarrow> (Inl e, w1)
      | (Inr tid, w1) \<Rightarrow>
          (case find_one (key_query ''_id'' server) (pw_routing (sa_proxy w1) tid) of
             None \<Rightarrow> (Inl 404, w1)
           | Some existing \<Rightarrow>
               (let m = merged_doc existing (sp_fields p) server tid in
                if \<not> server_doc_ok m then (Inl 422, w1)
                else if vget m ''origin'' = VStr ''platform'' \<and> \<not> is_platform_admin s a then (Inl 403, w1)
                else case vet_server env s now a tid m w1 of
                    (Inl e, w2) \<Rightarrow> (Inl e, w2)
                  | (Inr d1, w2) \<Rightarrow> store_server env s now tid server d1 w2)))"

definition list_servers_endpoint :: "settings \<Rightarrow> admin_caller \<Rightarrow> string option \<Rightarrow> server_admin \<Rightarrow> nat + docs" where
  "list_servers_endpoint s a wanted w =
     (case resolve_target_tenant s a (opt_text wanted) of
        None \<Rightarrow> Inl 403
      | Some t \<Rightarrow> Inr (map public_server_doc (sort_key (\<lambda>d. text_field d ''server'') (take 10000 (pw_routing (sa_proxy w) t)))))"

definition get_server_endpoint :: "server_env \<Rightarrow> settings \<Rightarrow> admin_caller \<Rightarrow> string \<Rightarrow> string option \<Rightarrow> server_admin \<Rightarrow> nat + doc" where
  "get_server_endpoint env s a server wanted w =
     (case resolve_target_tenant s a (opt_text wanted) of
        None \<Rightarrow> Inl 403
      | Some t \<Rightarrow>
          (case find_one (key_query ''_id'' server) (pw_routing (sa_proxy w) t) of
             None \<Rightarrow> Inl 404
           | Some d \<Rightarrow> Inr (public_server_doc_with_code (se_config env) s d)))"

definition platform_owned :: "doc \<Rightarrow> bool" where
  "platform_owned d = (py_str (vget_or d ''origin'' (VStr ''platform'')) = ''platform'')"

definition delete_server ::
  "settings \<Rightarrow> real \<Rightarrow> admin_caller \<Rightarrow> string \<Rightarrow> string option \<Rightarrow> server_admin \<Rightarrow> (nat + unit) \<times> server_admin" where
  "delete_server s now a server wanted w =
     (case open_servers s now a wanted w of
        (Inl e, w1) \<Rightarrow> (Inl e, w1)
      | (Inr tid, w1) \<Rightarrow>
          (let ds = pw_routing (sa_proxy w1) tid; q = key_query ''_id'' server in
           if (case find_one q ds of Some d \<Rightarrow> platform_owned d \<and> \<not> is_platform_admin s a | None \<Rightarrow> False) then (Inl 403, w1)
           else (case delete_many q ds of
               (ds', n) \<Rightarrow>
                 (let w2 = set_routing tid ds' w1 in
                  if n = 0 then (Inl 404, w2)
                  else (Inr (), w2\<lparr>sa_proxy := unmount s server (Some tid) (sa_proxy w2)\<rparr>)))))"

definition set_server_enabled ::
  "server_env \<Rightarrow> settings \<Rightarrow> real \<Rightarrow> admin_caller \<Rightarrow> string \<Rightarrow> bool \<Rightarrow> string option \<Rightarrow> server_admin \<Rightarrow> (nat + doc) \<times> server_admin" where
  "set_server_enabled env s now a server enabled wanted w =
     (if \<not> require_tenant_admin s a then (Inl 403, w)
      else case open_servers s now a wanted w of
          (Inl e, w1) \<Rightarrow> (Inl e, w1)
        | (Inr tid, w1) \<Rightarrow>
            (let ds = pw_routing (sa_proxy w1) tid; q = key_query ''_id'' server in
             case find_one q ds of
               None \<Rightarrow> (Inl 404, w1)
             | Some d \<Rightarrow>
                 if platform_owned d \<and> \<not> is_platform_admin s a then (Inl 403, w1)
                 else mount_stored env s now tid server enabled (dput ''enabled'' (VBool enabled) d)
                        (set_routing tid (fst (update_one q (set_fields [(''enabled'', VBool enabled)]) False ds)) w1)))"

section \<open>What the checks leave alone\<close>

text \<open>The checks only read: besides caches nothing changes.\<close>
definition same_stores :: "server_admin \<Rightarrow> server_admin \<Rightarrow> bool" where
  "same_stores w w' = (sa_fleet w' = sa_fleet w \<and> sa_proxy w' = sa_proxy w)"

lemma vet_keeps_stores: "same_stores w (snd (vet_server env s now a tid d w))"
proof -
  have t: "same_stores w (snd (enforce_account_tier s now a tid d w))" for w d
    by (simp add: same_stores_def enforce_account_tier_def Let_def split: prod.split)
  have m: "same_stores w (snd (enforce_max_tools s now tid v n w))" for w v n
    by (simp add: same_stores_def enforce_max_tools_def split: prod.split)
  have p: "same_stores w (snd (apply_server_policy env s now b d w))" for w d b
    by (auto simp: same_stores_def apply_server_policy_def split: prod.split sum.split pyval.split)
  have c: "same_stores w (snd (prepare_code_server env s now tid d w))" for w d
    by (auto simp: same_stores_def prepare_code_server_def split: prod.split sum.split)
  obtain x1 w1 where e1: "enforce_account_tier s now a tid d w = (x1, w1)" by fastforce
  obtain x2 w2 where e2: "enforce_max_tools s now tid (text_field d ''server'') (tool_count d) w1 = (x2, w2)" by fastforce
  obtain x3 w3 where e3: "apply_server_policy env s now (is_platform_admin s a) d w2 = (x3, w3)" by fastforce
  show ?thesis using t [of w d] m [of w1 "text_field d ''server''" "tool_count d"] p [of w2 "is_platform_admin s a" d] c [of w3]
    by (cases x1; cases x2; cases x3) (simp_all add: vet_server_def e1 e2 e3 same_stores_def)
qed

lemma policy_passed:
  assumes "apply_server_policy env s now b d w = (Inr d1, w1)"
  shows "enforce_server_policy (se_urlp env) (se_dns env) s b d = Inr d1"
proof (cases "enforce_server_policy (se_urlp env) (se_dns env) s b d")
  case (Inl e)
  then show ?thesis using assms by (simp add: apply_server_policy_def)
next
  case (Inr d2)
  have "d1 = d2" using assms by (auto simp: apply_server_policy_def Inr split: prod.splits sum.splits pyval.splits if_splits)
  then show ?thesis by (simp add: Inr)
qed

lemma policy_result:
  assumes "apply_server_policy env s now b d w = (Inr d1, w1)"
  shows "d1 = dput ''origin'' (VStr (origin_of d b)) d"
  using policy_passed [OF assms] by (simp add: enforce_server_policy_def Let_def split: if_splits sum.splits)

lemma prepared_result:
  assumes "prepare_code_server env s now tid d w = (Inr d1, w1)" and "f \<notin> {''tools'', ''endpoint'', ''cwd'', ''command'', ''args'', ''env''}"
  shows "dget d1 f = dget d f"
  using assms by (auto simp: prepare_code_server_def split: prod.splits sum.splits if_splits)

lemma vet_serverE:
  assumes "vet_server env s now a tid d w = (Inr d1, w1)"
  obtains w2 w3 w4 d2 where "enforce_account_tier s now a tid d w = (None, w2)"
    and "enforce_max_tools s now tid (text_field d ''server'') (tool_count d) w2 = (None, w3)"
    and "apply_server_policy env s now (is_platform_admin s a) d w3 = (Inr d2, w4)" and "server_auth_ok s d2"
    and "prepare_code_server env s now tid d2 w4 = (Inr d1, w1)"
proof -
  obtain x2 w2 where e1: "enforce_account_tier s now a tid d w = (x2, w2)" by fastforce
  obtain x3 w3 where e2: "enforce_max_tools s now tid (text_field d ''server'') (tool_count d) w2 = (x3, w3)" by fastforce
  obtain x4 w4 where e3: "apply_server_policy env s now (is_platform_admin s a) d w3 = (x4, w4)" by fastforce
  note v = assms [unfolded vet_server_def e1]
  have x2: "x2 = None" using v by (cases x2) simp_all
  have x3: "x3 = None" using v unfolding x2 by (cases x3) (simp_all add: e2)
  obtain d2 where x4: "x4 = Inr d2" using v unfolding x2 by (cases x4) (simp_all add: e2 x3 e3)
  have "server_auth_ok s d2 \<and> prepare_code_server env s now tid d2 w4 = (Inr d1, w1)"
    using v unfolding x2 by (simp add: e2 x3 e3 x4 split: if_splits)
  then show thesis using that e1 e2 e3 x2 x3 x4 by blast
qed

lemma vet_result:
  assumes "vet_server env s now a tid d w = (Inr d1, w1)"
  shows "vget d1 ''origin'' = VStr (origin_of d (is_platform_admin s a))"
    and "f \<notin> {''origin'', ''tools'', ''endpoint'', ''cwd'', ''command'', ''args'', ''env''} \<Longrightarrow> dget d1 f = dget d f"
proof -
  from assms obtain w3 w4 d2 where p: "apply_server_policy env s now (is_platform_admin s a) d w3 = (Inr d2, w4)"
    and c: "prepare_code_server env s now tid d2 w4 = (Inr d1, w1)"
    by (rule vet_serverE)
  show "vget d1 ''origin'' = VStr (origin_of d (is_platform_admin s a))"
    using policy_result [OF p] prepared_result [OF c, of "''origin''"] by (simp add: vget_def)
  show "f \<notin> {''origin'', ''tools'', ''endpoint'', ''cwd'', ''command'', ''args'', ''env''} \<Longrightarrow> dget d1 f = dget d f"
    using policy_result [OF p] prepared_result [OF c, of f] by auto
qed

section \<open>Out of reach\<close>

definition routing_ok :: "server_admin \<Rightarrow> bool" where
  "routing_ok w = (\<forall>t. \<forall>d\<in>set (pw_routing (sa_proxy w) t). vget d ''tenant_id'' = VStr t)"

text \<open>The stored servers, the catalog, the mounted servers, the secrets and the record of every tenant but \<open>t\<close>.\<close>
definition same_tenants :: "string \<Rightarrow> server_admin \<Rightarrow> server_admin \<Rightarrow> bool" where
  "same_tenants t w w' =
     (\<forall>t'. t' \<noteq> t \<longrightarrow> pw_routing (sa_proxy w') t' = pw_routing (sa_proxy w) t' \<and> pw_catalog (sa_proxy w') t' = pw_catalog (sa_proxy w) t'
        \<and> pw_secrets (sa_proxy w') t' = pw_secrets (sa_proxy w) t' \<and> find_tenant (tenants_of w') t' = find_tenant (tenants_of w) t'
        \<and> (\<forall>n. dget (pw_servers (sa_proxy w')) (t', n) = dget (pw_servers (sa_proxy w)) (t', n)))"

definition confined_to :: "string \<Rightarrow> server_admin \<Rightarrow> server_admin \<Rightarrow> bool" where
  "confined_to t w w' = (routing_ok w \<longrightarrow> routing_ok w' \<and> same_tenants t w w')"

lemma confined_refl: "confined_to t w w"
  by (simp add: confined_to_def same_tenants_def)

lemma confined_trans: "confined_to t w1 w2 \<Longrightarrow> confined_to t w2 w3 \<Longrightarrow> confined_to t w1 w3"
  by (simp add: confined_to_def same_tenants_def)

lemma confined_caches: "same_stores w w' \<Longrightarrow> confined_to t w w'"
  by (simp add: confined_to_def same_tenants_def same_stores_def routing_ok_def)

lemma confined_routing:
  "(\<And>d. routing_ok w \<Longrightarrow> d \<in> set ds \<Longrightarrow> d \<in> set (pw_routing (sa_proxy w) t) \<or> vget d ''tenant_id'' = VStr t) \<Longrightarrow> confined_to t w (set_routing t ds w)"
  by (auto simp: confined_to_def same_tenants_def set_routing_def routing_ok_def)

lemma confined_unmount: "t \<noteq> [] \<Longrightarrow> confined_to t w (w\<lparr>sa_proxy := unmount s server (Some t) (sa_proxy w)\<rparr>)"
  by (auto simp: confined_to_def same_tenants_def routing_ok_def unmount_def resolve_tenant_def Let_def)

lemma confined_mount:
  assumes "vget d ''tenant_id'' = VStr t" and "t \<noteq> []"
  shows "confined_to t w (w\<lparr>sa_proxy := snd (mount_or_update env s now d (sa_proxy w))\<rparr>)"
proof -
  have "doc_tenant s d = t" using assms by (simp add: doc_tenant_def py_or_def truthy_def py_str_def)
  then show ?thesis
    by (auto simp: confined_to_def same_tenants_def routing_ok_def mount_or_update_def sync_tool_catalog_def Let_def server_of_doc_def
        split: sum.split)
qed

lemma confined_stored:
  assumes "vget d ''tenant_id'' = VStr t" and "t \<noteq> []"
  shows "confined_to t w (snd (mount_stored env s now t server enabled d w))"
proof (cases enabled)
  case True
  then show ?thesis using confined_mount [OF assms, of w "se_proxy env" s now]
    by (cases "mount_or_update (se_proxy env) s now d (sa_proxy w)"; cases "fst (mount_or_update (se_proxy env) s now d (sa_proxy w))")
      (simp_all add: mount_stored_def)
next
  case False
  then show ?thesis using confined_unmount [OF assms(2)] by (simp add: mount_stored_def)
qed

lemma confined_store:
  assumes "vget d ''tenant_id'' = VStr t" and "t \<noteq> []"
  shows "confined_to t w (snd (store_server env s now t server d w))"
proof -
  have "confined_to t w (set_routing t (replace_one (key_query ''_id'' server) d True (pw_routing (sa_proxy w) t)) w)"
    by (rule confined_routing) (use in_replaced assms(1) in blast)
  then show ?thesis unfolding store_server_def using confined_stored [OF assms] confined_trans by blast
qed

lemma confined_open:
  assumes "\<not> is_platform_admin s a" and "open_servers s now a wanted w = (x, w1)"
  shows "same_stores w w1" and "x = Inr t \<Longrightarrow> t = ad_tenant a"
  using assms target_of_plain [OF assms(1)]
  by (auto simp: open_servers_def same_stores_def split: option.splits prod.splits if_splits)

lemma confined_provision: "confined_to t w (w\<lparr>sa_fleet := snd (provision_tenant sha s now t (sa_fleet w))\<rparr>)"
  by (simp add: confined_to_def same_tenants_def routing_ok_def provisioned_others)

section \<open>Every handler keeps to its tenant\<close>

lemma vetted_tenant:
  assumes "vet_server env s now a tid d w = (Inr d1, w1)" and "vget d ''tenant_id'' = VStr tid"
  shows "vget d1 ''tenant_id'' = VStr tid"
  using vet_result(2) [OF assms(1), of "''tenant_id''"] assms(2) by (simp add: vget_def)

text \<open>Checking and storing, as the two handlers that save a document do it.\<close>
lemma confined_saved:
  assumes "vget d ''tenant_id'' = VStr t" and "t \<noteq> []"
  shows "confined_to t w (snd (case vet_server env s now a t d w of
           (Inl e, w3) \<Rightarrow> (Inl e, w3) | (Inr d1, w3) \<Rightarrow> store_server env s now t server d1 w3))"
proof -
  obtain x w3 where v: "vet_server env s now a t d w = (x, w3)" by fastforce
  have k: "confined_to t w w3" using confined_caches [OF vet_keeps_stores [of w env s now a t d]] by (simp add: v)
  show ?thesis
  proof (cases x)
    case (Inr d1)
    show ?thesis using confined_trans [OF k confined_store [OF vetted_tenant [OF v [unfolded Inr] assms(1)] assms(2)]]
      by (simp add: v Inr)
  qed (simp add: v k)
qed

lemma confined_upsert:
  assumes "\<not> is_platform_admin s a" and "ad_tenant a \<noteq> []"
  shows "confined_to (ad_tenant a) w (snd (create_or_update_server env s now a p w))"
proof -
  obtain x w1 where o': "open_servers s now a (uq_tenant p) w = (x, w1)" by fastforce
  note o1 = confined_open(1) [OF assms(1) o'] and o2 = confined_open(2) [OF assms(1) o']
  show ?thesis
  proof (cases x)
    case (Inl e)
    then show ?thesis using confined_caches [OF o1] by (simp add: create_or_update_server_def o')
  next
    case (Inr t)
    let ?w2 = "w1\<lparr>sa_fleet := snd (provision_tenant (se_sha env) s now t (sa_fleet w1))\<rparr>"
    have "confined_to t w ?w2" by (rule confined_trans [OF confined_caches [OF o1] confined_provision])
    moreover have "vget (to_server_doc p t) ''tenant_id'' = VStr t" by (simp add: to_server_doc_def vget_def)
    moreover have "t = ad_tenant a" using o2 Inr by simp
    ultimately show ?thesis
      using confined_trans [OF _ confined_saved] assms(2)
      by (simp add: create_or_update_server_def o' Inr Let_def)
  qed
qed

lemma confined_patch:
  assumes "\<not> is_platform_admin s a" and "ad_tenant a \<noteq> []"
  shows "confined_to (ad_tenant a) w (snd (patch_server env s now a server p query w))"
proof -
  obtain x w1 where o': "open_servers s now a (if opt_text (sp_tenant p) \<noteq> [] then sp_tenant p else query) w = (x, w1)" by fastforce
  note o1 = confined_caches [OF confined_open(1) [OF assms(1) o']] and o2 = confined_open(2) [OF assms(1) o']
  show ?thesis
  proof (cases x)
    case (Inl e)
    then show ?thesis using o1 by (simp add: patch_server_def o')
  next
    case (Inr t)
    have t: "t = ad_tenant a" using o2 Inr by simp
    show ?thesis
    proof (cases "find_one (key_query ''_id'' server) (pw_routing (sa_proxy w1) t)")
      case None
      then show ?thesis using o1 by (simp add: patch_server_def o' Inr)
    next
      case (Some existing)
      let ?m = "merged_doc existing (sp_fields p) server t"
      have m: "vget ?m ''tenant_id'' = VStr t" by (simp add: merged_doc_def Let_def vget_def)
      have "confined_to t w (snd (case vet_server env s now a t ?m w1 of
              (Inl e, w3) \<Rightarrow> (Inl e, w3) | (Inr d1, w3) \<Rightarrow> store_server env s now t server d1 w3))"
        using confined_trans [OF o1 [of t] confined_saved [OF m]] t assms(2) by blast
      then have "confined_to t w (snd (patch_server env s now a server p query w))" using o1 [of t]
        by (simp add: patch_server_def o' Inr Some Let_def del: matches_key)
      then show ?thesis by (simp add: t)
    qed
  qed
qed

lemma confined_delete:
  assumes "\<not> is_platform_admin s a" and "ad_tenant a \<noteq> []"
  shows "confined_to (ad_tenant a) w (snd (delete_server s now a server wanted w))"
proof -
  obtain x w1 where o': "open_servers s now a wanted w = (x, w1)" by fastforce
  note o1 = confined_caches [OF confined_open(1) [OF assms(1) o']] and o2 = confined_open(2) [OF assms(1) o']
  show ?thesis
  proof (cases x)
    case (Inl e)
    then show ?thesis using o1 by (simp add: delete_server_def o')
  next
    case (Inr t)
    have t: "t = ad_tenant a" using o2 Inr by simp
    let ?q = "key_query ''_id'' server" and ?ds = "pw_routing (sa_proxy w1) t"
    obtain ds' n where dm: "delete_many ?q ?ds = (ds', n)" by fastforce
    have sub: "set ds' \<subseteq> set ?ds" using dm by (auto simp: delete_many_def Let_def simp del: matches_key)
    have d: "confined_to t w (set_routing t ds' w1)"
      by (rule confined_trans [OF o1 confined_routing]) (use sub in blast)
    have u: "confined_to t w (set_routing t ds' w1\<lparr>sa_proxy := unmount s server (Some t) (sa_proxy (set_routing t ds' w1))\<rparr>)"
      by (rule confined_trans [OF d confined_unmount]) (use t assms(2) in simp)
    have "confined_to t w (snd (delete_server s now a server wanted w))"
      using o1 [of t] d u by (simp add: delete_server_def o' Inr Let_def dm del: matches_key)
    then show ?thesis by (simp add: t)
  qed
qed

lemma confined_toggle:
  assumes "\<not> is_platform_admin s a" and "ad_tenant a \<noteq> []"
  shows "confined_to (ad_tenant a) w (snd (set_server_enabled env s now a server enabled wanted w))"
proof -
  obtain x w1 where o': "open_servers s now a wanted w = (x, w1)" by fastforce
  note o1 = confined_caches [OF confined_open(1) [OF assms(1) o']] and o2 = confined_open(2) [OF assms(1) o']
  show ?thesis
  proof (cases "\<exists>t d. require_tenant_admin s a \<and> x = Inr t \<and> find_one (key_query ''_id'' server) (pw_routing (sa_proxy w1) t) = Some d
      \<and> \<not> platform_owned d")
    case False
    then show ?thesis using o1 assms(1) confined_refl
      by (cases x) (auto simp: set_server_enabled_def o' Let_def simp del: matches_key split: option.split)
  next
    case True
    then obtain t d where x: "require_tenant_admin s a" "x = Inr t" and f: "find_one (key_query ''_id'' server) (pw_routing (sa_proxy w1) t) = Some d"
      and p: "\<not> platform_owned d" by blast
    have t: "t = ad_tenant a" using o2 x by simp
    let ?q = "key_query ''_id'' server" and ?ds = "pw_routing (sa_proxy w1) t" and ?up = "set_fields [(''enabled'', VBool enabled)]"
    let ?w2 = "set_routing t (fst (update_one ?q ?up False ?ds)) w1"
    have upd: "vget (apply_update ?up e) ''tenant_id'' = vget e ''tenant_id''" for e by (simp add: vget_def)
    have mem: "e \<in> set (on_first P (apply_update ?up) ds) \<Longrightarrow> e \<in> set ds \<or> (\<exists>e'\<in>set ds. e = apply_update ?up e')" for e P ds
      by (induction ds) (auto split: if_splits)
    have "e \<in> set ?ds \<or> vget e ''tenant_id'' = VStr t" if "routing_ok w1" "e \<in> set (fst (update_one ?q ?up False ?ds))" for e
    proof -
      have "e \<in> set ?ds \<or> (\<exists>e'\<in>set ?ds. e = apply_update ?up e')"
        using that(2) mem by (auto simp: update_one_def find_one_and_update_def simp del: matches_key apply_set_fields split: option.splits)
      then show ?thesis using upd that(1) unfolding routing_ok_def by auto
    qed
    then have d: "confined_to t w1 ?w2" by (rule confined_routing)
    let ?r = "mount_stored env s now t server enabled (dput ''enabled'' (VBool enabled) d) ?w2"
    have m: "confined_to t w1 (snd ?r)"
    proof (cases "routing_ok w1")
      case True
      have "d \<in> set ?ds" using f by (auto simp: find_one_def find_Some_iff)
      then have "vget (dput ''enabled'' (VBool enabled) d) ''tenant_id'' = VStr t" using True by (simp add: routing_ok_def vget_def)
      then show ?thesis using confined_trans [OF d confined_stored] t assms(2) by blast
    qed (simp add: confined_to_def)
    show ?thesis using confined_trans [OF o1 m] x f p t
      by (simp add: set_server_enabled_def o' Let_def)
  qed
qed


section \<open>The interface, provided by server management\<close>

datatype server_request =
    UpsertServer server_upsert
  | PatchServer string server_patch "string option"
  | DeleteServer string "string option"
  | EnableServer string bool "string option"

definition server_admin_step :: "settings \<Rightarrow> admin_caller \<Rightarrow> server_env \<times> real \<times> server_request \<Rightarrow> server_admin \<Rightarrow> server_admin" where
  "server_admin_step s a q w =
     (case q of (env, now, r) \<Rightarrow>
        (case r of
           UpsertServer p \<Rightarrow> snd (create_or_update_server env s now a p w)
         | PatchServer server p t \<Rightarrow> snd (patch_server env s now a server p t w)
         | DeleteServer server t \<Rightarrow> snd (delete_server s now a server t w)
         | EnableServer server on t \<Rightarrow> snd (set_server_enabled env s now a server on t w)))"

interpretation servers_admin: confined_admin
  "\<lambda>a. is_platform_admin s a \<or> ad_tenant a = []" "server_admin_step s" confined_to for s
  by unfold_locales (auto intro: confined_refl confined_trans confined_upsert confined_patch confined_delete confined_toggle
      simp: server_admin_step_def split: server_request.split)

text \<open>C38. However administrators of one tenant register, change, remove, enable and disable servers: the stored and the mounted servers,
  the catalog, the secrets and the record of every other tenant stay as they are, so a lookup of another tenant's server gives what
  it gave; and every stored document still names the tenant it is stored for.\<close>
theorem tenant_admins_register_their_own:
  assumes "\<forall>(a, q)\<in>set qs. \<not> is_platform_admin s a \<and> ad_tenant a = t" and "t \<noteq> []" and "routing_ok w"
    and "w' = fold (\<lambda>(a, q). server_admin_step s a q) qs w" and "u \<noteq> t" and "u \<noteq> []"
  shows "routing_ok w' \<and> pw_routing (sa_proxy w') u = pw_routing (sa_proxy w) u \<and> pw_catalog (sa_proxy w') u = pw_catalog (sa_proxy w) u
     \<and> pw_secrets (sa_proxy w') u = pw_secrets (sa_proxy w) u \<and> find_tenant (tenants_of w') u = find_tenant (tenants_of w) u
     \<and> get_server s (sa_proxy w') server (Some u) = get_server s (sa_proxy w) server (Some u)"
proof -
  have "confined_to t w w'" unfolding assms(4)
    by (rule servers_admin.history_same [where s = s]) (use assms(1,2) in auto)
  then show ?thesis using assms(3,5,6) by (simp add: confined_to_def same_tenants_def get_server_def resolve_tenant_def)
qed

section \<open>What a registration has passed\<close>

lemma mount_stored_routing:
  assumes "mount_stored env s now tid server enabled d w = (Inr r, w')"
  shows "r = public_server_doc d" and "pw_routing (sa_proxy w') = pw_routing (sa_proxy w)" and "sa_fleet w' = sa_fleet w"
  using assms by (auto simp: mount_stored_def mount_or_update_def unmount_def sync_tool_catalog_def Let_def
      split: if_splits prod.splits option.splits sum.splits)

lemma store_finds:
  assumes "store_server env s now tid server d w = (Inr r, w')" and "vget d ''_id'' = VStr server"
  shows "r = public_server_doc d" and "find_one (key_query ''_id'' server) (pw_routing (sa_proxy w') tid) = Some d"
    and "sa_fleet w' = sa_fleet w"
proof -
  let ?q = "key_query ''_id'' server" and ?ds = "pw_routing (sa_proxy w) tid"
  have m: "matches d ?q" using assms(2) by simp
  have "find_one ?q (replace_one ?q d True ?ds) = Some d"
  proof (cases "find_one ?q ?ds")
    case None
    then show ?thesis using m by (simp add: replace_one_def find_one_append del: matches_key)
  next
    case (Some e)
    show ?thesis using find_one_on_first_same [where f = "\<lambda>_. d", OF Some m] by (simp add: replace_one_def Some del: matches_key)
  qed
  then show "r = public_server_doc d" "find_one ?q (pw_routing (sa_proxy w') tid) = Some d" "sa_fleet w' = sa_fleet w"
    using mount_stored_routing [OF assms(1) [unfolded store_server_def]] by (simp_all add: set_routing_def)
qed

lemma prepared_tool_source:
  assumes "prepare_tool env s now tenants tid server tool c = (Inr tool', c')" and "vget tool' ''raw_code'' = VStr code"
  shows "is_encrypted_token (VStr code)"
proof -
  have tok: "is_encrypted_token (encrypt_raw_code ce s tid src)" if "encrypt_raw_code ce s tid src \<noteq> VNone" "src \<noteq> []" for ce src
    using that by (simp add: encrypt_raw_code_def encrypt_tenant_api_key_def encrypt_api_key_def is_encrypted_token_def ENCRYPTED_PREFIXES_def
        startswith_def)
  show ?thesis using assms tok
    by (auto simp: prepare_tool_def Let_def encrypt_raw_code_def encrypt_tenant_api_key_def vget_def
        split: prod.splits sum.splits pyval.splits option.splits if_splits)
qed


lemma prepared_tools_source:
  "prepare_tools env s now tenants tid server ts c = (Inr ts', c') \<Longrightarrow> tool \<in> set ts' \<Longrightarrow> vget tool ''raw_code'' = VStr code
   \<Longrightarrow> is_encrypted_token (VStr code)"
proof (induction ts arbitrary: c ts' c')
  case (Cons t ts)
  obtain x c1 where x: "prepare_tool env s now tenants tid server t c = (x, c1)" by fastforce
  obtain y c2 where y: "prepare_tools env s now tenants tid server ts c1 = (y, c2)" by fastforce
  obtain t1 ts1 where e: "x = Inr t1" "y = Inr ts1" "ts' = t1 # ts1" using Cons.prems(1) by (cases x; cases y) (simp_all add: x y)
  show ?case using Cons.prems(2,3) prepared_tool_source [OF x [unfolded e]] Cons.IH [OF y [unfolded e]] e(3) by auto
qed simp

lemma prepared_source:
  assumes "prepare_code_server env s now tid d w = (Inr d1, w1)" and "vget d ''transport'' = VStr ''code''"
    and "tool \<in> set (field_docs d1 ''tools'')" and "vget tool ''raw_code'' = VStr code"
  shows "is_encrypted_token (VStr code)"
proof -
  obtain x c where x: "prepare_tools env s now (tenants_of w) tid (vget d ''server'') (field_docs d ''tools'') (sa_pip w) = (x, c)" by fastforce
  obtain ts where ts: "x = Inr ts" using assms(1,2) by (cases x) (simp_all add: prepare_code_server_def x)
  have docs: "List.map_filter as_doc (map VDict ts) = ts" by (induction ts) (simp_all add: map_filter_simps as_doc_def)
  have "d1 = dpop ''env'' (dpop ''args'' (dpop ''command'' (dput ''cwd'' VNone (dput ''endpoint'' VNone (dput ''tools'' (VList (map VDict ts)) d)))))"
    using assms(1,2) by (simp add: prepare_code_server_def x ts)
  then have "vget d1 ''tools'' = VList (map VDict ts)" by (simp add: vget_def)
  then have "set (field_docs d1 ''tools'') \<subseteq> set ts"
    by (auto simp: field_docs_def py_or_def truthy_def docs map_filter_simps split: if_splits)
  then show ?thesis using prepared_tools_source [OF x [unfolded ts]] assms(3,4) by blast
qed

lemma origin_for_tenants: "enforce_server_policy urlp dns s False d = Inr d1 \<Longrightarrow> origin_of d False = ''tenant''"
  by (auto simp: enforce_server_policy_def origin_of_def assign_origin_def normalized_origin_def Let_def split: if_splits)

lemma tier_passed:
  assumes "enforce_account_tier s now a tid d w = (None, w1)" and "\<not> is_platform_admin s a"
    and "caps = fst (get_tenant_tier_caps s now (tenants_of w) (sa_tier w) tid)"
  shows "allowed_transports caps = {} \<or> py_str (py_or (vget d ''transport'') (VStr [])) \<in> allowed_transports caps"
    and "0 < max_servers caps \<Longrightarrow>
      int (count_documents (others_query ''_id'' (text_field d ''server'')) (pw_routing (sa_proxy w) tid)) + 1 \<le> max_servers caps"
proof -
  obtain k c where g: "get_tenant_tier_caps s now (tenants_of w) (sa_tier w) tid = (k, c)" by fastforce
  have k: "k = caps" using assms(3) g by simp
  show "allowed_transports caps = {} \<or> py_str (py_or (vget d ''transport'') (VStr [])) \<in> allowed_transports caps"
    using assms(1,2) by (auto simp: enforce_account_tier_def g k Let_def split: if_splits)
  show "0 < max_servers caps \<Longrightarrow>
      int (count_documents (others_query ''_id'' (text_field d ''server'')) (pw_routing (sa_proxy w) tid)) + 1 \<le> max_servers caps"
    using assms(1,2) by (simp add: enforce_account_tier_def g k Let_def split: if_splits)
qed

lemma upsertE:
  assumes "create_or_update_server env s now a p w = (Inr pub, w')"
  obtains w1 tid w2 d w3 where "open_servers s now a (uq_tenant p) w = (Inr tid, w1)"
    and "w2 = w1\<lparr>sa_fleet := snd (provision_tenant (se_sha env) s now tid (sa_fleet w1))\<rparr>"
    and "server_doc_ok (to_server_doc p tid)"
    and "vet_server env s now a tid (to_server_doc p tid) w2 = (Inr d, w3)"
    and "store_server env s now tid (uq_server p) d w3 = (Inr pub, w')"
proof -
  obtain x w1 where o': "open_servers s now a (uq_tenant p) w = (x, w1)" by fastforce
  obtain tid where x: "x = Inr tid" using assms by (cases x) (simp_all add: create_or_update_server_def o')
  let ?w2 = "w1\<lparr>sa_fleet := snd (provision_tenant (se_sha env) s now tid (sa_fleet w1))\<rparr>"
  have ok: "server_doc_ok (to_server_doc p tid)"
    using assms by (simp add: create_or_update_server_def o' x Let_def split: if_splits)
  obtain y w3 where v: "vet_server env s now a tid (to_server_doc p tid) ?w2 = (y, w3)" by fastforce
  obtain d where y: "y = Inr d" using assms ok by (cases y) (simp_all add: create_or_update_server_def o' x Let_def v)
  show thesis
    by (rule that [OF o' [unfolded x] refl ok v [unfolded y]]) (use assms ok in \<open>simp add: create_or_update_server_def o' x Let_def v y\<close>)
qed


lemma saved_doc:
  assumes "vet_server env s now a t (to_server_doc p t) w = (Inr d, w1)" and "\<not> is_platform_admin s a"
  shows "vget d ''_id'' = VStr (uq_server p)" and "vget d ''tenant_id'' = VStr t" and "vget d ''transport'' = VStr (uq_transport p)"
    and "vget d ''origin'' = VStr ''tenant''" and "uq_transport p \<noteq> ''stdio''"
    and "uq_transport p = ''code'' \<Longrightarrow> tool \<in> set (field_docs d ''tools'') \<Longrightarrow> vget tool ''raw_code'' = VStr code
      \<Longrightarrow> is_encrypted_token (VStr code)"
proof -
  let ?d = "to_server_doc p t"
  have f: "dget ?d ''_id'' = Some (VStr (uq_server p))" "dget ?d ''tenant_id'' = Some (VStr t)" "dget ?d ''transport'' = Some (VStr (uq_transport p))"
    by (simp_all add: to_server_doc_def)
  show "vget d ''_id'' = VStr (uq_server p)" "vget d ''tenant_id'' = VStr t" "vget d ''transport'' = VStr (uq_transport p)"
    using vet_result(2) [OF assms(1), of "''_id''"] vet_result(2) [OF assms(1), of "''tenant_id''"]
      vet_result(2) [OF assms(1), of "''transport''"] f by (simp_all add: vget_def)
  from assms(1) obtain w3 w4 d2 where pol: "apply_server_policy env s now (is_platform_admin s a) ?d w3 = (Inr d2, w4)"
    and prep: "prepare_code_server env s now t d2 w4 = (Inr d, w1)"
    by (rule vet_serverE)
  have "enforce_server_policy (se_urlp env) (se_dns env) s False ?d = Inr d2" using policy_passed [OF pol] assms(2) by simp
  note g = this origin_for_tenants [OF this]
  show "vget d ''origin'' = VStr ''tenant''" using vet_result(1) [OF assms(1)] g(2) assms(2) by simp
  have tr: "vget ?d ''transport'' = VStr (uq_transport p)" using f by (simp add: vget_def)
  show "uq_transport p \<noteq> ''stdio''"
    using g by (auto simp: enforce_server_policy_def Let_def tr py_or_def truthy_def py_str_def split: if_splits)
  show "is_encrypted_token (VStr code)" if "uq_transport p = ''code''" "tool \<in> set (field_docs d ''tools'')" "vget tool ''raw_code'' = VStr code"
  proof (rule prepared_source [OF prep _ that(2,3)])
    show "vget d2 ''transport'' = VStr ''code''" using tr that(1) policy_result [OF pol] by (simp add: vget_def)
  qed
qed



text \<open>C40. What is refused to an administrator of a tenant for a server of the platform - removing it, changing it, switching it - can be
  had by registering a server of the same name: the registration does not look at the document it replaces, and afterwards the
  server is the tenant's.\<close>
theorem upsert_takes_over_platform_server:
  assumes "create_or_update_server env s now a p w = (Inr pub, w')" and "\<not> is_platform_admin s a"
    and "find_one (key_query ''_id'' (uq_server p)) (pw_routing (sa_proxy w) (ad_tenant a)) = Some d0" and "platform_owned d0"
  shows "fst (delete_server s now a (uq_server p) (uq_tenant p) w) = Inl 403
     \<and> fst (set_server_enabled env s now a (uq_server p) on (uq_tenant p) w) = Inl 403
     \<and> (\<exists>d. find_one (key_query ''_id'' (uq_server p)) (pw_routing (sa_proxy w') (ad_tenant a)) = Some d \<and> \<not> platform_owned d)"
proof -
  from assms(1) obtain w1 t w2 d w3 where op: "open_servers s now a (uq_tenant p) w = (Inr t, w1)"
    and vet: "vet_server env s now a t (to_server_doc p t) w2 = (Inr d, w3)"
    and st: "store_server env s now t (uq_server p) d w3 = (Inr pub, w')"
    by (rule upsertE)
  have t: "t = ad_tenant a" using confined_open(2) [OF assms(2) op] by simp
  have w1: "sa_proxy w1 = sa_proxy w" using confined_open(1) [OF assms(2) op] by (simp add: same_stores_def)
  note sd = saved_doc [OF vet assms(2)]
  have "\<not> platform_owned d" using sd(4) by (auto simp: platform_owned_def vget_or_def vget_def py_str_def split: option.splits)
  then show ?thesis using store_finds(2) [OF st sd(1)] assms(2-4) op
    by (simp add: t delete_server_def set_server_enabled_def w1 Let_def del: matches_key)
qed

section \<open>Witnesses\<close>

definition demo_server_env :: server_env where
  "demo_server_env = \<lparr>se_urlp = demo_urlp, se_dns = demo_dns, se_sha = demo_sha, se_parse = demo_parser, se_config = demo_config_env,
     se_proxy = demo_proxy_env\<rparr>"

definition demo_upsert :: server_upsert where
  "demo_upsert = \<lparr>uq_tenant = None, uq_server = ''calc'', uq_transport = ''code'', uq_endpoint = None, uq_command = None, uq_args = [],
     uq_env = [], uq_cwd = None, uq_enabled = False, uq_metadata = [],
     uq_tools = [[(''name'', VStr ''add''), (''raw_code'', VStr ''enc::def add'')]]\<rparr>"

definition demo_servers_world :: server_admin where
  "demo_servers_world = \<lparr>sa_fleet = demo_fleet, sa_frozen = Map.empty, sa_tier = Map.empty, sa_policy = Map.empty, sa_pip = Map.empty,
     sa_egress = Map.empty,
     sa_proxy = \<lparr>pw_servers = [], pw_catalog = (\<lambda>_. []),
       pw_routing = (\<lambda>t. if t = ''acme'' then [[(''_id'', VStr ''calc''), (''tenant_id'', VStr ''acme''), (''origin'', VStr ''platform'')]] else []),
       pw_secrets = (\<lambda>_. []), pw_tenants = []\<rparr>\<rparr>"

lemma demo_upserted:
  "\<exists>pub w'. create_or_update_server demo_server_env default_settings 0 demo_tenant_admin demo_upsert demo_servers_world = (Inr pub, w')"
proof -
  have "(case fst (create_or_update_server demo_server_env default_settings 0 demo_tenant_admin demo_upsert demo_servers_world) of
       Inl e \<Rightarrow> False | Inr x \<Rightarrow> True)"
    by code_simp
  then show ?thesis
    by (cases "fst (create_or_update_server demo_server_env default_settings 0 demo_tenant_admin demo_upsert demo_servers_world)")
      (auto simp: prod_eq_iff)
qed


lemma demo_admin_plain: "\<not> is_platform_admin default_settings demo_tenant_admin" "ad_tenant demo_tenant_admin = ''acme''"
  by (simp_all add: is_platform_admin_def demo_tenant_admin_def default_settings_def)

lemma tenant_admins_register_their_own_witness:
  "routing_ok demo_servers_world
   \<and> routing_ok (fold (\<lambda>(a, q). server_admin_step default_settings a q)
       [(demo_tenant_admin, demo_server_env, 0, UpsertServer demo_upsert), (demo_tenant_admin, demo_server_env, 1, DeleteServer ''calc'' None)]
       demo_servers_world)"
proof -
  have ok: "routing_ok demo_servers_world" by (simp add: routing_ok_def demo_servers_world_def vget_def)
  have "\<forall>(a, q)\<in>set [(demo_tenant_admin, demo_server_env, 0, UpsertServer demo_upsert), (demo_tenant_admin, demo_server_env, 1, DeleteServer ''calc'' None)].
      \<not> is_platform_admin default_settings a \<and> ad_tenant a = ''acme''"
    using demo_admin_plain by simp
  from tenant_admins_register_their_own [OF this _ ok refl, of "''other''"] ok show ?thesis by simp
qed


lemma upsert_takes_over_platform_server_witness:
  "\<exists>pub w' d. create_or_update_server demo_server_env default_settings 0 demo_tenant_admin demo_upsert demo_servers_world = (Inr pub, w')
     \<and> fst (delete_server default_settings 0 demo_tenant_admin ''calc'' None demo_servers_world) = Inl 403
     \<and> find_one (key_query ''_id'' ''calc'') (pw_routing (sa_proxy w') ''acme'') = Some d \<and> \<not> platform_owned d"
proof -
  obtain pub w' where c: "create_or_update_server demo_server_env default_settings 0 demo_tenant_admin demo_upsert demo_servers_world = (Inr pub, w')"
    using demo_upserted by blast
  have "find_one (key_query ''_id'' (uq_server demo_upsert)) (pw_routing (sa_proxy demo_servers_world) (ad_tenant demo_tenant_admin))
      = Some [(''_id'', VStr ''calc''), (''tenant_id'', VStr ''acme''), (''origin'', VStr ''platform'')]"
    by (simp add: demo_upsert_def demo_servers_world_def demo_admin_plain vget_def)
  from upsert_takes_over_platform_server [OF c demo_admin_plain(1) this] demo_admin_plain(2) show ?thesis
    using c by (auto simp: demo_upsert_def platform_owned_def vget_or_def py_str_def simp del: matches_key)
qed

end
