(* ===== verification/AdminTenants.thy ===== *)
theory AdminTenants
  imports AdminGuards AccountTier ToolPolicy PipPolicy Egress Usage TenantLifecycle CodeLint "HOL-Library.Option_ord"
begin

text \<open>\<open>gateway/routers/admin/tenants.py\<close> and \<open>tools.py\<close>: the life of tenants, their tier, quota and usage, which only the
  platform may change, and their tool policy, egress allowlist, package policy and server secrets, which their own
  administrators curate.  \<open>wall\<close> is the time that is stored, \<open>now\<close> the one the caches are compared with.\<close>

section \<open>State\<close>

record tenant_admin =
  ta_fleet :: fleet
  ta_frozen :: "bool cache"
  ta_tier :: "string cache"
  ta_policy :: "tool_policy cache"
  ta_pip :: "string list cache"
  ta_egress :: "string list cache"
  ta_meter :: metering
  ta_catalog :: "string \<Rightarrow> docs"
  ta_routing :: "string \<Rightarrow> docs"
  ta_secrets :: "string \<Rightarrow> docs"

abbreviation control_docs :: "tenant_admin \<Rightarrow> docs" where
  "control_docs w \<equiv> fl_tenants (ta_fleet w)"

definition set_control :: "docs \<Rightarrow> tenant_admin \<Rightarrow> tenant_admin" where
  "set_control ds w = w\<lparr>ta_fleet := (ta_fleet w)\<lparr>fl_tenants := ds\<rparr>\<rparr>"

section \<open>Responses\<close>

text \<open>None: 422.\<close>
definition validate_secret_key :: "string \<Rightarrow> string option" where
  "validate_secret_key key =
     (let k = strip key in if k = [] \<or> CHR ''.'' \<in> set k \<or> startswith k ''$'' then None else Some k)"

record usage_view =
  uv_calls :: int
  uv_sandbox_ms :: int
  uv_calls_limit :: int
  uv_seconds_limit :: int
  uv_calls_left :: "int option"
  uv_seconds_left :: "int option"

definition usage_response :: "int \<Rightarrow> int \<Rightarrow> int \<Rightarrow> int \<Rightarrow> usage_view" where
  "usage_response calls sandbox_ms calls_cap seconds_cap =
     \<lparr>uv_calls = max 0 calls, uv_sandbox_ms = max 0 sandbox_ms, uv_calls_limit = max 0 calls_cap, uv_seconds_limit = max 0 seconds_cap,
      uv_calls_left = (if calls_cap \<le> 0 then None else Some (max 0 (calls_cap - calls))),
      uv_seconds_left = (if seconds_cap \<le> 0 then None else Some (max 0 (seconds_cap - max 0 (sandbox_ms div 1000))))\<rparr>"

text \<open>The names of the secrets, and when and by whom they were changed.\<close>
definition server_env_response :: "string \<Rightarrow> tenant_admin \<Rightarrow> string \<Rightarrow> string list \<times> pyval \<times> pyval" where
  "server_env_response tid w server =
     (case find_one (key_query ''_id'' server) (ta_secrets w tid) of
        None \<Rightarrow> ([], VNone, VNone)
      | Some d \<Rightarrow> ((case vget_or d ''values'' (VDict []) of VDict vs \<Rightarrow> sort (map fst vs) | _ \<Rightarrow> []),
                  vget d ''updated_at'', vget d ''updated_by''))"

definition or_none :: "string \<Rightarrow> pyval" where
  "or_none t = (if t = [] then VNone else VStr t)"

definition tenant_response :: "doc \<Rightarrow> string option \<Rightarrow> doc" where
  "tenant_response d db =
     (let raw = text_field d ''status''; st = (if dget d ''status'' = None \<or> raw = [] then STATUS_ACTIVE else raw);
          frozen = truthy (vget_or d ''read_only'' (VBool False));
          conf = py_str (py_or (vget d ''confirmation'') (VStr CONFIRMATION_CONFIRMED))
      in [(''tenant_id'', VStr (py_str (vget d ''tenant_id''))),
          (''db_name'', VStr (py_str (py_or (vget d ''db_name'') (VStr (opt_text db))))), (''status'', VStr st),
          (''suspended_reason'', if st = STATUS_SUSPENDED then or_none (text_field d ''suspended_reason'') else VNone),
          (''deleted_at'', vget d ''deleted_at''), (''purge_at'', vget d ''purge_at''), (''read_only'', VBool frozen),
          (''read_only_reason'', if frozen then or_none (text_field d ''read_only_reason'') else VNone),
          (''confirmation'', VStr (if conf \<in> {CONFIRMATION_CONFIRMED, CONFIRMATION_UNCONFIRMED} then conf else CONFIRMATION_CONFIRMED)),
          (''created_at'', vget d ''created_at''), (''updated_at'', vget d ''updated_at'')])"

section \<open>Life of a tenant\<close>

definition create_tenant ::
  "(string \<Rightarrow> string) \<Rightarrow> settings \<Rightarrow> real \<Rightarrow> admin_caller \<Rightarrow> string \<Rightarrow> tenant_admin \<Rightarrow> (nat + doc) \<times> tenant_admin" where
  "create_tenant sha s wall a wanted w =
     (case resolve_target_tenant s a wanted of
        None \<Rightarrow> (Inl 403, w)
      | Some t \<Rightarrow>
          (case provision_tenant sha s wall t (ta_fleet w) of
             (db, fl) \<Rightarrow>
               (Inr (case find_tenant (fl_tenants fl) t of
                       Some d \<Rightarrow> tenant_response d (Some db)
                     | None \<Rightarrow> tenant_response [(''tenant_id'', VStr t), (''db_name'', VStr db)] None), w\<lparr>ta_fleet := fl\<rparr>)))"

definition list_tenants :: "admin_caller \<Rightarrow> settings \<Rightarrow> tenant_admin \<Rightarrow> docs" where
  "list_tenants a s w =
     map (\<lambda>d. tenant_response d None) (filter (\<lambda>d. d \<noteq> [])
       (if is_platform_admin s a then take 10000 (control_docs w)
        else case find_tenant (control_docs w) (ad_tenant a) of Some d \<Rightarrow> [d] | None \<Rightarrow> []))"

text \<open>The status of the answer and when the tenant will be purged; 500: the database could not be dropped.\<close>
definition delete_tenant ::
  "(string \<Rightarrow> string) \<Rightarrow> (string \<Rightarrow> drop_outcome) \<Rightarrow> settings \<Rightarrow> real \<Rightarrow> real \<Rightarrow> admin_caller \<Rightarrow> string \<Rightarrow> bool \<Rightarrow> tenant_admin
   \<Rightarrow> (nat + string \<times> pyval) \<times> tenant_admin" where
  "delete_tenant sha drp s wall now a tid hard w =
     (if \<not> require_platform_admin s a then (Inl 403, w)
      else if hard then
        (case deprovision_tenant sha s drp tid (ta_fleet w) of
           (None, fl) \<Rightarrow> (Inl 500, w\<lparr>ta_fleet := fl\<rparr>)
         | (Some gone, fl) \<Rightarrow> (if gone then Inr (''purged'', VNone) else Inl 404, w\<lparr>ta_fleet := fl\<rparr>))
      else case soft_delete_tenant s wall now tid None (Some (ad_user a)) (ta_fleet w) of
          (None, fl) \<Rightarrow> (Inl 404, w\<lparr>ta_fleet := fl\<rparr>)
        | (Some d, fl) \<Rightarrow> (Inr (''deleted'', vget d ''purge_at''), w\<lparr>ta_fleet := fl\<rparr>))"

definition restore_tenant_endpoint ::
  "settings \<Rightarrow> real \<Rightarrow> real \<Rightarrow> admin_caller \<Rightarrow> string \<Rightarrow> tenant_admin \<Rightarrow> (nat + unit) \<times> tenant_admin" where
  "restore_tenant_endpoint s wall now a tid w =
     (if \<not> require_platform_admin s a then (Inl 403, w)
      else case restore_tenant s wall now tid (Some (ad_user a)) (ta_fleet w) of
          (d, fl) \<Rightarrow> (if d = None then Inl 404 else Inr (), w\<lparr>ta_fleet := fl\<rparr>))"

definition set_tenant_status_endpoint ::
  "settings \<Rightarrow> real \<Rightarrow> real \<Rightarrow> admin_caller \<Rightarrow> string \<Rightarrow> string \<Rightarrow> string option \<Rightarrow> tenant_admin \<Rightarrow> (nat + doc) \<times> tenant_admin" where
  "set_tenant_status_endpoint s wall now a tid target reason w =
     (if \<not> require_platform_admin s a then (Inl 403, w)
      else case set_tenant_status (status_cache_ttl s) wall now (control_docs w) (fl_status (ta_fleet w)) tid target
                  (Some (ad_user a)) reason [] of
          None \<Rightarrow> (Inl 500, w)
        | Some (d, ds, c) \<Rightarrow>
            (case d of None \<Rightarrow> Inl 404 | Some d \<Rightarrow> Inr (tenant_response d None),
             w\<lparr>ta_fleet := (ta_fleet w)\<lparr>fl_tenants := ds, fl_status := c\<rparr>\<rparr>))"

definition set_tenant_confirmation_endpoint ::
  "settings \<Rightarrow> real \<Rightarrow> real \<Rightarrow> admin_caller \<Rightarrow> string \<Rightarrow> string \<Rightarrow> tenant_admin \<Rightarrow> (nat + doc) \<times> tenant_admin" where
  "set_tenant_confirmation_endpoint s wall now a tid confirmation w =
     (if \<not> require_platform_admin s a then (Inl 403, w)
      else case set_tenant_confirmation (status_cache_ttl s) wall now (control_docs w) (ta_tier w) tid confirmation (Some (ad_user a)) of
          None \<Rightarrow> (Inl 500, w)
        | Some (None, ds, c) \<Rightarrow> (Inl 404, (set_control ds w)\<lparr>ta_tier := c\<rparr>)
        | Some (Some d, ds, c) \<Rightarrow>
            (let caps = tier_caps s confirmation
             in (Inr (tenant_response d None),
                 (set_control ds w)\<lparr>ta_tier := c,
                    ta_meter := snd (set_quota wall tid (quota_calls_per_period caps) (quota_sandbox_seconds_per_period caps)
                                       (Some (ad_user a)) (ta_meter w))\<rparr>)))"

definition set_tenant_read_only_endpoint ::
  "settings \<Rightarrow> real \<Rightarrow> real \<Rightarrow> admin_caller \<Rightarrow> string \<Rightarrow> bool \<Rightarrow> string option \<Rightarrow> tenant_admin \<Rightarrow> (nat + doc) \<times> tenant_admin" where
  "set_tenant_read_only_endpoint s wall now a tid enabled reason w =
     (if \<not> require_platform_admin s a then (Inl 403, w)
      else case set_tenant_read_only (status_cache_ttl s) wall now (control_docs w) (ta_frozen w) tid enabled (Some (ad_user a)) reason of
          (d, ds, c) \<Rightarrow>
            (case d of None \<Rightarrow> Inl 404 | Some d \<Rightarrow> Inr (tenant_response d None), (set_control ds w)\<lparr>ta_frozen := c\<rparr>))"

text \<open>The quota of a tenant is the platform's to set.\<close>
definition update_tenant_quota ::
  "settings \<Rightarrow> real \<Rightarrow> admin_caller \<Rightarrow> string \<Rightarrow> int \<Rightarrow> int \<Rightarrow> tenant_admin \<Rightarrow> (nat + quota) \<times> tenant_admin" where
  "update_tenant_quota s wall a wanted calls seconds w =
     (if \<not> require_platform_admin s a then (Inl 403, w)
      else case resolve_target_tenant s a wanted of
          None \<Rightarrow> (Inl 403, w)
        | Some t \<Rightarrow> (case set_quota wall t calls seconds (Some (ad_user a)) (ta_meter w) of (q, m) \<Rightarrow> (Inr q, w\<lparr>ta_meter := m\<rparr>)))"

section \<open>What a tenant's administrators curate\<close>

text \<open>The role, the tenant and that it is not frozen; \<open>needs_role\<close> is False for the egress allowlist, whose handler relies on
  the middleware.\<close>
definition open_tenant ::
  "bool \<Rightarrow> settings \<Rightarrow> real \<Rightarrow> admin_caller \<Rightarrow> string \<Rightarrow> tenant_admin \<Rightarrow> (nat + string) \<times> tenant_admin" where
  "open_tenant needs_role s now a wanted w =
     (if needs_role \<and> \<not> require_tenant_admin s a then (Inl 403, w)
      else case resolve_target_tenant s a wanted of
          None \<Rightarrow> (Inl 403, w)
        | Some t \<Rightarrow>
            (case require_tenant_writable s now a (control_docs w) (ta_frozen w) t of
               (ok, c) \<Rightarrow> (if ok then Inr t else Inl 403, w\<lparr>ta_frozen := c\<rparr>)))"

definition read_tenant :: "settings \<Rightarrow> admin_caller \<Rightarrow> string \<Rightarrow> nat + string" where
  "read_tenant s a wanted =
     (if \<not> require_tenant_admin s a then Inl 403
      else case resolve_target_tenant s a wanted of None \<Rightarrow> Inl 403 | Some t \<Rightarrow> Inr t)"

record policy_entry =
  py_server :: string
  py_name :: string
  py_allowlisted :: bool
  py_disabled :: bool

definition get_tenant_tool_policy ::
  "settings \<Rightarrow> real \<Rightarrow> admin_caller \<Rightarrow> string \<Rightarrow> tenant_admin \<Rightarrow> (nat + tool_policy \<times> policy_entry list) \<times> tenant_admin" where
  "get_tenant_tool_policy s now a wanted w =
     (case read_tenant s a wanted of
        Inl e \<Rightarrow> (Inl e, w)
      | Inr t \<Rightarrow>
          (case get_tool_policy (status_cache_ttl s) now (control_docs w) (ta_policy w) t of
             (p, c) \<Rightarrow>
               (Inr (p, map (\<lambda>d. let sv = text_field d ''server''; n = text_field d ''name''
                                 in \<lparr>py_server = sv, py_name = n, py_allowlisted = matches_allowlist sv n (allowlist p),
                                     py_disabled = fq_tool sv n \<in> set (disabled_tools p)\<rparr>)
                        (sort_key (\<lambda>d. text_field d ''server'') (sort_key (\<lambda>d. text_field d ''name'') (take 10000 (ta_catalog w t))))),
                w\<lparr>ta_policy := c\<rparr>)))"

definition put_tenant_tool_policy ::
  "settings \<Rightarrow> real \<Rightarrow> real \<Rightarrow> admin_caller \<Rightarrow> string \<Rightarrow> pyval \<Rightarrow> pyval \<Rightarrow> tenant_admin
   \<Rightarrow> (nat + tool_policy \<times> policy_entry list) \<times> tenant_admin" where
  "put_tenant_tool_policy s wall now a wanted al cap w =
     (case open_tenant True s now a wanted w of
        (Inl e, w1) \<Rightarrow> (Inl e, w1)
      | (Inr t, w1) \<Rightarrow>
          (case set_tool_policy (status_cache_ttl s) wall now (control_docs w1) (ta_policy w1) t al cap (Some (ad_user a)) of
             (d, ds, c) \<Rightarrow>
               (let w2 = (set_control ds w1)\<lparr>ta_policy := c\<rparr>
                in if d = None then (Inl 404, w2) else get_tenant_tool_policy s now a t w2)))"

text \<open>\<open>gateway/routers/admin/tools.py\<close>: one tool switched on or off.\<close>
definition set_tool_enabled_endpoint ::
  "settings \<Rightarrow> real \<Rightarrow> real \<Rightarrow> admin_caller \<Rightarrow> string \<Rightarrow> string \<Rightarrow> bool \<Rightarrow> string option \<Rightarrow> tenant_admin \<Rightarrow> (nat + unit) \<times> tenant_admin" where
  "set_tool_enabled_endpoint s wall now a server tool enabled wanted w =
     (case open_tenant True s now a (opt_text wanted) w of
        (Inl e, w1) \<Rightarrow> (Inl e, w1)
      | (Inr t, w1) \<Rightarrow>
          if find_one [(''server'', CEq (VStr server)), (''name'', CEq (VStr tool))] (ta_catalog w1 t) = None then (Inl 404, w1)
          else (case set_tool_enabled (status_cache_ttl s) wall now (control_docs w1) (ta_policy w1) t server tool enabled
                       (Some (ad_user a)) of
                  (d, ds, c) \<Rightarrow> (if d = None then Inl 404 else Inr (), (set_control ds w1)\<lparr>ta_policy := c\<rparr>)))"

record egress_view =
  ev_allowlist :: "string list"
  ev_global :: "string list"
  ev_enforced :: bool
  ev_default_deny :: bool

definition egress_allowlist_response :: "settings \<Rightarrow> doc option \<Rightarrow> egress_view" where
  "egress_allowlist_response s d =
     \<lparr>ev_allowlist = (case vget (doc_or_empty d) ''egress_allowlist'' of VList xs \<Rightarrow> map py_str (filter is_str xs) | _ \<Rightarrow> []),
      ev_global = parse_allowlist_text (cfg_egress_global_allowlist s), ev_enforced = cfg_egress_allowlist_enabled s,
      ev_default_deny = cfg_egress_default_deny s\<rparr>"

definition get_egress_allowlist :: "settings \<Rightarrow> admin_caller \<Rightarrow> string \<Rightarrow> tenant_admin \<Rightarrow> nat + egress_view" where
  "get_egress_allowlist s a wanted w =
     (case resolve_target_tenant s a wanted of
        None \<Rightarrow> Inl 403 | Some t \<Rightarrow> Inr (egress_allowlist_response s (find_tenant (control_docs w) t)))"

definition put_egress_allowlist ::
  "settings \<Rightarrow> real \<Rightarrow> real \<Rightarrow> admin_caller \<Rightarrow> string \<Rightarrow> string list \<Rightarrow> tenant_admin \<Rightarrow> (nat + egress_view) \<times> tenant_admin" where
  "put_egress_allowlist s wall now a wanted entries w =
     (case open_tenant False s now a wanted w of
        (Inl e, w1) \<Rightarrow> (Inl e, w1)
      | (Inr t, w1) \<Rightarrow>
          (case set_tenant_egress_allowlist (egress_cache_ttl s) wall now (control_docs w1) (ta_egress w1) t entries (Some (ad_user a)) of
             Inl e \<Rightarrow> (Inl 422, w1)
           | Inr (d, ds, c) \<Rightarrow>
               (if d = None then Inl 404 else Inr (egress_allowlist_response s d), (set_control ds w1)\<lparr>ta_egress := c\<rparr>)))"

record pip_view =
  iv_allowlist :: "string list"
  iv_ceiling :: "string list"
  iv_effective :: "string list"
  iv_entries :: "(string \<times> bool) list"
  iv_restricted :: bool
  iv_execution :: bool

definition pip_policy_response :: "settings \<Rightarrow> doc option \<Rightarrow> pip_view" where
  "pip_policy_response s d =
     (let al = (case vget (doc_or_empty d) ''code_requirements_allowlist'' of
                  VList xs \<Rightarrow> sorted_set (filter (\<lambda>t. t \<noteq> []) (map (\<lambda>x. strip (py_str x)) (filter is_str xs))) | _ \<Rightarrow> []);
          ceiling = sorted_list_of_set (global_ceiling_names s)
      in \<lparr>iv_allowlist = al, iv_ceiling = ceiling, iv_effective = effective_allowlist s al,
          iv_entries = map (\<lambda>n. (n, n \<in> set ceiling)) al, iv_restricted = (ceiling \<noteq> []),
          iv_execution = cfg_code_tool_execution_enabled s\<rparr>)"

definition get_code_requirements_policy :: "settings \<Rightarrow> admin_caller \<Rightarrow> string \<Rightarrow> tenant_admin \<Rightarrow> nat + pip_view" where
  "get_code_requirements_policy s a wanted w =
     map_sum (\<lambda>e. e) (\<lambda>t. pip_policy_response s (find_tenant (control_docs w) t)) (read_tenant s a wanted)"

definition put_code_requirements_policy ::
  "settings \<Rightarrow> real \<Rightarrow> real \<Rightarrow> admin_caller \<Rightarrow> string \<Rightarrow> pyval list \<Rightarrow> tenant_admin \<Rightarrow> (nat + pip_view) \<times> tenant_admin" where
  "put_code_requirements_policy s wall now a wanted entries w =
     (case open_tenant True s now a wanted w of
        (Inl e, w1) \<Rightarrow> (Inl e, w1)
      | (Inr t, w1) \<Rightarrow>
          (case set_tenant_pip_allowlist (status_cache_ttl s) wall now (control_docs w1) (ta_pip w1) t entries (Some (ad_user a)) of
             Inl e \<Rightarrow> (Inl 422, w1)
           | Inr (d, ds, c) \<Rightarrow>
               (if d = None then Inl 404 else Inr (pip_policy_response s d), (set_control ds w1)\<lparr>ta_pip := c\<rparr>)))"

section \<open>Server secrets\<close>

text \<open>The new secrets in their order, an empty one clears its key; None: 422, and nothing has been stored.\<close>
fun merge_secrets :: "config_env \<Rightarrow> settings \<Rightarrow> string \<Rightarrow> (string \<times> string) list \<Rightarrow> doc \<Rightarrow> doc option" where
  "merge_secrets ce s tid [] values = Some values"
| "merge_secrets ce s tid ((k, raw) # rest) values =
     (case validate_secret_key k of
        None \<Rightarrow> None
      | Some key \<Rightarrow>
          (let token = encrypt_raw_code ce s tid raw
           in merge_secrets ce s tid rest (if raw = [] \<or> \<not> truthy token then dpop key values else dput key token values)))"

definition stored_env :: "string \<Rightarrow> docs \<Rightarrow> doc" where
  "stored_env server secrets =
     (case find_one (key_query ''_id'' server) secrets of
        Some d \<Rightarrow> (case vget d ''values'' of VDict vs \<Rightarrow> vs | _ \<Rightarrow> []) | None \<Rightarrow> [])"

definition save_env :: "string \<Rightarrow> string \<Rightarrow> real \<Rightarrow> string \<Rightarrow> doc \<Rightarrow> docs \<Rightarrow> docs" where
  "save_env tid server wall actor new secrets =
     (if new \<noteq> [] then replace_one (key_query ''_id'' server)
          [(''_id'', VStr server), (''tenant_id'', VStr tid), (''server'', VStr server), (''values'', VDict new),
           (''updated_at'', VTime wall), (''updated_by'', VStr actor)] True secrets
      else delete_one (key_query ''_id'' server) secrets)"

definition put_server_env ::
  "config_env \<Rightarrow> settings \<Rightarrow> real \<Rightarrow> real \<Rightarrow> admin_caller \<Rightarrow> string \<Rightarrow> (string \<times> string) list \<Rightarrow> string option \<Rightarrow> tenant_admin
   \<Rightarrow> (nat + string list \<times> pyval \<times> pyval) \<times> tenant_admin" where
  "put_server_env ce s wall now a server updates wanted w =
     (case open_tenant True s now a (opt_text wanted) w of
        (Inl e, w1) \<Rightarrow> (Inl e, w1)
      | (Inr t, w1) \<Rightarrow>
          if find_one (key_query ''_id'' server) (ta_routing w1 t) = None then (Inl 404, w1)
          else (case merge_secrets ce s t updates (stored_env server (ta_secrets w1 t)) of
                  None \<Rightarrow> (Inl 422, w1)
                | Some new \<Rightarrow>
                    (let w2 = w1\<lparr>ta_secrets := (ta_secrets w1)(t := save_env t server wall (ad_user a) new (ta_secrets w1 t))\<rparr>
                     in (Inr (server_env_response t w2 server), w2))))"

definition get_server_env ::
  "settings \<Rightarrow> admin_caller \<Rightarrow> string \<Rightarrow> string option \<Rightarrow> tenant_admin \<Rightarrow> nat + string list \<times> pyval \<times> pyval" where
  "get_server_env s a server wanted w =
     (case read_tenant s a (opt_text wanted) of
        Inl e \<Rightarrow> Inl e
      | Inr t \<Rightarrow> if find_one (key_query ''_id'' server) (ta_routing w t) = None then Inl 404 else Inr (server_env_response t w server))"

section \<open>Usage\<close>

definition get_tenant_usage :: "(real \<Rightarrow> string) \<Rightarrow> settings \<Rightarrow> real \<Rightarrow> admin_caller \<Rightarrow> string \<Rightarrow> tenant_admin \<Rightarrow> nat + usage_view" where
  "get_tenant_usage month s now a wanted w =
     (case read_tenant s a wanted of
        Inl e \<Rightarrow> Inl e
      | Inr t \<Rightarrow>
          (let u = get_usage t (current_period month s now) (ta_meter w); q = get_effective_quota s t (ta_meter w)
           in Inr (usage_response (snap_calls u) (snap_sandbox_ms u) (calls_limit q) (sandbox_seconds_limit q))))"

definition get_tenant_usage_events ::
  "(real \<Rightarrow> string) \<Rightarrow> settings \<Rightarrow> real \<Rightarrow> admin_caller \<Rightarrow> string \<Rightarrow> string option \<Rightarrow> int \<Rightarrow> tenant_admin \<Rightarrow> nat + billing_summary" where
  "get_tenant_usage_events month s now a wanted period rows w =
     (case read_tenant s a wanted of
        Inl e \<Rightarrow> Inl e
      | Inr t \<Rightarrow>
          Inr (summarize_billing_events t (if opt_text period = [] then current_period month s now else opt_text period) rows (ta_meter w)))"

text \<open>A row of the export; \<open>iso_text\<close> is \<open>datetime.isoformat\<close>.\<close>
definition export_row :: "(real \<Rightarrow> string) \<Rightarrow> string \<Rightarrow> doc \<Rightarrow> string list \<times> int" where
  "export_row iso_text t d =
     ([(case vget d ''ts'' of VTime x \<Rightarrow> iso_text x | _ \<Rightarrow> []), t, text_field d ''period'', text_field d ''kind'',
       (case vget d ''metadata'' of VDict m \<Rightarrow> text_field m ''source'' | _ \<Rightarrow> [])],
      (case vget d ''amount'' of VInt n \<Rightarrow> n | _ \<Rightarrow> 0))"

definition export_tenant_usage ::
  "(string \<Rightarrow> real option) \<Rightarrow> (real \<Rightarrow> string) \<Rightarrow> settings \<Rightarrow> admin_caller \<Rightarrow> string \<Rightarrow> string \<Rightarrow> string \<Rightarrow> string \<Rightarrow> tenant_admin
   \<Rightarrow> nat + (string list \<times> int) list" where
  "export_tenant_usage isoformat iso_text s a wanted fmt since til w =
     (case read_tenant s a wanted of
        Inl e \<Rightarrow> Inl e
      | Inr t \<Rightarrow>
          if fmt \<noteq> ''csv'' then Inl 422
          else (case build_time_range isoformat since til of
                  Inl e \<Rightarrow> Inl e
                | Inr bounds \<Rightarrow>
                    Inr (map (export_row iso_text t) (sort_key (\<lambda>d. case vget d ''ts'' of VTime x \<Rightarrow> Some x | _ \<Rightarrow> None)
                      (find_docs ((''tenant_id'', CEq (VStr t)) # (if bounds = [] then [] else [(''ts'', COps bounds)]))
                         (usage_events (ta_meter w)))))))"

section \<open>The requests that change something\<close>

datatype tenant_request =
    CreateTenant string
  | DeleteTenant "string \<Rightarrow> drop_outcome" string bool
  | RestoreTenant string
  | SetStatus string string "string option"
  | SetConfirmation string string
  | SetReadOnly string bool "string option"
  | SetQuota string int int
  | PutToolPolicy string pyval pyval
  | SetTool string string bool "string option"
  | PutEgress string "string list"
  | PutPip string "pyval list"
  | PutEnv config_env string "(string \<times> string) list" "string option"

text \<open>A request comes with its two times; \<open>sha\<close> names databases.\<close>
definition tenant_admin_step ::
  "(string \<Rightarrow> string) \<Rightarrow> settings \<Rightarrow> admin_caller \<Rightarrow> real \<times> real \<times> tenant_request \<Rightarrow> tenant_admin \<Rightarrow> tenant_admin" where
  "tenant_admin_step sha s a q w =
     (case q of (wall, now, r) \<Rightarrow>
        (case r of
           CreateTenant t \<Rightarrow> snd (create_tenant sha s wall a t w)
         | DeleteTenant drp t hard \<Rightarrow> snd (delete_tenant sha drp s wall now a t hard w)
         | RestoreTenant t \<Rightarrow> snd (restore_tenant_endpoint s wall now a t w)
         | SetStatus t st reason \<Rightarrow> snd (set_tenant_status_endpoint s wall now a t st reason w)
         | SetConfirmation t c \<Rightarrow> snd (set_tenant_confirmation_endpoint s wall now a t c w)
         | SetReadOnly t on reason \<Rightarrow> snd (set_tenant_read_only_endpoint s wall now a t on reason w)
         | SetQuota t calls seconds \<Rightarrow> snd (update_tenant_quota s wall a t calls seconds w)
         | PutToolPolicy t al cap \<Rightarrow> snd (put_tenant_tool_policy s wall now a t al cap w)
         | SetTool server tool on t \<Rightarrow> snd (set_tool_enabled_endpoint s wall now a server tool on t w)
         | PutEgress t es \<Rightarrow> snd (put_egress_allowlist s wall now a t es w)
         | PutPip t es \<Rightarrow> snd (put_code_requirements_policy s wall now a t es w)
         | PutEnv ce server us t \<Rightarrow> snd (put_server_env ce s wall now a server us t w)))"

section \<open>Out of reach of a tenant's administrators\<close>

text \<open>What the platform decides about a tenant.\<close>
definition controls_of :: "doc \<Rightarrow> string \<times> bool \<times> string \<times> pyval \<times> pyval" where
  "controls_of d = (status_of_doc d, read_only_of_doc d, confirmation_of_doc d, vget d ''purge_at'', vget d ''purge_started_at'')"

definition same_controls :: "string \<Rightarrow> docs \<Rightarrow> docs \<Rightarrow> bool" where
  "same_controls t ds ds' =
     ((\<forall>u. u \<noteq> t \<longrightarrow> find_tenant ds' u = find_tenant ds u)
      \<and> (find_tenant ds t \<noteq> None \<longrightarrow> find_tenant ds' t \<noteq> None \<and> controls_of (the (find_tenant ds' t)) = controls_of (the (find_tenant ds t))))"

definition curates_own :: "string \<Rightarrow> tenant_admin \<Rightarrow> tenant_admin \<Rightarrow> bool" where
  "curates_own t w w' =
     (same_controls t (control_docs w) (control_docs w') \<and> (\<forall>u. u \<noteq> t \<longrightarrow> ta_secrets w' u = ta_secrets w u)
      \<and> ta_meter w' = ta_meter w \<and> ta_catalog w' = ta_catalog w \<and> ta_routing w' = ta_routing w
      \<and> set (fl_databases (ta_fleet w)) \<subseteq> set (fl_databases (ta_fleet w')))"

lemma same_controls_refl: "same_controls t ds ds"
  by (simp add: same_controls_def)

lemma curates_refl: "curates_own t w w"
  by (simp add: curates_own_def same_controls_refl)

lemma curates_trans: "curates_own t w1 w2 \<Longrightarrow> curates_own t w2 w3 \<Longrightarrow> curates_own t w1 w3"
  by (auto simp: curates_own_def same_controls_def)

lemma curates_caches:
  "curates_own t w (w\<lparr>ta_frozen := c\<rparr>)" "curates_own t w (w\<lparr>ta_policy := p\<rparr>)" "curates_own t w (w\<lparr>ta_pip := e\<rparr>)" "curates_own t w (w\<lparr>ta_egress := e\<rparr>)"
  by (simp_all add: curates_own_def same_controls_refl)

lemma curates_docs: "same_controls t (control_docs w) ds \<Longrightarrow> curates_own t w (set_control ds w)"
  by (simp add: curates_own_def set_control_def)

definition CONTROL_FIELDS :: "string list" where
  "CONTROL_FIELDS = [''tenant_id'', ''status'', ''read_only'', ''confirmation'', ''purge_at'', ''purge_started_at'']"

lemma kept_controls:
  assumes "\<forall>f\<in>set CONTROL_FIELDS. untouched f u"
  shows "controls_of (apply_update u d) = controls_of d"
proof -
  have v: "dget (apply_update u d) f = dget d f" if "f \<in> set CONTROL_FIELDS" for f using assms that by (simp add: apply_update_untouched)
  show ?thesis using v
    by (simp add: CONTROL_FIELDS_def controls_of_def status_of_doc_def read_only_of_doc_def confirmation_of_doc_def vget_def vget_or_def)
qed

lemma curated_controls:
  assumes "\<forall>f\<in>set CONTROL_FIELDS. untouched f u"
  shows "same_controls t ds (snd (update_tenant t u ds))"
proof -
  have id: "untouched ''tenant_id'' u" using assms by (simp add: CONTROL_FIELDS_def)
  show ?thesis
  proof (cases "find_tenant ds t")
    case None
    then show ?thesis by (simp add: tenants.modify_missing same_controls_refl)
  next
    case (Some d)
    then show ?thesis using tenants.lookup_other [OF id] tenants.lookup_same [OF Some id] kept_controls [OF assms]
      by (simp add: same_controls_def)
  qed
qed

lemma curating_fields:
  "\<forall>f\<in>set CONTROL_FIELDS. untouched f (set_fields (tool_policy_updates al cap wall b))"
  "\<forall>f\<in>set CONTROL_FIELDS. untouched f (tool_enabled_update fq on wall b)"
  "\<forall>f\<in>set CONTROL_FIELDS. untouched f (set_fields (egress_updates es wall b))"
  "\<forall>f\<in>set CONTROL_FIELDS. untouched f (set_fields (pip_updates es wall b))"
  by (simp_all add: CONTROL_FIELDS_def untouched_def tool_policy_updates_def policy_audit_def tool_enabled_update_def egress_updates_def
      pip_updates_def)

lemma provisioned_controls: "same_controls t (fl_tenants F) (fl_tenants (snd (provision_tenant sha s wall t F)))"
proof -
  have "controls_of (apply_update (provision_update db wall t) d) = controls_of d" for db d
    by (simp add: apply_update_def provision_update_def controls_of_def status_of_doc_def read_only_of_doc_def confirmation_of_doc_def
        vget_def vget_or_def each_field_def set_if_missing_def Let_def STATUS_ACTIVE_def split: option.split)
  then show ?thesis by (auto simp: same_controls_def provisioned_others provisioned_own)
qed

section \<open>Every handler\<close>

lemma opened_tenant:
  assumes "\<not> is_platform_admin s a" and "open_tenant role s now a wanted w = (x, w1)"
  shows "curates_own t w w1" and "x = Inr u \<Longrightarrow> u = ad_tenant a"
  using assms target_of_plain [OF assms(1)] curates_caches(1)
  by (auto simp: open_tenant_def curates_refl split: option.splits prod.splits if_splits)

text \<open>How every one of these handlers goes on once the tenant is open.\<close>
lemma curates_opened:
  assumes "\<not> is_platform_admin s a" and "\<And>t w1. curates_own t w1 (snd (f t w1))"
  shows "curates_own (ad_tenant a) w (snd (case open_tenant role s now a wanted w of (Inl e, w1) \<Rightarrow> (Inl e, w1) | (Inr t, w1) \<Rightarrow> f t w1))"
proof -
  obtain x w1 where o': "open_tenant role s now a wanted w = (x, w1)" by fastforce
  note o1 = opened_tenant [OF assms(1) o']
  show ?thesis
  proof (cases x)
    case (Inr t)
    have "curates_own t w (snd (f t w1))" by (rule curates_trans [OF o1(1) assms(2)])
    moreover have "t = ad_tenant a" by (rule o1(2)) (rule Inr)
    ultimately show ?thesis by (simp add: o' Inr)
  qed (simp add: o' o1)
qed

lemma setters_keep:
  "set_tool_policy ttl wall now ds c t al cap b = r1 \<Longrightarrow> same_controls t ds (fst (snd r1))"
  "set_tool_enabled ttl wall now ds c t server tool on b = r2 \<Longrightarrow> same_controls t ds (fst (snd r2))"
  "set_tenant_egress_allowlist ttl wall now ds c' t es b = Inr r3 \<Longrightarrow> same_controls t ds (fst (snd r3))"
  "set_tenant_pip_allowlist ttl wall now ds c' t ps b = Inr r4 \<Longrightarrow> same_controls t ds (fst (snd r4))"
proof -
  note k = curating_fields [THEN curated_controls]
  show "set_tool_policy ttl wall now ds c t al cap b = r1 \<Longrightarrow> same_controls t ds (fst (snd r1))"
    using k(1) [of t ds al cap wall b] by (auto simp: set_tool_policy_def split: prod.splits option.splits)
  show "set_tool_enabled ttl wall now ds c t server tool on b = r2 \<Longrightarrow> same_controls t ds (fst (snd r2))"
    using k(2) [of t ds "fq_tool server tool" on wall b] by (auto simp: set_tool_enabled_def split: prod.splits option.splits)
  show "same_controls t ds (fst (snd r3))" if h: "set_tenant_egress_allowlist ttl wall now ds c' t es b = Inr r3"
  proof -
    obtain n where n: "validate_entries es = Inr n" using h by (auto simp: set_tenant_egress_allowlist_def split: sum.splits)
    show ?thesis using k(3) [of t ds n wall b] h by (auto simp: set_tenant_egress_allowlist_def n split: prod.splits option.splits)
  qed
  show "same_controls t ds (fst (snd r4))" if h: "set_tenant_pip_allowlist ttl wall now ds c' t ps b = Inr r4"
  proof -
    obtain n where n: "validate_allowlist_entries ps = Inr n" using h by (auto simp: set_tenant_pip_allowlist_def split: sum.splits)
    show ?thesis using k(4) [of t ds n wall b] h by (auto simp: set_tenant_pip_allowlist_def n split: prod.splits option.splits)
  qed
qed

lemma reading_curates: "curates_own t w (snd (get_tenant_tool_policy s now a v w))"
  using curates_caches(2) by (auto simp: get_tenant_tool_policy_def curates_refl split: sum.split prod.split)

lemma tool_policy_curates:
  assumes "\<not> is_platform_admin s a"
  shows "curates_own (ad_tenant a) w (snd (put_tenant_tool_policy s wall now a wanted al cap w))"
  unfolding put_tenant_tool_policy_def
proof (rule curates_opened [OF assms])
  fix t w1
  obtain d ds c where r: "set_tool_policy (status_cache_ttl s) wall now (control_docs w1) (ta_policy w1) t al cap (Some (ad_user a)) = (d, ds, c)"
    by (rule prod_cases3)
  have k: "curates_own t w1 ((set_control ds w1)\<lparr>ta_policy := c\<rparr>)"
    using curates_trans [OF curates_docs curates_caches(2)] setters_keep(1) [OF r] by simp
  show "curates_own t w1 (snd (case set_tool_policy (status_cache_ttl s) wall now (control_docs w1) (ta_policy w1) t al cap (Some (ad_user a)) of
      (d, ds, c) \<Rightarrow> let w2 = set_control ds w1\<lparr>ta_policy := c\<rparr> in if d = None then (Inl 404, w2) else get_tenant_tool_policy s now a t w2))"
    using k curates_trans [OF k reading_curates] by (simp add: r Let_def)
qed

lemma tool_switch_curates:
  assumes "\<not> is_platform_admin s a"
  shows "curates_own (ad_tenant a) w (snd (set_tool_enabled_endpoint s wall now a server tool on wanted w))"
  unfolding set_tool_enabled_endpoint_def
proof (rule curates_opened [OF assms])
  fix t w1
  let ?r = "set_tool_enabled (status_cache_ttl s) wall now (control_docs w1) (ta_policy w1) t server tool on (Some (ad_user a))"
  obtain d ds c where r: "?r = (d, ds, c)" by (rule prod_cases3)
  have "curates_own t w1 ((set_control ds w1)\<lparr>ta_policy := c\<rparr>)"
    using curates_trans [OF curates_docs curates_caches(2)] setters_keep(2) [OF r] by simp
  then show "curates_own t w1 (snd (if find_one [(''server'', CEq (VStr server)), (''name'', CEq (VStr tool))] (ta_catalog w1 t) = None then (Inl 404, w1)
      else case ?r of (d, ds, c) \<Rightarrow> (if d = None then Inl 404 else Inr (), set_control ds w1\<lparr>ta_policy := c\<rparr>)))"
    by (simp add: r curates_refl)
qed

lemma egress_curates:
  assumes "\<not> is_platform_admin s a"
  shows "curates_own (ad_tenant a) w (snd (put_egress_allowlist s wall now a wanted es w))"
  unfolding put_egress_allowlist_def
proof (rule curates_opened [OF assms])
  fix t w1
  let ?r = "set_tenant_egress_allowlist (egress_cache_ttl s) wall now (control_docs w1) (ta_egress w1) t es (Some (ad_user a))"
  have "curates_own t w1 ((set_control ds w1)\<lparr>ta_egress := c\<rparr>)" if "?r = Inr (d, ds, c)" for d ds c
    using curates_trans [OF curates_docs curates_caches(4)] setters_keep(3) [OF that] by simp
  then show "curates_own t w1 (snd (case ?r of Inl e \<Rightarrow> (Inl 422, w1)
      | Inr (d, ds, c) \<Rightarrow> (if d = None then Inl 404 else Inr (egress_allowlist_response s d), set_control ds w1\<lparr>ta_egress := c\<rparr>)))"
    by (auto simp: curates_refl split: sum.split prod.split)
qed

lemma pip_curates:
  assumes "\<not> is_platform_admin s a"
  shows "curates_own (ad_tenant a) w (snd (put_code_requirements_policy s wall now a wanted es w))"
  unfolding put_code_requirements_policy_def
proof (rule curates_opened [OF assms])
  fix t w1
  let ?r = "set_tenant_pip_allowlist (status_cache_ttl s) wall now (control_docs w1) (ta_pip w1) t es (Some (ad_user a))"
  have "curates_own t w1 ((set_control ds w1)\<lparr>ta_pip := c\<rparr>)" if "?r = Inr (d, ds, c)" for d ds c
    using curates_trans [OF curates_docs curates_caches(3)] setters_keep(4) [OF that] by simp
  then show "curates_own t w1 (snd (case ?r of Inl e \<Rightarrow> (Inl 422, w1)
      | Inr (d, ds, c) \<Rightarrow> (if d = None then Inl 404 else Inr (pip_policy_response s d), set_control ds w1\<lparr>ta_pip := c\<rparr>)))"
    by (auto simp: curates_refl split: sum.split prod.split)
qed

lemma env_curates:
  assumes "\<not> is_platform_admin s a"
  shows "curates_own (ad_tenant a) w (snd (put_server_env ce s wall now a server us wanted w))"
proof -
  have "curates_own t w1 (w1\<lparr>ta_secrets := (ta_secrets w1)(t := ds)\<rparr>)" for t w1 ds by (simp add: curates_own_def same_controls_refl)
  then show ?thesis unfolding put_server_env_def
    by (intro curates_opened [OF assms]) (auto simp: Let_def curates_refl simp del: matches_key split: option.split)
qed

lemma tenant_step_curates:
  assumes "\<not> is_platform_admin s a"
  shows "curates_own (ad_tenant a) w (tenant_admin_step sha s a q w)"
proof -
  have new: "curates_own (ad_tenant a) w (snd (create_tenant sha s wall a t w))" for wall t
  proof (cases "resolve_target_tenant s a t")
    case (Some u)
    obtain db fl where fl: "provision_tenant sha s wall u (ta_fleet w) = (db, fl)" by fastforce
    have "same_controls u (control_docs w) (fl_tenants fl)" using provisioned_controls [of u "ta_fleet w" sha s wall] by (simp add: fl)
    moreover have "set (fl_databases (ta_fleet w)) \<subseteq> set (fl_databases fl)" using fl by (auto simp: provision_tenant_def Let_def)
    ultimately have "curates_own u w (snd (create_tenant sha s wall a t w))" by (simp add: create_tenant_def Some fl curates_own_def)
    then show ?thesis using target_of_plain [OF assms Some] by simp
  qed (simp add: create_tenant_def curates_refl)
  have no: "\<not> require_platform_admin s a" using assms by (simp add: require_platform_admin_def)
  show ?thesis
    using new tool_policy_curates tool_switch_curates egress_curates pip_curates env_curates assms no curates_refl
    by (simp add: tenant_admin_step_def delete_tenant_def restore_tenant_endpoint_def set_tenant_status_endpoint_def
        set_tenant_confirmation_endpoint_def set_tenant_read_only_endpoint_def update_tenant_quota_def split: prod.split tenant_request.split)
qed

text \<open>The interface of \<open>AdminGuards\<close>, provided by the handlers of tenants.\<close>
interpretation tenants_admin: confined_admin "is_platform_admin s" "tenant_admin_step sha s" curates_own for s sha
  by unfold_locales (auto intro: curates_refl curates_trans tenant_step_curates)

text \<open>C34. Whatever administrators of one tenant ask of the tenant handlers: a tenant on record stays on record, with the status, the
  freeze, the tier and the due purge the platform has given it and with its quota, and of other tenants nothing changes.\<close>
theorem controls_stay_with_the_platform:
  assumes "\<forall>(a, q)\<in>set qs. \<not> is_platform_admin s a \<and> ad_tenant a = t"
    and "w' = fold (\<lambda>(a, q). tenant_admin_step sha s a q) qs w" and "find_tenant (control_docs w) u = Some d"
  shows "\<exists>d'. find_tenant (control_docs w') u = Some d' \<and> controls_of d' = controls_of d
     \<and> (u \<noteq> t \<longrightarrow> d' = d \<and> ta_secrets w' u = ta_secrets w u)
     \<and> get_effective_quota s u (ta_meter w') = get_effective_quota s u (ta_meter w)
     \<and> set (fl_databases (ta_fleet w)) \<subseteq> set (fl_databases (ta_fleet w'))"
proof -
  have "curates_own t w w'" unfolding assms(2) by (rule tenants_admin.history_same [where s = s]) (use assms(1) in auto)
  then show ?thesis using assms(3) by (cases "u = t") (auto simp: curates_own_def same_controls_def)
qed


section \<open>Secrets at rest\<close>

text \<open>Every stored secret is ciphertext under a key that no path or operator of the database can be made of.\<close>
definition secrets_sealed :: "tenant_admin \<Rightarrow> bool" where
  "secrets_sealed w =
     (\<forall>t. \<forall>d\<in>set (ta_secrets w t). \<forall>vs. vget d ''values'' = VDict vs \<longrightarrow>
        (\<forall>(k, v)\<in>set vs. is_encrypted_token v \<and> k \<noteq> [] \<and> CHR ''.'' \<notin> set k \<and> \<not> startswith k ''$''))"

lemma sealed_token:
  assumes "raw \<noteq> []"
  shows "is_encrypted_token (encrypt_raw_code ce s t raw)"
  using assms by (simp add: encrypt_raw_code_def encrypt_tenant_api_key_def encrypt_api_key_def is_encrypted_token_def ENCRYPTED_PREFIXES_def startswith_def)

lemma in_dput: "(k, v) \<in> set (dput key x d) \<Longrightarrow> (k, v) \<in> set d \<or> (k = key \<and> v = x)"
  by (induction d) (auto simp: dput_def split: if_splits)

lemma merged_secrets:
  assumes "merge_secrets ce s t us vs = Some vs'" and "(k, v) \<in> set vs'"
  shows "(k, v) \<in> set vs \<or> (is_encrypted_token v \<and> k \<noteq> [] \<and> CHR ''.'' \<notin> set k \<and> \<not> startswith k ''$'')"
  using assms
proof (induction ce s t us vs rule: merge_secrets.induct)
  case (2 ce s t k0 raw rest vals)
  obtain key where key: "validate_secret_key k0 = Some key" using 2(2) by (cases "validate_secret_key k0") simp_all
  let ?token = "encrypt_raw_code ce s t raw"
  let ?next = "if raw = [] \<or> \<not> truthy ?token then dpop key vals else dput key ?token vals"
  have m: "merge_secrets ce s t rest ?next = Some vs'" using 2(2) by (simp add: key Let_def)
  from 2(1) [OF key refl m 2(3)] show ?case
  proof
    assume k: "(k, v) \<in> set ?next"
    have pop: "(k, v) \<in> set (dpop key vals) \<Longrightarrow> (k, v) \<in> set vals" by (auto simp: dpop_def)
    show ?thesis
    proof (cases "raw = [] \<or> \<not> truthy ?token")
      case True
      then show ?thesis using k pop by simp
    next
      case False
      then show ?thesis using k in_dput [of k v key ?token vals] sealed_token [of raw ce s t] key
        by (auto simp: validate_secret_key_def Let_def split: if_splits)
    qed
  qed simp
qed simp

lemma opened_secrets:
  "ta_secrets (snd (open_tenant role s now a wanted w)) = ta_secrets w"
  by (simp add: open_tenant_def split: option.split prod.split)

lemma opened_keeps_secrets:
  assumes "\<And>t w1. ta_secrets (snd (f t w1)) = ta_secrets w1"
  shows "ta_secrets (snd (case open_tenant role s now a wanted w of (Inl e, w1) \<Rightarrow> (Inl e, w1) | (Inr t, w1) \<Rightarrow> f t w1)) = ta_secrets w"
  using opened_secrets [of role s now a wanted w] assms by (auto split: prod.split sum.split)

lemma only_env_writes_secrets:
  "ta_secrets (snd (put_tenant_tool_policy s wall now a t al cap w)) = ta_secrets w"
  "ta_secrets (snd (set_tool_enabled_endpoint s wall now a server tool on wanted w)) = ta_secrets w"
  "ta_secrets (snd (put_egress_allowlist s wall now a t es w)) = ta_secrets w"
  "ta_secrets (snd (put_code_requirements_policy s wall now a t ps w)) = ta_secrets w"
  "ta_secrets (snd (create_tenant sha s wall a t w)) = ta_secrets w"
  "ta_secrets (snd (delete_tenant sha drp s wall now a t hard w)) = ta_secrets w"
  "ta_secrets (snd (restore_tenant_endpoint s wall now a t w)) = ta_secrets w"
  "ta_secrets (snd (set_tenant_status_endpoint s wall now a t st reason w)) = ta_secrets w"
  "ta_secrets (snd (set_tenant_confirmation_endpoint s wall now a t conf w)) = ta_secrets w"
  "ta_secrets (snd (set_tenant_read_only_endpoint s wall now a t on reason w)) = ta_secrets w"
  "ta_secrets (snd (update_tenant_quota s wall a t calls seconds w)) = ta_secrets w"
proof -
  have read: "ta_secrets (snd (get_tenant_tool_policy s now a t w)) = ta_secrets w" for t w
    by (simp add: get_tenant_tool_policy_def split: sum.split prod.split)
  show "ta_secrets (snd (put_tenant_tool_policy s wall now a t al cap w)) = ta_secrets w"
    unfolding put_tenant_tool_policy_def by (rule opened_keeps_secrets) (simp add: read set_control_def Let_def split: prod.split)
  show "ta_secrets (snd (set_tool_enabled_endpoint s wall now a server tool on wanted w)) = ta_secrets w"
    unfolding set_tool_enabled_endpoint_def by (rule opened_keeps_secrets) (simp add: set_control_def split: prod.split)
  show "ta_secrets (snd (put_egress_allowlist s wall now a t es w)) = ta_secrets w"
    unfolding put_egress_allowlist_def by (rule opened_keeps_secrets) (simp add: set_control_def split: prod.split sum.split)
  show "ta_secrets (snd (put_code_requirements_policy s wall now a t ps w)) = ta_secrets w"
    unfolding put_code_requirements_policy_def by (rule opened_keeps_secrets) (simp add: set_control_def split: prod.split sum.split)
  show "ta_secrets (snd (create_tenant sha s wall a t w)) = ta_secrets w" by (simp add: create_tenant_def split: option.split prod.split)
  show "ta_secrets (snd (delete_tenant sha drp s wall now a t hard w)) = ta_secrets w" by (simp add: delete_tenant_def split: option.split prod.split)
  show "ta_secrets (snd (restore_tenant_endpoint s wall now a t w)) = ta_secrets w" by (simp add: restore_tenant_endpoint_def split: prod.split)
  show "ta_secrets (snd (set_tenant_status_endpoint s wall now a t st reason w)) = ta_secrets w"
    by (simp add: set_tenant_status_endpoint_def split: option.split prod.split)
  show "ta_secrets (snd (set_tenant_confirmation_endpoint s wall now a t conf w)) = ta_secrets w"
    by (simp add: set_tenant_confirmation_endpoint_def set_control_def Let_def split: option.split prod.split)
  show "ta_secrets (snd (set_tenant_read_only_endpoint s wall now a t on reason w)) = ta_secrets w"
    by (simp add: set_tenant_read_only_endpoint_def set_control_def split: prod.split)
  show "ta_secrets (snd (update_tenant_quota s wall a t calls seconds w)) = ta_secrets w"
    by (simp add: update_tenant_quota_def split: option.split prod.split)
qed

lemma sealed_same: "ta_secrets w' = ta_secrets w \<Longrightarrow> secrets_sealed w' = secrets_sealed w"
  by (simp add: secrets_sealed_def)

lemma stored_env_sealed:
  assumes "secrets_sealed w" and "(k, v) \<in> set (stored_env server (ta_secrets w t))"
  shows "is_encrypted_token v \<and> k \<noteq> [] \<and> CHR ''.'' \<notin> set k \<and> \<not> startswith k ''$''"
proof -
  let ?q = "key_query ''_id'' server"
  obtain d where d: "find_one ?q (ta_secrets w t) = Some d" using assms(2) by (cases "find_one ?q (ta_secrets w t)") (simp_all add: stored_env_def)
  then obtain vs where vs: "vget d ''values'' = VDict vs" "(k, v) \<in> set vs"
    using assms(2) by (cases "vget d ''values''") (simp_all add: stored_env_def del: matches_key)
  have "d \<in> set (ta_secrets w t)" using d by (auto simp: find_one_def find_Some_iff)
  then show ?thesis using assms(1) vs unfolding secrets_sealed_def by blast
qed

lemma saved_env:
  assumes "d \<in> set (save_env t server wall actor new ds)"
  shows "d \<in> set ds \<or> vget d ''values'' = VDict new"
proof (cases "new = []")
  case True
  then have "d \<in> set (delete_one (key_query ''_id'' server) ds)" using assms by (simp only: save_env_def simp_thms if_False)
  then show ?thesis by (blast dest: in_deleted_one)
next
  case False
  then have "d \<in> set (replace_one (key_query ''_id'' server) [(''_id'', VStr server), (''tenant_id'', VStr t), (''server'', VStr server),
      (''values'', VDict new), (''updated_at'', VTime wall), (''updated_by'', VStr actor)] True ds)"
    using assms by (simp only: save_env_def simp_thms if_True)
  from in_replaced [OF this] show ?thesis
  proof
    assume "d = [(''_id'', VStr server), (''tenant_id'', VStr t), (''server'', VStr server),
      (''values'', VDict new), (''updated_at'', VTime wall), (''updated_by'', VStr actor)]"
    then show ?thesis by (simp add: vget_def)
  qed simp
qed

lemma env_seals:
  assumes "secrets_sealed w"
  shows "secrets_sealed (snd (put_server_env ce s wall now a server us wanted w))"
proof -
  obtain x w1 where o': "open_tenant True s now a (opt_text wanted) w = (x, w1)" by fastforce
  have "ta_secrets w1 = ta_secrets w" using opened_secrets [of True s now a "opt_text wanted" w] by (simp add: o')
  from sealed_same [OF this] have w1: "secrets_sealed w1" using assms by simp
  have new: "secrets_sealed (w1\<lparr>ta_secrets := (ta_secrets w1)(t := save_env t server wall u vs (ta_secrets w1 t))\<rparr>)"
    if m: "merge_secrets ce s t us (stored_env server (ta_secrets w1 t)) = Some vs" for t u vs
    unfolding secrets_sealed_def
  proof (intro allI ballI impI, goal_cases)
    case (1 t' d ws p)
    obtain k v where p: "p = (k, v)" by (cases p)
    have "d \<in> set (ta_secrets w1 t') \<or> vget d ''values'' = VDict vs"
    proof (cases "t' = t")
      case True
      then have "d \<in> set (save_env t server wall u vs (ta_secrets w1 t))" using 1(1) by simp
      then show ?thesis unfolding True by (rule saved_env)
    qed (use 1(1) in simp)
    then show ?case
    proof
      assume "d \<in> set (ta_secrets w1 t')"
      then show ?thesis using 1(2,3) w1 unfolding secrets_sealed_def by blast
    next
      assume "vget d ''values'' = VDict vs"
      then have "(k, v) \<in> set vs" using 1(2,3) p by simp
      then show ?thesis unfolding p prod.case using merged_secrets [OF m, of k v] stored_env_sealed [OF w1, of k v server t] by blast
    qed
  qed
  show ?thesis
  proof (cases x)
    case (Inr t)
    show ?thesis
    proof (cases "merge_secrets ce s t us (stored_env server (ta_secrets w1 t))")
      case None
      then show ?thesis using w1 by (simp add: put_server_env_def o' Inr del: matches_key)
    next
      case (Some vs)
      show ?thesis using w1 new [OF Some] by (simp add: put_server_env_def o' Inr Some Let_def del: matches_key)
    qed
  qed (simp add: put_server_env_def o' w1)
qed

text \<open>Whoever asks whatever of the tenant handlers: the secrets of servers are stored as ciphertext only, under keys without a dot
  or a leading dollar.\<close>
theorem secrets_stay_sealed:
  assumes "secrets_sealed w"
  shows "secrets_sealed (fold (\<lambda>(a, q). tenant_admin_step sha s a q) qs w)"
  using assms
proof (induction qs arbitrary: w)
  case (Cons x qs)
  obtain a wall now r where x: "x = (a, wall, now, r)" by (cases x) auto
  have "secrets_sealed (tenant_admin_step sha s a (wall, now, r) w)"
    using Cons.prems env_seals by (cases r) (simp_all add: tenant_admin_step_def only_env_writes_secrets [THEN sealed_same])
  then show ?case using Cons.IH by (simp add: x)
qed simp

text \<open>Suspending a tenant that has been deleted ends the deletion: it can no longer be restored and no sweep purges it.\<close>
lemma suspension_cancels_deletion:
  assumes "set_tenant_status_endpoint s wall now a t STATUS_SUSPENDED reason w = (Inr r, w')" and "is_platform_admin s a"
  shows "fst (restore_tenant_endpoint s wall' now' a t w') = Inl 404"
    and "\<not> matches (the (find_tenant (control_docs w') t)) (claim_query cutoff failed)"
proof -
  let ?u = "set_fields (status_updates STATUS_SUSPENDED wall (Some (ad_user a)) reason [])"
  have norm: "normalize_status STATUS_SUSPENDED = Some STATUS_SUSPENDED" by code_simp
  have un: "untouched ''tenant_id'' ?u" by (simp add: untouched_def status_updates_def dmerge_def dput_def)
  obtain d where d: "find_tenant (control_docs w) t = Some d"
    using assms by (cases "find_tenant (control_docs w) t")
      (auto simp: set_tenant_status_endpoint_def require_platform_admin_def set_tenant_status_def norm tenants.modify_missing)
  have w': "control_docs w' = snd (update_tenant t ?u (control_docs w))"
    using assms tenants.modify_result [OF d, of ?u]
    by (cases "update_tenant t ?u (control_docs w)") (auto simp: set_tenant_status_endpoint_def require_platform_admin_def set_tenant_status_def norm)
  obtain e where f: "find_tenant (control_docs w') t = Some e" and st: "vget e ''status'' = VStr STATUS_SUSPENDED"
  proof
    show "find_tenant (control_docs w') t = Some (apply_update ?u d)" unfolding w' by (rule tenants.lookup_same [OF d un])
    show "vget (apply_update ?u d) ''status'' = VStr STATUS_SUSPENDED" by (simp add: status_updates_def vget_def dmerge_def)
  qed
  show "fst (restore_tenant_endpoint s wall' now' a t w') = Inl 404"
    using assms(2) by (simp add: restore_tenant_endpoint_def require_platform_admin_def restore_tenant_def f st py_str_def status_defs)
  show "\<not> matches (the (find_tenant (control_docs w') t)) (claim_query cutoff failed)"
    by (simp add: f claim_query_def resolve_plain st status_defs)
qed

section \<open>Witnesses\<close>

definition root_admin :: admin_caller where
  "root_admin = \<lparr>ad_user = ''root'', ad_tenant = ''default'', ad_roles = [''platform-admin''], ad_header_tenant = None\<rparr>"

definition demo_tenants_world :: tenant_admin where
  "demo_tenants_world = \<lparr>ta_fleet = demo_fleet, ta_frozen = Map.empty, ta_tier = Map.empty, ta_policy = Map.empty, ta_pip = Map.empty,
     ta_egress = Map.empty, ta_meter = \<lparr>usage_counters = [], tenant_quotas = [], usage_events = []\<rparr>, ta_catalog = (\<lambda>_. []),
     ta_routing = (\<lambda>_. [[(''_id'', VStr ''crm'')]]), ta_secrets = (\<lambda>_. [])\<rparr>"

lemma demo_callers:
  "\<not> is_platform_admin default_settings demo_tenant_admin" "ad_tenant demo_tenant_admin = ''acme''" "is_platform_admin default_settings root_admin"
  "resolve_target_tenant default_settings demo_tenant_admin [] = Some ''acme''"
  by (simp_all add: is_platform_admin_def demo_tenant_admin_def root_admin_def default_settings_def resolve_target_tenant_def or_text_def opt_or_def)

definition demo_requests :: "(admin_caller \<times> real \<times> real \<times> tenant_request) list" where
  "demo_requests =
     [(demo_tenant_admin, 1, 1, PutEgress ''acme'' [''api.vendor.com'']), (demo_tenant_admin, 2, 2, SetStatus ''acme'' ''suspended'' None),
      (demo_tenant_admin, 3, 3, PutEnv demo_config_env ''crm'' [(''KEY'', ''v'')] None)]"

lemma controls_stay_with_the_platform_witness:
  "\<exists>d d'. find_tenant (control_docs demo_tenants_world) ''acme'' = Some d
     \<and> find_tenant (control_docs (fold (\<lambda>(a, q). tenant_admin_step demo_sha default_settings a q) demo_requests demo_tenants_world)) ''acme'' = Some d'
     \<and> controls_of d' = controls_of d"
proof -
  have own: "\<forall>(a, q)\<in>set demo_requests. \<not> is_platform_admin default_settings a \<and> ad_tenant a = ''acme''"
    using demo_callers by (simp add: demo_requests_def)
  have f: "find_tenant (control_docs demo_tenants_world) ''acme'' = Some [(''tenant_id'', VStr ''acme''), (''status'', VStr ''active'')]"
    by (simp add: demo_tenants_world_def demo_fleet_def find_tenant_def vget_def)
  from controls_stay_with_the_platform [OF own refl f, of demo_sha] f show ?thesis by blast
qed


lemma secrets_stay_sealed_witness:
  "secrets_sealed demo_tenants_world
   \<and> secrets_sealed (fold (\<lambda>(a, q). tenant_admin_step demo_sha default_settings a q) demo_requests demo_tenants_world)"
proof -
  have "secrets_sealed demo_tenants_world" by (simp add: secrets_sealed_def demo_tenants_world_def)
  from secrets_stay_sealed [OF this, of demo_sha default_settings demo_requests] this show ?thesis by simp
qed

end
