(* ===== verification/AdminTools.thy ===== *)
theory AdminTools
  imports AdminServers PendingActions DbBridge
begin

text \<open>\<open>gateway/routers/admin/code_tools.py\<close>, \<open>actions.py\<close> and \<open>explore.py\<close>: checking and trying out a code tool before
  it is saved, deciding pending actions, and reading a tenant's data through the database bridge.\<close>

section \<open>Checking a code tool\<close>

record code_candidate =
  cc_tenant :: "string option"
  cc_name :: string
  cc_code :: string
  cc_requirements :: "string list"
  cc_action :: string
  cc_schema :: doc

text \<open>An issue of the lint, or a package that the operator (True) or the tenant (False) does not permit.\<close>
datatype validation_issue = LintIssue issue | PackageIssue bool string

record validation_view =
  va_ok :: bool
  va_issues :: "validation_issue list"
  va_schema :: "doc option"

definition clean_requirements :: "string list \<Rightarrow> string list" where
  "clean_requirements reqs = filter (\<lambda>r. r \<noteq> []) (map strip reqs)"

definition pip_policy_issues :: "pip_decision \<Rightarrow> validation_issue list" where
  "pip_policy_issues d = map (PackageIssue True) (blocked_by_global d) @ map (PackageIssue False) (blocked_by_tenant d)"

fun issue_is_error :: "validation_issue \<Rightarrow> bool" where
  "issue_is_error (LintIssue i) = is_error i"
| "issue_is_error (PackageIssue g p) = True"

definition candidate_doc :: "code_candidate \<Rightarrow> doc" where
  "candidate_doc p =
     [(''name'', VStr (cc_name p)), (''raw_code'', VStr (cc_code p)),
      (''requirements'', VList (map VStr (clean_requirements (cc_requirements p)))),
      (''metadata'', VDict [(''action_type'', VStr (cc_action p))]), (''input_schema'', VDict (cc_schema p))]"

definition validate_code_tool_endpoint ::
  "parser \<Rightarrow> settings \<Rightarrow> real \<Rightarrow> admin_caller \<Rightarrow> docs \<Rightarrow> code_candidate \<Rightarrow> string list cache \<Rightarrow> (nat + validation_view) \<times> string list cache" where
  "validate_code_tool_endpoint parse s now a tenants p c =
     (if \<not> require_tenant_admin s a then (Inl 403, c)
      else case resolve_target_tenant s a (opt_text (cc_tenant p)) of
          None \<Rightarrow> (Inl 403, c)
        | Some t \<Rightarrow>
            (case validate_code_tool parse (candidate_doc p) of
               None \<Rightarrow> (Inl 500, c)
             | Some found \<Rightarrow>
                 (case evaluate_tenant_requirements s now tenants c t (clean_requirements (cc_requirements p)) of
                    (d, c1) \<Rightarrow>
                      (let issues = map LintIssue found @ pip_policy_issues d
                       in (Inr \<lparr>va_ok = (\<not> list_ex issue_is_error issues), va_issues = issues,
                              va_schema = suggest_input_schema parse (VStr (cc_code p)) (cc_name p)\<rparr>, c1)))))"

section \<open>Trying a code tool\<close>

record code_test =
  ct_tenant :: "string option"
  ct_code :: string
  ct_requirements :: "string list"
  ct_arguments :: doc
  ct_action :: string
  ct_confirm :: bool

datatype test_answer = TestOk doc int | TestRejected "issue_kind list" | TestPackages string | TestTimeout | TestError

definition test_caller :: "admin_caller \<Rightarrow> caller" where
  "test_caller a = \<lparr>ca_user = (if ad_user a = [] then ''admin-test'' else ad_user a), ca_scopes = [''server:*''], ca_roles = [''admin'']\<rparr>"

definition test_candidate :: "string \<Rightarrow> string \<Rightarrow> code_test \<Rightarrow> doc" where
  "test_candidate server tool p =
     [(''server'', VStr server), (''name'', VStr tool), (''description'', VStr ''sandbox test run''), (''raw_code'', VStr (ct_code p)),
      (''requirements'', VList (map VStr (clean_requirements (ct_requirements p)))),
      (''metadata'', VDict [(''action_type'', VStr (ct_action p)), (''requires_confirmation'', VBool (ct_confirm p))]),
      (''input_schema'', VDict []), (''scopes'', VList [])]"

text \<open>\<open>make_tool_invoker\<close> at depth 0: the relayed calls of the program.\<close>
definition test_invoker :: "settings \<Rightarrow> proxy_env \<Rightarrow> proxy_world \<Rightarrow> real \<Rightarrow> string \<Rightarrow> caller \<Rightarrow> invoker option" where
  "test_invoker s env w now t ca =
     (if \<not> cfg_sandbox_tool_bridge_enabled s \<or> cfg_sandbox_tool_call_max_depth s \<le> 0 then None
      else Some (relay_call s w now t ca
             (\<lambda>sv tl ar. call_nested (nat (cfg_sandbox_tool_call_max_depth s) - 1) s env w now 1 (Some ca) sv tl ar (Some t))))"

definition test_code_tool ::
  "parser \<Rightarrow> settings \<Rightarrow> proxy_env \<Rightarrow> proxy_world \<Rightarrow> real \<Rightarrow> admin_caller \<Rightarrow> string \<Rightarrow> string \<Rightarrow> code_test \<Rightarrow> proxy_state
   \<Rightarrow> (nat + test_answer) \<times> proxy_state" where
  "test_code_tool parse s env w now a server tool p st =
     (if \<not> require_tenant_admin s a then (Inl 403, st)
      else case resolve_target_tenant s a (opt_text (ct_tenant p)) of
          None \<Rightarrow> (Inl 403, st)
        | Some t \<Rightarrow>
            (case lint_code_tool parse (test_candidate server tool p) of
               None \<Rightarrow> (Inl 500, st)
             | Some (k # ks) \<Rightarrow> (Inr (TestRejected (k # ks)), st)
             | Some [] \<Rightarrow>
                 (let reqs = clean_requirements (ct_requirements p) in
                  case evaluate_tenant_requirements s now (pw_tenants w) (ps_pip st) t reqs of
                    (d, c) \<Rightarrow>
                      if \<not> decision_ok d then (Inr (TestPackages (decision_error_message d)), st\<lparr>ps_pip := c\<rparr>)
                      else
                        (let pol = (if reqs = [] then ([], c) else get_effective_pip_allowlist s now (pw_tenants w) c t);
                             relay = test_invoker s env w now t (test_caller a);
                             req = \<lparr>er_tenant = t, er_server = server, er_tool = tool, er_code = ct_code p, er_requirements = reqs,
                                    er_arguments = ct_arguments p, er_env = read_server_env env w t server, er_action = ct_action p,
                                    er_can_relay = (relay \<noteq> None), er_depth = 0, er_allowed = fst pol\<rparr>
                         in case run_script s env relay (pe_run env req) 0
                                  (st\<lparr>ps_pip := snd pol, ps_log := ps_log st @ [RanCode 0 t server tool]\<rparr>) of
                              (ExecOk payload ms, st2) \<Rightarrow> (Inr (TestOk payload ms), st2)
                            | (ExecTimeout, st2) \<Rightarrow> (Inr TestTimeout, st2)
                            | (_, st2) \<Rightarrow> (Inr TestError, st2)))))"

definition MAX_TEST_CONSOLE_CHARS :: nat where
  "MAX_TEST_CONSOLE_CHARS = 8000"

text \<open>The flag tells that the text was cut.\<close>
definition cap_console :: "string \<Rightarrow> (string \<times> bool) option" where
  "cap_console t =
     (if t = [] then None
      else if length t \<le> MAX_TEST_CONSOLE_CHARS then Some (t, False) else Some (take MAX_TEST_CONSOLE_CHARS t, True))"

section \<open>Pending actions\<close>

definition pending_action_response :: "doc \<Rightarrow> doc" where
  "pending_action_response d =
     [(''action_id'', VStr (text_field d ''_id'')), (''tenant_id'', VStr (text_field d ''tenant_id'')),
      (''user_id'', VStr (text_field d ''user_id'')), (''server'', VStr (text_field d ''server'')), (''tool'', VStr (text_field d ''tool'')),
      (''arguments'', case vget d ''arguments'' of VDict m \<Rightarrow> VDict m | _ \<Rightarrow> VDict []),
      (''action_type'', VStr (py_str (vget_or d ''action_type'' (VStr ''destructive'')))),
      (''status'', VStr (py_str (vget_or d ''status'' (VStr PENDING)))), (''created_at'', vget d ''created_at''),
      (''expires_at'', vget d ''expires_at''), (''decided_by'', vget d ''decided_by''), (''decided_at'', vget d ''decided_at'')]"

definition list_actions :: "settings \<Rightarrow> admin_caller \<Rightarrow> string option \<Rightarrow> string \<Rightarrow> docs \<Rightarrow> nat + docs" where
  "list_actions s a wanted status ds =
     (if \<not> require_tenant_admin s a then Inl 403
      else case resolve_target_tenant s a (opt_text wanted) of
          None \<Rightarrow> Inl 403 | Some t \<Rightarrow> Inr (map pending_action_response (list_pending_actions t status 500 ds)))"

definition decide_pending_action ::
  "settings \<Rightarrow> real \<Rightarrow> admin_caller \<Rightarrow> string \<Rightarrow> string option \<Rightarrow> bool \<Rightarrow> docs \<Rightarrow> (nat + doc) \<times> docs" where
  "decide_pending_action s now a aid wanted approve ds =
     (if \<not> require_tenant_admin s a then (Inl 403, ds)
      else case resolve_target_tenant s a (opt_text wanted) of
          None \<Rightarrow> (Inl 403, ds)
        | Some t \<Rightarrow>
            (case (if approve then approve_action now t aid (ad_user a) ds else reject_action now t aid (ad_user a) ds) of
               ((outcome, d), ds1) \<Rightarrow>
                 (case outcome of
                    DecisionNotFound \<Rightarrow> Inl 404
                  | SelfApprovalForbidden \<Rightarrow> Inl 403
                  | NotPending \<Rightarrow> Inl 409
                  | DecisionExpired \<Rightarrow> Inl 409
                  | DecisionOk \<Rightarrow> (case d of Some raw \<Rightarrow> Inr (pending_action_response raw) | None \<Rightarrow> Inl 500), ds1)))"

section \<open>Exploring data\<close>

text \<open>One bridge of five calls per request; None: 422.\<close>
definition bridge_read :: "db_env \<Rightarrow> settings \<Rightarrow> string \<Rightarrow> string \<Rightarrow> string \<Rightarrow> pyval list \<Rightarrow> doc \<Rightarrow> db_state \<Rightarrow> pyval option \<times> db_state" where
  "bridge_read env s t op coll args kwargs st =
     (case db_handle env s t ''read'' (Some 5)
             [(''id'', VStr (''admin-explore-'' @ op)), (''op'', VStr op), (''collection'', VStr coll), (''args'', VList args),
              (''kwargs'', VDict kwargs)] (st\<lparr>dbs_calls := 0\<rparr>) of
        (Inl e, st1) \<Rightarrow> (None, st1) | (Inr v, st1) \<Rightarrow> (Some v, st1))"

definition open_explorer :: "settings \<Rightarrow> admin_caller \<Rightarrow> string option \<Rightarrow> nat + string" where
  "open_explorer s a wanted =
     (if \<not> require_tenant_admin s a then Inl 403
      else if \<not> cfg_sandbox_db_bridge_enabled s then Inl 409
      else case resolve_target_tenant s a (opt_text wanted) of None \<Rightarrow> Inl 403 | Some t \<Rightarrow> Inr t)"

definition explore_limit :: "settings \<Rightarrow> int \<Rightarrow> int" where
  "explore_limit s n = max 1 (min n (cfg_sandbox_db_max_docs s))"

definition result_docs :: "pyval \<Rightarrow> docs" where
  "result_docs v = (case v of VList xs \<Rightarrow> List.map_filter as_doc xs | _ \<Rightarrow> [])"

definition explore_collections :: "settings \<Rightarrow> admin_caller \<Rightarrow> string option \<Rightarrow> (string \<Rightarrow> string list) \<Rightarrow> nat + string list" where
  "explore_collections s a wanted names =
     map_sum (\<lambda>e. e) (\<lambda>t. sort (filter (\<lambda>n. n \<noteq> [] \<and> \<not> startswith n ''system.'') (names t))) (open_explorer s a wanted)"

definition explore_sample ::
  "db_env \<Rightarrow> settings \<Rightarrow> admin_caller \<Rightarrow> string option \<Rightarrow> string \<Rightarrow> int \<Rightarrow> db_state \<Rightarrow> (nat + docs) \<times> db_state" where
  "explore_sample env s a wanted coll n st =
     (case open_explorer s a wanted of
        Inl e \<Rightarrow> (Inl e, st)
      | Inr t \<Rightarrow>
          (case bridge_read env s t ''find'' coll [VDict []] [(''limit'', VInt (explore_limit s n))] st of
             (None, st1) \<Rightarrow> (Inl 422, st1) | (Some v, st1) \<Rightarrow> (Inr (result_docs v), st1)))"

text \<open>Some stages: an aggregation; None: a query with the filter.\<close>
definition explore_query ::
  "db_env \<Rightarrow> settings \<Rightarrow> admin_caller \<Rightarrow> string option \<Rightarrow> string \<Rightarrow> pyval list option \<Rightarrow> doc \<Rightarrow> int \<Rightarrow> db_state \<Rightarrow> (nat + docs) \<times> db_state" where
  "explore_query env s a wanted coll stages flt n st =
     (case open_explorer s a wanted of
        Inl e \<Rightarrow> (Inl e, st)
      | Inr t \<Rightarrow>
          (case (case stages of
                   Some ps \<Rightarrow> bridge_read env s t ''aggregate'' coll [VList (filter (\<lambda>p. as_doc p \<noteq> None) ps)] [] st
                 | None \<Rightarrow> bridge_read env s t ''find'' coll [VDict flt] [(''limit'', VInt (explore_limit s n))] st) of
             (None, st1) \<Rightarrow> (Inl 422, st1) | (Some v, st1) \<Rightarrow> (Inr (result_docs v), st1)))"

section \<open>The check before saving and the check of saving\<close>

lemma lint_fields:
  assumes "\<forall>f\<in>{''name'', ''raw_code'', ''requirements'', ''input_schema''}. vget t f = vget u f"
    and "vget t ''metadata'' = VDict m" and "vget u ''metadata'' = VDict m'" and "vget m ''action_type'' = vget m' ''action_type''"
    and "m \<noteq> []" and "m' \<noteq> []"
  shows "validate_code_tool parse t = validate_code_tool parse u"
proof -
  have v: "vget t ''name'' = vget u ''name''" "vget t ''raw_code'' = vget u ''raw_code''" "vget t ''requirements'' = vget u ''requirements''"
    "vget t ''input_schema'' = vget u ''input_schema''"
    using assms(1) by simp_all
  have m: "py_or (VDict m) x = VDict m" "py_or (VDict m') x = VDict m'" for x using assms(5,6) by (simp_all add: py_or_def truthy_def)
  show ?thesis unfolding validate_code_tool_def v assms(2,3) m by (cases "py_or (vget u ''name'') (VStr [])") (simp_all add: assms(4))
qed

lemma clean_id: "\<forall>r\<in>set reqs. strip r = r \<and> r \<noteq> [] \<Longrightarrow> clean_requirements reqs = reqs"
proof (induction reqs)
  case (Cons r reqs)
  then show ?case by (simp add: clean_requirements_def)
qed (simp add: clean_requirements_def)

lemma decision_issues: "list_ex issue_is_error (pip_policy_issues d) \<longleftrightarrow> \<not> decision_ok d"
proof -
  have "list_ex issue_is_error (map (PackageIssue g) xs) \<longleftrightarrow> xs \<noteq> []" for g xs by (cases xs) simp_all
  then show ?thesis by (simp add: pip_policy_issues_def decision_ok_def list_ex_append)
qed

lemma lint_issues: "list_ex issue_is_error (map LintIssue found) = list_ex is_error found"
  by (induction found) simp_all


text \<open>An empty requirement is dropped by the check while typing, but saving refuses it.\<close>
lemma blank_requirement_is_refused_on_saving:
  assumes "vget tool ''raw_code'' = VStr src" and "\<not> is_encrypted_token (VStr src)" and "vget tool ''requirements'' = VList (map VStr reqs)"
    and "[] \<in> set reqs"
  shows "clean_requirements [[]] = []" and "fst (prepare_tool env s now tenants t server tool c) \<in> {Inl 422, Inl 500}"
proof -
  show "clean_requirements [[]] = []" by (simp add: clean_requirements_def strip_nospace)
  let ?tool1 = "if dget tool ''server'' = None then dput ''server'' server tool else tool"
  have v: "vget ?tool1 ''raw_code'' = VStr src" "vget ?tool1 ''requirements'' = VList (map VStr reqs)" using assms(1,3) by (simp_all add: vget_def)
  have blank: "\<not> pinned (VStr [])" by code_simp
  have "list_ex is_error (requirement_issues (map VStr reqs))"
    using assms(4) blank by (auto simp: requirement_issues_def list_ex_iff error_at_def)
  moreover have "iter_values (py_or (vget ?tool1 ''requirements'') (VList [])) = map VStr reqs"
    unfolding v using assms(4) by (auto simp: py_or_def truthy_def iter_values_def)
  ultimately have "lint_code_tool (se_parse env) ?tool1 \<noteq> Some []"
    by (auto simp: lint_code_tool_def validate_code_tool_def Let_def list_ex_iff filter_empty_conv split: pyval.splits if_splits)
  then show "fst (prepare_tool env s now tenants t server tool c) \<in> {Inl 422, Inl 500}"
    using v(1) assms(2) by (auto simp: prepare_tool_def Let_def split: option.split)
qed

section \<open>A trial run\<close>

lemma trial_relay:
  assumes "servers_keyed w" and "t \<noteq> []" and "test_invoker s env w now t ca = Some f"
  shows "adds (relayed_ok s w now t ca 0 (nat (max 0 (cfg_sandbox_tool_call_max_depth s)))) st (snd (f server tool args st))"
proof -
  let ?d = "nat (max 0 (cfg_sandbox_tool_call_max_depth s))"
  let ?call = "\<lambda>sv tl ar. call_nested (nat (cfg_sandbox_tool_call_max_depth s) - 1) s env w now 1 (Some ca) sv tl ar (Some t)"
  have f: "f = relay_call s w now t ca ?call" and pos: "0 < cfg_sandbox_tool_call_max_depth s"
    using assms(3) by (auto simp: test_invoker_def split: if_splits)
  show ?thesis unfolding f
  proof (rule relay_call_adds)
    fix server' tool' args' st' sv' c' authz
    assume au: "authz = fst (authorize_tool_call s now (pw_catalog w) (pw_tenants w) c' (Some t) server' tool'
        (map VStr (filter (\<lambda>x. x \<noteq> []) (ca_scopes ca))) (filter (\<lambda>x. x \<noteq> []) (ca_roles ca)))" "auth_allowed authz"
      "\<not> truthy (vget (meta_of (doc_or_empty (auth_tool authz))) ''requires_confirmation'')"
      and sv: "get_server s w server' (Some t) = Some sv'" "sv_transport sv' = ''code''"
    have r: "relayed_ok s w now t ca 0 ?d (RanCode 1 t server' tool')" using au pos by (auto simp: relayed_ok_def)
    have d: "1 + (nat (cfg_sandbox_tool_call_max_depth s) - 1) = ?d" using pos by simp
    have a: "adds (\<lambda>e. e = RanCode 1 t server' tool' \<or> relayed_ok s w now t ca 1 ?d e) st' (snd (?call server' tool' args' st'))"
      using nested_adds [OF assms(1,2) sv, of 1 tool' now ca "nat (cfg_sandbox_tool_call_max_depth s) - 1" st' env args'] unfolding d .
    show "adds (relayed_ok s w now t ca 0 ?d) st' (snd (?call server' tool' args' st'))"
      by (rule adds_mono [OF a]) (use r relayed_widen in fastforce)
  qed
qed

text \<open>What a trial run carries out, as cases of its answer.\<close>
lemma trial_effects:
  assumes "servers_keyed w" and "resolve_target_tenant s a (opt_text (ct_tenant p)) = Some t" and "t \<noteq> []"
    and "P (RanCode 0 t server tool)"
    and "\<And>e. relayed_ok s w now t (test_caller a) 0 (nat (max 0 (cfg_sandbox_tool_call_max_depth s))) e \<Longrightarrow> P e"
  shows "adds P st (snd (test_code_tool parse s env w now a server tool p st))"
proof -
  let ?relay = "test_invoker s env w now t (test_caller a)" and ?reqs = "clean_requirements (ct_requirements p)"
  have run: "adds P st0 (snd (run_script s env ?relay q 0 st0))" for q st0
    by (rule run_script_adds) (rule adds_mono [OF trial_relay [OF assms(1,3)]], assumption, rule assms(5))
  have started: "adds P st (snd (run_script s env ?relay q 0 (st\<lparr>ps_pip := c, ps_log := ps_log st @ [RanCode 0 t server tool]\<rparr>)))" for q c
    by (rule adds_trans [OF _ run]) (simp add: adds_def assms(4))
  obtain d c where ev: "evaluate_tenant_requirements s now (pw_tenants w) (ps_pip st) t ?reqs = (d, c)" by fastforce
  define pol where "pol = (if ?reqs = [] then ([], c) else get_effective_pip_allowlist s now (pw_tenants w) c t)"
  define req where "req = \<lparr>er_tenant = t, er_server = server, er_tool = tool, er_code = ct_code p, er_requirements = ?reqs,
                                    er_arguments = ct_arguments p, er_env = read_server_env env w t server, er_action = ct_action p,
                                    er_can_relay = (?relay \<noteq> None), er_depth = 0, er_allowed = fst pol\<rparr>"
  obtain r st2 where r: "run_script s env ?relay (pe_run env req) 0 (st\<lparr>ps_pip := snd pol, ps_log := ps_log st @ [RanCode 0 t server tool]\<rparr>) = (r, st2)"
    by fastforce
  have fin: "adds P st st2" using started [of "pe_run env req" "snd pol"] by (simp add: r)
  have same: "adds P st st" "adds P st (st\<lparr>ps_pip := c\<rparr>)" by (simp_all add: adds_def)
  show ?thesis unfolding test_code_tool_def assms(2) option.case ev prod.case Let_def pol_def [symmetric] req_def [symmetric] r
    using fin same by (simp split: option.split list.split exec_outcome.split)
qed

text \<open>Whatever source an administrator tries out: the run carries out that source in the caller's own tenant, and otherwise only
  relayed runs of the same tenant, within the nesting depth, of tools that exist, are not switched off and need no confirmation.\<close>
theorem trial_run_is_confined:
  assumes "servers_keyed w" and "resolve_target_tenant s a (opt_text (ct_tenant p)) = Some t" and "t \<noteq> []"
  shows "adds (\<lambda>e. e = RanCode 0 t server tool
              \<or> relayed_ok s w now t (test_caller a) 0 (nat (max 0 (cfg_sandbox_tool_call_max_depth s))) e) st
           (snd (test_code_tool parse s env w now a server tool p st))
     \<and> (\<not> is_platform_admin s a \<longrightarrow> t = ad_tenant a)"
proof -
  have "adds (\<lambda>e. e = RanCode 0 t server tool
              \<or> relayed_ok s w now t (test_caller a) 0 (nat (max 0 (cfg_sandbox_tool_call_max_depth s))) e) st
           (snd (test_code_tool parse s env w now a server tool p st))"
    by (rule trial_effects [OF assms]) simp_all
  then show ?thesis using target_of_plain [OF _ assms(2)] by blast
qed

lemma run_script_logs: "\<exists>es. ps_log (snd (run_script s env (test_invoker s env w now t ca) q n st)) = ps_log st @ es"
  if "servers_keyed w" "t \<noteq> []"
proof -
  have "adds (\<lambda>e. True) st (snd (run_script s env (test_invoker s env w now t ca) q n st))"
    by (rule run_script_adds) (rule adds_mono [OF trial_relay [OF that]], assumption, rule TrueI)
  then show ?thesis by (auto simp: adds_def)
qed

lemma no_packages: "decision_ok (fst (evaluate_tenant_requirements s now db c t []))"
  by (simp add: evaluate_tenant_requirements_def evaluate_requirements_def decision_ok_def Let_def split: prod.split)

lemma switched_off_runs_nothing:
  assumes "\<not> cfg_code_tool_execution_enabled s"
  shows "adds (\<lambda>e. \<forall>d u sv tl. e \<noteq> RanCode d u sv tl) st (snd (call_nested n s env w now depth ca server tool args tid st))"
proof -
  have "adds (\<lambda>e. \<forall>d u sv tl. e \<noteq> RanCode d u sv tl) st (snd (call_tool_with s env w now depth relay server tool args tid st))" for relay
  proof (cases "get_server s w server (Some (resolve_tenant s tid))")
    case None
    then show ?thesis by (simp add: call_tool_with_def adds_def)
  next
    case (Some sv)
    have "adds (\<lambda>e. \<forall>d u sv tl. e \<noteq> RanCode d u sv tl) st (snd (attempt_loop env sv tool args call_attempts st))"
      by (rule attempt_adds) simp
    then show ?thesis using Some assms by (simp add: call_tool_with_def execute_code_tool_def adds_refl)
  qed
  then show ?thesis by (cases n) simp_all
qed

text \<open>The operator's switch for authored code does not reach the trial run: with it off no call of a tool hands anything to the
  sandbox, but the source an administrator tries out is handed to it all the same.\<close>
theorem trial_run_ignores_the_switch:
  assumes "\<not> cfg_code_tool_execution_enabled s" and "servers_keyed w" and "require_tenant_admin s a"
    and "resolve_target_tenant s a (opt_text (ct_tenant p)) = Some t" and "t \<noteq> []"
    and "lint_code_tool parse (test_candidate server tool p) = Some []" and "clean_requirements (ct_requirements p) = []"
  shows "RanCode 0 t server tool \<in> set (ps_log (snd (test_code_tool parse s env w now a server tool p st)))
     \<and> adds (\<lambda>e. \<forall>d u sv tl. e \<noteq> RanCode d u sv tl) st (snd (call_tool s env w now server tool args (Some t) ca st))"
proof
  let ?relay = "test_invoker s env w now t (test_caller a)"
  obtain d c where ev: "evaluate_tenant_requirements s now (pw_tenants w) (ps_pip st) t [] = (d, c)" by fastforce
  have ok: "decision_ok d" using no_packages [of s now "pw_tenants w" "ps_pip st" t] by (simp add: ev)
  have log: "RanCode 0 t server tool \<in> set (ps_log st2)"
    if "run_script s env ?relay q 0 (st\<lparr>ps_pip := c, ps_log := ps_log st @ [RanCode 0 t server tool]\<rparr>) = (r, st2)" for q r st2
    using run_script_logs [OF assms(2,5), of s env now "test_caller a" q 0 "st\<lparr>ps_pip := c, ps_log := ps_log st @ [RanCode 0 t server tool]\<rparr>"]
    by (auto simp: that)
  show "RanCode 0 t server tool \<in> set (ps_log (snd (test_code_tool parse s env w now a server tool p st)))"
    using log by (simp add: test_code_tool_def assms(3,4,6,7) ev ok Let_def split: prod.split exec_outcome.split)
  show "adds (\<lambda>e. \<forall>d u sv tl. e \<noteq> RanCode d u sv tl) st (snd (call_tool s env w now server tool args (Some t) ca st))"
    unfolding call_tool_def by (rule switched_off_runs_nothing) (rule assms(1))
qed

section \<open>Exploring only reads\<close>

lemma explored:
  assumes "dbs_issued st = []" and "bridge_read env s t op coll args kwargs st = (v, st')"
  shows "(u, c, req) \<in> set (dbs_issued st') \<Longrightarrow> u = t \<and> collection_allowed c \<and> reads req"
    and "driver_reads (db_driver env) \<Longrightarrow> dbs_data st' = dbs_data st"
proof -
  let ?st = "st\<lparr>dbs_calls := 0\<rparr>"
  have "session_ok env s t ''read'' (Some 5) ?st ?st" using assms(1) by (simp add: session_ok_def bridge_max_calls_def)
  from dispatch_keeps [OF this] have "session_ok env s t ''read'' (Some 5) ?st (snd (db_handle env s t ''read'' (Some 5) rpc ?st))" for rpc
    by (simp add: handle_state)
  moreover have "st' = snd (db_handle env s t ''read'' (Some 5)
      [(''id'', VStr (''admin-explore-'' @ op)), (''op'', VStr op), (''collection'', VStr coll), (''args'', VList args), (''kwargs'', VDict kwargs)] ?st)"
    (is "_ = snd ?h")
    using assms(2) unfolding bridge_read_def by (cases ?h; cases "fst ?h") simp_all
  ultimately have k: "session_ok env s t ''read'' (Some 5) ?st st'" by simp
  have b: "bridge_action ''read'' = ''read''" by (simp add: bridge_action_def ALLOWED_ACTION_TYPES_def)
  show "(u, c, req) \<in> set (dbs_issued st') \<Longrightarrow> u = t \<and> collection_allowed c \<and> reads req"
    using k by (auto simp: session_ok_def request_ok_def b)
  show "driver_reads (db_driver env) \<Longrightarrow> dbs_data st' = dbs_data st" using k by (simp add: session_ok_def b)
qed

lemma snd_reply: "snd (case r of (None, st1) \<Rightarrow> (Inl e, st1) | (Some v, st1) \<Rightarrow> (Inr (f v), st1)) = snd r"
  by (simp split: prod.split option.split)

text \<open>Whatever an administrator explores: only reads of collections of the tenant are sent.\<close>
lemma exploring_only_reads:
  assumes "dbs_issued st = []" and "open_explorer s a wanted = Inr t"
  shows "(u, c, req) \<in> set (dbs_issued (snd (explore_sample env s a wanted coll n st))) \<Longrightarrow> u = t \<and> collection_allowed c \<and> reads req"
    and "(u, c, req) \<in> set (dbs_issued (snd (explore_query env s a wanted coll stages flt n st))) \<Longrightarrow> u = t \<and> collection_allowed c \<and> reads req"
proof -
  have k: "(u, c, req) \<in> set (dbs_issued (snd (bridge_read env s t op coll args kwargs st))) \<Longrightarrow> u = t \<and> collection_allowed c \<and> reads req" for op args kwargs
    using explored(1) [OF assms(1)] by (cases "bridge_read env s t op coll args kwargs st") simp
  show "(u, c, req) \<in> set (dbs_issued (snd (explore_sample env s a wanted coll n st))) \<Longrightarrow> u = t \<and> collection_allowed c \<and> reads req"
    unfolding explore_sample_def assms(2) sum.case snd_reply by (rule k)
  show "(u, c, req) \<in> set (dbs_issued (snd (explore_query env s a wanted coll stages flt n st))) \<Longrightarrow> u = t \<and> collection_allowed c \<and> reads req"
    unfolding explore_query_def assms(2) sum.case snd_reply by (cases stages; simp only: option.case; erule k)
qed

section \<open>Witnesses\<close>

definition demo_candidate :: code_candidate where
  "demo_candidate = \<lparr>cc_tenant = None, cc_name = ''add'', cc_code = ''def add'', cc_requirements = [], cc_action = ''read'', cc_schema = []\<rparr>"

definition demo_test :: code_test where
  "demo_test = \<lparr>ct_tenant = None, ct_code = ''def add'', ct_requirements = [], ct_arguments = [], ct_action = ''read'', ct_confirm = False\<rparr>"

lemma demo_trial_lint: "lint_code_tool demo_parser (test_candidate ''calc'' ''add'' demo_test) = Some []"
  by (simp add: lint_code_tool_def validate_code_tool_def test_candidate_def demo_test_def clean_requirements_def source_issues_def demo_parser_def
      demo_checks hashable_def vget_def signature_issues_def MAX_RAW_CODE_BYTES_def requirement_issues_def py_or_def drift_filtered
      ALLOWED_ACTION_TYPES_def Let_def)

lemma demo_target: "resolve_target_tenant default_settings demo_tenant_admin [] = Some ''acme''" "require_tenant_admin default_settings demo_tenant_admin"
  by (simp_all add: demo_tenant_admin_def resolve_target_tenant_def or_text_def opt_or_def require_tenant_admin_def)


lemma trial_run_is_confined_witness:
  "adds (\<lambda>e. e = RanCode 0 ''acme'' ''calc'' ''add''
        \<or> relayed_ok default_settings demo_world 0 ''acme'' (test_caller demo_tenant_admin) 0
            (nat (max 0 (cfg_sandbox_tool_call_max_depth default_settings))) e) demo_proxy_state
     (snd (test_code_tool demo_parser default_settings demo_proxy_env demo_world 0 demo_tenant_admin ''calc'' ''add'' demo_test demo_proxy_state))"
proof -
  have "resolve_target_tenant default_settings demo_tenant_admin (opt_text (ct_tenant demo_test)) = Some ''acme''"
    using demo_target by (simp add: demo_test_def opt_text_def)
  from trial_run_is_confined [OF demo_servers(3) this] show ?thesis by blast
qed

lemma trial_run_ignores_the_switch_witness:
  "RanCode 0 ''acme'' ''calc'' ''add'' \<in> set (ps_log (snd (test_code_tool demo_parser (default_settings\<lparr>cfg_code_tool_execution_enabled := False\<rparr>)
     demo_proxy_env demo_world 0 demo_tenant_admin ''calc'' ''add'' demo_test demo_proxy_state)))"
proof -
  let ?s = "default_settings\<lparr>cfg_code_tool_execution_enabled := False\<rparr>"
  have "\<not> cfg_code_tool_execution_enabled ?s" by simp
  moreover have "require_tenant_admin ?s demo_tenant_admin" by (simp add: require_tenant_admin_def demo_tenant_admin_def)
  moreover have "resolve_target_tenant ?s demo_tenant_admin (opt_text (ct_tenant demo_test)) = Some ''acme''"
    by (simp add: demo_test_def demo_tenant_admin_def resolve_target_tenant_def or_text_def opt_or_def opt_text_def)
  moreover have "clean_requirements (ct_requirements demo_test) = []" by (simp add: demo_test_def clean_requirements_def)
  ultimately show ?thesis
    using trial_run_ignores_the_switch [of ?s demo_world demo_tenant_admin demo_test "''acme''" demo_parser "''calc''" "''add''", OF _ demo_servers(3)]
      demo_trial_lint by blast
qed

end
