(* ===== verification/Spec2Isabelle.thy ===== *)
theory Spec2Isabelle
  imports AccountTier ToolPolicy PipPolicy Egress AuthMw PendingActions RateLimit SemanticCache HybridSearch
    TenantLifecycle RpcDemo DbBridge HttpBridge EmbedFlight EmbedConfig CacheMigration Guardrails CodeLint
    Registration SandboxPool SandboxExecutor RunGuards AdminGuards AdminUsers AdminServers AdminTenants
    AdminTools
begin

text \<open>
  Verification development of \<open>m-gate\<close>, a multi-tenant gateway in front of tools of the Model Context Protocol.
  Callers reach tools over two surfaces, JSON-RPC (\<open>/rpc\<close>, \<open>gateway/routers/rpc.py\<close>) and MCP (\<open>/mcp\<close>,
  \<open>gateway/mcp_server.py\<close>); administrators change its state over \<open>/admin\<close>.

  \<^bold>\<open>A request's way through the program.\<close>
  The middlewares identify the caller (\<open>Jwks\<close>, \<open>Users\<close>, \<open>AuthMw\<close>), bound how often it may call (\<open>RateLimit\<close>)
  and screen what it says and what it is told (\<open>Guardrails\<close>, over the pattern matcher \<open>Regex\<close>).  The data plane
  (\<open>Rpc\<close>, \<open>Mcp\<close>) passes it through the gates of its tenant (\<open>TenantLifecycle\<close>, \<open>TenantStatus\<close>), the authorization
  (\<open>Authorization\<close>, over the tenant's \<open>ToolPolicy\<close>), quota and preflight (\<open>Usage\<close>, \<open>AccountTier\<close>) and, for tools that
  ask for it, an approval by somebody else (\<open>PendingActions\<close>).  Discovery is answered by \<open>HybridSearch\<close>.  A call is
  answered from the \<open>SemanticCache\<close> or carried out by the \<open>ProxyRegistry\<close>: over a transport, whose connections
  \<open>Egress\<close> (with \<open>IpAddr\<close>) confines, or in the sandbox, whose packages \<open>PipPolicy\<close> limits and whose program talks to
  the host through \<open>DbBridge\<close>, \<open>HttpBridge\<close> and the relay of tool calls.  Vectors come from \<open>Embeddings\<close> (concurrent
  requests: \<open>EmbedFlight\<close>), configured per platform and tenant by \<open>EmbedConfig\<close>; \<open>CacheMigration\<close> brings cached
  results to a new provider.

  \<^bold>\<open>Which theory models which files\<close> (all under \<open>src/\<close>).
  \<^item> \<open>Prelude\<close>, \<open>PyVal\<close>: the pieces of Python's library and the values the sources use.
  \<^item> \<open>Settings\<close>: \<open>config/settings.py\<close>; \<open>DocStore\<close>: the collections of \<open>tests/fakes.py\<close>, on which the program's own
    tests run every service, as the store of the model; \<open>TtlCache\<close>: the cached-setting scheme of five services.
  \<^item> \<open>TenantStatus\<close>, \<open>AccountTier\<close>, \<open>ToolPolicy\<close>, \<open>PipPolicy\<close>, \<open>PendingActions\<close>, \<open>Authorization\<close>: the file of
    \<open>services/\<close> of that name (\<open>tenant_status\<close>, \<open>account_tier\<close>, \<open>tenant_tool_policy\<close>, \<open>tenant_pip_policy\<close>, ...).
  \<^item> \<open>Egress\<close>: \<open>services/server_guard.py\<close>, \<open>egress_policy.py\<close>, \<open>tenant_egress.py\<close>, \<open>egress_transport.py\<close>.
  \<^item> \<open>Users\<close>: \<open>services/passwords.py\<close>, \<open>admin_session.py\<close>, \<open>users.py\<close>; \<open>Jwks\<close>, \<open>AuthMw\<close>: \<open>gateway/middleware/auth.py\<close> and
    \<open>rbac.py\<close>; \<open>RateLimit\<close>: \<open>gateway/middleware/ratelimit.py\<close>.
  \<^item> \<open>TenantLifecycle\<close>: \<open>services/tenant_provisioner.py\<close>; \<open>Usage\<close>: \<open>services/usage_metering.py\<close>, \<open>data_plane.py\<close>.
  \<^item> \<open>SemanticCache\<close>: \<open>services/cache_manager.py\<close>; \<open>CacheMigration\<close>: \<open>services/cache_migration.py\<close>; \<open>HybridSearch\<close>:
    \<open>services/hybrid_search.py\<close>.
  \<^item> \<open>ProxyRegistry\<close>, \<open>CallEffects\<close>: \<open>services/proxy_registry.py\<close>, \<open>sandbox_tool_bridge.py\<close>; \<open>DbBridge\<close>, \<open>HttpBridge\<close>:
    \<open>services/sandbox_db_bridge.py\<close>, \<open>sandbox_http_bridge.py\<close>.
  \<^item> \<open>Embeddings\<close>, \<open>EmbedFlight\<close>: \<open>services/embeddings.py\<close>; \<open>EmbedConfig\<close>: \<open>services/embedding_config.py\<close>, the status half of
    \<open>embedding_reprovision.py\<close>, \<open>gateway/routers/admin/embeddings.py\<close>.
  \<^item> \<open>Guardrails\<close>: \<open>services/guardrails.py\<close>, \<open>gateway/middleware/guardrails.py\<close>, \<open>span_extractor.py\<close>.
  \<^item> \<open>Rpc\<close>, \<open>RpcDemo\<close>: \<open>gateway/routers/rpc.py\<close>, \<open>models/jsonrpc.py\<close>, \<open>models/domain.py\<close>; \<open>Mcp\<close>: \<open>gateway/mcp_server.py\<close>.
  \<^item> \<open>CodeLint\<close>: \<open>services/code_tools.py\<close>; \<open>Registration\<close>: \<open>services/registration.py\<close>, \<open>gateway/routers/auth.py\<close>.
  \<^item> \<open>SandboxExecutor\<close>: \<open>services/sandbox_executor.py\<close>, \<open>sandbox_errors.py\<close> and the job protocol of \<open>sandbox_pool.py\<close>;
    \<open>RunGuards\<close>: the concurrency limits of the executor; \<open>SandboxPool\<close>: the pool of warm workers, with the desk it refines.
  \<^item> \<open>AdminGuards\<close>: the guards of \<open>gateway/routers/admin/_common.py\<close>; \<open>AdminUsers\<close>: \<open>users.py\<close>, \<open>AdminServers\<close>: \<open>servers.py\<close>,
    \<open>AdminTenants\<close>: \<open>tenants.py\<close> and \<open>tools.py\<close>, and \<open>AdminTools\<close>: \<open>code_tools.py\<close>, \<open>actions.py\<close> and \<open>explore.py\<close> of that
    directory.
  A definition has the name of the function it models (without the leading underscore), sometimes with a suffix or a
  prefix where HOL or another component has the name.  State is passed explicitly: a component's state is a record,
  collections are lists of documents, a per-process cache is a field, and what was sent or carried out is logged in a
  field that no operation reads.  An exception is the left side of a sum, or None where one kind is enough.

  \<^bold>\<open>Interfaces.\<close>  The locale \<open>keyed_collection\<close> (\<open>DocStore\<close>) states what services rely on of a collection,
  \<open>write_through_cache\<close> (\<open>TtlCache\<close>) what a replica's cache promises, \<open>breaker\<close> (\<open>Breaker\<close>) what a circuit breaker does, and 
  \<open>call_relation\<close> (\<open>CallEffects\<close>) what every step of a tool call keeps, and \<open>confined_admin\<close> (\<open>AdminGuards\<close>) what a handler of an
  administrator of one tenant must leave alone; each is interpreted on the definitions of the services that provide it.

  \<^bold>\<open>What the lemmas show.\<close>  Per component: that operations keep its invariant, what each branch returns, which bounds hold and
  which requests are refused; across components: that an executed call passed every gate, that effects stay in the
  caller's tenant, that exactly the answered calls are billed, that a tenant's administrators
  reach nothing of other tenants, and what the sandbox's bridges let a program do.
  Properties that state a defect are marked as such in their text.

  \<^bold>\<open>Bounds and fuel.\<close>  A walk over pages takes as many pages as the catalog has, plus one; relayed tool calls nest at most
  \<open>sandbox_tool_call_max_depth\<close> deep, which is the recursion budget of \<open>call_nested\<close>; re-embedding a cache is given fuel, and more
  fuel than there are stale entries is proved to be enough; every other loop is a recursion that HOL accepts as
  terminating.  One clock reading serves all steps of a request.  Numbers Python computes as floats are exact reals;
  addresses are machine words.

  \<^bold>\<open>Parameters.\<close>  Code outside the repository is an argument, most often a field of a record \<open>..._env\<close>: DNS and URL
  parsing, JWT and key derivation, digests, ciphers, JSON and UTF-8 coding, HTTP, the vector and text indexes, the
  WebAssembly runtime, and the program of a code tool.  What the proofs rely on of them is a named hypothesis.

  \<^bold>\<open>Not modelled.\<close>  Telemetry, metrics and audit rows (no result depends on them); templates, the construction of the web
  application and the command-line scripts; index definitions and field encryption, which are calls of a driver; seed
  documents; the exporter, which prints source text from templates; the in-guest half of the sandbox worker, which runs inside the WebAssembly interpreter; the reaper, watcher and reprovisioning loops, which call modelled operations on a timer; and the admin handlers of the other files of \<open>gateway/routers/admin/\<close>, which mostly format what a modelled service returns.
\<close>

end
